(* ===== verification/Prelude.thy ===== *)
theory Prelude
  imports Main "HOL-Library.Word" "HOL-Library.Sublist"
begin

text \<open>
  Shared vocabulary of the development: what the C++ sources use of
  \<^verbatim>\<open>std::string\<close> (a byte string is a \<open>string\<close>, a position is a \<open>nat\<close>, \<^verbatim>\<open>npos\<close> is
  \<open>None\<close>), character classes, and the generic list lemmas the components rely on. The
  collections \<open>str_simps\<close> and \<open>step_simps\<close> gather the rewriting rules of the string layer
  and of the stateful components.
\<close>

named_theorems str_simps \<open>rewriting rules of the string layer\<close>
named_theorems step_simps \<open>definitions of the operations of the stateful components\<close>

type_synonym u16 = "16 word"
type_synonym u32 = "32 word"
type_synonym u64 = "64 word"

subsection \<open>Bytes\<close>

abbreviation chr_quote :: char where "chr_quote \<equiv> CHR 0x22"
abbreviation chr_backslash :: char where "chr_backslash \<equiv> CHR 0x5C"
abbreviation chr_tab :: char where "chr_tab \<equiv> CHR 0x09"
abbreviation chr_newline :: char where "chr_newline \<equiv> CHR 0x0A"
abbreviation chr_return :: char where "chr_return \<equiv> CHR 0x0D"
abbreviation chr_nul :: char where "chr_nul \<equiv> CHR 0x00"

definition byte_of :: "char \<Rightarrow> nat" where
  "byte_of c = of_char c"

definition is_digit :: "char \<Rightarrow> bool" where
  "is_digit c \<longleftrightarrow> 48 \<le> byte_of c \<and> byte_of c \<le> 57"

definition digit_val :: "char \<Rightarrow> nat" where
  "digit_val c = byte_of c - 48"

definition hex_val :: "char \<Rightarrow> nat option" where
  "hex_val c =
     (if 48 \<le> byte_of c \<and> byte_of c \<le> 57 then Some (byte_of c - 48)
      else if 97 \<le> byte_of c \<and> byte_of c \<le> 102 then Some (byte_of c - 97 + 10)
      else if 65 \<le> byte_of c \<and> byte_of c \<le> 70 then Some (byte_of c - 65 + 10)
      else None)"

lemma byte_of_less [simp]: "byte_of c < 256"
  by (simp add: byte_of_def)

lemma hex_val_less: "hex_val c = Some v \<Longrightarrow> v < 16"
  by (auto simp: hex_val_def split: if_splits)

subsection \<open>Searching: \<^verbatim>\<open>std::string::find\<close> and \<^verbatim>\<open>compare\<close>\<close>

fun find_from :: "string \<Rightarrow> nat \<Rightarrow> string \<Rightarrow> nat option" where
  "find_from needle i s =
     (if prefix needle s then Some i
      else case s of [] \<Rightarrow> None | c # t \<Rightarrow> find_from needle (Suc i) t)"

declare find_from.simps [simp del]

definition str_find :: "string \<Rightarrow> string \<Rightarrow> nat \<Rightarrow> nat option" where
  "str_find s needle pos = (if pos > length s then None else find_from needle pos (drop pos s))"

definition str_compare_eq :: "string \<Rightarrow> nat \<Rightarrow> nat \<Rightarrow> string \<Rightarrow> bool" where
  "str_compare_eq s pos n t \<longleftrightarrow> take n (drop pos s) = t"

definition str_substr :: "string \<Rightarrow> nat \<Rightarrow> nat \<Rightarrow> string" where
  "str_substr s pos n = take n (drop pos s)"

lemma all_le_Suc_split: "(\<forall>k\<le>Suc n. P k) \<longleftrightarrow> P 0 \<and> (\<forall>k\<le>n. P (Suc k))"
proof
  assume r: "P 0 \<and> (\<forall>k\<le>n. P (Suc k))"
  show "\<forall>k\<le>Suc n. P k"
  proof (intro allI impI)
    fix k assume "k \<le> Suc n"
    with r show "P k" by (cases k) auto
  qed
qed auto

lemma find_from_Some:
  "find_from needle i s = Some j \<Longrightarrow>
     i \<le> j \<and> j \<le> i + length s \<and> prefix needle (drop (j - i) s) \<and>
     (\<forall>k<j - i. \<not> prefix needle (drop k s))"
proof (induction needle i s rule: find_from.induct)
  case (1 needle i s)
  show ?case
  proof (cases "prefix needle s")
    case True
    with 1 show ?thesis by (simp add: find_from.simps)
  next
    case False
    with 1(2) obtain c t where s: "s = c # t" and r: "find_from needle (Suc i) t = Some j"
      by (auto simp: find_from.simps [of needle i s] split: list.splits)
    have IH: "Suc i \<le> j \<and> j \<le> Suc i + length t \<and> prefix needle (drop (j - Suc i) t) \<and>
        (\<forall>k<j - Suc i. \<not> prefix needle (drop k t))"
      using 1(1) [OF False s r] .
    have "drop (j - i) s = drop (j - Suc i) t"
      using IH s by (simp add: drop_Cons' Suc_diff_le)
    moreover have "\<not> prefix needle (drop k s)" if "k < j - i" for k
      using IH False that by (cases k) (auto simp: s)
    ultimately show ?thesis using IH s by auto
  qed
qed

lemma find_from_None:
  "find_from needle i s = None \<longleftrightarrow> (\<forall>k\<le>length s. \<not> prefix needle (drop k s))"
proof (induction needle i s rule: find_from.induct)
  case (1 needle i s)
  show ?case
  proof (cases "prefix needle s")
    case True
    then show ?thesis by (auto simp: find_from.simps [of needle i s] intro!: exI [of _ 0])
  next
    case False
    show ?thesis
    proof (cases s)
      case Nil
      with False show ?thesis by (simp add: find_from.simps [of needle i])
    next
      case (Cons c t)
      have "(\<forall>k\<le>length s. \<not> prefix needle (drop k s)) \<longleftrightarrow>
            (\<forall>k\<le>length t. \<not> prefix needle (drop k t))"
        using False by (simp add: Cons all_le_Suc_split)
      with 1(1) [OF False Cons] False Cons show ?thesis
        by (simp add: find_from.simps [of needle i "c # t"])
    qed
  qed
qed

lemma str_find_Some:
  assumes "str_find s needle pos = Some j"
  shows "pos \<le> j" and "j + length needle \<le> length s" and "take (length needle) (drop j s) = needle"
proof -
  from assms have p: "pos \<le> length s" and f: "find_from needle pos (drop pos s) = Some j"
    by (auto simp: str_find_def split: if_splits)
  from find_from_Some [OF f] have *: "pos \<le> j" "j \<le> length s" "prefix needle (drop j s)"
    using p by auto
  then show "pos \<le> j" by simp
  from *(3) have "length needle \<le> length (drop j s)"
    by (rule prefix_length_le)
  with *(2) show "j + length needle \<le> length s" by simp
  from *(3) show "take (length needle) (drop j s) = needle"
    by (auto simp: prefix_def)
qed

lemma str_find_char:
  "str_find s [c] pos = Some p \<Longrightarrow> pos \<le> p \<and> p < length s \<and> s ! p = c"
  using str_find_Some [of s "[c]" pos p] by (auto simp: take_Suc_conv_app_nth hd_drop_conv_nth take_Suc)

lemma str_find_first:
  assumes "str_find s needle pos = Some j" and "pos \<le> k" and "k < j"
  shows "take (length needle) (drop k s) \<noteq> needle"
proof
  assume eq: "take (length needle) (drop k s) = needle"
  from assms(1) have f: "find_from needle pos (drop pos s) = Some j"
    by (auto simp: str_find_def split: if_splits)
  have "k - pos < j - pos" using assms(2,3) by simp
  with find_from_Some [OF f] have "\<not> prefix needle (drop (k - pos) (drop pos s))"
    by blast
  with assms(2) have "\<not> prefix needle (drop k s)" by simp
  then show False using eq by (metis take_is_prefix)
qed

subsection \<open>Lists\<close>

lemma nth_drop_0: "i < length s \<Longrightarrow> drop i s = s ! i # drop (Suc i) s"
  by (simp add: Cons_nth_drop_Suc)

lemma dropWhile_length: "length (dropWhile P xs) \<le> length xs"
  by (induction xs) auto

section \<open>Steps that make calls\<close>

text \<open>Steps run in order, each returning the calls it makes and the state it leaves.\<close>

fun run_steps :: "('s \<Rightarrow> 'c list \<times> 's) list \<Rightarrow> 's \<Rightarrow> 'c list \<times> 's" where
  "run_steps [] s = ([], s)"
| "run_steps (f # fs) s = (case f s of (c, s') \<Rightarrow> (case run_steps fs s' of (c', s'') \<Rightarrow> (c @ c', s'')))"

lemma run_steps_append:
  "run_steps (fs @ gs) s = (case run_steps fs s of (c, s') \<Rightarrow> (case run_steps gs s' of (c', s'') \<Rightarrow> (c @ c', s'')))"
  by (induction fs arbitrary: s) (auto split: prod.splits)

lemma run_steps_fst: "fst (run_steps (f # fs) s) = fst (f s) @ fst (run_steps fs (snd (f s)))"
  by (simp split: prod.splits)

lemma run_steps_snd: "snd (run_steps (f # fs) s) = snd (run_steps fs (snd (f s)))"
  by (simp split: prod.splits)

text \<open>What every step keeps, the run keeps; a call the run makes is made by one of its steps.\<close>

lemma run_steps_invariant:
  assumes "\<And>f s. f \<in> set fs \<Longrightarrow> P s \<Longrightarrow> P (snd (f s))" and "P s"
  shows "P (snd (run_steps fs s))"
  using assms by (induction fs arbitrary: s) (simp_all add: run_steps_snd del: run_steps.simps(2))

lemma run_steps_calls:
  assumes "\<And>f s x. f \<in> set fs \<Longrightarrow> P s \<Longrightarrow> P (snd (f s)) \<and> (x \<in> set (fst (f s)) \<longrightarrow> Q x)" and "P s"
  shows "x \<in> set (fst (run_steps fs s)) \<Longrightarrow> Q x"
  using assms by (induction fs arbitrary: s) (auto simp: run_steps_fst simp del: run_steps.simps(2))

end
