(* ===== verification/Json_Strings.thy ===== *)
theory Json_Strings
  imports Prelude
begin

unbundle bit_operations_syntax

text \<open>
  The string half of \<^verbatim>\<open>PeerJson.hpp\<close>: escaping, the UTF-8 encoder, the four-digit hex
  reader and the decoder of a JSON string body. Code points are \<open>32 word\<close> values as in the
  source; a refused string is the empty string, as the source's \<^verbatim>\<open>return {}\<close> makes it.
\<close>

section \<open>Definitions\<close>

definition json_escape :: "string \<Rightarrow> string" where
  "json_escape s =
     concat (map (\<lambda>c. if c = chr_quote \<or> c = chr_backslash then [chr_backslash, c] else [c]) s)"

definition byte_char :: "u32 \<Rightarrow> char" where
  "byte_char w = char_of (unat w)"

definition append_utf8 :: "string \<Rightarrow> u32 \<Rightarrow> string" where
  "append_utf8 out cp =
     (if cp \<le> 0x7F then out @ [byte_char cp]
      else if cp \<le> 0x7FF then
        out @ [byte_char (0xC0 OR drop_bit 6 cp), byte_char (0x80 OR (cp AND 0x3F))]
      else if cp \<le> 0xFFFF then
        out @ [byte_char (0xE0 OR drop_bit 12 cp),
               byte_char (0x80 OR (drop_bit 6 cp AND 0x3F)),
               byte_char (0x80 OR (cp AND 0x3F))]
      else
        out @ [byte_char (0xF0 OR drop_bit 18 cp),
               byte_char (0x80 OR (drop_bit 12 cp AND 0x3F)),
               byte_char (0x80 OR (drop_bit 6 cp AND 0x3F)),
               byte_char (0x80 OR (cp AND 0x3F))])"

fun hex4_loop :: "string \<Rightarrow> u32 \<Rightarrow> u32 option" where
  "hex4_loop [] v = Some v"
| "hex4_loop (c # cs) v =
     (case hex_val c of None \<Rightarrow> None | Some d \<Rightarrow> hex4_loop cs (push_bit 4 v OR of_nat d))"

definition json_hex4 :: "string \<Rightarrow> nat \<Rightarrow> u32 option" where
  "json_hex4 s pos = (if pos + 4 > length s then None else hex4_loop (take 4 (drop pos s)) 0)"

text \<open>
  One \<^verbatim>\<open>\uXXXX\<close> escape whose \<^verbatim>\<open>u\<close> is at \<open>i\<close>: the code point it stands for and the index of
  its last byte; a lone or mispaired surrogate is U+FFFD.
\<close>

definition json_unicode_escape :: "string \<Rightarrow> nat \<Rightarrow> (u32 \<times> nat) option" where
  "json_unicode_escape s i =
     (case json_hex4 s (i + 1) of
        None \<Rightarrow> None
      | Some cp \<Rightarrow>
          let i = i + 4 in
          if 0xD800 \<le> cp \<and> cp \<le> 0xDBFF then
            (case (if i + 6 < length s \<and> s ! (i + 1) = chr_backslash \<and> s ! (i + 2) = CHR ''u''
                   then json_hex4 s (i + 3) else None) of
               Some lo \<Rightarrow>
                 if 0xDC00 \<le> lo \<and> lo \<le> 0xDFFF
                 then Some (0x10000 + push_bit 10 (cp - 0xD800) + (lo - 0xDC00), i + 6)
                 else Some (0xFFFD, i)
             | None \<Rightarrow> Some (0xFFFD, i))
          else if 0xDC00 \<le> cp \<and> cp \<le> 0xDFFF then Some (0xFFFD, i)
          else Some (cp, i))"

text \<open>The \<^verbatim>\<open>switch\<close> on the byte after a backslash, at index \<open>i\<close>.\<close>

definition json_escape_at :: "string \<Rightarrow> nat \<Rightarrow> (string \<times> nat) option" where
  "json_escape_at s i =
     (let c = s ! i in
      if c = chr_quote then Some ([chr_quote], i)
      else if c = chr_backslash then Some ([chr_backslash], i)
      else if c = CHR ''/'' then Some ([CHR ''/''], i)
      else if c = CHR ''b'' then Some ([CHR 0x08], i)
      else if c = CHR ''f'' then Some ([CHR 0x0C], i)
      else if c = CHR ''n'' then Some ([CHR 0x0A], i)
      else if c = CHR ''r'' then Some ([CHR 0x0D], i)
      else if c = CHR ''t'' then Some ([CHR 0x09], i)
      else if c = CHR ''u'' then
        (case json_unicode_escape s i of
           None \<Rightarrow> None
         | Some (cp, j) \<Rightarrow> Some (append_utf8 [] cp, j))
      else None)"

lemma json_unicode_escape_progress: "json_unicode_escape s i = Some (cp, j) \<Longrightarrow> i \<le> j"
  by (auto simp: json_unicode_escape_def Let_def split: option.splits if_splits)

lemma json_escape_at_progress: "json_escape_at s i = Some (bs, j) \<Longrightarrow> i \<le> j"
  by (auto simp: json_escape_at_def Let_def dest: json_unicode_escape_progress
           split: if_splits option.splits)

function json_decode_loop :: "string \<Rightarrow> nat \<Rightarrow> string \<Rightarrow> string" where
  "json_decode_loop s i out =
     (if i \<ge> length s then []
      else if s ! i = chr_quote then out
      else if s ! i \<noteq> chr_backslash then json_decode_loop s (Suc i) (out @ [s ! i])
      else if Suc i \<ge> length s then []
      else case json_escape_at s (Suc i) of
             None \<Rightarrow> []
           | Some (bs, j) \<Rightarrow> json_decode_loop s (Suc j) (out @ bs))"
  by pat_completeness auto
termination
  by (relation "measure (\<lambda>(s, i, out). length s - i)")
     (auto dest!: json_escape_at_progress)

declare json_decode_loop.simps [simp del]

definition json_decode_string_at :: "string \<Rightarrow> nat \<Rightarrow> string" where
  "json_decode_string_at s pos = json_decode_loop s pos []"

definition json_string_field :: "string \<Rightarrow> string \<Rightarrow> string" where
  "json_string_field s key =
     (let needle = [chr_quote] @ key @ [chr_quote, CHR '':'', chr_quote] in
      case str_find s needle 0 of
        None \<Rightarrow> []
      | Some pos \<Rightarrow> json_decode_string_at s (pos + length needle))"

section \<open>Escaping is undone by decoding\<close>

lemma json_escape_Nil [simp]: "json_escape [] = []"
  by (simp add: json_escape_def)

lemma json_escape_Cons [simp]:
  "json_escape (c # s) =
     (if c = chr_quote \<or> c = chr_backslash then [chr_backslash, c] else [c]) @ json_escape s"
  by (simp add: json_escape_def)

lemma json_decode_loop_quote [str_simps]:
  "json_decode_loop (pre @ chr_quote # rest) (length pre) out = out"
  by (simp add: json_decode_loop.simps [of "pre @ _" "length pre"])

lemma json_decode_loop_raw:
  "c \<noteq> chr_quote \<Longrightarrow> c \<noteq> chr_backslash \<Longrightarrow>
   json_decode_loop (pre @ c # rest) (length pre) out =
   json_decode_loop ((pre @ [c]) @ rest) (length (pre @ [c])) (out @ [c])"
  by (simp add: json_decode_loop.simps [of "pre @ c # rest" "length pre"])

lemma json_decode_loop_escaped:
  "c = chr_quote \<or> c = chr_backslash \<Longrightarrow>
   json_decode_loop (pre @ chr_backslash # c # rest) (length pre) out =
   json_decode_loop ((pre @ [chr_backslash, c]) @ rest) (length (pre @ [chr_backslash, c])) (out @ [c])"
  by (auto simp: json_decode_loop.simps [of "pre @ chr_backslash # c # rest" "length pre"]
        json_escape_at_def nth_append)

lemma json_decode_loop_escape:
  "json_decode_loop (pre @ json_escape t @ chr_quote # rest) (length pre) out = out @ t"
proof (induction t arbitrary: pre out)
  case Nil
  show ?case by (simp add: json_decode_loop_quote)
next
  case (Cons c t)
  show ?case
  proof (cases "c = chr_quote \<or> c = chr_backslash")
    case True
    have "json_decode_loop (pre @ json_escape (c # t) @ chr_quote # rest) (length pre) out
        = json_decode_loop ((pre @ [chr_backslash, c]) @ json_escape t @ chr_quote # rest)
            (length (pre @ [chr_backslash, c])) (out @ [c])"
      using json_decode_loop_escaped [OF True, of pre "json_escape t @ chr_quote # rest" out] True
      by simp
    then show ?thesis
      using Cons.IH [of "pre @ [chr_backslash, c]" "out @ [c]"] by simp
  next
    case False
    then have "json_decode_loop (pre @ json_escape (c # t) @ chr_quote # rest) (length pre) out
        = json_decode_loop ((pre @ [c]) @ json_escape t @ chr_quote # rest)
            (length (pre @ [c])) (out @ [c])"
      using json_decode_loop_raw [of c pre "json_escape t @ chr_quote # rest" out] by simp
    then show ?thesis
      using Cons.IH [of "pre @ [c]" "out @ [c]"] by simp
  qed
qed

section \<open>UTF-8\<close>

text \<open>
  The reference: a strict UTF-8 decoder of one code point, which refuses overlong forms,
  surrogates and anything past U+10FFFF.
\<close>

definition is_scalar :: "nat \<Rightarrow> bool" where
  "is_scalar n \<longleftrightarrow> n < 0xD800 \<or> (0xDFFF < n \<and> n \<le> 0x10FFFF)"

definition is_cont :: "nat \<Rightarrow> bool" where
  "is_cont b \<longleftrightarrow> 0x80 \<le> b \<and> b < 0xC0"

fun utf8_next :: "nat list \<Rightarrow> (nat \<times> nat list) option" where
  "utf8_next [] = None"
| "utf8_next (b0 # bs) =
     (if b0 < 0x80 then Some (b0, bs)
      else if 0xC0 \<le> b0 \<and> b0 < 0xE0 then
        (case bs of b1 # r \<Rightarrow>
           let n = (b0 - 0xC0) * 64 + (b1 - 0x80) in
           if is_cont b1 \<and> 0x80 \<le> n then Some (n, r) else None
         | _ \<Rightarrow> None)
      else if 0xE0 \<le> b0 \<and> b0 < 0xF0 then
        (case bs of b1 # b2 # r \<Rightarrow>
           let n = (b0 - 0xE0) * 4096 + (b1 - 0x80) * 64 + (b2 - 0x80) in
           if is_cont b1 \<and> is_cont b2 \<and> 0x800 \<le> n \<and> is_scalar n then Some (n, r) else None
         | _ \<Rightarrow> None)
      else if 0xF0 \<le> b0 \<and> b0 < 0xF8 then
        (case bs of b1 # b2 # b3 # r \<Rightarrow>
           let n = (b0 - 0xF0) * 262144 + (b1 - 0x80) * 4096 + (b2 - 0x80) * 64 + (b3 - 0x80) in
           if is_cont b1 \<and> is_cont b2 \<and> is_cont b3 \<and> 0x10000 \<le> n \<and> is_scalar n
           then Some (n, r) else None
         | _ \<Rightarrow> None)
      else None)"

lemma or_disjoint_add:
  assumes "n < 2 ^ k"
  shows "(2 ^ k * a) OR n = 2 ^ k * a + (n::nat)"
proof -
  have "push_bit k a AND n = 0"
  proof (rule bit_eqI)
    fix m
    have "\<not> bit n m" if "k \<le> m"
    proof -
      have "n < 2 ^ m" using assms power_increasing [OF that, of "2::nat"] by linarith
      then show ?thesis by (simp add: bit_iff_odd)
    qed
    then show "bit (push_bit k a AND n) m \<longleftrightarrow> bit (0::nat) m"
      by (auto simp: bit_and_iff bit_push_bit_iff)
  qed
  then show ?thesis
    using disjunctive_add_eq_or [of "push_bit k a" n] by (simp add: push_bit_eq_mult mult.commute)
qed

lemma or_plus_128: "n < 64 \<Longrightarrow> (128::nat) OR n = 128 + n"
  using or_disjoint_add [of n 6 2] by simp

lemma or_plus_192: "n < 32 \<Longrightarrow> (192::nat) OR n = 192 + n"
  using or_disjoint_add [of n 5 6] by simp

lemma or_plus_224: "n < 16 \<Longrightarrow> (224::nat) OR n = 224 + n"
  using or_disjoint_add [of n 4 14] by simp

lemma or_plus_240: "n < 8 \<Longrightarrow> (240::nat) OR n = 240 + n"
  using or_disjoint_add [of n 3 30] by simp

lemmas or_plus = or_plus_128 or_plus_192 or_plus_224 or_plus_240

lemma and_63: "(n::nat) AND 63 = n mod 64"
  using take_bit_eq_mask [of 6 n] take_bit_eq_mod [of 6 n]
  by (simp add: mask_eq_exp_minus_1)

lemma unat_drop_bit: "unat (drop_bit k (w :: u32)) = unat w div 2 ^ k"
  by (simp only: unat_drop_bit_eq drop_bit_eq_div [of k "unat w"])

lemmas unat_bits = unsigned_or_eq unsigned_and_eq unat_drop_bit

lemma byte_of_byte_char: "byte_of (byte_char w) = unat w mod 256"
  by (simp add: byte_of_def byte_char_def)

definition utf8_bytes :: "u32 \<Rightarrow> nat list" where
  "utf8_bytes cp = map byte_of (append_utf8 [] cp)"

lemma append_utf8_append: "append_utf8 out cp = out @ append_utf8 [] cp"
  by (simp add: append_utf8_def)

lemma word_le_numeral: "(cp :: u32) \<le> numeral k \<longleftrightarrow> unat cp \<le> unat (numeral k :: u32)"
  by (rule word_le_nat_alt)

lemma utf8_bytes_eq:
  assumes "unat cp \<le> 0x10FFFF"
  shows "utf8_bytes cp =
     (let n = unat cp in
      if n \<le> 0x7F then [n]
      else if n \<le> 0x7FF then [192 + n div 64, 128 + n mod 64]
      else if n \<le> 0xFFFF then [224 + n div 4096, 128 + n div 64 mod 64, 128 + n mod 64]
      else [240 + n div 262144, 128 + n div 4096 mod 64, 128 + n div 64 mod 64, 128 + n mod 64])"
proof -
  let ?n = "unat cp"
  have "?n \<le> 0x7FF \<Longrightarrow> ?n div 64 < 32" and "?n \<le> 0xFFFF \<Longrightarrow> ?n div 4096 < 16"
    and "?n div 262144 < 8"
    using assms by auto
  then show ?thesis
    by (auto simp: utf8_bytes_def append_utf8_def byte_of_byte_char unat_bits and_63 or_plus
          Let_def word_le_nat_alt)
qed

lemma utf8_next_two:
  "a < 32 \<Longrightarrow> b < 64 \<Longrightarrow> n = a * 64 + b \<Longrightarrow> 0x7F < n \<Longrightarrow>
   utf8_next ((192 + a) # (128 + b) # r) = Some (n, r)"
  by (simp add: is_cont_def)

lemma utf8_next_three:
  "a < 16 \<Longrightarrow> b < 64 \<Longrightarrow> c < 64 \<Longrightarrow> n = a * 4096 + b * 64 + c \<Longrightarrow> 0x7FF < n \<Longrightarrow> is_scalar n \<Longrightarrow>
   utf8_next ((224 + a) # (128 + b) # (128 + c) # r) = Some (n, r)"
  by (simp add: is_cont_def)

lemma utf8_next_four:
  "a < 8 \<Longrightarrow> b < 64 \<Longrightarrow> c < 64 \<Longrightarrow> d < 64 \<Longrightarrow> n = a * 262144 + b * 4096 + c * 64 + d \<Longrightarrow>
   0xFFFF < n \<Longrightarrow> is_scalar n \<Longrightarrow>
   utf8_next ((240 + a) # (128 + b) # (128 + c) # (128 + d) # r) = Some (n, r)"
  by (simp add: is_cont_def)

lemma utf8_next_utf8_bytes:
  assumes "is_scalar (unat cp)"
  shows "utf8_next (utf8_bytes cp @ r) = Some (unat cp, r)"
proof -
  define n where "n = unat cp"
  have le: "n \<le> 0x10FFFF" and sc: "is_scalar n"
    using assms by (auto simp: is_scalar_def n_def)
  have d: "n div 64 div 64 = n div 4096" "n div 4096 div 64 = n div 262144"
    by (simp_all add: div_mult2_eq [symmetric])
  have e1: "n = n div 64 * 64 + n mod 64" by simp
  have "n div 64 = n div 4096 * 64 + n div 64 mod 64"
    unfolding d(1) [symmetric] by simp
  with e1 have e2: "n = n div 4096 * 4096 + n div 64 mod 64 * 64 + n mod 64" by linarith
  have "n div 4096 = n div 262144 * 64 + n div 4096 mod 64"
    unfolding d(2) [symmetric] by simp
  with e2 have e3:
    "n = n div 262144 * 262144 + n div 4096 mod 64 * 4096 + n div 64 mod 64 * 64 + n mod 64"
    by linarith
  consider "n \<le> 0x7F" | "0x7F < n" "n \<le> 0x7FF" | "0x7FF < n" "n \<le> 0xFFFF" | "0xFFFF < n"
    by linarith
  then show ?thesis
  proof cases
    case 1
    then show ?thesis using utf8_bytes_eq [of cp] le by (simp add: n_def Let_def)
  next
    case 2
    then have "utf8_bytes cp = [192 + n div 64, 128 + n mod 64]"
      using utf8_bytes_eq [of cp] le by (simp add: n_def Let_def)
    moreover have "n div 64 < 32" using 2 by simp
    ultimately show ?thesis
      using utf8_next_two [OF _ _ e1, of r] 2 by (simp add: n_def [symmetric] del: utf8_next.simps)
  next
    case 3
    then have "utf8_bytes cp = [224 + n div 4096, 128 + n div 64 mod 64, 128 + n mod 64]"
      using utf8_bytes_eq [of cp] le by (simp add: n_def Let_def)
    moreover have "n div 4096 < 16" using 3 by simp
    ultimately show ?thesis
      using utf8_next_three [OF _ _ _ e2, of r] 3 sc by (simp add: n_def [symmetric] del: utf8_next.simps)
  next
    case 4
    then have "utf8_bytes cp =
        [240 + n div 262144, 128 + n div 4096 mod 64, 128 + n div 64 mod 64, 128 + n mod 64]"
      using utf8_bytes_eq [of cp] le by (simp add: n_def Let_def)
    moreover have "n div 262144 < 8" using le by simp
    ultimately show ?thesis
      using utf8_next_four [OF _ _ _ _ e3, of r] 4 sc by (simp add: n_def [symmetric] del: utf8_next.simps)
  qed
qed

section \<open>Unicode escapes decode to scalar values\<close>

fun hex_nat :: "string \<Rightarrow> nat \<Rightarrow> nat option" where
  "hex_nat [] v = Some v"
| "hex_nat (c # cs) v = (case hex_val c of None \<Rightarrow> None | Some d \<Rightarrow> hex_nat cs (16 * v + d))"

lemma push_or_16:
  assumes "d < 16" and "v < 2 ^ 28"
  shows "unat (push_bit 4 (of_nat v) OR of_nat d :: u32) = 16 * v + d"
proof -
  have or: "16 * v OR d = 16 * v + d"
    using or_disjoint_add [of d 4 v] assms(1) by simp
  have p: "push_bit 4 (of_nat v) = (of_nat (16 * v) :: u32)"
    by (simp add: push_bit_eq_mult)
  have "unat (of_nat (16 * v) :: u32) = 16 * v" and "unat (of_nat d :: u32) = d"
    using assms by (simp_all only: unat_of_nat) simp_all
  then have "unat (push_bit 4 (of_nat v) OR of_nat d :: u32) = (16 * v) OR d"
    by (simp only: p unsigned_or_eq)
  also have "\<dots> = 16 * v + d" by (rule or)
  finally show ?thesis .
qed

lemma hex4_loop_hex_nat:
  "v < 16 ^ k \<Longrightarrow> length cs + k \<le> 7 \<Longrightarrow>
   map_option unat (hex4_loop cs (of_nat v)) = hex_nat cs v \<and>
   (\<forall>r. hex_nat cs v = Some r \<longrightarrow> r < 16 ^ (length cs + k))"
proof (induction cs arbitrary: v k)
  case Nil
  have "(16::nat) ^ k \<le> 16 ^ 7" using Nil.prems(2) by (intro power_increasing) auto
  with Nil.prems show ?case by (simp add: unat_of_nat)
next
  case (Cons c cs)
  show ?case
  proof (cases "hex_val c")
    case None
    then show ?thesis by simp
  next
    case (Some d)
    have d: "d < 16" using hex_val_less [OF Some] .
    have "(16::nat) ^ k \<le> 16 ^ 6" using Cons.prems(2) by (intro power_increasing) auto
    with Cons.prems(1) have "v < 2 ^ 28" by simp
    then have "unat (push_bit 4 (of_nat v) OR of_nat d :: u32) = 16 * v + d"
      by (rule push_or_16 [OF d])
    then have "push_bit 4 (of_nat v) OR of_nat d = (of_nat (16 * v + d) :: u32)"
      using \<open>v < 2 ^ 28\<close> d by (simp only: word_unat_eq_iff unat_of_nat) simp
    moreover have "16 * v + d < 16 ^ Suc k" using Cons.prems(1) d by simp
    ultimately show ?thesis
      using Cons.IH [of "16 * v + d" "Suc k"] Cons.prems(2) Some by simp
  qed
qed

lemma json_hex4_eq:
  "map_option unat (json_hex4 s pos) =
     (if pos + 4 \<le> length s then hex_nat (take 4 (drop pos s)) 0 else None)"
  using hex4_loop_hex_nat [of 0 0 "take 4 (drop pos s)"] by (auto simp: json_hex4_def)

lemma json_hex4_less: "json_hex4 s pos = Some v \<Longrightarrow> unat v < 0x10000"
  using hex4_loop_hex_nat [of 0 0 "take 4 (drop pos s)"]
  by (auto simp: json_hex4_def split: if_splits)

lemma surrogate_pair_value:
  assumes "0xD800 \<le> hi" "hi \<le> 0xDBFF" "0xDC00 \<le> lo" "lo \<le> (0xDFFF :: u32)"
  shows "unat (0x10000 + push_bit 10 (hi - 0xD800) + (lo - 0xDC00) :: u32) =
         0x10000 + (unat hi - 0xD800) * 1024 + (unat lo - 0xDC00)"
proof -
  have h: "unat (hi - 0xD800) = unat hi - 0xD800" and l: "unat (lo - 0xDC00) = unat lo - 0xDC00"
    using assms by (simp_all add: unat_sub)
  have hb: "unat hi - 0xD800 < 0x400" and lb: "unat lo - 0xDC00 < 0x400"
    using assms by (simp_all add: word_le_nat_alt)
  have "push_bit 10 (hi - 0xD800) = of_nat ((unat hi - 0xD800) * 1024)"
    unfolding h [symmetric] by (simp add: push_bit_eq_mult)
  then have "0x10000 + push_bit 10 (hi - 0xD800) + (lo - 0xDC00) =
      (of_nat (0x10000 + (unat hi - 0xD800) * 1024 + (unat lo - 0xDC00)) :: u32)"
    unfolding l [symmetric] by simp
  moreover have "0x10000 + (unat hi - 0xD800) * 1024 + (unat lo - 0xDC00) < 2 ^ LENGTH(32)"
    using hb lb by simp
  ultimately show ?thesis by (simp only: unat_of_nat) simp
qed

lemma json_unicode_escape_scalar:
  assumes "json_unicode_escape s i = Some (cp, j)"
  shows "is_scalar (unat cp)"
proof -
  obtain v where v: "json_hex4 s (i + 1) = Some v" and vb: "unat v < 0x10000"
    using assms json_hex4_less by (fastforce simp: json_unicode_escape_def split: option.splits)
  show ?thesis
    using assms vb v surrogate_pair_value
    by (auto simp: json_unicode_escape_def Let_def is_scalar_def word_le_nat_alt
             split: if_splits option.splits)
qed

section \<open>Round trip and decoded text\<close>

text \<open>
  Escaping is undone by decoding. Whatever bytes a string holds, quotes and backslashes
  included, writing it with \<^verbatim>\<open>json_escape\<close> between quotes anywhere in a line and reading it back from
  the byte after the opening quote gives the string, and reads no further than its closing quote.
\<close>

theorem json_escape_decode:
  "json_decode_string_at (pre @ chr_quote # json_escape t @ chr_quote # rest) (length pre + 1) = t"
  using json_decode_loop_escape [of "pre @ [chr_quote]" t rest "[]"] by (simp add: json_decode_string_at_def)

text \<open>
  An escape never decodes to broken text. Whatever a \<^verbatim>\<open>\u\<close> escape at any position of any
  line says (lone, swapped or mispaired surrogates included), the code point it yields is a Unicode
  scalar value, and the bytes appended for it are its well-formed UTF-8: a strict decoder reads
  exactly that code point back and nothing after it is consumed.
\<close>

theorem json_unicode_escape_utf8:
  "json_unicode_escape s i = Some (cp, j) \<Longrightarrow>
   is_scalar (unat cp) \<and> utf8_next (map byte_of (append_utf8 [] cp) @ r) = Some (unat cp, r)"
  using utf8_next_utf8_bytes [OF json_unicode_escape_scalar, of s i cp j r] json_unicode_escape_scalar [of s i cp j]
  by (simp add: utf8_bytes_def)

theorem json_unicode_escape_utf8_witness:
  "json_unicode_escape ''uD83D'' 0 = Some (0xFFFD, 4) \<and>
   utf8_next (map byte_of (append_utf8 [] 0xFFFD) @ [65]) = Some (0xFFFD, [65])"
proof -
  have "json_unicode_escape ''uD83D'' 0 = Some (0xFFFD, 4)"
    by (simp add: json_unicode_escape_def json_hex4_def is_digit_def digit_val_def hex_val_def byte_of_def)
  with json_unicode_escape_utf8 [OF this, of "[65]"] show ?thesis by simp
qed

end
