(* ===== verification/Json_Scan.thy ===== *)
theory Json_Scan
  imports Json_Strings
begin

text \<open>
  Scoped reading in \<^verbatim>\<open>PeerJson.hpp\<close>: the scanners that walk one line by index, tracking depth
  and string state. An index is a \<open>nat\<close>, \<^verbatim>\<open>npos\<close> and a \<^verbatim>\<open>false\<close> return with out-parameters
  are \<open>None\<close>; every loop carries a measure, so each scanner returns on every input. The locale
  \<open>depth_scanner\<close> states what the three depth-counting loops share, and its interpretations
  give the lemma that a scan steps over any well-formed JSON text.
\<close>

section \<open>Definitions\<close>

definition json_is_space :: "char \<Rightarrow> bool" where
  "json_is_space c \<longleftrightarrow> c = CHR '' '' \<or> c = chr_tab \<or> c = chr_newline \<or> c = chr_return"

function skip_string_loop :: "string \<Rightarrow> nat \<Rightarrow> nat \<Rightarrow> nat option" where
  "skip_string_loop s i e =
     (if i \<ge> e then None
      else if s ! i = chr_backslash then skip_string_loop s (i + 2) e
      else if s ! i = chr_quote then Some i
      else skip_string_loop s (i + 1) e)"
  by pat_completeness auto
termination
  by (relation "measure (\<lambda>(s, i, e). e - i)") auto

declare skip_string_loop.simps [simp del]

definition json_skip_string :: "string \<Rightarrow> nat \<Rightarrow> nat \<Rightarrow> nat option" where
  "json_skip_string s i e = skip_string_loop s (i + 1) e"

lemma skip_string_loop_bounds: "skip_string_loop s i e = Some j \<Longrightarrow> i \<le> j \<and> j < e \<and> s ! j = chr_quote"
proof (induction s i e rule: skip_string_loop.induct)
  case (1 s i e)
  show ?case
    using 1 by (auto simp: skip_string_loop.simps [of s i e] split: if_splits)
qed

lemma json_skip_string_bounds:
  assumes "json_skip_string s i e = Some j"
  shows "i < j" and "j < e" and "s ! j = chr_quote"
  using skip_string_loop_bounds [of s "i + 1" e j] assms by (auto simp: json_skip_string_def)

lemma json_skip_string_progress: "json_skip_string s i e = Some j \<Longrightarrow> i < j \<and> j < e"
  using json_skip_string_bounds by blast

function skip_spaces :: "string \<Rightarrow> nat \<Rightarrow> nat \<Rightarrow> nat" where
  "skip_spaces s k e = (if k < e \<and> json_is_space (s ! k) then skip_spaces s (k + 1) e else k)"
  by pat_completeness auto
termination
  by (relation "measure (\<lambda>(s, k, e). e - k)") auto

declare skip_spaces.simps [simp del]

lemma skip_spaces_ge: "k \<le> skip_spaces s k e"
proof (induction s k e rule: skip_spaces.induct)
  case (1 s k e)
  then show ?case by (subst skip_spaces.simps) auto
qed

text \<open>The match of one string at depth 0 against \<open>key\<close>: the body of the \<^verbatim>\<open>if (depth == 0)\<close> block.\<close>

definition member_hit :: "string \<Rightarrow> nat \<Rightarrow> nat \<Rightarrow> nat \<Rightarrow> string \<Rightarrow> nat option option" where
  "member_hit s start close e key =
     (let k = skip_spaces s (close + 1) e in
      if k < e \<and> s ! k = CHR '':'' \<and> close - start = length key
           \<and> str_compare_eq s start (close - start) key
      then Some (let v = skip_spaces s (k + 1) e in if v < e then Some v else None)
      else None)"

function member_loop :: "string \<Rightarrow> string \<Rightarrow> nat \<Rightarrow> nat \<Rightarrow> nat \<Rightarrow> nat option" where
  "member_loop key s e i depth =
     (if i \<ge> e then None
      else if s ! i = chr_quote then
        (case json_skip_string s i e of
           None \<Rightarrow> None
         | Some close \<Rightarrow>
             (case (if depth = 0 then member_hit s (i + 1) close e key else None) of
                Some r \<Rightarrow> r
              | None \<Rightarrow> member_loop key s e (close + 1) depth))
      else if s ! i = CHR ''{'' \<or> s ! i = CHR ''['' then member_loop key s e (i + 1) (depth + 1)
      else if s ! i = CHR ''}'' \<or> s ! i = CHR '']'' then
        (if depth = 0 then None else member_loop key s e (i + 1) (depth - 1))
      else member_loop key s e (i + 1) depth)"
  by pat_completeness auto
termination
  by (relation "measure (\<lambda>(key, s, e, i, depth). e - i)")
     (auto dest!: json_skip_string_progress)

declare member_loop.simps [simp del]

definition json_member_value :: "string \<Rightarrow> nat \<Rightarrow> nat \<Rightarrow> string \<Rightarrow> nat option" where
  "json_member_value s b e key = member_loop key s (min e (length s)) b 0"

function body_loop :: "string \<Rightarrow> nat \<Rightarrow> nat \<Rightarrow> nat \<Rightarrow> nat option" where
  "body_loop s limit i depth =
     (if i \<ge> limit then None
      else if s ! i = chr_quote then
        (case json_skip_string s i limit of
           None \<Rightarrow> None
         | Some close \<Rightarrow> body_loop s limit (close + 1) depth)
      else if s ! i = CHR ''{'' then body_loop s limit (i + 1) (depth + 1)
      else if s ! i = CHR ''}'' then
        (if depth - 1 = 0 then Some i else body_loop s limit (i + 1) (depth - 1))
      else body_loop s limit (i + 1) depth)"
  by pat_completeness auto
termination
  by (relation "measure (\<lambda>(s, limit, i, depth). limit - i)")
     (auto dest!: json_skip_string_progress)

declare body_loop.simps [simp del]

definition json_body_at :: "string \<Rightarrow> nat \<Rightarrow> nat \<Rightarrow> (nat \<times> nat) option" where
  "json_body_at s pos limit =
     (let limit = min limit (length s) in
      if pos \<ge> limit \<or> s ! pos \<noteq> CHR ''{'' then None
      else map_option (\<lambda>e. (pos + 1, e)) (body_loop s limit (pos + 1) 1))"

definition json_root_body :: "string \<Rightarrow> (nat \<times> nat) option" where
  "json_root_body s =
     (case str_find s ''{'' 0 of None \<Rightarrow> None | Some p \<Rightarrow> json_body_at s p (length s))"

definition json_object_member :: "string \<Rightarrow> nat \<Rightarrow> nat \<Rightarrow> string \<Rightarrow> (nat \<times> nat) option" where
  "json_object_member s b e key =
     (case json_member_value s b e key of None \<Rightarrow> None | Some v \<Rightarrow> json_body_at s v e)"

definition json_string_member :: "string \<Rightarrow> nat \<Rightarrow> nat \<Rightarrow> string \<Rightarrow> string" where
  "json_string_member s b e key =
     (case json_member_value s b e key of
        None \<Rightarrow> []
      | Some v \<Rightarrow> if s ! v \<noteq> chr_quote then [] else json_decode_string_at s (v + 1))"

definition json_bool_member :: "string \<Rightarrow> nat \<Rightarrow> nat \<Rightarrow> string \<Rightarrow> bool" where
  "json_bool_member s b e key =
     (case json_member_value s b e key of
        None \<Rightarrow> False
      | Some v \<Rightarrow> str_compare_eq s v 4 ''true'')"

function array_body_loop :: "string \<Rightarrow> nat \<Rightarrow> nat \<Rightarrow> nat \<Rightarrow> nat option" where
  "array_body_loop s limit i depth =
     (if i \<ge> limit then None
      else if s ! i = chr_quote then
        (case json_skip_string s i limit of
           None \<Rightarrow> None
         | Some close \<Rightarrow> array_body_loop s limit (close + 1) depth)
      else if s ! i = CHR ''['' \<or> s ! i = CHR ''{'' then array_body_loop s limit (i + 1) (depth + 1)
      else if s ! i = CHR '']'' \<or> s ! i = CHR ''}'' then
        (if depth - 1 = 0 then (if s ! i = CHR '']'' then Some i else None)
         else array_body_loop s limit (i + 1) (depth - 1))
      else array_body_loop s limit (i + 1) depth)"
  by pat_completeness auto
termination
  by (relation "measure (\<lambda>(s, limit, i, depth). limit - i)")
     (auto dest!: json_skip_string_progress)

declare array_body_loop.simps [simp del]

definition json_array_body_at :: "string \<Rightarrow> nat \<Rightarrow> nat \<Rightarrow> (nat \<times> nat) option" where
  "json_array_body_at s pos limit =
     (let limit = min limit (length s) in
      if pos \<ge> limit \<or> s ! pos \<noteq> CHR ''['' then None
      else map_option (\<lambda>e. (pos + 1, e)) (array_body_loop s limit (pos + 1) 1))"

definition json_array_member :: "string \<Rightarrow> nat \<Rightarrow> nat \<Rightarrow> string \<Rightarrow> (nat \<times> nat) option" where
  "json_array_member s b e key =
     (case json_member_value s b e key of None \<Rightarrow> None | Some v \<Rightarrow> json_array_body_at s v e)"

section \<open>Bounds\<close>

lemma body_loop_bounds: "body_loop s limit i depth = Some j \<Longrightarrow> i \<le> j \<and> j < limit \<and> s ! j = CHR ''}''"
proof (induction s limit i depth rule: body_loop.induct)
  case (1 s limit i depth)
  show ?case
    using 1 by (auto simp: body_loop.simps [of s limit i depth] split: if_splits option.splits
        dest!: json_skip_string_progress)
qed

lemma array_body_loop_bounds:
  "array_body_loop s limit i depth = Some j \<Longrightarrow> i \<le> j \<and> j < limit \<and> s ! j = CHR '']''"
proof (induction s limit i depth rule: array_body_loop.induct)
  case (1 s limit i depth)
  show ?case
    using 1 by (auto simp: array_body_loop.simps [of s limit i depth] split: if_splits option.splits
        dest!: json_skip_string_progress)
qed

lemma json_body_at_bounds:
  assumes "json_body_at s pos limit = Some (b, e)"
  shows "b = pos + 1" and "b \<le> e" and "e < limit" and "e < length s"
  using assms by (auto simp: json_body_at_def Let_def split: if_splits dest!: body_loop_bounds)

lemma json_array_body_at_bounds:
  assumes "json_array_body_at s pos limit = Some (b, e)"
  shows "b = pos + 1" and "b \<le> e" and "e < limit" and "e < length s"
  using assms by (auto simp: json_array_body_at_def Let_def split: if_splits dest!: array_body_loop_bounds)

lemma json_body_at_progress: "json_body_at s pos limit = Some (b, e) \<Longrightarrow> pos < e \<and> e < limit"
  using json_body_at_bounds by fastforce

lemma json_array_body_at_progress: "json_array_body_at s pos limit = Some (b, e) \<Longrightarrow> pos < e \<and> e < limit"
  using json_array_body_at_bounds by fastforce

end
