(* ===== verification/Json_Text.thy ===== *)
theory Json_Text
  imports Json_Scan
begin

text \<open>
  What a JSON text is, as a reference for the scanners: a tree of items and its text. A string
  keeps its raw body (escapes included), a number or literal is a run of plain bytes, and an
  object's body is a comma-separated list of members. The theorems say that the scanners of
  \<^verbatim>\<open>PeerJson.hpp\<close> find, in the text of any such tree, exactly the span the tree has.
\<close>

section \<open>Texts\<close>

datatype jitem = Plain char | Str string | Obj "jitem list" | Arr "jitem list"

fun item_text :: "jitem \<Rightarrow> string" where
  "item_text (Plain c) = [c]"
| "item_text (Str r) = chr_quote # r @ [chr_quote]"
| "item_text (Obj its) = CHR ''{'' # concat (map item_text its) @ [CHR ''}'']"
| "item_text (Arr its) = CHR ''['' # concat (map item_text its) @ [CHR '']'']"

abbreviation items_text :: "jitem list \<Rightarrow> string" where
  "items_text its \<equiv> concat (map item_text its)"

definition structural :: "char \<Rightarrow> bool" where
  "structural c \<longleftrightarrow> c = chr_quote \<or> c = CHR ''{'' \<or> c = CHR ''}'' \<or> c = CHR ''['' \<or> c = CHR '']''"

fun raw_ok :: "string \<Rightarrow> bool" where
  "raw_ok [] = True"
| "raw_ok (c # r) =
     (if c = chr_backslash then (case r of [] \<Rightarrow> False | _ # r' \<Rightarrow> raw_ok r')
      else c \<noteq> chr_quote \<and> raw_ok r)"

fun item_ok :: "jitem \<Rightarrow> bool" where
  "item_ok (Plain c) = (\<not> structural c)"
| "item_ok (Str r) = raw_ok r"
| "item_ok (Obj its) = list_all item_ok its"
| "item_ok (Arr its) = list_all item_ok its"

lemma raw_ok_json_escape: "raw_ok (json_escape t)"
  by (induction t) auto

section \<open>Strings\<close>

lemma skip_string_loop_raw:
  "raw_ok r \<Longrightarrow> length pre + length r < e \<Longrightarrow>
   skip_string_loop (pre @ r @ chr_quote # post) (length pre) e = Some (length pre + length r)"
proof (induction r arbitrary: pre rule: raw_ok.induct)
  case 1
  then show ?case by (simp add: skip_string_loop.simps [of _ "length pre"])
next
  case (2 c r)
  show ?case
  proof (cases "c = chr_backslash")
    case True
    with 2(3) obtain d r' where r: "r = d # r'" and ok: "raw_ok r'"
      by (auto split: list.splits)
    have "skip_string_loop (pre @ (c # r) @ chr_quote # post) (length pre) e =
          skip_string_loop ((pre @ [c, d]) @ r' @ chr_quote # post) (length (pre @ [c, d])) e"
      using True 2(4) r by (simp add: skip_string_loop.simps [of _ "length pre"])
    then show ?thesis
      using 2(1) [OF True r ok, of "pre @ [c, d]"] 2(4) r by simp
  next
    case False
    with 2(3) have ok: "raw_ok r" and c: "c \<noteq> chr_quote" by auto
    have "skip_string_loop (pre @ (c # r) @ chr_quote # post) (length pre) e =
          skip_string_loop ((pre @ [c]) @ r @ chr_quote # post) (length (pre @ [c])) e"
      using False c 2(4) by (simp add: skip_string_loop.simps [of _ "length pre"])
    then show ?thesis
      using 2(2) [OF False ok, of "pre @ [c]"] 2(4) by simp
  qed
qed

lemma json_skip_string_raw:
  assumes "raw_ok r" and "length pre + length r + 1 < e"
  shows "json_skip_string (pre @ chr_quote # r @ chr_quote # post) (length pre) e =
         Some (length pre + length r + 1)"
  using skip_string_loop_raw [of r "pre @ [chr_quote]" e post] assms
  by (simp add: json_skip_string_def)

section \<open>What the depth-counting loops share\<close>

text \<open>
  A loop that steps over plain bytes and whole strings and counts brackets: \<open>wo\<close> and \<open>wa\<close> are
  the depth one object and one array add (\<^verbatim>\<open>json_body_at\<close> does not count arrays).
\<close>

locale depth_scanner =
  fixes scan :: "string \<Rightarrow> nat \<Rightarrow> nat \<Rightarrow> nat \<Rightarrow> nat option"
    and wo :: nat and wa :: nat
  assumes scan_plain:
      "i < e \<Longrightarrow> \<not> structural (s ! i) \<Longrightarrow> scan s e i d = scan s e (i + 1) d"
    and scan_string:
      "i < e \<Longrightarrow> s ! i = chr_quote \<Longrightarrow> json_skip_string s i e = Some c \<Longrightarrow> 1 \<le> d \<Longrightarrow>
       scan s e i d = scan s e (c + 1) d"
    and scan_open_obj: "i < e \<Longrightarrow> s ! i = CHR ''{'' \<Longrightarrow> scan s e i d = scan s e (i + 1) (d + wo)"
    and scan_close_obj:
      "i < e \<Longrightarrow> s ! i = CHR ''}'' \<Longrightarrow> 1 \<le> d \<Longrightarrow> scan s e i (d + wo) = scan s e (i + 1) d"
    and scan_open_arr: "i < e \<Longrightarrow> s ! i = CHR ''['' \<Longrightarrow> scan s e i d = scan s e (i + 1) (d + wa)"
    and scan_close_arr:
      "i < e \<Longrightarrow> s ! i = CHR '']'' \<Longrightarrow> 1 \<le> d \<Longrightarrow> scan s e i (d + wa) = scan s e (i + 1) d"
begin

definition passes :: "string \<Rightarrow> bool" where
  "passes t \<longleftrightarrow> (\<forall>pre post e d. 1 \<le> d \<longrightarrow> length pre + length t \<le> e \<longrightarrow>
     scan (pre @ t @ post) e (length pre) d = scan (pre @ t @ post) e (length pre + length t) d)"

lemma passesD:
  "passes t \<Longrightarrow> 1 \<le> d \<Longrightarrow> length pre + length t \<le> e \<Longrightarrow>
   scan (pre @ t @ post) e (length pre) d = scan (pre @ t @ post) e (length pre + length t) d"
  by (simp add: passes_def)

lemma passes_Nil: "passes []"
  by (simp add: passes_def)

lemma passes_append:
  assumes "passes t" and "passes u"
  shows "passes (t @ u)"
  unfolding passes_def
proof (intro allI impI)
  fix pre post :: string and e d :: nat
  assume d: "1 \<le> (d::nat)" and e: "length pre + length (t @ u) \<le> e"
  have "scan (pre @ (t @ u) @ post) e (length pre) d = scan (pre @ t @ u @ post) e (length pre) d"
    by simp
  also have "\<dots> = scan (pre @ t @ u @ post) e (length pre + length t) d"
    using passesD [OF assms(1) d, of pre e "u @ post"] e by simp
  also have "\<dots> = scan ((pre @ t) @ u @ post) e (length (pre @ t)) d"
    by simp
  also have "\<dots> = scan ((pre @ t) @ u @ post) e (length (pre @ t) + length u) d"
    using passesD [OF assms(2) d, of "pre @ t" e post] e by simp
  finally show "scan (pre @ (t @ u) @ post) e (length pre) d =
      scan (pre @ (t @ u) @ post) e (length pre + length (t @ u)) d"
    by (simp add: add.assoc)
qed

lemma passes_bracket:
  assumes "passes t"
    and op: "\<And>s e i d. i < e \<Longrightarrow> s ! i = ob \<Longrightarrow> scan s e i d = scan s e (i + 1) (d + w)"
    and cl: "\<And>s e i d. i < e \<Longrightarrow> s ! i = cb \<Longrightarrow> 1 \<le> d \<Longrightarrow> scan s e i (d + w) = scan s e (i + 1) d"
  shows "passes (ob # t @ [cb])"
  unfolding passes_def
proof (intro allI impI)
  fix pre post :: string and e d :: nat
  assume d: "1 \<le> (d::nat)" and e: "length pre + length (ob # t @ [cb]) \<le> e"
  let ?s = "pre @ (ob # t @ [cb]) @ post"
  have "scan ?s e (length pre) d = scan ((pre @ [ob]) @ t @ cb # post) e (length (pre @ [ob])) (d + w)"
    using op [of "length pre" e ?s d] e by simp
  also have "\<dots> = scan ?s e (length (pre @ [ob]) + length t) (d + w)"
    using passesD [OF assms(1), of "d + w" "pre @ [ob]" e "cb # post"] d e by simp
  also have "\<dots> = scan ?s e (length (pre @ [ob]) + length t + 1) d"
    using cl [of "length (pre @ [ob]) + length t" e ?s d] d e
    by (simp add: nth_append)
  finally show "scan ?s e (length pre) d = scan ?s e (length pre + length (ob # t @ [cb])) d"
    by simp
qed

lemma passes_item: "item_ok it \<Longrightarrow> passes (item_text it)"
proof (induction it)
  case (Plain c)
  then show ?case
    by (auto simp: passes_def scan_plain)
next
  case (Str r)
  show ?case
    unfolding passes_def
  proof (intro allI impI)
    fix pre post :: string and e d :: nat
    assume d: "1 \<le> (d::nat)" and e: "length pre + length (item_text (Str r)) \<le> e"
    let ?s = "pre @ item_text (Str r) @ post"
    have "json_skip_string ?s (length pre) e = Some (length pre + length r + 1)"
      using json_skip_string_raw [of r pre e post] Str e by simp
    from scan_string [OF _ _ this d] e
    show "scan ?s e (length pre) d = scan ?s e (length pre + length (item_text (Str r))) d"
      by simp
  qed
next
  case (Obj its)
  then have "passes (items_text its)"
    by (induction its) (auto simp: passes_Nil passes_append)
  then show ?case
    using passes_bracket [OF _ scan_open_obj scan_close_obj] by simp
next
  case (Arr its)
  then have "passes (items_text its)"
    by (induction its) (auto simp: passes_Nil passes_append)
  then show ?case
    using passes_bracket [OF _ scan_open_arr scan_close_arr] by simp
qed

lemma passes_items: "list_all item_ok its \<Longrightarrow> passes (items_text its)"
  by (induction its) (auto simp: passes_Nil intro!: passes_append passes_item)

end

interpretation member_scan: depth_scanner "member_loop key" 1 1
  by unfold_locales (subst member_loop.simps, auto simp: structural_def)+

interpretation body_scan: depth_scanner body_loop 1 0
  by unfold_locales (subst body_loop.simps, auto simp: structural_def)+

interpretation array_scan: depth_scanner array_body_loop 1 1
  by unfold_locales (subst array_body_loop.simps, auto simp: structural_def)+

section \<open>Objects\<close>

type_synonym members = "(string \<times> jitem list) list"

fun body_items :: "members \<Rightarrow> jitem list" where
  "body_items [] = []"
| "body_items [(k, v)] = Str k # Plain (CHR '':'') # v"
| "body_items ((k, v) # ms) = Str k # Plain (CHR '':'') # v @ Plain (CHR '','') # body_items ms"

fun value_ok :: "jitem list \<Rightarrow> bool" where
  "value_ok [Str r] = raw_ok r"
| "value_ok [Obj its] = list_all item_ok its"
| "value_ok [Arr its] = list_all item_ok its"
| "value_ok its = (its \<noteq> [] \<and>
     list_all (\<lambda>it. case it of Plain c \<Rightarrow> \<not> structural c \<and> \<not> json_is_space c | _ \<Rightarrow> False) its)"

definition members_ok :: "members \<Rightarrow> bool" where
  "members_ok ms \<longleftrightarrow> list_all (\<lambda>(k, v). raw_ok k \<and> value_ok v) ms"

fun member_pos :: "nat \<Rightarrow> members \<Rightarrow> string \<Rightarrow> nat option" where
  "member_pos base [] key = None"
| "member_pos base ((k, v) # ms) key =
     (if k = key then Some (base + length k + 3)
      else member_pos (base + length k + 3 + length (items_text v) + 1) ms key)"

lemma value_ok_items: "value_ok v \<Longrightarrow> list_all item_ok v"
proof (cases v rule: value_ok.cases)
qed (auto simp: list_all_iff split: jitem.splits)

lemma value_ok_nonempty: "value_ok v \<Longrightarrow> items_text v \<noteq> []"
proof (cases v rule: value_ok.cases)
qed (auto split: jitem.splits)

lemma value_ok_hd: "value_ok v \<Longrightarrow> \<not> json_is_space (hd (items_text v))"
proof (cases v rule: value_ok.cases)
qed (auto simp: json_is_space_def split: jitem.splits)

lemma body_items_ok: "members_ok ms \<Longrightarrow> list_all item_ok (body_items ms)"
  by (induction ms rule: body_items.induct)
     (auto simp: members_ok_def structural_def dest: value_ok_items)

lemma skip_spaces_stop: "\<not> (k < e \<and> json_is_space (s ! k)) \<Longrightarrow> skip_spaces s k e = k"
  by (subst skip_spaces.simps) auto

lemma member_loop_plain_run:
  "list_all (\<lambda>it. case it of Plain c \<Rightarrow> \<not> structural c \<and> \<not> json_is_space c | _ \<Rightarrow> False) its \<Longrightarrow>
   length pre + length (items_text its) \<le> e \<Longrightarrow>
   member_loop key (pre @ items_text its @ post) e (length pre) d =
   member_loop key (pre @ items_text its @ post) e (length pre + length (items_text its)) d"
proof (induction its arbitrary: pre)
  case Nil
  then show ?case by simp
next
  case (Cons it its)
  then obtain c where it: "it = Plain c" and c: "\<not> structural c"
    by (auto split: jitem.splits)
  have "member_loop key (pre @ items_text (it # its) @ post) e (length pre) d =
        member_loop key ((pre @ [c]) @ items_text its @ post) e (length (pre @ [c])) d"
    using member_scan.scan_plain [of "length pre" e "pre @ c # items_text its @ post" key d] c it Cons.prems(2)
    by simp
  then show ?case
    using Cons.IH [of "pre @ [c]"] Cons.prems it by (simp add: add.assoc)
qed

lemma member_loop_close:
  "i < e \<Longrightarrow> s ! i = CHR ''}'' \<or> s ! i = CHR '']'' \<Longrightarrow>
   member_loop key s e i (Suc d) = member_loop key s e (i + 1) d"
  by (subst member_loop.simps) auto

lemma member_loop_nested:
  assumes "list_all item_ok its" and "length pre + length t \<le> e"
    and "t = CHR ''{'' # items_text its @ [CHR ''}''] \<or> t = CHR ''['' # items_text its @ [CHR '']'']"
  shows "member_loop key (pre @ t @ post) e (length pre) 0 =
         member_loop key (pre @ t @ post) e (length pre + length t) 0"
proof -
  let ?s = "pre @ t @ post" and ?n = "length (items_text its)"
  from assms(3) obtain ob cb where t: "t = ob # items_text its @ [cb]"
    and ob: "ob = CHR ''{'' \<or> ob = CHR ''[''" and cb: "cb = CHR ''}'' \<or> cb = CHR '']''"
    by auto
  have "member_loop key ?s e (length pre) 0 = member_loop key ?s e (length pre + 1) 1"
    using assms(2) t ob by (subst member_loop.simps) auto
  also have "\<dots> = member_loop key ((pre @ [ob]) @ items_text its @ cb # post) e (length (pre @ [ob])) 1"
    by (simp add: t)
  also have "\<dots> = member_loop key ((pre @ [ob]) @ items_text its @ cb # post) e (length (pre @ [ob]) + ?n) 1"
    by (rule member_scan.passesD [OF member_scan.passes_items [OF assms(1)]]) (use assms(2) t in auto)
  also have "\<dots> = member_loop key ?s e (length pre + 1 + ?n) (Suc 0)"
    by (simp add: t)
  also have "\<dots> = member_loop key ?s e (length pre + 1 + ?n + 1) 0"
    by (rule member_loop_close) (use assms(2) t cb in \<open>auto simp: nth_append\<close>)
  finally show ?thesis by (simp add: t)
qed

text \<open>At depth 0 a string is a key only when a colon follows it.\<close>

definition ends_value :: "string \<Rightarrow> nat \<Rightarrow> nat \<Rightarrow> bool" where
  "ends_value s e i \<longleftrightarrow> i = e \<or> (i < e \<and> s ! i = CHR '','')"

lemma member_loop_value:
  assumes ok: "value_ok v" and le: "length pre + length (items_text v) \<le> e"
    and ev: "ends_value (pre @ items_text v @ post) e (length pre + length (items_text v))"
  shows "member_loop key (pre @ items_text v @ post) e (length pre) 0 =
         member_loop key (pre @ items_text v @ post) e (length pre + length (items_text v)) 0"
proof (cases "\<exists>r. v = [Str r]")
  case True
  then obtain r where v: "v = [Str r]" by blast
  let ?s = "pre @ items_text v @ post"
  have skip: "json_skip_string ?s (length pre) e = Some (length pre + length r + 1)"
    using json_skip_string_raw [of r pre e post] ok le v by simp
  have "skip_spaces ?s (length pre + length r + 1 + 1) e = length pre + length r + 1 + 1"
    by (rule skip_spaces_stop) (use ev v in \<open>auto simp: ends_value_def json_is_space_def\<close>)
  then have "member_hit ?s (length pre + 1) (length pre + length r + 1) e key = None"
    using ev v by (auto simp: member_hit_def ends_value_def)
  then show ?thesis
    using skip le v by (subst member_loop.simps) simp
next
  case False
  note nested = member_loop_nested [of _ pre "items_text v" e key post]
  show ?thesis
    using ok False le nested member_loop_plain_run [of v pre e key post 0]
    by (cases v rule: value_ok.cases) auto
qed

lemma member_loop_member:
  assumes ok: "raw_ok k" and le: "length pre + length k + 3 < e" and "e \<le> length s"
    and s: "s = pre @ chr_quote # k @ chr_quote # CHR '':'' # rest"
    and nsp: "\<not> json_is_space (hd rest)" and ne: "rest \<noteq> []"
  shows "member_loop key s e (length pre) 0 =
     (if k = key then Some (length pre + length k + 3)
      else member_loop key s e (length pre + length k + 3) 0)"
proof -
  have skip: "json_skip_string s (length pre) e = Some (length pre + length k + 1)"
    using json_skip_string_raw [of k pre e "CHR '':'' # rest"] ok le s by simp
  have sp: "skip_spaces s (length pre + length k + 1 + 1) e = length pre + length k + 2"
    by (subst skip_spaces_stop) (auto simp: s nth_append json_is_space_def)
  have at: "s ! (length pre + length k + 2) = CHR '':''" "s ! (length pre + length k + 3) = hd rest"
    using ne by (auto simp: s nth_append hd_conv_nth)
  have sp2: "skip_spaces s (length pre + length k + 3) e = length pre + length k + 3"
    by (rule skip_spaces_stop) (use at nsp in auto)
  have cmp: "str_compare_eq s (length pre + 1) (length k) key \<longleftrightarrow> k = key"
    by (simp add: str_compare_eq_def s)
  have hit: "member_hit s (length pre + 1) (length pre + length k + 1) e key =
      (if k = key then Some (Some (length pre + length k + 3)) else None)"
    using le at sp2 cmp sp by (auto simp: member_hit_def Let_def numeral_3_eq_3)
  have colon: "member_loop key s e (length pre + length k + 2) 0 =
      member_loop key s e (length pre + length k + 3) 0"
    using le at by (subst member_loop.simps) (auto simp: numeral_3_eq_3)
  have "s ! length pre = chr_quote" by (simp add: s)
  then show ?thesis
    using skip hit colon le by (subst member_loop.simps) auto
qed

lemma items_text_body_Cons:
  "items_text (body_items ((k, v) # ms)) =
     chr_quote # k @ chr_quote # CHR '':'' # items_text v @
       (if ms = [] then [] else CHR '','' # items_text (body_items ms))"
  by (cases ms) auto

lemma member_loop_members:
  "members_ok ms \<Longrightarrow> s = pre @ items_text (body_items ms) @ post \<Longrightarrow>
   e = length pre + length (items_text (body_items ms)) \<Longrightarrow>
   member_loop key s e (length pre) 0 = member_pos (length pre) ms key"
proof (induction ms arbitrary: pre)
  case Nil
  then show ?case by (subst member_loop.simps) simp
next
  case (Cons m ms)
  obtain k v where m: "m = (k, v)" by force
  have k: "raw_ok k" and v: "value_ok v" and ms: "members_ok ms"
    using Cons.prems(1) m by (auto simp: members_ok_def)
  let ?tail = "if ms = [] then [] else CHR '','' # items_text (body_items ms)"
  let ?rest = "items_text v @ ?tail @ post"
  have s: "s = pre @ chr_quote # k @ chr_quote # CHR '':'' # ?rest"
    using Cons.prems(2) m by (simp add: items_text_body_Cons del: body_items.simps)
  have e: "e = length pre + length k + 3 + length (items_text v) + length ?tail"
    using Cons.prems(3) m by (simp add: items_text_body_Cons del: body_items.simps)
  have ne: "items_text v \<noteq> []" and hd: "\<not> json_is_space (hd (items_text v))"
    using value_ok_nonempty [OF v] value_ok_hd [OF v] by blast+
  have step: "member_loop key s e (length pre) 0 =
      (if k = key then Some (length pre + length k + 3)
       else member_loop key s e (length pre + length k + 3) 0)"
    by (rule member_loop_member [OF k _ _ s]) (use e ne hd s in auto)
  let ?pre = "pre @ chr_quote # k @ [chr_quote, CHR '':'']"
  have s': "s = ?pre @ items_text v @ (?tail @ post)"
    using s by simp
  have val: "member_loop key s e (length pre + length k + 3) 0 =
      member_loop key s e (length pre + length k + 3 + length (items_text v)) 0"
  proof -
    have L: "length ?pre = length pre + length k + 3" by simp
    have ev: "ends_value s e (length ?pre + length (items_text v))"
      using e s' by (auto simp: ends_value_def nth_append)
    have "member_loop key (?pre @ items_text v @ (?tail @ post)) e (length ?pre) 0 =
        member_loop key (?pre @ items_text v @ (?tail @ post)) e (length ?pre + length (items_text v)) 0"
    proof (rule member_loop_value [OF v])
      show "length ?pre + length (items_text v) \<le> e" unfolding L e by simp
      show "ends_value (?pre @ items_text v @ (?tail @ post)) e (length ?pre + length (items_text v))"
        using ev unfolding s' .
    qed
    then show ?thesis by (simp only: s' [symmetric] L)
  qed
  show ?case
  proof (cases ms)
    case Nil
    then have "member_loop key s e (length pre + length k + 3 + length (items_text v)) 0 = None"
      using e by (subst member_loop.simps) simp
    with step val m Nil show ?thesis by simp
  next
    case (Cons m' ms')
    let ?pre' = "?pre @ items_text v @ [CHR '','']"
    have comma: "s ! (length pre + length k + 3 + length (items_text v)) = CHR '',''"
      using s' Cons by (simp add: nth_append)
    have L': "length ?pre' = length pre + length k + 3 + length (items_text v) + 1" by simp
    have "member_loop key s e (length pre + length k + 3 + length (items_text v)) 0 =
        member_loop key s e (length ?pre') 0"
      unfolding L' by (rule member_scan.scan_plain) (use comma e Cons in \<open>auto simp: structural_def\<close>)
    also have "\<dots> = member_pos (length ?pre') ms key"
      by (rule Cons.IH [OF ms]) (use s' e Cons in \<open>auto simp del: body_items.simps\<close>)
    finally show ?thesis
      unfolding L' using step val m by simp
  qed
qed

lemma json_member_value_members:
  assumes "members_ok ms" and "s = pre @ items_text (body_items ms) @ post"
    and "b = length pre" and "e = length pre + length (items_text (body_items ms))"
  shows "json_member_value s b e key = member_pos b ms key"
  using member_loop_members [OF assms(1,2), of e key] assms(2-4)
  by (simp add: json_member_value_def)

lemma member_pos_Some:
  "map_of ms key = Some v \<Longrightarrow>
   \<exists>pre post. items_text (body_items ms) = pre @ items_text v @ post \<and>
     member_pos base ms key = Some (base + length pre) \<and> (post = [] \<or> hd post = CHR '','')"
proof (induction ms arbitrary: base)
  case Nil
  then show ?case by simp
next
  case (Cons m ms)
  obtain k w where m: "m = (k, w)" by force
  show ?case
  proof (cases "k = key")
    case True
    with Cons.prems m have "w = v" by simp
    then show ?thesis using True m
      by (intro exI [of _ "chr_quote # k @ [chr_quote, CHR '':'']"]
            exI [of _ "if ms = [] then [] else CHR '','' # items_text (body_items ms)"])
         (simp add: items_text_body_Cons del: body_items.simps)
  next
    case False
    with Cons.prems m have mo: "map_of ms key = Some v" by simp
    then have ne: "ms \<noteq> []" by auto
    let ?base = "base + length k + 3 + length (items_text w) + 1"
    from Cons.IH [OF mo, of ?base] obtain pre post where
      "items_text (body_items ms) = pre @ items_text v @ post"
      "member_pos ?base ms key = Some (?base + length pre)" "post = [] \<or> hd post = CHR '',''"
      by blast
    then show ?thesis using False m ne
      by (intro exI [of _ "chr_quote # k @ [chr_quote, CHR '':''] @ items_text w @ CHR '','' # pre"]
            exI [of _ post])
         (simp add: items_text_body_Cons del: body_items.simps)
  qed
qed

lemma member_pos_None: "map_of ms key = None \<Longrightarrow> member_pos base ms key = None"
  by (induction ms arbitrary: base) (auto split: if_splits)

section \<open>Spans\<close>

text \<open>\<open>span_of s t b e\<close>: the text \<open>t\<close> stands in \<open>s\<close> at the span \<open>[b, e)\<close>.\<close>

definition span_of :: "string \<Rightarrow> string \<Rightarrow> nat \<Rightarrow> nat \<Rightarrow> bool" where
  "span_of s t b e \<longleftrightarrow> (\<exists>pre post. s = pre @ t @ post \<and> b = length pre \<and> e = length pre + length t)"

lemma json_body_at_items:
  assumes "list_all item_ok its" and "span_of s (item_text (Obj its)) p q" and "q \<le> limit"
  shows "json_body_at s p limit = Some (p + 1, p + 1 + length (items_text its))"
    and "span_of s (items_text its) (p + 1) (p + 1 + length (items_text its))"
proof -
  from assms(2) obtain pre post where s: "s = pre @ item_text (Obj its) @ post"
    and p: "p = length pre" and q: "q = length pre + length (items_text its) + 2"
    by (auto simp: span_of_def)
  let ?n = "length (items_text its)" and ?l = "min limit (length s)"
  have l: "length pre + ?n + 2 \<le> ?l" using assms(3) q s by simp
  have "body_loop s ?l (p + 1) 1 =
      body_loop ((pre @ [CHR ''{'']) @ items_text its @ CHR ''}'' # post) ?l (length (pre @ [CHR ''{''])) 1"
    by (simp add: s p)
  also have "\<dots> = body_loop s ?l (length (pre @ [CHR ''{'']) + ?n) 1"
    using body_scan.passesD [OF body_scan.passes_items [OF assms(1)], of 1 "pre @ [CHR ''{'']" ?l "CHR ''}'' # post"] l
    by (simp add: s)
  also have "\<dots> = Some (p + 1 + ?n)"
    using l by (subst body_loop.simps) (simp add: s p nth_append)
  finally show "json_body_at s p limit = Some (p + 1, p + 1 + ?n)"
    using l by (simp add: json_body_at_def Let_def s p)
  show "span_of s (items_text its) (p + 1) (p + 1 + ?n)"
    unfolding span_of_def
    by (intro exI [of _ "pre @ [CHR ''{'']"] exI [of _ "CHR ''}'' # post"]) (simp add: s p)
qed

lemma json_array_body_at_items:
  assumes "list_all item_ok its" and "span_of s (item_text (Arr its)) p q" and "q \<le> limit"
  shows "json_array_body_at s p limit = Some (p + 1, p + 1 + length (items_text its))"
    and "span_of s (items_text its) (p + 1) (p + 1 + length (items_text its))"
proof -
  from assms(2) obtain pre post where s: "s = pre @ item_text (Arr its) @ post"
    and p: "p = length pre" and q: "q = length pre + length (items_text its) + 2"
    by (auto simp: span_of_def)
  let ?n = "length (items_text its)" and ?l = "min limit (length s)"
  have l: "length pre + ?n + 2 \<le> ?l" using assms(3) q s by simp
  have "array_body_loop s ?l (p + 1) 1 =
      array_body_loop ((pre @ [CHR ''['']) @ items_text its @ CHR '']'' # post) ?l (length (pre @ [CHR ''[''])) 1"
    by (simp add: s p)
  also have "\<dots> = array_body_loop s ?l (length (pre @ [CHR ''['']) + ?n) 1"
    using array_scan.passesD [OF array_scan.passes_items [OF assms(1)], of 1 "pre @ [CHR ''['']" ?l "CHR '']'' # post"] l
    by (simp add: s)
  also have "\<dots> = Some (p + 1 + ?n)"
    using l by (subst array_body_loop.simps) (simp add: s p nth_append)
  finally show "json_array_body_at s p limit = Some (p + 1, p + 1 + ?n)"
    using l by (simp add: json_array_body_at_def Let_def s p)
  show "span_of s (items_text its) (p + 1) (p + 1 + ?n)"
    unfolding span_of_def
    by (intro exI [of _ "pre @ [CHR ''['']"] exI [of _ "CHR '']'' # post"]) (simp add: s p)
qed

lemma json_member_value_span:
  assumes "members_ok ms" and "span_of s (items_text (body_items ms)) b e" and "map_of ms key = Some v"
  obtains p where "json_member_value s b e key = Some p"
    and "span_of s (items_text v) p (p + length (items_text v))"
    and "b \<le> p" and "p + length (items_text v) \<le> e"
    and "p + length (items_text v) = e \<or> s ! (p + length (items_text v)) = CHR '',''"
proof -
  from assms(2) obtain pre post where s: "s = pre @ items_text (body_items ms) @ post"
    and b: "b = length pre" and e: "e = length pre + length (items_text (body_items ms))"
    by (auto simp: span_of_def)
  from member_pos_Some [OF assms(3), of b] obtain pre' post' where
    t: "items_text (body_items ms) = pre' @ items_text v @ post'"
    and mp: "member_pos b ms key = Some (b + length pre')"
    and next_char: "post' = [] \<or> hd post' = CHR '',''"
    by blast
  have "json_member_value s b e key = Some (b + length pre')"
    using json_member_value_members [OF assms(1) s b e, of key] mp by simp
  moreover have "span_of s (items_text v) (b + length pre') (b + length pre' + length (items_text v))"
    unfolding span_of_def
    by (intro exI [of _ "pre @ pre'"] exI [of _ "post' @ post"]) (simp add: s b t)
  moreover have "b + length pre' + length (items_text v) \<le> e"
    using e b t by simp
  moreover have "b + length pre' + length (items_text v) = e \<or> s ! (b + length pre' + length (items_text v)) = CHR '',''"
    using next_char by (cases post') (simp_all add: s b e t nth_append)
  ultimately show ?thesis using that by simp
qed

lemma json_member_value_absent:
  assumes "members_ok ms" and "span_of s (items_text (body_items ms)) b e" and "map_of ms key = None"
  shows "json_member_value s b e key = None"
  using assms json_member_value_members [OF assms(1), of s _ _ b e key] member_pos_None [of ms key b]
  by (auto simp: span_of_def)

lemma json_object_member_span:
  assumes "members_ok ms" and "span_of s (items_text (body_items ms)) b e"
    and "map_of ms key = Some [Obj its]"
  obtains p q where "json_object_member s b e key = Some (p, q)"
    and "span_of s (items_text its) p q" and "b \<le> p" and "q \<le> e" and "q < length s" and "s ! q = CHR ''}''"
proof -
  have ok: "list_all item_ok its"
    using assms(1) map_of_SomeD [OF assms(3)] by (auto simp: members_ok_def list_all_iff)
  from json_member_value_span [OF assms] obtain p where
    v: "json_member_value s b e key = Some p" and le: "b \<le> p"
    and sp: "span_of s (item_text (Obj its)) p (p + length (item_text (Obj its)))"
    and pe: "p + length (item_text (Obj its)) \<le> e"
    by simp metis
  from sp have "p + 1 + length (items_text its) < length s" "s ! (p + 1 + length (items_text its)) = CHR ''}''"
    by (auto simp: span_of_def nth_append)
  with json_body_at_items [OF ok sp pe] that v le pe show ?thesis
    by (simp add: json_object_member_def)
qed

lemma json_string_member_escape:
  assumes "members_ok ms" and "span_of s (items_text (body_items ms)) b e"
    and "map_of ms key = Some [Str (json_escape t)]"
  shows "json_string_member s b e key = t"
proof -
  from json_member_value_span [OF assms] obtain p where
    v: "json_member_value s b e key = Some p"
    and sp: "span_of s (item_text (Str (json_escape t))) p (p + length (item_text (Str (json_escape t))))"
    by simp metis
  from sp obtain pre post where s: "s = pre @ chr_quote # json_escape t @ chr_quote # post"
    and p: "p = length pre"
    by (auto simp: span_of_def)
  have "json_decode_string_at s (p + 1) = t"
    using json_decode_loop_escape [of "pre @ [chr_quote]" t post "[]"]
    by (simp add: json_decode_string_at_def s p)
  moreover have "s ! p = chr_quote" by (simp add: s p)
  ultimately show ?thesis by (simp add: json_string_member_def v)
qed

lemma json_root_body_items:
  assumes "list_all item_ok its"
  shows "json_root_body (item_text (Obj its)) = Some (1, 1 + length (items_text its))"
    and "span_of (item_text (Obj its)) (items_text its) 1 (1 + length (items_text its))"
proof -
  have sp: "span_of (item_text (Obj its)) (item_text (Obj its)) 0 (length (item_text (Obj its)))"
    unfolding span_of_def by (intro exI [of _ "[]"]) simp
  have f: "str_find (item_text (Obj its)) ''{'' 0 = Some 0"
    by (simp add: str_find_def find_from.simps)
  show "json_root_body (item_text (Obj its)) = Some (1, 1 + length (items_text its))"
    using json_body_at_items(1) [OF assms sp order_refl] f
    by (simp add: json_root_body_def del: item_text.simps)
  show "span_of (item_text (Obj its)) (items_text its) 1 (1 + length (items_text its))"
    using json_body_at_items(2) [OF assms sp order_refl] by (simp del: item_text.simps)
qed

text \<open>
  A peer's string field is read from where it belongs. For every well-formed bridge line
  whose root holds a payload object, the payload a state object and the state an extras object, the
  three resolutions succeed, and reading a string member of the extras gives exactly the text its
  sender escaped there, whatever else any of the four objects holds.
\<close>

theorem extras_string_read:
  assumes "members_ok root" and "members_ok payload" and "members_ok state" and "members_ok extras"
    and "map_of root ''payload'' = Some [Obj (body_items payload)]"
    and "map_of payload ''state'' = Some [Obj (body_items state)]"
    and "map_of state ''extras'' = Some [Obj (body_items extras)]"
    and "map_of extras key = Some [Str (json_escape t)]"
  shows "let line = item_text (Obj (body_items root)) in
    \<exists>rb re pb pe sb se xb xe. json_root_body line = Some (rb, re) \<and>
      json_object_member line rb re ''payload'' = Some (pb, pe) \<and>
      json_object_member line pb pe ''state'' = Some (sb, se) \<and>
      json_object_member line sb se ''extras'' = Some (xb, xe) \<and>
      json_string_member line xb xe key = t"
proof -
  let ?line = "item_text (Obj (body_items root))"
  note root = json_root_body_items [OF body_items_ok [OF assms(1)]]
  obtain pb pe where p: "json_object_member ?line 1 (1 + length (items_text (body_items root))) ''payload'' = Some (pb, pe)"
    "span_of ?line (items_text (body_items payload)) pb pe"
    using json_object_member_span [OF assms(1) root(2) assms(5)] by metis
  obtain sb se where s: "json_object_member ?line pb pe ''state'' = Some (sb, se)"
    "span_of ?line (items_text (body_items state)) sb se"
    using json_object_member_span [OF assms(2) p(2) assms(6)] by metis
  obtain xb xe where x: "json_object_member ?line sb se ''extras'' = Some (xb, xe)"
    "span_of ?line (items_text (body_items extras)) xb xe"
    using json_object_member_span [OF assms(3) s(2) assms(7)] by metis
  from json_string_member_escape [OF assms(4) x(2) assms(8)] root(1) p(1) s(1) x(1) show ?thesis
    by (auto simp: Let_def simp del: item_text.simps)
qed

section \<open>A concrete line\<close>

definition sample_extras :: members where
  "sample_extras = [(''vfx'', [Str (json_escape ''dash'')])]"

definition sample_state :: members where
  "sample_state = [(''orientation'', [Obj (body_items [(''vfx'', [Str ''forged''])])]), (''extras'', [Obj (body_items sample_extras)])]"

definition sample_payload :: members where
  "sample_payload = [(''player_id'', [Str ''p1'']), (''state'', [Obj (body_items sample_state)])]"

definition sample_root :: members where
  "sample_root = [(''type'', [Str ''render_remote'']), (''payload'', [Obj (body_items sample_payload)])]"

lemma sample_ok: "members_ok sample_extras" "members_ok sample_state" "members_ok sample_payload" "members_ok sample_root"
  by (simp_all add: members_ok_def sample_extras_def sample_state_def sample_payload_def sample_root_def structural_def)

theorem extras_string_read_witness:
  "\<exists>xb xe. json_string_member (item_text (Obj (body_items sample_root))) xb xe ''vfx'' = ''dash''"
proof -
  have m: "map_of sample_root ''payload'' = Some [Obj (body_items sample_payload)]"
    "map_of sample_payload ''state'' = Some [Obj (body_items sample_state)]"
    "map_of sample_state ''extras'' = Some [Obj (body_items sample_extras)]"
    "map_of sample_extras ''vfx'' = Some [Str (json_escape ''dash'')]"
    by (simp_all add: sample_root_def sample_payload_def sample_state_def sample_extras_def del: body_items.simps)
  from extras_string_read [OF sample_ok(4,3,2,1) m] show ?thesis by (auto simp: Let_def)
qed

end
