(* ===== verification/Doubles.thy ===== *)
theory Doubles
  imports Complex_Main Prelude "HOL-Library.Log_Nat"
begin

text \<open>
  What the sources use of \<^verbatim>\<open>double\<close> and \<^verbatim>\<open>float\<close>: a value is a rational number, an infinity or NaN.
  Arithmetic is exact arithmetic followed by round-to-nearest-even into the format (53 bits and
  exponents down to \<open>2 ^ -1074\<close> for \<^verbatim>\<open>double\<close>, 24 bits and \<open>2 ^ -149\<close> for \<^verbatim>\<open>float\<close>), overflow
  giving an infinity. The sign of a zero is not kept: no modelled operation reads it. The locale
  \<open>rounding\<close> holds what the bounds need of a format.
\<close>

section \<open>Values and comparisons\<close>

datatype dbl = Fin rat | PosInf | NegInf | NaN

fun isfinite :: "dbl \<Rightarrow> bool" where
  "isfinite (Fin _) = True"
| "isfinite _ = False"

definition dbl_isnan :: "dbl \<Rightarrow> bool" where
  "dbl_isnan x \<longleftrightarrow> x = NaN"

fun dbl_less :: "dbl \<Rightarrow> dbl \<Rightarrow> bool" where
  "dbl_less (Fin x) (Fin y) = (x < y)"
| "dbl_less (Fin _) PosInf = True"
| "dbl_less NegInf (Fin _) = True"
| "dbl_less NegInf PosInf = True"
| "dbl_less _ _ = False"

fun dbl_le :: "dbl \<Rightarrow> dbl \<Rightarrow> bool" where
  "dbl_le NaN _ = False"
| "dbl_le _ NaN = False"
| "dbl_le (Fin x) (Fin y) = (x \<le> y)"
| "dbl_le NegInf _ = True"
| "dbl_le _ PosInf = True"
| "dbl_le _ _ = False"

definition dbl_ne :: "dbl \<Rightarrow> dbl \<Rightarrow> bool" where
  "dbl_ne x y \<longleftrightarrow> x = NaN \<or> y = NaN \<or> x \<noteq> y"

lemma isfinite_iff: "isfinite x \<longleftrightarrow> (\<exists>q. x = Fin q)"
  by (cases x) auto

lemma dbl_le_trans: "dbl_le x y \<Longrightarrow> dbl_le y z \<Longrightarrow> dbl_le x z"
  by (cases x; cases y; cases z) auto

section \<open>Rounding\<close>

definition round_half_even :: "rat \<Rightarrow> int" where
  "round_half_even x =
     (let f = \<lfloor>x\<rfloor>; d = x - of_int f in
      if d < 1 / 2 then f else if 1 / 2 < d then f + 1 else if even f then f else f + 1)"

text \<open>\<open>u\<close> in units of the smallest subnormal: the low \<open>k\<close> bits beyond \<open>p\<close> are rounded away.\<close>

definition unit_shift :: "nat \<Rightarrow> rat \<Rightarrow> nat" where
  "unit_shift p u = floorlog 2 (nat \<lfloor>u\<rfloor>) - p"

definition round_units :: "nat \<Rightarrow> rat \<Rightarrow> int" where
  "round_units p u = round_half_even (u / 2 ^ unit_shift p u) * 2 ^ unit_shift p u"

definition fp_round :: "nat \<Rightarrow> nat \<Rightarrow> nat \<Rightarrow> rat \<Rightarrow> dbl" where
  "fp_round p t emax q =
     (let r = round_units p (\<bar>q\<bar> * 2 ^ t) in
      if r \<ge> 2 ^ (emax + t) then (if q < 0 then NegInf else PosInf)
      else Fin (sgn q * of_int r / 2 ^ t))"

definition rnd_double :: "rat \<Rightarrow> dbl" where
  "rnd_double = fp_round 53 1074 1024"

definition rnd_float :: "rat \<Rightarrow> dbl" where
  "rnd_float = fp_round 24 149 128"

lemma round_half_even_bounds: "\<lfloor>x\<rfloor> \<le> round_half_even x \<and> round_half_even x \<le> \<lfloor>x\<rfloor> + 1"
  by (simp add: round_half_even_def Let_def)

lemma round_half_even_int [simp]: "round_half_even (of_int n) = n"
  by (simp add: round_half_even_def)

lemma round_half_even_mono:
  assumes "x \<le> y"
  shows "round_half_even x \<le> round_half_even y"
proof (cases "\<lfloor>x\<rfloor> = \<lfloor>y\<rfloor>")
  case True
  then have "x - of_int \<lfloor>x\<rfloor> \<le> y - of_int \<lfloor>y\<rfloor>" using assms by simp
  with True show ?thesis by (auto simp: round_half_even_def Let_def)
next
  case False
  moreover have "\<lfloor>x\<rfloor> \<le> \<lfloor>y\<rfloor>" using assms by (rule floor_mono)
  ultimately show ?thesis
    using round_half_even_bounds [of x] round_half_even_bounds [of y] by linarith
qed

lemma round_half_even_nonneg: "0 \<le> x \<Longrightarrow> 0 \<le> round_half_even x"
  using round_half_even_mono [of 0 x] round_half_even_int [of 0] by simp

lemma unit_shift_mono: "u \<le> v \<Longrightarrow> unit_shift p u \<le> unit_shift p v"
  unfolding unit_shift_def
  by (intro diff_le_mono floorlog_mono nat_mono floor_mono)

lemma floorlog_upper: "nat \<lfloor>u\<rfloor> < 2 ^ floorlog 2 (nat \<lfloor>u\<rfloor>)"
  using floorlog_bounds [of "nat \<lfloor>u\<rfloor>" 2] by (cases "nat \<lfloor>u\<rfloor> > 0") auto

lemma unit_less_pow:
  assumes "0 \<le> u"
  shows "u < 2 ^ (p + unit_shift p u)"
proof -
  have "nat \<lfloor>u\<rfloor> < 2 ^ floorlog 2 (nat \<lfloor>u\<rfloor>)" by (rule floorlog_upper)
  also have "\<dots> \<le> 2 ^ (p + unit_shift p u)"
    by (intro power_increasing) (auto simp: unit_shift_def)
  finally have "\<lfloor>u\<rfloor> < 2 ^ (p + unit_shift p u)"
    using assms by (simp add: nat_less_iff)
  then show ?thesis by (metis floor_less_iff of_int_numeral of_int_power)
qed

lemma unit_ge_pow:
  assumes "0 < unit_shift p u" and "0 < p"
  shows "2 ^ (p + unit_shift p u - 1) \<le> u"
proof -
  let ?n = "nat \<lfloor>u\<rfloor>"
  from assms(1) have fl: "floorlog 2 ?n = p + unit_shift p u"
    by (simp add: unit_shift_def)
  with assms have "0 < ?n" by (cases "?n = 0") (auto simp: floorlog_def)
  then have "2 ^ (floorlog 2 ?n - 1) \<le> ?n"
    using floorlog_bounds [of ?n 2] by simp
  then have "(2::int) ^ (p + unit_shift p u - 1) \<le> \<lfloor>u\<rfloor>"
    using fl \<open>0 < ?n\<close> by (metis nat_eq_numeral_power_cancel_iff nat_le_eq_zle of_nat_0_le_iff of_nat_le_iff zero_less_nat_eq order_less_imp_le nat_mono nat_numeral nat_power_eq zero_le_numeral)
  then show ?thesis by (metis le_floor_iff of_int_numeral of_int_power)
qed

lemma round_units_upper:
  assumes "0 \<le> u"
  shows "round_units p u \<le> 2 ^ (p + unit_shift p u)"
proof -
  let ?k = "unit_shift p u"
  have "u / 2 ^ ?k \<le> of_int (2 ^ p)"
    using unit_less_pow [OF assms, of p] by (simp add: divide_le_eq power_add)
  then have "round_half_even (u / 2 ^ ?k) \<le> 2 ^ p"
    using round_half_even_mono round_half_even_int by metis
  then show ?thesis by (simp add: round_units_def power_add mult_right_mono)
qed

lemma round_units_lower:
  assumes "0 < unit_shift p u" and "0 < p"
  shows "2 ^ (p + unit_shift p u - 1) \<le> round_units p u"
proof -
  let ?k = "unit_shift p u"
  have e: "p + ?k - 1 = (p - 1) + ?k" using assms(2) by simp
  have "of_int (2 ^ (p - 1)) \<le> u / 2 ^ ?k"
    using unit_ge_pow [OF assms] unfolding e by (simp add: le_divide_eq power_add)
  then have "2 ^ (p - 1) \<le> round_half_even (u / 2 ^ ?k)"
    using round_half_even_mono round_half_even_int by metis
  then show ?thesis unfolding e by (simp add: round_units_def power_add mult_right_mono)
qed

lemma round_units_mono:
  assumes "0 \<le> u" and "u \<le> v" and "0 < p"
  shows "round_units p u \<le> round_units p v"
proof (cases "unit_shift p u = unit_shift p v")
  case True
  have "u / 2 ^ unit_shift p v \<le> v / 2 ^ unit_shift p v"
    using assms(2) by (simp add: divide_right_mono)
  then show ?thesis
    using round_half_even_mono by (simp add: round_units_def True mult_right_mono)
next
  case False
  with unit_shift_mono [OF assms(2), of p] have lt: "unit_shift p u < unit_shift p v" by simp
  have "round_units p u \<le> 2 ^ (p + unit_shift p u)" by (rule round_units_upper [OF assms(1)])
  also have "\<dots> \<le> 2 ^ (p + unit_shift p v - 1)"
    using lt by (intro power_increasing) auto
  also have "\<dots> \<le> round_units p v"
    using lt assms(3) by (intro round_units_lower) auto
  finally show ?thesis .
qed

lemma round_units_nonneg: "0 \<le> u \<Longrightarrow> 0 \<le> round_units p u"
  by (simp add: round_units_def round_half_even_nonneg)

lemma round_units_exact:
  assumes "0 \<le> m" and "m < 2 ^ p"
  shows "round_units p (of_int (m * 2 ^ j)) = m * 2 ^ j"
proof -
  let ?u = "of_int (m * 2 ^ j) :: rat" and ?k = "unit_shift p (of_int (m * 2 ^ j))"
  have "?k \<le> j"
  proof (cases "m = 0")
    case True
    then show ?thesis by (simp add: unit_shift_def floorlog_def)
  next
    case False
    have "nat \<lfloor>?u\<rfloor> < 2 ^ (p + j)"
    proof -
      have "m * 2 ^ j < 2 ^ p * 2 ^ j" using assms(2) by (intro mult_strict_right_mono) auto
      then show ?thesis by (simp only: floor_of_int nat_less_iff) (simp add: power_add nat_less_iff assms(1))
    qed
    then have "floorlog 2 (nat \<lfloor>?u\<rfloor>) \<le> p + j"
      by (intro floorlog_leI) auto
    then show ?thesis by (simp add: unit_shift_def)
  qed
  then obtain i where i: "j = i + ?k" by (metis le_add_diff_inverse2)
  define k where "k = ?k"
  have ji: "(2::int) ^ j = 2 ^ i * 2 ^ k" and jr: "(2::rat) ^ j = 2 ^ i * 2 ^ k"
    using i by (simp_all add: k_def power_add [symmetric])
  have "?u / 2 ^ k = of_int (m * 2 ^ i)"
    by (simp add: jr)
  then have "round_units p ?u = m * 2 ^ i * 2 ^ k"
    by (simp only: round_units_def round_half_even_int k_def [symmetric])
  also have "\<dots> = m * 2 ^ j"
    by (simp add: ji)
  finally show ?thesis .
qed

definition representable :: "nat \<Rightarrow> nat \<Rightarrow> nat \<Rightarrow> rat \<Rightarrow> bool" where
  "representable p t emax q \<longleftrightarrow>
     (\<exists>m j. \<bar>q\<bar> * 2 ^ t = of_int (m * 2 ^ j) \<and> 0 \<le> m \<and> m < 2 ^ p \<and> m * 2 ^ j < 2 ^ (emax + t))"

lemma fp_round_representable:
  assumes "representable p t emax q"
  shows "fp_round p t emax q = Fin q"
proof -
  from assms obtain m j where m: "\<bar>q\<bar> * 2 ^ t = of_int (m * 2 ^ j)" "0 \<le> m" "m < 2 ^ p"
    and lt: "m * 2 ^ j < 2 ^ (emax + t)"
    by (auto simp: representable_def)
  have r: "round_units p (\<bar>q\<bar> * 2 ^ t) = m * 2 ^ j"
    unfolding m(1) by (rule round_units_exact [OF m(2,3)])
  have "sgn q * of_int (m * 2 ^ j) / 2 ^ t = sgn q * \<bar>q\<bar>"
    unfolding m(1) [symmetric] by simp
  also have "\<dots> = q" by (rule sgn_mult_abs)
  finally show ?thesis using lt by (simp add: fp_round_def r del: of_int_mult)
qed

lemma fp_round_mono:
  assumes "x \<le> y" and p: "0 < p"
  shows "dbl_le (fp_round p t emax x) (fp_round p t emax y)"
proof -
  let ?r = "\<lambda>q. round_units p (\<bar>q\<bar> * 2 ^ t)"
  have nn: "0 \<le> ?r q" for q :: rat by (rule round_units_nonneg) simp
  consider "0 \<le> x" | "x < 0" "y < 0" | "x < 0" "0 \<le> y" by linarith
  then show ?thesis
  proof cases
    case 1
    then have "?r x \<le> ?r y" using assms by (intro round_units_mono) (auto simp: mult_right_mono)
    moreover have "0 < x \<Longrightarrow> 0 < y" using assms by simp
    ultimately show ?thesis using 1 assms(1)
      by (auto simp: fp_round_def Let_def sgn_if divide_right_mono round_units_nonneg)
  next
    case 2
    then have "?r y \<le> ?r x"
      using assms by (intro round_units_mono) (auto simp: mult_right_mono mult_nonpos_nonneg)
    then show ?thesis using 2
      by (auto simp: fp_round_def Let_def sgn_if divide_right_mono)
  next
    case 3
    have le: "- (rat_of_int a / 2 ^ t) \<le> rat_of_int b / 2 ^ t" if "0 \<le> a" "0 \<le> b" for a b
      by (rule order_trans [of _ 0]) (use that in simp_all)
    from 3 show ?thesis using nn [of x] nn [of y]
      by (auto simp: fp_round_def Let_def sgn_if le)
  qed
qed

text \<open>What rounding returns is representable, so rounding it again changes nothing.\<close>

lemma fp_round_result:
  assumes "fp_round p t emax q = Fin r" and p: "0 < p"
  shows "representable p t emax r"
proof -
  let ?u = "\<bar>q\<bar> * 2 ^ t"
  let ?k = "unit_shift p ?u" and ?n = "round_half_even (?u / 2 ^ unit_shift p ?u)"
  have n: "0 \<le> ?n" by (intro round_half_even_nonneg) simp
  have R: "round_units p ?u = ?n * 2 ^ ?k" by (simp add: round_units_def)
  from assms(1) have lt: "?n * 2 ^ ?k < 2 ^ (emax + t)" and r: "r = sgn q * of_int (?n * 2 ^ ?k) / 2 ^ t"
    unfolding fp_round_def Let_def R by (auto split: if_splits)
  have "\<bar>r\<bar> * 2 ^ t = \<bar>sgn q\<bar> * of_int (?n * 2 ^ ?k)"
    unfolding r using n by (simp add: abs_mult)
  moreover have "q = 0 \<Longrightarrow> ?n = 0" using round_half_even_int [of 0] by simp
  ultimately have abs_r: "\<bar>r\<bar> * 2 ^ t = of_int (?n * 2 ^ ?k)" by (cases "q = 0") auto
  have "?n * 2 ^ ?k \<le> 2 ^ p * 2 ^ ?k"
    using round_units_upper [of ?u p] by (simp add: R power_add)
  then have "?n \<le> 2 ^ p" by simp
  then consider "?n < 2 ^ p" | "?n = 2 ^ p" by linarith
  then show ?thesis
  proof cases
    case 1
    then show ?thesis unfolding representable_def using abs_r n lt by blast
  next
    case 2
    obtain p' where "p = Suc p'" using p by (cases p) auto
    with 2 have "?n * 2 ^ ?k = 2 ^ p' * 2 ^ Suc ?k" by simp
    moreover have "(2::int) ^ p' < 2 ^ p" using \<open>p = Suc p'\<close> by simp
    ultimately show ?thesis unfolding representable_def using abs_r lt
      by (intro exI [of _ "2 ^ p'"] exI [of _ "Suc ?k"]) simp
  qed
qed

definition is_double :: "dbl \<Rightarrow> bool" where
  "is_double x \<longleftrightarrow> (\<forall>q. x = Fin q \<longrightarrow> rnd_double q = Fin q)"

lemma is_double_rnd [simp]: "is_double (rnd_double q)"
  unfolding is_double_def rnd_double_def
  using fp_round_result [of 53 1074 1024 q] by (auto intro: fp_round_representable)

lemma is_double_non_finite [simp]: "is_double PosInf" "is_double NegInf" "is_double NaN"
  by (simp_all add: is_double_def)

text \<open>What the bounds need of a format: rounding keeps the order and never gives NaN.\<close>

locale rounding =
  fixes rnd :: "rat \<Rightarrow> dbl"
  assumes rnd_mono: "x \<le> y \<Longrightarrow> dbl_le (rnd x) (rnd y)"
begin

lemma rnd_between:
  assumes "rnd lo = Fin lo" and "rnd hi = Fin hi" and "lo \<le> x" and "x \<le> hi"
  obtains r where "rnd x = Fin r" and "lo \<le> r" and "r \<le> hi"
  using rnd_mono [OF assms(3)] rnd_mono [OF assms(4)] assms(1,2) by (cases "rnd x") auto

lemma rnd_not_nan: "rnd x \<noteq> NaN"
  using rnd_mono [of x x] by auto

end

interpretation double: rounding rnd_double
  by unfold_locales (simp add: rnd_double_def fp_round_mono)

interpretation float: rounding rnd_float
  by unfold_locales (simp add: rnd_float_def fp_round_mono)

lemma abs_less_Suc_pow: "\<bar>n\<bar> < (2::int) ^ p \<Longrightarrow> p \<le> q \<Longrightarrow> \<bar>n\<bar> < 2 ^ q"
  by (meson less_le_trans one_le_numeral power_increasing)

lemma fp_round_int:
  assumes "\<bar>n\<bar> < 2 ^ p" and "p \<le> emax"
  shows "fp_round p t emax (of_int n) = Fin (of_int n)"
proof (rule fp_round_representable)
  have "\<bar>n\<bar> * 2 ^ t < 2 ^ emax * 2 ^ t"
    using abs_less_Suc_pow [OF assms] by (intro mult_strict_right_mono) auto
  then show "representable p t emax (of_int n)"
    unfolding representable_def using assms(1)
    by (intro exI [of _ "\<bar>n\<bar>"] exI [of _ t]) (simp add: power_add)
qed

lemma rnd_double_int [simp]: "\<bar>n\<bar> < 2 ^ 53 \<Longrightarrow> rnd_double (of_int n) = Fin (of_int n)"
  unfolding rnd_double_def by (rule fp_round_int) auto

lemma rnd_float_int: "\<bar>n\<bar> < 2 ^ 24 \<Longrightarrow> rnd_float (of_int n) = Fin (of_int n)"
  unfolding rnd_float_def by (rule fp_round_int) auto

lemma rnd_double_numeral [simp]:
  "(numeral k :: int) < 2 ^ 53 \<Longrightarrow> rnd_double (numeral k) = Fin (numeral k)"
  "(numeral k :: int) < 2 ^ 53 \<Longrightarrow> rnd_double (- numeral k) = Fin (- numeral k)"
  using rnd_double_int [of "numeral k"] rnd_double_int [of "- numeral k"] by simp_all

lemma rnd_double_0_1 [simp]: "rnd_double 0 = Fin 0" "rnd_double 1 = Fin 1" "rnd_double (- 1) = Fin (- 1)"
  using rnd_double_int [of 0] rnd_double_int [of 1] rnd_double_int [of "-1"] by simp_all

lemma rnd_float_numeral [simp]:
  "(numeral k :: int) < 2 ^ 24 \<Longrightarrow> rnd_float (numeral k) = Fin (numeral k)"
  "(numeral k :: int) < 2 ^ 24 \<Longrightarrow> rnd_float (- numeral k) = Fin (- numeral k)"
  using rnd_float_int [of "numeral k"] rnd_float_int [of "- numeral k"] by simp_all

lemma rnd_float_0_1 [simp]: "rnd_float 0 = Fin 0" "rnd_float 1 = Fin 1"
  using rnd_float_int [of 0] rnd_float_int [of 1] by simp_all

lemma fp_round_overflow:
  assumes "2 ^ emax \<le> q" and "0 < p"
  shows "fp_round p t emax q = PosInf"
proof -
  have q: "0 < q" using assms(1) by (rule less_le_trans [rotated]) simp
  have "2 ^ emax * 2 ^ t \<le> q * 2 ^ t"
    using assms(1) by (intro mult_right_mono) auto
  then have le: "of_int (1 * 2 ^ (emax + t)) \<le> \<bar>q\<bar> * 2 ^ t"
    using q by (simp add: power_add)
  have "1 * 2 ^ (emax + t) = round_units p (of_int (1 * 2 ^ (emax + t)))"
    by (rule round_units_exact [symmetric]) (use assms(2) in auto)
  also have "\<dots> \<le> round_units p (\<bar>q\<bar> * 2 ^ t)"
    by (rule round_units_mono [OF _ le assms(2)]) simp
  finally show ?thesis using q by (simp add: fp_round_def Let_def)
qed

lemma rnd_double_overflow: "2 ^ 1024 \<le> q \<Longrightarrow> rnd_double q = PosInf"
  unfolding rnd_double_def by (rule fp_round_overflow) auto

section \<open>Arithmetic and casts\<close>

fun dbl_neg :: "dbl \<Rightarrow> dbl" where
  "dbl_neg (Fin x) = Fin (- x)"
| "dbl_neg PosInf = NegInf"
| "dbl_neg NegInf = PosInf"
| "dbl_neg NaN = NaN"

fun dbl_add :: "dbl \<Rightarrow> dbl \<Rightarrow> dbl" where
  "dbl_add NaN _ = NaN"
| "dbl_add _ NaN = NaN"
| "dbl_add (Fin x) (Fin y) = rnd_double (x + y)"
| "dbl_add (Fin _) y = y"
| "dbl_add x (Fin _) = x"
| "dbl_add PosInf NegInf = NaN"
| "dbl_add NegInf PosInf = NaN"
| "dbl_add x _ = x"

definition dbl_sub :: "dbl \<Rightarrow> dbl \<Rightarrow> dbl" where
  "dbl_sub x y = dbl_add x (dbl_neg y)"

text \<open>A product with an infinity: the sign rule, and NaN for zero times infinity.\<close>

definition inf_times :: "bool \<Rightarrow> dbl \<Rightarrow> dbl" where
  "inf_times pos y =
     (case y of
        Fin q \<Rightarrow> if q = 0 then NaN else if (0 < q) = pos then PosInf else NegInf
      | PosInf \<Rightarrow> if pos then PosInf else NegInf
      | NegInf \<Rightarrow> if pos then NegInf else PosInf
      | NaN \<Rightarrow> NaN)"

fun dbl_mult :: "dbl \<Rightarrow> dbl \<Rightarrow> dbl" where
  "dbl_mult NaN _ = NaN"
| "dbl_mult _ NaN = NaN"
| "dbl_mult (Fin x) (Fin y) = rnd_double (x * y)"
| "dbl_mult PosInf y = inf_times True y"
| "dbl_mult NegInf y = inf_times False y"
| "dbl_mult x PosInf = inf_times True x"
| "dbl_mult x NegInf = inf_times False x"

definition trunc_rat :: "rat \<Rightarrow> int" where
  "trunc_rat x = (if 0 \<le> x then \<lfloor>x\<rfloor> else \<lceil>x\<rceil>)"

text \<open>\<^verbatim>\<open>std::fmod\<close> with a finite nonzero second argument: exact, with the sign of the first.\<close>

fun dbl_fmod :: "dbl \<Rightarrow> rat \<Rightarrow> dbl" where
  "dbl_fmod (Fin x) y = Fin (x - of_int (trunc_rat (x / y)) * y)"
| "dbl_fmod _ y = NaN"

text \<open>\<^verbatim>\<open>static_cast\<close> of a double to an integer type: toward zero. The source casts finite values only.\<close>

fun dbl_trunc :: "dbl \<Rightarrow> int" where
  "dbl_trunc (Fin x) = trunc_rat x"
| "dbl_trunc _ = 0"

fun dbl_to_float :: "dbl \<Rightarrow> dbl" where
  "dbl_to_float (Fin x) = rnd_float x"
| "dbl_to_float x = x"

lemma trunc_rat_bounds:
  "of_int lo \<le> x \<Longrightarrow> lo \<le> 0 \<Longrightarrow> x \<le> of_int hi \<Longrightarrow> 0 \<le> hi \<Longrightarrow> lo \<le> trunc_rat x \<and> trunc_rat x \<le> hi"
  by (auto simp: trunc_rat_def le_floor_iff floor_le_iff ceiling_le_iff le_ceiling_iff)

lemma trunc_rat_abs: "\<bar>x - of_int (trunc_rat x)\<bar> < 1"
  unfolding trunc_rat_def by (cases "0 \<le> x") (simp_all, linarith+)

lemma dbl_fmod_bounds:
  assumes "0 < y"
  obtains r where "dbl_fmod (Fin x) y = Fin r" and "\<bar>r\<bar> < y"
proof -
  let ?t = "trunc_rat (x / y)"
  have "x - of_int ?t * y = (x / y - of_int ?t) * y" using assms by (simp add: field_simps)
  then have "\<bar>x - of_int ?t * y\<bar> = \<bar>x / y - of_int ?t\<bar> * y"
    using assms by (simp add: abs_mult)
  also have "\<dots> < 1 * y"
    using trunc_rat_abs [of "x / y"] assms by (intro mult_strict_right_mono)
  finally show ?thesis using that by simp
qed

section \<open>Reading numbers: \<^verbatim>\<open>sscanf("%lf")\<close>, \<^verbatim>\<open>strtod\<close> and \<^verbatim>\<open>strtoul\<close>\<close>

definition c_isspace :: "char \<Rightarrow> bool" where
  "c_isspace c \<longleftrightarrow> c = CHR '' '' \<or> (9 \<le> byte_of c \<and> byte_of c \<le> 13)"

definition c_tolower :: "char \<Rightarrow> char" where
  "c_tolower c = (if 65 \<le> byte_of c \<and> byte_of c \<le> 90 then char_of (byte_of c + 32) else c)"

text \<open>The bytes of a \<^verbatim>\<open>c_str()\<close>: everything before the first NUL.\<close>

definition c_str :: "string \<Rightarrow> string" where
  "c_str s = takeWhile (\<lambda>c. c \<noteq> chr_nul) s"

fun match_nocase :: "string \<Rightarrow> string \<Rightarrow> string option" where
  "match_nocase [] s = Some s"
| "match_nocase (w # ws) [] = None"
| "match_nocase (w # ws) (c # s) = (if c_tolower c = w then match_nocase ws s else None)"

definition digits_value :: "nat \<Rightarrow> nat list \<Rightarrow> nat" where
  "digits_value base ds = foldl (\<lambda>a d. base * a + d) 0 ds"

text \<open>
  The optional exponent after a mantissa, for \<^verbatim>\<open>e\<close> or \<^verbatim>\<open>p\<close>. \<open>strict\<close> is \<^verbatim>\<open>scanf\<close>'s rule: the input
  item is the longest prefix of a matching sequence, so an exponent mark with no digits fails
  the conversion; \<^verbatim>\<open>strtod\<close> stops before the mark instead.
\<close>

definition scan_exponent :: "bool \<Rightarrow> char \<Rightarrow> string \<Rightarrow> (int \<times> string) option" where
  "scan_exponent strict mark s =
     (case s of
        [] \<Rightarrow> Some (0, s)
      | c # t \<Rightarrow>
          if c_tolower c \<noteq> mark then Some (0, s)
          else
            let (neg, u) = (case t of [] \<Rightarrow> (False, t)
                            | d # t' \<Rightarrow> if d = CHR ''-'' then (True, t')
                                        else if d = CHR ''+'' then (False, t') else (False, t));
                ds = takeWhile is_digit u
            in if ds = [] then (if strict then None else Some (0, s))
               else let n = int (digits_value 10 (map digit_val ds))
                    in Some (if neg then - n else n, dropWhile is_digit u))"

definition pow_int :: "rat \<Rightarrow> int \<Rightarrow> rat" where
  "pow_int b n = (if 0 \<le> n then b ^ nat n else 1 / b ^ nat (- n))"

text \<open>A mantissa of digits accepted by \<open>P\<close>, with an optional point.\<close>

definition scan_mantissa :: "(char \<Rightarrow> bool) \<Rightarrow> string \<Rightarrow> (string \<times> string \<times> string) option" where
  "scan_mantissa P s =
     (let ip = takeWhile P s; r = dropWhile P s;
          (fp, r') = (case r of c # t \<Rightarrow> if c = CHR ''.'' then (takeWhile P t, dropWhile P t) else ([], r)
                               | [] \<Rightarrow> ([], r))
      in if ip = [] \<and> fp = [] then None else Some (ip, fp, r'))"

definition hex_digit :: "char \<Rightarrow> bool" where
  "hex_digit c \<longleftrightarrow> hex_val c \<noteq> None"

definition scan_decimal :: "bool \<Rightarrow> string \<Rightarrow> (rat \<times> string) option" where
  "scan_decimal strict s =
     (case scan_mantissa is_digit s of
        None \<Rightarrow> None
      | Some (ip, fp, r) \<Rightarrow>
          (case scan_exponent strict (CHR ''e'') r of
             None \<Rightarrow> None
           | Some (n, r') \<Rightarrow>
               Some (of_nat (digits_value 10 (map digit_val (ip @ fp))) * pow_int 10 (n - int (length fp)), r')))"

definition scan_hex :: "bool \<Rightarrow> string \<Rightarrow> (rat \<times> string) option" where
  "scan_hex strict s =
     (case scan_mantissa hex_digit s of
        None \<Rightarrow> None
      | Some (ip, fp, r) \<Rightarrow>
          (case scan_exponent strict (CHR ''p'') r of
             None \<Rightarrow> None
           | Some (n, r') \<Rightarrow>
               Some (of_nat (digits_value 16 (map (the \<circ> hex_val) (ip @ fp))) *
                       pow_int 2 (n - 4 * int (length fp)), r')))"

definition scan_inf_tail :: "bool \<Rightarrow> string \<Rightarrow> string option" where
  "scan_inf_tail strict r =
     (case match_nocase ''inity'' r of
        Some r' \<Rightarrow> Some r'
      | None \<Rightarrow> if strict \<and> match_nocase ''i'' r \<noteq> None then None else Some r)"

definition scan_nan_tail :: "bool \<Rightarrow> string \<Rightarrow> string option" where
  "scan_nan_tail strict r =
     (case r of
        [] \<Rightarrow> Some r
      | c # t \<Rightarrow>
          if c \<noteq> CHR ''('' then Some r
          else
            (case dropWhile (\<lambda>c. hex_digit c \<or> c = CHR ''_'' \<or>
                     (97 \<le> byte_of (c_tolower c) \<and> byte_of (c_tolower c) \<le> 122)) t of
               d # t' \<Rightarrow> if d = CHR '')'' then Some t' else if strict then None else Some r
             | [] \<Rightarrow> if strict then None else Some r))"

lemma is_double_zero: "is_double (Fin 0)"
  by (simp add: is_double_def)

text \<open>The value after an optional sign; \<open>neg\<close> is that sign.\<close>

definition signed_round :: "bool \<Rightarrow> rat \<Rightarrow> dbl" where
  "signed_round neg q = rnd_double (if neg then - q else q)"

definition scan_unsigned :: "bool \<Rightarrow> bool \<Rightarrow> string \<Rightarrow> (dbl \<times> string) option" where
  "scan_unsigned strict neg s =
     (case match_nocase ''inf'' s of
        Some r \<Rightarrow> map_option (\<lambda>r'. (if neg then NegInf else PosInf, r')) (scan_inf_tail strict r)
      | None \<Rightarrow>
     (case match_nocase ''nan'' s of
        Some r \<Rightarrow> map_option (\<lambda>r'. (NaN, r')) (scan_nan_tail strict r)
      | None \<Rightarrow>
     (case match_nocase ''0x'' s of
        Some r \<Rightarrow>
          (case scan_hex strict r of
             Some (q, r') \<Rightarrow> Some (signed_round neg q, r')
           | None \<Rightarrow> if strict then None else Some (Fin 0, drop 1 s))
      | None \<Rightarrow> map_option (\<lambda>(q, r'). (signed_round neg q, r')) (scan_decimal strict s))))"

definition scan_double :: "bool \<Rightarrow> string \<Rightarrow> (dbl \<times> string) option" where
  "scan_double strict s =
     (case dropWhile c_isspace s of
        [] \<Rightarrow> None
      | c # t \<Rightarrow>
          if c = CHR ''-'' then scan_unsigned strict True t
          else if c = CHR ''+'' then scan_unsigned strict False t
          else scan_unsigned strict False (c # t))"

definition sscanf_lf :: "string \<Rightarrow> dbl option" where
  "sscanf_lf s = map_option fst (scan_double True (c_str s))"

text \<open>
  \<^verbatim>\<open>sscanf(s, "%lf,%lf,%lf", &a, &b, &c)\<close>: how many conversions were made, and the three objects
  afterwards; a conversion that is not reached leaves its object as it was.
\<close>

definition scan_comma :: "string \<Rightarrow> string option" where
  "scan_comma s = (case s of c # t \<Rightarrow> if c = CHR '','' then Some t else None | [] \<Rightarrow> None)"

definition sscanf_lf3 :: "string \<Rightarrow> dbl \<times> dbl \<times> dbl \<Rightarrow> nat \<times> (dbl \<times> dbl \<times> dbl)" where
  "sscanf_lf3 s abc =
     (case abc of (a, b, c) \<Rightarrow>
      (case scan_double True (c_str s) of
         None \<Rightarrow> (0, abc)
       | Some (x, r) \<Rightarrow>
      (case Option.bind (scan_comma r) (scan_double True) of
         None \<Rightarrow> (1, (x, b, c))
       | Some (y, r') \<Rightarrow>
      (case Option.bind (scan_comma r') (scan_double True) of
         None \<Rightarrow> (2, (x, y, c))
       | Some (z, _) \<Rightarrow> (3, (x, y, z))))))"

text \<open>
  \<^verbatim>\<open>strtoul(s, nullptr, 10)\<close> with a 32-bit \<^verbatim>\<open>unsigned long\<close> (the build is Windows): no digits is
  0, overflow is \<open>2 ^ 32 - 1\<close>, and a minus sign negates the result modulo \<open>2 ^ 32\<close>.
\<close>

definition strtoul10 :: "string \<Rightarrow> nat" where
  "strtoul10 s =
     (let t = dropWhile c_isspace (c_str s);
          (neg, u) = (case t of c # t' \<Rightarrow> if c = CHR ''-'' then (True, t')
                                  else if c = CHR ''+'' then (False, t') else (False, t)
                                | [] \<Rightarrow> (False, t));
          n = digits_value 10 (map digit_val (takeWhile is_digit u))
      in if n \<ge> 2 ^ 32 then 2 ^ 32 - 1
         else if neg then (2 ^ 32 - n) mod 2 ^ 32 else n)"

lemma scan_unsigned_is_double: "scan_unsigned strict neg s = Some (x, r) \<Longrightarrow> is_double x"
  by (auto simp: scan_unsigned_def signed_round_def is_double_zero split: option.splits if_splits)

lemma scan_double_is_double: "scan_double strict s = Some (x, r) \<Longrightarrow> is_double x"
  by (auto simp: scan_double_def dest: scan_unsigned_is_double split: list.splits if_splits)

lemma sscanf_lf_is_double: "sscanf_lf s = Some x \<Longrightarrow> is_double x"
  by (auto simp: sscanf_lf_def dest: scan_double_is_double)

lemma sscanf_lf3_is_double:
  "sscanf_lf3 s (a, b, c) = (n, x, y, z) \<Longrightarrow> is_double a \<Longrightarrow> is_double b \<Longrightarrow> is_double c \<Longrightarrow>
     is_double x \<and> is_double y \<and> is_double z"
  by (auto simp: sscanf_lf3_def bind_eq_Some_conv dest!: scan_double_is_double split: option.splits)

lemmas scan_defs = sscanf_lf_def sscanf_lf3_def scan_double_def scan_unsigned_def scan_decimal_def
  scan_hex_def scan_mantissa_def scan_exponent_def scan_inf_tail_def scan_nan_tail_def scan_comma_def
  signed_round_def c_str_def c_isspace_def c_tolower_def is_digit_def digit_val_def hex_digit_def
  hex_val_def digits_value_def pow_int_def byte_of_def

end
