(* ===== verification/Json_Values.thy ===== *)
theory Json_Values
  imports Json_Text Doubles
begin

text \<open>
  The numeric half of \<^verbatim>\<open>PeerJson.hpp\<close>: reading numbers and triples out of a line, the bounds that
  make a peer's number safe to narrow, the array walkers and the angle interpolation.
\<close>

section \<open>Fields and members\<close>

definition json_vec3_field :: "string \<Rightarrow> string \<Rightarrow> dbl \<times> dbl \<times> dbl \<Rightarrow> bool \<times> (dbl \<times> dbl \<times> dbl)" where
  "json_vec3_field s key abc =
     (let needle = [chr_quote] @ key @ [chr_quote, CHR '':'', CHR ''[''] in
      case str_find s needle 0 of
        None \<Rightarrow> (False, abc)
      | Some pos \<Rightarrow> (case sscanf_lf3 (drop (pos + length needle) s) abc of (n, abc') \<Rightarrow> (n = 3, abc')))"

definition json_number_field :: "string \<Rightarrow> string \<Rightarrow> dbl option" where
  "json_number_field s key =
     (let needle = [chr_quote] @ key @ [chr_quote, CHR '':''] in
      case str_find s needle 0 of
        None \<Rightarrow> None
      | Some pos \<Rightarrow> sscanf_lf (drop (pos + length needle) s))"

text \<open>
  \<^verbatim>\<open>json_number_member\<close>: \<open>None\<close> is a \<^verbatim>\<open>false\<close> return, which leaves the caller's variable alone.
\<close>

definition json_number_member :: "string \<Rightarrow> nat \<Rightarrow> nat \<Rightarrow> string \<Rightarrow> dbl option" where
  "json_number_member s b e key =
     (case json_member_value s b e key of
        None \<Rightarrow> None
      | Some v \<Rightarrow>
          let d = (if s ! v = CHR ''-'' then v + 1 else v) in
          if d \<ge> length s \<or> \<not> is_digit (s ! d) then None
          else sscanf_lf (drop v s))"

definition json_vec3_member ::
  "string \<Rightarrow> nat \<Rightarrow> nat \<Rightarrow> string \<Rightarrow> dbl \<times> dbl \<times> dbl \<Rightarrow> bool \<times> (dbl \<times> dbl \<times> dbl)" where
  "json_vec3_member s b e key abc =
     (case json_member_value s b e key of
        None \<Rightarrow> (False, abc)
      | Some v \<Rightarrow>
          if s ! v \<noteq> CHR ''['' then (False, abc)
          else (case sscanf_lf3 (drop (v + 1) s) abc of (n, abc') \<Rightarrow> (n = 3, abc')))"

section \<open>Bounds on a peer's number\<close>

definition clamp_to_uint8 :: "dbl \<Rightarrow> 8 word" where
  "clamp_to_uint8 value =
     (if dbl_isnan value \<or> dbl_less value (Fin 0) then 0
      else if dbl_less (Fin 255) value then 255
      else of_int (dbl_trunc value))"

definition finite_or :: "dbl \<Rightarrow> dbl \<Rightarrow> dbl" where
  "finite_or value fallback = (if isfinite value then value else fallback)"

definition clamp_to_float :: "dbl \<Rightarrow> rat \<Rightarrow> rat \<Rightarrow> dbl" where
  "clamp_to_float value lo hi =
     (if dbl_isnan value \<or> dbl_less value (Fin lo) then Fin lo
      else if dbl_less (Fin hi) value then Fin hi
      else dbl_to_float value)"

definition clamp_count_to_int :: "dbl \<Rightarrow> int \<Rightarrow> int \<Rightarrow> int \<Rightarrow> int" where
  "clamp_count_to_int value lo hi fallback =
     (if \<not> isfinite value \<or> dbl_less value (Fin (of_int lo)) \<or> dbl_less (Fin (of_int hi)) value
      then fallback else dbl_trunc value)"

section \<open>Arrays\<close>

function next_object_loop :: "string \<Rightarrow> nat \<Rightarrow> nat \<Rightarrow> ((nat \<times> nat) \<times> nat) option" where
  "next_object_loop s e pos =
     (if pos \<ge> e then None
      else if s ! pos = CHR ''{'' then
        (case json_body_at s pos e of
           None \<Rightarrow> None
         | Some (b, e') \<Rightarrow> Some ((b, e'), e' + 1))
      else if s ! pos = chr_quote then
        (case json_skip_string s pos e of None \<Rightarrow> None | Some close \<Rightarrow> next_object_loop s e (close + 1))
      else if s ! pos = CHR ''['' then
        (case json_array_body_at s pos e of None \<Rightarrow> None | Some (b, e') \<Rightarrow> next_object_loop s e (e' + 1))
      else next_object_loop s e (pos + 1))"
  by pat_completeness auto
termination
  by (relation "measure (\<lambda>(s, e, pos). e - pos)")
     (auto dest!: json_skip_string_progress json_array_body_at_progress)

declare next_object_loop.simps [simp del]

definition json_next_object :: "string \<Rightarrow> nat \<Rightarrow> nat \<Rightarrow> ((nat \<times> nat) \<times> nat) option" where
  "json_next_object s pos e = next_object_loop s (min e (length s)) pos"

text \<open>The end of the container whose bracket is at \<open>i\<close>, as both array readers skip one.\<close>

definition container_end :: "string \<Rightarrow> nat \<Rightarrow> nat \<Rightarrow> nat option" where
  "container_end s i e =
     map_option snd (if s ! i = CHR ''{'' then json_body_at s i e else json_array_body_at s i e)"

lemma container_end_bounds: "container_end s i e = Some j \<Longrightarrow> i < j \<and> j < e"
  by (auto simp: container_end_def split: if_splits
           dest: json_body_at_progress json_array_body_at_progress)

function string_array_loop :: "string \<Rightarrow> nat \<Rightarrow> nat \<Rightarrow> nat \<Rightarrow> string list \<Rightarrow> string list" where
  "string_array_loop s e mx i out =
     (if \<not> (i < e \<and> length out < mx) then out
      else if s ! i = chr_quote then
        (let out' = out @ [json_decode_string_at s (i + 1)] in
         case json_skip_string s i e of
           None \<Rightarrow> out'
         | Some close \<Rightarrow> string_array_loop s e mx (close + 1) out')
      else if s ! i = CHR ''{'' \<or> s ! i = CHR ''['' then
        (case container_end s i e of None \<Rightarrow> out | Some j \<Rightarrow> string_array_loop s e mx (j + 1) out)
      else string_array_loop s e mx (i + 1) out)"
  by pat_completeness auto
termination
  by (relation "measure (\<lambda>(s, e, mx, i, out). e - i)")
     (auto dest!: json_skip_string_progress container_end_bounds)

declare string_array_loop.simps [simp del]

definition json_string_array :: "string \<Rightarrow> nat \<Rightarrow> nat \<Rightarrow> nat \<Rightarrow> string list" where
  "json_string_array s b e mx = string_array_loop s (min e (length s)) mx b []"

definition number_char :: "char \<Rightarrow> bool" where
  "number_char c \<longleftrightarrow> c = CHR ''.'' \<or> c = CHR ''e'' \<or> c = CHR ''E'' \<or> c = CHR ''+'' \<or> c = CHR ''-'' \<or> is_digit c"

function skip_number :: "string \<Rightarrow> nat \<Rightarrow> nat \<Rightarrow> nat" where
  "skip_number s d e = (if d < e \<and> number_char (s ! d) then skip_number s (d + 1) e else d)"
  by pat_completeness auto
termination
  by (relation "measure (\<lambda>(s, d, e). e - d)") auto

declare skip_number.simps [simp del]

lemma skip_number_ge: "d \<le> skip_number s d e"
proof (induction s d e rule: skip_number.induct)
  case (1 s d e)
  then show ?case by (subst skip_number.simps) auto
qed

lemma skip_number_progress: "d < e \<Longrightarrow> is_digit (s ! d) \<Longrightarrow> d < skip_number s d e"
  using skip_number_ge [of "d + 1" s e] by (subst skip_number.simps) (auto simp: number_char_def)

function number_array_loop :: "string \<Rightarrow> nat \<Rightarrow> nat \<Rightarrow> nat \<Rightarrow> dbl list \<Rightarrow> dbl list" where
  "number_array_loop s e mx i out =
     (if \<not> (i < e \<and> length out < mx) then out
      else
        let d = (if s ! i = CHR ''-'' then i + 1 else i) in
        if d < e \<and> is_digit (s ! d) then
          number_array_loop s e mx (skip_number s d e)
            (case sscanf_lf (drop i s) of None \<Rightarrow> out | Some v \<Rightarrow> out @ [v])
        else if s ! i = chr_quote then
          (case json_skip_string s i e of
             None \<Rightarrow> out
           | Some close \<Rightarrow> number_array_loop s e mx (close + 1) out)
        else if s ! i = CHR ''{'' \<or> s ! i = CHR ''['' then
          (case container_end s i e of None \<Rightarrow> out | Some j \<Rightarrow> number_array_loop s e mx (j + 1) out)
        else number_array_loop s e mx (i + 1) out)"
  by pat_completeness auto
termination
  by (relation "measure (\<lambda>(s, e, mx, i, out). e - i)")
     (auto dest!: json_skip_string_progress container_end_bounds
           dest: skip_number_progress split: if_splits intro!: diff_less_mono2)

declare number_array_loop.simps [simp del]

definition json_number_array :: "string \<Rightarrow> nat \<Rightarrow> nat \<Rightarrow> nat \<Rightarrow> dbl list" where
  "json_number_array s b e mx = number_array_loop s (min e (length s)) mx b []"

section \<open>Shortest-arc interpolation\<close>

definition lerp_angle_deg :: "dbl \<Rightarrow> dbl \<Rightarrow> dbl \<Rightarrow> dbl" where
  "lerp_angle_deg from_deg to_deg t =
     (if \<not> isfinite from_deg \<or> \<not> isfinite to_deg \<or> \<not> isfinite t
      then (if isfinite from_deg then from_deg else Fin 0)
      else
        let folded_from = dbl_fmod from_deg 360;
            folded_to = dbl_fmod to_deg 360;
            delta = dbl_fmod (dbl_sub folded_to folded_from) 360;
            delta = (if dbl_less (Fin 180) delta then dbl_sub delta (Fin 360)
                     else if dbl_less delta (Fin (- 180)) then dbl_add delta (Fin 360)
                     else delta);
            out = dbl_add from_deg (dbl_mult delta t)
        in if isfinite out then out else from_deg)"

section \<open>What the bounds guarantee\<close>

lemma clamp_to_uint8_value:
  "unat (clamp_to_uint8 x) =
     (case x of
        Fin q \<Rightarrow> if q < 0 then 0 else if 255 < q then 255 else nat \<lfloor>q\<rfloor>
      | PosInf \<Rightarrow> 255 | NegInf \<Rightarrow> 0 | NaN \<Rightarrow> 0)"
proof (cases x)
  case (Fin q)
  have "unat (of_int \<lfloor>q\<rfloor> :: 8 word) = nat \<lfloor>q\<rfloor>" if "0 \<le> q" "q \<le> 255"
  proof -
    have "\<lfloor>q\<rfloor> \<le> 255" using that by (simp add: floor_le_iff)
    moreover have "0 \<le> \<lfloor>q\<rfloor>" using that by simp
    ultimately have "uint (of_int \<lfloor>q\<rfloor> :: 8 word) = \<lfloor>q\<rfloor>"
      by (simp add: uint_word_of_int)
    then show ?thesis by (simp add: unat_eq_nat_uint)
  qed
  then show ?thesis using Fin
    by (auto simp: clamp_to_uint8_def dbl_isnan_def trunc_rat_def)
qed (simp_all add: clamp_to_uint8_def dbl_isnan_def)

lemma clamp_to_float_in_range:
  assumes "rnd_float lo = Fin lo" and "rnd_float hi = Fin hi" and "lo \<le> hi"
  shows "\<exists>r. clamp_to_float x lo hi = Fin r \<and> lo \<le> r \<and> r \<le> hi"
proof (cases x)
  case (Fin q)
  show ?thesis
  proof (cases "lo \<le> q \<and> q \<le> hi")
    case True
    then obtain r where "rnd_float q = Fin r" "lo \<le> r" "r \<le> hi"
      using float.rnd_between [OF assms(1,2)] by blast
    with True Fin show ?thesis by (auto simp: clamp_to_float_def dbl_isnan_def)
  next
    case False
    with Fin assms(3) show ?thesis by (auto simp: clamp_to_float_def dbl_isnan_def)
  qed
qed (use assms(3) in \<open>simp_all add: clamp_to_float_def dbl_isnan_def\<close>)

lemma clamp_count_to_int_range:
  assumes "lo \<le> 0" and "0 \<le> hi" and "lo \<le> fallback" and "fallback \<le> hi"
  shows "lo \<le> clamp_count_to_int x lo hi fallback \<and> clamp_count_to_int x lo hi fallback \<le> hi"
proof (cases x)
  case (Fin q)
  show ?thesis
    using assms trunc_rat_bounds [of lo q hi] by (auto simp: clamp_count_to_int_def Fin)
qed (use assms in \<open>simp_all add: clamp_count_to_int_def\<close>)

section \<open>What a number read out of a line can be\<close>

lemma digit_tolower: "is_digit c \<Longrightarrow> c_tolower c \<noteq> CHR ''i'' \<and> c_tolower c \<noteq> CHR ''n''"
  by (auto simp: c_tolower_def is_digit_def byte_of_def)

lemma scan_unsigned_digit:
  "is_digit c \<Longrightarrow> scan_unsigned strict neg (c # s) = Some (x, r) \<Longrightarrow> x \<noteq> NaN"
  using double.rnd_not_nan digit_tolower [of c]
  by (auto simp: scan_unsigned_def signed_round_def split: option.splits if_splits)

lemma digit_not_space: "is_digit c \<Longrightarrow> \<not> c_isspace c \<and> c \<noteq> CHR ''-'' \<and> c \<noteq> CHR ''+'' \<and> c \<noteq> chr_nul"
  by (auto simp: is_digit_def c_isspace_def byte_of_def)

lemma sscanf_lf_digit:
  assumes "is_digit c" and "t = c # s \<or> t = CHR ''-'' # c # s"
  shows "sscanf_lf t \<noteq> Some NaN"
proof -
  have m: "\<not> c_isspace (CHR ''-'')" by (simp add: c_isspace_def byte_of_def)
  have "scan_double True (c_str t) = Some (x, r) \<Longrightarrow> x \<noteq> NaN" for x r
    using assms(2) digit_not_space [OF assms(1)] m
    by (auto simp: scan_double_def c_str_def dest: scan_unsigned_digit [OF assms(1)])
  then show ?thesis by (auto simp: sscanf_lf_def)
qed

lemma json_number_member_not_nan: "json_number_member s b e key \<noteq> Some NaN"
proof
  assume "json_number_member s b e key = Some NaN"
  then obtain v where v: "json_member_value s b e key = Some v"
    and sc: "sscanf_lf (drop v s) = Some NaN"
    and d: "(if s ! v = CHR ''-'' then v + 1 else v) < length s"
      "is_digit (s ! (if s ! v = CHR ''-'' then v + 1 else v))"
    by (auto simp: json_number_member_def Let_def split: option.splits if_splits)
  show False
  proof (cases "s ! v = CHR ''-''")
    case True
    with d have "drop v s = CHR ''-'' # s ! Suc v # drop (Suc (Suc v)) s"
      by (simp add: nth_drop_0 [of v] nth_drop_0 [of "Suc v"])
    with d True sc sscanf_lf_digit show False by auto
  next
    case False
    with d have "drop v s = s ! v # drop (Suc v) s"
      by (simp add: nth_drop_0 [of v])
    with d False sc sscanf_lf_digit show False by auto
  qed
qed

section \<open>Interpolation\<close>

lemma lerp_angle_deg_finite: "isfinite (lerp_angle_deg f t x)"
  by (auto simp: lerp_angle_deg_def Let_def)

lemma dbl_add_int: "\<bar>a + b\<bar> < 2 ^ 53 \<Longrightarrow> dbl_add (Fin (of_int a)) (Fin (of_int b)) = Fin (of_int (a + b))"
  using rnd_double_int [of "a + b"] by simp

lemma dbl_sub_int: "\<bar>a - b\<bar> < 2 ^ 53 \<Longrightarrow> dbl_sub (Fin (of_int a)) (Fin (of_int b)) = Fin (of_int (a - b))"
  using rnd_double_int [of "a - b"] by (simp add: dbl_sub_def)

text \<open>\<^verbatim>\<open>fmod\<close> by 360 on whole angles.\<close>

definition deg_rem :: "int \<Rightarrow> int" where
  "deg_rem n = n - 360 * trunc_rat (of_int n / 360)"

lemma fmod_int: "dbl_fmod (Fin (of_int n)) 360 = Fin (of_int (deg_rem n))"
  by (simp add: deg_rem_def mult.commute)

lemma deg_rem_bounds: "\<bar>deg_rem n\<bar> < 360"
proof -
  obtain r where r: "dbl_fmod (Fin (of_int n)) 360 = Fin r" "\<bar>r\<bar> < 360"
    using dbl_fmod_bounds [of 360 "of_int n"] by auto
  then have "\<bar>of_int (deg_rem n)\<bar> < (360 :: rat)" by (simp only: fmod_int dbl.inject)
  then have "of_int \<bar>deg_rem n\<bar> < (of_int 360 :: rat)" by simp
  then show ?thesis by (simp only: of_int_less_iff)
qed

lemma deg_rem_dvd: "360 dvd (n - deg_rem n)"
  by (simp add: deg_rem_def)

text \<open>The signed shortest arc between two whole angles, reference.\<close>

definition short_arc :: "int \<Rightarrow> int \<Rightarrow> int \<Rightarrow> bool" where
  "short_arc f t d \<longleftrightarrow> \<bar>d\<bar> \<le> 180 \<and> (f + d - t) mod 360 = 0"

lemma lerp_delta:
  obtains d where "short_arc f t d"
    and "\<And>x. lerp_angle_deg (Fin (of_int f)) (Fin (of_int t)) (Fin x) =
      (let out = dbl_add (Fin (of_int f)) (dbl_mult (Fin (of_int d)) (Fin x)) in
       if isfinite out then out else Fin (of_int f))"
proof -
  let ?s = "deg_rem t - deg_rem f"
  define e where "e = deg_rem ?s"
  define d where "d = (if 180 < e then e - 360 else if e < - 180 then e + 360 else e)"
  note b = deg_rem_bounds [of f] deg_rem_bounds [of t] deg_rem_bounds [of ?s]
  have sub: "dbl_fmod (dbl_sub (Fin (of_int (deg_rem t))) (Fin (of_int (deg_rem f)))) 360 = Fin (of_int e)"
  proof -
    have "\<bar>?s\<bar> < 2 ^ 53" using b(1,2) by simp
    from dbl_sub_int [OF this] show ?thesis by (simp only: e_def fmod_int)
  qed
  have lt: "dbl_less (Fin 180) (Fin (of_int e)) = (180 < e)" "dbl_less (Fin (of_int e)) (Fin (- 180)) = (e < - 180)"
    using of_int_less_iff [of 180 e, where 'a = rat] of_int_less_iff [of e "- 180", where 'a = rat] by simp_all
  have adj: "(if dbl_less (Fin 180) (Fin (of_int e)) then dbl_sub (Fin (of_int e)) (Fin 360)
      else if dbl_less (Fin (of_int e)) (Fin (- 180)) then dbl_add (Fin (of_int e)) (Fin 360)
      else Fin (of_int e)) = Fin (of_int d)"
    unfolding lt d_def using dbl_sub_int [of e 360] dbl_add_int [of e 360] b(3) by (simp add: e_def)
  have arc: "short_arc f t d"
  proof -
    have "\<bar>d\<bar> \<le> 180" using b(3) by (auto simp: d_def e_def)
    moreover have "360 dvd (d - e)" by (simp add: d_def)
    moreover have "f + d - t = ((f - deg_rem f) - (t - deg_rem t)) - (?s - e) + (d - e)" by simp
    moreover have "360 dvd ((f - deg_rem f) - (t - deg_rem t)) - (?s - e) + (d - e)"
      unfolding e_def
      by (rule dvd_add [OF dvd_diff [OF dvd_diff [OF deg_rem_dvd deg_rem_dvd] deg_rem_dvd]
            \<open>360 dvd (d - e)\<close> [unfolded e_def]])
    ultimately show ?thesis unfolding short_arc_def by (metis dvd_imp_mod_0)
  qed
  show ?thesis
    by (rule that [OF arc]) (simp only: lerp_angle_deg_def Let_def fmod_int sub adj isfinite.simps simp_thms if_False if_True)
qed

lemma short_arc_le:
  assumes "short_arc f t d" and "0 \<le> x" and "x \<le> 1"
  shows "- 180 \<le> of_int d * (x :: rat) \<and> of_int d * x \<le> 180"
proof -
  have "of_int \<bar>d\<bar> \<le> (of_int 180 :: rat)" unfolding of_int_le_iff using assms(1) by (simp add: short_arc_def)
  then have d: "\<bar>of_int d\<bar> \<le> (180 :: rat)" by simp
  have "\<bar>of_int d * x\<bar> \<le> 180 * 1"
    unfolding abs_mult using d assms(2,3) by (intro mult_mono) auto
  then show ?thesis by (simp add: abs_le_iff)
qed

text \<open>
  A ghost turns the short way. Between two whole angles, however many turns apart, the
  interpolated facing at any parameter between 0 and 1 stays within half a turn of where it started,
  and at 1 it is the target angle up to whole turns.
\<close>

theorem lerp_angle_short_way:
  assumes "\<bar>f\<bar> < 2 ^ 50" and "0 \<le> x" and "x \<le> 1"
  shows "(\<exists>r. lerp_angle_deg (Fin (of_int f)) (Fin (of_int t)) (Fin x) = Fin r \<and>
            of_int (f - 180) \<le> r \<and> r \<le> of_int (f + 180)) \<and>
         (\<exists>n. lerp_angle_deg (Fin (of_int f)) (Fin (of_int t)) (Fin 1) = Fin (of_int n) \<and> (n - t) mod 360 = 0)"
proof -
  obtain d where d: "short_arc f t d" and
    eq: "\<And>x. lerp_angle_deg (Fin (of_int f)) (Fin (of_int t)) (Fin x) =
      (let out = dbl_add (Fin (of_int f)) (dbl_mult (Fin (of_int d)) (Fin x)) in
       if isfinite out then out else Fin (of_int f))"
    by (rule lerp_delta) blast
  obtain m where m: "rnd_double (of_int d * x) = Fin m" "- 180 \<le> m" "m \<le> 180"
    using double.rnd_between [of "- 180" 180 "of_int d * x"] short_arc_le [OF d assms(2,3)] by auto
  have "rnd_double (of_int (f - 180)) = Fin (of_int (f - 180))" "rnd_double (of_int (f + 180)) = Fin (of_int (f + 180))"
    using assms(1) by (intro rnd_double_int, simp)+
  then obtain r where r: "rnd_double (of_int f + m) = Fin r" "of_int (f - 180) \<le> r" "r \<le> of_int (f + 180)"
    using double.rnd_between [of "of_int (f - 180)" "of_int (f + 180)" "of_int f + m"] m(2,3) by auto
  have "\<bar>d\<bar> < 2 ^ 53" "\<bar>f + d\<bar> < 2 ^ 53" using d assms(1) by (auto simp: short_arc_def)
  then have "rnd_double (of_int d) = Fin (of_int d)" "rnd_double (of_int (f + d)) = Fin (of_int (f + d))"
    by (blast intro: rnd_double_int)+
  then have one: "lerp_angle_deg (Fin (of_int f)) (Fin (of_int t)) (Fin 1) = Fin (of_int (f + d))"
    by (simp add: eq)
  have cong: "(f + d - t) mod 360 = 0" using d by (simp add: short_arc_def)
  have at: "lerp_angle_deg (Fin (of_int f)) (Fin (of_int t)) (Fin x) = Fin r"
    using m r by (simp add: eq)
  show ?thesis
    by (rule conjI [OF exI [of _ r] exI [of _ "f + d"]]) (intro conjI at r one cong)+
qed

theorem lerp_angle_short_way_witness:
  "\<exists>r. lerp_angle_deg (Fin (of_int 350)) (Fin (of_int 10)) (Fin (1 / 2)) = Fin r \<and>
     of_int (350 - 180) \<le> r \<and> r \<le> of_int (350 + 180)"
proof -
  have "\<bar>350 :: int\<bar> < 2 ^ 50" "(0 :: rat) \<le> 1 / 2" "(1 / 2 :: rat) \<le> 1" by simp_all
  from lerp_angle_short_way [OF this, of 10] show ?thesis by (rule conjunct1)
qed

text \<open>
  Every narrowing of a peer's number is bounded, for any double at all (NaN and the
  infinities included): the byte is the floor pinned to 0 .. 255, the count lies in its range, and
  the \<^verbatim>\<open>float\<close> is finite and between its bounds whenever the bounds are themselves floats.
\<close>

theorem peer_numbers_bounded:
  assumes "rnd_float lo = Fin lo" and "rnd_float hi = Fin hi" and "lo \<le> hi"
    and "lo' \<le> 0" and "0 \<le> hi'" and "lo' \<le> fb" and "fb \<le> hi'"
  shows "(\<exists>r. clamp_to_float x lo hi = Fin r \<and> lo \<le> r \<and> r \<le> hi) \<and>
         lo' \<le> clamp_count_to_int x lo' hi' fb \<and> clamp_count_to_int x lo' hi' fb \<le> hi' \<and>
         unat (clamp_to_uint8 x) =
           (case x of Fin q \<Rightarrow> if q < 0 then 0 else if 255 < q then 255 else nat \<lfloor>q\<rfloor>
                    | PosInf \<Rightarrow> 255 | NegInf \<Rightarrow> 0 | NaN \<Rightarrow> 0)"
  using clamp_to_float_in_range [OF assms(1-3)] clamp_count_to_int_range [OF assms(4-7)] clamp_to_uint8_value
  by blast

theorem peer_numbers_bounded_witness:
  "\<exists>r. clamp_to_float PosInf (- 1024) 1024 = Fin r \<and> - 1024 \<le> r \<and> r \<le> 1024"
  using peer_numbers_bounded [of "- 1024" 1024 0 1000000000 0 PosInf] by simp

text \<open>
  What a peer's number member can be. A number read by name out of a line is never NaN,
  so comparisons with it are decided; it can be infinite, since a digit string past the double range
  is valid JSON and is read as an infinity.
\<close>

definition huge_member :: string where
  "huge_member = [chr_quote, CHR ''k'', chr_quote] @ '':1e400''"

lemma huge_scan: "sscanf_lf ''1e400'' = Some PosInf"
  by (simp add: scan_defs, rule rnd_double_overflow, simp)

theorem json_number_member_range:
  "json_number_member s b e key \<noteq> Some NaN \<and> json_number_member huge_member 0 9 ''k'' = Some PosInf"
proof
  have v: "json_member_value huge_member 0 9 ''k'' = Some 4" by code_simp
  show "json_number_member huge_member 0 9 ''k'' = Some PosInf"
    unfolding json_number_member_def v using huge_scan
    by (simp add: huge_member_def is_digit_def byte_of_def)
qed (rule json_number_member_not_nan)

end
