(* ===== verification/Json_Top.thy ===== *)
theory Json_Top
  imports Json_Values
begin

text \<open>
  The top-level readers of \<^verbatim>\<open>PeerJson.hpp\<close>, which the bridge uses on the core's control words, and
  the latest-wins collapse of a batch of lines.
\<close>

section \<open>Top-level readers\<close>

definition top_space :: "char \<Rightarrow> bool" where
  "top_space c \<longleftrightarrow> c = CHR '' '' \<or> c = chr_tab"

function top_skip :: "string \<Rightarrow> nat \<Rightarrow> nat" where
  "top_skip line j = (if j < length line \<and> top_space (line ! j) then top_skip line (j + 1) else j)"
  by pat_completeness auto
termination
  by (relation "measure (\<lambda>(line, j). length line - j)") auto

declare top_skip.simps [simp del]

text \<open>
  The scan the two readers share: the position after the colon (and blanks) that follows the
  quoted key at depth 1. A quoted key with no colon after it is a string value and is stepped
  over. The depth is an \<^verbatim>\<open>int\<close> and may go below zero on unbalanced input.
\<close>

function top_find :: "string \<Rightarrow> string \<Rightarrow> nat \<Rightarrow> bool \<Rightarrow> bool \<Rightarrow> int \<Rightarrow> nat option" where
  "top_find want line i in_string escaped depth =
     (if i \<ge> length line then None
      else if escaped then top_find want line (i + 1) in_string False depth
      else if in_string then
        (if line ! i = chr_backslash then top_find want line (i + 1) True True depth
         else if line ! i = chr_quote then top_find want line (i + 1) False False depth
         else top_find want line (i + 1) True False depth)
      else if line ! i = chr_quote then
        (let j = top_skip line (i + length want) in
         if depth = 1 \<and> str_compare_eq line i (length want) want \<and> j < length line \<and> line ! j = CHR '':''
         then Some (top_skip line (j + 1))
         else top_find want line (i + 1) True False depth)
      else if line ! i = CHR ''{'' \<or> line ! i = CHR ''['' then top_find want line (i + 1) False False (depth + 1)
      else if line ! i = CHR ''}'' \<or> line ! i = CHR '']'' then top_find want line (i + 1) False False (depth - 1)
      else top_find want line (i + 1) False False depth)"
  by pat_completeness auto
termination
  by (relation "measure (\<lambda>(want, line, i, in_string, escaped, depth). length line - i)") auto

declare top_find.simps [simp del]

function top_value :: "string \<Rightarrow> nat \<Rightarrow> bool \<Rightarrow> string \<Rightarrow> string" where
  "top_value line j esc out =
     (if j \<ge> length line then []
      else if esc then
        top_value line (j + 1) False
          (out @ [if line ! j = CHR ''n'' then chr_newline
                  else if line ! j = CHR ''t'' then chr_tab
                  else if line ! j = CHR ''r'' then chr_return else line ! j])
      else if line ! j = chr_backslash then top_value line (j + 1) True out
      else if line ! j = chr_quote then out
      else top_value line (j + 1) False (out @ [line ! j]))"
  by pat_completeness auto
termination
  by (relation "measure (\<lambda>(line, j, esc, out). length line - j)") auto

declare top_value.simps [simp del]

definition quoted :: "string \<Rightarrow> string" where
  "quoted key = [chr_quote] @ key @ [chr_quote]"

definition json_top_level_string :: "string \<Rightarrow> string \<Rightarrow> string" where
  "json_top_level_string line key =
     (case top_find (quoted key) line 0 False False 0 of
        None \<Rightarrow> []
      | Some j \<Rightarrow>
          if j \<ge> length line \<or> line ! j \<noteq> chr_quote then []
          else top_value line (j + 1) False [])"

definition json_top_level_true :: "string \<Rightarrow> string \<Rightarrow> bool" where
  "json_top_level_true line key =
     (case top_find (quoted key) line 0 False False 0 of
        None \<Rightarrow> False
      | Some j \<Rightarrow> str_compare_eq line j 4 ''true'')"

section \<open>Latest-wins collapse\<close>

definition is_render_remote :: "string \<Rightarrow> bool" where
  "is_render_remote line \<longleftrightarrow> json_string_field line ''type'' = ''render_remote''"

definition line_player :: "string \<Rightarrow> string" where
  "line_player line = json_string_field line ''player_id''"

text \<open>The backwards pass: \<^verbatim>\<open>keep[i]\<close> for each line, newest first, and the ids seen so far.\<close>

fun collapse_keep :: "string list \<Rightarrow> string set \<Rightarrow> bool list" where
  "collapse_keep [] seen = []"
| "collapse_keep (l # rev_lines) seen =
     (if \<not> is_render_remote l then True # collapse_keep rev_lines seen
      else (line_player l \<notin> seen) # collapse_keep rev_lines (insert (line_player l) seen))"

text \<open>The forwards pass moves every kept line to the front and cuts the rest.\<close>

definition compact :: "string list \<Rightarrow> bool list \<Rightarrow> string list" where
  "compact lines keep = map fst (filter snd (zip lines keep))"

definition collapse_latest_render_remote :: "string list \<Rightarrow> string list" where
  "collapse_latest_render_remote lines =
     (if length lines < 2 then lines
      else compact lines (rev (collapse_keep (rev lines) {})))"

text \<open>The reference: a line stays unless a later render_remote of the same player supersedes it.\<close>

fun latest_only :: "string list \<Rightarrow> string list" where
  "latest_only [] = []"
| "latest_only (l # ls) =
     (if is_render_remote l \<and> (\<exists>l'\<in>set ls. is_render_remote l' \<and> line_player l' = line_player l)
      then latest_only ls else l # latest_only ls)"

lemma length_collapse_keep [simp]: "length (collapse_keep ls seen) = length ls"
  by (induction ls seen rule: collapse_keep.induct) auto

lemma collapse_keep_append:
  "collapse_keep (xs @ ys) seen =
     collapse_keep xs seen @
     collapse_keep ys (seen \<union> line_player ` {l \<in> set xs. is_render_remote l})"
proof (induction xs seen rule: collapse_keep.induct)
  case (1 seen)
  show ?case by simp
next
  case (2 l xs seen)
  have "{l' \<in> set (l # xs). is_render_remote l'} =
      (if is_render_remote l then insert l {l' \<in> set xs. is_render_remote l'}
       else {l' \<in> set xs. is_render_remote l'})"
    by auto
  with 2 show ?case by (auto simp: insert_commute)
qed

lemma compact_Cons: "compact (l # ls) (k # ks) = (if k then l # compact ls ks else compact ls ks)"
  by (simp add: compact_def)

lemma compact_collapse_keep: "compact ls (rev (collapse_keep (rev ls) {})) = latest_only ls"
proof (induction ls)
  case Nil
  show ?case by (simp add: compact_def)
next
  case (Cons l ls)
  have "collapse_keep [l] (line_player ` {l \<in> set ls. is_render_remote l}) =
      [\<not> (is_render_remote l \<and> (\<exists>l'\<in>set ls. is_render_remote l' \<and> line_player l' = line_player l))]"
    by (auto simp: image_iff)
  then show ?case
    using Cons by (simp add: collapse_keep_append compact_Cons del: collapse_keep.simps)
qed

lemma latest_only_short: "length ls < 2 \<Longrightarrow> latest_only ls = ls"
  by (cases ls; cases "tl ls") auto

lemma collapse_eq_latest_only: "collapse_latest_render_remote ls = latest_only ls"
  by (simp add: collapse_latest_render_remote_def compact_collapse_keep latest_only_short)

lemma set_latest_only: "set (latest_only ls) \<subseteq> set ls"
  by (induction ls) auto

lemma latest_only_keeps_player:
  "l \<in> set ls \<Longrightarrow> is_render_remote l \<Longrightarrow>
   \<exists>l'\<in>set (latest_only ls). is_render_remote l' \<and> line_player l' = line_player l"
proof (induction ls arbitrary: l)
  case (Cons a ls)
  show ?case
  proof (cases "l \<in> set ls")
    case True
    then show ?thesis using Cons.IH [OF True Cons.prems(2)] by auto
  next
    case False
    with Cons.prems have "l = a" by simp
    then show ?thesis using Cons.IH Cons.prems(2) by (auto; metis)
  qed
qed simp

lemma latest_only_distinct:
  "distinct (map line_player (filter is_render_remote (latest_only ls)))"
proof (induction ls)
  case (Cons l ls)
  then show ?case using set_latest_only [of ls] by (auto simp: image_iff)
qed simp

lemma latest_only_idem: "latest_only (latest_only ls) = latest_only ls"
proof (induction ls)
  case (Cons l ls)
  then show ?case using set_latest_only [of ls] by auto
qed simp

lemma latest_only_others: "filter (\<lambda>l. \<not> is_render_remote l) (latest_only ls) = filter (\<lambda>l. \<not> is_render_remote l) ls"
  by (induction ls) auto

lemma latest_only_subseq: "subseq (latest_only ls) ls"
  by (induction ls) auto

section \<open>The top-level readers see the top level only\<close>

lemma top_find_past: "length line \<le> i \<Longrightarrow> top_find want line i in_str esc d = None"
  by (subst top_find.simps) simp

lemma top_find_in_string:
  "skip_string_loop s i e = Some c \<Longrightarrow>
   top_find want s i True False d = top_find want s (c + 1) False False d"
proof (induction s i e rule: skip_string_loop.induct)
  case (1 s i e)
  from "1.prems" have i: "\<not> e \<le> i" by (subst (asm) skip_string_loop.simps) (simp split: if_splits)
  have "i \<le> c" using skip_string_loop_bounds [OF "1.prems"] by simp
  consider (bs) "s ! i = chr_backslash" | (q) "s ! i = chr_quote" | (other) "s ! i \<noteq> chr_backslash" "s ! i \<noteq> chr_quote"
    by blast
  then show ?case
  proof cases
    case bs
    then have r: "skip_string_loop s (i + 2) e = Some c"
      using "1.prems" i by (simp add: skip_string_loop.simps [of s i e])
    have "top_find want s i True False d = top_find want s (i + 2) True False d"
    proof (cases "i + 1 < length s")
      case True
      have "top_find want s i True False d = top_find want s (i + 1) True True d"
        using True bs by (subst top_find.simps) simp
      also have "\<dots> = top_find want s (i + 2) True False d"
        using True by (subst top_find.simps) simp
      finally show ?thesis .
    next
      case False
      then have "top_find want s (i + 1) True True d = None" by (intro top_find_past) simp
      moreover have "top_find want s (i + 2) True False d = None" using False by (intro top_find_past) simp
      ultimately show ?thesis using bs by (subst top_find.simps) simp
    qed
    with "1.IH"(1) [OF i bs r] show ?thesis by simp
  next
    case q
    then have "c = i" using "1.prems" i by (simp add: skip_string_loop.simps [of s i e])
    with q show ?thesis by (subst top_find.simps) (simp add: top_find_past)
  next
    case other
    then have r: "skip_string_loop s (i + 1) e = Some c"
      using "1.prems" i by (simp add: skip_string_loop.simps [of s i e])
    have "top_find want s i True False d = top_find want s (i + 1) True False d"
      using other by (subst top_find.simps) (simp add: top_find_past)
    with "1.IH"(2) [OF i other r] show ?thesis by simp
  qed
qed

interpretation top_scan: depth_scanner "\<lambda>s e i d. top_find want s i False False (int d + 1)" 1 1
proof unfold_locales
  fix i e :: nat and s :: string and d c :: nat
  show "top_find want s i False False (int d + 1) = top_find want s (i + 1) False False (int d + 1)"
    if "\<not> structural (s ! i)"
    using that by (subst top_find.simps) (auto simp: structural_def top_find_past)
  show "top_find want s i False False (int d + 1) = top_find want s (c + 1) False False (int d + 1)"
    if "s ! i = chr_quote" "json_skip_string s i e = Some c" "1 \<le> d"
  proof -
    have "i < c" using json_skip_string_bounds(1) [OF that(2)] .
    then show ?thesis
      using top_find_in_string [of s "i + 1" e c want "int d + 1"] that
      by (subst top_find.simps) (auto simp: json_skip_string_def top_find_past Let_def)
  qed
  show "top_find want s i False False (int d + 1) = top_find want s (i + 1) False False (int (d + 1) + 1)"
    if "s ! i = CHR ''{''"
    using that by (subst top_find.simps) (auto simp: top_find_past ac_simps)
  show "top_find want s i False False (int d + 1) = top_find want s (i + 1) False False (int (d + 1) + 1)"
    if "s ! i = CHR ''[''"
    using that by (subst top_find.simps) (auto simp: top_find_past ac_simps)
  show "top_find want s i False False (int (d + 1) + 1) = top_find want s (i + 1) False False (int d + 1)"
    if "s ! i = CHR ''}''"
    using that by (subst top_find.simps) (auto simp: top_find_past ac_simps)
  show "top_find want s i False False (int (d + 1) + 1) = top_find want s (i + 1) False False (int d + 1)"
    if "s ! i = CHR '']''"
    using that by (subst top_find.simps) (auto simp: top_find_past ac_simps)
qed

definition key_ok :: "string \<Rightarrow> bool" where
  "key_ok key \<longleftrightarrow> chr_quote \<notin> set key \<and> chr_backslash \<notin> set key"

lemma raw_key_prefix:
  "raw_ok k \<Longrightarrow> key_ok key \<Longrightarrow> prefix (key @ [chr_quote]) (k @ chr_quote # rest) \<Longrightarrow> k = key"
proof (induction key arbitrary: k)
  case Nil
  then show ?case by (cases k) (auto split: if_splits)
next
  case (Cons a key)
  then show ?case by (cases k) (auto simp: key_ok_def)
qed

lemma compare_quoted:
  assumes "raw_ok k" and "key_ok key"
  shows "str_compare_eq (pre @ chr_quote # k @ chr_quote # rest) (length pre) (length (quoted key)) (quoted key)
         \<longleftrightarrow> k = key"
proof
  assume "str_compare_eq (pre @ chr_quote # k @ chr_quote # rest) (length pre) (length (quoted key)) (quoted key)"
  then have "prefix (quoted key) (chr_quote # k @ chr_quote # rest)"
    using take_is_prefix [of "length (quoted key)" "chr_quote # k @ chr_quote # rest"]
    by (simp only: str_compare_eq_def append_eq_conv_conj [THEN iffD1] drop_append) simp
  then have "prefix (key @ [chr_quote]) (k @ chr_quote # rest)"
    by (simp add: quoted_def)
  then show "k = key" by (rule raw_key_prefix [OF assms])
qed (simp add: str_compare_eq_def quoted_def)

lemma top_skip_stop: "\<not> (j < length s \<and> top_space (s ! j)) \<Longrightarrow> top_skip s j = j"
  by (subst top_skip.simps) auto

lemma top_find_string_value:
  assumes ok: "raw_ok r" and key: "key_ok key" and s: "s = pre @ chr_quote # r @ chr_quote # c # rest"
    and c: "c = CHR '','' \<or> c = CHR ''}''"
  shows "top_find (quoted key) s (length pre) False False 1 =
         top_find (quoted key) s (length pre + length r + 2) False False 1"
proof -
  have at: "s ! length pre = chr_quote" "s ! (length pre + length r + 2) = c"
    by (auto simp: s nth_append)
  have sk: "top_skip s (length pre + length r + 2) = length pre + length r + 2"
    by (rule top_skip_stop) (use at c in \<open>auto simp: top_space_def\<close>)
  have no: "\<not> (str_compare_eq s (length pre) (length (quoted key)) (quoted key) \<and>
      s ! top_skip s (length pre + length (quoted key)) = CHR '':'')"
    using compare_quoted [OF ok key, of pre "c # rest"] at sk c by (auto simp: s quoted_def)
  have skip: "skip_string_loop s (length pre + 1) (length s) = Some (length pre + length r + 1)"
    using skip_string_loop_raw [OF ok, of "pre @ [chr_quote]" "length s" "c # rest"] by (simp add: s)
  have "top_find (quoted key) s (length pre) False False 1 =
        top_find (quoted key) s (length pre + 1) True False 1"
    using at(1) no by (subst top_find.simps) (auto simp: s Let_def)
  also have "\<dots> = top_find (quoted key) s (length pre + length r + 2) False False 1"
    using top_find_in_string [OF skip] by simp
  finally show ?thesis .
qed

lemma top_find_nested_value:
  assumes "list_all item_ok its"
    and t: "t = CHR ''{'' # items_text its @ [CHR ''}''] \<or> t = CHR ''['' # items_text its @ [CHR '']'']"
  shows "top_find want (pre @ t @ post) (length pre) False False 1 =
         top_find want (pre @ t @ post) (length pre + length t) False False 1"
proof -
  let ?s = "pre @ t @ post" and ?n = "length (items_text its)"
  from t obtain ob cb where t: "t = ob # items_text its @ [cb]"
    and ob: "ob = CHR ''{'' \<or> ob = CHR ''[''" and cb: "cb = CHR ''}'' \<or> cb = CHR '']''"
    by auto
  have "top_find want ?s (length pre) False False 1 = top_find want ?s (length pre + 1) False False 2"
    using t ob by (subst top_find.simps) auto
  also have "\<dots> = top_find want ((pre @ [ob]) @ items_text its @ cb # post) (length (pre @ [ob])) False False (int 1 + 1)"
    by (simp add: t)
  also have "\<dots> = top_find want ((pre @ [ob]) @ items_text its @ cb # post) (length (pre @ [ob]) + ?n) False False (int 1 + 1)"
    by (rule top_scan.passesD [OF top_scan.passes_items [OF assms(1)], of _ _ "length ?s"]) (auto simp: t)
  also have "\<dots> = top_find want ?s (length pre + 1 + ?n) False False 2"
    by (simp add: t)
  also have "\<dots> = top_find want ?s (length pre + 1 + ?n + 1) False False 1"
    using t cb by (subst top_find.simps) (auto simp: nth_append)
  finally show ?thesis by (simp add: t)
qed

lemma top_find_plain_run:
  "list_all (\<lambda>it. case it of Plain c \<Rightarrow> \<not> structural c \<and> \<not> json_is_space c | _ \<Rightarrow> False) its \<Longrightarrow>
   top_find want (pre @ items_text its @ post) (length pre) False False d =
   top_find want (pre @ items_text its @ post) (length pre + length (items_text its)) False False d"
proof (induction its arbitrary: pre)
  case Nil
  then show ?case by simp
next
  case (Cons it its)
  then obtain c where it: "it = Plain c" and c: "\<not> structural c"
    by (auto split: jitem.splits)
  have "top_find want (pre @ items_text (it # its) @ post) (length pre) False False d =
        top_find want ((pre @ [c]) @ items_text its @ post) (length (pre @ [c])) False False d"
    using c it by (subst top_find.simps) (auto simp: structural_def)
  then show ?case
    using Cons.IH [of "pre @ [c]"] Cons.prems it by (simp add: add.assoc)
qed

lemma top_find_value:
  assumes ok: "value_ok v" and key: "key_ok key" and s: "s = pre @ items_text v @ c # rest"
    and c: "c = CHR '','' \<or> c = CHR ''}''"
  shows "top_find (quoted key) s (length pre) False False 1 =
         top_find (quoted key) s (length pre + length (items_text v)) False False 1"
proof (cases "\<exists>r. v = [Str r]")
  case True
  then obtain r where v: "v = [Str r]" by blast
  show ?thesis
    using top_find_string_value [OF _ key _ c, of r s pre rest] ok s v by simp
next
  case False
  show ?thesis
    using ok False top_find_plain_run [of v "quoted key" pre "c # rest" 1]
      top_find_nested_value [of _ "items_text v" "quoted key" pre "c # rest"] s
    by (cases v rule: value_ok.cases) auto
qed

lemma top_find_key:
  assumes ok: "raw_ok k" and key: "key_ok key"
    and s: "s = pre @ chr_quote # k @ chr_quote # CHR '':'' # rest"
    and nsp: "\<not> json_is_space (hd rest)" and ne: "rest \<noteq> []"
  shows "top_find (quoted key) s (length pre) False False 1 =
     (if k = key then Some (length pre + length k + 3)
      else top_find (quoted key) s (length pre + length k + 3) False False 1)"
proof -
  have at: "s ! length pre = chr_quote" "s ! (length pre + length k + 2) = CHR '':''"
    "s ! (length pre + length k + 3) = hd rest"
    using ne by (auto simp: s nth_append hd_conv_nth)
  have sk: "top_skip s (length pre + length k + 2) = length pre + length k + 2"
    "top_skip s (length pre + length k + 3) = length pre + length k + 3"
    by (rule top_skip_stop, use at nsp in \<open>auto simp: top_space_def json_is_space_def\<close>)+
  have cmp: "str_compare_eq s (length pre) (length (quoted key)) (quoted key) \<longleftrightarrow> k = key"
    using compare_quoted [OF ok key, of pre "CHR '':'' # rest"] by (simp add: s)
  show ?thesis
  proof (cases "k = key")
    case True
    have "length pre + length (quoted key) = length pre + length k + 2"
      using True by (simp add: quoted_def)
    then show ?thesis
      using True at sk cmp by (subst top_find.simps) (simp add: Let_def s numeral_3_eq_3)
  next
    case False
    have skip: "skip_string_loop s (length pre + 1) (length s) = Some (length pre + length k + 1)"
      using skip_string_loop_raw [OF ok, of "pre @ [chr_quote]" "length s" "CHR '':'' # rest"] by (simp add: s)
    have "top_find (quoted key) s (length pre) False False 1 =
          top_find (quoted key) s (length pre + 1) True False 1"
      using at(1) False cmp by (subst top_find.simps) (auto simp: s Let_def)
    also have "\<dots> = top_find (quoted key) s (length pre + length k + 2) False False 1"
      using top_find_in_string [OF skip] by simp
    also have "\<dots> = top_find (quoted key) s (length pre + length k + 3) False False 1"
      using at(2) by (subst top_find.simps) (auto simp: top_find_past numeral_3_eq_3)
    finally show ?thesis using False by simp
  qed
qed

lemma top_find_members:
  "members_ok ms \<Longrightarrow> key_ok key \<Longrightarrow> s = pre @ items_text (body_items ms) @ CHR ''}'' # post \<Longrightarrow>
   top_find (quoted key) s (length pre) False False 1 =
     (case member_pos (length pre) ms key of
        Some p \<Rightarrow> Some p
      | None \<Rightarrow> top_find (quoted key) s (length pre + length (items_text (body_items ms))) False False 1)"
proof (induction ms arbitrary: pre)
  case Nil
  then show ?case by simp
next
  case (Cons m ms)
  obtain k v where m: "m = (k, v)" by force
  have k: "raw_ok k" and v: "value_ok v" and ms: "members_ok ms"
    using Cons.prems(1) m by (auto simp: members_ok_def)
  let ?tail = "if ms = [] then CHR ''}'' # post else CHR '','' # items_text (body_items ms) @ CHR ''}'' # post"
  let ?pre = "pre @ chr_quote # k @ [chr_quote, CHR '':'']"
  have s: "s = pre @ chr_quote # k @ chr_quote # CHR '':'' # items_text v @ ?tail"
    using Cons.prems(3) m by (simp add: items_text_body_Cons del: body_items.simps)
  obtain c rest where tail: "?tail = c # rest" and c: "c = CHR '','' \<or> c = CHR ''}''"
    by (cases "ms = []") auto
  have step: "top_find (quoted key) s (length pre) False False 1 =
      (if k = key then Some (length pre + length k + 3)
       else top_find (quoted key) s (length pre + length k + 3) False False 1)"
    by (rule top_find_key [OF k Cons.prems(2) s])
       (use value_ok_nonempty [OF v] value_ok_hd [OF v] in simp_all)
  have s2: "s = ?pre @ items_text v @ c # rest"
    using s tail by simp
  have L: "length ?pre = length pre + length k + 3" by simp
  have val: "top_find (quoted key) s (length pre + length k + 3) False False 1 =
      top_find (quoted key) s (length pre + length k + 3 + length (items_text v)) False False 1"
    using top_find_value [OF v Cons.prems(2) s2 c] unfolding L .
  show ?case
  proof (cases "ms = []")
    case True
    with step val m show ?thesis
      by (simp add: numeral_3_eq_3 add.assoc)
  next
    case False
    let ?pre' = "?pre @ items_text v @ [CHR '','']"
    have s3: "s = ?pre' @ items_text (body_items ms) @ CHR ''}'' # post"
      using s False by simp
    have L': "length ?pre' = length pre + length k + 3 + length (items_text v) + 1" by simp
    have comma: "s ! (length pre + length k + 3 + length (items_text v)) = CHR '',''"
      using s False by (simp add: nth_append)
    have "top_find (quoted key) s (length pre + length k + 3 + length (items_text v)) False False 1 =
        top_find (quoted key) s (length ?pre') False False 1"
      unfolding L' using comma s3 by (subst top_find.simps) (auto simp: top_find_past)
    also have "\<dots> = (case member_pos (length ?pre') ms key of
        Some p \<Rightarrow> Some p
      | None \<Rightarrow> top_find (quoted key) s (length ?pre' + length (items_text (body_items ms))) False False 1)"
      by (rule Cons.IH [OF ms Cons.prems(2) s3])
    finally have IH: "top_find (quoted key) s (length pre + length k + 3 + length (items_text v)) False False 1 =
        (case member_pos (length pre + length k + 3 + length (items_text v) + 1) ms key of
           Some p \<Rightarrow> Some p
         | None \<Rightarrow> top_find (quoted key) s
             (length pre + length k + 3 + length (items_text v) + 1 + length (items_text (body_items ms))) False False 1)"
      unfolding L' .
    have E: "length pre + length (items_text (body_items (m # ms))) =
        length pre + length k + 3 + length (items_text v) + 1 + length (items_text (body_items ms))"
      using False by (simp add: m items_text_body_Cons del: body_items.simps)
    show ?thesis
      unfolding E unfolding m member_pos.simps step val IH by (cases "k = key") simp_all
  qed
qed

lemma top_value_escape:
  "top_value (pre @ json_escape t @ chr_quote # rest) (length pre) False out = out @ t"
proof (induction t arbitrary: pre out)
  case Nil
  show ?case by (simp add: top_value.simps [of _ "length pre"])
next
  case (Cons c t)
  show ?case
  proof (cases "c = chr_quote \<or> c = chr_backslash")
    case True
    let ?s = "pre @ json_escape (c # t) @ chr_quote # rest"
    have "top_value ?s (length pre) False out = top_value ?s (length pre + 1) True out"
      using True by (subst top_value.simps) auto
    also have "\<dots> = top_value ((pre @ [chr_backslash, c]) @ json_escape t @ chr_quote # rest)
        (length (pre @ [chr_backslash, c])) False (out @ [c])"
      using True by (subst top_value.simps) (auto simp: nth_append)
    also have "\<dots> = (out @ [c]) @ t" by (rule Cons.IH)
    finally show ?thesis by simp
  next
    case False
    let ?s = "pre @ json_escape (c # t) @ chr_quote # rest"
    have "top_value ?s (length pre) False out =
        top_value ((pre @ [c]) @ json_escape t @ chr_quote # rest) (length (pre @ [c])) False (out @ [c])"
      using False by (subst top_value.simps) auto
    also have "\<dots> = (out @ [c]) @ t" by (rule Cons.IH)
    finally show ?thesis by simp
  qed
qed

lemma top_find_object:
  assumes "members_ok ms" and "key_ok key" and line: "line = item_text (Obj (body_items ms))"
  shows "top_find (quoted key) line 0 False False 0 = member_pos 1 ms key"
proof -
  let ?n = "length (items_text (body_items ms))"
  have s: "line = [CHR ''{''] @ items_text (body_items ms) @ CHR ''}'' # []"
    using line by simp
  have "top_find (quoted key) line 0 False False 0 = top_find (quoted key) line 1 False False 1"
    using line by (subst top_find.simps) simp
  also have "\<dots> = (case member_pos 1 ms key of
      Some p \<Rightarrow> Some p | None \<Rightarrow> top_find (quoted key) line (1 + ?n) False False 1)"
    using top_find_members [OF assms(1,2) s] by (simp split: option.split)
  also have "top_find (quoted key) line (1 + ?n) False False 1 = None"
    using line by (subst top_find.simps) (simp add: nth_append top_find_past)
  finally show ?thesis by (simp split: option.splits)
qed

lemma json_top_level_string_member:
  assumes "members_ok ms" and "key_ok key" and "map_of ms key = Some [Str (json_escape t)]"
  shows "json_top_level_string (item_text (Obj (body_items ms))) key = t"
proof -
  let ?line = "item_text (Obj (body_items ms))"
  from member_pos_Some [OF assms(3), of 1] obtain pre post where
    b: "items_text (body_items ms) = pre @ items_text [Str (json_escape t)] @ post"
    and mp: "member_pos 1 ms key = Some (1 + length pre)"
    by blast
  have line: "?line = (CHR ''{'' # pre @ [chr_quote]) @ json_escape t @ chr_quote # post @ [CHR ''}'']"
    using b by simp
  have "top_value ?line (length (CHR ''{'' # pre @ [chr_quote])) False [] = t"
    unfolding line using top_value_escape [of "CHR ''{'' # pre @ [chr_quote]" t _ "[]"] by simp
  moreover have "?line ! (1 + length pre) = chr_quote" "1 + length pre < length ?line"
    unfolding line by (simp_all add: nth_append)
  ultimately show ?thesis
    unfolding json_top_level_string_def top_find_object [OF assms(1,2) refl] mp
    by (simp del: item_text.simps)
qed

lemma json_top_level_string_absent:
  assumes "members_ok ms" and "key_ok key" and "map_of ms key = None"
  shows "json_top_level_string (item_text (Obj (body_items ms))) key = []"
  unfolding json_top_level_string_def top_find_object [OF assms(1,2) refl]
  by (simp add: member_pos_None [OF assms(3)])

text \<open>
  Control words cannot be forged from inside. For every well-formed NDJSON object, the
  top-level reader returns the text of the first member of that name at depth one when it is a
  string, and the empty string when there is no such member, however often nested objects, arrays
  or string contents spell the same key.
\<close>

theorem json_top_level_string_exact:
  assumes "members_ok ms" and "key_ok key"
  shows "(map_of ms key = Some [Str (json_escape t)] \<longrightarrow>
            json_top_level_string (item_text (Obj (body_items ms))) key = t) \<and>
         (map_of ms key = None \<longrightarrow> json_top_level_string (item_text (Obj (body_items ms))) key = [])"
  using json_top_level_string_member [OF assms] json_top_level_string_absent [OF assms] by simp

theorem json_top_level_string_exact_witness:
  "json_top_level_string (item_text (Obj (body_items sample_root))) ''type'' = ''render_remote''"
proof -
  have "map_of sample_root ''type'' = Some [Str (json_escape ''render_remote'')]"
    by (simp add: sample_root_def del: body_items.simps)
  with json_top_level_string_exact [OF sample_ok(4), of "''type''" "''render_remote''"] show ?thesis
    by (simp add: key_ok_def)
qed

text \<open>
  Collapsing the pending queue loses nothing that is owed. The result is a subsequence
  of the queue: every line that is not a \<^verbatim>\<open>render_remote\<close> is kept in place, every player who had a
  state line still has exactly one, it is the newest, and collapsing again changes nothing.
\<close>

theorem collapse_latest_wins:
  "collapse_latest_render_remote ls = latest_only ls \<and>
   subseq (collapse_latest_render_remote ls) ls \<and>
   filter (\<lambda>l. \<not> is_render_remote l) (collapse_latest_render_remote ls) = filter (\<lambda>l. \<not> is_render_remote l) ls \<and>
   distinct (map line_player (filter is_render_remote (collapse_latest_render_remote ls))) \<and>
   line_player ` {l \<in> set (collapse_latest_render_remote ls). is_render_remote l} = line_player ` {l \<in> set ls. is_render_remote l} \<and>
   collapse_latest_render_remote (collapse_latest_render_remote ls) = collapse_latest_render_remote ls"
proof -
  have "line_player ` {l \<in> set (latest_only ls). is_render_remote l} = line_player ` {l \<in> set ls. is_render_remote l}"
    using latest_only_keeps_player [of _ ls] set_latest_only [of ls] by (fastforce simp: image_iff)
  then show ?thesis
    by (simp add: collapse_eq_latest_only latest_only_subseq latest_only_others latest_only_distinct latest_only_idem)
qed

end
