(* ===== verification/Bridge.thy ===== *)
theory Bridge
  imports Json_Top
begin

text \<open>
  The bridge client, \<^verbatim>\<open>BridgeClient.cpp\<close> and \<^verbatim>\<open>BridgeClient.hpp\<close>: the object's fields as a record,
  one definition per method. Winsock is not code of the repository: what \<^verbatim>\<open>socket\<close>, \<^verbatim>\<open>connect\<close>,
  \<^verbatim>\<open>select\<close>, \<^verbatim>\<open>bind\<close>, \<^verbatim>\<open>send\<close> and \<^verbatim>\<open>recv\<close> answered during a call is an argument, and so is every
  reading of the steady clock (an \<open>int\<close> of nanoseconds, 0 the epoch). Log output is left out.
\<close>

section \<open>State\<close>

definition ms :: "int \<Rightarrow> int" where
  "ms n = n * 1000000"

definition MAX_RECV_BUFFER_BYTES :: nat where "MAX_RECV_BUFFER_BYTES = 16 * 1024"
definition RECONNECT_INTERVAL :: int where "RECONNECT_INTERVAL = ms 2000"
definition BRIDGE_BASE_PORT :: u16 where "BRIDGE_BASE_PORT = 7778"
definition BRIDGE_PORT_COUNT :: nat where "BRIDGE_PORT_COUNT = 8"
definition BUSY_PORT_COOLDOWN :: int where "BUSY_PORT_COOLDOWN = ms 10000"
definition RELAY_DOWN_BACKOFF :: int where "RELAY_DOWN_BACKOFF = ms 10000"
definition HELLO_ANSWER_TIMEOUT :: int where "HELLO_ANSWER_TIMEOUT = ms 1500"
definition MAX_RECV_PER_POLL :: nat where "MAX_RECV_PER_POLL = 64 * 1024"

lemmas bridge_consts = ms_def MAX_RECV_BUFFER_BYTES_def RECONNECT_INTERVAL_def BRIDGE_BASE_PORT_def
  BRIDGE_PORT_COUNT_def BUSY_PORT_COOLDOWN_def RELAY_DOWN_BACKOFF_def HELLO_ANSWER_TIMEOUT_def
  MAX_RECV_PER_POLL_def

record bridge_stats =
  connect_attempts :: u64
  send_ok :: u64
  send_fail :: u64
  lines_received :: u64
  lines_malformed :: u64

record bridge =
  current_port :: u16
  sock :: "nat option"
  connected :: bool
  hello_sent_this_connection :: bool
  recv_buffer :: string
  counters :: bridge_stats
  base_port :: u16
  busy_until :: "int list"
  relay_down_until :: int
  spawnable :: u16
  have_spawnable_port :: bool
  last_busy_port :: u16
  own_core_port :: u16
  hello_sent_at :: int
  core_answered_ready :: bool
  last_connect_attempt :: int

definition new_bridge :: "u16 \<Rightarrow> bridge" where
  "new_bridge base = \<lparr>current_port = 0, sock = None, connected = False,
     hello_sent_this_connection = False, recv_buffer = [],
     counters = \<lparr>connect_attempts = 0, send_ok = 0, send_fail = 0, lines_received = 0, lines_malformed = 0\<rparr>,
     base_port = base, busy_until = replicate BRIDGE_PORT_COUNT 0, relay_down_until = 0,
     spawnable = 0, have_spawnable_port = False, last_busy_port = 0, own_core_port = 0,
     hello_sent_at = 0, core_answered_ready = False, last_connect_attempt = 0\<rparr>"

section \<open>Connection state\<close>

definition close_socket :: "bridge \<Rightarrow> bridge" where
  "close_socket b = b\<lparr>sock := None, connected := False, hello_sent_this_connection := False,
     core_answered_ready := False, hello_sent_at := 0, current_port := 0\<rparr>"

definition mark_hello_sent :: "int \<Rightarrow> bridge \<Rightarrow> bridge" where
  "mark_hello_sent now b = b\<lparr>hello_sent_this_connection := True, hello_sent_at := now\<rparr>"

definition is_ready :: "bridge \<Rightarrow> bool" where
  "is_ready b =
     (if \<not> connected b \<or> \<not> hello_sent_this_connection b then False else core_answered_ready b)"

definition resolved_port :: "bridge \<Rightarrow> u16" where
  "resolved_port b = (if connected b then current_port b else 0)"

definition set_own_core_port :: "u16 \<Rightarrow> bridge \<Rightarrow> bridge" where
  "set_own_core_port port b = b\<lparr>own_core_port := port\<rparr>"

definition spawnable_port :: "bridge \<Rightarrow> u16 option" where
  "spawnable_port b = (if \<not> have_spawnable_port b then None else Some (spawnable b))"

text \<open>
  The index of a port in the walk, when it lies in \<^verbatim>\<open>[base_port, base_port + 8)\<close>; the comparison is
  on promoted integers and does not wrap.
\<close>

definition port_index :: "bridge \<Rightarrow> u16 \<Rightarrow> nat option" where
  "port_index b p =
     (if unat (base_port b) \<le> unat p \<and> unat p < unat (base_port b) + BRIDGE_PORT_COUNT
      then Some (unat p - unat (base_port b)) else None)"

definition mark_busy :: "u16 \<Rightarrow> int \<Rightarrow> bridge \<Rightarrow> bridge" where
  "mark_busy p now b =
     (case port_index b p of
        None \<Rightarrow> b
      | Some i \<Rightarrow> b\<lparr>busy_until := (busy_until b)[i := now + BUSY_PORT_COOLDOWN]\<rparr>)"

section \<open>Connecting\<close>

datatype wsa_error = WSAEWOULDBLOCK | WSAECONNREFUSED | WSAOther int

text \<open>\<^verbatim>\<open>select\<close>: nothing within 2 ms, or the write-set membership and SO\_ERROR (\<open>None\<close> is 0).\<close>

datatype select_answer = SelectNothing | SelectFired bool "wsa_error option"

record port_answers =
  pa_socket :: "nat option"
  pa_connect :: "wsa_error option"
  pa_select :: select_answer
  pa_probe_socket :: bool
  pa_bind_ok :: bool

definition bump_attempts :: "bridge \<Rightarrow> bridge" where
  "bump_attempts b = b\<lparr>counters := (counters b)\<lparr>connect_attempts := connect_attempts (counters b) + 1\<rparr>\<rparr>"

text \<open>\<^verbatim>\<open>try_port\<close>: the return value, \<^verbatim>\<open>refused\<close>, and the object afterwards.\<close>

definition try_port :: "port_answers \<Rightarrow> bridge \<Rightarrow> bool \<times> bool \<times> bridge" where
  "try_port a b =
     (let b = bump_attempts b in
      case pa_socket a of
        None \<Rightarrow> (False, False, b)
      | Some h \<Rightarrow>
          (case pa_connect a of
             None \<Rightarrow> (True, False, b\<lparr>sock := Some h\<rparr>)
           | Some err \<Rightarrow>
               if err \<noteq> WSAEWOULDBLOCK then (False, err = WSAECONNREFUSED, b)
               else
                 (case pa_select a of
                    SelectNothing \<Rightarrow> (False, False, b)
                  | SelectFired writable so_error \<Rightarrow>
                      if writable \<and> so_error = None then (True, False, b\<lparr>sock := Some h\<rparr>)
                      else (False, so_error = Some WSAECONNREFUSED, b))))"

definition port_is_bindable :: "port_answers \<Rightarrow> bool" where
  "port_is_bindable a = (if \<not> pa_probe_socket a then False else pa_bind_ok a)"

definition candidate :: "bridge \<Rightarrow> nat \<Rightarrow> u16" where
  "candidate b i = base_port b + of_nat i"

text \<open>The two \<^verbatim>\<open>continue\<close> guards of the sweep.\<close>

definition skips_port :: "bridge \<Rightarrow> int \<Rightarrow> nat \<Rightarrow> bool" where
  "skips_port b now i \<longleftrightarrow>
     busy_until b ! i > now \<or>
     (own_core_port b \<noteq> 0 \<and> own_core_port b \<noteq> last_busy_port b \<and> candidate b i \<noteq> own_core_port b)"

definition note_connected :: "u16 \<Rightarrow> bridge \<Rightarrow> bridge" where
  "note_connected p b = b\<lparr>current_port := p, connected := True, hello_sent_this_connection := False,
     core_answered_ready := False, recv_buffer := []\<rparr>"

fun sweep :: "(u16 \<Rightarrow> port_answers) \<Rightarrow> int \<Rightarrow> nat list \<Rightarrow> bridge \<Rightarrow> bridge" where
  "sweep env now [] b = b"
| "sweep env now (i # is) b =
     (if skips_port b now i then sweep env now is b
      else
        let p = candidate b i in
        case try_port (env p) b of
          (True, _, b') \<Rightarrow> note_connected p b'
        | (False, refused, b') \<Rightarrow>
            sweep env now is
              (if \<not> have_spawnable_port b' \<and> (refused \<or> port_is_bindable (env p))
               then b'\<lparr>spawnable := p, have_spawnable_port := True\<rparr> else b'))"

definition hello_timed_out :: "int \<Rightarrow> bridge \<Rightarrow> bool" where
  "hello_timed_out now b \<longleftrightarrow>
     hello_sent_this_connection b \<and> \<not> core_answered_ready b \<and> now - hello_sent_at b > HELLO_ANSWER_TIMEOUT"

text \<open>
  \<^verbatim>\<open>tick_connect\<close> reads the clock up to three times: for the hello timeout, for the busy stamp and
  for the sweep.
\<close>

definition tick_connect :: "(u16 \<Rightarrow> port_answers) \<Rightarrow> int \<Rightarrow> int \<Rightarrow> int \<Rightarrow> bridge \<Rightarrow> bridge" where
  "tick_connect env t_check t_stamp now b =
     (if connected b \<and> \<not> hello_timed_out t_check b then b
      else
        let b = (if connected b then close_socket (mark_busy (current_port b) t_stamp b) else b) in
        if now < relay_down_until b then b
        else if now - last_connect_attempt b < RECONNECT_INTERVAL then b
        else sweep env now [0..<BRIDGE_PORT_COUNT]
               (b\<lparr>last_connect_attempt := now, have_spawnable_port := False\<rparr>))"

section \<open>Sending\<close>

datatype send_answer = Sent nat | SendError wsa_error

definition bump_send_ok :: "bridge \<Rightarrow> bridge" where
  "bump_send_ok b = b\<lparr>counters := (counters b)\<lparr>send_ok := send_ok (counters b) + 1\<rparr>\<rparr>"

definition bump_send_fail :: "bridge \<Rightarrow> bridge" where
  "bump_send_fail b = b\<lparr>counters := (counters b)\<lparr>send_fail := send_fail (counters b) + 1\<rparr>\<rparr>"

text \<open>The return value, \<^verbatim>\<open>dropped\<close>, and the object afterwards.\<close>

definition send_line_inner :: "send_answer \<Rightarrow> string \<Rightarrow> bridge \<Rightarrow> bool \<times> bool \<times> bridge" where
  "send_line_inner ans line b =
     (if \<not> connected b then (False, False, b)
      else
        let with_newline = line @ [chr_newline] in
        case ans of
          SendError err \<Rightarrow>
            if err = WSAEWOULDBLOCK then (True, True, b)
            else (False, False, close_socket (bump_send_fail b))
        | Sent n \<Rightarrow>
            if n < length with_newline then (False, False, close_socket (bump_send_fail b))
            else (True, False, bump_send_ok b))"

definition send_line :: "send_answer \<Rightarrow> string \<Rightarrow> bridge \<Rightarrow> bool \<times> bridge" where
  "send_line ans line b = (case send_line_inner ans line b of (ok, _, b') \<Rightarrow> (ok, b'))"

definition send_edge_line :: "send_answer \<Rightarrow> string \<Rightarrow> bridge \<Rightarrow> bool \<times> bridge" where
  "send_edge_line ans line b =
     (case send_line_inner ans line b of (ok, dropped, b') \<Rightarrow> (ok \<and> \<not> dropped, b'))"

section \<open>Receiving\<close>

text \<open>
  One \<^verbatim>\<open>recv\<close>: bytes, an orderly close, or an error. A list of answers that runs out stands for
  WSAEWOULDBLOCK: no more data now.
\<close>

datatype recv_answer = Received string | RecvClosed | RecvError wsa_error

fun recv_loop :: "recv_answer list \<Rightarrow> nat \<Rightarrow> bridge \<Rightarrow> bridge" where
  "recv_loop [] got b = b"
| "recv_loop (r # rs) got b =
     (if got \<ge> MAX_RECV_PER_POLL then b
      else case r of
        Received bs \<Rightarrow>
          if bs = [] then close_socket b
          else recv_loop rs (got + length bs) (b\<lparr>recv_buffer := recv_buffer b @ bs\<rparr>)
      | RecvClosed \<Rightarrow> close_socket b
      | RecvError err \<Rightarrow> if err = WSAEWOULDBLOCK then b else close_socket b)"

definition strip_cr :: "string \<Rightarrow> string" where
  "strip_cr line = (if line \<noteq> [] \<and> last line = chr_return then butlast line else line)"

definition looks_malformed :: "string \<Rightarrow> bool" where
  "looks_malformed line \<longleftrightarrow> hd line \<noteq> CHR ''{'' \<or> last line \<noteq> CHR ''}''"

definition count_line :: "string \<Rightarrow> bridge \<Rightarrow> bridge" where
  "count_line line b = b\<lparr>counters := (counters b)\<lparr>
     lines_received := lines_received (counters b) + 1,
     lines_malformed := lines_malformed (counters b) + (if looks_malformed line then 1 else 0)\<rparr>\<rparr>"

definition contains_text :: "string \<Rightarrow> string \<Rightarrow> bool" where
  "contains_text line word \<longleftrightarrow> str_find line word 0 \<noteq> None"

definition reject_code :: "string \<Rightarrow> string" where
  "reject_code line = json_top_level_string line ''code''"

text \<open>\<^verbatim>\<open>walk_on\<close>: this core has an adapter, so the sweep should try another port.\<close>

definition walk_on :: "string \<Rightarrow> bool" where
  "walk_on line =
     (if reject_code line = [] then \<not> contains_text line ''relay''
      else reject_code line = ''busy'' \<or> reject_code line = ''already_serving'')"

definition answers_busy :: "string \<Rightarrow> bool" where
  "answers_busy line =
     (if reject_code line = [] then contains_text line ''busy'' else reject_code line = ''busy'')"

definition handle_reject :: "u16 \<Rightarrow> int \<Rightarrow> string \<Rightarrow> bridge \<Rightarrow> bridge" where
  "handle_reject source_port now line b =
     (if \<not> walk_on line
      then (close_socket (b\<lparr>relay_down_until := now + RELAY_DOWN_BACKOFF\<rparr>))\<lparr>recv_buffer := []\<rparr>
      else
        let b = mark_busy source_port now b;
            b = (if answers_busy line then b\<lparr>last_busy_port := source_port\<rparr> else b)
        in (close_socket b)\<lparr>recv_buffer := []\<rparr>)"

datatype line_result = Consumed bridge | Delivered string bridge | Rejected bridge

definition handle_line :: "u16 \<Rightarrow> int \<Rightarrow> string \<Rightarrow> bridge \<Rightarrow> line_result" where
  "handle_line source_port now raw b =
     (let line = strip_cr raw in
      if line = [] then Consumed b
      else
        let b = count_line line b; msg_type = json_top_level_string line ''type'' in
        if msg_type = ''bridge_ready'' then Consumed (b\<lparr>core_answered_ready := True\<rparr>)
        else if msg_type = ''reject'' then Rejected (handle_reject source_port now line b)
        else Delivered line b)"

text \<open>
  The extraction loop. \<open>buf\<close> is \<^verbatim>\<open>recv_buffer\<close>, which the loop does not change until it ends; the
  result is the lines, the object, and the \<^verbatim>\<open>start\<close> reached, or \<open>None\<close> after a rejection, which
  returns from the method.
\<close>

function parse_loop :: "u16 \<Rightarrow> int \<Rightarrow> string \<Rightarrow> nat \<Rightarrow> string list \<Rightarrow> bridge \<Rightarrow> string list \<times> bridge \<times> nat option" where
  "parse_loop sp now buf start lines b =
     (case str_find buf [chr_newline] start of
        None \<Rightarrow> (lines, b, Some start)
      | Some p \<Rightarrow>
          (case handle_line sp now (str_substr buf start (p - start)) b of
             Consumed b' \<Rightarrow> parse_loop sp now buf (p + 1) lines b'
           | Delivered line b' \<Rightarrow> parse_loop sp now buf (p + 1) (lines @ [line]) b'
           | Rejected b' \<Rightarrow> (lines, b', None)))"
  by pat_completeness auto
termination
  by (relation "measure (\<lambda>(sp, now, buf, start, lines, b). length buf - start)")
     (auto dest!: str_find_char)

declare parse_loop.simps [simp del]

definition poll_lines :: "recv_answer list \<Rightarrow> int \<Rightarrow> bridge \<Rightarrow> string list \<times> bridge" where
  "poll_lines rs now b =
     (if \<not> connected b then ([], b)
      else
        let sp = current_port b; b = recv_loop rs 0 b in
        case parse_loop sp now (recv_buffer b) 0 [] b of
          (lines, b', None) \<Rightarrow> (lines, b')
        | (lines, b', Some start) \<Rightarrow>
            let b' = b'\<lparr>recv_buffer := drop start (recv_buffer b')\<rparr> in
            (lines, if length (recv_buffer b') > MAX_RECV_BUFFER_BYTES then close_socket b' else b'))"

end
