(* ===== verification/Bridge_Framing.thy ===== *)
theory Bridge_Framing
  imports Bridge
begin

text \<open>
  Line framing of the bridge: what \<^verbatim>\<open>BridgeClient::poll_lines\<close> extracts from the byte stream. A
  structural reference splits a byte string at its newlines; the index-based loop of the code is
  shown equal to it, and the lines delivered do not depend on how the stream was cut into
  \<^verbatim>\<open>recv\<close> results or polls.
\<close>

section \<open>Reference framing\<close>

text \<open>The complete lines of a byte string, and the unfinished rest.\<close>

fun frames :: "string \<Rightarrow> string list \<times> string" where
  "frames [] = ([], [])"
| "frames (c # s) =
     (case frames s of
        (ls, r) \<Rightarrow>
          if c = chr_newline then ([] # ls, r)
          else (case ls of [] \<Rightarrow> ([], c # r) | l # ls' \<Rightarrow> ((c # l) # ls', r)))"

lemma frames_no_newline: "chr_newline \<notin> set s \<Longrightarrow> frames s = ([], s)"
  by (induction s) auto

lemma frames_line:
  "chr_newline \<notin> set l \<Longrightarrow> frames (l @ chr_newline # t) = (l # fst (frames t), snd (frames t))"
  by (induction l) (auto split: prod.splits)

text \<open>Every byte is accounted for: the lines, each with its newline, and the rest.\<close>

lemma frames_concat: "concat (map (\<lambda>l. l @ [chr_newline]) (fst (frames s))) @ snd (frames s) = s"
  by (induction s) (auto split: prod.splits list.splits)

lemma frames_clean: "chr_newline \<notin> set (snd (frames s)) \<and> (\<forall>l \<in> set (fst (frames s)). chr_newline \<notin> set l)"
  by (induction s) (auto split: prod.splits list.splits)

lemma frames_lines: 
  "\<forall>l \<in> set ls. chr_newline \<notin> set l \<Longrightarrow> chr_newline \<notin> set r \<Longrightarrow>
   frames (concat (map (\<lambda>l. l @ [chr_newline]) ls) @ r) = (ls, r)"
  by (induction ls) (auto simp: frames_no_newline frames_line)

text \<open>Framing in two pieces: the rest of the first piece is put before the second.\<close>

lemma frames_append:
  "frames (s @ t) = (fst (frames s) @ fst (frames (snd (frames s) @ t)), snd (frames (snd (frames s) @ t)))"
  by (induction s) (auto split: prod.splits list.splits simp: Cons_eq_append_conv)

lemma length_snd_frames: "length (snd (frames s)) \<le> length s"
  by (induction s) (auto split: prod.splits list.splits)

section \<open>The extraction loop\<close>

fun feed :: "u16 \<Rightarrow> int \<Rightarrow> string list \<Rightarrow> string list \<Rightarrow> bridge \<Rightarrow> string list \<times> bridge \<times> bool" where
  "feed sp now [] lines b = (lines, b, False)"
| "feed sp now (raw # raws) lines b =
     (case handle_line sp now raw b of
        Consumed b' \<Rightarrow> feed sp now raws lines b'
      | Delivered line b' \<Rightarrow> feed sp now raws (lines @ [line]) b'
      | Rejected b' \<Rightarrow> (lines, b', True))"

lemma str_find_newline_frames:
  assumes "str_find buf [chr_newline] start = Some p"
  shows "frames (drop start buf) =
           (str_substr buf start (p - start) # fst (frames (drop (p + 1) buf)), snd (frames (drop (p + 1) buf)))"
proof -
  have p: "start \<le> p" "p < length buf" "buf ! p = chr_newline"
    using str_find_char [OF assms] by auto
  let ?l = "take (p - start) (drop start buf)"
  have "drop start buf = ?l @ drop p buf"
    using p(1) by (metis append_take_drop_id drop_drop le_add_diff_inverse2)
  also have "drop p buf = chr_newline # drop (p + 1) buf"
    using p by (simp add: nth_drop_0)
  finally have split: "drop start buf = ?l @ chr_newline # drop (p + 1) buf" .
  have "chr_newline \<notin> set ?l"
  proof
    assume "chr_newline \<in> set ?l"
    then obtain i where i: "i < length ?l" "?l ! i = chr_newline" by (metis in_set_conv_nth)
    then have "take 1 (drop (start + i) buf) = [chr_newline]"
      using p by (simp add: take_Suc hd_drop_conv_nth)
    moreover have "start + i < p" using i p by simp
    ultimately show False using str_find_first [OF assms, of "start + i"] by simp
  qed
  with split show ?thesis by (metis frames_line str_substr_def)
qed

lemma str_find_no_newline_frames:
  assumes "str_find buf [chr_newline] start = None"
  shows "frames (drop start buf) = ([], drop start buf)"
proof (cases "start \<le> length buf")
  case True
  have "chr_newline \<notin> set (drop start buf)"
  proof
    assume "chr_newline \<in> set (drop start buf)"
    then obtain i where i: "i < length (drop start buf)" "drop start buf ! i = chr_newline"
      by (metis in_set_conv_nth)
    then have "prefix [chr_newline] (drop i (drop start buf))"
      by (metis Cons_prefix_Cons Nil_prefix nth_drop_0)
    moreover have "find_from [chr_newline] start (drop start buf) = None"
      using assms True by (simp add: str_find_def)
    ultimately show False using i(1) by (auto simp: find_from_None)
  qed
  then show ?thesis by (rule frames_no_newline)
qed simp

lemma parse_loop_feed:
  "parse_loop sp now buf start lines b =
     (case feed sp now (fst (frames (drop start buf))) lines b of
        (ls, b', rejected) \<Rightarrow>
          (ls, b', if rejected then None
                   else if fst (frames (drop start buf)) = [] then Some start
                   else Some (length buf - length (snd (frames (drop start buf))))))"
proof (induction sp now buf start lines b rule: parse_loop.induct)
  case (1 sp now buf start lines b)
  show ?case
  proof (cases "str_find buf [chr_newline] start")
    case None
    then show ?thesis
      by (simp add: parse_loop.simps [of sp now buf start] str_find_no_newline_frames)
  next
    case (Some p)
    have fr: "fst (frames (drop start buf)) = str_substr buf start (p - start) # fst (frames (drop (p + 1) buf))"
      "snd (frames (drop start buf)) = snd (frames (drop (p + 1) buf))"
      using str_find_newline_frames [OF Some] by simp_all
    have p: "p < length buf" using str_find_char [OF Some] by simp
    have last: "length buf - length (snd (frames (drop (p + 1) buf))) = p + 1"
      if "fst (frames (drop (p + 1) buf)) = []"
      using frames_concat [of "drop (p + 1) buf"] that p by simp
    show ?thesis
      using 1 [OF Some] Some fr last
      by (auto simp: parse_loop.simps [of sp now buf start] split: line_result.splits prod.splits)
  qed
qed

section \<open>What a poll delivers\<close>

definition line_type :: "string \<Rightarrow> string" where
  "line_type raw = json_top_level_string (strip_cr raw) ''type''"

definition is_reject :: "string \<Rightarrow> bool" where
  "is_reject raw \<longleftrightarrow> strip_cr raw \<noteq> [] \<and> line_type raw = ''reject''"

definition is_bridge_ready :: "string \<Rightarrow> bool" where
  "is_bridge_ready raw \<longleftrightarrow> strip_cr raw \<noteq> [] \<and> line_type raw = ''bridge_ready''"

text \<open>The lines before the first rejection, without the empty ones and the acceptances.\<close>

definition delivered :: "string list \<Rightarrow> string list" where
  "delivered raws =
     map strip_cr (filter (\<lambda>r. strip_cr r \<noteq> [] \<and> \<not> is_bridge_ready r) (takeWhile (\<lambda>r. \<not> is_reject r) raws))"

lemma handle_line_cases:
  "handle_line sp now raw b =
     (if strip_cr raw = [] then Consumed b
      else if is_bridge_ready raw then Consumed ((count_line (strip_cr raw) b)\<lparr>core_answered_ready := True\<rparr>)
      else if is_reject raw then Rejected (handle_reject sp now (strip_cr raw) (count_line (strip_cr raw) b))
      else Delivered (strip_cr raw) (count_line (strip_cr raw) b))"
  by (auto simp: handle_line_def is_bridge_ready_def is_reject_def line_type_def Let_def)

lemma feed_lines: "fst (feed sp now raws lines b) = lines @ delivered raws"
proof (induction raws arbitrary: lines b)
  case (Cons raw raws)
  have [simp]: "\<not> is_reject raw" if "strip_cr raw = [] \<or> is_bridge_ready raw"
    using that by (auto simp: is_reject_def is_bridge_ready_def)
  show ?case using Cons by (auto simp: handle_line_cases delivered_def)
qed (simp add: delivered_def)

lemma feed_rejected: "snd (snd (feed sp now raws lines b)) \<longleftrightarrow> (\<exists>r \<in> set raws. is_reject r)"
proof (induction raws arbitrary: lines b)
  case (Cons raw raws)
  have [simp]: "\<not> is_reject raw" if "strip_cr raw = [] \<or> is_bridge_ready raw"
    using that by (auto simp: is_reject_def is_bridge_ready_def)
  show ?case using Cons by (auto simp: handle_line_cases)
qed simp

text \<open>Lines that are not rejections change only the counters and the acceptance flag.\<close>

lemma feed_state:
  assumes "\<forall>r \<in> set raws. \<not> is_reject r"
  shows "\<exists>st. fst (snd (feed sp now raws lines b)) =
           b\<lparr>counters := st, core_answered_ready := core_answered_ready b \<or> (\<exists>r \<in> set raws. is_bridge_ready r)\<rparr>"
  using assms
proof (induction raws arbitrary: lines b)
  case Nil
  show ?case by (intro exI [of _ "counters b"]) simp
next
  case (Cons raw raws)
  then have IH: "\<And>lines b. \<exists>st. fst (snd (feed sp now raws lines b)) =
      b\<lparr>counters := st, core_answered_ready := core_answered_ready b \<or> (\<exists>r \<in> set raws. is_bridge_ready r)\<rparr>"
    by simp
  consider "strip_cr raw = []" | "strip_cr raw \<noteq> []" "is_bridge_ready raw"
    | "strip_cr raw \<noteq> []" "\<not> is_bridge_ready raw" "\<not> is_reject raw"
    using Cons.prems by auto
  then show ?case
  proof cases
    case 1
    then show ?thesis using IH [of lines b] by (simp add: handle_line_cases is_bridge_ready_def)
  next
    case 2
    then show ?thesis
      using IH [of lines "(count_line (strip_cr raw) b)\<lparr>core_answered_ready := True\<rparr>"]
      by (auto simp: handle_line_cases count_line_def)
  next
    case 3
    then show ?thesis
      using IH [of "lines @ [strip_cr raw]" "count_line (strip_cr raw) b"]
      by (auto simp: handle_line_cases count_line_def)
  qed
qed

text \<open>The bytes one poll appends, and whether it keeps the connection.\<close>

fun recv_bytes :: "recv_answer list \<Rightarrow> nat \<Rightarrow> string" where
  "recv_bytes [] got = []"
| "recv_bytes (r # rs) got =
     (if got \<ge> MAX_RECV_PER_POLL then []
      else case r of Received bs \<Rightarrow> if bs = [] then [] else bs @ recv_bytes rs (got + length bs) | _ \<Rightarrow> [])"

fun recv_keeps :: "recv_answer list \<Rightarrow> nat \<Rightarrow> bool" where
  "recv_keeps [] got = True"
| "recv_keeps (r # rs) got =
     (if got \<ge> MAX_RECV_PER_POLL then True
      else case r of Received bs \<Rightarrow> bs \<noteq> [] \<and> recv_keeps rs (got + length bs)
                   | RecvClosed \<Rightarrow> False | RecvError err \<Rightarrow> err = WSAEWOULDBLOCK)"

lemma recv_loop_eq:
  "recv_loop rs got b =
     (let b' = b\<lparr>recv_buffer := recv_buffer b @ recv_bytes rs got\<rparr> in
      if recv_keeps rs got then b' else close_socket b')"
  by (induction rs got b rule: recv_loop.induct)
     (auto simp: close_socket_def Let_def split: recv_answer.splits)

lemma recv_bytes_chunks:
  "[] \<notin> set cs \<Longrightarrow> got + length (concat cs) \<le> MAX_RECV_PER_POLL \<Longrightarrow>
   recv_bytes (map Received cs) got = concat cs \<and> recv_keeps (map Received cs) got"
proof (induction cs arbitrary: got)
  case (Cons c cs)
  then have c: "c \<noteq> []" "[] \<notin> set cs" and l: "(got + length c) + length (concat cs) \<le> MAX_RECV_PER_POLL"
    by auto
  have "length c > 0" using c by simp
  then have "got < MAX_RECV_PER_POLL" using l by linarith
  then show ?case using Cons.IH [OF c(2) l] c by simp
qed simp

abbreviation poll_buffer :: "recv_answer list \<Rightarrow> bridge \<Rightarrow> string" where
  "poll_buffer rs b \<equiv> recv_buffer b @ recv_bytes rs 0"

lemma poll_lines_eq:
  assumes "connected b"
  shows "poll_lines rs now b =
    (case feed (current_port b) now (fst (frames (poll_buffer rs b))) [] (recv_loop rs 0 b) of
       (lines, b', True) \<Rightarrow> (lines, b')
     | (lines, b', False) \<Rightarrow>
         let b' = b'\<lparr>recv_buffer := snd (frames (poll_buffer rs b))\<rparr> in
         (lines, if length (recv_buffer b') > MAX_RECV_BUFFER_BYTES then close_socket b' else b'))"
proof -
  let ?buf = "poll_buffer rs b" and ?b = "recv_loop rs 0 b"
  have buf: "recv_buffer ?b = ?buf" by (simp add: recv_loop_eq close_socket_def Let_def)
  have rest: "drop (length ?buf - length (snd (frames ?buf))) ?buf = snd (frames ?buf)"
  proof -
    have *: "concat (map (\<lambda>l. l @ [chr_newline]) (fst (frames ?buf))) @ snd (frames ?buf) = ?buf"
      by (rule frames_concat)
    have "drop (length (concat (map (\<lambda>l. l @ [chr_newline]) (fst (frames ?buf))))) ?buf = snd (frames ?buf)"
      by (subst * [symmetric]) (simp only: append_eq_conv_conj [THEN iffD1] append_Nil drop_append drop_all diff_self_eq_0 drop0 order_refl)
    moreover have "length (concat (map (\<lambda>l. l @ [chr_newline]) (fst (frames ?buf)))) = length ?buf - length (snd (frames ?buf))"
      using arg_cong [OF *, of length] by (simp only: length_append) 
    ultimately show ?thesis by simp
  qed
  have none: "snd (frames ?buf) = ?buf" if "fst (frames ?buf) = []"
    using frames_concat [of ?buf] that by simp
  have keep: "recv_buffer (fst (snd (feed sp now raws lines b0))) = recv_buffer b0"
    if "\<not> snd (snd (feed sp now raws lines b0))" for sp raws lines b0
  proof -
    have "\<forall>r \<in> set raws. \<not> is_reject r" using that by (simp add: feed_rejected)
    from feed_state [OF this, of sp now lines b0] show ?thesis by auto
  qed
  obtain ls b' rej where f: "feed (current_port b) now (fst (frames ?buf)) [] ?b = (ls, b', rej)"
    by (metis prod_cases3)
  show ?thesis
  proof (cases rej)
    case True
    then show ?thesis using f assms by (simp add: poll_lines_def buf parse_loop_feed Let_def)
  next
    case False
    with f keep [of "current_port b" "fst (frames ?buf)" "[]" ?b] have "recv_buffer b' = ?buf" by (simp add: buf)
    then show ?thesis
      using f assms False rest none
      by (auto simp: poll_lines_def buf parse_loop_feed Let_def)
  qed
qed

lemma poll_lines_lines: 
  assumes "connected b"
  shows "fst (poll_lines rs now b) = delivered (fst (frames (poll_buffer rs b)))"
  using feed_lines [of "current_port b" now "fst (frames (poll_buffer rs b))" "[]" "recv_loop rs 0 b"]
  by (auto simp: poll_lines_eq [OF assms] Let_def split: prod.splits bool.splits)

text \<open>A poll that reads no rejection and no end of stream keeps the connection.\<close>

lemma poll_lines_quiet:
  assumes "connected b" and "\<forall>r \<in> set (fst (frames (poll_buffer rs b))). \<not> is_reject r"
    and "recv_keeps rs 0" and "length (snd (frames (poll_buffer rs b))) \<le> MAX_RECV_BUFFER_BYTES"
  obtains st where "snd (poll_lines rs now b) =
    b\<lparr>recv_buffer := snd (frames (poll_buffer rs b)), counters := st,
      core_answered_ready := core_answered_ready b \<or> (\<exists>r \<in> set (fst (frames (poll_buffer rs b))). is_bridge_ready r)\<rparr>"
proof -
  let ?raws = "fst (frames (poll_buffer rs b))"
  obtain ls b' rej where f: "feed (current_port b) now ?raws [] (recv_loop rs 0 b) = (ls, b', rej)"
    by (metis prod_cases3)
  have "\<not> rej" using feed_rejected [of "current_port b" now ?raws "[]" "recv_loop rs 0 b"] f assms(2) by simp
  moreover obtain st where "b' = (recv_loop rs 0 b)\<lparr>counters := st,
      core_answered_ready := core_answered_ready (recv_loop rs 0 b) \<or> (\<exists>r \<in> set ?raws. is_bridge_ready r)\<rparr>"
    using feed_state [OF assms(2), of "current_port b" now "[]" "recv_loop rs 0 b"] f by auto
  ultimately show ?thesis
    using that [of st] f assms(3,4) by (simp add: poll_lines_eq [OF assms(1)] recv_loop_eq Let_def)
qed

section \<open>Independence of the cutting\<close>

lemma frames_rest_bound:
  assumes "\<forall>l \<in> set (fst (frames (s @ t))). length l \<le> n" and "length (snd (frames (s @ t))) \<le> n"
  shows "length (snd (frames s)) \<le> n"
proof -
  let ?r = "snd (frames s)"
  have clean: "chr_newline \<notin> set ?r" by (simp add: frames_clean)
  show ?thesis
  proof (cases "chr_newline \<in> set t")
    case True
    then obtain u v where t: "t = u @ chr_newline # v" and u: "chr_newline \<notin> set u"
      by (metis split_list_first)
    have "?r @ u \<in> set (fst (frames (s @ t)))"
      using frames_line [of "?r @ u" v] clean u
      by (simp add: t frames_append [of s "u @ chr_newline # v"])
    with assms(1) show ?thesis by fastforce
  next
    case False
    then have "snd (frames (s @ t)) = ?r @ t"
      using clean by (simp add: frames_append [of s t] frames_no_newline)
    with assms(2) show ?thesis by simp
  qed
qed

text \<open>Polls one after the other, each with the chunks its \<^verbatim>\<open>recv\<close> calls returned and the time.\<close>

fun poll_seq :: "(string list \<times> int) list \<Rightarrow> bridge \<Rightarrow> string list \<times> bridge" where
  "poll_seq [] b = ([], b)"
| "poll_seq ((cs, now) # ps) b =
     (case poll_lines (map Received cs) now b of
        (ls, b') \<Rightarrow> (case poll_seq ps b' of (ls', b'') \<Rightarrow> (ls @ ls', b'')))"

definition stream_of :: "(string list \<times> int) list \<Rightarrow> string" where
  "stream_of ps = concat (map (concat \<circ> fst) ps)"

definition chunks_ok :: "(string list \<times> int) list \<Rightarrow> bool" where
  "chunks_ok ps \<longleftrightarrow> (\<forall>(cs, now) \<in> set ps. [] \<notin> set cs \<and> length (concat cs) \<le> MAX_RECV_PER_POLL)"

lemma delivered_append:
  "\<forall>r \<in> set xs. \<not> is_reject r \<Longrightarrow> delivered (xs @ ys) = delivered xs @ delivered ys"
  by (simp add: delivered_def takeWhile_eq_all_conv [THEN iffD2])

lemma poll_seq_lines:
  assumes "connected b" and "chr_newline \<notin> set (recv_buffer b)" and "chunks_ok ps"
    and "\<forall>r \<in> set (fst (frames (recv_buffer b @ stream_of ps))). \<not> is_reject r \<and> length r \<le> MAX_RECV_BUFFER_BYTES"
    and "length (snd (frames (recv_buffer b @ stream_of ps))) \<le> MAX_RECV_BUFFER_BYTES"
  shows "fst (poll_seq ps b) = delivered (fst (frames (recv_buffer b @ stream_of ps))) \<and> connected (snd (poll_seq ps b))"
  using assms
proof (induction ps arbitrary: b)
  case Nil
  then show ?case by (simp add: stream_of_def frames_no_newline delivered_def)
next
  case (Cons p ps)
  obtain cs now where p: "p = (cs, now)" by (cases p)
  let ?t = "stream_of ps" and ?buf = "recv_buffer b @ concat cs"
  have cs: "[] \<notin> set cs" "length (concat cs) \<le> MAX_RECV_PER_POLL" and ps: "chunks_ok ps"
    using Cons.prems(3) by (auto simp: chunks_ok_def p)
  have st: "recv_buffer b @ stream_of (p # ps) = ?buf @ ?t" by (simp add: stream_of_def p)
  have rb: "recv_bytes (map Received cs) 0 = concat cs" "recv_keeps (map Received cs) 0"
    using recv_bytes_chunks [OF cs(1), of 0] cs(2) by simp_all
  have all: "fst (frames (?buf @ ?t)) = fst (frames ?buf) @ fst (frames (snd (frames ?buf) @ ?t))"
    "snd (frames (?buf @ ?t)) = snd (frames (snd (frames ?buf) @ ?t))"
    by (simp_all only: frames_append [of ?buf ?t] fst_conv snd_conv)
  note prems = Cons.prems(4,5) [unfolded st]
  have rest: "length (snd (frames ?buf)) \<le> MAX_RECV_BUFFER_BYTES"
    using frames_rest_bound [of ?buf ?t] prems by blast
  have quiet: "\<forall>r \<in> set (fst (frames ?buf)). \<not> is_reject r"
    using prems(1) unfolding all by (simp only: set_append Un_iff) blast
  obtain ls b' where poll: "poll_lines (map Received cs) now b = (ls, b')" by fastforce
  obtain stats where "snd (poll_lines (map Received cs) now b) =
    b\<lparr>recv_buffer := snd (frames ?buf), counters := stats,
      core_answered_ready := core_answered_ready b \<or> (\<exists>r \<in> set (fst (frames ?buf)). is_bridge_ready r)\<rparr>"
    using poll_lines_quiet [OF Cons.prems(1), of "map Received cs" now] quiet rest rb(2) unfolding rb(1) by blast
  then have b': "connected b'" "recv_buffer b' = snd (frames ?buf)"
    using poll Cons.prems(1) by simp_all
  have ls: "ls = delivered (fst (frames ?buf))"
    using poll_lines_lines [OF Cons.prems(1), of "map Received cs" now] poll rb by simp
  have "fst (poll_seq ps b') = delivered (fst (frames (recv_buffer b' @ ?t))) \<and> connected (snd (poll_seq ps b'))"
    by (rule Cons.IH [OF b'(1) _ ps]) (use prems in \<open>unfold all b'(2), simp_all add: frames_clean\<close>)
  moreover have "poll_seq (p # ps) b = (ls @ fst (poll_seq ps b'), snd (poll_seq ps b'))"
    using poll by (simp add: p split: prod.splits)
  ultimately show ?case
    unfolding st all by (simp add: ls delivered_append [OF quiet] b'(2))
qed

text \<open>
  Property C22. Framing does not depend on the transport. However the byte stream of one connection
  is cut into \<^verbatim>\<open>recv\<close> results and spread over polls, the lines handed to the mod are exactly the
  non-empty lines of the stream (a trailing carriage return removed, the core's acceptance lines
  consumed) and the connection stays up, as long as the core sends no rejection and no line above
  the 16 KiB bound.
\<close>

theorem poll_seq_cutting:
  assumes "connected b" and "recv_buffer b = []" and "chunks_ok ps"
    and "\<forall>r \<in> set (fst (frames (stream_of ps))). \<not> is_reject r \<and> length r \<le> MAX_RECV_BUFFER_BYTES"
    and "length (snd (frames (stream_of ps))) \<le> MAX_RECV_BUFFER_BYTES"
  shows "fst (poll_seq ps b) = delivered (fst (frames (stream_of ps))) \<and> connected (snd (poll_seq ps b))"
  using poll_seq_lines [of b ps] assms by simp

definition sample_polls :: "(string list \<times> int) list" where
  "sample_polls = [([[CHR ''{'', chr_quote, CHR ''a''], [chr_quote, CHR '':'']], 5), ([[CHR ''1'', CHR ''}'', chr_return, chr_newline, CHR ''{'']], 6)]"

definition open_bridge :: bridge where
  "open_bridge = (new_bridge 7778)\<lparr>sock := Some 3, connected := True, current_port := 7778\<rparr>"

theorem poll_seq_cutting_witness:
  "fst (poll_seq sample_polls open_bridge) = [[CHR ''{'', chr_quote, CHR ''a'', chr_quote, CHR '':'', CHR ''1'', CHR ''}'']]"
proof -
  have fr: "frames (stream_of sample_polls) =
    ([[CHR ''{'', chr_quote, CHR ''a'', chr_quote, CHR '':'', CHR ''1'', CHR ''}'', chr_return]], [CHR ''{''])"
    by (simp add: sample_polls_def stream_of_def)
  have ok: "chunks_ok sample_polls"
    by (simp add: sample_polls_def chunks_ok_def bridge_consts)
  have "\<not> is_reject [CHR ''{'', chr_quote, CHR ''a'', chr_quote, CHR '':'', CHR ''1'', CHR ''}'', chr_return]"
    by code_simp
  then have "fst (poll_seq sample_polls open_bridge) = delivered (fst (frames (stream_of sample_polls)))"
    by (intro poll_seq_cutting [THEN conjunct1])
       (simp_all add: fr ok open_bridge_def new_bridge_def bridge_consts)
  also have "\<dots> = [[CHR ''{'', chr_quote, CHR ''a'', chr_quote, CHR '':'', CHR ''1'', CHR ''}'']]"
    unfolding fr by code_simp
  finally show ?thesis .
qed

end
