(* ===== verification/Bridge_Machine.thy ===== *)
theory Bridge_Machine
  imports Bridge_Framing
begin

text \<open>
  The bridge client as a state machine: the port sweep against a reference that picks the first
  eligible port that answers, the cool-down and back-off rules, and the states reachable from a
  fresh client under any sequence of method calls and any answers of the operating system.
\<close>

section \<open>The sweep\<close>

text \<open>The attempts that yield a socket, and the ports where nothing serves.\<close>

definition port_serves :: "port_answers \<Rightarrow> bool" where
  "port_serves a \<longleftrightarrow> pa_socket a \<noteq> None \<and>
     (pa_connect a = None \<or> pa_connect a = Some WSAEWOULDBLOCK \<and> pa_select a = SelectFired True None)"

definition port_refuses :: "port_answers \<Rightarrow> bool" where
  "port_refuses a \<longleftrightarrow> pa_socket a \<noteq> None \<and>
     (pa_connect a = Some WSAECONNREFUSED \<or>
      pa_connect a = Some WSAEWOULDBLOCK \<and>
      (\<exists>w. pa_select a = SelectFired w (Some WSAECONNREFUSED)))"

definition port_free :: "port_answers \<Rightarrow> bool" where
  "port_free a \<longleftrightarrow> \<not> port_serves a \<and> (port_refuses a \<or> port_is_bindable a)"

lemma try_port_eq:
  "try_port a b =
     (port_serves a, port_refuses a,
      if port_serves a then (bump_attempts b)\<lparr>sock := pa_socket a\<rparr> else bump_attempts b)"
  by (auto simp: try_port_def port_serves_def port_refuses_def Let_def
        split: option.splits select_answer.splits wsa_error.splits)

text \<open>
  Reference: among the eligible candidates, low to high, the first that serves is taken; the first
  free one before it is remembered as the place to start a core.
\<close>

definition eligible :: "bridge \<Rightarrow> int \<Rightarrow> nat list" where
  "eligible b now = filter (\<lambda>i. \<not> skips_port b now i) [0..<BRIDGE_PORT_COUNT]"

definition chosen_port :: "(u16 \<Rightarrow> port_answers) \<Rightarrow> bridge \<Rightarrow> int \<Rightarrow> u16 option" where
  "chosen_port env b now = find (\<lambda>p. port_serves (env p)) (map (candidate b) (eligible b now))"

definition free_port :: "(u16 \<Rightarrow> port_answers) \<Rightarrow> bridge \<Rightarrow> int \<Rightarrow> u16 option" where
  "free_port env b now =
     find (\<lambda>p. port_free (env p))
       (takeWhile (\<lambda>p. \<not> port_serves (env p)) (map (candidate b) (eligible b now)))"

lemma skips_port_frame [simp]:
  "skips_port (b\<lparr>counters := c\<rparr>) = skips_port b"
  "skips_port (b\<lparr>spawnable := p\<rparr>) = skips_port b"
  "skips_port (b\<lparr>have_spawnable_port := h\<rparr>) = skips_port b"
  "skips_port (b\<lparr>last_connect_attempt := t\<rparr>) = skips_port b"
  by (auto simp: fun_eq_iff skips_port_def candidate_def)

lemma candidate_frame [simp]:
  "candidate (b\<lparr>counters := c\<rparr>) = candidate b"
  "candidate (b\<lparr>spawnable := p\<rparr>) = candidate b"
  "candidate (b\<lparr>have_spawnable_port := h\<rparr>) = candidate b"
  "candidate (b\<lparr>last_connect_attempt := t\<rparr>) = candidate b"
  by (auto simp: fun_eq_iff candidate_def)

text \<open>One sweep over any list of indices.\<close>

definition swept :: "(u16 \<Rightarrow> port_answers) \<Rightarrow> u16 list \<Rightarrow> bridge \<Rightarrow> bridge \<Rightarrow> bool" where
  "swept env ps b b' \<longleftrightarrow>
     (case find (\<lambda>p. port_serves (env p)) ps of
        None \<Rightarrow> connected b' = connected b \<and> current_port b' = current_port b \<and> sock b' = sock b \<and>
                hello_sent_this_connection b' = hello_sent_this_connection b \<and>
                core_answered_ready b' = core_answered_ready b \<and> recv_buffer b' = recv_buffer b
      | Some p \<Rightarrow> connected b' \<and> current_port b' = p \<and> sock b' = pa_socket (env p) \<and>
                \<not> hello_sent_this_connection b' \<and> \<not> core_answered_ready b' \<and> recv_buffer b' = []) \<and>
     spawnable_port b' =
       (if have_spawnable_port b then spawnable_port b
        else find (\<lambda>p. port_free (env p)) (takeWhile (\<lambda>p. \<not> port_serves (env p)) ps)) \<and>
     base_port b' = base_port b \<and> busy_until b' = busy_until b \<and> relay_down_until b' = relay_down_until b \<and>
     last_busy_port b' = last_busy_port b \<and> own_core_port b' = own_core_port b \<and>
     last_connect_attempt b' = last_connect_attempt b \<and>
     connect_attempts (counters b') = connect_attempts (counters b) +
       of_nat (length (takeWhile (\<lambda>p. \<not> port_serves (env p)) ps)) +
       (if \<exists>p \<in> set ps. port_serves (env p) then 1 else 0)"

lemma sweep_swept:
  "swept env (map (candidate b) (filter (\<lambda>i. \<not> skips_port b now i) is)) b (sweep env now is b)"
proof (induction "is" arbitrary: b)
  case Nil
  show ?case by (simp add: swept_def spawnable_port_def)
next
  case (Cons i "is")
  let ?p = "candidate b i"
  consider "skips_port b now i" | "\<not> skips_port b now i" "port_serves (env ?p)"
    | "\<not> skips_port b now i" "\<not> port_serves (env ?p)" "\<not> have_spawnable_port b" "port_free (env ?p)"
    | "\<not> skips_port b now i" "\<not> port_serves (env ?p)" "have_spawnable_port b \<or> \<not> port_free (env ?p)"
    by blast
  then show ?case
  proof cases
    case 1
    then show ?thesis using Cons by simp
  next
    case 2
    then show ?thesis
      by (auto simp: swept_def try_port_eq note_connected_def bump_attempts_def spawnable_port_def Let_def)
  next
    case 3
    then have "sweep env now (i # is) b =
        sweep env now is ((bump_attempts b)\<lparr>spawnable := ?p, have_spawnable_port := True\<rparr>)"
      by (simp add: try_port_eq port_free_def bump_attempts_def Let_def)
    with Cons [of "(bump_attempts b)\<lparr>spawnable := ?p, have_spawnable_port := True\<rparr>"] 3 show ?thesis
      by (simp add: swept_def bump_attempts_def spawnable_port_def split: option.splits)
  next
    case 4
    then have "sweep env now (i # is) b = sweep env now is (bump_attempts b)"
      by (auto simp: try_port_eq port_free_def bump_attempts_def Let_def)
    with Cons [of "bump_attempts b"] 4 show ?thesis
      by (auto simp: swept_def bump_attempts_def spawnable_port_def split: option.splits)
  qed
qed

definition sweep_due :: "int \<Rightarrow> bridge \<Rightarrow> bool" where
  "sweep_due now b \<longleftrightarrow> relay_down_until b \<le> now \<and> RECONNECT_INTERVAL \<le> now - last_connect_attempt b"

definition give_up :: "int \<Rightarrow> bridge \<Rightarrow> bridge" where
  "give_up t b = close_socket (mark_busy (current_port b) t b)"

lemma tick_connect_cases:
  "tick_connect env t1 t2 now b =
     (let b' = (if connected b \<and> hello_timed_out t1 b then give_up t2 b else b) in
      if connected b' \<or> \<not> sweep_due now b' then b'
      else sweep env now [0..<BRIDGE_PORT_COUNT] (b'\<lparr>last_connect_attempt := now, have_spawnable_port := False\<rparr>))"
  by (auto simp: tick_connect_def sweep_due_def give_up_def Let_def close_socket_def)

lemma sweep_all:
  "swept env (map (candidate b) (eligible b now)) (b\<lparr>last_connect_attempt := now, have_spawnable_port := False\<rparr>)
     (sweep env now [0..<BRIDGE_PORT_COUNT] (b\<lparr>last_connect_attempt := now, have_spawnable_port := False\<rparr>))"
  using sweep_swept [of env "b\<lparr>last_connect_attempt := now, have_spawnable_port := False\<rparr>" now "[0..<BRIDGE_PORT_COUNT]"]
  by (simp add: eligible_def)

text \<open>
  Property C20. The sweep is the lowest-port-first search of the design. A disconnected client whose
  reconnect interval and back-off have passed ends up connected to the first candidate of the walk
  that is neither cooling down nor barred by a live own core and that accepts a connection, and to
  none when there is none; the port it offers for starting a core is the first free one met before.
\<close>

theorem tick_connect_first_eligible:
  assumes "\<not> connected b" and "sweep_due now b"
  shows "let b' = tick_connect env t1 t2 now b in
    (if connected b' then Some (current_port b') else None) = chosen_port env b now \<and>
    spawnable_port b' = free_port env b now \<and> last_connect_attempt b' = now \<and>
    (connected b' \<longrightarrow> \<not> is_ready b' \<and> recv_buffer b' = [])"
proof -
  let ?b = "b\<lparr>last_connect_attempt := now, have_spawnable_port := False\<rparr>"
  have "tick_connect env t1 t2 now b = sweep env now [0..<BRIDGE_PORT_COUNT] ?b"
    using assms by (simp add: tick_connect_cases)
  then show ?thesis
    using sweep_all [of env b now] assms(1)
    by (auto simp: swept_def chosen_port_def free_port_def is_ready_def split: option.splits)
qed

section \<open>Rejections\<close>

lemma port_index_candidate: "port_index b p = Some i \<Longrightarrow> i < BRIDGE_PORT_COUNT \<and> candidate b i = p"
proof -
  assume *: "port_index b p = Some i"
  then have i: "i = unat p - unat (base_port b)" "unat (base_port b) \<le> unat p" "i < BRIDGE_PORT_COUNT"
    by (auto simp: port_index_def split: if_splits)
  have "of_nat i = p - base_port b"
    using i(1,2) by (simp add: of_nat_diff)
  with i show ?thesis by (simp add: candidate_def)
qed

lemma candidate_inj:
  assumes "i < BRIDGE_PORT_COUNT" "j < BRIDGE_PORT_COUNT" "candidate b i = candidate b j"
  shows "i = j"
proof -
  have "(of_nat i :: u16) = of_nat j" using assms(3) by (simp add: candidate_def)
  then have "unat (of_nat i :: u16) = unat (of_nat j :: u16)" by simp
  then show ?thesis using assms(1,2) by (simp add: unat_of_nat BRIDGE_PORT_COUNT_def)
qed

text \<open>A port inside its cool-down is not chosen.\<close>

lemma cooling_not_chosen:
  assumes "port_index b p = Some i" and "now < busy_until b ! i"
  shows "p \<notin> set (map (candidate b) (eligible b now))"
proof
  assume "p \<in> set (map (candidate b) (eligible b now))"
  then obtain j where j: "j < BRIDGE_PORT_COUNT" "\<not> skips_port b now j" "candidate b j = p"
    by (auto simp: eligible_def)
  with port_index_candidate [OF assms(1)] candidate_inj [of i j b] have "i = j" by auto
  with j(2) assms(2) show False by (simp add: skips_port_def)
qed

lemma find_in: "find P xs = Some x \<Longrightarrow> x \<in> set xs \<and> P x"
  by (auto simp: find_Some_iff)

text \<open>The first rejection among the lines decides what the poll leaves behind.\<close>

definition first_reject :: "string list \<Rightarrow> string option" where
  "first_reject raws = find is_reject raws"

lemma feed_reject_state:
  assumes "find is_reject raws = Some r"
  shows "\<exists>st rdy. fst (snd (feed sp now raws lines b)) =
           handle_reject sp now (strip_cr r) (b\<lparr>counters := st, core_answered_ready := rdy\<rparr>)"
  using assms
proof (induction raws arbitrary: lines b)
  case (Cons raw raws)
  consider "is_reject raw" | "\<not> is_reject raw" "strip_cr raw = []"
    | "\<not> is_reject raw" "strip_cr raw \<noteq> []" "is_bridge_ready raw"
    | "\<not> is_reject raw" "strip_cr raw \<noteq> []" "\<not> is_bridge_ready raw"
    by blast
  then show ?case
  proof cases
    case 1
    then have "raw = r" "strip_cr raw \<noteq> []" "\<not> is_bridge_ready raw"
      using Cons.prems by (auto simp: is_reject_def is_bridge_ready_def)
    with 1 show ?thesis
      by (auto simp: handle_line_cases count_line_def intro!: exI [of _ "counters (count_line (strip_cr r) b)"]
            exI [of _ "core_answered_ready b"])
  next
    case 2
    with Cons.prems Cons.IH [of lines b] show ?thesis by (simp add: handle_line_cases)
  next
    case 3
    with Cons.prems Cons.IH [of lines "(count_line (strip_cr raw) b)\<lparr>core_answered_ready := True\<rparr>"]
    show ?thesis by (auto simp: handle_line_cases count_line_def)
  next
    case 4
    with Cons.prems Cons.IH [of "lines @ [strip_cr raw]" "count_line (strip_cr raw) b"]
    show ?thesis by (auto simp: handle_line_cases count_line_def)
  qed
qed simp

lemma poll_lines_reject:
  assumes "connected b" and "first_reject (fst (frames (poll_buffer rs b))) = Some r"
  obtains st rdy where "snd (poll_lines rs now b) = handle_reject (current_port b) now (strip_cr r)
    ((recv_loop rs 0 b)\<lparr>counters := st, core_answered_ready := rdy\<rparr>)"
proof -
  let ?raws = "fst (frames (poll_buffer rs b))"
  obtain ls b' rej where f: "feed (current_port b) now ?raws [] (recv_loop rs 0 b) = (ls, b', rej)"
    by (metis prod_cases3)
  have "rej" using feed_rejected [of "current_port b" now ?raws "[]" "recv_loop rs 0 b"] f assms(2)
    by (auto simp: first_reject_def dest: find_in)
  moreover obtain st rdy where "b' = handle_reject (current_port b) now (strip_cr r)
      ((recv_loop rs 0 b)\<lparr>counters := st, core_answered_ready := rdy\<rparr>)"
    using feed_reject_state [of ?raws r "current_port b" now "[]" "recv_loop rs 0 b"] f assms(2)
    by (auto simp: first_reject_def)
  ultimately show ?thesis
    using that [of rdy st] f by (simp add: poll_lines_eq [OF assms(1)])
qed

lemma handle_reject_closed:
  "\<not> connected (handle_reject sp now l b) \<and> recv_buffer (handle_reject sp now l b) = [] \<and>
   base_port (handle_reject sp now l b) = base_port b"
  by (simp add: handle_reject_def close_socket_def mark_busy_def Let_def split: option.splits)

section \<open>Reachable states\<close>

text \<open>
  One method call, with the clock before and after. The clock never runs back (it is steady); the
  answers of the operating system are arbitrary.
\<close>

inductive bridge_step :: "int \<times> bridge \<Rightarrow> int \<times> bridge \<Rightarrow> bool" where
  step_tick: "c \<le> t1 \<Longrightarrow> t1 \<le> t2 \<Longrightarrow> t2 \<le> t3 \<Longrightarrow> bridge_step (c, b) (t3, tick_connect env t1 t2 t3 b)"
| step_hello: "c \<le> t \<Longrightarrow> connected b \<Longrightarrow> bridge_step (c, b) (t, mark_hello_sent t b)"
| step_own: "bridge_step (c, b) (c, set_own_core_port p b)"
| step_send: "bridge_step (c, b) (c, snd (send_line ans l b))"
| step_edge: "bridge_step (c, b) (c, snd (send_edge_line ans l b))"
| step_poll: "c \<le> t \<Longrightarrow> bridge_step (c, b) (t, snd (poll_lines rs t b))"

definition bridge_inv :: "bridge \<Rightarrow> bool" where
  "bridge_inv b \<longleftrightarrow>
     (connected b \<longleftrightarrow> sock b \<noteq> None) \<and>
     (\<not> connected b \<longrightarrow> current_port b = 0 \<and> \<not> hello_sent_this_connection b) \<and>
     (connected b \<longrightarrow> (\<exists>i < BRIDGE_PORT_COUNT. current_port b = candidate b i)) \<and>
     (connected b \<longrightarrow> length (recv_buffer b) \<le> MAX_RECV_BUFFER_BYTES) \<and>
     (have_spawnable_port b \<longrightarrow> (\<exists>i < BRIDGE_PORT_COUNT. spawnable b = candidate b i)) \<and>
     length (busy_until b) = BRIDGE_PORT_COUNT"

lemma bridge_inv_new: "bridge_inv (new_bridge base)"
  by (simp add: bridge_inv_def new_bridge_def)

lemma bridge_inv_close: "bridge_inv b \<Longrightarrow> bridge_inv (close_socket b)"
  by (auto simp: bridge_inv_def close_socket_def candidate_def)

lemma bridge_inv_frame:
  assumes "bridge_inv b" and "\<not> connected b \<longrightarrow> \<not> h"
  shows "bridge_inv (b\<lparr>counters := st, core_answered_ready := rdy\<rparr>)"
    and "bridge_inv (b\<lparr>hello_sent_this_connection := h, hello_sent_at := t\<rparr>)"
    and "bridge_inv (b\<lparr>relay_down_until := t\<rparr>)" and "bridge_inv (b\<lparr>last_busy_port := p\<rparr>)"
    and "bridge_inv (b\<lparr>own_core_port := p\<rparr>)" and "bridge_inv (b\<lparr>counters := st\<rparr>)"
  using assms by (auto simp: bridge_inv_def candidate_def)

lemma bridge_inv_mark_busy: "bridge_inv b \<Longrightarrow> bridge_inv (mark_busy p t b)"
  by (auto simp: bridge_inv_def mark_busy_def candidate_def split: option.splits)

lemma bridge_inv_recv_buffer:
  "bridge_inv b \<Longrightarrow> length s \<le> MAX_RECV_BUFFER_BYTES \<or> \<not> connected b \<Longrightarrow> bridge_inv (b\<lparr>recv_buffer := s\<rparr>)"
  by (auto simp: bridge_inv_def candidate_def)

lemma bridge_inv_sweep:
  assumes "bridge_inv b" and "\<not> connected b"
  shows "bridge_inv (sweep env now [0..<BRIDGE_PORT_COUNT] (b\<lparr>last_connect_attempt := now, have_spawnable_port := False\<rparr>))"
    (is "bridge_inv ?b'")
proof -
  let ?ps = "map (candidate b) (eligible b now)"
  note sw = sweep_all [of env b now, unfolded swept_def]
  have cand: "candidate ?b' = candidate b" using sw by (auto simp: candidate_def fun_eq_iff)
  have el: "\<exists>i < BRIDGE_PORT_COUNT. p = candidate b i" if "p \<in> set ?ps" for p
    using that by (auto simp: eligible_def)
  have sp: "\<exists>i < BRIDGE_PORT_COUNT. spawnable ?b' = candidate b i" if "have_spawnable_port ?b'"
  proof -
    from that sw have "find (\<lambda>p. port_free (env p)) (takeWhile (\<lambda>p. \<not> port_serves (env p)) ?ps) = Some (spawnable ?b')"
      by (simp add: spawnable_port_def)
    then show ?thesis using el by (metis find_in set_takeWhileD)
  qed
  show ?thesis
  proof (cases "find (\<lambda>p. port_serves (env p)) ?ps")
    case None
    with sw assms sp show ?thesis by (simp add: bridge_inv_def cand)
  next
    case (Some p)
    then have "\<exists>i < BRIDGE_PORT_COUNT. p = candidate b i" "port_serves (env p)"
      using el find_in by (metis, metis find_in)
    with sw assms sp Some show ?thesis by (auto simp: bridge_inv_def cand port_serves_def)
  qed
qed

lemma bridge_inv_tick: "bridge_inv b \<Longrightarrow> bridge_inv (tick_connect env t1 t2 t3 b)"
  by (auto simp: tick_connect_cases give_up_def Let_def
        intro: bridge_inv_sweep bridge_inv_close bridge_inv_mark_busy)

lemma bridge_inv_send:
  "bridge_inv b \<Longrightarrow> bridge_inv (snd (send_line ans l b)) \<and> bridge_inv (snd (send_edge_line ans l b))"
  by (auto simp: send_line_def send_edge_line_def send_line_inner_def bump_send_ok_def bump_send_fail_def Let_def
        split: send_answer.splits intro!: bridge_inv_close bridge_inv_frame(6))

lemma bridge_inv_reject: "bridge_inv b \<Longrightarrow> bridge_inv (handle_reject sp now l b)"
  by (auto simp: handle_reject_def Let_def close_socket_def
        intro!: bridge_inv_recv_buffer bridge_inv_close [unfolded close_socket_def] bridge_inv_frame bridge_inv_mark_busy)

lemma bridge_inv_poll:
  assumes "bridge_inv b"
  shows "bridge_inv (snd (poll_lines rs now b))"
proof (cases "connected b")
  case False
  with assms show ?thesis by (simp add: poll_lines_def)
next
  case True
  let ?raws = "fst (frames (poll_buffer rs b))"
  have loop: "bridge_inv ((recv_loop rs 0 b)\<lparr>counters := st, core_answered_ready := rdy, recv_buffer := s\<rparr>)"
    if "length s \<le> MAX_RECV_BUFFER_BYTES" for s st rdy
    using that assms by (auto simp: recv_loop_eq Let_def bridge_inv_def close_socket_def candidate_def)
  show ?thesis
  proof (cases "first_reject ?raws")
    case (Some r)
    obtain st rdy where "snd (poll_lines rs now b) = handle_reject (current_port b) now (strip_cr r)
        ((recv_loop rs 0 b)\<lparr>counters := st, core_answered_ready := rdy\<rparr>)"
      using poll_lines_reject [OF True Some] by metis
    also have "\<dots> = handle_reject (current_port b) now (strip_cr r)
        ((recv_loop rs 0 b)\<lparr>counters := st, core_answered_ready := rdy, recv_buffer := []\<rparr>)"
      by (simp add: handle_reject_def close_socket_def mark_busy_def port_index_def Let_def)
    finally show ?thesis by (simp add: bridge_inv_reject loop)
  next
    case None
    then have quiet: "\<forall>r \<in> set ?raws. \<not> is_reject r" by (auto simp: first_reject_def find_None_iff)
    obtain ls b' rej where f: "feed (current_port b) now ?raws [] (recv_loop rs 0 b) = (ls, b', rej)"
      by (metis prod_cases3)
    have rej: "\<not> rej" using feed_rejected [of "current_port b" now ?raws "[]" "recv_loop rs 0 b"] f quiet by simp
    obtain st rdy where b': "b' = (recv_loop rs 0 b)\<lparr>counters := st, core_answered_ready := rdy\<rparr>"
      using feed_state [OF quiet, of "current_port b" now "[]" "recv_loop rs 0 b"] f by auto
    let ?rest = "snd (frames (poll_buffer rs b))"
    show ?thesis
    proof (cases "length ?rest \<le> MAX_RECV_BUFFER_BYTES")
      case ok: True
      then show ?thesis using f rej b' loop [OF ok, of rdy st] by (simp add: poll_lines_eq [OF True] Let_def)
    next
      case False
      have "bridge_inv (close_socket (b'\<lparr>recv_buffer := ?rest\<rparr>))"
        using loop [of "[]" rdy st] by (auto simp: b' bridge_inv_def close_socket_def candidate_def)
      then show ?thesis using f rej False by (simp add: poll_lines_eq [OF True] Let_def)
    qed
  qed
qed

lemma bridge_step_inv: "bridge_step s s' \<Longrightarrow> bridge_inv (snd s) \<Longrightarrow> bridge_inv (snd s')"
  by (induction rule: bridge_step.induct)
     (auto simp: bridge_inv_tick bridge_inv_send bridge_inv_poll mark_hello_sent_def set_own_core_port_def
        intro: bridge_inv_frame)

lemma bridge_steps_inv: "bridge_step\<^sup>*\<^sup>* s s' \<Longrightarrow> bridge_inv (snd s) \<Longrightarrow> bridge_inv (snd s')"
  by (induction rule: rtranclp_induct) (auto intro: bridge_step_inv)

text \<open>
  Property C21. Well-formedness of every reachable client. Whatever is called in whatever order, and
  whatever the operating system answers: the client is connected exactly when it owns a socket;
  disconnected, it has no port and no hello outstanding; connected, its port is one of the eight
  candidates and the unfinished input it buffers is within 16 KiB; a port offered for spawning is
  a candidate; the eight cool-down stamps are there.
\<close>

theorem bridge_reachable_inv:
  "bridge_step\<^sup>*\<^sup>* (c0, new_bridge base) (c, b) \<Longrightarrow> bridge_inv b"
  using bridge_steps_inv [of "(c0, new_bridge base)" "(c, b)"] by (simp add: bridge_inv_new)

section \<open>Effect of a poll\<close>

lemma poll_lines_cases:
  assumes "connected b"
  obtains
    (reject) r st rdy where "first_reject (fst (frames (poll_buffer rs b))) = Some r"
      and "snd (poll_lines rs now b) = handle_reject (current_port b) now (strip_cr r)
             ((recv_loop rs 0 b)\<lparr>counters := st, core_answered_ready := rdy\<rparr>)"
  | (quiet) st b' where "first_reject (fst (frames (poll_buffer rs b))) = None"
      and "b' = (recv_loop rs 0 b)\<lparr>counters := st, core_answered_ready :=
               core_answered_ready (recv_loop rs 0 b) \<or> (\<exists>r \<in> set (fst (frames (poll_buffer rs b))). is_bridge_ready r),
               recv_buffer := snd (frames (poll_buffer rs b))\<rparr>"
      and "snd (poll_lines rs now b) = b' \<or> snd (poll_lines rs now b) = close_socket b'"
proof (cases "first_reject (fst (frames (poll_buffer rs b)))")
  case (Some r)
  then show ?thesis using poll_lines_reject [OF assms Some] reject by metis
next
  case None
  let ?raws = "fst (frames (poll_buffer rs b))"
  have quiet': "\<forall>r \<in> set ?raws. \<not> is_reject r" using None by (auto simp: first_reject_def find_None_iff)
  obtain ls b' rej where f: "feed (current_port b) now ?raws [] (recv_loop rs 0 b) = (ls, b', rej)"
    by (metis prod_cases3)
  have "\<not> rej" using feed_rejected [of "current_port b" now ?raws "[]" "recv_loop rs 0 b"] f quiet' by simp
  moreover obtain st where "b' = (recv_loop rs 0 b)\<lparr>counters := st, core_answered_ready :=
      core_answered_ready (recv_loop rs 0 b) \<or> (\<exists>r \<in> set ?raws. is_bridge_ready r)\<rparr>"
    using feed_state [OF quiet', of "current_port b" now "[]" "recv_loop rs 0 b"] f by auto
  ultimately show ?thesis
    by (intro quiet [OF None refl]) (use f in \<open>auto simp: poll_lines_eq [OF assms] Let_def\<close>)
qed

lemma poll_lines_effect:
  fixes b rs now
  defines "b' \<equiv> snd (poll_lines rs now b)"
  shows "base_port b' = base_port b" 
    and "connected b' \<Longrightarrow> connected b \<and> current_port b' = current_port b \<and>
           hello_sent_this_connection b' = hello_sent_this_connection b"
    and "connected b' \<Longrightarrow> core_answered_ready b' \<Longrightarrow> \<not> core_answered_ready b \<Longrightarrow>
           (\<exists>r \<in> set (fst (frames (poll_buffer rs b))). is_bridge_ready r)"
    and "busy_until b' = busy_until b \<or> busy_until b' = busy_until (mark_busy (current_port b) now b)"
proof -
  have "base_port b' = base_port b \<and>
     (connected b' \<longrightarrow> connected b \<and> current_port b' = current_port b \<and>
        hello_sent_this_connection b' = hello_sent_this_connection b) \<and>
     (connected b' \<and> core_answered_ready b' \<and> \<not> core_answered_ready b \<longrightarrow>
           (\<exists>r \<in> set (fst (frames (poll_buffer rs b))). is_bridge_ready r)) \<and>
     (busy_until b' = busy_until b \<or> busy_until b' = busy_until (mark_busy (current_port b) now b))"
  proof (cases "connected b")
    case False
    then show ?thesis by (simp add: b'_def poll_lines_def)
  next
    case True
    then show ?thesis
    proof (cases rule: poll_lines_cases [of b rs now])
      case (reject r st rdy)
      then show ?thesis
        by (auto simp: b'_def handle_reject_def close_socket_def recv_loop_eq mark_busy_def port_index_def Let_def)
    next
      case (quiet st b'')
      then show ?thesis using True by (auto simp: b'_def recv_loop_eq close_socket_def Let_def split: if_splits)
    qed
  qed
  then show "base_port b' = base_port b"
    and "connected b' \<Longrightarrow> connected b \<and> current_port b' = current_port b \<and>
           hello_sent_this_connection b' = hello_sent_this_connection b"
    and "connected b' \<Longrightarrow> core_answered_ready b' \<Longrightarrow> \<not> core_answered_ready b \<Longrightarrow>
           (\<exists>r \<in> set (fst (frames (poll_buffer rs b))). is_bridge_ready r)"
    and "busy_until b' = busy_until b \<or> busy_until b' = busy_until (mark_busy (current_port b) now b)"
    by auto
qed

lemma send_effect:
  "snd (send_line ans l b) = snd (send_edge_line ans l b)"
  "\<not> connected b \<Longrightarrow> snd (send_edge_line ans l b) = b"
  "\<exists>st. snd (send_edge_line ans l b) = b\<lparr>counters := st\<rparr> \<or> snd (send_edge_line ans l b) = close_socket (b\<lparr>counters := st\<rparr>)"
proof -
  show "snd (send_line ans l b) = snd (send_edge_line ans l b)"
    by (simp add: send_line_def send_edge_line_def split: prod.splits)
  show "snd (send_edge_line ans l b) = b" if "\<not> connected b"
    using that by (simp add: send_edge_line_def send_line_inner_def)
  have [simp]: "b\<lparr>counters := counters b\<rparr> = b" by simp
  show "\<exists>st. snd (send_edge_line ans l b) = b\<lparr>counters := st\<rparr> \<or> snd (send_edge_line ans l b) = close_socket (b\<lparr>counters := st\<rparr>)"
    by (auto simp: send_edge_line_def send_line_inner_def bump_send_ok_def bump_send_fail_def Let_def
          split: send_answer.splits intro: exI [of _ "counters b"])
qed

lemma bridge_stepE:
  assumes "bridge_step (c, b) (c', b')"
  obtains (tick) env t1 t2 where "c \<le> t1" "t1 \<le> t2" "t2 \<le> c'" "b' = tick_connect env t1 t2 c' b"
  | (hello) "c \<le> c'" "connected b" "b' = mark_hello_sent c' b"
  | (own) p where "c' = c" "b' = set_own_core_port p b"
  | (send) ans l where "c' = c" "b' = snd (send_edge_line ans l b)"
  | (poll) rs where "c \<le> c'" "b' = snd (poll_lines rs c' b)"
  using assms by (cases rule: bridge_step.cases) (auto simp: send_effect(1))

section \<open>Readiness\<close>

lemma tick_connect_effect:
  assumes "connected (tick_connect env t1 t2 t3 b)"
  shows "tick_connect env t1 t2 t3 b = b \<or>
    \<not> core_answered_ready (tick_connect env t1 t2 t3 b) \<and> \<not> hello_sent_this_connection (tick_connect env t1 t2 t3 b)"
proof -
  let ?b = "if connected b \<and> hello_timed_out t1 b then give_up t2 b else b"
  show ?thesis
  proof (cases "connected ?b \<or> \<not> sweep_due t3 ?b")
    case True
    then show ?thesis using assms
      by (auto simp: tick_connect_cases Let_def give_up_def close_socket_def split: if_splits)
  next
    case False
    have eq: "tick_connect env t1 t2 t3 b = sweep env t3 [0..<BRIDGE_PORT_COUNT]
        (?b\<lparr>last_connect_attempt := t3, have_spawnable_port := False\<rparr>)"
      using False by (simp only: tick_connect_cases Let_def if_False)
    have nc: "\<not> connected ?b" using False by blast
    from sweep_all [of env ?b t3] assms nc show ?thesis
      unfolding eq swept_def by (auto split: option.splits simp del: if_split)
  qed
qed

lemma handle_line_attempts:
  "handle_line sp now raw b = Consumed b' \<Longrightarrow> connect_attempts (counters b') = connect_attempts (counters b)"
  "handle_line sp now raw b = Delivered l b' \<Longrightarrow> connect_attempts (counters b') = connect_attempts (counters b)"
  "handle_line sp now raw b = Rejected b' \<Longrightarrow> connect_attempts (counters b') = connect_attempts (counters b)"
  by (auto simp: handle_line_def count_line_def handle_reject_def close_socket_def mark_busy_def Let_def
      split: if_splits option.splits)

lemma parse_loop_attempts:
  "connect_attempts (counters (fst (snd (parse_loop sp now buf start lines b)))) = connect_attempts (counters b)"
proof (induction sp now buf start lines b rule: parse_loop.induct)
  case (1 sp now buf start lines b)
  show ?case
    using 1 by (subst parse_loop.simps) (auto split: option.splits line_result.splits simp: handle_line_attempts)
qed

lemma poll_lines_attempts:
  "connect_attempts (counters (snd (poll_lines rs now b))) = connect_attempts (counters b)"
proof (cases "connected b")
  case True
  let ?p = "parse_loop (current_port b) now (recv_buffer (recv_loop rs 0 b)) 0 [] (recv_loop rs 0 b)"
  have "connect_attempts (counters (recv_loop rs 0 b)) = connect_attempts (counters b)"
    by (simp add: recv_loop_eq close_socket_def Let_def)
  with parse_loop_attempts [of "current_port b" now "recv_buffer (recv_loop rs 0 b)" 0 "[]" "recv_loop rs 0 b"] True show ?thesis
    by (auto simp: poll_lines_def Let_def close_socket_def split: prod.splits option.splits)
qed (simp add: poll_lines_def)

text \<open>A step within one connection: connected before and after, and no connect made by it.\<close>

definition same_connection :: "int \<times> bridge \<Rightarrow> int \<times> bridge \<Rightarrow> bool" where
  "same_connection s s' \<longleftrightarrow> bridge_step s s' \<and> connected (snd s) \<and> connected (snd s') \<and>
     connect_attempts (counters (snd s')) = connect_attempts (counters (snd s))"

text \<open>
  Where the two flags come from: a poll that read an acceptance, a hello that was marked, on the connection the state is
  on, reached from \<open>s0\<close>.
\<close>

definition accepted_here :: "int \<times> bridge \<Rightarrow> int \<times> bridge \<Rightarrow> bool" where
  "accepted_here s0 s \<longleftrightarrow>
     (\<exists>c1 b1 rs t. bridge_step\<^sup>*\<^sup>* s0 (c1, b1) \<and> c1 \<le> t \<and> connected b1 \<and>
        (\<exists>r\<in>set (fst (frames (poll_buffer rs b1))). is_bridge_ready r) \<and>
        same_connection\<^sup>*\<^sup>* (t, snd (poll_lines rs t b1)) s)"

definition greeted_here :: "int \<times> bridge \<Rightarrow> int \<times> bridge \<Rightarrow> bool" where
  "greeted_here s0 s \<longleftrightarrow>
     (\<exists>c1 b1 t. bridge_step\<^sup>*\<^sup>* s0 (c1, b1) \<and> c1 \<le> t \<and> connected b1 \<and> same_connection\<^sup>*\<^sup>* (t, mark_hello_sent t b1) s)"

lemma here_extends:
  assumes "same_connection s s'"
  shows "accepted_here s0 s \<Longrightarrow> accepted_here s0 s'" and "greeted_here s0 s \<Longrightarrow> greeted_here s0 s'"
  using assms unfolding accepted_here_def greeted_here_def by (meson rtranclp.rtrancl_into_rtrancl)+

definition traced :: "int \<times> bridge \<Rightarrow> int \<times> bridge \<Rightarrow> bool" where
  "traced s0 s \<longleftrightarrow> connected (snd s) \<longrightarrow>
     (core_answered_ready (snd s) \<longrightarrow> accepted_here s0 s) \<and> (hello_sent_this_connection (snd s) \<longrightarrow> greeted_here s0 s)"

lemma traced_step:
  assumes "bridge_step\<^sup>*\<^sup>* s0 (c, b)" and st: "bridge_step (c, b) (c', b')" and tr: "traced s0 (c, b)"
  shows "traced s0 (c', b')"
proof -
  have keep: "traced s0 (c', b')"
    if "connected b' \<Longrightarrow> connected b \<and> connect_attempts (counters b') = connect_attempts (counters b)"
      and "core_answered_ready b' \<Longrightarrow> connected b' \<Longrightarrow> core_answered_ready b \<or> accepted_here s0 (c', b')"
      and "hello_sent_this_connection b' \<Longrightarrow> connected b' \<Longrightarrow> hello_sent_this_connection b \<or> greeted_here s0 (c', b')"
    using that st tr here_extends [of "(c, b)" "(c', b')" s0] by (auto simp: traced_def same_connection_def)
  from st show ?thesis
  proof (cases rule: bridge_stepE)
    case (tick env t1 t2)
    show ?thesis
    proof (cases "b' = b")
      case True
      then show ?thesis by (intro keep) auto
    next
      case False
      then show ?thesis using tick_connect_effect [of env t1 t2 c' b] tick(4) by (auto simp: traced_def)
    qed
  next
    case hello
    have "greeted_here s0 (c', b')"
      using assms(1) hello unfolding greeted_here_def by blast
    then show ?thesis using hello by (intro keep) (auto simp: mark_hello_sent_def)
  next
    case (own p)
    then show ?thesis by (intro keep) (auto simp: set_own_core_port_def)
  next
    case (send ans l)
    have "connected b' \<Longrightarrow> connected b \<and> connect_attempts (counters b') = connect_attempts (counters b) \<and>
        core_answered_ready b' = core_answered_ready b \<and> hello_sent_this_connection b' = hello_sent_this_connection b"
      unfolding send(2)
      by (auto simp: send_edge_line_def send_line_inner_def bump_send_ok_def bump_send_fail_def close_socket_def Let_def
          split: send_answer.splits if_splits)
    then show ?thesis by (intro keep) auto
  next
    case (poll rs)
    have "accepted_here s0 (c', b')" if "core_answered_ready b'" "connected b'" "\<not> core_answered_ready b"
      using that assms(1) poll poll_lines_effect(2,3) [of rs c' b] unfolding accepted_here_def by blast
    then show ?thesis
      using poll_lines_effect(2) [of rs c' b] poll_lines_attempts [of rs c' b] poll(2) by (intro keep) auto
  qed
qed

lemma traced_reachable: "bridge_step\<^sup>*\<^sup>* (c0, new_bridge base) s \<Longrightarrow> traced (c0, new_bridge base) s"
proof (induction rule: rtranclp_induct)
  case base
  then show ?case by (simp add: traced_def new_bridge_def)
next
  case (step s s')
  then show ?case using traced_step [of _ "fst s" "snd s" "fst s'" "snd s'"] by simp
qed

text \<open>
  Property C23. Silence is not acceptance. In any history of the client, whenever it is ready, a poll read a complete
  \<^verbatim>\<open>bridge_ready\<close> line and a hello was marked as sent, both on the very connection it is on: since each of the two, it
  has been connected all along and no connect was made. An acceptance read on an earlier connection never counts.
\<close>

theorem ready_needs_acceptance:
  assumes "bridge_step\<^sup>*\<^sup>* (c0, new_bridge base) (c, b)" and "is_ready b"
  shows "(\<exists>c1 b1 rs t. bridge_step\<^sup>*\<^sup>* (c0, new_bridge base) (c1, b1) \<and> c1 \<le> t \<and> connected b1 \<and>
      (\<exists>r\<in>set (fst (frames (poll_buffer rs b1))). is_bridge_ready r) \<and>
      same_connection\<^sup>*\<^sup>* (t, snd (poll_lines rs t b1)) (c, b)) \<and>
    (\<exists>c2 b2 t. bridge_step\<^sup>*\<^sup>* (c0, new_bridge base) (c2, b2) \<and> c2 \<le> t \<and> connected b2 \<and>
      same_connection\<^sup>*\<^sup>* (t, mark_hello_sent t b2) (c, b))"
  using traced_reachable [OF assms(1)] assms(2)
  by (simp add: traced_def is_ready_def accepted_here_def greeted_here_def split: if_splits)

section \<open>Resting a busy port\<close>

lemma bridge_step_clock: "bridge_step (c, b) (c', b') \<Longrightarrow> c \<le> c'"
  by (erule bridge_stepE) auto

lemma bridge_steps_clock: "bridge_step\<^sup>*\<^sup>* s s' \<Longrightarrow> fst s \<le> fst s'"
proof (induction rule: rtranclp_induct)
  case (step s1 s2)
  then show ?case using bridge_step_clock [of "fst s1" "snd s1" "fst s2" "snd s2"] by simp
qed simp

text \<open>The port \<open>p\<close>, entry \<open>i\<close> of the walk, is to be left alone until \<open>until\<close>.\<close>

definition resting :: "u16 \<Rightarrow> nat \<Rightarrow> int \<Rightarrow> bridge \<Rightarrow> bool" where
  "resting p i until b \<longleftrightarrow>
     port_index b p = Some i \<and> length (busy_until b) = BRIDGE_PORT_COUNT \<and>
     until \<le> busy_until b ! i \<and> \<not> (connected b \<and> current_port b = p)"

lemma port_index_base: "base_port b' = base_port b \<Longrightarrow> port_index b' = port_index b"
  by (simp add: port_index_def fun_eq_iff)

lemma port_index_frame [simp]:
  "port_index (b\<lparr>sock := x1\<rparr>) = port_index b" "port_index (b\<lparr>connected := x2\<rparr>) = port_index b"
  "port_index (b\<lparr>current_port := x3\<rparr>) = port_index b"
  "port_index (b\<lparr>hello_sent_this_connection := x4\<rparr>) = port_index b"
  "port_index (b\<lparr>hello_sent_at := x5\<rparr>) = port_index b"
  "port_index (b\<lparr>core_answered_ready := x6\<rparr>) = port_index b"
  "port_index (b\<lparr>counters := x7\<rparr>) = port_index b" "port_index (b\<lparr>recv_buffer := x8\<rparr>) = port_index b"
  "port_index (b\<lparr>busy_until := x9\<rparr>) = port_index b" "port_index (b\<lparr>own_core_port := x10\<rparr>) = port_index b"
  "port_index (b\<lparr>last_busy_port := x11\<rparr>) = port_index b"
  "port_index (b\<lparr>relay_down_until := x12\<rparr>) = port_index b"
  by (simp_all add: port_index_def fun_eq_iff)

lemma mark_busy_stamp:
  assumes "length (busy_until b) = BRIDGE_PORT_COUNT" and "until \<le> busy_until b ! i" and "until \<le> t + BUSY_PORT_COOLDOWN"
  shows "until \<le> busy_until (mark_busy p t b) ! i \<and> length (busy_until (mark_busy p t b)) = BRIDGE_PORT_COUNT"
proof (cases "port_index b p")
  case None
  with assms show ?thesis by (simp add: mark_busy_def)
next
  case (Some j)
  with assms show ?thesis
    using port_index_candidate [OF Some] by (cases "j = i") (simp_all add: mark_busy_def)
qed

lemma resting_close: "resting p i u b \<Longrightarrow> resting p i u (close_socket b)"
  by (simp add: resting_def close_socket_def)

lemma resting_mark_busy: "resting p i u b \<Longrightarrow> u \<le> t + BUSY_PORT_COOLDOWN \<Longrightarrow> resting p i u (mark_busy q t b)"
  using mark_busy_stamp [of b u i t q]
  by (auto simp: resting_def mark_busy_def split: option.splits)

lemma resting_tick:
  assumes "resting p i u b" and "u \<le> t2 + BUSY_PORT_COOLDOWN" and "t3 < u"
  shows "resting p i u (tick_connect env t1 t2 t3 b)"
proof -
  let ?b = "if connected b \<and> hello_timed_out t1 b then give_up t2 b else b"
  have r: "resting p i u ?b" using assms by (simp add: give_up_def resting_close resting_mark_busy)
  show ?thesis
  proof (cases "connected ?b \<or> \<not> sweep_due t3 ?b")
    case True
    with r show ?thesis by (simp add: tick_connect_cases Let_def)
  next
    case False
    let ?b' = "sweep env t3 [0..<BRIDGE_PORT_COUNT] (?b\<lparr>last_connect_attempt := t3, have_spawnable_port := False\<rparr>)"
    have eq: "tick_connect env t1 t2 t3 b = ?b'" using False by (simp only: tick_connect_cases Let_def if_False)
    have nc: "\<not> connected ?b" using False by blast
    have "p \<notin> set (map (candidate ?b) (eligible ?b t3))"
      by (rule cooling_not_chosen [of _ p i]) (use r assms(3) in \<open>auto simp: resting_def\<close>)
    then have "\<not> (connected ?b' \<and> current_port ?b' = p)"
      using sweep_all [of env ?b t3] nc unfolding swept_def
      by (auto split: option.splits dest: find_in simp del: if_split)
    moreover have "busy_until ?b' = busy_until ?b" "base_port ?b' = base_port ?b"
      using sweep_all [of env ?b t3] by (simp_all add: swept_def del: if_split)
    ultimately show ?thesis using r port_index_base [of ?b' ?b] unfolding eq by (simp add: resting_def del: if_split)
  qed
qed

lemma resting_poll:
  assumes "resting p i u b" and "u \<le> t + BUSY_PORT_COOLDOWN"
  shows "resting p i u (snd (poll_lines rs t b))"
  using assms poll_lines_effect(2,4) [of rs t b] mark_busy_stamp [of b u i t "current_port b"]
    port_index_base [OF poll_lines_effect(1) [of rs t b]]
  by (auto simp: resting_def)

lemma resting_step:
  assumes "bridge_step (c, b) (c', b')" and "resting p i u b" and "u \<le> c + BUSY_PORT_COOLDOWN" and "c' < u"
  shows "resting p i u b'"
  using assms(1)
proof (cases rule: bridge_stepE)
  case (tick env t1 t2)
  then show ?thesis using assms(2-4) by (simp add: resting_tick)
next
  case hello
  then show ?thesis using assms(2) by (simp add: resting_def mark_hello_sent_def)
next
  case own
  then show ?thesis using assms(2) by (simp add: resting_def set_own_core_port_def)
next
  case (send ans l)
  then show ?thesis using assms(2) send_effect(3) [of ans l b]
    by (auto simp: resting_def close_socket_def)
next
  case (poll rs)
  then show ?thesis using assms(2,3) by (simp add: resting_poll)
qed

lemma resting_steps:
  assumes "bridge_step\<^sup>*\<^sup>* (t, b) s" and "resting p i u b" and "u \<le> t + BUSY_PORT_COOLDOWN" and "fst s < u"
  shows "resting p i u (snd s)"
  using assms
proof (induction rule: rtranclp_induct)
  case (step s1 s2)
  have st: "bridge_step (fst s1, snd s1) (fst s2, snd s2)" using step.hyps(2) by simp
  have "t \<le> fst s1" using bridge_steps_clock [OF step.hyps(1)] by simp
  moreover have "fst s1 \<le> fst s2" using bridge_step_clock [OF st] .
  ultimately show ?case using step resting_step [OF st] by simp
qed simp

text \<open>
  Property C3. A port whose core turned us away is left alone. After a poll at time \<open>t\<close> that reads
  a rejection meaning that this core has its game (code \<^verbatim>\<open>busy\<close> or \<^verbatim>\<open>already_serving\<close>, or no code
  and no mention of the relay) on a port inside the walk, no sequence of calls connects the client
  to that port again before ten seconds have passed.
\<close>

theorem rejected_port_rests:
  assumes "connected b" and "bridge_inv b" and "port_index b (current_port b) = Some i"
    and "first_reject (fst (frames (poll_buffer rs b))) = Some r" and "walk_on (strip_cr r)"
    and "bridge_step\<^sup>*\<^sup>* (t, snd (poll_lines rs t b)) (c', b')" and "c' < t + BUSY_PORT_COOLDOWN"
  shows "\<not> (connected b' \<and> current_port b' = current_port b)"
proof -
  obtain st rdy where p: "snd (poll_lines rs t b) = handle_reject (current_port b) t (strip_cr r)
      ((recv_loop rs 0 b)\<lparr>counters := st, core_answered_ready := rdy\<rparr>)"
    using poll_lines_reject [OF assms(1,4)] by metis
  have i: "i < BRIDGE_PORT_COUNT" "length (busy_until b) = BRIDGE_PORT_COUNT"
    using port_index_candidate [OF assms(3)] assms(2) by (auto simp: bridge_inv_def)
  have "resting (current_port b) i (t + BUSY_PORT_COOLDOWN) (snd (poll_lines rs t b))"
    using assms(3,5) i
    by (auto simp: p resting_def handle_reject_def close_socket_def mark_busy_def recv_loop_eq Let_def)
  from resting_steps [OF assms(6) this] assms(7) show ?thesis by (simp add: resting_def)
qed

text \<open>
  Property C39. The rest does not reach wrapped ports. With a base port above 65528 the last
  candidates wrap past 65535, and neither a busy answer nor an unanswered hello from such a port is
  recorded: the walk index is taken without wrapping, so the port is dialled again at the next sweep.
\<close>

theorem wrapped_port_never_rests:
  assumes "i < BRIDGE_PORT_COUNT" and "65536 \<le> unat (base_port b) + i"
  shows "unat (candidate b i) = unat (base_port b) + i - 65536 \<and> mark_busy (candidate b i) t b = b"
proof -
  have "unat (base_port b) < 2 ^ LENGTH(16)" by (rule unsigned_less)
  then have b: "unat (base_port b) < 65536" by simp
  have "unat (candidate b i) = (unat (base_port b) + i) mod 65536"
    by (simp add: candidate_def unat_word_ariths unat_of_nat mod_add_right_eq)
  also have "\<dots> = unat (base_port b) + i - 65536"
    using assms b by (simp add: mod_if BRIDGE_PORT_COUNT_def)
  finally have u: "unat (candidate b i) = unat (base_port b) + i - 65536" .
  have "unat (candidate b i) < unat (base_port b)"
    using u assms(1,2) by (simp add: BRIDGE_PORT_COUNT_def)
  with u show ?thesis by (simp add: mark_busy_def port_index_def)
qed

theorem wrapped_port_never_rests_witness:
  "unat (candidate (new_bridge 65533) 5) = 2 \<and> mark_busy (candidate (new_bridge 65533) 5) 0 (new_bridge 65533) = new_bridge 65533"
  using wrapped_port_never_rests [of 5 "new_bridge 65533" 0] by (simp add: new_bridge_def BRIDGE_PORT_COUNT_def)

section \<open>Backing off from a core without a relay\<close>

definition backing_off :: "int \<Rightarrow> bridge_stats \<Rightarrow> bridge \<Rightarrow> bool" where
  "backing_off until st b \<longleftrightarrow> \<not> connected b \<and> until \<le> relay_down_until b \<and> counters b = st"

lemma backing_off_step:
  assumes "bridge_step (c, b) (c', b')" and "backing_off u st b" and "c' < u"
  shows "backing_off u st b'"
  using assms(1)
proof (cases rule: bridge_stepE)
  case (tick env t1 t2)
  then show ?thesis using assms(2,3) by (simp add: tick_connect_cases backing_off_def sweep_due_def)
next
  case hello
  then show ?thesis using assms(2) by (simp add: backing_off_def)
next
  case own
  then show ?thesis using assms(2) by (simp add: backing_off_def set_own_core_port_def)
next
  case (send ans l)
  then show ?thesis using assms(2) by (simp add: backing_off_def send_effect(2))
next
  case (poll rs)
  then show ?thesis using assms(2) by (simp add: backing_off_def poll_lines_def)
qed

lemma backing_off_steps:
  "bridge_step\<^sup>*\<^sup>* s s' \<Longrightarrow> backing_off u st (snd s) \<Longrightarrow> fst s' < u \<Longrightarrow> backing_off u st (snd s')"
proof (induction rule: rtranclp_induct)
  case (step s1 s2)
  have st: "bridge_step (fst s1, snd s1) (fst s2, snd s2)" using step.hyps(2) by simp
  show ?case using step bridge_step_clock [OF st] backing_off_step [OF st] by simp
qed simp

text \<open>
  A core that cannot reach its relay is waited for, not walked away from. After a poll
  at time \<open>t\<close> that reads a rejection of any other kind, the client is disconnected and dials no
  port at all (no connection attempt is even counted) until ten seconds have passed, whatever is
  called.
\<close>

theorem relay_rejection_backs_off:
  assumes "connected b" and "first_reject (fst (frames (poll_buffer rs b))) = Some r" and "\<not> walk_on (strip_cr r)"
    and "bridge_step\<^sup>*\<^sup>* (t, snd (poll_lines rs t b)) (c', b')" and "c' < t + RELAY_DOWN_BACKOFF"
  shows "\<not> connected b' \<and> counters b' = counters (snd (poll_lines rs t b))"
proof -
  obtain st rdy where p: "snd (poll_lines rs t b) = handle_reject (current_port b) t (strip_cr r)
      ((recv_loop rs 0 b)\<lparr>counters := st, core_answered_ready := rdy\<rparr>)"
    using poll_lines_reject [OF assms(1,2)] by metis
  have "backing_off (t + RELAY_DOWN_BACKOFF) (counters (snd (poll_lines rs t b))) (snd (poll_lines rs t b))"
    using assms(3) by (simp add: p backing_off_def handle_reject_def close_socket_def)
  then have "backing_off (t + RELAY_DOWN_BACKOFF) (counters (snd (poll_lines rs t b))) b'"
    using backing_off_steps [OF assms(4), of "t + RELAY_DOWN_BACKOFF"] assms(5) by simp
  then show ?thesis by (simp add: backing_off_def)
qed

section \<open>Hello timeout, own core, sending\<close>

text \<open>
  Property C24. A listener that never answers is given up. Once 1.5 s have passed since the hello
  without an acceptance, the next \<^verbatim>\<open>tick_connect\<close> drops the connection, and if the port is in the walk, no sequence of
  calls from there on connects to it again before ten seconds have passed since the drop.
\<close>

theorem silent_port_given_up:
  assumes "bridge_inv b" and "connected b" and "hello_sent_this_connection b" and "\<not> core_answered_ready b"
    and "hello_sent_at b + HELLO_ANSWER_TIMEOUT < t1" and "t2 \<le> t3" and "port_index b (current_port b) = Some i"
  shows "let b1 = tick_connect env t1 t2 t3 b in
    \<not> is_ready b1 \<and> \<not> hello_sent_this_connection b1 \<and>
    (\<forall>c' b'. bridge_step\<^sup>*\<^sup>* (t3, b1) (c', b') \<longrightarrow> c' < t2 + BUSY_PORT_COOLDOWN \<longrightarrow>
       \<not> (connected b' \<and> current_port b' = current_port b))"
proof -
  have to: "hello_timed_out t1 b" using assms by (simp add: hello_timed_out_def)
  let ?g = "give_up t2 b" and ?b1 = "tick_connect env t1 t2 t3 b" and ?u = "t2 + BUSY_PORT_COOLDOWN"
  have i: "i < BRIDGE_PORT_COUNT" "length (busy_until b) = BRIDGE_PORT_COUNT"
    using port_index_candidate [OF assms(7)] assms(1) by (auto simp: bridge_inv_def)
  have g: "\<not> connected ?g" "\<not> hello_sent_this_connection ?g" "resting (current_port b) i ?u ?g"
    using i assms(7) by (simp_all add: give_up_def close_socket_def resting_def mark_busy_def)
  have eq: "?b1 = tick_connect env t1 t2 t3 ?g"
    using to assms(2) g(1) by (simp add: tick_connect_cases)
  have flag: "\<not> hello_sent_this_connection ?b1"
    unfolding eq using g(1,2) sweep_all [of env ?g t3] by (auto simp: tick_connect_cases swept_def Let_def split: option.splits)
  have "\<not> (connected b' \<and> current_port b' = current_port b)"
    if steps: "bridge_step\<^sup>*\<^sup>* (t3, ?b1) (c', b')" and c': "c' < ?u" for c' b'
  proof -
    have "t3 < ?u" using bridge_steps_clock [OF steps] c' by simp
    then have "resting (current_port b) i ?u ?b1"
      unfolding eq by (intro resting_tick [OF g(3)]) auto
    from resting_steps [OF steps this] assms(6) c' show ?thesis by (simp add: resting_def)
  qed
  with flag show ?thesis by (simp add: Let_def is_ready_def)
qed

text \<open>
  A live own core keeps the walk at home. While the mod owns a core on some port and
  that port has not answered busy, a sweep connects to that port or to none: two copies of the game
  cannot attach to each other's cores.
\<close>

theorem own_core_only:
  assumes "\<not> connected b" and "own_core_port b \<noteq> 0" and "own_core_port b \<noteq> last_busy_port b"
    and "connected (tick_connect env t1 t2 t3 b)"
  shows "current_port (tick_connect env t1 t2 t3 b) = own_core_port b"
proof -
  have due: "sweep_due t3 b" using assms(1,4) by (auto simp: tick_connect_cases split: if_splits)
  have el: "p = own_core_port b" if "p \<in> set (map (candidate b) (eligible b t3))" for p
    using that assms(2,3) by (auto simp: eligible_def skips_port_def)
  show ?thesis
    using sweep_all [of env b t3] assms(1,4) due
    by (auto simp: tick_connect_cases swept_def split: option.splits dest!: find_in intro: el)
qed

text \<open>
  What a send reports. \<^verbatim>\<open>send_edge_line\<close> is true exactly when the client was connected
  and the operating system took the whole line with its newline; \<^verbatim>\<open>send_line\<close> is also true when the
  line was dropped because the send would have blocked; and when \<^verbatim>\<open>send_line\<close> is false the client
  is disconnected afterwards.
\<close>

theorem send_reports:
  "(fst (send_edge_line ans l b) \<longleftrightarrow> connected b \<and> (\<exists>n > length l. ans = Sent n)) \<and>
   (fst (send_line ans l b) \<longleftrightarrow> fst (send_edge_line ans l b) \<or> connected b \<and> ans = SendError WSAEWOULDBLOCK) \<and>
   (fst (send_line ans l b) \<or> \<not> connected (snd (send_line ans l b)))"
  by (auto simp: send_edge_line_def send_line_def send_line_inner_def close_socket_def Let_def split: send_answer.splits)

section \<open>Concrete runs\<close>

definition answers_on :: "u16 \<Rightarrow> u16 \<Rightarrow> port_answers" where
  "answers_on q p =
     (if p = q then \<lparr>pa_socket = Some 5, pa_connect = Some WSAEWOULDBLOCK, pa_select = SelectFired True None,
                     pa_probe_socket = True, pa_bind_ok = False\<rparr>
      else \<lparr>pa_socket = Some 5, pa_connect = Some WSAECONNREFUSED, pa_select = SelectNothing,
             pa_probe_socket = True, pa_bind_ok = True\<rparr>)"

definition quoted_pair :: "string \<Rightarrow> string \<Rightarrow> string" where
  "quoted_pair k v = [chr_quote] @ k @ [chr_quote, CHR '':'', chr_quote] @ v @ [chr_quote]"

definition busy_line :: string where
  "busy_line = ''{'' @ quoted_pair ''type'' ''reject'' @ '','' @ quoted_pair ''code'' ''busy'' @ ''}''"

definition version_line :: string where
  "version_line = ''{'' @ quoted_pair ''type'' ''reject'' @ '','' @ quoted_pair ''code'' ''version'' @ ''}''"

definition ready_line :: string where
  "ready_line = ''{'' @ quoted_pair ''type'' ''bridge_ready'' @ ''}''"

lemmas bridge_run_simps = new_bridge_def open_bridge_def bridge_consts sweep_due_def hello_timed_out_def
  port_index_def answers_on_def

lemma sample_lines:
  "is_reject busy_line" "walk_on (strip_cr busy_line)" "is_reject version_line" "\<not> walk_on (strip_cr version_line)"
  "is_bridge_ready ready_line"
  by (code_simp+)

lemma frames_one: "chr_newline \<notin> set l \<Longrightarrow> frames (l @ [chr_newline]) = ([l], [])"
  by (simp add: frames_line)

lemma poll_buffer_one:
  "poll_buffer [Received (l @ [chr_newline])] open_bridge = l @ [chr_newline]"
  by (simp add: open_bridge_def new_bridge_def bridge_consts)

lemma sample_clean: "chr_newline \<notin> set busy_line" "chr_newline \<notin> set version_line" "chr_newline \<notin> set ready_line"
  by (simp_all add: busy_line_def version_line_def ready_line_def quoted_pair_def)

lemma eligible_new: "eligible (new_bridge 7778) 2000000000 = [0, 1, 2, 3, 4, 5, 6, 7]"
  by (simp add: eligible_def skips_port_def new_bridge_def bridge_consts upt_conv_Cons nth_Cons')

lemma candidate_new: "candidate (new_bridge base) i = base + of_nat i"
  by (simp add: candidate_def new_bridge_def)

theorem tick_connect_first_eligible_witness:
  "let b' = tick_connect (answers_on 7780) 0 0 2000000000 (new_bridge 7778) in
     connected b' \<and> current_port b' = 7780 \<and> spawnable_port b' = Some 7778"
proof -
  have c: "chosen_port (answers_on 7780) (new_bridge 7778) 2000000000 = Some 7780"
    "free_port (answers_on 7780) (new_bridge 7778) 2000000000 = Some 7778"
    by (simp_all add: chosen_port_def free_port_def eligible_new candidate_new answers_on_def
          port_serves_def port_free_def port_refuses_def)
  have "\<not> connected (new_bridge 7778)" "sweep_due 2000000000 (new_bridge 7778)"
    by (simp_all add: bridge_run_simps)
  from tick_connect_first_eligible [OF this, of "answers_on 7780" 0 0]
  show ?thesis by (auto simp: c Let_def split: if_splits)
qed

theorem bridge_reachable_inv_witness:
  "bridge_inv (tick_connect (answers_on 7780) 0 0 2000000000 (new_bridge 7778))"
  by (rule bridge_reachable_inv [of 0 7778 2000000000])
     (intro r_into_rtranclp step_tick, simp_all)

text \<open>A client that has connected to the core on 7778, said hello and read its acceptance.\<close>

definition greeted_bridge :: bridge where
  "greeted_bridge = mark_hello_sent 2000000001 (tick_connect (answers_on 7778) 0 0 2000000000 (new_bridge 7778))"

lemma greeted_bridge:
  "bridge_step\<^sup>*\<^sup>* (0, new_bridge 7778) (2000000001, greeted_bridge)" "connected greeted_bridge"
  "current_port greeted_bridge = 7778" "hello_sent_this_connection greeted_bridge" "recv_buffer greeted_bridge = []"
  "\<not> core_answered_ready greeted_bridge" "hello_sent_at greeted_bridge = 2000000001"
proof -
  let ?b = "tick_connect (answers_on 7778) 0 0 2000000000 (new_bridge 7778)"
  have c: "chosen_port (answers_on 7778) (new_bridge 7778) 2000000000 = Some 7778"
    by (simp add: chosen_port_def eligible_new candidate_new answers_on_def port_serves_def)
  have due: "\<not> connected (new_bridge 7778)" "sweep_due 2000000000 (new_bridge 7778)" by (simp_all add: bridge_run_simps)
  have b: "connected ?b" "current_port ?b = 7778" "recv_buffer ?b = []"
    using tick_connect_first_eligible [OF due, of "answers_on 7778" 0 0] c by (auto simp: Let_def split: if_splits)
  have "tick_connect (answers_on 7778) 0 0 2000000000 (new_bridge 7778) \<noteq> new_bridge 7778" using b(1) due(1) by metis
  then have "\<not> core_answered_ready ?b" using tick_connect_effect [OF b(1)] by blast
  then show "connected greeted_bridge" "current_port greeted_bridge = 7778" "hello_sent_this_connection greeted_bridge"
    "recv_buffer greeted_bridge = []" "\<not> core_answered_ready greeted_bridge" "hello_sent_at greeted_bridge = 2000000001"
    using b by (simp_all add: greeted_bridge_def mark_hello_sent_def)
  have "bridge_step (0, new_bridge 7778) (2000000000, ?b)" by (rule step_tick) simp_all
  moreover have "bridge_step (2000000000, ?b) (2000000001, greeted_bridge)"
    unfolding greeted_bridge_def using b(1) by (intro step_hello) simp_all
  ultimately show "bridge_step\<^sup>*\<^sup>* (0, new_bridge 7778) (2000000001, greeted_bridge)"
    by (rule converse_rtranclp_into_rtranclp [OF _ r_into_rtranclp])
qed

theorem ready_needs_acceptance_witness:
  "\<exists>c1 b1 rs t. bridge_step\<^sup>*\<^sup>* (0, new_bridge 7778) (c1, b1) \<and> c1 \<le> t \<and> connected b1 \<and>
     (\<exists>r\<in>set (fst (frames (poll_buffer rs b1))). is_bridge_ready r) \<and>
     same_connection\<^sup>*\<^sup>* (t, snd (poll_lines rs t b1))
       (2000000002, snd (poll_lines [Received (ready_line @ [chr_newline])] 2000000002 greeted_bridge))"
proof -
  let ?b = greeted_bridge and ?rs = "[Received (ready_line @ [chr_newline])]" and ?t = "2000000002 :: int"
  note conn = greeted_bridge(2-6)
  have buf: "poll_buffer ?rs ?b = ready_line @ [chr_newline]" by (simp add: conn bridge_consts)
  have fr: "frames (poll_buffer ?rs ?b) = ([ready_line], [])" unfolding buf by (rule frames_one [OF sample_clean(3)])
  have nr: "\<not> is_reject ready_line" using sample_lines(5) by (simp add: is_reject_def is_bridge_ready_def)
  have keeps: "recv_keeps ?rs 0" by (simp add: bridge_consts)
  obtain st where "snd (poll_lines ?rs ?t ?b) = ?b\<lparr>recv_buffer := [], counters := st, core_answered_ready := True\<rparr>"
    using poll_lines_quiet [OF conn(1), of ?rs ?t] fr nr keeps sample_lines(5) by auto
  then have ready: "is_ready (snd (poll_lines ?rs ?t ?b))" using conn by (simp add: is_ready_def)
  have "bridge_step (2000000001, ?b) (?t, snd (poll_lines ?rs ?t ?b))" by (rule step_poll) simp
  with greeted_bridge(1) have steps: "bridge_step\<^sup>*\<^sup>* (0, new_bridge 7778) (?t, snd (poll_lines ?rs ?t ?b))"
    by (meson rtranclp.rtrancl_into_rtrancl)
  show ?thesis by (rule ready_needs_acceptance [OF steps ready, THEN conjunct1])
qed

theorem rejected_port_rests_witness:
  "let b' = tick_connect (answers_on 7778) 0 0 5000000000 (snd (poll_lines [Received (busy_line @ [chr_newline])] 0 open_bridge))
   in \<not> (connected b' \<and> current_port b' = 7778)"
proof -
  let ?b = "snd (poll_lines [Received (busy_line @ [chr_newline])] 0 open_bridge)"
  have steps: "bridge_step\<^sup>*\<^sup>* (0, ?b) (5000000000, tick_connect (answers_on 7778) 0 0 5000000000 ?b)"
    by (intro r_into_rtranclp step_tick) simp_all
  have fr: "first_reject (fst (frames (poll_buffer [Received (busy_line @ [chr_newline])] open_bridge))) = Some busy_line"
    unfolding poll_buffer_one by (simp add: frames_one sample_clean first_reject_def sample_lines)
  have b: "connected open_bridge" "bridge_inv open_bridge" "port_index open_bridge (current_port open_bridge) = Some 0"
    "current_port open_bridge = 7778"
    by (auto simp: bridge_inv_def candidate_def bridge_run_simps intro: exI [of _ 0])
  show ?thesis
    using rejected_port_rests [OF b(1-3) fr sample_lines(2) steps] b(4) by (simp add: Let_def bridge_consts)
qed

theorem relay_rejection_backs_off_witness:
  "let b' = tick_connect (answers_on 7778) 0 0 9000000000 (snd (poll_lines [Received (version_line @ [chr_newline])] 0 open_bridge))
   in \<not> connected b'"
proof -
  let ?b = "snd (poll_lines [Received (version_line @ [chr_newline])] 0 open_bridge)"
  have steps: "bridge_step\<^sup>*\<^sup>* (0, ?b) (9000000000, tick_connect (answers_on 7778) 0 0 9000000000 ?b)"
    by (intro r_into_rtranclp step_tick) simp_all
  have fr: "first_reject (fst (frames (poll_buffer [Received (version_line @ [chr_newline])] open_bridge))) = Some version_line"
    unfolding poll_buffer_one by (simp add: frames_one sample_clean first_reject_def sample_lines)
  have b: "connected open_bridge" by (simp add: bridge_run_simps)
  show ?thesis
    using relay_rejection_backs_off [OF b fr sample_lines(4) steps] by (simp add: Let_def bridge_consts)
qed

theorem silent_port_given_up_witness:
  "let b1 = tick_connect (answers_on 7778) 1500000001 1500000001 1500000002 (mark_hello_sent 0 open_bridge);
       b2 = tick_connect (answers_on 7778) 9000000000 9000000000 9000000000 b1
   in \<not> hello_sent_this_connection b1 \<and> \<not> (connected b2 \<and> current_port b2 = 7778)"
proof -
  let ?b = "mark_hello_sent 0 open_bridge" and ?e = "answers_on 7778"
  let ?b1 = "tick_connect ?e 1500000001 1500000001 1500000002 ?b"
  have "bridge_inv ?b" by (auto simp: bridge_inv_def candidate_def mark_hello_sent_def bridge_run_simps intro: exI [of _ 0])
  moreover have "connected ?b" "hello_sent_this_connection ?b" "\<not> core_answered_ready ?b" "hello_sent_at ?b = 0"
    "port_index ?b (current_port ?b) = Some 0" "current_port ?b = 7778"
    by (simp_all add: mark_hello_sent_def bridge_run_simps)
  moreover have "bridge_step\<^sup>*\<^sup>* (1500000002, ?b1) (9000000000, tick_connect ?e 9000000000 9000000000 9000000000 ?b1)"
    by (intro r_into_rtranclp step_tick) simp_all
  ultimately show ?thesis
    using silent_port_given_up [of ?b 1500000001 1500000001 1500000002 0 ?e]
    by (simp add: Let_def bridge_consts)
qed

theorem own_core_only_witness:
  "let b = (new_bridge 7778)\<lparr>own_core_port := 7780\<rparr>; b' = tick_connect (answers_on 7780) 0 0 2000000000 b in
     current_port b' = 7780"
proof -
  let ?b = "(new_bridge 7778)\<lparr>own_core_port := 7780\<rparr>"
  have due: "\<not> connected ?b" "sweep_due 2000000000 ?b" by (simp_all add: bridge_run_simps)
  have "eligible ?b 2000000000 = [2]"
    by (simp add: eligible_def skips_port_def candidate_def new_bridge_def bridge_consts upt_conv_Cons nth_Cons')
  then have "chosen_port (answers_on 7780) ?b 2000000000 \<noteq> None"
    by (simp add: chosen_port_def candidate_def new_bridge_def answers_on_def port_serves_def)
  moreover have "connected (sweep (answers_on 7780) 2000000000 [0..<BRIDGE_PORT_COUNT]
      (?b\<lparr>last_connect_attempt := 2000000000, have_spawnable_port := False\<rparr>))"
    using sweep_all [of "answers_on 7780" ?b 2000000000] calculation by (auto simp: swept_def chosen_port_def)
  ultimately have "connected (tick_connect (answers_on 7780) 0 0 2000000000 ?b)"
    using due by (simp add: tick_connect_cases)
  from own_core_only [OF due(1) _ _ this] show ?thesis by (simp add: new_bridge_def)
qed

theorem send_reports_witness:
  "fst (send_edge_line (Sent 3) ''ab'' open_bridge)"
  using send_reports [of "Sent 3" "''ab''" open_bridge] by (simp add: bridge_run_simps)

end
