(* ===== verification/Launcher.thy ===== *)
theory Launcher
  imports Doubles "HOL-Library.Monad_Syntax"
begin

text \<open>
  The core launcher, \<^verbatim>\<open>CoreLauncher.cpp\<close> and \<^verbatim>\<open>CoreLauncher.hpp\<close>: where the client lives, what
  \<^verbatim>\<open>config.json\<close> and the environment say, and the state machine that starts at most one core per
  game. The file system, the environment and the process API are arguments: a directory maps to the
  content of its \<^verbatim>\<open>config.json\<close> if it can be opened, and each call's answers are given to it.
  Log output is left out.
\<close>

section \<open>Paths\<close>

text \<open>
  \<^verbatim>\<open>GetModuleFileNameW\<close> into a buffer of \<open>n\<close> characters leaves \<open>answer n\<close> there; the loop doubles the
  buffer while it comes back full. A loop that never ends is \<open>None\<close>.
\<close>

partial_function (option) module_path :: "(nat \<Rightarrow> string) \<Rightarrow> nat \<Rightarrow> string option" where
  "module_path answer cap =
     (let path = answer cap in
      if path = [] then Some []
      else if length path < cap then Some path
      else module_path answer (cap * 2))"

definition MAX_PATH :: nat where "MAX_PATH = 260"

definition is_separator :: "char \<Rightarrow> bool" where
  "is_separator c \<longleftrightarrow> c = chr_backslash \<or> c = CHR ''/''"

text \<open>Everything before the last separator.\<close>

definition parent_dir :: "string \<Rightarrow> string option" where
  "parent_dir path =
     (case dropWhile (\<lambda>c. \<not> is_separator c) (rev path) of [] \<Rightarrow> None | _ # r \<Rightarrow> Some (rev r))"

definition module_directory :: "string \<Rightarrow> string" where
  "module_directory path = (if path = [] then [] else case parent_dir path of None \<Rightarrow> [] | Some d \<Rightarrow> d)"

fun ancestor :: "nat \<Rightarrow> string \<Rightarrow> string" where
  "ancestor 0 path = path"
| "ancestor (Suc n) path = (case parent_dir path of None \<Rightarrow> [] | Some d \<Rightarrow> ancestor n d)"

definition game_root_directory :: "string \<Rightarrow> string" where
  "game_root_directory path = (if path = [] then [] else ancestor 4 path)"

definition config_search_dirs :: "string \<Rightarrow> string list" where
  "config_search_dirs path = [game_root_directory path]"

section \<open>Reading \<^verbatim>\<open>config.json\<close>\<close>

type_synonym files = "string \<Rightarrow> string option"

text \<open>The first directory that has one decides.\<close>

fun first_config :: "files \<Rightarrow> string list \<Rightarrow> string option" where
  "first_config files [] = None"
| "first_config files (d # ds) =
     (if d = [] then first_config files ds
      else case files d of None \<Rightarrow> first_config files ds | Some text \<Rightarrow> Some text)"

definition CONFIG_CACHE_NS :: int where "CONFIG_CACHE_NS = 250 * 1000000"

record config_cache =
  cached :: string
  cached_found :: bool
  last_read :: int

definition config_text :: "int \<Rightarrow> string option \<Rightarrow> config_cache \<Rightarrow> (string \<times> bool) \<times> config_cache" where
  "config_text now content c =
     (let c = (if last_read c = 0 \<or> now - last_read c \<ge> CONFIG_CACHE_NS
               then (case content of
                       None \<Rightarrow> c\<lparr>cached := [], cached_found := False, last_read := now\<rparr>
                     | Some t \<Rightarrow> c\<lparr>cached := t, cached_found := True, last_read := now\<rparr>)
               else c)
      in ((cached c, cached_found c), c))"

definition config_quoted :: "string \<Rightarrow> string" where
  "config_quoted key = [chr_quote] @ key @ [chr_quote]"

function skip_blanks :: "string \<Rightarrow> nat \<Rightarrow> nat" where
  "skip_blanks text i =
     (if i < length text \<and> (text ! i = CHR '' '' \<or> text ! i = chr_tab) then skip_blanks text (i + 1) else i)"
  by pat_completeness auto
termination by (relation "measure (\<lambda>(text, i). length text - i)") auto

declare skip_blanks.simps [simp del]

text \<open>The index of the first byte of a key's value: past the key, the next colon and blanks.\<close>

definition config_value_at :: "string \<Rightarrow> string \<Rightarrow> nat option" where
  "config_value_at text key =
     do {
       k \<leftarrow> str_find text (config_quoted key) 0;
       i \<leftarrow> str_find text '':'' (k + length (config_quoted key));
       Some (skip_blanks text (i + 1))
     }"

text \<open>The readers take what \<^verbatim>\<open>config_text\<close> gave: \<open>None\<close> when no file was found.\<close>

definition config_string_value :: "string option \<Rightarrow> string \<Rightarrow> string option" where
  "config_string_value content key =
     do {
       text \<leftarrow> content;
       i \<leftarrow> config_value_at text key;
       if i \<ge> length text \<or> text ! i \<noteq> chr_quote then None
       else do {
         close \<leftarrow> str_find text [chr_quote] (i + 1);
         Some (str_substr text (i + 1) (close - (i + 1)))
       }
     }"

definition config_bool_value :: "string option \<Rightarrow> string \<Rightarrow> bool \<Rightarrow> bool" where
  "config_bool_value content key missing =
     (case Option.bind content (\<lambda>text. map_option (\<lambda>i. (text, i)) (config_value_at text key)) of
        None \<Rightarrow> missing
      | Some (text, i) \<Rightarrow> str_compare_eq text i 4 ''true'')"

definition config_number_value :: "string option \<Rightarrow> string \<Rightarrow> dbl option" where
  "config_number_value content key =
     do {
       text \<leftarrow> content;
       i \<leftarrow> config_value_at text key;
       if i \<ge> length text \<or> \<not> (is_digit (text ! i) \<or> text ! i = CHR ''-'' \<or> text ! i = CHR ''.'') then None
       else map_option fst (scan_double False (c_str (drop i text)))
     }"

section \<open>Settings\<close>

definition port_of :: "string \<Rightarrow> u16 option" where
  "port_of s = (let n = strtoul10 s in if 1 \<le> n \<and> n \<le> 65535 then Some (of_nat n) else None)"

text \<open>The text after the last colon, all of it without one.\<close>

definition after_last_colon :: "string \<Rightarrow> string" where
  "after_last_colon v = rev (takeWhile (\<lambda>c. c \<noteq> CHR '':'') (rev v))"

definition bridge_setting :: "string \<Rightarrow> u16 option" where
  "bridge_setting text =
     do {
       k \<leftarrow> str_find text (config_quoted ''local_game_bridge'') 0;
       open_q \<leftarrow> str_find text [chr_quote] (k + length (config_quoted ''local_game_bridge''));
       close_q \<leftarrow> str_find text [chr_quote] (open_q + 1);
       port_of (after_last_colon (str_substr text (open_q + 1) (close_q - open_q - 1)))
     }"

fun port_from_dirs :: "files \<Rightarrow> string list \<Rightarrow> u16 option" where
  "port_from_dirs files [] = None"
| "port_from_dirs files (d # ds) =
     (if d = [] then port_from_dirs files ds
      else case Option.bind (files d) bridge_setting of
             Some p \<Rightarrow> Some p | None \<Rightarrow> port_from_dirs files ds)"

definition resolve_bridge_base_port :: "string option \<Rightarrow> files \<Rightarrow> string list \<Rightarrow> u16 \<Rightarrow> u16" where
  "resolve_bridge_base_port env files dirs fallback =
     (case Option.bind env port_of of
        Some p \<Rightarrow> p
      | None \<Rightarrow> (case port_from_dirs files dirs of Some p \<Rightarrow> p | None \<Rightarrow> fallback))"

function skip_colon_blanks :: "string \<Rightarrow> nat \<Rightarrow> nat" where
  "skip_colon_blanks text i =
     (if i < length text \<and> (text ! i = CHR '' '' \<or> text ! i = CHR '':'' \<or> text ! i = chr_tab)
      then skip_colon_blanks text (i + 1) else i)"
  by pat_completeness auto
termination by (relation "measure (\<lambda>(text, i). length text - i)") auto

declare skip_colon_blanks.simps [simp del]

definition config_disables_autostart :: "files \<Rightarrow> string list \<Rightarrow> bool" where
  "config_disables_autostart files dirs =
     (case first_config files dirs of
        None \<Rightarrow> False
      | Some text \<Rightarrow>
          (case str_find text (config_quoted ''autostart'') 0 of
             None \<Rightarrow> False
           | Some k \<Rightarrow>
               str_compare_eq text (skip_colon_blanks text (k + length (config_quoted ''autostart''))) 5 ''false''))"

section \<open>The launcher\<close>

definition SPAWN_RETRY_INTERVAL_MS :: u64 where "SPAWN_RETRY_INTERVAL_MS = 10000"

record launcher =
  last_spawn_port :: u16
  child :: "nat option"
  last_spawn_ms :: u64
  spawn_disabled :: bool
  logged_reuse :: bool

text \<open>\<open>no_autostart\<close> is whether \<^verbatim>\<open>MESHGHOST_NO_AUTOSTART\<close> is set.\<close>

definition new_launcher :: "bool \<Rightarrow> files \<Rightarrow> string list \<Rightarrow> launcher" where
  "new_launcher no_autostart files dirs =
     \<lparr>last_spawn_port = 0, child = None, last_spawn_ms = 0,
      spawn_disabled = (no_autostart \<or> config_disables_autostart files dirs), logged_reuse = False\<rparr>"

text \<open>What the launcher does to processes: start a core, let go of one, stop one.\<close>

datatype launch_action = Spawn u16 | Release nat | Terminate nat

text \<open>\<open>alive\<close>: whether a wait on the child's handle times out.\<close>

definition child_still_running :: "(nat \<Rightarrow> bool) \<Rightarrow> launcher \<Rightarrow> bool" where
  "child_still_running alive l = (case child l of None \<Rightarrow> False | Some h \<Rightarrow> alive h)"

definition child_port :: "(nat \<Rightarrow> bool) \<Rightarrow> launcher \<Rightarrow> u16" where
  "child_port alive l = (if child_still_running alive l then last_spawn_port l else 0)"

definition terminate_child :: "(nat \<Rightarrow> bool) \<Rightarrow> launcher \<Rightarrow> launch_action list \<times> launcher" where
  "terminate_child alive l =
     (case child l of
        None \<Rightarrow> ([], l)
      | Some h \<Rightarrow> ((if child_still_running alive l then [Terminate h] else []) @ [Release h], l\<lparr>child := None\<rparr>))"

definition tick_connected :: "launcher \<Rightarrow> launcher" where
  "tick_connected l = (if child l = None \<and> \<not> logged_reuse l then l\<lparr>logged_reuse := True\<rparr> else l)"

text \<open>
  \<^verbatim>\<open>tick_disconnected\<close>. The child is waited on twice and may end in between, so there are two
  answers; \<open>exe\<close> is whether \<^verbatim>\<open>meshghost.exe\<close> was found, \<open>started\<close> the handle if the process started.
\<close>

record launch_answers =
  alive_first :: "nat \<Rightarrow> bool"
  alive_then :: "nat \<Rightarrow> bool"
  now_ms :: u64
  exe_found :: bool
  started :: "nat option"

definition disown_busy_child :: "(nat \<Rightarrow> bool) \<Rightarrow> u16 \<Rightarrow> launcher \<Rightarrow> launch_action list \<times> launcher" where
  "disown_busy_child alive busy_port l =
     (if child_still_running alive l \<and> last_spawn_port l \<noteq> 0 \<and> busy_port = last_spawn_port l
      then (map Release (case child l of None \<Rightarrow> [] | Some h \<Rightarrow> [h]), l\<lparr>child := None\<rparr>)
      else ([], l))"

definition spawn_core :: "launch_answers \<Rightarrow> u16 \<Rightarrow> launcher \<Rightarrow> launch_action list \<times> launcher" where
  "spawn_core a spawn_port l =
     (if spawn_port = last_spawn_port l \<and> last_spawn_ms l \<noteq> 0 \<and>
         now_ms a - last_spawn_ms l < SPAWN_RETRY_INTERVAL_MS
      then ([], l)
      else if \<not> exe_found a then ([], l\<lparr>spawn_disabled := True\<rparr>)
      else
        let l = l\<lparr>last_spawn_ms := now_ms a, last_spawn_port := spawn_port\<rparr> in
        case started a of
          None \<Rightarrow> ([Spawn spawn_port], l)
        | Some h \<Rightarrow> ([Spawn spawn_port], l\<lparr>child := Some h\<rparr>))"

definition tick_disconnected :: "launch_answers \<Rightarrow> u16 \<Rightarrow> u16 \<Rightarrow> launcher \<Rightarrow> launch_action list \<times> launcher" where
  "tick_disconnected a spawn_port busy_port l =
     (if spawn_disabled l then ([], l)
      else
        case disown_busy_child (alive_first a) busy_port l of
          (acts, l) \<Rightarrow>
            if child_still_running (alive_then a) l then (acts, l)
            else (case spawn_core a spawn_port l of (acts', l') \<Rightarrow> (acts @ acts', l')))"

end
