(* ===== verification/Launcher_Props.thy ===== *)
theory Launcher_Props
  imports Launcher
begin

text \<open>
  What the launcher guarantees: at most one core per game, a cool-down between starts on one port,
  no start at all when told not to, no process touched that it did not start; and what the
  configuration readers return.
\<close>

section \<open>One tick\<close>

lemma disown_cases:
  "disown_busy_child alive bp l =
     (case child l of
        None \<Rightarrow> ([], l)
      | Some h \<Rightarrow> if alive h \<and> last_spawn_port l \<noteq> 0 \<and> bp = last_spawn_port l
                  then ([Release h], l\<lparr>child := None\<rparr>) else ([], l))"
  by (auto simp: disown_busy_child_def child_still_running_def split: option.splits)

lemma tick_disconnected_acts:
  "set (fst (tick_disconnected a sp bp l)) \<subseteq> {Spawn sp} \<union> Release ` set_option (child l)"
  by (auto simp: tick_disconnected_def disown_cases spawn_core_def Let_def split: option.splits if_splits)

text \<open>
  One core per game. A disconnected tick starts at most one core, on the port it was
  given, only with starting enabled and the client present; and if the launcher still held a core,
  that core had ended, or its port had answered busy to another game and the launcher has let go of
  it without stopping it.
\<close>

theorem spawn_only_without_child:
  assumes "Spawn p \<in> set (fst (tick_disconnected a sp bp l))"
  shows "p = sp \<and> \<not> spawn_disabled l \<and> exe_found a \<and>
    length (filter (\<lambda>x. x = Spawn p) (fst (tick_disconnected a sp bp l))) = 1 \<and>
    (case child l of
       None \<Rightarrow> True
     | Some h \<Rightarrow> \<not> alive_then a h \<or>
         (alive_first a h \<and> bp = last_spawn_port l \<and> Release h \<in> set (fst (tick_disconnected a sp bp l)))) \<and>
    (\<forall>h. Terminate h \<notin> set (fst (tick_disconnected a sp bp l)))"
  using assms
  by (auto simp: tick_disconnected_def disown_cases spawn_core_def child_still_running_def Let_def
        split: option.splits if_splits)

section \<open>Runs\<close>

datatype launch_event = Disconnected launch_answers u16 u16 | Connected

fun launch_step :: "launch_event \<Rightarrow> launcher \<Rightarrow> (u64 \<times> launch_action) list \<times> launcher" where
  "launch_step (Disconnected a sp bp) l =
     (case tick_disconnected a sp bp l of (acts, l') \<Rightarrow> (map (Pair (now_ms a)) acts, l'))"
| "launch_step Connected l = ([], tick_connected l)"

fun launch_run :: "launch_event list \<Rightarrow> launcher \<Rightarrow> (u64 \<times> launch_action) list \<times> launcher" where
  "launch_run [] l = ([], l)"
| "launch_run (e # es) l =
     (case launch_step e l of (xs, l') \<Rightarrow> (case launch_run es l' of (ys, l'') \<Rightarrow> (xs @ ys, l'')))"

lemma launch_run_Cons:
  "launch_run (e # es) l =
     (fst (launch_step e l) @ fst (launch_run es (snd (launch_step e l))), snd (launch_run es (snd (launch_step e l))))"
  by (simp split: prod.splits)

declare launch_run.simps(2) [simp del] and launch_run_Cons [simp]

fun spawns :: "(u64 \<times> launch_action) list \<Rightarrow> (u64 \<times> u16) list" where
  "spawns [] = []"
| "spawns ((t, Spawn p) # xs) = (t, p) # spawns xs"
| "spawns (_ # xs) = spawns xs"

lemma spawns_append: "spawns (xs @ ys) = spawns xs @ spawns ys"
  by (induction xs rule: spawns.induct) auto

text \<open>Neighbouring starts on one port are the interval apart (a stamp of 0 counts as none).\<close>

fun spaced :: "(u64 \<times> u16) list \<Rightarrow> bool" where
  "spaced ((t, p) # (t', p') # xs) \<longleftrightarrow>
     (p = p' \<and> t \<noteq> 0 \<longrightarrow> SPAWN_RETRY_INTERVAL_MS \<le> t' - t) \<and> spaced ((t', p') # xs)"
| "spaced _ \<longleftrightarrow> True"

definition spawn_rule :: "launch_answers \<Rightarrow> u16 \<Rightarrow> launcher \<Rightarrow> launch_action list \<times> launcher \<Rightarrow> bool" where
  "spawn_rule a sp l r \<longleftrightarrow>
     spawns (map (Pair (now_ms a)) (fst r)) = [] \<and>
       last_spawn_port (snd r) = last_spawn_port l \<and> last_spawn_ms (snd r) = last_spawn_ms l \<or>
     spawns (map (Pair (now_ms a)) (fst r)) = [(now_ms a, sp)] \<and>
       last_spawn_port (snd r) = sp \<and> last_spawn_ms (snd r) = now_ms a \<and>
       (sp = last_spawn_port l \<and> last_spawn_ms l \<noteq> 0 \<longrightarrow> SPAWN_RETRY_INTERVAL_MS \<le> now_ms a - last_spawn_ms l)"

lemma spawn_core_rule: "spawn_rule a sp l (spawn_core a sp l)"
  by (cases "started a") (auto simp: spawn_rule_def spawn_core_def Let_def not_less)

lemma disown_quiet:
  assumes "disown_busy_child alive bp l = (acts, l')"
  shows "spawns (map (Pair t) acts) = []" and "last_spawn_port l' = last_spawn_port l" and "last_spawn_ms l' = last_spawn_ms l"
  using assms by (auto simp: disown_cases split: option.splits if_splits)

lemma tick_disconnected_spawns: "spawn_rule a sp l (tick_disconnected a sp bp l)"
proof -
  obtain acts l' where d: "disown_busy_child (alive_first a) bp l = (acts, l')" by force
  obtain acts' l'' where c: "spawn_core a sp l' = (acts', l'')" by force
  show ?thesis
    using spawn_core_rule [of a sp l'] disown_quiet [OF d]
    by (simp add: tick_disconnected_def d c spawn_rule_def spawns_append)
qed

lemma run_spaced:
  "spaced ((last_spawn_ms l, last_spawn_port l) # spawns (fst (launch_run es l)))"
proof (induction es arbitrary: l)
  case Nil
  show ?case by simp
next
  case (Cons e es)
  show ?case
  proof (cases e)
    case Connected
    then show ?thesis using Cons [of "tick_connected l"] by (auto simp: tick_connected_def split: if_splits)
  next
    case (Disconnected a sp bp)
    have st: "fst (launch_step e l) = map (Pair (now_ms a)) (fst (tick_disconnected a sp bp l))"
      "snd (launch_step e l) = snd (tick_disconnected a sp bp l)"
      by (simp_all add: Disconnected split: prod.splits)
    show ?thesis
      using tick_disconnected_spawns [of a sp l bp, unfolded spawn_rule_def] Cons [of "snd (tick_disconnected a sp bp l)"]
      by (elim disjE conjE) (simp_all add: st spawns_append)
  qed
qed

lemma spaced_tail: "spaced (x # xs) \<Longrightarrow> spaced xs"
  by (cases x; cases xs) auto

text \<open>
  No spawn loop. In every run of the launcher, whatever the processes and the file system
  do, two consecutive starts on the same port are at least ten seconds apart.
\<close>

theorem launches_spaced: "spaced (spawns (fst (launch_run es l)))"
  using spaced_tail [OF run_spaced] .

lemma run_disabled: "spawn_disabled l \<Longrightarrow> fst (launch_run es l) = [] \<and> spawn_disabled (snd (launch_run es l))"
proof (induction es arbitrary: l)
  case (Cons e es)
  then show ?case
    by (cases e) (auto simp: tick_disconnected_def tick_connected_def split: if_splits prod.splits)
qed simp

text \<open>
  Autostart off means off. When \<^verbatim>\<open>MESHGHOST_NO_AUTOSTART\<close> is set, or the first
  \<^verbatim>\<open>config.json\<close> found turns autostart off, no run of the launcher ever starts, releases or stops a
  process.
\<close>

theorem autostart_off_never_spawns:
  assumes "no_autostart \<or> config_disables_autostart files dirs"
  shows "fst (launch_run es (new_launcher no_autostart files dirs)) = [] \<and>
         fst (terminate_child alive (snd (launch_run es (new_launcher no_autostart files dirs)))) = []"
proof -
  have d: "spawn_disabled (new_launcher no_autostart files dirs)" using assms by (simp add: new_launcher_def)
  have "child (snd (launch_run es l)) = child l" if "spawn_disabled l" for es l
    using that
  proof (induction es arbitrary: l)
    case (Cons e es)
    then show ?case by (cases e) (auto simp: tick_disconnected_def tick_connected_def split: if_splits prod.splits)
  qed simp
  then have "child (snd (launch_run es (new_launcher no_autostart files dirs))) = None"
    using d by (simp add: new_launcher_def)
  with run_disabled [OF d] show ?thesis by (simp add: terminate_child_def)
qed

text \<open>The handles of the cores a run started.\<close>

fun started_in :: "launch_event list \<Rightarrow> nat set" where
  "started_in [] = {}"
| "started_in (Disconnected a sp bp # es) = set_option (started a) \<union> started_in es"
| "started_in (Connected # es) = started_in es"

lemma tick_disconnected_child:
  "set_option (child (snd (tick_disconnected a sp bp l))) \<subseteq> set_option (child l) \<union> set_option (started a)"
  by (auto simp: tick_disconnected_def disown_cases spawn_core_def Let_def split: option.splits if_splits)

lemma run_touches:
  "((t, Release h) \<in> set (fst (launch_run es l)) \<longrightarrow> child l = Some h \<or> h \<in> started_in es) \<and>
   (child (snd (launch_run es l)) = Some h \<longrightarrow> child l = Some h \<or> h \<in> started_in es) \<and>
   (t, Terminate h) \<notin> set (fst (launch_run es l))"
proof (induction es arbitrary: l)
  case (Cons e es)
  show ?case
  proof (cases e)
    case (Disconnected a sp bp)
    have st: "fst (launch_step e l) = map (Pair (now_ms a)) (fst (tick_disconnected a sp bp l))"
      "snd (launch_step e l) = snd (tick_disconnected a sp bp l)"
      by (simp_all add: Disconnected split: prod.splits)
    have a: "x \<in> set (fst (tick_disconnected a sp bp l)) \<Longrightarrow> x = Spawn sp \<or> (\<exists>h. child l = Some h \<and> x = Release h)" for x
      using tick_disconnected_acts [of a sp bp l] by auto
    have c: "child (snd (tick_disconnected a sp bp l)) = Some h \<Longrightarrow> child l = Some h \<or> started a = Some h"
      using tick_disconnected_child [of a sp bp l] by auto
    show ?thesis
      using Cons [of "snd (tick_disconnected a sp bp l)"] c a [of "Release h"] a [of "Terminate h"]
      by (simp add: st) (auto simp: Disconnected)
  next
    case Connected
    then show ?thesis using Cons [of "tick_connected l"] by (auto simp: tick_connected_def split: if_splits)
  qed
qed simp

text \<open>
  Only its own. Every process the launcher lets go of during a run, and the only process
  it stops when it is destroyed, is one it started itself in that run; while running it stops none.
\<close>

theorem launcher_touches_own_cores:
  "let (acts, l) = launch_run es (new_launcher no_autostart files dirs) in
   (\<forall>t h. (t, Release h) \<in> set acts \<longrightarrow> h \<in> started_in es) \<and>
   (\<forall>t h. (t, Terminate h) \<notin> set acts) \<and>
   set (fst (terminate_child alive l)) \<subseteq> Release ` started_in es \<union> Terminate ` started_in es"
proof -
  have "child (new_launcher no_autostart files dirs) = None" by (simp add: new_launcher_def)
  note r = run_touches [of _ _ es "new_launcher no_autostart files dirs", unfolded this]
  have "set (fst (terminate_child alive (snd (launch_run es (new_launcher no_autostart files dirs)))))
      \<subseteq> Release ` started_in es \<union> Terminate ` started_in es"
    using r by (auto simp: terminate_child_def split: option.splits if_splits)
  with r show ?thesis by (simp add: case_prod_beta)
qed

section \<open>Paths and configuration\<close>

text \<open>The documented answer: as much of the full path as fits.\<close>

definition documented_answer :: "string \<Rightarrow> nat \<Rightarrow> string" where
  "documented_answer full n = take n full"

lemma module_path_returns:
  assumes "0 < n"
  shows "module_path (documented_answer full) n = Some full"
  using assms
proof (induction "length full + 1 - n" arbitrary: n rule: less_induct)
  case less
  show ?case
  proof (cases "length full < n")
    case True
    then show ?thesis by (simp add: module_path.simps [of _ n] documented_answer_def Let_def)
  next
    case False
    then have "module_path (documented_answer full) (n * 2) = Some full"
      using less.prems by (intro less.hyps) auto
    then show ?thesis using False less.prems
      by (simp add: module_path.simps [of _ n] documented_answer_def Let_def)
  qed
qed

definition no_separator :: "string \<Rightarrow> bool" where
  "no_separator s \<longleftrightarrow> (\<forall>c \<in> set s. \<not> is_separator c)"

lemma parent_dir_join:
  assumes "no_separator s" and "is_separator c"
  shows "parent_dir (d @ c # s) = Some d"
proof -
  have "dropWhile (\<lambda>c. \<not> is_separator c) (rev s @ c # rev d) = c # rev d"
    using assms by (subst dropWhile_append2) (auto simp: no_separator_def)
  then show ?thesis by (simp add: parent_dir_def)
qed

abbreviation joined :: "string \<Rightarrow> string \<Rightarrow> string" where
  "joined d s \<equiv> d @ chr_backslash # s"

text \<open>
  The game's root folder is found from any path length. For an executable at
  root, pseudoregalia, Binaries, Win64, exe (any names without separators), the buffer loop ends with
  the whole path whatever its length, and four steps up give exactly the root.
\<close>

theorem game_root_found:
  assumes "no_separator a" and "no_separator b" and "no_separator c" and "no_separator e"
  shows "map_option game_root_directory
           (module_path (documented_answer (joined (joined (joined (joined base a) b) c) e)) MAX_PATH) = Some base"
proof -
  have sep: "is_separator chr_backslash" by (simp add: is_separator_def)
  show ?thesis
    by (simp add: module_path_returns MAX_PATH_def game_root_directory_def numeral_eq_Suc
          parent_dir_join [OF assms(4) sep, where d = "joined (joined (joined base a) b) c", simplified]
          parent_dir_join [OF assms(3) sep, where d = "joined (joined base a) b", simplified]
          parent_dir_join [OF assms(2) sep, where d = "joined base a", simplified]
          parent_dir_join [OF assms(1) sep])
qed

theorem game_root_found_witness:
  "map_option game_root_directory
     (module_path (documented_answer (joined (joined (joined (joined ''C:/G'' ''p'') ''Binaries'') ''Win64'') ''p.exe'')) MAX_PATH)
   = Some ''C:/G''"
  by (rule game_root_found) (simp_all add: no_separator_def is_separator_def)

lemma port_of_nonzero: "port_of s = Some p \<Longrightarrow> p \<noteq> 0"
proof -
  assume "port_of s = Some p"
  then have n: "1 \<le> strtoul10 s" "strtoul10 s \<le> 65535" "p = of_nat (strtoul10 s)"
    by (auto simp: port_of_def Let_def split: if_splits)
  then have "unat p = strtoul10 s" by (simp add: unat_of_nat)
  with n(1) show ?thesis by auto
qed

lemma port_from_dirs_nonzero: "port_from_dirs files dirs = Some p \<Longrightarrow> p \<noteq> 0"
  by (induction files dirs rule: port_from_dirs.induct)
     (auto simp: bridge_setting_def bind_eq_Some_conv split: if_splits option.splits dest: port_of_nonzero)

text \<open>
  A typo in a port setting cannot stop the mod. The base port is always the environment's
  when that parses as 1 .. 65535, otherwise the configuration's when that does, otherwise the
  default, and never zero.
\<close>

theorem resolve_base_port:
  assumes "fallback \<noteq> 0"
  shows "resolve_bridge_base_port env files dirs fallback \<noteq> 0 \<and>
    resolve_bridge_base_port env files dirs fallback =
      (case Option.bind env port_of of Some p \<Rightarrow> p
       | None \<Rightarrow> (case port_from_dirs files dirs of Some p \<Rightarrow> p | None \<Rightarrow> fallback))"
  using assms
  by (auto simp: resolve_bridge_base_port_def split: option.splits bind_splits
        dest: port_of_nonzero port_from_dirs_nonzero)

theorem resolve_base_port_witness:
  "resolve_bridge_base_port (Some ''8000'') (\<lambda>_. None) [] 7778 = 8000"
  using resolve_base_port [of 7778 "Some ''8000''" "\<lambda>_. None" "[]"]
  by (simp add: port_of_def strtoul10_def c_str_def c_isspace_def is_digit_def digit_val_def digits_value_def byte_of_def)

text \<open>Calls of \<^verbatim>\<open>config_text\<close> one after the other: the time of each and the file's content then.\<close>

fun config_calls :: "(int \<times> string option) list \<Rightarrow> config_cache \<Rightarrow> (string \<times> bool) list" where
  "config_calls [] c = []"
| "config_calls ((now, content) # calls) c =
     (case config_text now content c of (r, c') \<Rightarrow> r # config_calls calls c')"

definition read_result :: "string option \<Rightarrow> string \<times> bool" where
  "read_result content = (case content of None \<Rightarrow> ([], False) | Some t \<Rightarrow> (t, True))"

definition fresh_cache :: config_cache where
  "fresh_cache = \<lparr>cached = [], cached_found = False, last_read = 0\<rparr>"

text \<open>The cache holds what the file was at some earlier call, and says when.\<close>

definition cache_from :: "(int \<times> string option) list \<Rightarrow> config_cache \<Rightarrow> bool" where
  "cache_from past c \<longleftrightarrow> last_read c = 0 \<or>
     (\<exists>content. (last_read c, content) \<in> set past \<and> (cached c, cached_found c) = read_result content)"

lemma config_text_from:
  assumes "cache_from past c"
  shows "cache_from ((now, content) # past) (snd (config_text now content c)) \<and>
    (\<exists>t content'. (t, content') \<in> set ((now, content) # past) \<and> fst (config_text now content c) = read_result content' \<and>
      (t = now \<or> now - t < CONFIG_CACHE_NS))"
proof (cases "last_read c = 0 \<or> now - last_read c \<ge> CONFIG_CACHE_NS")
  case True
  let ?r = "config_text now content c"
  have "fst ?r = read_result content" "last_read (snd ?r) = now" "(cached (snd ?r), cached_found (snd ?r)) = read_result content"
    using True by (cases content; simp add: config_text_def read_result_def)+
  then show ?thesis by (auto simp: cache_from_def)
next
  case False
  then have e: "config_text now content c = ((cached c, cached_found c), c)" by (simp add: config_text_def)
  from False assms obtain content' where p: "(last_read c, content') \<in> set past"
      "(cached c, cached_found c) = read_result content'"
    by (auto simp: cache_from_def)
  then have "cache_from ((now, content) # past) c" by (auto simp: cache_from_def)
  moreover have "(last_read c, content') \<in> set ((now, content) # past)" using p(1) by simp
  moreover have "now - last_read c < CONFIG_CACHE_NS" using False by simp
  ultimately show ?thesis using p(2) unfolding e fst_conv snd_conv by blast
qed

lemma config_calls_fresh:
  "cache_from past c \<Longrightarrow> i < length calls \<Longrightarrow>
   \<exists>t content. (t, content) \<in> set (take (Suc i) calls) \<union> set past \<and>
     config_calls calls c ! i = read_result content \<and> (t = fst (calls ! i) \<or> fst (calls ! i) - t < CONFIG_CACHE_NS)"
proof (induction calls arbitrary: c i past)
  case (Cons call calls)
  obtain now content where call: "call = (now, content)" by (cases call)
  note ct = config_text_from [OF Cons.prems(1), of now content]
  show ?case
  proof (cases i)
    case 0
    then show ?thesis using ct by (fastforce simp: call split: prod.splits)
  next
    case (Suc j)
    with Cons.prems(2) have "j < length calls" by simp
    from Cons.IH [OF ct [THEN conjunct1] this] show ?thesis
      by (fastforce simp: call Suc split: prod.splits)
  qed
qed simp

text \<open>
  The configuration stays live. In any sequence of calls, what \<^verbatim>\<open>config_text\<close> returns is
  what the file held at that call, or at an earlier one less than 250 ms before; it never mixes two
  readings and reports a missing file as missing.
\<close>

theorem config_text_fresh:
  assumes "i < length calls"
  shows "\<exists>t content. (t, content) \<in> set (take (Suc i) calls) \<and>
    config_calls calls fresh_cache ! i = read_result content \<and>
    (t = fst (calls ! i) \<or> fst (calls ! i) - t < CONFIG_CACHE_NS)"
  using config_calls_fresh [of "[]" fresh_cache i calls] assms by (auto simp: cache_from_def fresh_cache_def)

theorem config_text_fresh_witness:
  "\<exists>t content. (t, content) \<in> set (take 2 [(1, None), (249999999, Some ''{}'')]) \<and>
    config_calls [(1, None), (249999999, Some ''{}'')] fresh_cache ! 1 = read_result content"
  using config_text_fresh [of 1 "[(1, None), (249999999, Some ''{}'')]"] by (auto simp: numeral_2_eq_2)

section \<open>Concrete runs\<close>

definition starts_core :: "nat \<Rightarrow> launch_answers" where
  "starts_core h = \<lparr>alive_first = (\<lambda>_. True), alive_then = (\<lambda>_. True), now_ms = 5000, exe_found = True, started = Some h\<rparr>"

definition idle_launcher :: launcher where
  "idle_launcher = \<lparr>last_spawn_port = 0, child = None, last_spawn_ms = 0, spawn_disabled = False, logged_reuse = False\<rparr>"

theorem spawn_only_without_child_witness:
  "length (filter (\<lambda>x. x = Spawn 7779) (fst (tick_disconnected (starts_core 4) 7779 0 idle_launcher))) = 1"
proof -
  have "Spawn 7779 \<in> set (fst (tick_disconnected (starts_core 4) 7779 0 idle_launcher))"
    by (simp add: tick_disconnected_def disown_cases spawn_core_def child_still_running_def starts_core_def idle_launcher_def)
  from spawn_only_without_child [OF this] show ?thesis by simp
qed

theorem autostart_off_never_spawns_witness:
  "fst (launch_run [Disconnected (starts_core 4) 7779 0] (new_launcher True (\<lambda>_. None) [])) = []"
  using autostart_off_never_spawns [of True "\<lambda>_. None" "[]" "[Disconnected (starts_core 4) 7779 0]"] by simp

theorem launcher_touches_own_cores_witness:
  "(5000, Release 9) \<notin> set (fst (launch_run [Disconnected (starts_core 4) 7779 0] (new_launcher False (\<lambda>_. None) [])))"
proof
  let ?es = "[Disconnected (starts_core 4) 7779 0]"
  assume "(5000, Release 9) \<in> set (fst (launch_run ?es (new_launcher False (\<lambda>_. None) [])))"
  then have "9 \<in> started_in ?es"
    using launcher_touches_own_cores [of ?es False "\<lambda>_. None" "[]" "\<lambda>_. True"] by (metis (no_types, lifting) case_prod_beta')
  then show False by (simp add: starts_core_def)
qed

end
