(* ===== verification/Remote.thy ===== *)
theory Remote
  imports Json_Values
begin

text \<open>
  One remote player, \<^verbatim>\<open>Plugin.hpp\<close> \<^verbatim>\<open>RemoteGhost\<close>, and how a \<^verbatim>\<open>render_remote\<close> line updates it
  (\<^verbatim>\<open>Plugin::handle_bridge_line\<close>, its first branch). The C++ struct is one record of records here:
  where the ghost is, how it is animated, the peer's event counters and which of them have been
  seen, the projectile, the thrown weapon, and the latches of what was last written onto the pawn.
  Engine objects are handles (\<open>nat\<close>); fields of the development rig and of traces are left out.
\<close>

section \<open>State\<close>

type_synonym triple = "dbl \<times> dbl \<times> dbl"

record ghost_pose =
  target_pos :: triple
  target_rot :: triple
  target_ts :: dbl

record ghost_anim =
  target_move_state :: dbl
  target_action_state :: dbl
  target_h_speed :: dbl
  target_v_speed :: dbl
  target_anim_jump_type :: dbl
  target_movement_mode :: dbl
  target_capsule_half :: dbl
  last_shrunk_ms :: u64
  target_slide_t :: dbl
  target_weapon_equipped :: bool
  target_bubble_charged :: bool
  target_outfit_mesh :: string
  target_weapon_mesh :: string
  target_vfx :: string
  target_recall_glow :: bool
  target_shadow_visible :: bool
  target_afterimage_color :: triple
  afterimage_color_valid :: bool
  target_afterimage_spawn_n :: dbl
  target_montage :: string

record ghost_counts =
  land_count :: dbl
  jump_count :: dbl
  montage_count :: dbl
  montage_stop_count :: dbl
  blink_count :: int
  death_count :: int
  hurt_count :: int
  afterimage_count :: dbl

record ghost_projectile =
  projectile_active :: bool
  projectile_vfx :: string
  projectile_pos :: triple
  projectile_rot :: triple

record ghost_weapon =
  weapon_thrown :: bool
  weapon_class :: string
  weapon_glow :: string
  weapon_pos :: triple
  weapon_rot :: triple
  weapon_state :: dbl
  weapon_bounce :: dbl

text \<open>What was last written onto the pawn; a replacement pawn must start from a clean set.\<close>

record ghost_latches =
  weapon_equip_call_armed :: bool
  last_synced_weapon_equipped :: bool
  last_synced_outfit_mesh :: string
  last_failed_outfit_mesh :: string
  last_synced_weapon_mesh :: string
  last_failed_weapon_mesh :: string
  weapon_hand_hidden :: bool
  recall_glow_shown :: bool
  recall_glow_swept :: bool
  nametag_component :: "nat option"
  nametag_applied_name :: string
  nametag_applied_color :: string
  nametag_plate_applied_color :: string
  nametag_plate_has_color :: bool
  nametag_create_failed :: bool
  crouch_event_shrunk :: bool
  crouch_input_shrunk :: bool
  crouch_half_height_adjust :: dbl
  ghost_bubble_flash_on :: bool
  last_applied_shadow_visible :: int
  chaser_contact_overlapping :: bool
  last_outfit_attempt_tick :: u64
  last_weapon_mesh_attempt_tick :: u64
  last_failed_montage :: string
  last_montage_warn_tick :: u64

record remote_ghost =
  ghost :: "nat option"
  owning_world :: "nat option"
  distance_tier :: nat
  spawned_at_tick :: u64
  pose :: ghost_pose
  anim :: ghost_anim
  counts :: ghost_counts
  seen :: ghost_counts
  landed_hold_ticks :: nat
  jumped_hold_ticks :: nat
  projectile :: ghost_projectile
  weapon :: ghost_weapon
  latches :: ghost_latches

abbreviation zero3 :: triple where "zero3 \<equiv> (Fin 0, Fin 0, Fin 0)"

definition new_counts :: ghost_counts where
  "new_counts = \<lparr>land_count = Fin 0, jump_count = Fin 0, montage_count = Fin 0, montage_stop_count = Fin 0,
     blink_count = 0, death_count = 0, hurt_count = 0, afterimage_count = Fin 0\<rparr>"

definition new_latches :: ghost_latches where
  "new_latches = \<lparr>weapon_equip_call_armed = False, last_synced_weapon_equipped = False,
     last_synced_outfit_mesh = [], last_failed_outfit_mesh = [], last_synced_weapon_mesh = [],
     last_failed_weapon_mesh = [], weapon_hand_hidden = False, recall_glow_shown = False,
     recall_glow_swept = False, nametag_component = None, nametag_applied_name = [],
     nametag_applied_color = [], nametag_plate_applied_color = [], nametag_plate_has_color = False,
     nametag_create_failed = False, crouch_event_shrunk = False, crouch_input_shrunk = False,
     crouch_half_height_adjust = Fin 0, ghost_bubble_flash_on = False, last_applied_shadow_visible = - 1,
     chaser_contact_overlapping = False, last_outfit_attempt_tick = 0, last_weapon_mesh_attempt_tick = 0,
     last_failed_montage = [], last_montage_warn_tick = 0\<rparr>"

text \<open>A default-constructed entry.\<close>

definition new_remote :: remote_ghost where
  "new_remote = \<lparr>ghost = None, owning_world = None, distance_tier = 0, spawned_at_tick = 0,
     pose = \<lparr>target_pos = zero3, target_rot = zero3, target_ts = Fin 0\<rparr>,
     anim = \<lparr>target_move_state = Fin 0, target_action_state = Fin 0, target_h_speed = Fin 0,
       target_v_speed = Fin 0, target_anim_jump_type = Fin 0, target_movement_mode = Fin 0,
       target_capsule_half = Fin 0, last_shrunk_ms = 0, target_slide_t = Fin 1,
       target_weapon_equipped = False, target_bubble_charged = False, target_outfit_mesh = [],
       target_weapon_mesh = [], target_vfx = [], target_recall_glow = False,
       target_shadow_visible = True, target_afterimage_color = zero3, afterimage_color_valid = False,
       target_afterimage_spawn_n = Fin 0, target_montage = []\<rparr>,
     counts = new_counts, seen = new_counts, landed_hold_ticks = 0, jumped_hold_ticks = 0,
     projectile = \<lparr>projectile_active = False, projectile_vfx = [], projectile_pos = zero3, projectile_rot = zero3\<rparr>,
     weapon = \<lparr>weapon_thrown = False, weapon_class = [], weapon_glow = [], weapon_pos = zero3,
       weapon_rot = zero3, weapon_state = Fin 0, weapon_bounce = Fin 0\<rparr>,
     latches = new_latches\<rparr>"

definition GHOST_STANDING_CAPSULE_HALF :: rat where "GHOST_STANDING_CAPSULE_HALF = 65"
definition SLIDE_SEAM_HOLD_MS :: u64 where "SLIDE_SEAM_HOLD_MS = 200"
definition ROTATION_INTERP_MAX_T :: rat where "ROTATION_INTERP_MAX_T = 10"
definition LOOPBACK_GHOST_OFFSET_X :: rat where "LOOPBACK_GHOST_OFFSET_X = 150"
definition LOOPBACK_GHOST_OFFSET_Z :: rat where "LOOPBACK_GHOST_OFFSET_Z = 0"

section \<open>Reading a sample\<close>

text \<open>The spans of the payload, the state and the extras; absent extras are the empty span.\<close>

record render_spans =
  payload_span :: "nat \<times> nat"
  state_span :: "nat \<times> nat"
  extras_span :: "nat \<times> nat"

definition render_scopes :: "string \<Rightarrow> render_spans option" where
  "render_scopes line =
     (case json_root_body line of
        None \<Rightarrow> None
      | Some (rb, re) \<Rightarrow>
     (case json_object_member line rb re ''payload'' of
        None \<Rightarrow> None
      | Some (pb, pe) \<Rightarrow>
     (case json_object_member line pb pe ''state'' of
        None \<Rightarrow> None
      | Some (sb, se) \<Rightarrow>
          Some \<lparr>payload_span = (pb, pe), state_span = (sb, se),
                extras_span = (case json_object_member line sb se ''extras'' of None \<Rightarrow> (0, 0) | Some x \<Rightarrow> x)\<rparr>)))"

definition member_num :: "string \<Rightarrow> nat \<times> nat \<Rightarrow> string \<Rightarrow> dbl \<Rightarrow> dbl" where
  "member_num line sp key dflt =
     (case json_number_member line (fst sp) (snd sp) key of None \<Rightarrow> dflt | Some x \<Rightarrow> x)"

abbreviation member_str :: "string \<Rightarrow> nat \<times> nat \<Rightarrow> string \<Rightarrow> string" where
  "member_str line sp key \<equiv> json_string_member line (fst sp) (snd sp) key"

definition member_vec :: "string \<Rightarrow> nat \<times> nat \<Rightarrow> string \<Rightarrow> bool \<times> triple" where
  "member_vec line sp key = json_vec3_member line (fst sp) (snd sp) key zero3"

definition finite3 :: "triple \<Rightarrow> bool" where
  "finite3 v = (case v of (a, b, c) \<Rightarrow> isfinite a \<and> isfinite b \<and> isfinite c)"

text \<open>A triple that is sent and finite.\<close>

definition finite_vec :: "string \<Rightarrow> nat \<times> nat \<Rightarrow> string \<Rightarrow> triple option" where
  "finite_vec line sp key = (case member_vec line sp key of (ok, v) \<Rightarrow> if ok \<and> finite3 v then Some v else None)"

definition num_true :: "dbl \<Rightarrow> bool" where
  "num_true x = dbl_ne x (Fin 0)"

text \<open>The facing: raw (best-effort, 0 when not finite), or interpolated when the bracket came whole.\<close>

definition raw_orientation :: "string \<Rightarrow> nat \<times> nat \<Rightarrow> triple" where
  "raw_orientation line sp =
     (let v = snd (member_vec line sp ''orientation'') in if finite3 v then v else zero3)"

definition clamp_interp_t :: "dbl \<Rightarrow> dbl" where
  "clamp_interp_t t =
     (if dbl_less t (Fin 0) then Fin 0
      else if dbl_less (Fin ROTATION_INTERP_MAX_T) t then Fin ROTATION_INTERP_MAX_T else t)"

definition lerp3 :: "triple \<Rightarrow> triple \<Rightarrow> dbl \<Rightarrow> triple" where
  "lerp3 from_rot to_rot t =
     (case from_rot of (a, b, c) \<Rightarrow> case to_rot of (a', b', c') \<Rightarrow>
        (lerp_angle_deg a a' t, lerp_angle_deg b b' t, lerp_angle_deg c c' t))"

definition render_orientation :: "string \<Rightarrow> render_spans \<Rightarrow> triple" where
  "render_orientation line sp =
     (case (finite_vec line (payload_span sp) ''orientation_from'',
            finite_vec line (payload_span sp) ''orientation_to'',
            json_number_member line (fst (payload_span sp)) (snd (payload_span sp)) ''interp_t'') of
        (Some from_rot, Some to_rot, Some t) \<Rightarrow>
          if isfinite t then lerp3 from_rot to_rot (clamp_interp_t t)
          else raw_orientation line (state_span sp)
      | _ \<Rightarrow> raw_orientation line (state_span sp))"

definition SPEED_LIMIT :: rat where "SPEED_LIMIT = 1000000"

definition bounded_speed :: "dbl \<Rightarrow> dbl" where
  "bounded_speed v =
     (if \<not> isfinite v \<or> dbl_less v (Fin (- SPEED_LIMIT)) \<or> dbl_less (Fin SPEED_LIMIT) v then Fin 0 else v)"

text \<open>The player and position a line must have to be applied at all.\<close>

definition render_head :: "string \<Rightarrow> (string \<times> triple \<times> render_spans) option" where
  "render_head line =
     (case render_scopes line of
        None \<Rightarrow> None
      | Some sp \<Rightarrow>
          let player_id = member_str line (payload_span sp) ''player_id'' in
          if player_id = [] then None
          else (case finite_vec line (state_span sp) ''position'' of
                  None \<Rightarrow> None | Some p \<Rightarrow> Some (player_id, p, sp)))"

section \<open>Applying a sample\<close>

definition ghost_suffix :: string where "ghost_suffix = ''-ghost''"

definition is_loopback :: "string \<Rightarrow> bool" where
  "is_loopback player_id \<longleftrightarrow>
     length ghost_suffix \<le> length player_id \<and>
     str_compare_eq player_id (length player_id - length ghost_suffix) (length ghost_suffix) ghost_suffix"

definition loopback_offset :: "string \<Rightarrow> dbl \<times> dbl" where
  "loopback_offset player_id =
     (if is_loopback player_id then (Fin LOOPBACK_GHOST_OFFSET_X, Fin LOOPBACK_GHOST_OFFSET_Z) else (Fin 0, Fin 0))"

text \<open>\<open>dz\<close> is added after the slide compensation, which ships as 0.\<close>

definition offset3 :: "dbl \<times> dbl \<Rightarrow> triple \<Rightarrow> triple" where
  "offset3 off v = (case v of (x, y, z) \<Rightarrow> (dbl_add x (fst off), y, dbl_add z (snd off)))"

definition apply_pose :: "string \<Rightarrow> render_spans \<Rightarrow> string \<Rightarrow> triple \<Rightarrow> ghost_pose \<Rightarrow> ghost_pose" where
  "apply_pose line sp player_id p g =
     g\<lparr>target_pos := offset3 (loopback_offset player_id) (case p of (x, y, z) \<Rightarrow> (x, y, dbl_add z (Fin 0))),
       target_rot := render_orientation line sp,
       target_ts := (case json_number_member line (fst (state_span sp)) (snd (state_span sp)) ''timestamp'' of
                       None \<Rightarrow> target_ts g | Some ts \<Rightarrow> if isfinite ts then ts else target_ts g)\<rparr>"

definition is_shrunk :: "dbl \<Rightarrow> bool" where
  "is_shrunk h \<longleftrightarrow> dbl_less (Fin 0) h \<and> dbl_less h (Fin GHOST_STANDING_CAPSULE_HALF)"

text \<open>The slide-seam hold.\<close>

definition apply_capsule :: "u64 \<Rightarrow> dbl \<Rightarrow> ghost_anim \<Rightarrow> ghost_anim" where
  "apply_capsule now_ms capsule_half g =
     (if is_shrunk capsule_half then g\<lparr>last_shrunk_ms := now_ms, target_capsule_half := capsule_half\<rparr>
      else if last_shrunk_ms g \<noteq> 0 \<and> now_ms - last_shrunk_ms g < SLIDE_SEAM_HOLD_MS \<and>
              is_shrunk (target_capsule_half g) then g
      else g\<lparr>target_capsule_half := capsule_half\<rparr>)"

definition clamp_color :: "triple \<Rightarrow> triple" where
  "clamp_color c = (case c of (r, g, b) \<Rightarrow>
     (clamp_to_float r (- 1024) 1024, clamp_to_float g (- 1024) 1024, clamp_to_float b (- 1024) 1024))"

definition keep_if_empty :: "string \<Rightarrow> string \<Rightarrow> string" where
  "keep_if_empty new old = (if new = [] then old else new)"

definition apply_anim :: "string \<Rightarrow> nat \<times> nat \<Rightarrow> u64 \<Rightarrow> ghost_anim \<Rightarrow> ghost_anim" where
  "apply_anim line x now_ms g =
     (let g = apply_capsule now_ms (member_num line x ''capsule_half'' (Fin 0))
                (g\<lparr>target_move_state := member_num line x ''move_state'' (Fin 0),
                   target_action_state := member_num line x ''action_state'' (Fin 0),
                   target_h_speed := bounded_speed (member_num line x ''h_speed'' (Fin 0)),
                   target_v_speed := bounded_speed (member_num line x ''v_speed'' (Fin 0)),
                   target_anim_jump_type := member_num line x ''anim_jump_type'' (Fin 0),
                   target_movement_mode := member_num line x ''movement_mode'' (Fin 0),
                   target_afterimage_spawn_n := member_num line x ''afterimage_n'' (Fin 0)\<rparr>);
          g = g\<lparr>target_slide_t := member_num line x ''slide_t'' (Fin 1)\<rparr>;
          g = (case member_vec line x ''afterimage_color'' of
                 (True, c) \<Rightarrow> g\<lparr>target_afterimage_color := clamp_color c, afterimage_color_valid := True\<rparr>
               | (False, _) \<Rightarrow> g)
      in g\<lparr>target_weapon_equipped := num_true (member_num line x ''weapon_equipped'' (Fin 0)),
           target_bubble_charged := num_true (member_num line x ''bubble_charged'' (Fin 0)),
           target_outfit_mesh := keep_if_empty (member_str line x ''outfit_mesh'') (target_outfit_mesh g),
           target_weapon_mesh := keep_if_empty (member_str line x ''weapon_mesh'') (target_weapon_mesh g),
           target_vfx := member_str line x ''vfx'',
           target_montage := member_str line x ''montage'',
           target_shadow_visible := num_true (member_num line x ''shadow_on'' (Fin 1)),
           target_recall_glow := num_true (member_num line x ''recall_glow'' (Fin 0))\<rparr>)"

definition peer_count :: "dbl \<Rightarrow> int" where
  "peer_count x = clamp_count_to_int x 0 1000000000 0"

definition read_counts :: "string \<Rightarrow> nat \<times> nat \<Rightarrow> ghost_counts" where
  "read_counts line x =
     \<lparr>land_count = member_num line x ''land_count'' (Fin 0),
      jump_count = member_num line x ''jump_count'' (Fin 0),
      montage_count = member_num line x ''montage_count'' (Fin 0),
      montage_stop_count = member_num line x ''montage_stop_count'' (Fin 0),
      blink_count = peer_count (member_num line x ''blink_count'' (Fin 0)),
      death_count = peer_count (member_num line x ''death_count'' (Fin 0)),
      hurt_count = peer_count (member_num line x ''hurt_count'' (Fin 0)),
      afterimage_count = member_num line x ''afterimage_count'' (Fin 0)\<rparr>"

definition apply_projectile :: "string \<Rightarrow> nat \<times> nat \<Rightarrow> dbl \<times> dbl \<Rightarrow> ghost_projectile \<Rightarrow> ghost_projectile" where
  "apply_projectile line x off g =
     (case (num_true (member_num line x ''prj'' (Fin 0)), finite_vec line x ''prj_pos'', finite_vec line x ''prj_rot'') of
        (True, Some p, Some r) \<Rightarrow>
          g\<lparr>projectile_active := True, projectile_vfx := member_str line x ''prj_vfx'',
            projectile_pos := offset3 off p, projectile_rot := r\<rparr>
      | _ \<Rightarrow> g\<lparr>projectile_active := False\<rparr>)"

definition apply_weapon :: "string \<Rightarrow> nat \<times> nat \<Rightarrow> dbl \<times> dbl \<Rightarrow> ghost_weapon \<Rightarrow> ghost_weapon" where
  "apply_weapon line x off g =
     (let thrown = num_true (member_num line x ''weapon_thrown'' (Fin 0));
          g = g\<lparr>weapon_thrown := thrown, weapon_bounce := member_num line x ''weapon_bounce'' (Fin 0)\<rparr>;
          g = (case (thrown, finite_vec line x ''weapon_pos'', finite_vec line x ''weapon_rot'') of
                 (True, Some p, Some r) \<Rightarrow>
                   g\<lparr>weapon_pos := offset3 off p, weapon_rot := r,
                     weapon_state := member_num line x ''weapon_state'' (Fin 0)\<rparr>
               | _ \<Rightarrow> g)
      in g\<lparr>weapon_class := keep_if_empty (member_str line x ''weapon_class'') (weapon_class g),
           weapon_glow := keep_if_empty (member_str line x ''weapon_glow'') (weapon_glow g)\<rparr>)"

text \<open>The whole update of an entry that exists; a new one has its counters baselined.\<close>

definition apply_sample :: "string \<Rightarrow> render_spans \<Rightarrow> string \<Rightarrow> triple \<Rightarrow> u64 \<Rightarrow> bool \<Rightarrow> remote_ghost \<Rightarrow> remote_ghost" where
  "apply_sample line sp player_id p now_ms is_new r =
     (let x = extras_span sp; off = loopback_offset player_id; c = read_counts line x;
          r = r\<lparr>pose := apply_pose line sp player_id p (pose r),
                anim := apply_anim line x now_ms (anim r),
                counts := c,
                projectile := apply_projectile line x off (projectile r),
                weapon := apply_weapon line x off (weapon r)\<rparr>
      in if is_new then r\<lparr>seen := c\<rparr> else r)"

end
