(* ===== verification/Bridge_Lines.thy ===== *)
theory Bridge_Lines
  imports Remote Json_Top
begin

text \<open>
  The game-thread state of the plugin that bridge lines act on, and \<^verbatim>\<open>Plugin::handle_bridge_line\<close>
  with the operations it calls: \<^verbatim>\<open>ensure_ghost_spawned\<close>, \<^verbatim>\<open>release_ghost\<close>. What the engine answers
  during a spawn is an argument; what is asked of the engine is a list of actions.
\<close>

section \<open>State\<close>

record input_edge =
  edge_f :: u64
  edge_t :: int
  edge_m :: u32
  edge_ax :: "dbl list"
  edge_at :: dbl

record input_track =
  track_labels :: "string list"
  track_axes :: "string list"
  track_source :: string
  track_edges :: "input_edge list"
  track_mask :: u32
  track_ax :: "dbl list"
  track_ax_n :: nat
  have_state :: bool
  track_dropped :: u32
  drop_logged :: bool
  applied_at_tick :: u64

definition new_track :: input_track where
  "new_track = \<lparr>track_labels = [], track_axes = [], track_source = [], track_edges = [], track_mask = 0,
     track_ax = replicate 8 (Fin 0), track_ax_n = 0, have_state = False, track_dropped = 0,
     drop_logged = False, applied_at_tick = 0\<rparr>"

record nametag =
  tag_name :: string
  tag_color :: string

record history_row =
  row_mask :: u32
  row_dir :: nat
  row_frames :: u64
  row_start_ms :: int
  row_last_ms :: int

record input_panel =
  panel_rows :: "history_row list"
  panel_text :: "nat list"

text \<open>
  What the player class's template objects say: \<^verbatim>\<open>AutoPossessPlayer\<close> on the class default object, the
  light component's \<^verbatim>\<open>ChildActorClass\<close>, the capsule's \<^verbatim>\<open>bGenerateOverlapEvents\<close>. Every later pawn of
  the class, the player's own included, is built from them.
\<close>

record class_templates =
  auto_possess_player :: nat
  light_child_class :: "nat option"
  capsule_overlaps :: bool

record game =
  templates :: class_templates
  remotes :: "string \<rightharpoonup> remote_ghost"
  ghost_inputs :: "string \<rightharpoonup> input_track"
  nametags :: "string \<rightharpoonup> nametag"
  hijacked_actors :: "nat set"
  recording_active :: bool
  recording_started_unix_ms :: int
  chaser_contact_mode :: string
  disp_ghost_id :: string
  disp_ghost_grace :: nat
  disp_ghost_panel :: input_panel
  tick_count :: u64
  last_ghost_spawn_tick :: u64
  suppress_ghost_spawn_until_tick :: u64

definition GHOST_SPAWN_SPACING_TICKS :: u64 where "GHOST_SPAWN_SPACING_TICKS = 2"
definition SPAWN_DELAY_TICKS :: nat where "SPAWN_DELAY_TICKS = 120"
definition GHOST_FAR_SPAWN_Z_OFFSET :: rat where "GHOST_FAR_SPAWN_Z_OFFSET = 5000"
definition DESPAWN_PARK_Z :: rat where "DESPAWN_PARK_Z = - 500000"
definition MAX_REMEMBERED_NAMETAGS :: nat where "MAX_REMEMBERED_NAMETAGS = 1024"
definition GHOST_INPUT_EDGE_CAP :: nat where "GHOST_INPUT_EDGE_CAP = 4096"

section \<open>Spawning\<close>

text \<open>
  What the engine says when a ghost is wanted: the pawn and controller, how long the pawn has been
  up, its class, world and place, and the actor a spawn returns.
\<close>

record spawn_answers =
  have_pawn :: bool
  have_controller :: bool
  ticks_since_pawn_valid :: nat
  looks_like_player :: bool
  pawn_world :: "nat option"
  placed :: bool
  have_pawn_class :: bool
  spawn_loc :: triple
  spawn_far :: bool
  spawned_actor :: "nat option"
  bare_ghost :: bool
  has_auto_possess :: bool
  light_template :: bool
  overlap_template :: bool

definition may_spawn :: "spawn_answers \<Rightarrow> string \<Rightarrow> game \<Rightarrow> bool" where
  "may_spawn a player_id s \<longleftrightarrow>
     \<not> (case remotes s player_id of Some r \<Rightarrow> ghost r \<noteq> None | None \<Rightarrow> False) \<and>
     have_pawn a \<and> have_controller a \<and>
     \<not> (last_ghost_spawn_tick s \<noteq> 0 \<and> tick_count s < last_ghost_spawn_tick s + GHOST_SPAWN_SPACING_TICKS) \<and>
     \<not> tick_count s < suppress_ghost_spawn_until_tick s \<and>
     \<not> ticks_since_pawn_valid a < SPAWN_DELAY_TICKS \<and>
     looks_like_player a \<and> pawn_world a \<noteq> None \<and> placed a \<and> have_pawn_class a"

text \<open>The place the entry targets: the spawn's own, moved back down when the birth was moved up.\<close>

definition spawn_target :: "spawn_answers \<Rightarrow> triple" where
  "spawn_target a =
     (case spawn_loc a of (x, y, z) \<Rightarrow>
        (x, y, if spawn_far a then dbl_sub (dbl_add z (Fin GHOST_FAR_SPAWN_Z_OFFSET)) (Fin GHOST_FAR_SPAWN_Z_OFFSET)
               else z))"

datatype engine_action = SpawnActor class_templates | DestroyActor nat | ParkActor nat triple triple

text \<open>The templates are changed around the one synchronous \<^verbatim>\<open>SpawnActor\<close> call and put back after.\<close>

definition suppress_templates :: "spawn_answers \<Rightarrow> class_templates \<Rightarrow> class_templates" where
  "suppress_templates a t =
     t\<lparr>auto_possess_player := (if has_auto_possess a then 0 else auto_possess_player t),
       light_child_class := (if light_template a then None else light_child_class t),
       capsule_overlaps := (if overlap_template a then False else capsule_overlaps t)\<rparr>"

definition restore_templates :: "spawn_answers \<Rightarrow> class_templates \<Rightarrow> class_templates \<Rightarrow> class_templates" where
  "restore_templates a saved t =
     t\<lparr>auto_possess_player := (if has_auto_possess a then auto_possess_player saved else auto_possess_player t),
       light_child_class := (if light_template a then light_child_class saved else light_child_class t),
       capsule_overlaps := (if overlap_template a then capsule_overlaps saved else capsule_overlaps t)\<rparr>"

definition ensure_ghost_spawned :: "spawn_answers \<Rightarrow> string \<Rightarrow> game \<Rightarrow> engine_action list \<times> game" where
  "ensure_ghost_spawned a player_id s =
     (if \<not> may_spawn a player_id s then ([], s)
      else
        let saved = templates s;
            s = s\<lparr>templates := suppress_templates a saved\<rparr>;
            acts = [SpawnActor (templates s)];
            r = (case remotes s player_id of None \<Rightarrow> new_remote | Some r \<Rightarrow> r)
        in case (spawned_actor a, bare_ghost a) of
             (Some g, True) \<Rightarrow>
               (acts, s\<lparr>remotes := (remotes s)(player_id \<mapsto> r\<lparr>ghost := Some g, owning_world := pawn_world a\<rparr>),
                        hijacked_actors := insert g (hijacked_actors s)\<rparr>)
           | (None, _) \<Rightarrow> (acts, s\<lparr>templates := restore_templates a saved (templates s)\<rparr>)
           | (Some g, False) \<Rightarrow>
               (acts, s\<lparr>templates := restore_templates a saved (templates s),
                        remotes := (remotes s)(player_id \<mapsto>
                          r\<lparr>ghost := Some g, owning_world := pawn_world a, distance_tier := 0,
                            spawned_at_tick := tick_count s, pose := (pose r)\<lparr>target_pos := spawn_target a\<rparr>\<rparr>),
                        last_ghost_spawn_tick := tick_count s\<rparr>))"

section \<open>Releasing\<close>

text \<open>The bookkeeping \<^verbatim>\<open>release_ghost\<close> clears unconditionally.\<close>

definition clear_latches :: "ghost_latches \<Rightarrow> ghost_latches" where
  "clear_latches l = l\<lparr>weapon_equip_call_armed := False, last_synced_weapon_equipped := False,
     last_synced_outfit_mesh := [], last_failed_outfit_mesh := [], last_synced_weapon_mesh := [],
     last_failed_weapon_mesh := [], weapon_hand_hidden := False, recall_glow_shown := False,
     recall_glow_swept := False, nametag_component := None, nametag_applied_name := [],
     nametag_applied_color := [], nametag_plate_applied_color := [], nametag_plate_has_color := False,
     nametag_create_failed := False\<rparr>"

text \<open>\<open>destroyed\<close>: whether the engine's own destroy call is reflected on the actor.\<close>

definition release_entry :: "bool \<Rightarrow> remote_ghost \<Rightarrow> engine_action list \<times> remote_ghost" where
  "release_entry destroyed r =
     (let r = r\<lparr>latches := clear_latches (latches r)\<rparr> in
      case ghost r of
        None \<Rightarrow> ([], r)
      | Some g \<Rightarrow>
          (if destroyed then [DestroyActor g]
           else [ParkActor g (case target_pos (pose r) of (x, y, z) \<Rightarrow> (x, y, Fin DESPAWN_PARK_Z)) (target_rot (pose r))],
           r\<lparr>ghost := None, owning_world := None\<rparr>))"

definition release_ghost :: "bool \<Rightarrow> string \<Rightarrow> game \<Rightarrow> engine_action list \<times> game" where
  "release_ghost destroyed player_id s =
     (case remotes s player_id of
        None \<Rightarrow> ([], s)
      | Some r \<Rightarrow>
          (case release_entry destroyed r of
             (acts, r') \<Rightarrow>
               (acts, s\<lparr>remotes := (remotes s)(player_id \<mapsto> r'),
                        hijacked_actors := hijacked_actors s - set_option (ghost r)\<rparr>)))"

text \<open>
  What \<^verbatim>\<open>release_all_ghosts\<close> does to one entry before a level is torn down: every latch, the
  crouch pair included, and the actor is dropped, not destroyed.
\<close>

definition drop_entry :: "remote_ghost \<Rightarrow> remote_ghost" where
  "drop_entry r = r\<lparr>latches := (clear_latches (latches r))\<lparr>crouch_event_shrunk := False, crouch_input_shrunk := False\<rparr>,
     ghost := None, owning_world := None\<rparr>"

definition release_all_ghosts :: "game \<Rightarrow> game" where
  "release_all_ghosts s = s\<lparr>remotes := map_option drop_entry \<circ> remotes s,
     hijacked_actors := hijacked_actors s - {g. \<exists>id r. remotes s id = Some r \<and> ghost r = Some g}\<rparr>"

text \<open>\<^verbatim>\<open>release_all_ghosts_parked\<close>: every entry with a ghost is released; the input tracks go.\<close>

definition release_all_ghosts_parked :: "bool \<Rightarrow> game \<Rightarrow> game" where
  "release_all_ghosts_parked destroyed s =
     s\<lparr>remotes := map_option (\<lambda>r. if ghost r = None then r else snd (release_entry destroyed r)) \<circ> remotes s,
       hijacked_actors := hijacked_actors s - {g. \<exists>id r. remotes s id = Some r \<and> ghost r = Some g},
       ghost_inputs := Map.empty\<rparr>"

section \<open>The lines\<close>

definition line_payload :: "string \<Rightarrow> (nat \<times> nat) option" where
  "line_payload line =
     (case json_root_body line of None \<Rightarrow> None | Some (rb, re) \<Rightarrow> json_object_member line rb re ''payload'')"

definition handle_render_remote :: "spawn_answers \<Rightarrow> u64 \<Rightarrow> string \<Rightarrow> game \<Rightarrow> engine_action list \<times> game" where
  "handle_render_remote a now_ms line s =
     (case render_head line of
        None \<Rightarrow> ([], s)
      | Some (player_id, p, sp) \<Rightarrow>
          let is_new = (remotes s player_id = None);
              (acts, s) = ensure_ghost_spawned a player_id s
          in case remotes s player_id of
               None \<Rightarrow> (acts, s)
             | Some r \<Rightarrow>
                 (acts, s\<lparr>remotes := (remotes s)(player_id \<mapsto> apply_sample line sp player_id p now_ms is_new r)\<rparr>))"

definition handle_remote_name :: "string \<Rightarrow> game \<Rightarrow> game" where
  "handle_remote_name line s =
     (case line_payload line of
        None \<Rightarrow> s
      | Some sp \<Rightarrow>
          let player_id = member_str line sp ''player_id'' in
          if player_id = [] then s
          else
            let tags = (if card (dom (nametags s)) \<ge> MAX_REMEMBERED_NAMETAGS \<and> nametags s player_id = None
                        then nametags s |` dom (remotes s) else nametags s)
            in s\<lparr>nametags := tags(player_id \<mapsto>
                    \<lparr>tag_name = member_str line sp ''display_name'', tag_color = member_str line sp ''color''\<rparr>)\<rparr>)"

definition handle_recording_state :: "string \<Rightarrow> game \<Rightarrow> game" where
  "handle_recording_state line s =
     (case line_payload line of
        None \<Rightarrow> s
      | Some sp \<Rightarrow>
          let active = (num_true (member_num line sp ''recording'' (Fin 0)) \<or>
                        json_bool_member line (fst sp) (snd sp) ''recording'');
              started = member_num line sp ''started_unix_ms'' (Fin 0)
          in s\<lparr>recording_active := active,
               recording_started_unix_ms :=
                 (if active \<and> isfinite started \<and> dbl_less (Fin 0) started then dbl_trunc started else 0)\<rparr>)"

definition MAX_INPUT_FRAME :: rat where "MAX_INPUT_FRAME = 9007199254740992"
definition MAX_INPUT_T_MS :: rat where "MAX_INPUT_T_MS = 4398046511104"

definition in_range :: "dbl \<Rightarrow> rat \<Rightarrow> bool" where
  "in_range x hi \<longleftrightarrow> isfinite x \<and> \<not> dbl_less x (Fin 0) \<and> \<not> dbl_less (Fin hi) x"

text \<open>One edge object; \<open>None\<close> is a \<^verbatim>\<open>continue\<close> before the cap is looked at.\<close>

definition parse_edge :: "string \<Rightarrow> nat \<times> nat \<Rightarrow> input_edge option" where
  "parse_edge line sp =
     (let f = member_num line sp ''f'' (Fin 0); t = member_num line sp ''t'' (Fin 0);
          m = member_num line sp ''m'' (Fin 0) in
      case json_number_member line (fst sp) (snd sp) ''at'' of
        None \<Rightarrow> None
      | Some at_ms \<Rightarrow>
          if \<not> isfinite at_ms then None
          else if \<not> in_range f MAX_INPUT_FRAME \<or> \<not> in_range t MAX_INPUT_T_MS then None
          else Some \<lparr>edge_f = of_int (dbl_trunc f), edge_t = dbl_trunc t,
                     edge_m = (if isfinite m \<and> dbl_le (Fin 0) m \<and> dbl_le m (Fin 4294967295) then of_int (dbl_trunc m) else 0),
                     edge_ax = (case json_array_member line (fst sp) (snd sp) ''ax'' of
                                  None \<Rightarrow> [] | Some (xb, xe) \<Rightarrow> json_number_array line xb xe 8),
                     edge_at = at_ms\<rparr>)"

definition push_edge :: "input_edge \<Rightarrow> input_track \<Rightarrow> input_track" where
  "push_edge e tr =
     (if length (track_edges tr) \<ge> GHOST_INPUT_EDGE_CAP
      then tr\<lparr>track_dropped := track_dropped tr + 1, drop_logged := True\<rparr>
      else tr\<lparr>track_edges := track_edges tr @ [e]\<rparr>)"

lemma next_object_loop_progress: "next_object_loop s e pos = Some (sp, pos') \<Longrightarrow> pos < pos' \<and> pos' \<le> e"
proof (induction s e pos rule: next_object_loop.induct)
  case (1 s e pos)
  note eq = "1.prems"[unfolded next_object_loop.simps [of s e pos]]
  consider (obj) b e' where "json_body_at s pos e = Some (b, e')" "pos' = e' + 1"
    | (str) close where "json_skip_string s pos e = Some close" "\<not> e \<le> pos" "s ! pos \<noteq> CHR ''{''"
        "s ! pos = chr_quote" "next_object_loop s e (close + 1) = Some (sp, pos')"
    | (arr) b e' where "json_array_body_at s pos e = Some (b, e')" "\<not> e \<le> pos" "s ! pos \<noteq> CHR ''{''"
        "s ! pos \<noteq> chr_quote" "s ! pos = CHR ''[''" "next_object_loop s e (e' + 1) = Some (sp, pos')"
    | (step) "\<not> e \<le> pos" "s ! pos \<noteq> CHR ''{''" "s ! pos \<noteq> chr_quote" "s ! pos \<noteq> CHR ''[''"
        "next_object_loop s e (pos + 1) = Some (sp, pos')"
    using eq by (auto split: if_splits option.splits)
  then show ?case
  proof cases
    case obj
    then show ?thesis using json_body_at_progress [OF obj(1)] by simp
  next
    case str
    then show ?thesis using "1.IH"(1) [of close] json_skip_string_progress [OF str(1)] by simp
  next
    case arr
    then show ?thesis using "1.IH"(2) [of "(b, e')" b e'] json_array_body_at_progress [OF arr(1)] by simp
  next
    case step
    then show ?thesis using "1.IH"(3) by simp
  qed
qed

function read_edges :: "string \<Rightarrow> nat \<Rightarrow> nat \<Rightarrow> input_track \<Rightarrow> input_track" where
  "read_edges line pos e tr =
     (case json_next_object line pos e of
        None \<Rightarrow> tr
      | Some (sp, pos') \<Rightarrow>
          read_edges line pos' e (case parse_edge line sp of None \<Rightarrow> tr | Some ed \<Rightarrow> push_edge ed tr))"
  by pat_completeness auto
termination
  by (relation "measure (\<lambda>(line, pos, e, tr). e - pos)")
     (auto simp: json_next_object_def dest!: next_object_loop_progress)

declare read_edges.simps [simp del]

definition reset_track :: "input_track \<Rightarrow> input_track" where
  "reset_track tr = tr\<lparr>track_edges := [], have_state := False, track_mask := 0, track_dropped := 0, drop_logged := False\<rparr>"

definition update_track :: "string \<Rightarrow> nat \<times> nat \<Rightarrow> input_track \<Rightarrow> input_track" where
  "update_track line sp tr =
     (let arr = json_array_member line (fst sp) (snd sp);
          tr = (if json_bool_member line (fst sp) (snd sp) ''reset'' then reset_track tr else tr);
          tr = (case arr ''labels'' of None \<Rightarrow> tr | Some (b, e) \<Rightarrow> tr\<lparr>track_labels := json_string_array line b e 32\<rparr>);
          tr = (case arr ''axes'' of None \<Rightarrow> tr | Some (b, e) \<Rightarrow> tr\<lparr>track_axes := json_string_array line b e 8\<rparr>);
          tr = (let src = member_str line sp ''source'' in if src \<noteq> [] then tr\<lparr>track_source := src\<rparr> else tr)
      in case arr ''edges'' of None \<Rightarrow> tr | Some (b, e) \<Rightarrow> read_edges line b e tr)"

definition handle_remote_input :: "string \<Rightarrow> game \<Rightarrow> game" where
  "handle_remote_input line s =
     (case line_payload line of
        None \<Rightarrow> s
      | Some sp \<Rightarrow>
          let player_id = member_str line sp ''player_id'' in
          if player_id = [] then s
          else
            let tr = (case ghost_inputs s player_id of None \<Rightarrow> new_track | Some tr \<Rightarrow> tr);
                s = (if json_bool_member line (fst sp) (snd sp) ''reset'' \<and> player_id = disp_ghost_id s
                     then s\<lparr>disp_ghost_panel := \<lparr>panel_rows = [], panel_text = []\<rparr>\<rparr> else s)
            in s\<lparr>ghost_inputs := (ghost_inputs s)(player_id \<mapsto> update_track line sp tr)\<rparr>)"

definition handle_session_policy :: "string \<Rightarrow> game \<Rightarrow> game" where
  "handle_session_policy line s =
     (case line_payload line of
        None \<Rightarrow> s | Some sp \<Rightarrow> s\<lparr>chaser_contact_mode := member_str line sp ''chaser_contact''\<rparr>)"

definition handle_despawn_remote :: "bool \<Rightarrow> string \<Rightarrow> game \<Rightarrow> engine_action list \<times> game" where
  "handle_despawn_remote destroyed line s =
     (case line_payload line of
        None \<Rightarrow> ([], s)
      | Some sp \<Rightarrow>
          let player_id = member_str line sp ''player_id'' in
          if player_id = [] then ([], s)
          else (case release_ghost destroyed player_id s of
                  (acts, s) \<Rightarrow> (acts, s\<lparr>remotes := (remotes s)(player_id := None),
                                        ghost_inputs := (ghost_inputs s)(player_id := None)\<rparr>)))"

definition handle_bridge_line :: "spawn_answers \<Rightarrow> bool \<Rightarrow> u64 \<Rightarrow> string \<Rightarrow> game \<Rightarrow> engine_action list \<times> game" where
  "handle_bridge_line a destroyed now_ms line s =
     (let type = json_string_field line ''type'' in
      if type = ''render_remote'' then handle_render_remote a now_ms line s
      else if type = ''remote_name'' then ([], handle_remote_name line s)
      else if type = ''recording_state'' then ([], handle_recording_state line s)
      else if type = ''remote_input'' then ([], handle_remote_input line s)
      else if type = ''session_policy'' then ([], handle_session_policy line s)
      else if type = ''despawn_remote'' then handle_despawn_remote destroyed line s
      else ([], s))"

text \<open>The plugin's own state when it is constructed.\<close>

definition new_game :: "class_templates \<Rightarrow> game" where
  "new_game t = \<lparr>templates = t, remotes = Map.empty, ghost_inputs = Map.empty, nametags = Map.empty,
     hijacked_actors = {}, recording_active = False, recording_started_unix_ms = 0, chaser_contact_mode = [],
     disp_ghost_id = [], disp_ghost_grace = 0, disp_ghost_panel = \<lparr>panel_rows = [], panel_text = []\<rparr>,
     tick_count = 0, last_ghost_spawn_tick = 0, suppress_ghost_spawn_until_tick = 0\<rparr>"

end
