(* ===== verification/Line_Props.thy ===== *)
theory Line_Props
  imports Bridge_Lines
begin

text \<open>
  What the bridge lines keep and change: the well-formedness of everything a peer can write
  (\<open>game_ok\<close>), the frame of a line, the nametag bound, and the lifetime of an entry.
\<close>

section \<open>Well-formed state\<close>

definition bounded_by :: "rat \<Rightarrow> dbl \<Rightarrow> bool" where
  "bounded_by b x \<longleftrightarrow> (\<exists>q. x = Fin q \<and> \<bar>q\<bar> \<le> b)"

definition count_ok :: "int \<Rightarrow> bool" where
  "count_ok n \<longleftrightarrow> 0 \<le> n \<and> n \<le> 1000000000"

definition pose_ok :: "string \<Rightarrow> ghost_pose \<Rightarrow> bool" where
  "pose_ok player_id g \<longleftrightarrow>
     finite3 (target_rot g) \<and> isfinite (target_ts g) \<and> (\<not> is_loopback player_id \<longrightarrow> finite3 (target_pos g))"

definition color_ok :: "triple \<Rightarrow> bool" where
  "color_ok c = (case c of (r, g, b) \<Rightarrow> bounded_by 1024 r \<and> bounded_by 1024 g \<and> bounded_by 1024 b)"

definition anim_ok :: "ghost_anim \<Rightarrow> bool" where
  "anim_ok g \<longleftrightarrow>
     bounded_by SPEED_LIMIT (target_h_speed g) \<and> bounded_by SPEED_LIMIT (target_v_speed g) \<and>
     color_ok (target_afterimage_color g)"

definition counts_ok :: "ghost_counts \<Rightarrow> bool" where
  "counts_ok c \<longleftrightarrow> count_ok (blink_count c) \<and> count_ok (death_count c) \<and> count_ok (hurt_count c)"

definition remote_ok :: "string \<Rightarrow> remote_ghost \<Rightarrow> bool" where
  "remote_ok player_id r \<longleftrightarrow>
     pose_ok player_id (pose r) \<and> anim_ok (anim r) \<and> counts_ok (counts r) \<and> counts_ok (seen r)"

definition edge_ok :: "input_edge \<Rightarrow> bool" where
  "edge_ok e \<longleftrightarrow> isfinite (edge_at e) \<and> 0 \<le> edge_t e \<and> edge_t e \<le> 4398046511104 \<and>
     unat (edge_f e) \<le> 9007199254740992 \<and> length (edge_ax e) \<le> 8"

definition track_ok :: "input_track \<Rightarrow> bool" where
  "track_ok tr \<longleftrightarrow> length (track_edges tr) \<le> GHOST_INPUT_EDGE_CAP \<and> list_all edge_ok (track_edges tr) \<and>
     length (track_labels tr) \<le> 32 \<and> length (track_axes tr) \<le> 8 \<and> length (track_ax tr) = 8 \<and> track_ax_n tr \<le> 8"

definition remotes_ok :: "(string \<rightharpoonup> remote_ghost) \<Rightarrow> bool" where
  "remotes_ok m \<longleftrightarrow> m [] = None \<and> (\<forall>player_id r. m player_id = Some r \<longrightarrow> remote_ok player_id r)"

definition tracks_ok :: "(string \<rightharpoonup> input_track) \<Rightarrow> bool" where
  "tracks_ok m \<longleftrightarrow> m [] = None \<and> (\<forall>player_id tr. m player_id = Some tr \<longrightarrow> track_ok tr)"

definition game_ok :: "game \<Rightarrow> bool" where
  "game_ok s \<longleftrightarrow> remotes_ok (remotes s) \<and> tracks_ok (ghost_inputs s) \<and> finite (dom (nametags s)) \<and>
     0 \<le> recording_started_unix_ms s"

lemma remotes_ok_upd: "remotes_ok m \<Longrightarrow> player_id \<noteq> [] \<Longrightarrow> remote_ok player_id r \<Longrightarrow> remotes_ok (m(player_id \<mapsto> r))"
  by (simp add: remotes_ok_def)

lemma remotes_ok_del: "remotes_ok m \<Longrightarrow> remotes_ok (m(player_id := None))"
  by (simp add: remotes_ok_def)

lemma tracks_ok_upd: "tracks_ok m \<Longrightarrow> player_id \<noteq> [] \<Longrightarrow> track_ok tr \<Longrightarrow> tracks_ok (m(player_id \<mapsto> tr))"
  by (simp add: tracks_ok_def)

lemma tracks_ok_del: "tracks_ok m \<Longrightarrow> tracks_ok (m(player_id := None))"
  by (simp add: tracks_ok_def)

lemma remotes_ok_get: "remotes_ok m \<Longrightarrow> m player_id = Some r \<Longrightarrow> player_id \<noteq> [] \<and> remote_ok player_id r"
  by (cases "player_id = []") (auto simp: remotes_ok_def)

lemma remotes_ok_map:
  assumes "remotes_ok m" and "\<And>player_id r. remote_ok player_id r \<Longrightarrow> remote_ok player_id (f r)"
  shows "remotes_ok (map_option f \<circ> m)"
  using assms by (auto simp: remotes_ok_def map_option_case split: option.splits)

section \<open>What is read from a line\<close>

lemma member_num_is_double: "is_double d \<Longrightarrow> is_double (member_num line sp key d)"
  by (auto simp: member_num_def json_number_member_def Let_def dest: sscanf_lf_is_double split: option.splits if_splits)

lemma member_vec_is_double: "member_vec line sp key = (ok, x, y, z) \<Longrightarrow> is_double x \<and> is_double y \<and> is_double z"
  by (auto simp: member_vec_def json_vec3_member_def is_double_zero
      dest!: sscanf_lf3_is_double split: option.splits if_splits prod.splits)

lemma finite_vec_Some:
  assumes "finite_vec line sp key = Some v"
  obtains x y z where "v = (Fin x, Fin y, Fin z)" "rnd_double x = Fin x" "rnd_double y = Fin y" "rnd_double z = Fin z"
proof -
  from assms obtain a b c where v: "v = (a, b, c)" and m: "member_vec line sp key = (True, a, b, c)"
    and f: "isfinite a" "isfinite b" "isfinite c"
    by (auto simp: finite_vec_def finite3_def split: prod.splits if_splits)
  then show ?thesis using that member_vec_is_double [OF m] by (auto simp: isfinite_iff is_double_def)
qed

lemma finite3_simp [simp]: "finite3 (a, b, c) \<longleftrightarrow> isfinite a \<and> isfinite b \<and> isfinite c"
  by (simp add: finite3_def)

lemma raw_orientation_finite: "finite3 (raw_orientation line sp)"
  by (simp add: raw_orientation_def Let_def)

lemma render_orientation_finite: "finite3 (render_orientation line sp)"
  by (auto simp: render_orientation_def lerp3_def lerp_angle_deg_finite raw_orientation_finite
      split: option.splits)

lemma bounded_speed_within: "bounded_by SPEED_LIMIT (bounded_speed v)"
  by (cases v) (auto simp: bounded_by_def bounded_speed_def SPEED_LIMIT_def)

lemma peer_count_ok: "count_ok (peer_count x)"
  using clamp_count_to_int_range [of 0 1000000000 0 x] by (auto simp: count_ok_def peer_count_def)

section \<open>What a sample writes\<close>

lemma apply_pose_ok:
  assumes p: "finite_vec line st ''position'' = Some p" and g: "isfinite (target_ts g)"
  shows "pose_ok player_id (apply_pose line sp player_id p g)"
proof -
  from p obtain x y z where v: "p = (Fin x, Fin y, Fin z)" "rnd_double x = Fin x" "rnd_double y = Fin y" "rnd_double z = Fin z"
    by (rule finite_vec_Some)
  then show ?thesis
    using g by (auto simp: pose_ok_def apply_pose_def render_orientation_finite loopback_offset_def offset3_def
        split: option.splits)
qed

lemma apply_capsule_keeps [simp]:
  "target_h_speed (apply_capsule now h g) = target_h_speed g"
  "target_v_speed (apply_capsule now h g) = target_v_speed g"
  "target_afterimage_color (apply_capsule now h g) = target_afterimage_color g"
  by (simp_all add: apply_capsule_def)

lemma clamp_color_bounded: "color_ok (clamp_color c)"
proof -
  have "rnd_float (- 1024) = Fin (- 1024)" "rnd_float 1024 = Fin 1024"
    using rnd_float_int [of "- 1024"] rnd_float_int [of 1024] by simp_all
  then have "bounded_by 1024 (clamp_to_float x (- 1024) 1024)" for x
    using clamp_to_float_in_range [of "- 1024" 1024 x] by (auto simp: bounded_by_def abs_le_iff)
  then show ?thesis by (auto simp: color_ok_def clamp_color_def split: prod.splits)
qed

lemma apply_anim_ok: "anim_ok g \<Longrightarrow> anim_ok (apply_anim line x now_ms g)"
  by (auto simp: anim_ok_def apply_anim_def Let_def bounded_speed_within clamp_color_bounded split: prod.splits bool.splits)

lemma read_counts_ok: "counts_ok (read_counts line x)"
  by (simp add: counts_ok_def read_counts_def peer_count_ok)

lemma apply_sample_ok:
  assumes "finite_vec line st ''position'' = Some p" and "isfinite (target_ts (pose r))" "anim_ok (anim r)"
    and "counts_ok (seen r)"
  shows "remote_ok player_id (apply_sample line sp player_id p now_ms is_new r)"
  using apply_pose_ok [OF assms(1,2)] apply_anim_ok [OF assms(3)] assms(4)
  by (simp add: remote_ok_def apply_sample_def Let_def read_counts_ok)

lemma new_remote_fields [simp]:
  "isfinite (target_ts (pose new_remote))" "anim_ok (anim new_remote)" "counts_ok (seen new_remote)"
  by (simp_all add: new_remote_def new_counts_def anim_ok_def color_ok_def counts_ok_def count_ok_def bounded_by_def SPEED_LIMIT_def)

text \<open>A spawn touches no field a peer writes, apart from the place, which the sample overwrites.\<close>

lemma ensure_ghost_spawned_get:
  assumes "remotes (snd (ensure_ghost_spawned a player_id s)) player_id = Some r"
  obtains r0 where "r0 = new_remote \<or> remotes s player_id = Some r0"
    "anim r = anim r0" "counts r = counts r0" "seen r = seen r0" "target_ts (pose r) = target_ts (pose r0)"
    "latches r = latches r0"
proof (cases "remotes s player_id")
  case None
  then show ?thesis using assms that [of new_remote]
    by (auto simp: ensure_ghost_spawned_def Let_def split: if_splits option.splits bool.splits)
next
  case (Some r0)
  have "anim r = anim r0 \<and> counts r = counts r0 \<and> seen r = seen r0 \<and>
      target_ts (pose r) = target_ts (pose r0) \<and> latches r = latches r0"
    using assms Some by (auto simp: ensure_ghost_spawned_def Let_def split: if_splits option.splits bool.splits)
  then show ?thesis using that [of r0] Some by simp
qed

lemma ensure_ghost_spawned_other:
  "q \<noteq> player_id \<Longrightarrow> remotes (snd (ensure_ghost_spawned a player_id s)) q = remotes s q"
  by (auto simp: ensure_ghost_spawned_def Let_def split: option.splits bool.splits)

lemma ensure_ghost_spawned_frame [simp]:
  "ghost_inputs (snd (ensure_ghost_spawned a player_id s)) = ghost_inputs s"
  "nametags (snd (ensure_ghost_spawned a player_id s)) = nametags s"
  "recording_started_unix_ms (snd (ensure_ghost_spawned a player_id s)) = recording_started_unix_ms s"
  by (auto simp: ensure_ghost_spawned_def Let_def split: option.splits bool.splits)

section \<open>The lines keep the state well formed\<close>

lemma render_head_Some:
  assumes "render_head line = Some (player_id, p, sp)"
  shows "player_id \<noteq> []" and "finite_vec line (state_span sp) ''position'' = Some p"
  using assms by (auto simp: render_head_def Let_def split: option.splits if_splits)

lemma handle_render_remote_ok:
  assumes "game_ok s"
  shows "game_ok (snd (handle_render_remote a now_ms line s))"
proof (cases "render_head line")
  case None
  then show ?thesis using assms by (simp add: handle_render_remote_def)
next
  case (Some h)
  obtain player_id p sp where h: "render_head line = Some (player_id, p, sp)" using Some by (cases h) auto
  note hd = render_head_Some [OF h]
  obtain acts t where t: "ensure_ghost_spawned a player_id s = (acts, t)" by fastforce
  have old: "remotes_ok (remotes s)" using assms by (simp add: game_ok_def)
  have others: "remotes t q = remotes s q" if "q \<noteq> player_id" for q
    using ensure_ghost_spawned_other [OF that, of a s] t by simp
  show ?thesis
  proof (cases "remotes t player_id")
    case None
    then have "remotes t = (remotes s)(player_id := None)" using others by (auto simp: fun_eq_iff)
    then have "remotes_ok (remotes t)" using old by (simp add: remotes_ok_del)
    then show ?thesis using assms h t None ensure_ghost_spawned_frame [of a player_id s]
      by (simp add: handle_render_remote_def Let_def game_ok_def)
  next
    case (Some r)
    let ?r = "apply_sample line sp player_id p now_ms (remotes s player_id = None) r"
    obtain r0 where r0: "r0 = new_remote \<or> remotes s player_id = Some r0"
      and f: "anim r = anim r0" "seen r = seen r0" "target_ts (pose r) = target_ts (pose r0)"
      by (rule ensure_ghost_spawned_get [of a player_id s r]) (use Some t in auto)
    have "isfinite (target_ts (pose r0)) \<and> anim_ok (anim r0) \<and> counts_ok (seen r0)"
      using r0 remotes_ok_get [OF old] by (auto simp: remote_ok_def pose_ok_def)
    then have "remote_ok player_id ?r" by (intro apply_sample_ok [OF hd(2)]) (simp_all add: f)
    then have "remotes_ok ((remotes s)(player_id \<mapsto> ?r))" using old hd(1) by (intro remotes_ok_upd)
    moreover have "(remotes t)(player_id \<mapsto> ?r) = (remotes s)(player_id \<mapsto> ?r)" using others by (auto simp: fun_eq_iff)
    ultimately show ?thesis using assms h t Some ensure_ghost_spawned_frame [of a player_id s]
      by (simp add: handle_render_remote_def Let_def game_ok_def)
  qed
qed

lemma string_array_loop_length: "length out \<le> mx \<Longrightarrow> length (string_array_loop s e mx i out) \<le> mx"
proof (induction s e mx i out rule: string_array_loop.induct)
  case (1 s e mx i out)
  then show ?case
    by (subst string_array_loop.simps) (auto simp: Let_def split: option.splits)
qed

lemma number_array_loop_length: "length out \<le> mx \<Longrightarrow> length (number_array_loop s e mx i out) \<le> mx"
proof (induction s e mx i out rule: number_array_loop.induct)
  case (1 s e mx i out)
  then show ?case
    by (subst number_array_loop.simps) (auto simp: Let_def split: option.splits)
qed

lemma json_string_array_length: "length (json_string_array s b e mx) \<le> mx"
  by (simp add: json_string_array_def string_array_loop_length)

lemma json_number_array_length: "length (json_number_array s b e mx) \<le> mx"
  by (simp add: json_number_array_def number_array_loop_length)

lemma in_range_bounds: "in_range x (of_int hi) \<Longrightarrow> 0 \<le> hi \<Longrightarrow> 0 \<le> dbl_trunc x \<and> dbl_trunc x \<le> hi"
  using trunc_rat_bounds [of 0 _ hi] by (cases x) (auto simp: in_range_def)

lemma unat_of_int_le: "0 \<le> n \<Longrightarrow> n \<le> int m \<Longrightarrow> m < 2 ^ 64 \<Longrightarrow> unat (of_int n :: u64) \<le> m"
  by (simp add: unsigned_of_int take_bit_int_eq_self nat_le_iff)

lemma parse_edge_ok:
  assumes "parse_edge line sp = Some e"
  shows "edge_ok e"
proof -
  let ?f = "member_num line sp ''f'' (Fin 0)" and ?t = "member_num line sp ''t'' (Fin 0)"
  have f: "in_range ?f MAX_INPUT_FRAME" and t: "in_range ?t MAX_INPUT_T_MS"
    and e: "edge_f e = of_int (dbl_trunc ?f)" "edge_t e = dbl_trunc ?t" "isfinite (edge_at e)" "length (edge_ax e) \<le> 8"
    using assms json_number_array_length by (auto simp: parse_edge_def Let_def split: option.splits if_splits)
  from f have "0 \<le> dbl_trunc ?f \<and> dbl_trunc ?f \<le> 9007199254740992"
    using in_range_bounds [of ?f 9007199254740992] by (simp add: MAX_INPUT_FRAME_def)
  then have "unat (edge_f e) \<le> 9007199254740992" unfolding e by (intro unat_of_int_le) auto
  moreover from t have "0 \<le> dbl_trunc ?t \<and> dbl_trunc ?t \<le> 4398046511104"
    using in_range_bounds [of ?t 4398046511104] by (simp add: MAX_INPUT_T_MS_def)
  ultimately show ?thesis using e by (simp add: edge_ok_def)
qed

lemma push_edge_ok: "edge_ok e \<Longrightarrow> track_ok tr \<Longrightarrow> track_ok (push_edge e tr)"
  by (auto simp: track_ok_def push_edge_def)

lemma read_edges_ok: "track_ok tr \<Longrightarrow> track_ok (read_edges line pos e tr)"
proof (induction line pos e tr rule: read_edges.induct)
  case (1 line pos e tr)
  show ?case
  proof (cases "json_next_object line pos e")
    case None
    then show ?thesis using "1.prems" by (subst read_edges.simps) simp
  next
    case (Some x)
    obtain sp pos' where x: "x = (sp, pos')" by (cases x)
    let ?tr = "case parse_edge line sp of None \<Rightarrow> tr | Some ed \<Rightarrow> push_edge ed tr"
    have "track_ok ?tr" using "1.prems" by (auto dest: parse_edge_ok intro: push_edge_ok split: option.split)
    then have "track_ok (read_edges line pos' e ?tr)" by (intro "1.IH" [OF Some x [symmetric]])
    then show ?thesis using Some x by (subst read_edges.simps) simp
  qed
qed

lemma reset_track_ok: "track_ok tr \<Longrightarrow> track_ok (reset_track tr)"
  by (simp add: track_ok_def reset_track_def)

lemma track_ok_headers:
  "track_ok tr \<Longrightarrow> track_ok (tr\<lparr>track_labels := json_string_array line b e 32\<rparr>)"
  "track_ok tr \<Longrightarrow> track_ok (tr\<lparr>track_axes := json_string_array line b e 8\<rparr>)"
  "track_ok tr \<Longrightarrow> track_ok (tr\<lparr>track_source := src\<rparr>)"
  by (simp_all add: track_ok_def json_string_array_length)

lemma update_track_ok: "track_ok tr \<Longrightarrow> track_ok (update_track line sp tr)"
  unfolding update_track_def Let_def
  by (auto simp only: split: option.split if_split intro!: read_edges_ok track_ok_headers reset_track_ok)

lemma new_track_ok: "track_ok new_track"
  by (simp add: track_ok_def new_track_def)

lemma handle_remote_input_ok: "game_ok s \<Longrightarrow> game_ok (handle_remote_input line s)"
  by (auto simp: handle_remote_input_def game_ok_def Let_def tracks_ok_def new_track_ok
      intro!: update_track_ok split: option.splits)

lemma handle_remote_name_ok: "game_ok s \<Longrightarrow> game_ok (handle_remote_name line s)"
  by (auto simp: handle_remote_name_def game_ok_def Let_def split: option.splits)

lemma handle_recording_state_ok: "game_ok s \<Longrightarrow> game_ok (handle_recording_state line s)"
proof -
  have "0 \<le> dbl_trunc x" if "dbl_less (Fin 0) x" for x
    using that by (cases x) (auto simp: trunc_rat_def)
  then show "game_ok s \<Longrightarrow> game_ok (handle_recording_state line s)"
    by (auto simp: handle_recording_state_def game_ok_def Let_def split: option.splits)
qed

lemma handle_session_policy_ok: "game_ok s \<Longrightarrow> game_ok (handle_session_policy line s)"
  by (auto simp: handle_session_policy_def game_ok_def split: option.splits)

lemma release_entry_ok: "remote_ok player_id (snd (release_entry destroyed r)) = remote_ok player_id r"
  by (auto simp: release_entry_def Let_def remote_ok_def split: option.splits)

lemma release_ghost_ok:
  assumes "game_ok s"
  shows "game_ok (snd (release_ghost destroyed player_id s))"
proof (cases "remotes s player_id")
  case None
  then show ?thesis using assms by (simp add: release_ghost_def)
next
  case (Some r)
  obtain acts r' where e: "release_entry destroyed r = (acts, r')" by fastforce
  have "player_id \<noteq> [] \<and> remote_ok player_id r" using assms Some by (auto simp: game_ok_def dest: remotes_ok_get)
  then have "player_id \<noteq> [] \<and> remote_ok player_id r'" using release_entry_ok [of player_id destroyed r] e by simp
  then show ?thesis using assms Some e by (simp add: release_ghost_def game_ok_def remotes_ok_upd)
qed

lemma handle_despawn_remote_ok:
  assumes "game_ok s"
  shows "game_ok (snd (handle_despawn_remote destroyed line s))"
proof -
  have "game_ok (t\<lparr>remotes := (remotes t)(q := None), ghost_inputs := (ghost_inputs t)(q := None)\<rparr>)" if "game_ok t" for t q
    using that by (simp add: game_ok_def remotes_ok_del tracks_ok_del)
  then show ?thesis using assms release_ghost_ok [OF assms, of destroyed]
    by (auto simp: handle_despawn_remote_def Let_def split: option.splits prod.splits) (metis snd_conv)
qed

lemma handle_bridge_line_ok: "game_ok s \<Longrightarrow> game_ok (snd (handle_bridge_line a destroyed now_ms line s))"
  by (simp add: handle_bridge_line_def Let_def handle_render_remote_ok handle_remote_name_ok handle_recording_state_ok
      handle_remote_input_ok handle_session_policy_ok handle_despawn_remote_ok)

lemma release_all_ghosts_ok: "game_ok s \<Longrightarrow> game_ok (release_all_ghosts s)"
  by (auto simp: release_all_ghosts_def game_ok_def drop_entry_def remote_ok_def intro!: remotes_ok_map)

lemma release_all_ghosts_parked_ok: "game_ok s \<Longrightarrow> game_ok (release_all_ghosts_parked destroyed s)"
  by (auto simp: release_all_ghosts_parked_def game_ok_def tracks_ok_def release_entry_ok intro!: remotes_ok_map)

section \<open>What a line touches\<close>

text \<open>The player a line names.\<close>

definition line_target :: "string \<Rightarrow> string" where
  "line_target line = (case line_payload line of None \<Rightarrow> [] | Some sp \<Rightarrow> member_str line sp ''player_id'')"

lemma render_head_target: "render_head line = Some (player_id, p, sp) \<Longrightarrow> line_target line = player_id"
  by (auto simp: render_head_def render_scopes_def line_target_def line_payload_def Let_def
      split: option.splits if_splits)

lemma handle_render_remote_other:
  assumes "q \<noteq> line_target line"
  shows "remotes (snd (handle_render_remote a now_ms line s)) q = remotes s q"
proof (cases "render_head line")
  case (Some h)
  then obtain p sp where h: "render_head line = Some (line_target line, p, sp)"
    by (cases h) (auto dest: render_head_target)
  show ?thesis
    using ensure_ghost_spawned_other [OF assms, of a s] assms
    by (auto simp: handle_render_remote_def h Let_def split: prod.splits option.splits)
qed (simp add: handle_render_remote_def)

lemma handle_render_remote_inputs [simp]:
  "ghost_inputs (snd (handle_render_remote a now_ms line s)) = ghost_inputs s"
  "nametags (snd (handle_render_remote a now_ms line s)) = nametags s"
  using ensure_ghost_spawned_frame [of a _ s]
  by (auto simp: handle_render_remote_def Let_def split_beta split: option.splits)

lemma release_ghost_fields:
  "ghost_inputs (snd (release_ghost destroyed player_id s)) = ghost_inputs s"
  "nametags (snd (release_ghost destroyed player_id s)) = nametags s"
  "q \<noteq> player_id \<Longrightarrow> remotes (snd (release_ghost destroyed player_id s)) q = remotes s q"
  by (auto simp: release_ghost_def split: option.splits prod.splits)

lemma handle_remote_name_others [simp]:
  "remotes (handle_remote_name line s) = remotes s" "ghost_inputs (handle_remote_name line s) = ghost_inputs s"
  by (auto simp: handle_remote_name_def Let_def split: option.splits)

lemma handle_recording_state_others [simp]:
  "remotes (handle_recording_state line s) = remotes s" "ghost_inputs (handle_recording_state line s) = ghost_inputs s"
  by (auto simp: handle_recording_state_def Let_def split: option.splits)

lemma handle_session_policy_others [simp]:
  "remotes (handle_session_policy line s) = remotes s" "ghost_inputs (handle_session_policy line s) = ghost_inputs s"
  by (auto simp: handle_session_policy_def split: option.splits)

lemma handle_remote_input_others:
  "remotes (handle_remote_input line s) = remotes s"
  "q \<noteq> line_target line \<Longrightarrow> ghost_inputs (handle_remote_input line s) q = ghost_inputs s q"
  by (auto simp: handle_remote_input_def line_target_def Let_def split: option.splits)

lemma handle_despawn_remote_others:
  assumes "q \<noteq> line_target line"
  shows "remotes (snd (handle_despawn_remote destroyed line s)) q = remotes s q"
    and "ghost_inputs (snd (handle_despawn_remote destroyed line s)) q = ghost_inputs s q"
  using assms release_ghost_fields(1) [of destroyed "line_target line" s]
    release_ghost_fields(3) [OF assms, of destroyed s]
  by (auto simp: handle_despawn_remote_def line_target_def Let_def split: option.splits prod.splits)

lemma handle_remote_name_tags:
  assumes "q \<noteq> line_target line"
  shows "nametags (handle_remote_name line s) q = nametags s q \<or>
    (1024 \<le> card (dom (nametags s)) \<and> nametags s (line_target line) = None \<and> remotes s q = None \<and>
     nametags (handle_remote_name line s) q = None)"
  using assms
  by (auto simp: handle_remote_name_def line_target_def Let_def MAX_REMEMBERED_NAMETAGS_def restrict_map_def
      split: option.splits)

lemma lines_keep_tags:
  "nametags (snd (handle_despawn_remote destroyed line s)) = nametags s"
  "nametags (handle_session_policy line s) = nametags s"
  "nametags (handle_remote_input line s) = nametags s"
  "nametags (handle_recording_state line s) = nametags s"
  by (auto simp: handle_despawn_remote_def release_ghost_def handle_session_policy_def handle_remote_input_def
      handle_recording_state_def Let_def split: option.splits prod.splits)

text \<open>
  Property C2. A bridge line touches only the player it names: whatever a peer's line holds, every other
  player's ghost state and inputs stay as they were, and so does the name remembered for it. One exception, by
  design: when 1024 names are remembered and a new player's comes in, the names of players who have no entry
  are forgotten.
\<close>

theorem line_touches_its_player_only:
  assumes "q \<noteq> line_target line"
  shows "let s' = snd (handle_bridge_line a destroyed now_ms line s) in
    remotes s' q = remotes s q \<and> ghost_inputs s' q = ghost_inputs s q \<and>
    (nametags s' q = nametags s q \<or>
     (1024 \<le> card (dom (nametags s)) \<and> nametags s (line_target line) = None \<and> remotes s q = None \<and> nametags s' q = None))"
  using assms handle_remote_name_tags [OF assms, of s]
  by (simp add: handle_bridge_line_def Let_def handle_render_remote_other handle_remote_input_others
      handle_despawn_remote_others lines_keep_tags)

section \<open>Names\<close>

text \<open>
  The remembered names stay bounded whatever the relay sends: a \<^verbatim>\<open>remote_name\<close> leaves
  at most 1024 names, or one more than the players with an entry when those are more; the name just
  sent is stored, and no player who has an entry loses the name it had.
\<close>

theorem nametags_bounded:
  assumes fin: "finite (dom (nametags s))" and n: "card (dom (nametags s)) \<le> 1024"
    and sp: "line_payload line = Some sp" and id: "line_target line \<noteq> []"
  defines "s' \<equiv> handle_remote_name line s"
  shows "card (dom (nametags s')) \<le> max 1024 (card (dom (remotes s) \<inter> dom (nametags s)) + 1) \<and>
    nametags s' (line_target line) = Some \<lparr>tag_name = member_str line sp ''display_name'', tag_color = member_str line sp ''color''\<rparr> \<and>
    (\<forall>q. q \<noteq> line_target line \<longrightarrow> remotes s q \<noteq> None \<longrightarrow> nametags s' q = nametags s q)"
proof (intro conjI)
  let ?id = "line_target line" and ?tag = "\<lparr>tag_name = member_str line sp ''display_name'', tag_color = member_str line sp ''color''\<rparr>"
  let ?full = "card (dom (nametags s)) \<ge> 1024 \<and> nametags s ?id = None"
  let ?tags = "if ?full then nametags s |` dom (remotes s) else nametags s"
  have idm: "?id = member_str line sp ''player_id''" by (simp add: line_target_def sp)
  have new: "nametags s' = ?tags(?id \<mapsto> ?tag)"
    using id by (simp add: s'_def handle_remote_name_def sp idm Let_def MAX_REMEMBERED_NAMETAGS_def)
  show "nametags s' ?id = Some ?tag" by (simp add: new)
  show "\<forall>q. q \<noteq> ?id \<longrightarrow> remotes s q \<noteq> None \<longrightarrow> nametags s' q = nametags s q"
    by (auto simp: new restrict_map_def)
  show "card (dom (nametags s')) \<le> max 1024 (card (dom (remotes s) \<inter> dom (nametags s)) + 1)"
  proof (cases ?full)
    case True
    then have "dom (nametags s') = insert ?id (dom (remotes s) \<inter> dom (nametags s))" by (auto simp: new)
    moreover have "card (insert ?id (dom (remotes s) \<inter> dom (nametags s))) \<le> card (dom (remotes s) \<inter> dom (nametags s)) + 1"
      using fin by (simp add: card_insert_if)
    ultimately show ?thesis by simp
  next
    case False
    have "card (dom (nametags s')) = card (insert ?id (dom (nametags s)))" using False by (subst new) auto
    also have "\<dots> \<le> 1024"
    proof (cases "?id \<in> dom (nametags s)")
      case True
      then show ?thesis using n by (simp add: insert_absorb)
    next
      case False
      with \<open>\<not> ?full\<close> have "card (dom (nametags s)) < 1024" by auto
      with False fin show ?thesis by (simp add: card_insert_if)
    qed
    finally show ?thesis by simp
  qed
qed

section \<open>The lifetime of an entry\<close>

text \<open>
  A \<^verbatim>\<open>despawn_remote\<close> for a known player with a ghost makes exactly one engine
  request, the destroy or, when the game does not reflect it, the move to the parking height; it
  forgets the entry and the input track, and the actor; the remembered name is kept.
\<close>

theorem despawn_forgets_player:
  assumes ty: "json_string_field line ''type'' = ''despawn_remote''"
    and id: "line_target line \<noteq> []" and r: "remotes s (line_target line) = Some r" and g: "ghost r = Some g"
  shows "let (acts, s') = handle_bridge_line a destroyed now_ms line s in
         acts = [if destroyed then DestroyActor g
                 else ParkActor g (fst (target_pos (pose r)), fst (snd (target_pos (pose r))), Fin (- 500000)) (target_rot (pose r))] \<and>
         remotes s' = (remotes s)(line_target line := None) \<and>
         ghost_inputs s' = (ghost_inputs s)(line_target line := None) \<and>
         g \<notin> hijacked_actors s' \<and> nametags s' = nametags s"
proof -
  from id obtain sp where sp: "line_payload line = Some sp" and pid: "line_target line = member_str line sp ''player_id''"
    by (auto simp: line_target_def split: option.splits)
  from id pid have "member_str line sp ''player_id'' \<noteq> []" by simp
  moreover have "remotes s (member_str line sp ''player_id'') = Some r" using r pid by simp
  ultimately show ?thesis using g
    by (simp add: handle_bridge_line_def ty handle_despawn_remote_def sp pid release_ghost_def
        release_entry_def Let_def DESPAWN_PARK_Z_def split: prod.splits)
qed

section \<open>Spawning\<close>

lemma restore_suppress: "restore_templates a t (suppress_templates a t) = t"
  by (simp add: restore_templates_def suppress_templates_def)

definition spawn_leaves :: "spawn_answers \<Rightarrow> engine_action list \<times> game \<Rightarrow> class_templates \<Rightarrow> bool" where
  "spawn_leaves a r saved \<longleftrightarrow>
     (\<forall>t. SpawnActor t \<in> set (fst r) \<longrightarrow> t = suppress_templates a saved) \<and>
     (if bare_ghost a \<and> spawned_actor a \<noteq> None \<and> (\<exists>t. SpawnActor t \<in> set (fst r))
      then SpawnActor (templates (snd r)) \<in> set (fst r) else templates (snd r) = saved)"

lemma ensure_ghost_spawned_leaves: "spawn_leaves a (ensure_ghost_spawned a p s) (templates s)"
  by (auto simp: spawn_leaves_def ensure_ghost_spawned_def Let_def restore_suppress split: option.splits)

lemma handle_render_remote_leaves: "spawn_leaves a (handle_render_remote a now_ms line s) (templates s)"
  using ensure_ghost_spawned_leaves [of a _ s]
  by (fastforce simp: spawn_leaves_def handle_render_remote_def Let_def split_beta split: option.splits if_splits)

lemma handle_bridge_line_leaves: "spawn_leaves a (handle_bridge_line a destroyed now_ms line s) (templates s)"
  using handle_render_remote_leaves [of a now_ms line s]
  by (auto simp: spawn_leaves_def handle_bridge_line_def Let_def split_beta handle_remote_name_def handle_recording_state_def
      handle_remote_input_def handle_session_policy_def handle_despawn_remote_def release_ghost_def release_entry_def
      split: option.splits if_splits)

text \<open>
  Property C18. A line that spawns a ghost has the clone built from templates whose possession is disabled, whose light
  is none and whose overlaps are off, as far as each of the three is found and asked for, and as the class has them
  otherwise. Once the line is handled the class templates are what they were, whether or not the engine gave an actor;
  except that with the bare-ghost toggle on, a spawn that succeeds leaves them as the clone was built from.
\<close>

theorem spawn_restores_templates:
  "let (acts, s') = handle_bridge_line a destroyed now_ms line s in
     (\<forall>t. SpawnActor t \<in> set acts \<longrightarrow>
        auto_possess_player t = (if has_auto_possess a then 0 else auto_possess_player (templates s)) \<and>
        light_child_class t = (if light_template a then None else light_child_class (templates s)) \<and>
        capsule_overlaps t = (capsule_overlaps (templates s) \<and> \<not> overlap_template a)) \<and>
     (if bare_ghost a \<and> spawned_actor a \<noteq> None \<and> (\<exists>t. SpawnActor t \<in> set acts)
      then SpawnActor (templates s') \<in> set acts else templates s' = templates s)"
  using handle_bridge_line_leaves [of a destroyed now_ms line s]
  by (auto simp: spawn_leaves_def suppress_templates_def split: prod.splits if_splits)

text \<open>
  With the bare-ghost toggle the early return comes before the templates are put back: the class
  default object keeps \<^verbatim>\<open>AutoPossessPlayer\<close> disabled, and the player's own next pawn is built from it.
\<close>

theorem bare_spawn_leaves_possession_off:
  assumes "may_spawn a player_id s" "bare_ghost a" "spawned_actor a = Some g" "has_auto_possess a"
  shows "auto_possess_player (templates (snd (ensure_ghost_spawned a player_id s))) = 0"
  using assms by (simp add: ensure_ghost_spawned_def Let_def suppress_templates_def)

text \<open>The lines of one tick, with what the engine answers to each.\<close>

fun handle_lines :: "(spawn_answers \<times> bool \<times> u64 \<times> string) list \<Rightarrow> game \<Rightarrow> engine_action list \<times> game" where
  "handle_lines [] s = ([], s)"
| "handle_lines ((a, destroyed, now_ms, line) # ls) s =
     (case handle_bridge_line a destroyed now_ms line s of
        (acts, s) \<Rightarrow> (case handle_lines ls s of (acts', s) \<Rightarrow> (acts @ acts', s)))"

definition actor_spawns :: "engine_action list \<Rightarrow> engine_action list" where
  "actor_spawns acts = [x \<leftarrow> acts. case x of SpawnActor _ \<Rightarrow> True | _ \<Rightarrow> False]"

definition just_spawned :: "game \<Rightarrow> bool" where
  "just_spawned s \<longleftrightarrow> last_ghost_spawn_tick s \<noteq> 0 \<and> tick_count s < last_ghost_spawn_tick s + GHOST_SPAWN_SPACING_TICKS"

lemma just_spawned_blocks: "just_spawned s \<Longrightarrow> ensure_ghost_spawned a p s = ([], s)"
  by (simp add: just_spawned_def ensure_ghost_spawned_def may_spawn_def)

lemma spawn_sets_spacing:
  assumes "spawned_actor a \<noteq> None" "\<not> bare_ghost a" "tick_count s \<noteq> 0" "tick_count s < tick_count s + GHOST_SPAWN_SPACING_TICKS"
    and "ensure_ghost_spawned a p s = (acts, s')"
  shows "acts = [] \<and> s' = s \<or> length acts = 1 \<and> just_spawned s'"
  using assms by (auto simp: ensure_ghost_spawned_def Let_def just_spawned_def split: if_splits option.splits)

lemma handle_bridge_line_clock:
  "tick_count (snd (handle_bridge_line a d now line s)) = tick_count s"
  by (auto simp: handle_bridge_line_def Let_def split_beta handle_remote_name_def handle_recording_state_def
      handle_render_remote_def ensure_ghost_spawned_def handle_remote_input_def handle_session_policy_def
      handle_despawn_remote_def release_ghost_def release_entry_def split: option.splits bool.splits)

lemma actor_spawns_simps [simp]:
  "actor_spawns [] = []" "actor_spawns (xs @ ys) = actor_spawns xs @ actor_spawns ys"
  "actor_spawns (SpawnActor t # xs) = SpawnActor t # actor_spawns xs" "actor_spawns (DestroyActor g # xs) = actor_spawns xs"
  "actor_spawns (ParkActor g p q # xs) = actor_spawns xs"
  by (simp_all add: actor_spawns_def)

lemma release_ghost_spawn_frame:
  "actor_spawns (fst (release_ghost destroyed p s)) = []" "tick_count (snd (release_ghost destroyed p s)) = tick_count s"
  "last_ghost_spawn_tick (snd (release_ghost destroyed p s)) = last_ghost_spawn_tick s"
  by (auto simp: release_ghost_def release_entry_def Let_def split_beta split: option.splits prod.splits)

lemma line_spawn_step:
  assumes clock: "tick_count s \<noteq> 0" "tick_count s < tick_count s + GHOST_SPAWN_SPACING_TICKS"
    and a: "spawned_actor a \<noteq> None" "\<not> bare_ghost a"
  shows "let (acts, s') = handle_bridge_line a d now line s in
         (actor_spawns acts = [] \<and> just_spawned s' = just_spawned s) \<or>
         (\<not> just_spawned s \<and> length (actor_spawns acts) = 1 \<and> just_spawned s')"
proof (cases "json_string_field line ''type'' = ''render_remote''")
  case True
  show ?thesis
  proof (cases "render_head line")
    case None
    then show ?thesis using True by (simp add: handle_bridge_line_def handle_render_remote_def)
  next
    case (Some h)
    obtain p q sp where h: "h = (p, q, sp)" by (cases h)
    obtain acts t where t: "ensure_ghost_spawned a p s = (acts, t)" by fastforce
    have up: "just_spawned (t\<lparr>remotes := m\<rparr>) = just_spawned t" for m by (simp add: just_spawned_def)
    have acts: "acts = [] \<or> (\<exists>x. acts = [SpawnActor x])"
      using t by (auto simp: ensure_ghost_spawned_def Let_def split: if_splits option.splits bool.splits)
    have "acts = [] \<and> t = s \<or> \<not> just_spawned s \<and> length acts = 1 \<and> just_spawned t"
      using spawn_sets_spacing [OF a clock t] just_spawned_blocks [of s a p] t by auto
    then show ?thesis using True Some h t acts up
      by (auto simp: handle_bridge_line_def handle_render_remote_def Let_def split: option.splits)
  qed
next
  case False
  have "actor_spawns acts = [] \<and> just_spawned s' = just_spawned s" if "handle_bridge_line a d now line s = (acts, s')" for acts s'
    using that False
    by (auto simp: release_ghost_spawn_frame handle_bridge_line_def Let_def handle_remote_name_def handle_recording_state_def
        handle_remote_input_def handle_session_policy_def handle_despawn_remote_def just_spawned_def split_beta
        split: option.splits if_splits prod.splits)
  then show ?thesis by (auto split: prod.splits)
qed

text \<open>
  Spawns are spread: whatever lines arrive, the lines handled in one tick ask the
  engine for at most one actor, and none when a ghost was spawned in this tick or the one before.
\<close>

theorem one_spawn_per_tick:
  assumes "tick_count s \<noteq> 0" "tick_count s < tick_count s + GHOST_SPAWN_SPACING_TICKS"
    and "\<forall>(a, _) \<in> set ls. spawned_actor a \<noteq> None \<and> \<not> bare_ghost a"
  shows "length (actor_spawns (fst (handle_lines ls s))) \<le> (if just_spawned s then 0 else 1)"
  using assms
proof (induction ls arbitrary: s)
  case (Cons x ls)
  obtain a d now line where x: "x = (a, d, now, line)" by (cases x)
  obtain acts s' where s': "handle_bridge_line a d now line s = (acts, s')" by fastforce
  have "tick_count s' = tick_count s" using handle_bridge_line_clock [of a d now line s] s' by simp
  then have "length (actor_spawns (fst (handle_lines ls s'))) \<le> (if just_spawned s' then 0 else 1)"
    using Cons by auto
  moreover have "actor_spawns acts = [] \<and> just_spawned s' = just_spawned s \<or> \<not> just_spawned s \<and> length (actor_spawns acts) = 1 \<and> just_spawned s'"
    using line_spawn_step [OF Cons.prems(1,2), of a d now line] Cons.prems(3) x s' by simp
  ultimately show ?case by (auto simp: x s' split: prod.splits)
qed simp

section \<open>Concrete lines\<close>

definition despawn_line :: string where
  "despawn_line = ''{'' @ [chr_quote] @ ''type'' @ [chr_quote] @ '':'' @ [chr_quote] @ ''despawn_remote'' @ [chr_quote] @ '','' @
     [chr_quote] @ ''payload'' @ [chr_quote] @ '':{'' @ [chr_quote] @ ''player_id'' @ [chr_quote] @ '':'' @ [chr_quote] @ ''a'' @
     [chr_quote] @ ''}}''"

lemma despawn_line_read:
  "json_string_field despawn_line ''type'' = ''despawn_remote''" "line_payload despawn_line = Some (36, 51)"
  "line_target despawn_line = ''a''"
  by code_simp+

definition sample_templates :: class_templates where
  "sample_templates = \<lparr>auto_possess_player = 1, light_child_class = Some 7, capsule_overlaps = True\<rparr>"

definition sample_answers :: spawn_answers where
  "sample_answers = \<lparr>have_pawn = True, have_controller = True, ticks_since_pawn_valid = 200, looks_like_player = True,
     pawn_world = Some 1, placed = True, have_pawn_class = True, spawn_loc = (Fin 1, Fin 2, Fin 3), spawn_far = False,
     spawned_actor = Some 5, bare_ghost = False, has_auto_possess = True, light_template = True, overlap_template = True\<rparr>"

definition sample_game :: game where
  "sample_game = (new_game sample_templates)\<lparr>remotes := [''a'' \<mapsto> new_remote\<lparr>ghost := Some 5\<rparr>], hijacked_actors := {5}, tick_count := 300\<rparr>"

definition jstr :: "string \<Rightarrow> string" where "jstr s = [chr_quote] @ s @ [chr_quote]"

definition render_line :: string where
  "render_line = ''{'' @ jstr ''type'' @ '':'' @ jstr ''render_remote'' @ '','' @ jstr ''payload'' @ '':{'' @ jstr ''player_id'' @ '':'' @
     jstr ''b'' @ '','' @ jstr ''state'' @ '':{'' @ jstr ''position'' @ '':[1,2,3]}}}''"

lemma render_line_read:
  "json_string_field render_line ''type'' = ''render_remote''"
  "render_scopes render_line = Some \<lparr>payload_span = (35, 79), state_span = (60, 78), extras_span = (0, 0)\<rparr>"
  "json_string_member render_line 35 79 ''player_id'' = ''b''"
  "json_member_value render_line 60 78 ''position'' = Some 71" "render_line ! 71 = CHR ''[''"
  by code_simp+

lemma render_line_position: "sscanf_lf3 (drop 72 render_line) zero3 = (3, Fin 1, Fin 2, Fin 3)"
  by (simp add: render_line_def jstr_def scan_defs)

lemma render_line_head:
  "render_head render_line =
     Some (''b'', (Fin 1, Fin 2, Fin 3), \<lparr>payload_span = (35, 79), state_span = (60, 78), extras_span = (0, 0)\<rparr>)"
  by (simp add: render_head_def render_line_read finite_vec_def member_vec_def json_vec3_member_def render_line_position)

lemma sample_spawn:
  "fst (handle_bridge_line sample_answers True 0 render_line sample_game) = [SpawnActor \<lparr>auto_possess_player = 0, light_child_class = None, capsule_overlaps = False\<rparr>]"
  by (simp add: handle_bridge_line_def render_line_read handle_render_remote_def render_line_head ensure_ghost_spawned_def
      may_spawn_def sample_answers_def sample_game_def new_game_def SPAWN_DELAY_TICKS_def suppress_templates_def sample_templates_def Let_def)

theorem line_touches_its_player_only_witness:
  "remotes (snd (handle_bridge_line sample_answers True 0 despawn_line sample_game)) ''b'' = None"
  using line_touches_its_player_only [of "''b''" despawn_line sample_answers True 0 sample_game]
  by (simp add: despawn_line_read sample_game_def new_game_def Let_def)

theorem nametags_bounded_witness:
  "card (dom (nametags (handle_remote_name despawn_line sample_game))) \<le> 1024"
  using nametags_bounded [of sample_game despawn_line "(36, 51)"]
  by (simp add: despawn_line_read sample_game_def new_game_def)

theorem despawn_forgets_player_witness:
  "fst (handle_bridge_line sample_answers True 0 despawn_line sample_game) = [DestroyActor 5]"
  using despawn_forgets_player [of despawn_line sample_game "new_remote\<lparr>ghost := Some 5\<rparr>" 5 sample_answers True 0]
  by (auto simp: despawn_line_read sample_game_def new_game_def split_beta)

theorem spawn_restores_templates_witness:
  "capsule_overlaps sample_templates \<and>
   SpawnActor \<lparr>auto_possess_player = 0, light_child_class = None, capsule_overlaps = False\<rparr>
     \<in> set (fst (handle_bridge_line sample_answers True 0 render_line sample_game)) \<and>
   templates (snd (handle_bridge_line sample_answers True 0 render_line sample_game)) = sample_templates"
  using spawn_restores_templates [of sample_answers True 0 render_line sample_game] sample_spawn
  by (simp add: sample_answers_def sample_game_def new_game_def sample_templates_def split_beta)

theorem one_spawn_per_tick_witness:
  "length (actor_spawns (fst (handle_lines [(sample_answers, True, 0, render_line), (sample_answers, True, 0, render_line)] sample_game))) = 1"
  using one_spawn_per_tick [of sample_game "[(sample_answers, True, 0, render_line), (sample_answers, True, 0, render_line)]"]
    sample_spawn
  by (auto simp: sample_answers_def sample_game_def new_game_def GHOST_SPAWN_SPACING_TICKS_def just_spawned_def split_beta)

end
