(* ===== verification/Ghost_Tiers.thy ===== *)
theory Ghost_Tiers
  imports Remote Launcher
begin

text \<open>
  The distance tiers of a ghost (\<^verbatim>\<open>Plugin.cpp\<close>: \<^verbatim>\<open>poll_ghost_range_config\<close>,
  \<^verbatim>\<open>ghost_tier_for_distance\<close>, \<^verbatim>\<open>apply_ghost_distance_tier\<close>): 0 full, 1 throttled, 2 far,
  3 dormant. Every knob a tier owns is an engine call; \<open>knobs_match\<close> is what the calls must leave.
\<close>

section \<open>Ranges\<close>

record ghost_ranges =
  ghost_range_throttle :: dbl
  ghost_range_far :: dbl
  ghost_range :: dbl

definition default_ranges :: ghost_ranges where
  "default_ranges = \<lparr>ghost_range_throttle = Fin 6500, ghost_range_far = Fin 8500, ghost_range = Fin 10500\<rparr>"

definition poll_range_key :: "dbl option \<Rightarrow> dbl \<Rightarrow> dbl" where
  "poll_range_key v old =
     (case v of None \<Rightarrow> old | Some x \<Rightarrow> if dbl_le (Fin 0) x \<and> dbl_ne x old then x else old)"

text \<open>\<open>texts key\<close> is the configuration text seen when that key is read.\<close>

definition poll_ghost_range_config :: "(string \<Rightarrow> string option) \<Rightarrow> ghost_ranges \<Rightarrow> ghost_ranges" where
  "poll_ghost_range_config texts g =
     (let read = (\<lambda>key. config_number_value (texts key) key) in
      \<lparr>ghost_range_throttle = poll_range_key (read ''ghost_range_throttle'') (ghost_range_throttle g),
       ghost_range_far = poll_range_key (read ''ghost_range_far'') (ghost_range_far g),
       ghost_range = poll_range_key (read ''ghost_range'') (ghost_range g)\<rparr>)"

section \<open>Choosing a tier\<close>

text \<open>A tier is left at 95 percent of the distance it is entered at.\<close>

definition LEAVE_FACTOR :: dbl where
  "LEAVE_FACTOR = rnd_double (95 / 100)"

definition beyond :: "dbl \<Rightarrow> nat \<Rightarrow> dbl \<Rightarrow> nat \<Rightarrow> bool" where
  "beyond distance current rg tier =
     (if dbl_le rg (Fin 0) then False
      else dbl_le (if tier \<le> current then dbl_mult rg LEAVE_FACTOR else rg) distance)"

definition ghost_tier_for_distance :: "ghost_ranges \<Rightarrow> dbl \<Rightarrow> nat \<Rightarrow> nat" where
  "ghost_tier_for_distance g distance current =
     (if beyond distance current (ghost_range g) 3 then 3
      else if beyond distance current (ghost_range_far g) 2 then 2
      else if beyond distance current (ghost_range_throttle g) 1 then 1
      else 0)"

section \<open>Applying a tier\<close>

datatype knob_call =
    MeshKnobs string bool bool
  | SetActorHiddenInGame bool
  | SetActorTickEnabled bool
  | SetMovementTickEnabled bool

definition tier_meshes :: "string list" where
  "tier_meshes = [''Mesh'', ''VisualMesh'', ''WeaponMesh'']"

definition apply_ghost_distance_tier ::
  "(string \<Rightarrow> bool) \<Rightarrow> bool \<Rightarrow> nat \<Rightarrow> remote_ghost \<Rightarrow> knob_call list \<times> remote_ghost" where
  "apply_ghost_distance_tier has_mesh has_movement tier r =
     (case ghost r of
        None \<Rightarrow> ([], r)
      | Some _ \<Rightarrow>
          let dormant = (3 \<le> tier) in
          ([MeshKnobs m (1 \<le> tier) (2 \<le> tier). m \<leftarrow> tier_meshes, has_mesh m] @
           [SetActorHiddenInGame dormant, SetActorTickEnabled (\<not> dormant)] @
           (if has_movement \<and> (dormant \<or> 3 \<le> distance_tier r) then [SetMovementTickEnabled (\<not> dormant)] else []),
           r\<lparr>distance_tier := tier\<rparr>))"

text \<open>The remotes loop's step: only a change of tier costs calls.\<close>

definition tick_tier ::
  "(string \<Rightarrow> bool) \<Rightarrow> bool \<Rightarrow> ghost_ranges \<Rightarrow> dbl \<Rightarrow> remote_ghost \<Rightarrow> knob_call list \<times> remote_ghost" where
  "tick_tier has_mesh has_movement g distance r =
     (let tier = ghost_tier_for_distance g distance (distance_tier r) in
      if tier \<noteq> distance_tier r then apply_ghost_distance_tier has_mesh has_movement tier r else ([], r))"

section \<open>The hysteresis\<close>

lemma rnd_double_half: "rnd_double (1 / 2) = Fin (1 / 2)"
proof -
  have "(2::rat) ^ 1074 = 2 * 2 ^ 1073" by (simp flip: power_Suc)
  then have "representable 53 1074 1024 (1 / 2)"
    unfolding representable_def by (intro exI [of _ 1] exI [of _ 1073]) simp
  then show ?thesis unfolding rnd_double_def by (rule fp_round_representable)
qed

lemma LEAVE_FACTOR_range: "\<exists>c. LEAVE_FACTOR = Fin c \<and> 0 < c \<and> c \<le> 1"
proof -
  obtain r where "rnd_double (95 / 100) = Fin r" "1 / 2 \<le> r" "r \<le> 1"
    by (rule double.rnd_between [OF rnd_double_half rnd_double_0_1(2), of "95 / 100"]) simp_all
  then show ?thesis by (auto simp: LEAVE_FACTOR_def)
qed

lemma leave_le_enter:
  assumes "is_double rg" and "\<not> dbl_le rg (Fin 0)" and "rg \<noteq> NaN"
  shows "dbl_le (dbl_mult rg LEAVE_FACTOR) rg"
proof -
  obtain c where c: "LEAVE_FACTOR = Fin c" "0 < c" "c \<le> 1" using LEAVE_FACTOR_range by blast
  show ?thesis
  proof (cases rg)
    case (Fin q)
    then have q: "0 < q" "rnd_double q = Fin q" using assms by (auto simp: is_double_def)
    then have "q * c \<le> q" using c(3) by simp
    then show ?thesis using double.rnd_mono [of "q * c" q] q(2) by (simp add: Fin c(1))
  qed (use assms c(2) in \<open>auto simp: c(1) inf_times_def\<close>)
qed

lemma beyond_keeps:
  assumes "is_double rg" and "beyond distance current rg tier" and "tier \<le> current \<Longrightarrow> tier \<le> current'"
  shows "beyond distance current' rg tier"
  using assms leave_le_enter [OF assms(1)] dbl_le_trans
  by (cases "rg = NaN") (auto simp: beyond_def split: if_splits)

lemma beyond_grows: "beyond d current rg tier \<Longrightarrow> dbl_le d d' \<Longrightarrow> beyond d' current rg tier"
  by (auto simp: beyond_def dest: dbl_le_trans split: if_splits)

lemma beyond_same_side: "(tier \<le> c \<longleftrightarrow> tier \<le> c') \<Longrightarrow> beyond d c rg tier = beyond d c' rg tier"
  by (simp add: beyond_def)


text \<open>
  The tier never flaps: at a given distance the chosen tier, once taken, is chosen
  again (with the ranges as doubles, whatever tier the ghost was in, whatever order the ranges are in),
  and a ghost further away never gets a nearer tier.
\<close>

theorem tier_hysteresis:
  assumes "is_double (ghost_range g)" "is_double (ghost_range_far g)" "is_double (ghost_range_throttle g)"
  shows "(let t = ghost_tier_for_distance g d c in ghost_tier_for_distance g d t = t) \<and>
         (dbl_le d d' \<longrightarrow> ghost_tier_for_distance g d c \<le> ghost_tier_for_distance g d' c)"
proof
  note keeps = beyond_keeps [OF assms(1)] beyond_keeps [OF assms(2)] beyond_keeps [OF assms(3)]
  show "let t = ghost_tier_for_distance g d c in ghost_tier_for_distance g d t = t"
    using keeps(1) [of d _ 3] keeps(2) [of d _ 2] keeps(3) [of d _ 1]
    by (auto simp: ghost_tier_for_distance_def Let_def)
  show "dbl_le d d' \<longrightarrow> ghost_tier_for_distance g d c \<le> ghost_tier_for_distance g d' c"
    by (auto simp: ghost_tier_for_distance_def dest: beyond_grows [of d c _ _ d'])
qed

lemma default_ranges_doubles:
  "is_double (ghost_range default_ranges)" "is_double (ghost_range_far default_ranges)"
  "is_double (ghost_range_throttle default_ranges)"
  by (simp_all add: default_ranges_def is_double_def)

theorem tier_hysteresis_witness:
  "ghost_tier_for_distance default_ranges (Fin 10600) 0 = 3 \<and>
   ghost_tier_for_distance default_ranges (Fin 10600) 3 = 3 \<and>
   ghost_tier_for_distance default_ranges (Fin 20000) 0 \<ge> 3"
proof -
  have "ghost_tier_for_distance default_ranges (Fin 10600) 0 = 3"
    by (simp add: ghost_tier_for_distance_def beyond_def default_ranges_def)
  then show ?thesis
    using tier_hysteresis [OF default_ranges_doubles, of "Fin 10600" 0 "Fin 20000"] by (simp add: Let_def)
qed

section \<open>The knobs\<close>

text \<open>What the calls do to the pawn (the engine's own setters).\<close>

record pawn_knobs =
  mesh_knobs :: "string \<Rightarrow> bool \<times> bool"
  hidden :: bool
  actor_ticks :: bool
  movement_ticks :: bool

fun knob_effect :: "knob_call \<Rightarrow> pawn_knobs \<Rightarrow> pawn_knobs" where
  "knob_effect (MeshKnobs m throttle freeze) k = k\<lparr>mesh_knobs := (mesh_knobs k)(m := (throttle, freeze))\<rparr>"
| "knob_effect (SetActorHiddenInGame b) k = k\<lparr>hidden := b\<rparr>"
| "knob_effect (SetActorTickEnabled b) k = k\<lparr>actor_ticks := b\<rparr>"
| "knob_effect (SetMovementTickEnabled b) k = k\<lparr>movement_ticks := b\<rparr>"

definition run_knobs :: "knob_call list \<Rightarrow> pawn_knobs \<Rightarrow> pawn_knobs" where
  "run_knobs calls k = fold knob_effect calls k"

text \<open>The abstract contract: the knobs are a function of the tier alone.\<close>

definition knobs_match :: "(string \<Rightarrow> bool) \<Rightarrow> bool \<Rightarrow> nat \<Rightarrow> pawn_knobs \<Rightarrow> bool" where
  "knobs_match has_mesh has_movement tier k \<longleftrightarrow>
     (\<forall>m \<in> set tier_meshes. has_mesh m \<longrightarrow> mesh_knobs k m = (1 \<le> tier, 2 \<le> tier)) \<and>
     hidden k = (3 \<le> tier) \<and> actor_ticks k = (tier < 3) \<and> (has_movement \<longrightarrow> movement_ticks k = (tier < 3))"

fun tick_tiers ::
  "(string \<Rightarrow> bool) \<Rightarrow> bool \<Rightarrow> (ghost_ranges \<times> dbl) list \<Rightarrow> remote_ghost \<times> pawn_knobs \<Rightarrow> remote_ghost \<times> pawn_knobs" where
  "tick_tiers has_mesh has_movement [] (r, k) = (r, k)"
| "tick_tiers has_mesh has_movement ((g, d) # ds) (r, k) =
     (case tick_tier has_mesh has_movement g d r of
        (calls, r) \<Rightarrow> tick_tiers has_mesh has_movement ds (r, run_knobs calls k))"

lemma apply_tier_knobs:
  assumes "ghost r = Some g" and "knobs_match hm mv (distance_tier r) k"
  shows "knobs_match hm mv tier (run_knobs (fst (apply_ghost_distance_tier hm mv tier r)) k)"
  using assms by (auto simp: apply_ghost_distance_tier_def Let_def run_knobs_def knobs_match_def tier_meshes_def)

lemma tick_tier_knobs:
  assumes "ghost r = Some a" and "knobs_match hm mv (distance_tier r) k"
  shows "ghost (snd (tick_tier hm mv g d r)) = Some a \<and>
     knobs_match hm mv (distance_tier (snd (tick_tier hm mv g d r))) (run_knobs (fst (tick_tier hm mv g d r)) k)"
  using assms apply_tier_knobs [OF assms]
  by (auto simp: tick_tier_def Let_def run_knobs_def apply_ghost_distance_tier_def)

text \<open>
  Property C16. Whatever distances a ghost passes through, and however the ranges are changed
  while it does, the knobs on its pawn are those of the tier it is in: a ghost that skips a tier, or
  wakes from dormant, ends up as one that went step by step.
\<close>

theorem tier_knobs_refine:
  assumes "ghost r = Some a" and "knobs_match hm mv (distance_tier r) k"
  shows "case tick_tiers hm mv ds (r, k) of (r', k') \<Rightarrow> knobs_match hm mv (distance_tier r') k'"
  using assms
proof (induction ds arbitrary: r k)
  case (Cons x ds)
  obtain g d where x: "x = (g, d)" by (cases x)
  obtain calls r' where t: "tick_tier hm mv g d r = (calls, r')" by fastforce
  then show ?case using Cons.IH [of r' "run_knobs calls k"] tick_tier_knobs [OF Cons.prems, of g d] x by simp
qed simp

theorem tier_knobs_refine_witness:
  "let k = \<lparr>mesh_knobs = (\<lambda>_. (False, False)), hidden = False, actor_ticks = True, movement_ticks = True\<rparr>;
       (r', k') = tick_tiers (\<lambda>_. True) True [(default_ranges, Fin 20000)] (new_remote\<lparr>ghost := Some 5\<rparr>, k)
   in distance_tier r' = 3 \<and> hidden k' \<and> \<not> movement_ticks k'"
  using tier_knobs_refine [of "new_remote\<lparr>ghost := Some 5\<rparr>" 5 "\<lambda>_. True" True
      "\<lparr>mesh_knobs = (\<lambda>_. (False, False)), hidden = False, actor_ticks = True, movement_ticks = True\<rparr>"
      "[(default_ranges, Fin 20000)]"]
  by (simp add: knobs_match_def new_remote_def tick_tier_def ghost_tier_for_distance_def beyond_def default_ranges_def
      apply_ghost_distance_tier_def split_beta)

end
