(* ===== verification/Ghost_Tick.thy ===== *)
theory Ghost_Tick
  imports Ghost_Tiers Line_Props
begin

text \<open>
  What one game tick does to a ghost that is up (\<^verbatim>\<open>Plugin::game_thread_tick\<close>, the remotes loop):
  the stale and world-change releases, the distance tier, and the mirrors, each a step on the entry,
  the pawn's reflected properties and the hurt mirror's disarm latch, returning the calls it makes.
  A property the build does not reflect is \<open>None\<close> and is not written. The drive rig is off
  (\<^verbatim>\<open>drive_this\<close> is false); the steps are in the code's order.
\<close>

section \<open>The pawn and the answers\<close>

record pawn =
  capsule_half_height :: "dbl option"
  is_crouched :: "bool option"
  slide_track :: "dbl option"
  base_offset_z :: "dbl option"
  place :: "triple \<times> triple"
  p_move_state :: "8 word option"
  p_action_state :: "8 word option"
  p_horizontal_speed :: "dbl option"
  p_vertical_speed :: "dbl option"
  p_anim_jump_type :: "8 word option"
  p_movement_mode :: "8 word option"
  weapon_mesh_visible :: "bool option"
  weapon_equipped_prop :: "bool option"
  anim_equipped_weapon :: "bool option"
  landed :: "bool option"
  jumped :: "bool option"
  afterimages_to_spawn :: "int option"
  afterimage_color :: "triple option"

datatype pawn_call =
    Knob knob_call
  | CrouchInput bool
  | StartCrouch dbl
  | EndCrouch dbl
  | SlideTimelineUpdate
  | PlaceActor triple triple
  | DamageResponse
  | TryDamage dbl
  | DieFade
  | ChangeBubbleChargedJump bool
  | StartBubbleJumpFlash bool
  | ChangeEquippedWeapon bool
  | UpdateWeaponEquip bool
  | SetWeaponMeshVisible bool
  | SetBlobShadowVisible bool
  | MontagePlay string
  | MontageStop
  | SetOutfitMesh string
  | SetWeaponMesh nat string
  | SpawnNumAfterimages

text \<open>A mesh component the weapon model is applied to.\<close>

record mesh_target =
  mt_unreachable :: bool
  mt_registered :: bool
  mt_visible :: bool
  mt_holds :: bool

text \<open>What the engine answers during the tick; an asset resolves to the name of its class.\<close>

record tick_answers =
  alive :: bool
  ta_world :: "nat option"
  distance_to :: "(triple \<Rightarrow> dbl) option"
  has_mesh :: "string \<Rightarrow> bool"
  has_movement :: bool
  damage_called :: bool
  hp_before :: "dbl option"
  hp_after :: "dbl option"
  player_frozen :: bool
  capsules_overlap :: bool
  own_hp :: "dbl option"
  intangible :: bool
  has_abp :: bool
  weapon_hidden_toggle :: bool
  equip_call_skipped :: bool
  equip_anim_skipped :: bool
  has_shadow :: bool
  find_asset :: "string \<Rightarrow> string \<Rightarrow> string option"
  active_montage :: "string option"
  has_visual_mesh :: bool
  skeleton_alive :: bool
  weapon_targets :: "mesh_target list"

type_synonym stage = "remote_ghost \<times> pawn \<times> bool"
type_synonym mirror = "stage \<Rightarrow> pawn_call list \<times> stage"

definition PULSE_HOLD_TICKS :: nat where "PULSE_HOLD_TICKS = 3"
definition MAX_PEER_AFTERIMAGE_SPAWN :: int where "MAX_PEER_AFTERIMAGE_SPAWN = 64"
definition CHASER_HURT_DAMAGE :: rat where "CHASER_HURT_DAMAGE = 5"
definition LOG_INTERVAL_TICKS :: u64 where "LOG_INTERVAL_TICKS = 120"
definition MONTAGE_DIVERGENCE_CHECK_INTERVAL_TICKS :: u64 where "MONTAGE_DIVERGENCE_CHECK_INTERVAL_TICKS = 4"

abbreviation put :: "'a \<Rightarrow> 'a option \<Rightarrow> 'a option" where "put v \<equiv> map_option (\<lambda>_. v)"

section \<open>Pose\<close>

definition peer_shrunk :: "remote_ghost \<Rightarrow> bool" where
  "peer_shrunk r = is_shrunk (target_capsule_half (anim r))"

definition mirror_capsule :: mirror where
  "mirror_capsule st = (case st of (r, p, d) \<Rightarrow>
     ([], r, if dbl_less (Fin 0) (target_capsule_half (anim r))
             then p\<lparr>capsule_half_height := put (clamp_to_float (target_capsule_half (anim r)) 0 4096) (capsule_half_height p)\<rparr>
             else p, d))"

definition mirror_crouch_input :: mirror where
  "mirror_crouch_input st = (case st of (r, p, d) \<Rightarrow>
     if peer_shrunk r \<noteq> crouch_input_shrunk (latches r)
     then ([CrouchInput (peer_shrunk r)], r\<lparr>latches := (latches r)\<lparr>crouch_input_shrunk := peer_shrunk r\<rparr>\<rparr>, p, d)
     else ([], r, p, d))"

definition mirror_is_crouched :: mirror where
  "mirror_is_crouched st = (case st of (r, p, d) \<Rightarrow> ([], r, p\<lparr>is_crouched := put (peer_shrunk r) (is_crouched p)\<rparr>, d))"

definition mirror_crouch_event :: mirror where
  "mirror_crouch_event st = (case st of (r, p, d) \<Rightarrow>
     if peer_shrunk r \<noteq> crouch_event_shrunk (latches r) then
       let l = (latches r)\<lparr>crouch_event_shrunk := peer_shrunk r\<rparr>;
           l = (if peer_shrunk r
                then l\<lparr>crouch_half_height_adjust :=
                  clamp_to_float (dbl_sub (Fin GHOST_STANDING_CAPSULE_HALF) (target_capsule_half (anim r))) (- 4096) 4096\<rparr>
                else l)
       in ([if peer_shrunk r then StartCrouch (crouch_half_height_adjust l) else EndCrouch (crouch_half_height_adjust l)],
           r\<lparr>latches := l\<rparr>, p, d)
     else ([], r, p, d))"

definition mirror_slide :: mirror where
  "mirror_slide st = (case st of (r, p, d) \<Rightarrow>
     if slide_track p = None then ([], r, p, d)
     else ([SlideTimelineUpdate], r, p\<lparr>slide_track := Some (clamp_to_float (target_slide_t (anim r)) (- 1024) 1024)\<rparr>, d))"

definition mirror_base_offset :: mirror where
  "mirror_base_offset st = (case st of (r, p, d) \<Rightarrow>
     ([], r, if dbl_less (Fin 0) (target_capsule_half (anim r))
             then p\<lparr>base_offset_z := put (dbl_neg (dbl_add (target_capsule_half (anim r)) (Fin 1))) (base_offset_z p)\<rparr>
             else p, d))"

definition mirror_place :: mirror where
  "mirror_place st = (case st of (r, p, d) \<Rightarrow>
     ([PlaceActor (target_pos (pose r)) (target_rot (pose r))], r, p\<lparr>place := (target_pos (pose r), target_rot (pose r))\<rparr>, d))"

section \<open>Events\<close>

definition chaser_prefix :: string where "chaser_prefix = ''chaser:''"

definition is_chaser :: "string \<Rightarrow> bool" where
  "is_chaser player_id \<longleftrightarrow> take (length chaser_prefix) player_id = chaser_prefix"

text \<open>The tripwire: a reaction that moved the player's health disarms the mirror for the session.\<close>

definition mirror_hurt :: "tick_answers \<Rightarrow> string \<Rightarrow> mirror" where
  "mirror_hurt a player_id st = (case st of (r, p, disarmed) \<Rightarrow>
     if \<not> disarmed \<and> hurt_count (seen r) < hurt_count (counts r) then
       let r = r\<lparr>seen := (seen r)\<lparr>hurt_count := hurt_count (counts r)\<rparr>\<rparr> in
       if is_chaser player_id then ([], r, p, disarmed)
       else ([DamageResponse], r, p,
             damage_called a \<and> (case (hp_before a, hp_after a) of (Some h, Some h') \<Rightarrow> dbl_ne h' h | _ \<Rightarrow> False))
     else ([], r, p, disarmed))"

definition mirror_chaser_contact :: "tick_answers \<Rightarrow> string \<Rightarrow> string \<Rightarrow> mirror" where
  "mirror_chaser_contact a mode player_id st = (case st of (r, p, d) \<Rightarrow>
     if is_chaser player_id \<and> mode \<noteq> [] \<and> ghost r \<noteq> None then
       let overlapping = (\<not> player_frozen a \<and> capsules_overlap a);
           calls = (case own_hp a of
                      None \<Rightarrow> []
                    | Some hp \<Rightarrow>
                        if overlapping \<and> (mode = ''hurt'' \<or> mode = ''kill'') \<and> dbl_less (Fin 0) hp \<and> \<not> intangible a
                        then [TryDamage (if mode = ''kill'' then hp else Fin CHASER_HURT_DAMAGE)] else [])
       in (calls, r\<lparr>latches := (latches r)\<lparr>chaser_contact_overlapping := overlapping\<rparr>\<rparr>, p, d)
     else ([], r, p, d))"

definition mirror_death :: mirror where
  "mirror_death st = (case st of (r, p, d) \<Rightarrow>
     if death_count (seen r) < death_count (counts r)
     then ([DieFade], r\<lparr>seen := (seen r)\<lparr>death_count := death_count (counts r)\<rparr>\<rparr>, p, d)
     else ([], r, p, d))"

definition IN_BUBBLE_MOVE_STATE :: "8 word" where "IN_BUBBLE_MOVE_STATE = 7"
definition BUBBLE_MOVEMENT_MODE :: "8 word" where "BUBBLE_MOVEMENT_MODE = 5"

definition peer_flash_on :: "ghost_anim \<Rightarrow> bool" where
  "peer_flash_on g \<longleftrightarrow>
     (clamp_to_uint8 (target_move_state g) = IN_BUBBLE_MOVE_STATE \<and>
      clamp_to_uint8 (target_movement_mode g) = BUBBLE_MOVEMENT_MODE) \<or> target_bubble_charged g"

definition mirror_bubble :: mirror where
  "mirror_bubble st = (case st of (r, p, d) \<Rightarrow>
     let on = peer_flash_on (anim r) in
     if on \<noteq> ghost_bubble_flash_on (latches r)
     then ([ChangeBubbleChargedJump on, StartBubbleJumpFlash on],
           r\<lparr>latches := (latches r)\<lparr>ghost_bubble_flash_on := on\<rparr>\<rparr>, p, d)
     else ([], r, p, d))"

section \<open>Animation state and equipment\<close>

definition mirror_anim_state :: mirror where
  "mirror_anim_state st = (case st of (r, p, d) \<Rightarrow>
     let g = anim r in
     ([], r, p\<lparr>p_move_state := put (clamp_to_uint8 (target_move_state g)) (p_move_state p),
               p_action_state := put (clamp_to_uint8 (target_action_state g)) (p_action_state p),
               p_horizontal_speed := put (target_h_speed g) (p_horizontal_speed p),
               p_vertical_speed := put (target_v_speed g) (p_vertical_speed p),
               p_anim_jump_type := put (clamp_to_uint8 (target_anim_jump_type g)) (p_anim_jump_type p),
               p_movement_mode := put (clamp_to_uint8 (target_movement_mode g)) (p_movement_mode p)\<rparr>, d))"

definition mirror_equip :: "tick_answers \<Rightarrow> mirror" where
  "mirror_equip a st = (case st of (r, p, d) \<Rightarrow>
     let want = target_weapon_equipped (anim r) in
     if \<not> weapon_equip_call_armed (latches r) \<or> want \<noteq> last_synced_weapon_equipped (latches r)
     then ((if equip_call_skipped a then [] else [ChangeEquippedWeapon want]) @
           (if equip_anim_skipped a \<or> \<not> has_abp a then [] else [UpdateWeaponEquip want]),
           r\<lparr>latches := (latches r)\<lparr>weapon_equip_call_armed := True, last_synced_weapon_equipped := want\<rparr>\<rparr>, p, d)
     else ([], r, p, d))"

definition mirror_weapon_visible :: "tick_answers \<Rightarrow> mirror" where
  "mirror_weapon_visible a st = (case st of (r, p, d) \<Rightarrow>
     let want = target_weapon_equipped (anim r) in
     if \<not> weapon_hand_hidden (latches r) \<and> \<not> weapon_hidden_toggle a \<and> weapon_mesh_visible p = Some (\<not> want)
     then ([SetWeaponMeshVisible want], r, p\<lparr>weapon_mesh_visible := Some want\<rparr>, d)
     else ([], r, p, d))"

definition mirror_shadow :: "tick_answers \<Rightarrow> mirror" where
  "mirror_shadow a st = (case st of (r, p, d) \<Rightarrow>
     let want = (if target_shadow_visible (anim r) then 1 else 0) in
     if want \<noteq> last_applied_shadow_visible (latches r) \<and> has_shadow a
     then ([SetBlobShadowVisible (target_shadow_visible (anim r))],
           r\<lparr>latches := (latches r)\<lparr>last_applied_shadow_visible := want\<rparr>\<rparr>, p, d)
     else ([], r, p, d))"

definition mirror_equipped_props :: "tick_answers \<Rightarrow> mirror" where
  "mirror_equipped_props a st = (case st of (r, p, d) \<Rightarrow>
     let want = target_weapon_equipped (anim r) in
     ([], r, p\<lparr>weapon_equipped_prop := put want (weapon_equipped_prop p),
               anim_equipped_weapon := (if has_abp a then put want (anim_equipped_weapon p) else anim_equipped_weapon p)\<rparr>, d))"

section \<open>Montages\<close>

definition resolves_to :: "tick_answers \<Rightarrow> string \<Rightarrow> string \<Rightarrow> bool" where
  "resolves_to a class_name path \<longleftrightarrow> find_asset a class_name path = Some class_name"

text \<open>The start half, then the stop half, which never ends a montage started this tick.\<close>

definition mirror_montage :: "tick_answers \<Rightarrow> u64 \<Rightarrow> mirror" where
  "mirror_montage a tick st = (case st of (r, p, d) \<Rightarrow>
     let m = target_montage (anim r); l = latches r;
         start = (dbl_less (montage_count (seen r)) (montage_count (counts r)) \<and> m \<noteq> []);
         found = resolves_to a ''AnimMontage'' m;
         stop = dbl_less (montage_stop_count (seen r)) (montage_stop_count (counts r));
         l = (if start \<and> \<not> found \<and> (m \<noteq> last_failed_montage l \<or> tick - last_montage_warn_tick l \<ge> LOG_INTERVAL_TICKS)
              then l\<lparr>last_failed_montage := m, last_montage_warn_tick := tick\<rparr> else l);
         c = seen r;
         c = (if start then c\<lparr>montage_count := montage_count (counts r)\<rparr> else c);
         c = (if stop then c\<lparr>montage_stop_count := montage_stop_count (counts r)\<rparr> else c)
     in ((if start \<and> found \<and> has_abp a then [MontagePlay m] else []) @
         (if stop \<and> \<not> start \<and> has_abp a then [MontageStop] else []),
         r\<lparr>seen := c, latches := l\<rparr>, p, d))"

definition after_space :: "string \<Rightarrow> string" where
  "after_space s = (case str_find s [CHR '' ''] 0 of None \<Rightarrow> s | Some i \<Rightarrow> drop (i + 1) s)"

definition montage_diverges :: "tick_answers \<Rightarrow> string \<Rightarrow> bool" where
  "montage_diverges a m =
     (case active_montage a of
        None \<Rightarrow> False | Some g \<Rightarrow> g \<noteq> [] \<and> g \<noteq> ''none'' \<and> after_space g \<noteq> m)"

definition mirror_divergence :: "tick_answers \<Rightarrow> u64 \<Rightarrow> mirror" where
  "mirror_divergence a tick st = (case st of (r, p, d) \<Rightarrow>
     let m = target_montage (anim r) in
     (if tick mod MONTAGE_DIVERGENCE_CHECK_INTERVAL_TICKS = 0 \<and> has_abp a \<and> montage_diverges a m
      then MontageStop # (if m \<noteq> [] \<and> resolves_to a ''AnimMontage'' m then [MontagePlay m] else [])
      else [], r, p, d))"

section \<open>Meshes\<close>

text \<open>The failure throttle is on any failure: while one is remembered, no target is tried for 120 ticks.\<close>

definition retry_due :: "u64 \<Rightarrow> string \<Rightarrow> u64 \<Rightarrow> bool" where
  "retry_due tick failed attempt_tick \<longleftrightarrow> failed \<noteq> [] \<and> tick - attempt_tick < LOG_INTERVAL_TICKS"

definition tries_outfit :: "u64 \<Rightarrow> remote_ghost \<Rightarrow> bool" where
  "tries_outfit tick r \<longleftrightarrow>
     target_outfit_mesh (anim r) \<noteq> [] \<and> target_outfit_mesh (anim r) \<noteq> last_synced_outfit_mesh (latches r) \<and>
     \<not> retry_due tick (last_failed_outfit_mesh (latches r)) (last_outfit_attempt_tick (latches r))"

definition mirror_outfit :: "tick_answers \<Rightarrow> u64 \<Rightarrow> mirror" where
  "mirror_outfit a tick st = (case st of (r, p, d) \<Rightarrow>
     let m = target_outfit_mesh (anim r) in
     if \<not> tries_outfit tick r then ([], r, p, d)
     else if resolves_to a ''SkeletalMesh'' m
     then (if has_visual_mesh a then [SetOutfitMesh m] else [],
           r\<lparr>latches := (latches r)\<lparr>last_synced_outfit_mesh := m, last_failed_outfit_mesh := []\<rparr>\<rparr>, p, d)
     else ([], r\<lparr>latches := (latches r)\<lparr>last_failed_outfit_mesh := m, last_outfit_attempt_tick := tick\<rparr>\<rparr>, p, d))"

text \<open>The hand and the flyer: which get the mesh, and whether one that is hidden is waited for.\<close>

definition mesh_deferred :: "mesh_target \<Rightarrow> bool" where
  "mesh_deferred t \<longleftrightarrow> \<not> mt_unreachable t \<and> (\<not> mt_visible t \<or> \<not> mt_registered t)"

definition mesh_changed :: "mesh_target \<Rightarrow> bool" where
  "mesh_changed t \<longleftrightarrow> \<not> mt_unreachable t \<and> mt_visible t \<and> mt_registered t \<and> \<not> mt_holds t"

definition mirror_weapon_mesh :: "tick_answers \<Rightarrow> u64 \<Rightarrow> mirror" where
  "mirror_weapon_mesh a tick st = (case st of (r, p, d) \<Rightarrow>
     let m = target_weapon_mesh (anim r); l = latches r in
     if m = [] \<or> m = last_synced_weapon_mesh l \<or> retry_due tick (last_failed_weapon_mesh l) (last_weapon_mesh_attempt_tick l)
     then ([], r, p, d)
     else if resolves_to a ''SkeletalMesh'' m \<and> skeleton_alive a
     then ([SetWeaponMesh i m. (i, t) \<leftarrow> enumerate 0 (weapon_targets a), mesh_changed t],
           if list_ex mesh_changed (weapon_targets a) \<or> \<not> list_ex mesh_deferred (weapon_targets a)
           then r\<lparr>latches := l\<lparr>last_synced_weapon_mesh := m, last_failed_weapon_mesh := []\<rparr>\<rparr> else r, p, d)
     else ([], r\<lparr>latches := l\<lparr>last_failed_weapon_mesh := m, last_weapon_mesh_attempt_tick := tick\<rparr>\<rparr>, p, d))"

section \<open>Pulses\<close>

definition mirror_pulses :: mirror where
  "mirror_pulses st = (case st of (r, p, d) \<Rightarrow>
     let land_edge = dbl_less (land_count (seen r)) (land_count (counts r));
         jump_edge = dbl_less (jump_count (seen r)) (jump_count (counts r));
         c = (if land_edge then (seen r)\<lparr>land_count := land_count (counts r)\<rparr> else seen r);
         c = (if jump_edge then c\<lparr>jump_count := jump_count (counts r)\<rparr> else c);
         lh = (if land_edge then PULSE_HOLD_TICKS else landed_hold_ticks r);
         jh = (if jump_edge then PULSE_HOLD_TICKS else jumped_hold_ticks r)
     in ([], r\<lparr>seen := c, landed_hold_ticks := lh - 1, jumped_hold_ticks := jh - 1\<rparr>,
         p\<lparr>landed := put (0 < lh) (landed p), jumped := put (0 < jh) (jumped p)\<rparr>, d))"

definition burst_size :: "dbl \<Rightarrow> int" where
  "burst_size n =
     (if isfinite n \<and> dbl_le (Fin 1) n \<and> dbl_le n (Fin (of_int MAX_PEER_AFTERIMAGE_SPAWN)) then dbl_trunc n else 6)"

definition mirror_afterimages :: mirror where
  "mirror_afterimages st = (case st of (r, p, d) \<Rightarrow>
     if dbl_less (afterimage_count (seen r)) (afterimage_count (counts r)) then
       ([SpawnNumAfterimages], r\<lparr>seen := (seen r)\<lparr>afterimage_count := afterimage_count (counts r)\<rparr>\<rparr>,
        p\<lparr>afterimages_to_spawn := put (burst_size (target_afterimage_spawn_n (anim r))) (afterimages_to_spawn p),
          afterimage_color := (if afterimage_color_valid (anim r)
             then put (target_afterimage_color (anim r)) (afterimage_color p) else afterimage_color p)\<rparr>, d)
     else ([], r, p, d))"

section \<open>The tick\<close>

definition mirrors :: "tick_answers \<Rightarrow> string \<Rightarrow> string \<Rightarrow> u64 \<Rightarrow> mirror list" where
  "mirrors a mode player_id tick =
     [mirror_capsule, mirror_crouch_input, mirror_is_crouched, mirror_crouch_event, mirror_slide, mirror_base_offset,
      mirror_place, mirror_hurt a player_id, mirror_chaser_contact a mode player_id, mirror_death, mirror_bubble,
      mirror_anim_state, mirror_equip a, mirror_weapon_visible a, mirror_shadow a, mirror_montage a tick,
      mirror_divergence a tick, mirror_equipped_props a, mirror_outfit a tick, mirror_weapon_mesh a tick,
      mirror_pulses, mirror_afterimages]"

text \<open>Whether the loop lets go of the ghost: it is dead, or its world is no longer the current one.\<close>

definition world_changed :: "tick_answers \<Rightarrow> remote_ghost \<Rightarrow> bool" where
  "world_changed a r \<longleftrightarrow> ta_world a \<noteq> None \<and> owning_world r \<noteq> None \<and> owning_world r \<noteq> ta_world a"

definition head_tier :: "tick_answers \<Rightarrow> ghost_ranges \<Rightarrow> remote_ghost \<Rightarrow> knob_call list \<times> remote_ghost" where
  "head_tier a g r =
     (case distance_to a of
        None \<Rightarrow> ([], r)
      | Some away \<Rightarrow> tick_tier (has_mesh a) (has_movement a) g (away (target_pos (pose r))) r)"

definition tick_ghost :: "tick_answers \<Rightarrow> ghost_ranges \<Rightarrow> string \<Rightarrow> string \<Rightarrow> u64 \<Rightarrow> mirror" where
  "tick_ghost a g mode player_id tick st = (case st of (r, p, d) \<Rightarrow>
     if ghost r = None then ([], st)
     else if \<not> alive a then ([], drop_entry r, p, d)
     else
       (case head_tier a g r of
          (knobs, r) \<Rightarrow>
            if distance_to a \<noteq> None \<and> 3 \<le> distance_tier r
            then (case mirror_place (r, p, d) of (calls, st) \<Rightarrow> (map Knob knobs @ calls, st))
            else if world_changed a r then (map Knob knobs, drop_entry r, p, d)
            else (case run_steps (mirrors a mode player_id tick) (r, p, d) of
                    (calls, st) \<Rightarrow> (map Knob knobs @ calls, st))))"

end
