(* ===== verification/Ghost_Props.thy ===== *)
theory Ghost_Props
  imports Ghost_Tick
begin

text \<open>What the mirrors promise, proved over runs of a peer's samples and game ticks.\<close>

section \<open>Reading the mirrors\<close>

lemmas mirror_defs = mirror_capsule_def mirror_crouch_input_def mirror_is_crouched_def mirror_crouch_event_def
  mirror_slide_def mirror_base_offset_def mirror_place_def mirror_hurt_def mirror_chaser_contact_def mirror_death_def
  mirror_bubble_def mirror_anim_state_def mirror_equip_def mirror_weapon_visible_def mirror_shadow_def
  mirror_montage_def mirror_divergence_def mirror_equipped_props_def mirror_outfit_def mirror_weapon_mesh_def
  mirror_pulses_def mirror_afterimages_def

text \<open>The calls each mirror can make, and what none of them touches.\<close>

lemma mirror_capsule_calls: "c \<in> set (fst (mirror_capsule st)) \<Longrightarrow> False"
  by (cases st) (auto simp: mirror_capsule_def Let_def split: if_splits option.splits)

lemma mirror_crouch_input_calls: "c \<in> set (fst (mirror_crouch_input st)) \<Longrightarrow> \<exists>b. c = CrouchInput b"
  by (cases st) (auto simp: mirror_crouch_input_def Let_def split: if_splits option.splits)

lemma mirror_is_crouched_calls: "c \<in> set (fst (mirror_is_crouched st)) \<Longrightarrow> False"
  by (cases st) (auto simp: mirror_is_crouched_def Let_def split: if_splits option.splits)

lemma mirror_crouch_event_calls: "c \<in> set (fst (mirror_crouch_event st)) \<Longrightarrow> \<exists>x. c = StartCrouch x \<or> c = EndCrouch x"
  by (cases st) (auto simp: mirror_crouch_event_def Let_def split: if_splits option.splits)

lemma mirror_slide_calls: "c \<in> set (fst (mirror_slide st)) \<Longrightarrow> c = SlideTimelineUpdate"
  by (cases st) (auto simp: mirror_slide_def Let_def split: if_splits option.splits)

lemma mirror_base_offset_calls: "c \<in> set (fst (mirror_base_offset st)) \<Longrightarrow> False"
  by (cases st) (auto simp: mirror_base_offset_def Let_def split: if_splits option.splits)

lemma mirror_place_calls: "c \<in> set (fst (mirror_place st)) \<Longrightarrow> c = PlaceActor (target_pos (pose (fst st))) (target_rot (pose (fst st)))"
  by (cases st) (auto simp: mirror_place_def Let_def split: if_splits option.splits)

lemma mirror_hurt_calls: "c \<in> set (fst ((mirror_hurt a player_id) st)) \<Longrightarrow> c = DamageResponse"
  by (cases st) (auto simp: mirror_hurt_def Let_def split: if_splits option.splits)

lemma mirror_chaser_contact_calls: "c \<in> set (fst ((mirror_chaser_contact a mode player_id) st)) \<Longrightarrow> \<exists>x. c = TryDamage x"
  by (cases st) (auto simp: mirror_chaser_contact_def Let_def split: if_splits option.splits)

lemma mirror_death_calls: "c \<in> set (fst (mirror_death st)) \<Longrightarrow> c = DieFade"
  by (cases st) (auto simp: mirror_death_def Let_def split: if_splits option.splits)

lemma mirror_bubble_calls: "c \<in> set (fst (mirror_bubble st)) \<Longrightarrow> \<exists>b. c = ChangeBubbleChargedJump b \<or> c = StartBubbleJumpFlash b"
  by (cases st) (auto simp: mirror_bubble_def Let_def split: if_splits option.splits)

lemma mirror_anim_state_calls: "c \<in> set (fst (mirror_anim_state st)) \<Longrightarrow> False"
  by (cases st) (auto simp: mirror_anim_state_def Let_def split: if_splits option.splits)

lemma mirror_equip_calls: "c \<in> set (fst ((mirror_equip a) st)) \<Longrightarrow> \<exists>b. c = ChangeEquippedWeapon b \<or> c = UpdateWeaponEquip b"
  by (cases st) (auto simp: mirror_equip_def Let_def split: if_splits option.splits)

lemma mirror_weapon_visible_calls: "c \<in> set (fst ((mirror_weapon_visible a) st)) \<Longrightarrow> \<exists>b. c = SetWeaponMeshVisible b"
  by (cases st) (auto simp: mirror_weapon_visible_def Let_def split: if_splits option.splits)

lemma mirror_shadow_calls: "c \<in> set (fst ((mirror_shadow a) st)) \<Longrightarrow> \<exists>b. c = SetBlobShadowVisible b"
  by (cases st) (auto simp: mirror_shadow_def Let_def split: if_splits option.splits)

lemma mirror_montage_calls: "c \<in> set (fst ((mirror_montage a tick) st)) \<Longrightarrow> c = MontageStop \<or> (\<exists>m. c = MontagePlay m)"
  by (cases st) (auto simp: mirror_montage_def Let_def split: if_splits option.splits)

lemma mirror_divergence_calls: "c \<in> set (fst ((mirror_divergence a tick) st)) \<Longrightarrow> c = MontageStop \<or> (\<exists>m. c = MontagePlay m)"
  by (cases st) (auto simp: mirror_divergence_def Let_def split: if_splits option.splits)

lemma mirror_equipped_props_calls: "c \<in> set (fst ((mirror_equipped_props a) st)) \<Longrightarrow> False"
  by (cases st) (auto simp: mirror_equipped_props_def Let_def split: if_splits option.splits)

lemma mirror_outfit_calls: "c \<in> set (fst ((mirror_outfit a tick) st)) \<Longrightarrow> \<exists>m. c = SetOutfitMesh m"
  by (cases st) (auto simp: mirror_outfit_def Let_def split: if_splits option.splits)

lemma mirror_weapon_mesh_calls: "c \<in> set (fst ((mirror_weapon_mesh a tick) st)) \<Longrightarrow> \<exists>i m. c = SetWeaponMesh i m"
  by (cases st) (auto simp: mirror_weapon_mesh_def Let_def split: if_splits option.splits)

lemma mirror_pulses_calls: "c \<in> set (fst (mirror_pulses st)) \<Longrightarrow> False"
  by (cases st) (auto simp: mirror_pulses_def Let_def split: if_splits option.splits)

lemma mirror_afterimages_calls: "c \<in> set (fst (mirror_afterimages st)) \<Longrightarrow> c = SpawnNumAfterimages"
  by (cases st) (auto simp: mirror_afterimages_def Let_def split: if_splits option.splits)

lemma mirror_anim [simp]:
  "anim (fst (snd (mirror_capsule st))) = anim (fst st)"
  "anim (fst (snd (mirror_crouch_input st))) = anim (fst st)"
  "anim (fst (snd (mirror_is_crouched st))) = anim (fst st)"
  "anim (fst (snd (mirror_crouch_event st))) = anim (fst st)"
  "anim (fst (snd (mirror_slide st))) = anim (fst st)"
  "anim (fst (snd (mirror_base_offset st))) = anim (fst st)"
  "anim (fst (snd (mirror_place st))) = anim (fst st)"
  "anim (fst (snd ((mirror_hurt a player_id) st))) = anim (fst st)"
  "anim (fst (snd ((mirror_chaser_contact a mode player_id) st))) = anim (fst st)"
  "anim (fst (snd (mirror_death st))) = anim (fst st)"
  "anim (fst (snd (mirror_bubble st))) = anim (fst st)"
  "anim (fst (snd (mirror_anim_state st))) = anim (fst st)"
  "anim (fst (snd ((mirror_equip a) st))) = anim (fst st)"
  "anim (fst (snd ((mirror_weapon_visible a) st))) = anim (fst st)"
  "anim (fst (snd ((mirror_shadow a) st))) = anim (fst st)"
  "anim (fst (snd ((mirror_montage a tick) st))) = anim (fst st)"
  "anim (fst (snd ((mirror_divergence a tick) st))) = anim (fst st)"
  "anim (fst (snd ((mirror_equipped_props a) st))) = anim (fst st)"
  "anim (fst (snd ((mirror_outfit a tick) st))) = anim (fst st)"
  "anim (fst (snd ((mirror_weapon_mesh a tick) st))) = anim (fst st)"
  "anim (fst (snd (mirror_pulses st))) = anim (fst st)"
  "anim (fst (snd (mirror_afterimages st))) = anim (fst st)"
  by (simp_all add: mirror_defs split_beta Let_def split: option.split)

lemma mirror_ghost [simp]:
  "ghost (fst (snd (mirror_capsule st))) = ghost (fst st)"
  "ghost (fst (snd (mirror_crouch_input st))) = ghost (fst st)"
  "ghost (fst (snd (mirror_is_crouched st))) = ghost (fst st)"
  "ghost (fst (snd (mirror_crouch_event st))) = ghost (fst st)"
  "ghost (fst (snd (mirror_slide st))) = ghost (fst st)"
  "ghost (fst (snd (mirror_base_offset st))) = ghost (fst st)"
  "ghost (fst (snd (mirror_place st))) = ghost (fst st)"
  "ghost (fst (snd ((mirror_hurt a player_id) st))) = ghost (fst st)"
  "ghost (fst (snd ((mirror_chaser_contact a mode player_id) st))) = ghost (fst st)"
  "ghost (fst (snd (mirror_death st))) = ghost (fst st)"
  "ghost (fst (snd (mirror_bubble st))) = ghost (fst st)"
  "ghost (fst (snd (mirror_anim_state st))) = ghost (fst st)"
  "ghost (fst (snd ((mirror_equip a) st))) = ghost (fst st)"
  "ghost (fst (snd ((mirror_weapon_visible a) st))) = ghost (fst st)"
  "ghost (fst (snd ((mirror_shadow a) st))) = ghost (fst st)"
  "ghost (fst (snd ((mirror_montage a tick) st))) = ghost (fst st)"
  "ghost (fst (snd ((mirror_divergence a tick) st))) = ghost (fst st)"
  "ghost (fst (snd ((mirror_equipped_props a) st))) = ghost (fst st)"
  "ghost (fst (snd ((mirror_outfit a tick) st))) = ghost (fst st)"
  "ghost (fst (snd ((mirror_weapon_mesh a tick) st))) = ghost (fst st)"
  "ghost (fst (snd (mirror_pulses st))) = ghost (fst st)"
  "ghost (fst (snd (mirror_afterimages st))) = ghost (fst st)"
  by (simp_all add: mirror_defs split_beta Let_def split: option.split)

lemma mirror_counts [simp]:
  "counts (fst (snd (mirror_capsule st))) = counts (fst st)"
  "counts (fst (snd (mirror_crouch_input st))) = counts (fst st)"
  "counts (fst (snd (mirror_is_crouched st))) = counts (fst st)"
  "counts (fst (snd (mirror_crouch_event st))) = counts (fst st)"
  "counts (fst (snd (mirror_slide st))) = counts (fst st)"
  "counts (fst (snd (mirror_base_offset st))) = counts (fst st)"
  "counts (fst (snd (mirror_place st))) = counts (fst st)"
  "counts (fst (snd ((mirror_hurt a player_id) st))) = counts (fst st)"
  "counts (fst (snd ((mirror_chaser_contact a mode player_id) st))) = counts (fst st)"
  "counts (fst (snd (mirror_death st))) = counts (fst st)"
  "counts (fst (snd (mirror_bubble st))) = counts (fst st)"
  "counts (fst (snd (mirror_anim_state st))) = counts (fst st)"
  "counts (fst (snd ((mirror_equip a) st))) = counts (fst st)"
  "counts (fst (snd ((mirror_weapon_visible a) st))) = counts (fst st)"
  "counts (fst (snd ((mirror_shadow a) st))) = counts (fst st)"
  "counts (fst (snd ((mirror_montage a tick) st))) = counts (fst st)"
  "counts (fst (snd ((mirror_divergence a tick) st))) = counts (fst st)"
  "counts (fst (snd ((mirror_equipped_props a) st))) = counts (fst st)"
  "counts (fst (snd ((mirror_outfit a tick) st))) = counts (fst st)"
  "counts (fst (snd ((mirror_weapon_mesh a tick) st))) = counts (fst st)"
  "counts (fst (snd (mirror_pulses st))) = counts (fst st)"
  "counts (fst (snd (mirror_afterimages st))) = counts (fst st)"
  by (simp_all add: mirror_defs split_beta Let_def split: option.split)

lemma mirror_pose [simp]:
  "pose (fst (snd (mirror_capsule st))) = pose (fst st)"
  "pose (fst (snd (mirror_crouch_input st))) = pose (fst st)"
  "pose (fst (snd (mirror_is_crouched st))) = pose (fst st)"
  "pose (fst (snd (mirror_crouch_event st))) = pose (fst st)"
  "pose (fst (snd (mirror_slide st))) = pose (fst st)"
  "pose (fst (snd (mirror_base_offset st))) = pose (fst st)"
  "pose (fst (snd (mirror_place st))) = pose (fst st)"
  "pose (fst (snd ((mirror_hurt a player_id) st))) = pose (fst st)"
  "pose (fst (snd ((mirror_chaser_contact a mode player_id) st))) = pose (fst st)"
  "pose (fst (snd (mirror_death st))) = pose (fst st)"
  "pose (fst (snd (mirror_bubble st))) = pose (fst st)"
  "pose (fst (snd (mirror_anim_state st))) = pose (fst st)"
  "pose (fst (snd ((mirror_equip a) st))) = pose (fst st)"
  "pose (fst (snd ((mirror_weapon_visible a) st))) = pose (fst st)"
  "pose (fst (snd ((mirror_shadow a) st))) = pose (fst st)"
  "pose (fst (snd ((mirror_montage a tick) st))) = pose (fst st)"
  "pose (fst (snd ((mirror_divergence a tick) st))) = pose (fst st)"
  "pose (fst (snd ((mirror_equipped_props a) st))) = pose (fst st)"
  "pose (fst (snd ((mirror_outfit a tick) st))) = pose (fst st)"
  "pose (fst (snd ((mirror_weapon_mesh a tick) st))) = pose (fst st)"
  "pose (fst (snd (mirror_pulses st))) = pose (fst st)"
  "pose (fst (snd (mirror_afterimages st))) = pose (fst st)"
  by (simp_all add: mirror_defs split_beta Let_def split: option.split)

lemmas mirror_calls = mirror_capsule_calls mirror_crouch_input_calls mirror_is_crouched_calls mirror_crouch_event_calls mirror_slide_calls mirror_base_offset_calls mirror_place_calls mirror_hurt_calls mirror_chaser_contact_calls mirror_death_calls mirror_bubble_calls mirror_anim_state_calls mirror_equip_calls mirror_weapon_visible_calls mirror_shadow_calls mirror_montage_calls mirror_divergence_calls mirror_equipped_props_calls mirror_outfit_calls mirror_weapon_mesh_calls mirror_pulses_calls mirror_afterimages_calls

lemma mirror_crouch_latch:
  "(crouch_event_shrunk (latches (fst (snd (mirror_capsule st))))) = crouch_event_shrunk (latches (fst st))"
  "(crouch_event_shrunk (latches (fst (snd (mirror_crouch_input st))))) = crouch_event_shrunk (latches (fst st))"
  "(crouch_event_shrunk (latches (fst (snd (mirror_is_crouched st))))) = crouch_event_shrunk (latches (fst st))"
  "(crouch_event_shrunk (latches (fst (snd (mirror_slide st))))) = crouch_event_shrunk (latches (fst st))"
  "(crouch_event_shrunk (latches (fst (snd (mirror_base_offset st))))) = crouch_event_shrunk (latches (fst st))"
  "(crouch_event_shrunk (latches (fst (snd (mirror_place st))))) = crouch_event_shrunk (latches (fst st))"
  "(crouch_event_shrunk (latches (fst (snd ((mirror_hurt a player_id) st))))) = crouch_event_shrunk (latches (fst st))"
  "(crouch_event_shrunk (latches (fst (snd ((mirror_chaser_contact a mode player_id) st))))) = crouch_event_shrunk (latches (fst st))"
  "(crouch_event_shrunk (latches (fst (snd (mirror_death st))))) = crouch_event_shrunk (latches (fst st))"
  "(crouch_event_shrunk (latches (fst (snd (mirror_bubble st))))) = crouch_event_shrunk (latches (fst st))"
  "(crouch_event_shrunk (latches (fst (snd (mirror_anim_state st))))) = crouch_event_shrunk (latches (fst st))"
  "(crouch_event_shrunk (latches (fst (snd ((mirror_equip a) st))))) = crouch_event_shrunk (latches (fst st))"
  "(crouch_event_shrunk (latches (fst (snd ((mirror_weapon_visible a) st))))) = crouch_event_shrunk (latches (fst st))"
  "(crouch_event_shrunk (latches (fst (snd ((mirror_shadow a) st))))) = crouch_event_shrunk (latches (fst st))"
  "(crouch_event_shrunk (latches (fst (snd ((mirror_montage a tick) st))))) = crouch_event_shrunk (latches (fst st))"
  "(crouch_event_shrunk (latches (fst (snd ((mirror_divergence a tick) st))))) = crouch_event_shrunk (latches (fst st))"
  "(crouch_event_shrunk (latches (fst (snd ((mirror_equipped_props a) st))))) = crouch_event_shrunk (latches (fst st))"
  "(crouch_event_shrunk (latches (fst (snd ((mirror_outfit a tick) st))))) = crouch_event_shrunk (latches (fst st))"
  "(crouch_event_shrunk (latches (fst (snd ((mirror_weapon_mesh a tick) st))))) = crouch_event_shrunk (latches (fst st))"
  "(crouch_event_shrunk (latches (fst (snd (mirror_pulses st))))) = crouch_event_shrunk (latches (fst st))"
  "(crouch_event_shrunk (latches (fst (snd (mirror_afterimages st))))) = crouch_event_shrunk (latches (fst st))"
  "(crouch_half_height_adjust (latches (fst (snd (mirror_capsule st))))) = crouch_half_height_adjust (latches (fst st))"
  "(crouch_half_height_adjust (latches (fst (snd (mirror_crouch_input st))))) = crouch_half_height_adjust (latches (fst st))"
  "(crouch_half_height_adjust (latches (fst (snd (mirror_is_crouched st))))) = crouch_half_height_adjust (latches (fst st))"
  "(crouch_half_height_adjust (latches (fst (snd (mirror_slide st))))) = crouch_half_height_adjust (latches (fst st))"
  "(crouch_half_height_adjust (latches (fst (snd (mirror_base_offset st))))) = crouch_half_height_adjust (latches (fst st))"
  "(crouch_half_height_adjust (latches (fst (snd (mirror_place st))))) = crouch_half_height_adjust (latches (fst st))"
  "(crouch_half_height_adjust (latches (fst (snd ((mirror_hurt a player_id) st))))) = crouch_half_height_adjust (latches (fst st))"
  "(crouch_half_height_adjust (latches (fst (snd ((mirror_chaser_contact a mode player_id) st))))) = crouch_half_height_adjust (latches (fst st))"
  "(crouch_half_height_adjust (latches (fst (snd (mirror_death st))))) = crouch_half_height_adjust (latches (fst st))"
  "(crouch_half_height_adjust (latches (fst (snd (mirror_bubble st))))) = crouch_half_height_adjust (latches (fst st))"
  "(crouch_half_height_adjust (latches (fst (snd (mirror_anim_state st))))) = crouch_half_height_adjust (latches (fst st))"
  "(crouch_half_height_adjust (latches (fst (snd ((mirror_equip a) st))))) = crouch_half_height_adjust (latches (fst st))"
  "(crouch_half_height_adjust (latches (fst (snd ((mirror_weapon_visible a) st))))) = crouch_half_height_adjust (latches (fst st))"
  "(crouch_half_height_adjust (latches (fst (snd ((mirror_shadow a) st))))) = crouch_half_height_adjust (latches (fst st))"
  "(crouch_half_height_adjust (latches (fst (snd ((mirror_montage a tick) st))))) = crouch_half_height_adjust (latches (fst st))"
  "(crouch_half_height_adjust (latches (fst (snd ((mirror_divergence a tick) st))))) = crouch_half_height_adjust (latches (fst st))"
  "(crouch_half_height_adjust (latches (fst (snd ((mirror_equipped_props a) st))))) = crouch_half_height_adjust (latches (fst st))"
  "(crouch_half_height_adjust (latches (fst (snd ((mirror_outfit a tick) st))))) = crouch_half_height_adjust (latches (fst st))"
  "(crouch_half_height_adjust (latches (fst (snd ((mirror_weapon_mesh a tick) st))))) = crouch_half_height_adjust (latches (fst st))"
  "(crouch_half_height_adjust (latches (fst (snd (mirror_pulses st))))) = crouch_half_height_adjust (latches (fst st))"
  "(crouch_half_height_adjust (latches (fst (snd (mirror_afterimages st))))) = crouch_half_height_adjust (latches (fst st))"
  by (simp_all add: mirror_defs split_beta Let_def split: option.split)

text \<open>A run of steps that make no call of a kind and keep a part of the state does so as a whole.\<close>

lemma run_steps_quiet:
  assumes "\<And>f s. f \<in> set fs \<Longrightarrow> filter P (fst (f s)) = [] \<and> key (snd (f s)) = key s"
  shows "filter P (fst (run_steps fs s)) = [] \<and> key (snd (run_steps fs s)) = key s"
  using assms by (induction fs arbitrary: s) (simp_all add: run_steps_fst run_steps_snd del: run_steps.simps(2))

lemma run_steps_one:
  assumes pre: "\<And>f s. f \<in> set fs \<Longrightarrow> filter P (fst (f s)) = [] \<and> key (snd (f s)) = key s"
    and post: "\<And>f s. f \<in> set hs \<Longrightarrow> filter P (fst (f s)) = [] \<and> key (snd (f s)) = key s"
  obtains s' where "key s' = key s" "filter P (fst (run_steps (fs @ g # hs) s)) = filter P (fst (g s'))"
    "key (snd (run_steps (fs @ g # hs) s)) = key (snd (g s'))"
proof -
  let ?s = "snd (run_steps fs s)"
  have "key ?s = key s" "filter P (fst (run_steps fs s)) = []" using run_steps_quiet [of fs P key s] pre by simp_all
  moreover have "key (snd (run_steps hs (snd (g ?s)))) = key (snd (g ?s))" "filter P (fst (run_steps hs (snd (g ?s)))) = []"
    using run_steps_quiet [of hs P key "snd (g ?s)"] post by simp_all
  ultimately show ?thesis using that [of ?s]
    by (simp add: run_steps_append run_steps_fst run_steps_snd split_beta del: run_steps.simps(2))
qed

section \<open>A peer's run\<close>

text \<open>What happens to one entry: samples are applied, ticks mirror it.\<close>

datatype peer_step =
    Sample string render_spans triple u64
  | Tick tick_answers ghost_ranges string u64

fun do_peer :: "string \<Rightarrow> peer_step \<Rightarrow> mirror" where
  "do_peer player_id (Sample line sp p t_ms) (r, b, d) = ([], apply_sample line sp player_id p t_ms False r, b, d)"
| "do_peer player_id (Tick a g mode tick) st = tick_ghost a g mode player_id tick st"

abbreviation run_peer :: "string \<Rightarrow> peer_step list \<Rightarrow> mirror" where
  "run_peer player_id steps \<equiv> run_steps (map (do_peer player_id) steps)"

section \<open>Crouch events\<close>

definition is_crouch :: "pawn_call \<Rightarrow> bool" where
  "is_crouch c = (case c of StartCrouch _ \<Rightarrow> True | EndCrouch _ \<Rightarrow> True | _ \<Rightarrow> False)"

lemma is_crouch_simps [simp]:
  "is_crouch (StartCrouch x)" "is_crouch (EndCrouch x)" "\<not> is_crouch (Knob k)" "\<not> is_crouch (CrouchInput b)"
  "\<not> is_crouch SlideTimelineUpdate" "\<not> is_crouch (PlaceActor p q)" "\<not> is_crouch DamageResponse" "\<not> is_crouch (TryDamage x)"
  "\<not> is_crouch DieFade" "\<not> is_crouch (ChangeBubbleChargedJump b)" "\<not> is_crouch (StartBubbleJumpFlash b)"
  "\<not> is_crouch (ChangeEquippedWeapon b)" "\<not> is_crouch (UpdateWeaponEquip b)" "\<not> is_crouch (SetWeaponMeshVisible b)"
  "\<not> is_crouch (SetBlobShadowVisible b)" "\<not> is_crouch (MontagePlay m)" "\<not> is_crouch MontageStop"
  "\<not> is_crouch (SetOutfitMesh m)" "\<not> is_crouch (SetWeaponMesh i m)" "\<not> is_crouch SpawnNumAfterimages"
  by (simp_all add: is_crouch_def)

fun paired :: "dbl option \<Rightarrow> pawn_call list \<Rightarrow> bool" where
  "paired _ [] = True"
| "paired None (StartCrouch x # cs) = paired (Some x) cs"
| "paired (Some x) (EndCrouch y # cs) = (x = y \<and> paired None cs)"
| "paired _ _ = False"

definition crouch_key :: "stage \<Rightarrow> bool \<times> dbl \<times> ghost_anim \<times> nat option" where
  "crouch_key st = (case st of (r, p, d) \<Rightarrow>
     (crouch_event_shrunk (latches r), crouch_half_height_adjust (latches r), anim r, ghost r))"

definition open_crouch :: "stage \<Rightarrow> dbl option" where
  "open_crouch st = (case st of (r, p, d) \<Rightarrow>
     if crouch_event_shrunk (latches r) then Some (crouch_half_height_adjust (latches r)) else None)"

lemma open_crouch_key: "crouch_key st = crouch_key st' \<Longrightarrow> open_crouch st = open_crouch st'"
  by (auto simp: crouch_key_def open_crouch_def split: prod.splits)

definition early_mirrors :: "mirror list" where
  "early_mirrors = [mirror_capsule, mirror_crouch_input, mirror_is_crouched]"

definition late_mirrors :: "tick_answers \<Rightarrow> string \<Rightarrow> string \<Rightarrow> u64 \<Rightarrow> mirror list" where
  "late_mirrors a mode player_id tick =
     [mirror_slide, mirror_base_offset, mirror_place, mirror_hurt a player_id, mirror_chaser_contact a mode player_id,
       mirror_death, mirror_bubble, mirror_anim_state, mirror_equip a, mirror_weapon_visible a, mirror_shadow a,
       mirror_montage a tick, mirror_divergence a tick, mirror_equipped_props a, mirror_outfit a tick,
       mirror_weapon_mesh a tick, mirror_pulses, mirror_afterimages]"

lemma crouch_quiet:
  "f \<in> set early_mirrors \<union> set (late_mirrors a mode player_id tick) \<Longrightarrow>
   filter is_crouch (fst (f st)) = [] \<and> crouch_key (snd (f st)) = crouch_key st"
  by (auto simp: early_mirrors_def late_mirrors_def crouch_key_def split_beta mirror_crouch_latch filter_empty_conv
      dest!: mirror_calls(1-3,5-))

lemma mirrors_crouch_split:
  "mirrors a mode player_id tick =
     early_mirrors @ mirror_crouch_event # late_mirrors a mode player_id tick"
  by (simp add: mirrors_def early_mirrors_def late_mirrors_def)

lemma mirrors_crouch:
  obtains st' where "crouch_key st' = crouch_key st"
    "filter is_crouch (fst (run_steps (mirrors a mode player_id tick) st)) = filter is_crouch (fst (mirror_crouch_event st'))"
    "crouch_key (snd (run_steps (mirrors a mode player_id tick) st)) = crouch_key (snd (mirror_crouch_event st'))"
  unfolding mirrors_crouch_split
  by (rule run_steps_one [where P = is_crouch and key = crouch_key and s = st and g = mirror_crouch_event
        and fs = early_mirrors and hs = "late_mirrors a mode player_id tick"])
     (use crouch_quiet in blast)+

lemma crouch_event_paired:
  "paired (open_crouch st) (filter is_crouch (fst (mirror_crouch_event st)) @ cs) =
   paired (open_crouch (snd (mirror_crouch_event st))) cs"
  by (cases st) (auto simp: mirror_crouch_event_def open_crouch_def Let_def)

lemma head_tier_frame:
  "latches (snd (head_tier a g r)) = latches r" "anim (snd (head_tier a g r)) = anim r"
  "ghost (snd (head_tier a g r)) = ghost r" "pose (snd (head_tier a g r)) = pose r"
  "counts (snd (head_tier a g r)) = counts r" "seen (snd (head_tier a g r)) = seen r"
  by (auto simp: head_tier_def tick_tier_def apply_ghost_distance_tier_def Let_def split: option.splits)

lemma no_crouch_knobs [simp]: "filter is_crouch (map Knob ks) = []"
  by (simp add: filter_empty_conv)

lemma tick_ghost_cases:
  assumes "ghost r = Some h"
  obtains (dead) "\<not> alive a" "tick_ghost a g mode pid tick (r, p, d) = ([], drop_entry r, p, d)"
  | (dormant) knobs r' where "alive a" "head_tier a g r = (knobs, r')" "tick_ghost a g mode pid tick (r, p, d) =
        (map Knob knobs @ [PlaceActor (target_pos (pose r)) (target_rot (pose r))], r',
         p\<lparr>place := (target_pos (pose r), target_rot (pose r))\<rparr>, d)"
  | (changed) knobs r' where "alive a" "head_tier a g r = (knobs, r')"
      "tick_ghost a g mode pid tick (r, p, d) = (map Knob knobs, drop_entry r', p, d)"
  | (mirrored) knobs r' calls st' where "alive a" "head_tier a g r = (knobs, r')"
      "run_steps (mirrors a mode pid tick) (r', p, d) = (calls, st')"
      "tick_ghost a g mode pid tick (r, p, d) = (map Knob knobs @ calls, st')"
proof -
  obtain knobs r' where h: "head_tier a g r = (knobs, r')" by fastforce
  obtain calls st' where m: "run_steps (mirrors a mode pid tick) (r', p, d) = (calls, st')" by (meson surj_pair)
  have "pose r' = pose r" using head_tier_frame(4) [of a g r] h by simp
  then consider "\<not> alive a" | "alive a" "distance_to a \<noteq> None" "3 \<le> distance_tier r'"
    | "alive a" "\<not> (distance_to a \<noteq> None \<and> 3 \<le> distance_tier r')" "world_changed a r'"
    | "alive a" "\<not> (distance_to a \<noteq> None \<and> 3 \<le> distance_tier r')" "\<not> world_changed a r'"
    by blast
  then show ?thesis
  proof cases
    case 1
    then show ?thesis using assms by (intro dead) (simp_all add: tick_ghost_def)
  next
    case 2
    then show ?thesis using assms \<open>pose r' = pose r\<close>
      by (intro dormant [OF _ h]) (auto simp: tick_ghost_def h mirror_place_def)
  next
    case 3
    then show ?thesis using assms by (intro changed [OF _ h]) (auto simp: tick_ghost_def h)
  next
    case 4
    then show ?thesis using assms by (intro mirrored [OF _ h m]) (auto simp: tick_ghost_def h m)
  qed
qed

lemma peer_step_paired:
  assumes "ghost (fst (snd (do_peer pid x st))) \<noteq> None"
  shows "paired (open_crouch st) (filter is_crouch (fst (do_peer pid x st)) @ cs) =
         paired (open_crouch (snd (do_peer pid x st))) cs"
proof -
  obtain r p d where st: "st = (r, p, d)" by (cases st)
  show ?thesis
  proof (cases x)
    case (Sample line sp q t)
    then show ?thesis by (simp add: st open_crouch_def apply_sample_def Let_def)
  next
    case (Tick a g mode tick)
    show ?thesis
    proof (cases "ghost r")
      case None
      then show ?thesis using assms Tick st by (simp add: tick_ghost_def)
    next
      case (Some h)
      then show ?thesis
      proof (cases rule: tick_ghost_cases [of r h a g mode pid tick p d])
        case dead
        then show ?thesis using assms Tick st by (simp add: drop_entry_def)
      next
        case (dormant knobs r')
        then show ?thesis using Tick st head_tier_frame(1) [of a g r] by (simp add: open_crouch_def)
      next
        case (changed knobs r')
        then show ?thesis using assms Tick st by (simp add: drop_entry_def)
      next
        case (mirrored knobs r' calls st')
        obtain st2 where st2: "crouch_key st2 = crouch_key (r', p, d)"
          "filter is_crouch calls = filter is_crouch (fst (mirror_crouch_event st2))"
          "crouch_key st' = crouch_key (snd (mirror_crouch_event st2))"
          by (rule mirrors_crouch [of "(r', p, d)" a mode pid tick]) (use mirrored(3) in auto)
        have "open_crouch st2 = open_crouch (r, p, d)"
          using open_crouch_key [OF st2(1)] head_tier_frame(1) [of a g r] mirrored(2) by (simp add: open_crouch_def)
        then show ?thesis
          using Tick st mirrored(4) st2(2) open_crouch_key [OF st2(3)] crouch_event_paired [of st2 cs] by simp
      qed
    qed
  qed
qed

lemma ghost_never_returns:
  "ghost (fst st) = None \<Longrightarrow> ghost (fst (snd (run_peer pid steps st))) = None"
proof (induction steps arbitrary: st)
  case (Cons x steps)
  have "ghost (fst (snd (do_peer pid x st))) = None"
    using Cons.prems by (cases x; cases st) (auto simp: apply_sample_def tick_ghost_def Let_def)
  then show ?case using Cons.IH by (simp add: run_steps_snd del: run_steps.simps(2))
qed simp

text \<open>
  Property C15. As long as a ghost's pawn stays up, the crouch events it is sent alternate: from a
  clean latch, a \<^verbatim>\<open>K2_OnStartCrouch\<close>, then a \<^verbatim>\<open>K2_OnEndCrouch\<close> with the very adjustment the start had, and
  so on, over any samples and any ticks, dormant ones included.
\<close>

theorem crouch_events_paired:
  assumes "ghost (fst (snd (run_peer pid steps st))) \<noteq> None"
  shows "paired (open_crouch st) (filter is_crouch (fst (run_peer pid steps st)))"
proof -
  have "paired (open_crouch st) (filter is_crouch (fst (run_peer pid steps st)) @ []) =
        paired (open_crouch (snd (run_peer pid steps st))) []"
    using assms
  proof (induction steps arbitrary: st)
    case (Cons x steps)
    let ?st = "snd (do_peer pid x st)"
    have last: "ghost (fst (snd (run_peer pid steps ?st))) \<noteq> None"
      using Cons.prems by (simp add: run_steps_snd del: run_steps.simps(2))
    then have "ghost (fst ?st) \<noteq> None" using ghost_never_returns [of ?st pid steps] by (cases "ghost (fst ?st) = None") simp_all
    note step = peer_step_paired [OF this, of "filter is_crouch (fst (run_peer pid steps ?st))"]
    show ?case using step Cons.IH [OF last]
      by (simp only: list.map run_steps_snd run_steps_fst filter_append append_Nil2)
  qed simp
  then show ?thesis by simp
qed

section \<open>Health\<close>

lemma run_steps_origin:
  "x \<in> set (fst (run_steps fs s)) \<Longrightarrow> \<exists>f s'. f \<in> set fs \<and> x \<in> set (fst (f s'))"
  by (induction fs arbitrary: s) (auto simp: run_steps_fst simp del: run_steps.simps(2))

lemma chaser_contact_call:
  assumes "TryDamage x \<in> set (fst (mirror_chaser_contact a mode pid st))"
  shows "is_chaser pid \<and> capsules_overlap a \<and> \<not> player_frozen a \<and> \<not> intangible a \<and>
    (\<exists>hp. own_hp a = Some hp \<and> dbl_less (Fin 0) hp \<and> (mode = ''hurt'' \<and> x = Fin 5 \<or> mode = ''kill'' \<and> x = hp))"
  using assms by (cases st; cases "own_hp a")
    (auto simp: mirror_chaser_contact_def CHASER_HURT_DAMAGE_def Let_def split: if_splits)

lemma mirrors_TryDamage:
  assumes "TryDamage x \<in> set (fst (run_steps (mirrors a mode pid tick) st))"
  obtains st' where "TryDamage x \<in> set (fst (mirror_chaser_contact a mode pid st'))"
proof -
  obtain f s' where f: "f \<in> set (mirrors a mode pid tick)" and x: "TryDamage x \<in> set (fst (f s'))"
    using run_steps_origin [OF assms] by blast
  then have "f = mirror_chaser_contact a mode pid"
    by (auto simp: mirrors_def dest!: mirror_calls)
  then show ?thesis using x that by blast
qed

lemma mirror_disarm:
  "snd (snd (snd (mirror_capsule st))) = snd (snd st)"
  "snd (snd (snd (mirror_crouch_input st))) = snd (snd st)"
  "snd (snd (snd (mirror_is_crouched st))) = snd (snd st)"
  "snd (snd (snd (mirror_crouch_event st))) = snd (snd st)"
  "snd (snd (snd (mirror_slide st))) = snd (snd st)"
  "snd (snd (snd (mirror_base_offset st))) = snd (snd st)"
  "snd (snd (snd (mirror_place st))) = snd (snd st)"
  "snd (snd (snd ((mirror_chaser_contact a mode player_id) st))) = snd (snd st)"
  "snd (snd (snd (mirror_death st))) = snd (snd st)"
  "snd (snd (snd (mirror_bubble st))) = snd (snd st)"
  "snd (snd (snd (mirror_anim_state st))) = snd (snd st)"
  "snd (snd (snd ((mirror_equip a) st))) = snd (snd st)"
  "snd (snd (snd ((mirror_weapon_visible a) st))) = snd (snd st)"
  "snd (snd (snd ((mirror_shadow a) st))) = snd (snd st)"
  "snd (snd (snd ((mirror_montage a tick) st))) = snd (snd st)"
  "snd (snd (snd ((mirror_divergence a tick) st))) = snd (snd st)"
  "snd (snd (snd ((mirror_equipped_props a) st))) = snd (snd st)"
  "snd (snd (snd ((mirror_outfit a tick) st))) = snd (snd st)"
  "snd (snd (snd ((mirror_weapon_mesh a tick) st))) = snd (snd st)"
  "snd (snd (snd (mirror_pulses st))) = snd (snd st)"
  "snd (snd (snd (mirror_afterimages st))) = snd (snd st)"
  by (simp_all add: mirror_defs split_beta Let_def split: option.split)

lemma mirror_hurt_disarmed: "snd (snd st) \<Longrightarrow> mirror_hurt a pid st = ([], st)"
  by (cases st) (simp add: mirror_hurt_def)

lemma mirrors_disarmed:
  assumes "snd (snd st)"
  shows "snd (snd (snd (run_steps (mirrors a mode pid tick) st)))"
    and "DamageResponse \<notin> set (fst (run_steps (mirrors a mode pid tick) st))"
proof -
  have step: "snd (snd (snd (f s))) \<and> (x \<in> set (fst (f s)) \<longrightarrow> x \<noteq> DamageResponse)"
    if "f \<in> set (mirrors a mode pid tick)" "snd (snd s)" for f s x
    using that by (auto simp: mirrors_def mirror_disarm mirror_hurt_disarmed dest: mirror_calls)
  show "snd (snd (snd (run_steps (mirrors a mode pid tick) st)))"
    using run_steps_invariant [of "mirrors a mode pid tick" "\<lambda>s. snd (snd s)"] step assms by blast
  show "DamageResponse \<notin> set (fst (run_steps (mirrors a mode pid tick) st))"
    using run_steps_calls [of "mirrors a mode pid tick" "\<lambda>s. snd (snd s)" "\<lambda>x. x \<noteq> DamageResponse" st DamageResponse] step assms
    by blast
qed

lemma mirrors_chaser_no_hurt:
  assumes "is_chaser pid"
  shows "DamageResponse \<notin> set (fst (run_steps (mirrors a mode pid tick) st))"
proof
  assume "DamageResponse \<in> set (fst (run_steps (mirrors a mode pid tick) st))"
  from run_steps_origin [OF this]
  obtain f s' where f: "f \<in> set (mirrors a mode pid tick)" and x: "DamageResponse \<in> set (fst (f s'))" by blast
  then have "f = mirror_hurt a pid" by (auto simp: mirrors_def dest!: mirror_calls)
  then show False using x assms by (cases s') (auto simp: mirror_hurt_def Let_def split: if_splits)
qed

lemma tick_ghost_calls:
  assumes "x \<in> set (fst (tick_ghost a g mode pid tick (r, p, d)))"
  obtains (knob) k where "x = Knob k"
  | (placed) "x = PlaceActor (target_pos (pose r)) (target_rot (pose r))"
  | (mirrored) r' where "x \<in> set (fst (run_steps (mirrors a mode pid tick) (r', p, d)))"
proof (cases "ghost r")
  case None
  then show ?thesis using assms by (simp add: tick_ghost_def)
next
  case (Some h)
  then show ?thesis
  proof (cases rule: tick_ghost_cases [of r h a g mode pid tick p d])
    case (mirrored knobs r' calls st')
    then show ?thesis using assms that(1) that(3) [of r'] by auto
  qed (use assms that in auto)
qed

text \<open>
  Property C25. No ghost but a chaser ever damages the player, and a chaser only under the policy:
  a damage call means a \<^verbatim>\<open>chaser:\<close> id, contact mode hurt (5 points) or kill (the whole health), bodies
  overlapping, the player neither frozen nor intangible and with health left. A chaser never plays the
  hurt reaction, and once the tripwire has disarmed the hurt mirror no ghost plays it again.
\<close>

theorem only_chasers_damage:
  shows "(TryDamage x \<in> set (fst (tick_ghost a g mode pid tick (r, p, d))) \<longrightarrow>
           is_chaser pid \<and> capsules_overlap a \<and> \<not> player_frozen a \<and> \<not> intangible a \<and>
           (\<exists>hp. own_hp a = Some hp \<and> dbl_less (Fin 0) hp \<and>
              (mode = ''hurt'' \<and> x = Fin 5 \<or> mode = ''kill'' \<and> x = hp))) \<and>
         (is_chaser pid \<or> d \<longrightarrow> DamageResponse \<notin> set (fst (tick_ghost a g mode pid tick (r, p, d)))) \<and>
         (d \<longrightarrow> snd (snd (snd (tick_ghost a g mode pid tick (r, p, d)))))"
proof (intro conjI impI)
  assume "TryDamage x \<in> set (fst (tick_ghost a g mode pid tick (r, p, d)))"
  then obtain r' where "TryDamage x \<in> set (fst (run_steps (mirrors a mode pid tick) (r', p, d)))"
    by (rule tick_ghost_calls) auto
  then obtain st' where "TryDamage x \<in> set (fst (mirror_chaser_contact a mode pid st'))" by (rule mirrors_TryDamage)
  then show "is_chaser pid" "capsules_overlap a" "\<not> player_frozen a" "\<not> intangible a"
    "\<exists>hp. own_hp a = Some hp \<and> dbl_less (Fin 0) hp \<and> (mode = ''hurt'' \<and> x = Fin 5 \<or> mode = ''kill'' \<and> x = hp)"
    using chaser_contact_call [of x a mode pid st'] by blast+
next
  assume cd: "is_chaser pid \<or> d"
  show "DamageResponse \<notin> set (fst (tick_ghost a g mode pid tick (r, p, d)))"
  proof
    assume "DamageResponse \<in> set (fst (tick_ghost a g mode pid tick (r, p, d)))"
    then obtain r' where "DamageResponse \<in> set (fst (run_steps (mirrors a mode pid tick) (r', p, d)))"
      by (rule tick_ghost_calls) auto
    then show False using cd mirrors_chaser_no_hurt [of pid a mode tick] mirrors_disarmed(2) [of "(r', p, d)" a mode pid tick] by auto
  qed
next
  assume d
  show "snd (snd (snd (tick_ghost a g mode pid tick (r, p, d))))"
  proof (cases "ghost r")
    case (Some h)
    then show ?thesis
    proof (cases rule: tick_ghost_cases [of r h a g mode pid tick p d])
      case (mirrored knobs r' calls st')
      then show ?thesis using mirrors_disarmed(1) [of "(r', p, d)" a mode pid tick] \<open>d\<close> by simp
    qed (use \<open>d\<close> in simp_all)
  qed (simp add: tick_ghost_def \<open>d\<close>)
qed

section \<open>Joining\<close>

lemma dbl_less_irrefl [simp]: "\<not> dbl_less x x"
  by (cases x) auto

text \<open>With nothing unseen, no mirror makes an event call or marks anything seen.\<close>

definition is_event :: "pawn_call \<Rightarrow> bool" where
  "is_event c \<longleftrightarrow> c = DamageResponse \<or> c = DieFade \<or> c = SpawnNumAfterimages \<or> c = MontageStop \<or> (\<exists>m. c = MontagePlay m)"

definition nothing_unseen :: "string \<Rightarrow> stage \<Rightarrow> bool" where
  "nothing_unseen m st \<longleftrightarrow> (case st of (r, p, d) \<Rightarrow>
     seen r = counts r \<and> landed_hold_ticks r = 0 \<and> jumped_hold_ticks r = 0 \<and> target_montage (anim r) = m \<and>
     landed p \<noteq> Some True \<and> jumped p \<noteq> Some True)"

text \<open>What a tick may still call: its check that the montage playing is the peer's current one found another.\<close>

definition corrects :: "string \<Rightarrow> tick_answers \<Rightarrow> u64 \<Rightarrow> pawn_call \<Rightarrow> bool" where
  "corrects m a tick c \<longleftrightarrow>
     tick mod MONTAGE_DIVERGENCE_CHECK_INTERVAL_TICKS = 0 \<and> has_abp a \<and> montage_diverges a m \<and>
     (c = MontageStop \<or> c = MontagePlay m \<and> m \<noteq> [])"

lemma mirror_unseen:
  assumes "f \<in> set (mirrors a mode pid tick)" and "nothing_unseen m st"
  shows "nothing_unseen m (snd (f st)) \<and> (c \<in> set (fst (f st)) \<longrightarrow> is_event c \<longrightarrow> corrects m a tick c)"
proof -
  obtain r p d where st: "st = (r, p, d)" by (cases st)
  show ?thesis using assms unfolding st
    apply (simp add: mirrors_def)
    apply (elim disjE)
    apply (simp_all add: mirror_defs nothing_unseen_def is_event_def corrects_def Let_def split: option.splits)
    apply auto
    done
qed

lemma unseen_tick:
  assumes "nothing_unseen m st"
  shows "nothing_unseen m (snd (tick_ghost a g mode pid tick st)) \<and>
    (c \<in> set (fst (tick_ghost a g mode pid tick st)) \<longrightarrow> is_event c \<longrightarrow> corrects m a tick c)"
proof -
  obtain r p d where st: "st = (r, p, d)" by (cases st)
  have tier: "nothing_unseen m (r', p, d)" if "head_tier a g r = (knobs, r')" for knobs r'
  proof -
    have "landed_hold_ticks r' = 0 \<and> jumped_hold_ticks r' = 0"
      using that assms unfolding st
      by (auto simp: nothing_unseen_def head_tier_def tick_tier_def apply_ghost_distance_tier_def Let_def split: option.splits if_splits)
    then show ?thesis using head_tier_frame(2,5,6) [of a g r] that assms unfolding st by (simp add: nothing_unseen_def)
  qed
  show ?thesis
  proof (cases "ghost r")
    case None
    then show ?thesis using assms by (simp add: tick_ghost_def st)
  next
    case (Some h)
    then show ?thesis
    proof (cases rule: tick_ghost_cases [of r h a g mode pid tick p d])
      case (mirrored knobs r' calls st')
      note calls = run_steps_calls [of "mirrors a mode pid tick" "nothing_unseen m" "\<lambda>c. is_event c \<longrightarrow> corrects m a tick c" "(r', p, d)" c]
      have "nothing_unseen m st'"
        using run_steps_invariant [of "mirrors a mode pid tick" "nothing_unseen m" "(r', p, d)"] mirror_unseen
          tier [OF mirrored(2)] mirrored(3) by auto
      moreover have "c \<in> set calls \<Longrightarrow> is_event c \<longrightarrow> corrects m a tick c"
        using calls mirror_unseen tier [OF mirrored(2)] mirrored(3) by auto
      ultimately show ?thesis using mirrored(4) by (auto simp: is_event_def st)
    next
      case dead
      then show ?thesis using assms by (simp add: st drop_entry_def nothing_unseen_def)
    next
      case (dormant knobs r')
      then show ?thesis using tier [OF dormant(2)] by (auto simp: st is_event_def nothing_unseen_def)
    next
      case (changed knobs r')
      then show ?thesis using tier [OF changed(2)] by (auto simp: st is_event_def nothing_unseen_def drop_entry_def)
    qed
  qed
qed

abbreviation run_ticks :: "string \<Rightarrow> (tick_answers \<times> ghost_ranges \<times> string \<times> u64) list \<Rightarrow> mirror" where
  "run_ticks pid ts \<equiv> run_steps (map (\<lambda>(a, g, mode, tick). tick_ghost a g mode pid tick) ts)"

lemma unseen_run:
  assumes "nothing_unseen m st"
  shows "nothing_unseen m (snd (run_ticks pid ts st)) \<and>
    (\<forall>c\<in>set (fst (run_ticks pid ts st)). is_event c \<longrightarrow> (\<exists>(a, g, mode, tick)\<in>set ts. corrects m a tick c))"
  using assms
proof (induction ts arbitrary: st)
  case (Cons t ts)
  obtain a g mode tick where t: "t = (a, g, mode, tick)" by (cases t)
  note head = unseen_tick [OF Cons.prems, of a g mode pid tick]
  from head have "nothing_unseen m (snd (tick_ghost a g mode pid tick st))" by blast
  from Cons.IH [OF this] head show ?case
    by (auto simp: t run_steps_fst run_steps_snd simp del: run_steps.simps(2))
qed simp

text \<open>
  Property C26. A peer who joins replays nothing: however large the counters in its first sample
  are, the entry the line creates is baselined, and however many ticks its ghost has until the next sample, they
  play no hurt reaction, death fade, trail burst, landing, jump or montage of that past. What they may do is correct the
  pawn's montage: every fourth tick one that is playing and is not the one the sample names is stopped,
  and the named one played.
\<close>

theorem new_peer_replays_nothing:
  assumes ty: "json_string_field line ''type'' = ''render_remote''" and new: "remotes s (line_target line) = None"
    and r: "remotes (snd (handle_bridge_line ans destroyed t_ms line s)) (line_target line) = Some r"
    and fresh: "landed p \<noteq> Some True" "jumped p \<noteq> Some True"
  shows "seen r = counts r \<and>
    (case run_ticks (line_target line) ts (r, p, d) of (calls, r', p', d') \<Rightarrow>
      landed p' \<noteq> Some True \<and> jumped p' \<noteq> Some True \<and>
      DamageResponse \<notin> set calls \<and> DieFade \<notin> set calls \<and> SpawnNumAfterimages \<notin> set calls \<and>
      (\<forall>c m. c \<in> set calls \<longrightarrow> c = MontageStop \<or> c = MontagePlay m \<longrightarrow>
        c \<in> {MontageStop, MontagePlay (target_montage (anim r))} \<and>
        (\<exists>(a, g, mode, tick)\<in>set ts. tick mod 4 = 0 \<and> has_abp a \<and>
          (\<exists>x. active_montage a = Some x \<and> x \<noteq> [] \<and> x \<noteq> ''none'' \<and> after_space x \<noteq> target_montage (anim r)))))"
proof -
  let ?id = "line_target line"
  from r have hr: "remotes (snd (handle_render_remote ans t_ms line s)) ?id = Some r"
    by (simp add: handle_bridge_line_def ty)
  obtain q sp where h: "render_head line = Some (?id, q, sp)"
    using hr new by (cases "render_head line") (auto simp: handle_render_remote_def dest: render_head_target)
  obtain acts s' where e: "ensure_ghost_spawned ans ?id s = (acts, s')" by fastforce
  obtain r0 where r0: "remotes s' ?id = Some r0" "r = apply_sample line sp ?id q t_ms True r0"
    using hr new by (cases "remotes s' ?id") (auto simp: handle_render_remote_def h e)
  have "landed_hold_ticks r0 = 0 \<and> jumped_hold_ticks r0 = 0"
    using e r0(1) new by (auto simp: ensure_ghost_spawned_def new_remote_def Let_def split: if_splits option.splits bool.splits)
  then have seen: "seen r = counts r" "landed_hold_ticks r = 0" "jumped_hold_ticks r = 0"
    by (simp_all add: r0(2) apply_sample_def Let_def)
  let ?m = "target_montage (anim r)"
  have "nothing_unseen ?m (r, p, d)" using seen fresh by (simp add: nothing_unseen_def)
  note run = unseen_run [OF this, of ?id ts]
  obtain calls r' p' d' where res: "run_ticks ?id ts (r, p, d) = (calls, r', p', d')" by (metis prod_cases4)
  have no: "c \<notin> set calls" if "is_event c" "c \<noteq> MontageStop" "\<forall>m. c \<noteq> MontagePlay m" for c
    using run that by (auto simp: res corrects_def)
  have montage: "c \<in> {MontageStop, MontagePlay ?m} \<and> (\<exists>(a, g, mode, tick)\<in>set ts. tick mod 4 = 0 \<and> has_abp a \<and>
      (\<exists>x. active_montage a = Some x \<and> x \<noteq> [] \<and> x \<noteq> ''none'' \<and> after_space x \<noteq> ?m))"
    if "c \<in> set calls" "c = MontageStop \<or> c = MontagePlay m" for c m
  proof -
    have "is_event c" using that(2) by (auto simp: is_event_def)
    with run that(1) obtain a g mode tick where t: "(a, g, mode, tick) \<in> set ts" "corrects ?m a tick c"
      unfolding res by auto
    then show ?thesis
      by (intro conjI bexI [OF _ t(1)])
        (auto simp: corrects_def montage_diverges_def MONTAGE_DIVERGENCE_CHECK_INTERVAL_TICKS_def split: option.splits)
  qed
  have "landed p' \<noteq> Some True" "jumped p' \<noteq> Some True" using run by (simp_all add: res nothing_unseen_def)
  moreover have "DamageResponse \<notin> set calls" "DieFade \<notin> set calls" "SpawnNumAfterimages \<notin> set calls"
    by (rule no; simp add: is_event_def)+
  ultimately show ?thesis unfolding res prod.case using seen(1) montage by (intro conjI allI impI) blast+
qed

section \<open>Pulses\<close>

definition pulse_ticks :: "nat \<Rightarrow> stage \<Rightarrow> stage" where
  "pulse_ticks n = (snd \<circ> mirror_pulses) ^^ n"

lemma landing_pulse_steps:
  assumes edge: "dbl_less (land_count (seen r)) (land_count (counts r))" and p: "landed p \<noteq> None"
  shows "let st = pulse_ticks (Suc n) (r, p, d) in
     landed_hold_ticks (fst st) = 2 - n \<and> land_count (seen (fst st)) = land_count (counts r) \<and> counts (fst st) = counts r \<and>
     landed (fst (snd st)) = Some (n < 3)"
proof (induction n)
  case 0
  then show ?case using edge p by (auto simp: pulse_ticks_def mirror_pulses_def PULSE_HOLD_TICKS_def Let_def)
next
  case (Suc n)
  obtain r' p' d' where st: "pulse_ticks (Suc n) (r, p, d) = (r', p', d')" by (cases "pulse_ticks (Suc n) (r, p, d)")
  have "pulse_ticks (Suc (Suc n)) (r, p, d) = snd (mirror_pulses (r', p', d'))"
    using st by (simp add: pulse_ticks_def)
  then show ?case using Suc.IH st by (auto simp: mirror_pulses_def Let_def)
qed

text \<open>
  A landing, however many were counted between two samples, is one pulse: the ghost's
  \<^verbatim>\<open>landed?\<close> is written true on exactly the next three ticks and false from the fourth on, until the
  peer's counter moves again.
\<close>

theorem landing_pulse_held:
  assumes "dbl_less (land_count (seen r)) (land_count (counts r))" and "landed p \<noteq> None" and "0 < n"
  shows "landed (fst (snd (pulse_ticks n (r, p, d)))) = Some (n \<le> 3)"
  using assms landing_pulse_steps [OF assms(1,2), of "n - 1" d] by (cases n) (auto simp: Let_def)

section \<open>What a replacement pawn misses\<close>

text \<open>
  The peer's capsule half-height is stored unbounded. The capsule write clamps it to 4096; the base
  offset write does not, so an infinite half-height (\<^verbatim>\<open>1e999\<close> on the wire) reaches the pawn as minus infinity.
\<close>

theorem base_offset_unclamped:
  assumes "target_capsule_half (anim r) = PosInf" and "base_offset_z p = Some z"
  shows "base_offset_z (fst (snd (snd (mirror_base_offset (r, p, d))))) = Some NegInf"
  using assms by (simp add: mirror_base_offset_def)

text \<open>
  \<^verbatim>\<open>release_ghost\<close> leaves the two crouch latches: while the peer stays crouched, a ghost released and
  spawned again is sent neither the crouch event nor the crouch input.
\<close>

theorem released_ghost_misses_crouch:
  assumes "peer_shrunk r" "crouch_event_shrunk (latches r)" "crouch_input_shrunk (latches r)"
    and "r' = (snd (release_entry destroyed r))\<lparr>ghost := Some h\<rparr>"
  shows "fst (mirror_crouch_event (r', p, d)) = [] \<and> fst (mirror_crouch_input (r', p, d)) = []"
  using assms
  by (auto simp: release_entry_def clear_latches_def mirror_crouch_event_def mirror_crouch_input_def peer_shrunk_def Let_def
      split: option.splits)

text \<open>
  No release resets the shadow and the bubble latches: the pawn that replaces a ghost whose peer's
  shadow is hidden, or whose bubble flash is on, is never told.
\<close>

theorem replacement_keeps_shadow_latch:
  assumes "last_applied_shadow_visible (latches r) = (if target_shadow_visible (anim r) then 1 else 0)"
    and "ghost_bubble_flash_on (latches r) = peer_flash_on (anim r)"
    and "r' = (drop_entry r)\<lparr>ghost := Some h\<rparr> \<or> r' = (snd (release_entry destroyed r))\<lparr>ghost := Some h\<rparr>"
  shows "fst (mirror_shadow a (r', p, d)) = [] \<and> fst (mirror_bubble (r', p, d)) = []"
  using assms
  by (auto simp: drop_entry_def release_entry_def clear_latches_def mirror_shadow_def mirror_bubble_def Let_def
      split: option.splits)

text \<open>After a failed lookup every outfit waits, one the peer has only now put on included.\<close>

theorem outfit_new_target_waits:
  assumes "last_failed_outfit_mesh (latches r) \<noteq> []" "tick - last_outfit_attempt_tick (latches r) < LOG_INTERVAL_TICKS"
  shows "mirror_outfit a tick (r\<lparr>anim := (anim r)\<lparr>target_outfit_mesh := m\<rparr>\<rparr>, p, d) =
     ([], r\<lparr>anim := (anim r)\<lparr>target_outfit_mesh := m\<rparr>\<rparr>, p, d)"
  using assms by (simp add: mirror_outfit_def tries_outfit_def retry_due_def)

text \<open>Chaser contact in kill mode: the overlap flag is recorded but never read, so nothing limits it to once per overlap.\<close>

theorem kill_contact_every_tick:
  assumes "is_chaser pid" "ghost r \<noteq> None" "\<not> player_frozen a" "capsules_overlap a" "own_hp a = Some (Fin 1)" "\<not> intangible a"
  shows "fst (mirror_chaser_contact a ''kill'' pid (r\<lparr>latches := (latches r)\<lparr>chaser_contact_overlapping := True\<rparr>\<rparr>, p, d)) = [TryDamage (Fin 1)]"
  using assms by (simp add: mirror_chaser_contact_def)

section \<open>Concrete ticks\<close>

definition sample_tick :: tick_answers where
  "sample_tick = \<lparr>alive = True, ta_world = None, distance_to = None, has_mesh = (\<lambda>_. True), has_movement = True,
     damage_called = True, hp_before = None, hp_after = None, player_frozen = False, capsules_overlap = True,
     own_hp = Some (Fin 20), intangible = False, has_abp = True, weapon_hidden_toggle = False, equip_call_skipped = False,
     equip_anim_skipped = False, has_shadow = True, find_asset = (\<lambda>_ _. None), active_montage = None,
     has_visual_mesh = True, skeleton_alive = True, weapon_targets = []\<rparr>"

definition sample_pawn :: pawn where
  "sample_pawn = \<lparr>capsule_half_height = Some (Fin 65), is_crouched = Some False, slide_track = None, base_offset_z = Some (Fin (- 66)),
     place = (zero3, zero3), p_move_state = Some 0, p_action_state = Some 0, p_horizontal_speed = Some (Fin 0),
     p_vertical_speed = Some (Fin 0), p_anim_jump_type = Some 0, p_movement_mode = Some 0, weapon_mesh_visible = None,
     weapon_equipped_prop = None, anim_equipped_weapon = None, landed = Some False, jumped = Some False,
     afterimages_to_spawn = None, afterimage_color = None\<rparr>"

definition sample_remote :: remote_ghost where
  "sample_remote = new_remote\<lparr>ghost := Some 5, anim := (anim new_remote)\<lparr>target_capsule_half := Fin 30\<rparr>,
     counts := new_counts\<lparr>land_count := Fin 4\<rparr>\<rparr>"

lemmas sample_defs = sample_tick_def sample_pawn_def sample_remote_def new_remote_def new_counts_def new_latches_def

theorem crouch_events_paired_witness:
  "filter is_crouch (fst (run_peer ''b'' [Tick sample_tick default_ranges [] 1] (sample_remote, sample_pawn, False))) = [StartCrouch (Fin 35)] \<and>
   paired None [StartCrouch (Fin 35)]"
proof -
  let ?run = "run_peer ''b'' [Tick sample_tick default_ranges [] 1] (sample_remote, sample_pawn, False)"
  have calls: "filter is_crouch (fst ?run) = [StartCrouch (Fin 35)]" and up: "ghost (fst (snd ?run)) \<noteq> None"
    by (simp_all add: tick_ghost_def head_tier_def world_changed_def mirrors_def mirror_defs Let_def sample_defs peer_shrunk_def is_shrunk_def
        GHOST_STANDING_CAPSULE_HALF_def clamp_to_float_def dbl_sub_def dbl_isnan_def is_chaser_def chaser_prefix_def
        peer_flash_on_def tries_outfit_def)
  from crouch_events_paired [OF up] calls show ?thesis
    by (simp add: open_crouch_def sample_defs)
qed

theorem only_chasers_damage_witness:
  "TryDamage (Fin 5) \<in> set (fst (tick_ghost sample_tick default_ranges ''hurt'' ''chaser:1'' 1 (sample_remote, sample_pawn, False))) \<and>
   is_chaser ''chaser:1''"
proof -
  have "TryDamage (Fin 5) \<in> set (fst (tick_ghost sample_tick default_ranges ''hurt'' ''chaser:1'' 1 (sample_remote, sample_pawn, False)))"
    by (simp add: tick_ghost_def head_tier_def world_changed_def mirrors_def mirror_defs Let_def sample_defs peer_shrunk_def is_shrunk_def
        GHOST_STANDING_CAPSULE_HALF_def is_chaser_def chaser_prefix_def CHASER_HURT_DAMAGE_def
        peer_flash_on_def tries_outfit_def)
  then show ?thesis
    using only_chasers_damage [of "Fin 5" sample_tick default_ranges "''hurt''" "''chaser:1''" 1 sample_remote sample_pawn False] by blast
qed

theorem new_peer_replays_nothing_witness:
  "\<exists>r. remotes (snd (handle_bridge_line sample_answers True 0 render_line sample_game)) ''b'' = Some r \<and> seen r = counts r \<and>
     DieFade \<notin> set (fst (run_ticks ''b'' [(sample_tick\<lparr>active_montage := Some ''AnimMontage /Game/M.M''\<rparr>, default_ranges, [], 4)]
       (r, sample_pawn, False)))"
proof -
  have id: "line_target render_line = ''b''" using render_head_target [OF render_line_head] .
  have new: "remotes sample_game ''b'' = None" by (simp add: sample_game_def)
  have "\<exists>r. remotes (snd (handle_bridge_line sample_answers True 0 render_line sample_game)) ''b'' = Some r"
    by (simp add: handle_bridge_line_def render_line_read handle_render_remote_def render_line_head ensure_ghost_spawned_def
        may_spawn_def sample_answers_def sample_game_def new_game_def SPAWN_DELAY_TICKS_def Let_def)
  then obtain r where r: "remotes (snd (handle_bridge_line sample_answers True 0 render_line sample_game)) ''b'' = Some r" by blast
  have fresh: "landed sample_pawn \<noteq> Some True" "jumped sample_pawn \<noteq> Some True" by (simp_all add: sample_pawn_def)
  from new_peer_replays_nothing [of render_line sample_game sample_answers True 0 r sample_pawn
      "[(sample_tick\<lparr>active_montage := Some ''AnimMontage /Game/M.M''\<rparr>, default_ranges, [], 4)]" False, unfolded id,
      OF render_line_read(1) new r fresh] r
  show ?thesis by (auto split: prod.splits simp del: run_steps.simps)
qed

theorem landing_pulse_held_witness:
  "landed (fst (snd (pulse_ticks 3 (sample_remote, sample_pawn, False)))) = Some True \<and>
   landed (fst (snd (pulse_ticks 4 (sample_remote, sample_pawn, False)))) = Some False"
  using landing_pulse_held [of sample_remote sample_pawn 3 False] landing_pulse_held [of sample_remote sample_pawn 4 False]
  by (simp add: sample_defs)
end
