(* ===== verification/Input_Capture.thy ===== *)
theory Input_Capture
  imports Doubles "HOL-Library.Word" "HOL-Library.Sublist"
begin

unbundle bit_operations_syntax

text \<open>
  The input track of the local player (\<^verbatim>\<open>Plugin::input_track_sample\<close> after its reads, and
  \<^verbatim>\<open>Plugin::input_track_drain_and_send\<close> up to the send): the axes a frame records, the edge it queues,
  the bounded queue, and the batch a tick takes out. What the engine read is an argument.
\<close>

section \<open>State\<close>

record input_rec =
  rec_f :: u64
  rec_t :: int
  rec_m :: u32
  rec_ax :: "dbl list"
  rec_button :: bool

record capture =
  input_edges :: "input_rec list"
  input_drops :: u32
  input_frame :: u64
  input_prev_mask :: u32
  input_prev_ax :: "dbl list"
  input_last_axis_ms :: int
  input_cam_resolved :: bool
  input_cam_refused :: bool
  input_cam_misses :: u32
  input_have_prev :: bool
  input_labels_sent :: bool
  input_jump_agree :: u64
  input_jump_disagree :: u64

definition new_capture :: capture where
  "new_capture = \<lparr>input_edges = [], input_drops = 0, input_frame = 0, input_prev_mask = 0,
     input_prev_ax = replicate 6 (Fin 0), input_last_axis_ms = 0, input_cam_resolved = False, input_cam_refused = False,
     input_cam_misses = 0, input_have_prev = False, input_labels_sent = False, input_jump_agree = 0, input_jump_disagree = 0\<rparr>"

definition INPUT_TRACK_AXIS_MIN_MS :: int where "INPUT_TRACK_AXIS_MIN_MS = 33"
definition INPUT_TRACK_AXIS_COUNT :: nat where "INPUT_TRACK_AXIS_COUNT = 6"
definition INPUT_TRACK_QUEUE_CAP :: nat where "INPUT_TRACK_QUEUE_CAP = 256"
definition INPUT_TRACK_BATCH_MAX :: nat where "INPUT_TRACK_BATCH_MAX = 64"
definition CAM_MISS_LIMIT :: u32 where "CAM_MISS_LIMIT = 600"

section \<open>The axes\<close>

text \<open>\<^verbatim>\<open>std::round(v * 64.0) / 64.0\<close>: half away from zero; dividing by 64 is multiplying by its inverse, exactly.\<close>

fun dbl_round :: "dbl \<Rightarrow> dbl" where
  "dbl_round (Fin x) = Fin (of_int (if 0 \<le> x then \<lfloor>x + 1 / 2\<rfloor> else \<lceil>x - 1 / 2\<rceil>))"
| "dbl_round x = x"

definition quantize :: "dbl \<Rightarrow> dbl" where
  "quantize v = dbl_mult (dbl_round (dbl_mult v (Fin 64))) (Fin (1 / 64))"

text \<open>What the reads gave: the stick, the camera's yaw and pitch, the two looks of each look key.\<close>

record axis_reads =
  stick :: "(dbl \<times> dbl) option"
  cam_rot :: "(dbl \<times> dbl) option"
  looks :: "(dbl \<times> dbl) list option"

definition move_axes :: "axis_reads \<Rightarrow> dbl \<times> dbl" where
  "move_axes rd = (case stick rd of None \<Rightarrow> (Fin 0, Fin 0) | Some (x, y) \<Rightarrow> (quantize x, quantize y))"

definition look_axes :: "axis_reads \<Rightarrow> dbl \<times> dbl" where
  "look_axes rd =
     (case looks rd of
        None \<Rightarrow> (Fin 0, Fin 0)
      | Some vs \<Rightarrow>
          (case fold (\<lambda>(x, y) (lx, ly). if isfinite x \<and> isfinite y then (dbl_add lx x, dbl_add ly y) else (lx, ly))
                  vs (Fin 0, Fin 0) of (lx, ly) \<Rightarrow> (quantize lx, quantize ly)))"

text \<open>
  The camera: a refused one is not asked; the first answer resolves it, a transient miss holds the
  last values, and 600 misses before any answer refuse it for good.
\<close>

definition cam_axes :: "axis_reads \<Rightarrow> capture \<Rightarrow> (dbl \<times> dbl) \<times> capture" where
  "cam_axes rd c =
     (if input_cam_refused c then ((Fin 0, Fin 0), c)
      else case cam_rot rd of
        Some (yaw, pitch) \<Rightarrow>
          (if isfinite yaw \<and> isfinite pitch then (quantize yaw, quantize pitch) else (Fin 0, Fin 0),
           c\<lparr>input_cam_resolved := True\<rparr>)
      | None \<Rightarrow>
          if input_cam_resolved c then ((input_prev_ax c ! 4, input_prev_ax c ! 5), c)
          else
            let n = input_cam_misses c + 1; c = c\<lparr>input_cam_misses := n\<rparr> in
            if CAM_MISS_LIMIT \<le> n then ((Fin 0, Fin 0), c\<lparr>input_cam_resolved := True, input_cam_refused := True\<rparr>)
            else ((Fin 0, Fin 0), c))"

definition read_axes :: "axis_reads \<Rightarrow> capture \<Rightarrow> dbl list \<times> capture" where
  "read_axes rd c =
     (case cam_axes rd c of
        ((yaw, pitch), c) \<Rightarrow>
          ([fst (move_axes rd), snd (move_axes rd), fst (look_axes rd), snd (look_axes rd), yaw, pitch], c))"

section \<open>The queue\<close>

text \<open>The newest axis-only edge taken out, if there is one.\<close>

fun drop_first_axis :: "input_rec list \<Rightarrow> input_rec list option" where
  "drop_first_axis [] = None"
| "drop_first_axis (e # es) = (if rec_button e then map_option (Cons e) (drop_first_axis es) else Some es)"

definition drop_newest_axis :: "input_rec list \<Rightarrow> input_rec list option" where
  "drop_newest_axis es = map_option rev (drop_first_axis (rev es))"

text \<open>Whether the edge was taken, and the queue and drop count after.\<close>

definition enqueue_edge :: "input_rec \<Rightarrow> input_rec list \<Rightarrow> u32 \<Rightarrow> bool \<times> input_rec list \<times> u32" where
  "enqueue_edge e q drops =
     (if length q < INPUT_TRACK_QUEUE_CAP then (True, q @ [e], drops)
      else case drop_newest_axis q of
        Some q' \<Rightarrow> (True, q' @ [e], drops + 1)
      | None \<Rightarrow> if rec_button e then (True, tl q @ [e], drops + 1) else (False, q, drops + 1))"

section \<open>A frame\<close>

definition axes_differ :: "dbl list \<Rightarrow> dbl list \<Rightarrow> bool" where
  "axes_differ xs ys = list_ex (\<lambda>i. dbl_ne (xs ! i) (ys ! i)) [0..<INPUT_TRACK_AXIS_COUNT]"

record frame_reads =
  display_wants :: bool
  track_wants :: bool
  have_actors :: bool
  key_mask :: u32
  axis_reads :: axis_reads
  frame_ms :: int
  jump_held :: bool

definition axes_changed :: "dbl list \<Rightarrow> capture \<Rightarrow> bool" where
  "axes_changed ax c \<longleftrightarrow> \<not> input_have_prev c \<or> axes_differ ax (input_prev_ax c)"

definition button_edge :: "frame_reads \<Rightarrow> capture \<Rightarrow> bool" where
  "button_edge fr c \<longleftrightarrow> \<not> input_have_prev c \<or> key_mask fr \<noteq> input_prev_mask c"

definition makes_edge :: "frame_reads \<Rightarrow> dbl list \<Rightarrow> capture \<Rightarrow> bool" where
  "makes_edge fr ax c \<longleftrightarrow>
     button_edge fr c \<or> (axes_changed ax c \<and> frame_ms fr - input_last_axis_ms c \<ge> INPUT_TRACK_AXIS_MIN_MS)"

text \<open>The live check of the jump bit against the pawn's own flag.\<close>

definition jump_check :: "frame_reads \<Rightarrow> capture \<Rightarrow> capture" where
  "jump_check fr c =
     (if \<not> (button_edge fr c \<and> input_have_prev c \<and> bit (key_mask fr XOR input_prev_mask c) 0) then c
      else if jump_held fr = bit (key_mask fr) 0 then c\<lparr>input_jump_agree := input_jump_agree c + 1\<rparr>
      else c\<lparr>input_jump_disagree := input_jump_disagree c + 1\<rparr>)"

definition edge_of :: "frame_reads \<Rightarrow> dbl list \<Rightarrow> capture \<Rightarrow> input_rec" where
  "edge_of fr ax c = \<lparr>rec_f = input_frame c, rec_t = frame_ms fr, rec_m = key_mask fr, rec_ax = ax, rec_button = button_edge fr c\<rparr>"

definition queue_frame :: "frame_reads \<Rightarrow> dbl list \<Rightarrow> capture \<Rightarrow> capture" where
  "queue_frame fr ax c =
     (if \<not> makes_edge fr ax c then c
      else case enqueue_edge (edge_of fr ax c) (input_edges c) (input_drops c) of
             (False, q, drops) \<Rightarrow> (jump_check fr c)\<lparr>input_drops := drops\<rparr>
           | (True, q, drops) \<Rightarrow>
               (jump_check fr c)\<lparr>input_edges := q, input_drops := drops,
                 input_prev_mask := key_mask fr, input_prev_ax := ax,
                 input_last_axis_ms := (if axes_changed ax c then frame_ms fr else input_last_axis_ms c),
                 input_have_prev := True\<rparr>)"

text \<open>
  The whole frame. With nobody wanting it the previous state is forgotten; a frame only the display
  wants reads, but keeps the queue and the previous state as they are.
\<close>

definition input_track_sample :: "frame_reads \<Rightarrow> capture \<Rightarrow> capture" where
  "input_track_sample fr c =
     (let c = c\<lparr>input_frame := input_frame c + 1\<rparr> in
      if (\<not> track_wants fr \<and> \<not> display_wants fr) \<or> \<not> have_actors fr then c\<lparr>input_have_prev := False\<rparr>
      else case read_axes (axis_reads fr) c of
             (ax, c) \<Rightarrow> if \<not> track_wants fr then c else queue_frame fr ax c)"

section \<open>Taking a batch\<close>

text \<open>
  The batch is popped and the drop count cleared before it is decided whether a line goes out;
  \<open>None\<close> is an early return, and what was popped is then gone.
\<close>

record input_batch =
  batch_labels :: bool
  batch_camrot :: bool
  batch_drops :: u32
  batch_edges :: "input_rec list"

definition drain_input :: "capture \<Rightarrow> input_batch option \<times> capture" where
  "drain_input c =
     (let n = min (length (input_edges c)) INPUT_TRACK_BATCH_MAX;
          batch = take n (input_edges c);
          drops = input_drops c;
          c = c\<lparr>input_edges := drop n (input_edges c), input_drops := 0\<rparr>
      in if batch = [] \<and> input_labels_sent c then (None, c)
         else if \<not> input_labels_sent c \<and> \<not> input_cam_resolved c then (None, c)
         else (Some \<lparr>batch_labels = (\<not> input_labels_sent c), batch_camrot = (\<not> input_cam_refused c),
                     batch_drops = drops, batch_edges = batch\<rparr>, c))"

section \<open>What the queue keeps\<close>

lemma drop_first_axis_Some:
  "drop_first_axis es = Some es' \<Longrightarrow>
     length es = Suc (length es') \<and> filter rec_button es' = filter rec_button es \<and> subseq es' es"
  by (induction es arbitrary: es') (auto split: if_splits)

lemma drop_first_axis_None: "drop_first_axis es = None \<longleftrightarrow> list_all rec_button es"
  by (induction es) auto

lemma subseq_rev: "subseq xs ys \<Longrightarrow> subseq (rev xs) (rev ys)"
  by (induction rule: list_emb.induct) (auto intro: list_emb_append_mono subseq_append' [THEN iffD2] list_emb_prefix)

lemma drop_newest_axis_Some:
  assumes "drop_newest_axis es = Some es'"
  shows "length es = Suc (length es')" "filter rec_button es' = filter rec_button es" "subseq es' es"
proof -
  from assms obtain ds where d: "drop_first_axis (rev es) = Some ds" "es' = rev ds"
    by (auto simp: drop_newest_axis_def)
  note f = drop_first_axis_Some [OF d(1)]
  show "length es = Suc (length es')" using f d(2) by simp
  show "subseq es' es" using f d(2) subseq_rev [of ds "rev es"] by simp
  have "rev (filter rec_button ds) = rev (filter rec_button (rev es))" using f by simp
  then show "filter rec_button es' = filter rec_button es" using d(2) by (simp add: rev_filter)
qed

lemma drop_newest_axis_None: "drop_newest_axis es = None \<longleftrightarrow> list_all rec_button es"
  by (simp add: drop_newest_axis_def drop_first_axis_None list_all_iff)

lemma enqueue_edge_length:
  assumes "enqueue_edge e q drops = (ok, q', drops')" and "length q \<le> 256" and "unat drops < 2 ^ 32 - 1"
  shows "length q' \<le> 256 \<and> length q' + unat drops' = length q + unat drops + 1"
proof -
  have "unat (drops + 1) = unat drops + 1"
    using assms(3) by (simp add: unat_plus_simple [THEN iffD1] unat_add_lem [THEN iffD1])
  then show ?thesis
    using assms by (auto simp: enqueue_edge_def INPUT_TRACK_QUEUE_CAP_def dest!: drop_newest_axis_Some(1) split: if_splits option.splits)
qed

lemma enqueue_edge_bound:
  assumes "enqueue_edge e q drops = (ok, q', drops')" and "length q \<le> 256"
  shows "length q' \<le> 256"
  using assms by (auto simp: enqueue_edge_def INPUT_TRACK_QUEUE_CAP_def dest!: drop_newest_axis_Some(1) split: if_splits option.splits)

lemma subseq_tl: "subseq (tl xs) xs"
  by (cases xs) auto

lemma enqueue_edge_subseq:
  "enqueue_edge e q drops = (ok, q', drops') \<Longrightarrow> if ok then \<exists>q0. q' = q0 @ [e] \<and> subseq q0 q else q' = q"
  by (auto simp: enqueue_edge_def subseq_tl dest: drop_newest_axis_Some(3) split: if_splits option.splits)

text \<open>The newest \<open>n\<close> of a list.\<close>

definition newest :: "nat \<Rightarrow> 'a list \<Rightarrow> 'a list" where
  "newest n xs = drop (length xs - n) xs"

lemma newest_append: "newest n (newest n xs @ ys) = newest n (xs @ ys)"
proof (cases "n \<le> length xs")
  case True
  then obtain m where "length xs = n + m" using le_Suc_ex by blast
  then show ?thesis by (simp add: newest_def add.commute)
qed (simp add: newest_def)

lemma newest_id: "length xs \<le> n \<Longrightarrow> newest n xs = xs"
  by (simp add: newest_def)

lemma filter_fits: "length xs \<le> n \<Longrightarrow> length (filter P xs) \<le> n"
  using length_filter_le [of P xs] by linarith

lemma enqueue_edge_buttons:
  assumes "enqueue_edge e q drops = (ok, q', drops')" and "length q \<le> 256"
  shows "(rec_button e \<longrightarrow> ok) \<and> filter rec_button q' = newest 256 (filter rec_button (q @ [e]))"
proof -
  have len: "length (filter rec_button q) \<le> 256" using assms(2) length_filter_le [of rec_button q] by linarith
  show ?thesis
  proof (cases "length q < 256")
    case True
    have "length (filter rec_button (q @ [e])) \<le> 256"
      using True length_filter_le [of rec_button "q @ [e]"] by simp
    then show ?thesis using assms True by (auto simp: enqueue_edge_def INPUT_TRACK_QUEUE_CAP_def newest_id)
  next
    case False
    then have L: "length q = 256" using assms(2) by simp
    show ?thesis
    proof (cases "drop_newest_axis q")
      case None
      then have "list_all rec_button q" by (simp add: drop_newest_axis_None)
      then have "filter rec_button q = q" "filter rec_button (tl q) = tl q"
        by (cases q; simp add: list_all_iff filter_id_conv)+
      moreover have "(ok, q') = (if rec_button e then (True, tl q @ [e]) else (False, q))"
        using assms L None by (simp add: enqueue_edge_def INPUT_TRACK_QUEUE_CAP_def split: if_splits)
      moreover have "newest 256 q = q" "newest 256 (q @ [e]) = tl q @ [e]"
        using L by (simp_all add: newest_def drop_Suc)
      ultimately show ?thesis by (simp split: if_splits)
    next
      case (Some q1)
      note d = drop_newest_axis_Some [OF Some]
      have "length (filter rec_button q1) \<le> 255" using d(1) L length_filter_le [of rec_button q1] by simp
      then have "length (filter rec_button (q @ [e])) \<le> 256" by (simp flip: d(2))
      then show ?thesis using assms L Some d by (auto simp: enqueue_edge_def INPUT_TRACK_QUEUE_CAP_def newest_id)
    qed
  qed
qed


section \<open>Runs of frames and drains\<close>

text \<open>The edge a frame offers the queue, if it makes one.\<close>

definition frame_offer :: "frame_reads \<Rightarrow> capture \<Rightarrow> input_rec option" where
  "frame_offer fr c =
     (let c = c\<lparr>input_frame := input_frame c + 1\<rparr> in
      if \<not> track_wants fr \<or> \<not> have_actors fr then None
      else case read_axes (axis_reads fr) c of (ax, c) \<Rightarrow> if makes_edge fr ax c then Some (edge_of fr ax c) else None)"

lemma jump_check_frame:
  "input_edges (jump_check fr c) = input_edges c" "input_drops (jump_check fr c) = input_drops c"
  "input_prev_mask (jump_check fr c) = input_prev_mask c"
  by (simp_all add: jump_check_def)

lemma read_axes_frame:
  assumes "read_axes rd c = (ax, c')"
  shows "input_edges c' = input_edges c" "input_drops c' = input_drops c" "input_prev_mask c' = input_prev_mask c"
    "input_prev_ax c' = input_prev_ax c" "input_have_prev c' = input_have_prev c" "length ax = 6"
  using assms by (auto simp: read_axes_def cam_axes_def Let_def split: prod.splits option.splits if_splits)

lemma frame_queue:
  "case frame_offer fr c of
     None \<Rightarrow> input_edges (input_track_sample fr c) = input_edges c \<and> input_drops (input_track_sample fr c) = input_drops c \<and>
       input_prev_mask (input_track_sample fr c) = input_prev_mask c
   | Some e \<Rightarrow> \<exists>ok. enqueue_edge e (input_edges c) (input_drops c) =
        (ok, input_edges (input_track_sample fr c), input_drops (input_track_sample fr c)) \<and>
        input_prev_mask (input_track_sample fr c) = (if ok then rec_m e else input_prev_mask c)"
proof -
  obtain ax c1 where r: "read_axes (axis_reads fr) (c\<lparr>input_frame := input_frame c + 1\<rparr>) = (ax, c1)" by (meson surj_pair)
  note f = read_axes_frame [OF r]
  obtain ok q d where e: "enqueue_edge (edge_of fr ax c1) (input_edges c) (input_drops c) = (ok, q, d)" by (metis prod_cases3)
  show ?thesis
  proof (cases "\<not> track_wants fr \<or> \<not> have_actors fr")
    case True
    then show ?thesis using f by (auto simp: frame_offer_def input_track_sample_def Let_def r)
  next
    case False
    then have o: "frame_offer fr c = (if makes_edge fr ax c1 then Some (edge_of fr ax c1) else None)"
      and s: "input_track_sample fr c = queue_frame fr ax c1"
      by (simp_all add: frame_offer_def input_track_sample_def Let_def r)
    have "rec_m (edge_of fr ax c1) = key_mask fr" by (simp add: edge_of_def)
    moreover have "\<not> ok \<Longrightarrow> q = input_edges c" using enqueue_edge_subseq [OF e] by simp
    ultimately show ?thesis using o s f e by (cases ok) (auto simp: queue_frame_def jump_check_frame)
  qed
qed

datatype capture_step = Sample frame_reads | Drain

record capture_log =
  log_offered :: "input_rec list"
  log_taken :: "input_rec list"
  log_reported :: nat

text \<open>The log of a run: what frames offered, what drains took out of the queue, and the drops they cleared.\<close>

fun do_capture :: "capture_step \<Rightarrow> capture \<times> capture_log \<Rightarrow> capture \<times> capture_log" where
  "do_capture (Sample fr) (c, l) =
     (input_track_sample fr c,
      (case frame_offer fr c of None \<Rightarrow> l | Some e \<Rightarrow> l\<lparr>log_offered := log_offered l @ [e]\<rparr>))"
| "do_capture Drain (c, l) =
     (snd (drain_input c),
      l\<lparr>log_taken := log_taken l @ take INPUT_TRACK_BATCH_MAX (input_edges c),
        log_reported := log_reported l + unat (input_drops c)\<rparr>)"

definition capture_run :: "capture_step list \<Rightarrow> capture \<times> capture_log" where
  "capture_run steps = fold do_capture steps (new_capture, \<lparr>log_offered = [], log_taken = [], log_reported = 0\<rparr>)"

lemma drain_input_queue:
  "input_edges (snd (drain_input c)) = drop INPUT_TRACK_BATCH_MAX (input_edges c)"
  "input_drops (snd (drain_input c)) = 0" "input_prev_mask (snd (drain_input c)) = input_prev_mask c"
  by (simp_all add: drain_input_def Let_def min_def)

lemma drain_input_batch:
  "fst (drain_input c) = Some b \<Longrightarrow> batch_edges b = take INPUT_TRACK_BATCH_MAX (input_edges c) \<and> batch_drops b = input_drops c"
  by (auto simp: drain_input_def Let_def min_def split: if_splits)

definition accounted :: "capture \<times> capture_log \<Rightarrow> bool" where
  "accounted s \<longleftrightarrow>
     (case s of (c, l) \<Rightarrow>
        length (input_edges c) \<le> 256 \<and>
        subseq (log_taken l @ input_edges c) (log_offered l) \<and>
        (input_edges c \<noteq> [] \<longrightarrow> rec_m (last (input_edges c)) = input_prev_mask c) \<and>
        (length (log_offered l) < 2 ^ 32 \<longrightarrow>
           length (log_offered l) = length (log_taken l) + length (input_edges c) + log_reported l + unat (input_drops c)))"

lemma accounted_step: "accounted s \<Longrightarrow> accounted (do_capture st s)"
proof -
  assume A: "accounted s"
  obtain c l where s: "s = (c, l)" by (cases s)
  show "accounted (do_capture st s)"
  proof (cases st)
    case Drain
    have "log_taken l @ input_edges c = (log_taken l @ take 64 (input_edges c)) @ drop 64 (input_edges c)" by simp
    moreover have "drop 64 (input_edges c) \<noteq> [] \<Longrightarrow> last (drop 64 (input_edges c)) = last (input_edges c)"
      by (rule last_drop) simp
    moreover have "drop 64 (input_edges c) \<noteq> [] \<Longrightarrow> input_edges c \<noteq> []" by auto
    ultimately show ?thesis
      using A by (auto simp: s Drain accounted_def drain_input_queue INPUT_TRACK_BATCH_MAX_def min_def)
  next
    case (Sample fr)
    show ?thesis
    proof (cases "frame_offer fr c")
      case None
      then show ?thesis using A frame_queue [of fr c] by (simp add: s Sample accounted_def)
    next
      case (Some e)
      obtain ok where e: "enqueue_edge e (input_edges c) (input_drops c) =
          (ok, input_edges (input_track_sample fr c), input_drops (input_track_sample fr c))"
        and m: "input_prev_mask (input_track_sample fr c) = (if ok then rec_m e else input_prev_mask c)"
        using frame_queue [of fr c] Some by auto
      note sub = enqueue_edge_subseq [OF e]
      have L: "length (input_edges c) \<le> 256" using A by (simp add: s accounted_def)
      have le: "length (input_edges (input_track_sample fr c)) \<le> 256"
        by (rule enqueue_edge_bound [OF e L])
      have sq: "subseq (log_taken l @ input_edges (input_track_sample fr c)) (log_offered l @ [e])"
      proof (cases ok)
        case False
        then show ?thesis using sub A by (simp add: s accounted_def list_emb_prefix)
      next
        case True
        then obtain q0 where q0: "input_edges (input_track_sample fr c) = q0 @ [e]" "subseq q0 (input_edges c)" using sub by auto
        have "subseq (log_taken l @ q0) (log_taken l @ input_edges c)" using q0(2) by (simp add: list_emb_append_mono)
        then have "subseq (log_taken l @ q0) (log_offered l)" using A subseq_order.trans by (auto simp: s accounted_def)
        then have "subseq ((log_taken l @ q0) @ [e]) (log_offered l @ [e])" by (rule list_emb_append_mono) simp
        then show ?thesis using q0(1) by simp
      qed
      have cnt: "length (log_offered l @ [e]) < 2 ^ 32 \<Longrightarrow> length (log_offered l @ [e]) =
          length (log_taken l) + length (input_edges (input_track_sample fr c)) + log_reported l + unat (input_drops (input_track_sample fr c))"
      proof -
        assume B: "length (log_offered l @ [e]) < 2 ^ 32"
        then have a: "length (log_offered l) = length (log_taken l) + length (input_edges c) + log_reported l + unat (input_drops c)"
          using A by (simp add: s accounted_def)
        then have "unat (input_drops c) < 2 ^ 32 - 1" using B by simp
        from enqueue_edge_length [OF e L this] a show ?thesis by simp
      qed
      have "input_edges (input_track_sample fr c) \<noteq> [] \<Longrightarrow>
          rec_m (last (input_edges (input_track_sample fr c))) = input_prev_mask (input_track_sample fr c)"
        using sub m A by (cases ok) (auto simp: s accounted_def)
      then show ?thesis using le sq cnt by (simp add: s Sample Some accounted_def)
    qed
  qed
qed

lemma accounted_run: "accounted s \<Longrightarrow> accounted (fold do_capture steps s)"
  by (induction steps arbitrary: s) (simp_all add: accounted_step)

text \<open>
  Property C13. Over any run of frames and drains from the start, what the drains took out followed
  by what is still queued is a subsequence, in order and unchanged, of the edges the frames offered; the queue
  never holds more than 256; the last queued edge carries the mask the next frame is compared with; and while
  fewer than 2^32 edges were offered, every one of them is taken out, queued, or counted as a drop, either
  cleared by a drain or still pending.
\<close>

theorem capture_accounts:
  "case capture_run steps of (c, l) \<Rightarrow>
     length (input_edges c) \<le> 256 \<and>
     subseq (log_taken l @ input_edges c) (log_offered l) \<and>
     (input_edges c \<noteq> [] \<longrightarrow> rec_m (last (input_edges c)) = input_prev_mask c) \<and>
     (length (log_offered l) < 2 ^ 32 \<longrightarrow>
        length (log_offered l) = length (log_taken l) + length (input_edges c) + log_reported l + unat (input_drops c))"
proof -
  have "accounted (new_capture, \<lparr>log_offered = [], log_taken = [], log_reported = 0\<rparr>)"
    by (simp add: accounted_def new_capture_def)
  from accounted_run [OF this, of steps] show ?thesis by (simp add: accounted_def capture_run_def split: prod.splits)
qed

text \<open>The button edges that frames offer, while nothing drains.\<close>

lemma sample_buttons:
  assumes "length (input_edges c) \<le> 256"
  shows "filter rec_button (input_edges (input_track_sample fr c)) =
    newest 256 (filter rec_button (input_edges c @ (case frame_offer fr c of None \<Rightarrow> [] | Some e \<Rightarrow> [e])))"
proof (cases "frame_offer fr c")
  case None
  then have "input_edges (input_track_sample fr c) = input_edges c" using frame_queue [of fr c] by simp
  then show ?thesis using None assms filter_fits [OF assms] by (simp add: newest_id)
next
  case (Some e)
  then show ?thesis using frame_queue [of fr c] enqueue_edge_buttons [OF _ assms] by auto
qed

text \<open>
  Between two drains the button edges of the queue are exactly the newest 256 of
  those it held and those the frames offered since, in order: a flood of stick movement, which fills the
  queue with axis-only edges, never costs a press or a release.
\<close>

theorem button_edges_kept:
  assumes "length (input_edges c) \<le> 256"
    and "fold do_capture (map Sample frs) (c, \<lparr>log_offered = [], log_taken = [], log_reported = 0\<rparr>) = (c', l)"
  shows "filter rec_button (input_edges c') = newest 256 (filter rec_button (input_edges c @ log_offered l))"
proof -
  have gen: "filter rec_button (input_edges c') = newest 256 (filter rec_button (q0 @ log_offered l)) \<and> length (input_edges c') \<le> 256"
    if "filter rec_button (input_edges c) = newest 256 (filter rec_button (q0 @ log_offered l0))"
      and "length (input_edges c) \<le> 256" and "fold do_capture (map Sample frs) (c, l0) = (c', l)" for c l0 q0
    using that
  proof (induction frs arbitrary: c l0)
    case (Cons fr frs)
    let ?c = "input_track_sample fr c"
    let ?o = "case frame_offer fr c of None \<Rightarrow> [] | Some e \<Rightarrow> [e]"
    have "filter rec_button (input_edges ?c) = newest 256 (filter rec_button ((q0 @ log_offered l0) @ ?o))"
      using sample_buttons [OF Cons.prems(2), of fr] Cons.prems(1)
        newest_append [of 256 "filter rec_button (q0 @ log_offered l0)" "filter rec_button ?o"] by simp
    moreover have "length (input_edges ?c) \<le> 256"
      using frame_queue [of fr c] enqueue_edge_bound [OF _ Cons.prems(2)] Cons.prems(2) by (auto split: option.splits)
    moreover define l1 where "l1 = snd (do_capture (Sample fr) (c, l0))"
    have "log_offered l1 = log_offered l0 @ ?o" by (simp add: l1_def split: option.split)
    moreover have "fold do_capture (map Sample frs) (?c, l1) = (c', l)" using Cons.prems(3) by (simp add: l1_def)
    ultimately show ?case using Cons.IH [of ?c l1] by simp
  qed simp
  have "filter rec_button (input_edges c) = newest 256 (filter rec_button (input_edges c @ []))"
    using filter_fits [OF assms(1)] by (simp add: newest_id)
  then show ?thesis using gen [of c "input_edges c" "\<lparr>log_offered = [], log_taken = [], log_reported = 0\<rparr>"] assms by simp
qed


definition still :: axis_reads where
  "still = \<lparr>stick = Some (Fin 0, Fin 0), cam_rot = Some (Fin 0, Fin 0), looks = None\<rparr>"

definition key_frame :: "u32 \<Rightarrow> int \<Rightarrow> frame_reads" where
  "key_frame m t = \<lparr>display_wants = False, track_wants = True, have_actors = True, key_mask = m, axis_reads = still,
     frame_ms = t, jump_held = False\<rparr>"

lemmas capture_defs = input_track_sample_def queue_frame_def read_axes_def cam_axes_def move_axes_def look_axes_def makes_edge_def
  button_edge_def axes_changed_def jump_check_def edge_of_def enqueue_edge_def frame_offer_def Let_def key_frame_def still_def
  INPUT_TRACK_QUEUE_CAP_def new_capture_def newest_def

lemma button_edges_kept_witness:
  "map rec_m (filter rec_button (input_edges (fst (fold do_capture (map Sample [key_frame 1 10, key_frame 1 20, key_frame 0 30])
     (new_capture, \<lparr>log_offered = [], log_taken = [], log_reported = 0\<rparr>))))) = [1, 0]"
proof -
  let ?s = "fold do_capture (map Sample [key_frame 1 10, key_frame 1 20, key_frame 0 30])
     (new_capture, \<lparr>log_offered = [], log_taken = [], log_reported = 0\<rparr>)"
  have "length (input_edges new_capture) \<le> 256" by (simp add: new_capture_def)
  then have "filter rec_button (input_edges (fst ?s)) = newest 256 (filter rec_button (input_edges new_capture @ log_offered (snd ?s)))"
    by (rule button_edges_kept) (rule prod.collapse [symmetric])
  moreover have "map rec_m (filter rec_button (log_offered (snd ?s))) = [1, 0] \<and> length (filter rec_button (log_offered (snd ?s))) = 2"
    by (simp add: capture_defs)
  ultimately show ?thesis by (simp add: newest_def new_capture_def)
qed

theorem capture_accounts_witness:
  "case capture_run [Sample (key_frame 1 10), Drain, Sample (key_frame 0 30)] of (c, l) \<Rightarrow>
     map rec_m (log_taken l) = [1] \<and> map rec_m (input_edges c) = [0] \<and> rec_m (last (input_edges c)) = input_prev_mask c \<and>
     length (log_offered l) = length (log_taken l) + length (input_edges c) + log_reported l + unat (input_drops c)"
proof -
  let ?steps = "[Sample (key_frame 1 10), Drain, Sample (key_frame 0 30)]"
  obtain c l where r: "capture_run ?steps = (c, l)" by (cases "capture_run ?steps")
  have "map rec_m (log_taken (snd (capture_run ?steps))) = [1]" "map rec_m (input_edges (fst (capture_run ?steps))) = [0]"
    "length (log_offered (snd (capture_run ?steps))) = 2"
    by (simp_all add: capture_run_def capture_defs drain_input_def INPUT_TRACK_BATCH_MAX_def)
  then show ?thesis using capture_accounts [of ?steps] by (auto simp: r)
qed

section \<open>What a drain and the display do to the track\<close>

text \<open>
  While the camera is undecided and the labels are unsent, a drain empties the queue and the drop count
  and sends nothing: what it popped is lost, and no later line reports it.
\<close>

lemma undecided_camera_loses_batch:
  assumes "\<not> input_labels_sent c" and "\<not> input_cam_resolved c"
  shows "fst (drain_input c) = None \<and> input_edges (snd (drain_input c)) = drop 64 (input_edges c) \<and> input_drops (snd (drain_input c)) = 0"
  using assms by (simp add: drain_input_def Let_def INPUT_TRACK_BATCH_MAX_def min_def)

text \<open>
  A frame that only the display wants keeps the previous state, so a mask that has not moved since the
  core went away makes no edge when the core comes back.
\<close>

lemma display_frame_keeps_previous:
  assumes "\<not> track_wants fr" and "display_wants fr" and "have_actors fr"
  shows "input_have_prev (input_track_sample fr c) = input_have_prev c"
proof -
  obtain ax c1 where r: "read_axes (axis_reads fr) (c\<lparr>input_frame := input_frame c + 1\<rparr>) = (ax, c1)" by (meson surj_pair)
  then show ?thesis using assms read_axes_frame [OF r] by (simp add: input_track_sample_def Let_def)
qed

text \<open>Once the camera has answered it is never refused, however often it then misses.\<close>

lemma resolved_camera_never_refused:
  assumes "input_cam_resolved c" and "\<not> input_cam_refused c"
  shows "input_cam_resolved (snd (cam_axes rd c)) \<and> \<not> input_cam_refused (snd (cam_axes rd c))"
  using assms by (auto simp: cam_axes_def split: option.splits)

end
