(* ===== verification/Input_Panel.thy ===== *)
theory Input_Panel
  imports Ghost_Tiers Bridge_Lines
begin

text \<open>
  The input history: the edges of a replay ghost's track applied as the render clock reaches them
  (\<^verbatim>\<open>Plugin::game_thread_tick\<close>), the panel's rows and text (\<^verbatim>\<open>input_display_observe\<close>), its settings
  (\<^verbatim>\<open>poll_recording_indicator_config\<close>) and which ghost the second panel follows. The widgets
  themselves are the engine's.
\<close>

section \<open>Applying the edges that are due\<close>

definition edge_due :: "dbl \<Rightarrow> input_edge \<Rightarrow> bool" where
  "edge_due ts e \<longleftrightarrow> dbl_le (edge_at e) ts"

definition set_axes :: "dbl list \<Rightarrow> dbl list \<Rightarrow> dbl list" where
  "set_axes new ax = fold (\<lambda>i ax. ax[i := new ! i]) [0..<min (length new) 8] ax"

definition apply_edge :: "u64 \<Rightarrow> input_edge \<Rightarrow> input_track \<Rightarrow> input_track" where
  "apply_edge tick e tr =
     tr\<lparr>track_mask := edge_m e, track_ax := set_axes (edge_ax e) (track_ax tr),
       track_ax_n := max (track_ax_n tr) (length (edge_ax e)), have_state := True, applied_at_tick := tick\<rparr>"

fun apply_loop :: "u64 \<Rightarrow> dbl \<Rightarrow> input_edge list \<Rightarrow> input_track \<Rightarrow> input_track" where
  "apply_loop tick ts [] tr = tr\<lparr>track_edges := []\<rparr>"
| "apply_loop tick ts (e # es) tr =
     (if edge_due ts e then apply_loop tick ts es (apply_edge tick e tr) else tr\<lparr>track_edges := e # es\<rparr>)"

definition apply_edges :: "u64 \<Rightarrow> dbl \<Rightarrow> input_track \<Rightarrow> input_track" where
  "apply_edges tick ts tr = apply_loop tick ts (track_edges tr) tr"

section \<open>Settings\<close>

record display_config =
  disp_player :: bool
  disp_background :: bool
  disp_rows :: int
  disp_size :: dbl
  disp_player_left :: bool
  disp_unit :: string
  disp_count_left :: bool
  disp_fps_note :: bool
  disp_ghost :: bool
  disp_ghost_left :: bool

definition default_display :: display_config where
  "default_display = \<lparr>disp_player = False, disp_background = True, disp_rows = 10, disp_size = Fin 22, disp_player_left = True,
     disp_unit = ''cs'', disp_count_left = True, disp_fps_note = False, disp_ghost = False, disp_ghost_left = False\<rparr>"

definition known_unit :: "string \<Rightarrow> bool" where
  "known_unit u \<longleftrightarrow> u = ''cs'' \<or> u = ''ms'' \<or> u = ''frames''"

definition flush_unit :: "string \<Rightarrow> string \<Rightarrow> string" where
  "flush_unit token cleaned =
     (if known_unit token \<and> str_find cleaned token 0 = None
      then (if cleaned = [] then [] else cleaned @ '','') @ token else cleaned)"

fun clean_units :: "string \<Rightarrow> string \<Rightarrow> string \<Rightarrow> string" where
  "clean_units [] token cleaned = flush_unit token cleaned"
| "clean_units (c # cs) token cleaned =
     (if c = CHR '','' \<or> c = CHR '' '' \<or> c = CHR ''+'' \<or> c = CHR ''/'' then clean_units cs [] (flush_unit token cleaned)
      else clean_units cs (token @ [c_tolower c]) cleaned)"

definition display_unit :: "string \<Rightarrow> string" where
  "display_unit unit = (let cleaned = clean_units unit [] [] in if cleaned = [] then ''cs'' else cleaned)"

definition dbl_clamp :: "dbl \<Rightarrow> dbl \<Rightarrow> dbl \<Rightarrow> dbl" where
  "dbl_clamp x lo hi = (if dbl_less x lo then lo else if dbl_less hi x then hi else x)"

text \<open>Each key is read from the text seen when it is read; the second result is whether the panels are rebuilt.\<close>

definition read_display_config :: "(string \<Rightarrow> string option) \<Rightarrow> display_config \<Rightarrow> display_config" where
  "read_display_config texts d =
     \<lparr>disp_player = config_bool_value (texts ''player'') ''player'' False,
      disp_background = config_bool_value (texts ''background'') ''background'' True,
      disp_rows = (case config_number_value (texts ''rows'') ''rows'' of
                     None \<Rightarrow> disp_rows d | Some x \<Rightarrow> dbl_trunc (dbl_clamp x (Fin 1) (Fin 40))),
      disp_size = (case config_number_value (texts ''size'') ''size'' of
                     None \<Rightarrow> disp_size d | Some x \<Rightarrow> dbl_clamp x (Fin 6) (Fin 96)),
      disp_player_left = (case config_string_value (texts ''player_side'') ''player_side'' of
                     None \<Rightarrow> disp_player_left d | Some side \<Rightarrow> side \<noteq> ''right''),
      disp_unit = (case config_string_value (texts ''unit'') ''unit'' of None \<Rightarrow> disp_unit d | Some u \<Rightarrow> display_unit u),
      disp_count_left = (case config_string_value (texts ''count_side'') ''count_side'' of
                     None \<Rightarrow> disp_count_left d | Some side \<Rightarrow> side \<noteq> ''right''),
      disp_fps_note = config_bool_value (texts ''fps_note'') ''fps_note'' False,
      disp_ghost = config_bool_value (texts ''ghost'') ''ghost'' False,
      disp_ghost_left = (case config_string_value (texts ''ghost_side'') ''ghost_side'' of
                     None \<Rightarrow> disp_ghost_left d | Some side \<Rightarrow> side \<noteq> ''right'')\<rparr>"

definition display_changed :: "display_config \<Rightarrow> display_config \<Rightarrow> bool" where
  "display_changed d' d \<longleftrightarrow>
     disp_player d' \<noteq> disp_player d \<or> disp_background d' \<noteq> disp_background d \<or> disp_rows d' \<noteq> disp_rows d \<or>
     dbl_ne (disp_size d') (disp_size d) \<or> disp_player_left d' \<noteq> disp_player_left d \<or> disp_unit d' \<noteq> disp_unit d \<or>
     disp_count_left d' \<noteq> disp_count_left d \<or> disp_fps_note d' \<noteq> disp_fps_note d \<or>
     disp_ghost d' \<noteq> disp_ghost d \<or> disp_ghost_left d' \<noteq> disp_ghost_left d"

definition poll_display_config :: "(string \<Rightarrow> string option) \<Rightarrow> display_config \<Rightarrow> display_config \<times> bool" where
  "poll_display_config texts d =
     (let d' = read_display_config texts d in if display_changed d' d then (d', True) else (d, False))"

section \<open>Rows\<close>

definition dir_bits :: "dbl \<Rightarrow> dbl \<Rightarrow> nat" where
  "dir_bits move_x move_y =
     (let t = rnd_double (35 / 100) in
      (if dbl_less t move_y then 1 else 0) + (if dbl_less move_y (dbl_neg t) then 2 else 0) +
      (if dbl_less move_x (dbl_neg t) then 4 else 0) + (if dbl_less t move_x then 8 else 0))"

definition observe_rows :: "int \<Rightarrow> u32 \<Rightarrow> nat \<Rightarrow> int \<Rightarrow> history_row list \<Rightarrow> history_row list" where
  "observe_rows rows_max m dir now rows =
     (case rows of
        r # rs \<Rightarrow>
          if row_mask r = m \<and> row_dir r = dir then r\<lparr>row_frames := row_frames r + 1, row_last_ms := now\<rparr> # rs
          else take (nat (max rows_max 1))
                 (\<lparr>row_mask = m, row_dir = dir, row_frames = 1, row_start_ms = now, row_last_ms = now\<rparr> # rows)
      | [] \<Rightarrow> take (nat (max rows_max 1))
                 [\<lparr>row_mask = m, row_dir = dir, row_frames = 1, row_start_ms = now, row_last_ms = now\<rparr>])"

section \<open>The frame rate\<close>

record fps_meter =
  fps_frames :: u64
  fps_since_ms :: int
  fps :: "32 word"

definition unit_frames :: "string \<Rightarrow> bool" where
  "unit_frames unit \<longleftrightarrow> str_find unit ''frames'' 0 \<noteq> None"

text \<open>The second result: the header's number may have changed, so both panels redraw.\<close>

definition count_frame :: "string \<Rightarrow> int \<Rightarrow> fps_meter \<Rightarrow> fps_meter \<times> bool" where
  "count_frame unit now f =
     (let f = f\<lparr>fps_frames := fps_frames f + 1\<rparr> in
      if fps_since_ms f = 0 then (f\<lparr>fps_since_ms := now\<rparr>, False)
      else if now - fps_since_ms f \<ge> 1000
      then (f\<lparr>fps := ucast ((fps_frames f * 1000) div word_of_int (now - fps_since_ms f)), fps_frames := 0, fps_since_ms := now\<rparr>,
            unit_frames unit)
      else (f, False))"


section \<open>Text\<close>

function digits10 :: "nat \<Rightarrow> nat list" where
  "digits10 n = (if n < 10 then [48 + n] else digits10 (n div 10) @ [48 + n mod 10])"
  by pat_completeness auto
termination by (relation "measure id") auto

declare digits10.simps [simp del]

definition print_int :: "int \<Rightarrow> nat list" where
  "print_int i = (if i < 0 then 45 # digits10 (nat (- i)) else digits10 (nat i))"

definition pad_left :: "nat \<Rightarrow> nat list \<Rightarrow> nat list" where
  "pad_left w ds = replicate (w - length ds) 32 @ ds"

definition wide :: "string \<Rightarrow> nat list" where
  "wide s = map of_char s"

definition INPUT_HISTORY_TOKENS :: string where "INPUT_HISTORY_TOKENS = ''JACWTGILPMV''"

definition ARROWS :: "nat list" where
  "ARROWS = [0, 0x2191, 0x2193, 0, 0x2190, 0x2196, 0x2199, 0, 0x2192, 0x2197, 0x2198, 0, 0, 0, 0, 0]"

function split_commas :: "string \<Rightarrow> string list" where
  "split_commas s =
     (case str_find s '','' 0 of None \<Rightarrow> [s]
      | Some i \<Rightarrow> take i s # (if length s \<le> i then [] else split_commas (drop (i + 1) s)))"
  by pat_completeness auto
termination by (relation "measure length") auto

declare split_commas.simps [simp del]

text \<open>
  A row's count in one unit: frames, or the time from its first frame to its last, converted to
  unsigned as the code does.
\<close>

definition unit_count :: "string \<Rightarrow> history_row \<Rightarrow> nat" where
  "unit_count unit r =
     (let span = row_last_ms r - row_start_ms r;
          n = (if unit = ''cs'' then unat (word_of_int (if span < 0 then - (- span div 10) else span div 10) :: u64)
               else if unit = ''ms'' then unat (word_of_int span :: u64) else unat (row_frames r))
      in min n (if unit = ''ms'' then 9999 else 999))"

definition row_head :: "string \<Rightarrow> history_row \<Rightarrow> nat list" where
  "row_head units r =
     fold (\<lambda>unit head. if unit = [] then head
             else (if head = [] then [] else head @ [32]) @ pad_left (if unit = ''ms'' then 5 else 4) (digits10 (unit_count unit r)))
       (split_commas units) []"

definition row_inputs :: "history_row \<Rightarrow> nat list" where
  "row_inputs r =
     (if row_dir r = 0 \<and> row_mask r = 0 then [0xB7] else []) @
     (if row_dir r < 16 \<and> ARROWS ! row_dir r \<noteq> 0 then [ARROWS ! row_dir r, 32] else []) @
     concat (map (\<lambda>b. if bit (row_mask r) b then [of_char (INPUT_HISTORY_TOKENS ! b), 32] else []) [0..<11])"

definition row_text :: "display_config \<Rightarrow> history_row \<Rightarrow> nat list" where
  "row_text d r =
     (if disp_count_left d then row_head (disp_unit d) r @ [32, 32] @ row_inputs r
      else row_inputs r @ [32, 32] @ row_head (disp_unit d) r) @ [10]"

definition display_text :: "display_config \<Rightarrow> fps_meter \<Rightarrow> history_row list \<Rightarrow> nat list" where
  "display_text d f rows =
     butlast ((if unit_frames (disp_unit d) \<and> disp_fps_note d then wide ''@ '' @ print_int (sint (fps f)) @ wide '' fps'' @ [10] else []) @
              concat (map (row_text d) rows))"

section \<open>A frame on a panel\<close>

text \<open>The text goes to the widget when it exists, on a new row or every fourth frame, and only when it changed.\<close>

definition redraws :: "history_row list \<Rightarrow> bool" where
  "redraws rows \<longleftrightarrow> \<not> (row_frames (hd rows) > 1 \<and> row_frames (hd rows) mod 4 \<noteq> 0)"

definition observe_panel ::
  "display_config \<Rightarrow> fps_meter \<Rightarrow> bool \<Rightarrow> u32 \<Rightarrow> dbl \<Rightarrow> dbl \<Rightarrow> int \<Rightarrow> input_panel \<Rightarrow> nat list option \<times> input_panel" where
  "observe_panel d f has_text m x y now p =
     (let rows = observe_rows (disp_rows d) m (dir_bits x y) now (panel_rows p);
          p = p\<lparr>panel_rows := rows\<rparr>;
          out = display_text d f rows
      in if has_text \<and> redraws rows \<and> out \<noteq> panel_text p then (Some out, p\<lparr>panel_text := out\<rparr>) else (None, p))"

text \<open>The player's panel also counts the frame; a changed rate clears both panels' texts first.\<close>

definition observe_player ::
  "display_config \<Rightarrow> bool \<Rightarrow> u32 \<Rightarrow> dbl \<Rightarrow> dbl \<Rightarrow> int \<Rightarrow> fps_meter \<times> input_panel \<times> input_panel \<Rightarrow>
     nat list option \<times> (fps_meter \<times> input_panel \<times> input_panel)" where
  "observe_player d has_text m x y now st =
     (case st of (f, player, ghosts) \<Rightarrow>
        let (f, stale) = count_frame (disp_unit d) now f;
            player = (if stale then player\<lparr>panel_text := []\<rparr> else player);
            ghosts = (if stale then ghosts\<lparr>panel_text := []\<rparr> else ghosts);
            (out, player) = observe_panel d f has_text m x y now player
        in (out, f, player, ghosts))"

section \<open>The ghost panel\<close>

text \<open>One replay ghost's inputs in a tick: its due edges, and the panel if it is the one followed.\<close>

definition tick_ghost_inputs ::
  "display_config \<Rightarrow> fps_meter \<Rightarrow> bool \<Rightarrow> int \<Rightarrow> string \<Rightarrow> game \<Rightarrow> nat list option \<times> game" where
  "tick_ghost_inputs d f has_text now player_id s =
     (case (remotes s player_id, ghost_inputs s player_id) of
        (Some r, Some tr) \<Rightarrow>
          let tr = apply_edges (tick_count s) (target_ts (pose r)) tr;
              s = s\<lparr>ghost_inputs := (ghost_inputs s)(player_id \<mapsto> tr)\<rparr>;
              s = (if disp_ghost_id s = [] then s\<lparr>disp_ghost_id := player_id\<rparr> else s)
          in if disp_ghost_id s = player_id \<and> have_state tr \<and> disp_ghost d
             then (case observe_panel d f has_text (track_mask tr) (track_ax tr ! 0) (track_ax tr ! 1) now (disp_ghost_panel s) of
                     (out, p) \<Rightarrow> (out, s\<lparr>disp_ghost_panel := p\<rparr>))
             else (None, s)
      | _ \<Rightarrow> (None, s))"

text \<open>Which ghost the panel follows outlives its track by 180 ticks.\<close>

definition follow_ghost_panel :: "game \<Rightarrow> bool \<times> game" where
  "follow_ghost_panel s =
     (if disp_ghost_id s = [] then (False, s)
      else if ghost_inputs s (disp_ghost_id s) \<noteq> None then (True, s\<lparr>disp_ghost_grace := 180\<rparr>)
      else if 0 < disp_ghost_grace s then (True, s\<lparr>disp_ghost_grace := disp_ghost_grace s - 1\<rparr>)
      else (False, s\<lparr>disp_ghost_id := []\<rparr>))"


section \<open>The due edges, by reference\<close>

lemma length_fold_update: "length (fold (\<lambda>i ax. ax[i := f i]) js ax) = length ax"
  by (induction js arbitrary: ax) auto

lemma length_set_axes [simp]: "length (set_axes new ax) = length ax"
  by (simp add: set_axes_def length_fold_update)

lemma nth_set_axes: "i < length ax \<Longrightarrow> set_axes new ax ! i = (if i < min (length new) 8 then new ! i else ax ! i)"
proof -
  assume i: "i < length ax"
  have "fold (\<lambda>i ax. ax[i := new ! i]) [0..<n] ax ! i = (if i < n then new ! i else ax ! i)" for n
    using i by (induction n) (auto simp: nth_list_update length_fold_update less_Suc_eq)
  then show ?thesis by (simp add: set_axes_def)
qed

lemma apply_edge_frame [simp]: "track_edges (apply_edge tick e tr) = track_edges tr"
  by (simp add: apply_edge_def)

lemma apply_loop_eq:
  "apply_loop tick ts es tr =
     (fold (apply_edge tick) (takeWhile (edge_due ts) es) tr)\<lparr>track_edges := dropWhile (edge_due ts) es\<rparr>"
  by (induction es arbitrary: tr) auto

lemma fold_apply_edge:
  "track_edges (fold (apply_edge tick) es tr) = track_edges tr"
  "track_mask (fold (apply_edge tick) es tr) = (if es = [] then track_mask tr else edge_m (last es))"
  "have_state (fold (apply_edge tick) es tr) \<longleftrightarrow> have_state tr \<or> es \<noteq> []"
  "track_ax_n (fold (apply_edge tick) es tr) = fold max (map (\<lambda>e. length (edge_ax e)) es) (track_ax_n tr)"
  "length (track_ax (fold (apply_edge tick) es tr)) = length (track_ax tr)"
  by (induction es arbitrary: tr) (simp_all add: apply_edge_def max.commute)

lemma fold_apply_axes:
  assumes "i < 8" and "length (track_ax tr) = 8"
  shows "track_ax (fold (apply_edge tick) es tr) ! i =
    (case find (\<lambda>e. i < length (edge_ax e)) (rev es) of None \<Rightarrow> track_ax tr ! i | Some e \<Rightarrow> edge_ax e ! i)"
proof (induction es rule: rev_induct)
  case (snoc e es)
  have "length (track_ax (fold (apply_edge tick) es tr)) = 8" using assms(2) by (simp add: fold_apply_edge)
  moreover have "track_ax (apply_edge tick e t) = set_axes (edge_ax e) (track_ax t)" for t by (simp add: apply_edge_def)
  ultimately show ?case using snoc assms(1) by (simp add: nth_set_axes)
qed simp

lemma apply_edge_update_edges:
  "fold (apply_edge tick) es (tr\<lparr>track_edges := xs\<rparr>) = (fold (apply_edge tick) es tr)\<lparr>track_edges := xs\<rparr>"
proof (induction es arbitrary: tr)
  case (Cons e es)
  have "apply_edge tick e (tr\<lparr>track_edges := xs\<rparr>) = (apply_edge tick e tr)\<lparr>track_edges := xs\<rparr>" by (simp add: apply_edge_def)
  then show ?case using Cons.IH by simp
qed simp

lemma takeWhile_split: "(\<And>x. P x \<Longrightarrow> Q x) \<Longrightarrow> takeWhile Q xs = takeWhile P xs @ takeWhile Q (dropWhile P xs)"
  by (induction xs) auto

lemma dropWhile_split: "(\<And>x. P x \<Longrightarrow> Q x) \<Longrightarrow> dropWhile Q (dropWhile P xs) = dropWhile Q xs"
  by (induction xs) auto

lemma apply_edges_twice:
  assumes "\<And>e. edge_due ts e \<Longrightarrow> edge_due ts' e"
  shows "apply_edges tick ts' (apply_edges tick ts tr) = apply_edges tick ts' tr"
  using takeWhile_split [of "edge_due ts" "edge_due ts'" "track_edges tr"] dropWhile_split [of "edge_due ts" "edge_due ts'" "track_edges tr"] assms
  by (simp add: apply_edges_def apply_loop_eq apply_edge_update_edges)

lemma edge_due_mono: "dbl_le ts ts' \<Longrightarrow> edge_due ts e \<Longrightarrow> edge_due ts' e"
  unfolding edge_due_def by (cases "edge_at e"; cases ts; cases ts') auto

text \<open>
  Property C17. When the render clock reaches \<open>ts\<close>, exactly the leading edges due by then leave the queue;
  the mask becomes the last one's, each axis the value of the last one that carried that axis, the axis count the
  largest seen; and however many times the clock is looked at on the way, the result is the same as looking once.
\<close>

theorem apply_edges_reference:
  assumes "length (track_ax tr) = 8" and "dbl_le ts ts'"
  shows "let due = takeWhile (edge_due ts') (track_edges tr); tr' = apply_edges tick ts' tr in
    track_edges tr' = dropWhile (edge_due ts') (track_edges tr) \<and>
    track_mask tr' = (if due = [] then track_mask tr else edge_m (last due)) \<and>
    (have_state tr' \<longleftrightarrow> have_state tr \<or> due \<noteq> []) \<and>
    (\<forall>i<8. track_ax tr' ! i =
       (case find (\<lambda>e. i < length (edge_ax e)) (rev due) of None \<Rightarrow> track_ax tr ! i | Some e \<Rightarrow> edge_ax e ! i)) \<and>
    track_ax_n tr' = fold max (map (\<lambda>e. length (edge_ax e)) due) (track_ax_n tr) \<and>
    apply_edges tick ts' (apply_edges tick ts tr) = tr'"
  using apply_edges_twice [OF edge_due_mono [OF assms(2)]] fold_apply_axes [OF _ assms(1)]
  by (simp add: apply_edges_def apply_loop_eq fold_apply_edge Let_def)

definition edge_at_ms :: "rat \<Rightarrow> u32 \<Rightarrow> dbl list \<Rightarrow> input_edge" where
  "edge_at_ms t m ax = \<lparr>edge_f = 0, edge_t = 0, edge_m = m, edge_ax = ax, edge_at = Fin t\<rparr>"

lemma apply_edges_reference_witness:
  "let tr = apply_edges 5 (Fin 20) (new_track\<lparr>track_edges := [edge_at_ms 10 1 [Fin 7], edge_at_ms 20 3 [], edge_at_ms 30 0 []]\<rparr>) in
     track_mask tr = 3 \<and> track_ax tr ! 0 = Fin 7 \<and> track_edges tr = [edge_at_ms 30 0 []]"
  using apply_edges_reference [of "new_track\<lparr>track_edges := [edge_at_ms 10 1 [Fin 7], edge_at_ms 20 3 [], edge_at_ms 30 0 []]\<rparr>"
      "Fin 15" "Fin 20" 5]
  by (simp add: Let_def new_track_def edge_at_ms_def edge_due_def)

section \<open>The rows, by reference\<close>

record look =
  look_mask :: u32
  look_dir :: nat
  look_ms :: int

text \<open>The run-length coding of a sequence of looks, from its last to its first, oldest row first.\<close>

fun run_rows :: "look list \<Rightarrow> history_row list" where
  "run_rows [] = []"
| "run_rows (o1 # os) =
     (let row = \<lparr>row_mask = look_mask o1, row_dir = look_dir o1, row_frames = 1, row_start_ms = look_ms o1, row_last_ms = look_ms o1\<rparr>
      in case run_rows os of
           [] \<Rightarrow> [row]
         | r # rs \<Rightarrow>
             if row_mask r = look_mask o1 \<and> row_dir r = look_dir o1
             then r\<lparr>row_frames := row_frames r + 1, row_start_ms := look_ms o1\<rparr> # rs else row # r # rs)"

definition observe_all :: "int \<Rightarrow> look list \<Rightarrow> history_row list \<Rightarrow> history_row list" where
  "observe_all rows_max os rows = fold (\<lambda>o1. observe_rows rows_max (look_mask o1) (look_dir o1) (look_ms o1)) os rows"

definition snoc_look :: "look \<Rightarrow> history_row list \<Rightarrow> history_row list" where
  "snoc_look o1 rs =
     (if rs \<noteq> [] \<and> row_mask (last rs) = look_mask o1 \<and> row_dir (last rs) = look_dir o1
      then butlast rs @ [(last rs)\<lparr>row_frames := row_frames (last rs) + 1, row_last_ms := look_ms o1\<rparr>]
      else rs @ [\<lparr>row_mask = look_mask o1, row_dir = look_dir o1, row_frames = 1, row_start_ms = look_ms o1, row_last_ms = look_ms o1\<rparr>])"

lemma run_rows_empty: "run_rows os = [] \<longleftrightarrow> os = []"
  by (cases os) (auto simp: Let_def split: list.splits if_splits)

lemma run_rows_snoc: "run_rows (os @ [o1]) = snoc_look o1 (run_rows os)"
proof (induction os)
  case Nil
  then show ?case by (simp add: snoc_look_def)
next
  case (Cons a os)
  show ?case
  proof (cases "run_rows os")
    case Nil
    then have "os = []" by (simp add: run_rows_empty)
    then show ?thesis by (auto simp: snoc_look_def Let_def)
  next
    case (Cons r rs)
    then show ?thesis using Cons.IH by (cases rs) (auto simp: snoc_look_def Let_def split: list.splits)
  qed
qed

lemma take_Cons_take: "take n (y # take n xs) = take n (y # xs)"
  by (cases n) (auto simp: min_def)

lemma observe_snoc: "observe_rows cap (look_mask o1) (look_dir o1) (look_ms o1) (take (nat (max cap 1)) (rev rs)) =
  take (nat (max cap 1)) (rev (snoc_look o1 rs))"
proof (cases rs rule: rev_cases)
  case Nil
  then show ?thesis by (simp add: observe_rows_def snoc_look_def)
next
  case (snoc ys y)
  have "nat (max cap 1) \<noteq> 0" by simp
  then obtain n where n: "nat (max cap 1) = Suc n" using not0_implies_Suc by blast
  show ?thesis by (auto simp: snoc observe_rows_def snoc_look_def n take_Cons_take)
qed

text \<open>
  Property C19. From an empty panel, whatever is looked at, the rows kept are the run-length
  coding of what was seen, newest first and cut to the configured number: every row's mask and direction, how many
  frames it was held, and the times of the first and last of them.
\<close>

theorem observe_run_length: "observe_all rows_max os [] = take (nat (max rows_max 1)) (rev (run_rows os))"
proof (induction os rule: rev_induct)
  case (snoc o1 os)
  then show ?case using observe_snoc [of rows_max o1 "run_rows os"] by (simp add: observe_all_def run_rows_snoc)
qed (simp add: observe_all_def)


section \<open>The text's columns\<close>

lemma length_digits10: "n < 10 ^ Suc w \<Longrightarrow> length (digits10 n) \<le> Suc w"
proof (induction w arbitrary: n)
  case 0
  then show ?case by (simp add: digits10.simps [of n])
next
  case (Suc w)
  have "n div 10 < 10 ^ Suc w" using Suc.prems by (simp add: less_mult_imp_div_less mult.commute)
  then show ?case using Suc.IH [of "n div 10"] by (simp add: digits10.simps [of n])
qed

lemma unit_count_le: "unit_count unit r \<le> (if unit = ''ms'' then 9999 else 999)"
  by (simp add: unit_count_def Let_def)

lemma count_width: "length (pad_left (if unit = ''ms'' then 5 else 4) (digits10 (unit_count unit r))) = (if unit = ''ms'' then 5 else 4)"
  using unit_count_le [of unit r] length_digits10 [of "unit_count unit r" 3] length_digits10 [of "unit_count unit r" 2]
  by (auto simp: pad_left_def)

text \<open>The width of the counts in front of, or after, a row's inputs, from the units alone.\<close>

definition head_width :: "string \<Rightarrow> nat" where
  "head_width units =
     fold (\<lambda>unit w. if unit = [] then w else (if w = 0 then 0 else w + 1) + (if unit = ''ms'' then 5 else 4)) (split_commas units) 0"

text \<open>
  Whatever was held and for however long, the counts of a row take the same number
  of characters as those of every other row, the number its units alone decide: a count never outgrows its column,
  nor the buffer it is printed into.
\<close>

theorem panel_columns_align:
  "length (row_head units r) = head_width units \<and>
   length (pad_left (if unit = ''ms'' then 5 else 4) (digits10 (unit_count unit r))) < 16"
proof -
  have "length (fold (\<lambda>unit head. if unit = [] then head
             else (if head = [] then [] else head @ [32]) @ pad_left (if unit = ''ms'' then 5 else 4) (digits10 (unit_count unit r))) us h) =
        fold (\<lambda>unit w. if unit = [] then w else (if w = 0 then 0 else w + 1) + (if unit = ''ms'' then 5 else 4)) us (length h)" for us h
  proof (induction us arbitrary: h)
    case (Cons u us)
    show ?case
    proof (cases "u = []")
      case False
      let ?h = "(if h = [] then [] else h @ [32]) @ pad_left (if u = ''ms'' then 5 else 4) (digits10 (unit_count u r))"
      have "length ?h = (if length h = 0 then 0 else length h + 1) + (if u = ''ms'' then 5 else 4)"
        unfolding length_append count_width by simp
      then show ?thesis using Cons.IH [of ?h] False by (simp del: length_append)
    qed (use Cons.IH in simp)
  qed simp
  from this [of "split_commas units" "[]"] show ?thesis by (simp add: row_head_def head_width_def count_width)
qed

section \<open>Following a ghost\<close>

text \<open>The panel stays for as many ticks as there is grace left, and then lets go.\<close>

lemma panel_outlives_track:
  assumes "disp_ghost_id s \<noteq> []" and "ghost_inputs s (disp_ghost_id s) = None"
  shows "fst (follow_ghost_panel (((snd \<circ> follow_ghost_panel) ^^ n) s)) \<longleftrightarrow> n < disp_ghost_grace s"
proof -
  have step: "((snd \<circ> follow_ghost_panel) ^^ n) s = s\<lparr>disp_ghost_grace := disp_ghost_grace s - n\<rparr>" if "n \<le> disp_ghost_grace s" for n
    using that assms by (induction n) (auto simp: follow_ghost_panel_def)
  have lost: "disp_ghost_id (((snd \<circ> follow_ghost_panel) ^^ (Suc (disp_ghost_grace s) + k)) s) = []" for k
    using assms step [of "disp_ghost_grace s"] by (induction k) (auto simp: follow_ghost_panel_def)
  show ?thesis
  proof (cases "n \<le> disp_ghost_grace s")
    case True
    then show ?thesis using assms step [of n] by (auto simp: follow_ghost_panel_def)
  next
    case False
    then obtain k where "n = Suc (disp_ghost_grace s) + k" by (metis less_imp_Suc_add not_le add_Suc)
    then show ?thesis using lost [of k] False by (simp add: follow_ghost_panel_def)
  qed
qed

section \<open>Settings that never settle\<close>

text \<open>
  A size that reads as not a number, which the number reader takes after a minus sign, is a change at
  every poll, so both panels are rebuilt for as long as the text stays.
\<close>

lemma nan_size_never_settles:
  assumes "texts ''size'' = Some text" and "config_number_value (Some text) ''size'' = Some NaN"
  shows "snd (poll_display_config texts d) \<and> snd (poll_display_config texts (fst (poll_display_config texts d)))"
proof -
  have "dbl_ne NaN x" for x by (cases x) (simp_all add: dbl_ne_def)
  moreover have "disp_size (read_display_config texts d) = NaN" for d
    using assms by (simp add: read_display_config_def dbl_clamp_def)
  ultimately have "display_changed (read_display_config texts d) d'" for d d' by (simp add: display_changed_def)
  then show ?thesis by (simp add: poll_display_config_def Let_def)
qed

end
