(* ===== verification/Session.thy ===== *)
theory Session
  imports Line_Props Ghost_Props Bridge_Machine Launcher Input_Capture Input_Panel
begin

text \<open>
  The two threads of the plugin put together: \<^verbatim>\<open>Plugin::on_update\<close> (the bridge, the launcher and the
  queue of lines), the parts of \<^verbatim>\<open>Plugin::game_thread_tick\<close> that talk to the core or drain that queue, and
  the level callbacks. The steps are atomic here: each holds \<^verbatim>\<open>state_mutex\<close> around what it shares.
\<close>

section \<open>State\<close>

record vitals =
  hurts :: int
  deaths :: int
  last_seen_hp :: dbl
  was_dead :: bool
  reset_deaths :: int

record session =
  net :: bridge
  cores :: launcher
  track :: capture
  world :: game
  pending :: "string list"
  collapse_at :: nat
  cleanup_pending :: bool
  was_connected :: bool
  local_state :: string
  frozen_sent :: bool
  health :: vitals
  quiet_until_tick :: u64

definition PENDING_LINES_COLLAPSE_AT :: nat where "PENDING_LINES_COLLAPSE_AT = 2048"
definition RESET_SPAWN_SUPPRESS_TICKS :: u64 where "RESET_SPAWN_SUPPRESS_TICKS = 0"
definition POST_WORLD_SPAWN_SUPPRESS_TICKS :: u64 where "POST_WORLD_SPAWN_SUPPRESS_TICKS = 0"

definition new_vitals :: vitals where
  "new_vitals = \<lparr>hurts = 0, deaths = 0, last_seen_hp = Fin (- 1), was_dead = False, reset_deaths = 0\<rparr>"

text \<open>\<^verbatim>\<open>on_unreal_init\<close>: the port and the launcher come from the configuration.\<close>

definition new_session :: "u16 \<Rightarrow> launcher \<Rightarrow> class_templates \<Rightarrow> session" where
  "new_session port l t =
     \<lparr>net = new_bridge port, cores = l, track = new_capture, world = new_game t, pending = [],
      collapse_at = PENDING_LINES_COLLAPSE_AT, cleanup_pending = False, was_connected = False, local_state = [],
      frozen_sent = False, health = new_vitals, quiet_until_tick = 0\<rparr>"

section \<open>The lines sent\<close>

definition GAME_ID :: string where "GAME_ID = ''pseudoregalia''"
definition ADAPTER_VERSION :: string where "ADAPTER_VERSION = ''phase7.7''"

definition field :: "string \<Rightarrow> string \<Rightarrow> string" where
  "field key v = jstr key @ '':'' @ v"

definition MIN_RELAY_PROTOCOL_FIELD :: string where
  "MIN_RELAY_PROTOCOL_FIELD = field ''min_protocol_version'' ''2''"

definition message :: "string \<Rightarrow> string \<Rightarrow> string" where
  "message type payload = ''{'' @ field ''type'' (jstr type) @ '','' @ field ''payload'' payload @ ''}''"

definition hello_line :: string where
  "hello_line = message ''hello''
     (''{'' @ field ''game_id'' (jstr GAME_ID) @ '','' @ field ''game_version'' (jstr ADAPTER_VERSION) @ '','' @
      MIN_RELAY_PROTOCOL_FIELD @ '','' @ field ''interpolate_orientation'' ''true'' @ '','' @ field ''input_tracks'' ''true'' @ ''}'')"

definition freeze_line :: "bool \<Rightarrow> string" where
  "freeze_line frozen = message ''player_frozen'' (''{'' @ field ''frozen'' (if frozen then ''true'' else ''false'') @ ''}'')"

definition chaser_reset_line :: string where
  "chaser_reset_line = message ''chaser_reset'' ''{}''"

fun join :: "string \<Rightarrow> string list \<Rightarrow> string" where
  "join sep [] = []"
| "join sep [x] = x"
| "join sep (x # xs) = x @ sep @ join sep xs"

definition show_int :: "int \<Rightarrow> string" where
  "show_int i = map char_of (print_int i)"

definition INPUT_LABELS :: "string list" where
  "INPUT_LABELS = [''jump'', ''attack'', ''crouch'', ''wallride'', ''throw'', ''guard'', ''interact'', ''lockon'', ''power'',
     ''quickmap'', ''perspective'']"

definition INPUT_AXES :: "string list" where
  "INPUT_AXES = [''move_x'', ''move_y'', ''look_x'', ''look_y'', ''cam_yaw'', ''cam_pitch'']"

text \<open>\<open>fmt\<close> is \<^verbatim>\<open>std::format\<close> of a double.\<close>

definition edge_json :: "(dbl \<Rightarrow> string) \<Rightarrow> input_rec \<Rightarrow> string" where
  "edge_json fmt e =
     ''{'' @ field ''f'' (show_int (uint (rec_f e))) @ '','' @ field ''t'' (show_int (rec_t e)) @ '','' @
     field ''m'' (show_int (uint (rec_m e))) @ '','' @
     field ''ax'' (''['' @ join '','' (map (\<lambda>i. fmt (rec_ax e ! i)) [0..<6]) @ '']'') @ ''}''"

definition input_line :: "(dbl \<Rightarrow> string) \<Rightarrow> input_batch \<Rightarrow> string" where
  "input_line fmt b = message ''input_sample''
     (''{'' @
      (if batch_labels b
       then field ''labels'' (''['' @ join '','' (map jstr INPUT_LABELS) @ '']'') @ '','' @
            field ''axes'' (''['' @ join '','' (map jstr INPUT_AXES) @ '']'') @ '','' @
            field ''source'' (jstr (if batch_camrot b then ''imc_keys+bound_axes+camrot'' else ''imc_keys+bound_axes'')) @ '',''
       else []) @
      (if batch_drops b > 0 then field ''drop'' (show_int (uint (batch_drops b))) @ '','' else []) @
      field ''edges'' (''['' @ join '','' (map (edge_json fmt) (batch_edges b)) @ '']'') @ ''}'')"

section \<open>The network thread\<close>

record update_answers =
  ports :: "u16 \<Rightarrow> port_answers"
  check_time :: int
  stamp_time :: int
  sweep_time :: int
  child_alive :: "nat \<Rightarrow> bool"
  core_answers :: launch_answers
  hello_answer :: send_answer
  hello_time :: int
  recv_answers :: "recv_answer list"
  recv_time :: int
  state_answer :: send_answer
  input_answer :: send_answer
  inputs_enabled :: bool
  fmt_double :: "dbl \<Rightarrow> string"

definition update_launcher :: "update_answers \<Rightarrow> session \<Rightarrow> launch_action list \<times> session" where
  "update_launcher u s =
     (let b = set_own_core_port (child_port (child_alive u) (cores s)) (net s) in
      if connected b then ([], s\<lparr>net := b, cores := tick_connected (cores s)\<rparr>)
      else case spawnable_port b of
             None \<Rightarrow> ([], s\<lparr>net := b\<rparr>)
           | Some p \<Rightarrow>
               (case tick_disconnected (core_answers u) p (last_busy_port b) (cores s) of
                  (acts, l) \<Rightarrow> (acts, s\<lparr>net := b, cores := l\<rparr>)))"

definition send_hello :: "update_answers \<Rightarrow> session \<Rightarrow> session" where
  "send_hello u s =
     (if connected (net s) \<and> \<not> hello_sent_this_connection (net s)
      then (case send_line (hello_answer u) hello_line (net s) of
              (True, b) \<Rightarrow> s\<lparr>net := mark_hello_sent (hello_time u) b, frozen_sent := False,
                               track := (track s)\<lparr>input_labels_sent := False\<rparr>\<rparr>
            | (False, b) \<Rightarrow> s\<lparr>net := b\<rparr>)
      else s)"

text \<open>The popped batch is gone whether or not the line went out.\<close>

definition input_track_drain_and_send :: "update_answers \<Rightarrow> session \<Rightarrow> session" where
  "input_track_drain_and_send u s =
     (if \<not> is_ready (net s) \<or> \<not> inputs_enabled u then s
      else case drain_input (track s) of
             (None, c) \<Rightarrow> s\<lparr>track := c\<rparr>
           | (Some batch, c) \<Rightarrow>
               (case send_line (input_answer u) (input_line (fmt_double u) batch) (net s) of
                  (ok, b) \<Rightarrow> s\<lparr>net := b, track := (if ok then c\<lparr>input_labels_sent := True\<rparr> else c)\<rparr>))"

definition send_state :: "update_answers \<Rightarrow> session \<Rightarrow> session" where
  "send_state u s = (if local_state s = [] then s else s\<lparr>net := snd (send_line (state_answer u) (local_state s) (net s))\<rparr>)"

definition push_lines :: "string list \<Rightarrow> string list \<times> nat \<Rightarrow> string list \<times> nat" where
  "push_lines received q =
     (case q of (lines, limit) \<Rightarrow>
        if received = [] then (lines, limit)
        else if length (lines @ received) > limit
        then let c = collapse_latest_render_remote (lines @ received) in (c, max PENDING_LINES_COLLAPSE_AT (length c * 2))
        else (lines @ received, limit))"

text \<open>Both threads advance the tick counter; the network thread does so on every update.\<close>

definition on_update :: "update_answers \<Rightarrow> session \<Rightarrow> launch_action list \<times> session" where
  "on_update u s =
     (let s = s\<lparr>world := (world s)\<lparr>tick_count := tick_count (world s) + 1\<rparr>\<rparr>;
          s = s\<lparr>net := tick_connect (ports u) (check_time u) (stamp_time u) (sweep_time u) (net s)\<rparr>;
          now_connected = is_ready (net s);
          (acts, s) = update_launcher u s;
          s = (if was_connected s \<and> \<not> now_connected then s\<lparr>cleanup_pending := True\<rparr> else s);
          s = s\<lparr>was_connected := now_connected\<rparr>;
          s = send_hello u s;
          (received, b) = (if connected (net s) then poll_lines (recv_answers u) (recv_time u) (net s) else ([], net s));
          s = s\<lparr>net := b\<rparr>
      in if \<not> is_ready (net s) then (acts, s)
         else
           let s = input_track_drain_and_send u (send_state u s);
               (lines, limit) = push_lines received (pending s, collapse_at s)
           in (acts, s\<lparr>pending := lines, collapse_at := limit\<rparr>))"

section \<open>The game thread\<close>

text \<open>The pause edge: sent on a change, latched only when it went out whole.\<close>

definition report_freeze :: "send_answer \<Rightarrow> bool option \<Rightarrow> session \<Rightarrow> session" where
  "report_freeze ans frozen s =
     (case frozen of
        None \<Rightarrow> s
      | Some f \<Rightarrow>
          if f = frozen_sent s then s
          else (case send_edge_line ans (freeze_line f) (net s) of
                  (sent, b) \<Rightarrow> s\<lparr>net := b, frozen_sent := (if sent then f else frozen_sent s)\<rparr>))"

definition count_vitals :: "dbl option \<Rightarrow> dbl option \<Rightarrow> vitals \<Rightarrow> vitals" where
  "count_vitals shared_hp hp v =
     (let v = (case shared_hp of
                 None \<Rightarrow> v
               | Some h \<Rightarrow>
                   v\<lparr>hurts := (if dbl_le (Fin 0) (last_seen_hp v) \<and> dbl_less h (last_seen_hp v) then hurts v + 1 else hurts v),
                     last_seen_hp := h\<rparr>)
      in case hp of
           None \<Rightarrow> v
         | Some h \<Rightarrow>
             let dead = dbl_le h (Fin 0) in
             v\<lparr>deaths := (if dead \<and> \<not> was_dead v then deaths v + 1 else deaths v), was_dead := dead\<rparr>)"

definition report_deaths :: "send_answer \<Rightarrow> session \<Rightarrow> session" where
  "report_deaths ans s =
     (if deaths (health s) > reset_deaths (health s)
      then (case send_edge_line ans chaser_reset_line (net s) of
              (sent, b) \<Rightarrow> s\<lparr>net := b,
                 health := (if sent then (health s)\<lparr>reset_deaths := deaths (health s)\<rparr> else health s)\<rparr>)
      else s)"

text \<open>The queue, collapsed once more and handled in order; then the ghosts of a lost core are parked.\<close>

definition drain_pending :: "(nat \<Rightarrow> spawn_answers \<times> bool \<times> u64) \<Rightarrow> bool \<Rightarrow> session \<Rightarrow> engine_action list \<times> session" where
  "drain_pending ans destroyed s =
     (let lines = collapse_latest_render_remote (pending s) in
      case handle_lines (map (\<lambda>(i, line). case ans i of (a, d, t) \<Rightarrow> (a, d, t, line)) (enumerate 0 lines)) (world s) of
        (acts, w) \<Rightarrow>
          (acts, s\<lparr>pending := [], collapse_at := PENDING_LINES_COLLAPSE_AT, cleanup_pending := False,
                   world := (if cleanup_pending s then release_all_ghosts_parked destroyed w else w)\<rparr>))"

text \<open>
  The head of a game tick: paused, or quiet across a teardown, it only advances the counter. The
  second result says whether the rest of the tick runs.
\<close>

definition tick_head :: "send_answer \<Rightarrow> bool option \<Rightarrow> bool \<Rightarrow> session \<Rightarrow> session \<times> bool" where
  "tick_head ans frozen cursor_shown s =
     (let s = report_freeze ans frozen s;
          later = s\<lparr>world := (world s)\<lparr>tick_count := tick_count (world s) + 1\<rparr>\<rparr>
      in if cursor_shown then (later, False)
         else if tick_count (world s) < quiet_until_tick s then (later, False)
         else (s, True))"

text \<open>One remote's tick: an actor it lets go of is free to be taken again.\<close>

definition tick_remote ::
  "tick_answers \<Rightarrow> ghost_ranges \<Rightarrow> string \<Rightarrow> pawn \<times> bool \<Rightarrow> session \<Rightarrow> pawn_call list \<times> (pawn \<times> bool) \<times> session" where
  "tick_remote a g player_id engine s =
     (case remotes (world s) player_id of
        None \<Rightarrow> ([], engine, s)
      | Some r \<Rightarrow>
          (case tick_ghost a g (chaser_contact_mode (world s)) player_id (tick_count (world s)) (r, engine) of
             (calls, r', engine) \<Rightarrow>
               (calls, engine, s\<lparr>world := (world s)\<lparr>remotes := (remotes (world s))(player_id \<mapsto> r'),
                  hijacked_actors := hijacked_actors (world s) - (set_option (ghost r) - set_option (ghost r'))\<rparr>\<rparr>)))"

section \<open>Level callbacks\<close>

text \<open>\<^verbatim>\<open>LoadMap PRE\<close>: every live ghost is destroyed, then every entry's engine side is dropped.\<close>

definition forget_vitals :: "vitals \<Rightarrow> vitals" where
  "forget_vitals v = v\<lparr>last_seen_hp := Fin (- 1), was_dead := False\<rparr>"

definition load_map_pre :: "bool \<Rightarrow> string list \<Rightarrow> session \<Rightarrow> engine_action list \<times> session" where
  "load_map_pre destroyed ids s =
     (let (acts, w) = fold (\<lambda>player_id (acts, w). case release_ghost destroyed player_id w of (acts', w) \<Rightarrow> (acts @ acts', w))
                        ids ([], world s)
      in (acts, s\<lparr>world := (release_all_ghosts w)\<lparr>suppress_ghost_spawn_until_tick := tick_count w + RESET_SPAWN_SUPPRESS_TICKS\<rparr>,
                  health := forget_vitals (health s),
                  quiet_until_tick := tick_count w + RESET_SPAWN_SUPPRESS_TICKS\<rparr>))"

definition init_game_state_pre :: "session \<Rightarrow> session" where
  "init_game_state_pre s =
     s\<lparr>world := (release_all_ghosts (world s))\<lparr>suppress_ghost_spawn_until_tick := tick_count (world s) + POST_WORLD_SPAWN_SUPPRESS_TICKS\<rparr>,
       health := forget_vitals (health s),
       quiet_until_tick := tick_count (world s) + POST_WORLD_SPAWN_SUPPRESS_TICKS\<rparr>"

end
