(* ===== verification/Session_Props.thy ===== *)
theory Session_Props
  imports Session
begin

text \<open>
  What the two threads keep between them: every reachable session is well formed, and the queue of
  lines is collapsed without a trace and stays within bounds.
\<close>

section \<open>The queue\<close>

lemma latest_only_append: "latest_only (latest_only xs @ ys) = latest_only (xs @ ys)"
proof (induction xs)
  case (Cons x xs)
  have "(\<exists>l'\<in>set (latest_only xs). is_render_remote l' \<and> line_player l' = line_player x) \<longleftrightarrow>
        (\<exists>l'\<in>set xs. is_render_remote l' \<and> line_player l' = line_player x)" (is "?L \<longleftrightarrow> ?R")
  proof
    assume ?R
    then obtain l where l: "l \<in> set xs" "is_render_remote l" "line_player l = line_player x" by auto
    show ?L using latest_only_keeps_player [OF l(1,2)] l(3) by simp
  next
    assume ?L
    then show ?R using set_latest_only [of xs] by blast
  qed
  then have "(\<exists>l'\<in>set (latest_only xs @ ys). is_render_remote l' \<and> line_player l' = line_player x) \<longleftrightarrow>
        (\<exists>l'\<in>set (xs @ ys). is_render_remote l' \<and> line_player l' = line_player x)"
    unfolding set_append bex_Un by (rule arg_cong2 [where f = "(\<or>)"]) (rule refl)
  with Cons show ?case unfolding append_Cons latest_only.simps by (cases ?R) (auto simp: bex_Un)
qed simp

lemma collapse_append:
  "collapse_latest_render_remote (collapse_latest_render_remote xs @ ys) = collapse_latest_render_remote (xs @ ys)"
  by (simp add: collapse_eq_latest_only latest_only_append)

lemma latest_only_players: "line_player ` {l \<in> set (latest_only ls). is_render_remote l} = line_player ` {l \<in> set ls. is_render_remote l}"
  using latest_only_keeps_player [of _ ls] set_latest_only [of ls] by (fastforce simp: image_iff)

lemma length_latest_only:
  "length (latest_only ls) = length (filter (\<lambda>l. \<not> is_render_remote l) ls) + card (line_player ` {l \<in> set ls. is_render_remote l})"
proof -
  have "length (filter is_render_remote (latest_only ls)) = card (set (map line_player (filter is_render_remote (latest_only ls))))"
    using latest_only_distinct [of ls] distinct_card by fastforce
  also have "set (map line_player (filter is_render_remote (latest_only ls))) = line_player ` {l \<in> set ls. is_render_remote l}"
    using latest_only_players [of ls] by auto
  finally show ?thesis
    using sum_length_filter_compl [of is_render_remote "latest_only ls"] by (simp add: latest_only_others)
qed

lemma length_latest_only_mono: "length (latest_only xs) \<le> length (latest_only (xs @ ys))"
proof -
  have "card (line_player ` {l \<in> set xs. is_render_remote l}) \<le> card (line_player ` {l \<in> set (xs @ ys). is_render_remote l})"
    by (intro card_mono finite_imageI image_mono) auto
  then show ?thesis by (simp add: length_latest_only)
qed

definition queue_ok :: "string list \<Rightarrow> string list \<times> nat \<Rightarrow> bool" where
  "queue_ok all q \<longleftrightarrow>
     (case q of (lines, limit) \<Rightarrow>
        collapse_latest_render_remote lines = collapse_latest_render_remote all \<and> length lines \<le> limit \<and>
        PENDING_LINES_COLLAPSE_AT \<le> limit \<and>
        limit \<le> max PENDING_LINES_COLLAPSE_AT (2 * length (collapse_latest_render_remote all)))"

lemma push_lines_ok:
  assumes "queue_ok all q"
  shows "queue_ok (all @ received) (push_lines received q)"
proof -
  obtain lines limit where q: "q = (lines, limit)" by (cases q)
  have same: "collapse_latest_render_remote (lines @ received) = collapse_latest_render_remote (all @ received)"
    using assms collapse_append [of lines received] collapse_append [of all received] by (simp add: q queue_ok_def)
  have mono: "length (collapse_latest_render_remote all) \<le> length (collapse_latest_render_remote (all @ received))"
    using length_latest_only_mono by (simp add: collapse_eq_latest_only)
  show ?thesis
  proof (cases "received = []")
    case True
    then show ?thesis using assms by (simp add: push_lines_def q)
  next
    case False
    then show ?thesis
      using assms same mono collapse_append [of "lines @ received" "[]"]
      by (auto simp: q queue_ok_def push_lines_def Let_def le_max_iff_disj)
  qed
qed

text \<open>
  Property C12. However the received lines are cut into updates while the game thread is stopped,
  collapsing the waiting queue on the way changes nothing of what is drained in the end, and the queue is never
  longer than 2048 lines or twice what the drain will really handle, whichever is more.
\<close>

theorem pending_collapse_transparent:
  "case fold push_lines batches ([], PENDING_LINES_COLLAPSE_AT) of (lines, limit) \<Rightarrow>
     collapse_latest_render_remote lines = collapse_latest_render_remote (concat batches) \<and>
     length lines \<le> max PENDING_LINES_COLLAPSE_AT (2 * length (collapse_latest_render_remote (concat batches)))"
proof -
  have "queue_ok (all @ concat batches) (fold push_lines batches q)" if "queue_ok all q" for all q
    using that
  proof (induction batches arbitrary: all q)
    case (Cons b batches)
    then show ?case using Cons.IH [of "all @ b" "push_lines b q"] push_lines_ok [of all q b] by simp
  qed simp
  from this [of "[]" "([], PENDING_LINES_COLLAPSE_AT)"] show ?thesis
    by (auto simp: queue_ok_def split: prod.splits)
qed

section \<open>Ghost ticks and edges keep the game well formed\<close>

lemma tick_ghost_ok:
  assumes "remote_ok player_id r" and "tick_ghost a g mode player_id tick (r, p, d) = (calls, r', p', d')"
  shows "remote_ok player_id r'"
proof (cases "ghost r")
  case None
  then show ?thesis using assms by (simp add: tick_ghost_def)
next
  case (Some h)
  have same: "remote_ok player_id x" if "pose x = pose r" "anim x = anim r" "counts x = counts r" "seen x = seen r" for x
    using assms(1) that by (simp add: remote_ok_def)
  have head: "remote_ok player_id x" if "head_tier a g r = (knobs, x)" for knobs x
    using head_tier_frame [of a g r] that by (intro same) simp_all
  have dropped: "remote_ok player_id (drop_entry x) = remote_ok player_id x" for x
    by (simp add: drop_entry_def remote_ok_def)
  from Some show ?thesis
  proof (cases rule: tick_ghost_cases [of r h a g mode player_id tick p d])
    case dead
    then show ?thesis using assms by (simp add: dropped)
  next
    case (dormant knobs x)
    then show ?thesis using assms head by simp
  next
    case (changed knobs x)
    then show ?thesis using assms head by (simp add: dropped)
  next
    case (mirrored knobs x calls st)
    let ?P = "\<lambda>s :: stage. pose (fst s) = pose x \<and> anim (fst s) = anim x \<and> counts (fst s) = counts x \<and> counts_ok (seen (fst s))"
    have ok: "remote_ok player_id x" using head [OF mirrored(2)] .
    have "?P (snd (run_steps (mirrors a mode player_id tick) (x, p, d)))"
    proof (rule run_steps_invariant)
      show "?P (x, p, d)" using ok by (simp add: remote_ok_def)
    next
      fix f and s :: stage
      assume f: "f \<in> set (mirrors a mode player_id tick)" and P: "?P s"
      have c: "counts_ok (counts (fst s))" using P ok by (simp add: remote_ok_def)
      have "counts_ok (seen (fst (snd (f s))))"
        using f P c by (cases s) (auto simp: mirrors_def mirror_defs counts_ok_def Let_def split: if_splits option.splits)
      then show "?P (snd (f s))" using f P by (auto simp: mirrors_def)
    qed
    then have "remote_ok player_id (fst st)" using mirrored(3) ok by (simp add: remote_ok_def)
    then show ?thesis using assms(2) mirrored(4) by (cases st) simp
  qed
qed

lemma apply_edges_ok: "track_ok tr \<Longrightarrow> track_ok (apply_edges tick ts tr)"
proof -
  assume tr: "track_ok tr"
  have step: "track_ok (apply_edge tick e t)" if "track_ok t" "edge_ok e" for e t
    using that by (simp add: track_ok_def apply_edge_def edge_ok_def)
  have "track_ok (apply_loop tick ts es t)" if "track_ok t" "list_all edge_ok es" "length es \<le> GHOST_INPUT_EDGE_CAP" for es t
    using that
  proof (induction es arbitrary: t)
    case (Cons e es)
    then show ?case using step [of t e] by (auto simp: track_ok_def)
  qed (simp add: track_ok_def)
  then show ?thesis using tr by (simp add: apply_edges_def track_ok_def)
qed

lemma tick_ghost_inputs_ok: "game_ok s \<Longrightarrow> game_ok (snd (tick_ghost_inputs d f has_text now player_id s))"
  by (auto simp: tick_ghost_inputs_def game_ok_def Let_def tracks_ok_def apply_edges_ok split: option.splits prod.splits if_splits)

lemma follow_ghost_panel_ok: "game_ok s \<Longrightarrow> game_ok (snd (follow_ghost_panel s))"
  by (simp add: follow_ghost_panel_def game_ok_def)

lemma handle_lines_ok: "game_ok s \<Longrightarrow> game_ok (snd (handle_lines ls s))"
proof (induction ls arbitrary: s)
  case (Cons x ls)
  obtain a d t line where x: "x = (a, d, t, line)" by (cases x)
  obtain acts w where w: "handle_bridge_line a d t line s = (acts, w)" by (meson surj_pair)
  have "game_ok (snd (handle_lines ls w))" using Cons.IH [of w] handle_bridge_line_ok [OF Cons.prems, of a d t line] w by simp
  then show ?case by (simp add: x w split_beta)
qed simp


section \<open>Every reachable session\<close>

text \<open>
  One step of either thread or of a level callback; what the operating system, the core and the
  engine answer is arbitrary. A ghost's tick works on whatever pawn the engine has for it.
\<close>

inductive session_step :: "session \<Rightarrow> session \<Rightarrow> bool" where
  step_update: "session_step s (snd (on_update u s))"
| step_head: "session_step s (fst (tick_head ans frozen cursor_shown s))"
| step_vitals: "session_step s (s\<lparr>health := count_vitals shared_hp hp (health s)\<rparr>)"
| step_deaths: "session_step s (report_deaths ans s)"
| step_state: "session_step s (s\<lparr>local_state := line\<rparr>)"
| step_sample: "session_step s (s\<lparr>track := input_track_sample fr (track s)\<rparr>)"
| step_follow: "session_step s (s\<lparr>world := snd (follow_ghost_panel (world s))\<rparr>)"
| step_drain: "session_step s (snd (drain_pending answers destroyed s))"
| step_inputs: "session_step s (s\<lparr>world := snd (tick_ghost_inputs d f has_text now player_id (world s))\<rparr>)"
| step_ghost: "session_step s (snd (snd (tick_remote a g player_id engine s)))"
| step_load: "session_step s (snd (load_map_pre destroyed ids s))"
| step_restart: "session_step s (init_game_state_pre s)"

definition vitals_ok :: "vitals \<Rightarrow> bool" where
  "vitals_ok v \<longleftrightarrow> 0 \<le> hurts v \<and> 0 \<le> reset_deaths v \<and> reset_deaths v \<le> deaths v"

definition session_ok :: "session \<Rightarrow> bool" where
  "session_ok s \<longleftrightarrow>
     game_ok (world s) \<and> bridge_inv (net s) \<and> length (pending s) \<le> collapse_at s \<and>
     length (input_edges (track s)) \<le> 256 \<and> vitals_ok (health s)"

lemma session_ok_net: "session_ok s \<Longrightarrow> bridge_inv b \<Longrightarrow> session_ok (s\<lparr>net := b\<rparr>)"
  by (simp add: session_ok_def)

lemma session_ok_world: "session_ok s \<Longrightarrow> game_ok w \<Longrightarrow> session_ok (s\<lparr>world := w\<rparr>)"
  by (simp add: session_ok_def)

lemma game_ok_frames:
  "game_ok w \<Longrightarrow> game_ok (w\<lparr>tick_count := n\<rparr>)" "game_ok w \<Longrightarrow> game_ok (w\<lparr>suppress_ghost_spawn_until_tick := n\<rparr>)"
  by (simp_all add: game_ok_def)

lemma drain_input_bound: "length (input_edges c) \<le> 256 \<Longrightarrow> length (input_edges (snd (drain_input c))) \<le> 256"
  by (simp add: drain_input_queue)

lemma update_launcher_ok:
  assumes "session_ok s"
  shows "session_ok (snd (update_launcher u s))"
proof -
  have "bridge_inv (set_own_core_port p (net s))" for p
    using assms bridge_inv_frame(5) [of "net s" False] by (simp add: session_ok_def set_own_core_port_def)
  then show ?thesis using assms
    by (auto simp: update_launcher_def Let_def session_ok_def split: option.splits prod.splits)
qed

lemma send_hello_ok:
  assumes "session_ok s"
  shows "session_ok (send_hello u s)"
proof -
  obtain ok b where b: "send_line (hello_answer u) hello_line (net s) = (ok, b)" by (meson surj_pair)
  have inv: "bridge_inv b" using bridge_inv_send [of "net s" "hello_answer u" hello_line] assms b by (simp add: session_ok_def)
  have "ok \<Longrightarrow> connected b"
    using b by (auto simp: send_line_def send_line_inner_def Let_def bump_send_ok_def split: if_splits send_answer.splits)
  then have "ok \<Longrightarrow> bridge_inv (mark_hello_sent (hello_time u) b)"
    using bridge_inv_frame(2) [OF inv, of True] by (simp add: mark_hello_sent_def)
  then show ?thesis using assms inv b by (auto simp: send_hello_def session_ok_def split: bool.splits)
qed

lemma drain_and_send_ok:
  assumes "session_ok s"
  shows "session_ok (input_track_drain_and_send u s)"
proof -
  obtain out c where c: "drain_input (track s) = (out, c)" by (meson surj_pair)
  have "length (input_edges c) \<le> 256" using drain_input_bound [of "track s"] assms c by (simp add: session_ok_def)
  then show ?thesis
    using assms c bridge_inv_send [of "net s"]
    by (auto simp: input_track_drain_and_send_def session_ok_def split: option.splits prod.splits)
       (metis snd_conv)+
qed

lemma send_state_ok: "session_ok s \<Longrightarrow> session_ok (send_state u s)"
  using bridge_inv_send [of "net s"] by (simp add: send_state_def session_ok_def)

lemma push_lines_fits: "push_lines received (lines, limit) = (lines', limit') \<Longrightarrow> length lines \<le> limit \<Longrightarrow> length lines' \<le> limit'"
  by (auto simp: push_lines_def Let_def le_max_iff_disj split: if_splits)

lemma on_update_ok:
  assumes "session_ok s"
  shows "session_ok (snd (on_update u s))"
proof -
  let ?s1 = "s\<lparr>world := (world s)\<lparr>tick_count := tick_count (world s) + 1\<rparr>,
               net := tick_connect (ports u) (check_time u) (stamp_time u) (sweep_time u) (net s)\<rparr>"
  have s1: "session_ok ?s1" using assms by (simp add: session_ok_def game_ok_frames bridge_inv_tick)
  obtain acts s2 where s2: "update_launcher u ?s1 = (acts, s2)" by (meson surj_pair)
  have k2: "session_ok s2" using update_launcher_ok [OF s1, of u] s2 by simp
  define s3 where "s3 = (if was_connected s2 \<and> \<not> is_ready (net ?s1) then s2\<lparr>cleanup_pending := True\<rparr> else s2)\<lparr>was_connected := is_ready (net ?s1)\<rparr>"
  have "session_ok s3" using k2 by (simp add: s3_def session_ok_def)
  then have k4: "session_ok (send_hello u s3)" by (rule send_hello_ok)
  obtain received b where b: "(if connected (net (send_hello u s3))
      then poll_lines (recv_answers u) (recv_time u) (net (send_hello u s3)) else ([], net (send_hello u s3))) = (received, b)"
    by (meson surj_pair)
  have "bridge_inv b"
    using b bridge_inv_poll [of "net (send_hello u s3)" "recv_answers u" "recv_time u"] k4
    by (auto simp: session_ok_def split: if_splits)
  then have k5: "session_ok ((send_hello u s3)\<lparr>net := b\<rparr>)" using k4 by (rule session_ok_net [rotated])
  let ?s6 = "input_track_drain_and_send u (send_state u ((send_hello u s3)\<lparr>net := b\<rparr>))"
  have k6: "session_ok ?s6" using k5 by (intro drain_and_send_ok send_state_ok)
  obtain lines limit where l: "push_lines received (pending ?s6, collapse_at ?s6) = (lines, limit)" by (meson surj_pair)
  have "session_ok (?s6\<lparr>pending := lines, collapse_at := limit\<rparr>)"
    using k6 push_lines_fits [OF l] by (simp add: session_ok_def)
  moreover have "snd (on_update u s) = (if \<not> is_ready b then (send_hello u s3)\<lparr>net := b\<rparr> else ?s6\<lparr>pending := lines, collapse_at := limit\<rparr>)"
    using s2 b l by (simp add: on_update_def Let_def s3_def split_beta cong: if_cong)
  ultimately show ?thesis using k5 by simp
qed


lemma tick_head_ok:
  assumes "session_ok s"
  shows "session_ok (fst (tick_head ans frozen cursor_shown s))"
proof -
  have "session_ok (report_freeze ans frozen s)"
    using assms bridge_inv_send [of "net s" ans]
    by (auto simp: report_freeze_def session_ok_def split: option.splits prod.splits) (metis snd_conv)+
  then show ?thesis by (auto simp: tick_head_def Let_def session_ok_def game_ok_frames)
qed

lemma count_vitals_ok: "vitals_ok v \<Longrightarrow> vitals_ok (count_vitals a b v)"
  by (auto simp: vitals_ok_def count_vitals_def Let_def split: option.splits)

lemma report_deaths_ok: "session_ok s \<Longrightarrow> session_ok (report_deaths ans s)"
  using bridge_inv_send [of "net s" ans chaser_reset_line]
  by (auto simp: report_deaths_def session_ok_def vitals_ok_def split: prod.splits)

lemma drain_pending_ok:
  assumes "session_ok s"
  shows "session_ok (snd (drain_pending answers destroyed s))"
proof -
  obtain acts w where w: "handle_lines (map (\<lambda>(i, line). case answers i of (a, d, t) \<Rightarrow> (a, d, t, line))
      (enumerate 0 (collapse_latest_render_remote (pending s)))) (world s) = (acts, w)"
    by (meson surj_pair)
  then have "game_ok w" using handle_lines_ok [of "world s"] assms by (metis session_ok_def snd_conv)
  then show ?thesis using assms w by (simp add: drain_pending_def session_ok_def release_all_ghosts_parked_ok)
qed

lemma load_map_pre_ok:
  assumes "session_ok s"
  shows "session_ok (snd (load_map_pre destroyed ids s))"
proof -
  let ?f = "\<lambda>player_id (acts, w). case release_ghost destroyed player_id w of (acts', w) \<Rightarrow> (acts @ acts', w)"
  have "game_ok (snd (fold ?f ids q))" if "game_ok (snd q)" for q
    using that
  proof (induction ids arbitrary: q)
    case (Cons i ids)
    have "game_ok (snd (?f i q))" using release_ghost_ok [of "snd q" destroyed i] Cons.prems by (simp add: split_beta)
    then show ?case using Cons.IH [of "?f i q"] by simp
  qed simp
  then have "game_ok (snd (fold ?f ids ([], world s)))" using assms by (simp add: session_ok_def)
  then show ?thesis
    using assms by (simp add: load_map_pre_def Let_def split_beta session_ok_def game_ok_frames release_all_ghosts_ok
        vitals_ok_def forget_vitals_def)
qed

lemma init_game_state_pre_ok: "session_ok s \<Longrightarrow> session_ok (init_game_state_pre s)"
  by (simp add: init_game_state_pre_def session_ok_def game_ok_frames release_all_ghosts_ok vitals_ok_def forget_vitals_def)

lemma sample_bound: "length (input_edges c) \<le> 256 \<Longrightarrow> length (input_edges (input_track_sample fr c)) \<le> 256"
  using frame_queue [of fr c] enqueue_edge_bound [of _ "input_edges c"] by (auto split: option.splits)

lemma tick_remote_ok:
  assumes "session_ok s"
  shows "session_ok (snd (snd (tick_remote a g player_id engine s)))"
proof (cases "remotes (world s) player_id")
  case (Some r)
  obtain p d where e: "engine = (p, d)" by (cases engine)
  obtain calls r' p' d' where t: "tick_ghost a g (chaser_contact_mode (world s)) player_id (tick_count (world s)) (r, p, d) = (calls, r', p', d')"
    by (metis prod_cases4)
  have "player_id \<noteq> [] \<and> remote_ok player_id r"
    using Some assms remotes_ok_get [of "remotes (world s)"] by (simp add: session_ok_def game_ok_def)
  then show ?thesis
    using assms t tick_ghost_ok [OF _ t] by (auto simp: tick_remote_def Some e session_ok_def game_ok_def intro!: remotes_ok_upd)
qed (use assms in \<open>simp add: tick_remote_def\<close>)

lemma session_step_ok: "session_step s s' \<Longrightarrow> session_ok s \<Longrightarrow> session_ok s'"
  by (induction rule: session_step.induct)
     (simp_all add: on_update_ok tick_head_ok report_deaths_ok drain_pending_ok load_map_pre_ok init_game_state_pre_ok tick_remote_ok,
      simp_all add: session_ok_def count_vitals_ok sample_bound follow_ghost_panel_ok tick_ghost_inputs_ok)

lemma new_session_ok: "session_ok (new_session port l t)"
  by (simp add: new_session_def session_ok_def game_ok_def new_game_def remotes_ok_def tracks_ok_def bridge_inv_new
      PENDING_LINES_COLLAPSE_AT_def new_capture_def vitals_ok_def new_vitals_def)

text \<open>
  Property C1. Whatever the two threads, the level callbacks, the core and the peers do, in
  whatever order, the plugin's state stays in its types' ranges. Every remote entry has a player, a finite facing and
  clock, a finite place unless it is a loopback echo, speeds within 10^6, a colour within 1024 and counters within
  10^9; every input track holds at most 4096 edges with finite times and at most eight axes; at most 256 of the player's
  own edges wait; the queue is within its limit; the bridge is well formed; and no death is reset that was not counted.
\<close>

theorem session_reachable_ok:
  assumes "session_step\<^sup>*\<^sup>* (new_session port l t) s"
  shows "game_ok (world s) \<and> bridge_inv (net s) \<and> length (pending s) \<le> collapse_at s \<and>
    length (input_edges (track s)) \<le> 256 \<and> vitals_ok (health s)"
proof -
  from assms have "session_ok s"
    by (induction rule: rtranclp_induct) (auto intro: session_step_ok new_session_ok)
  then show ?thesis by (simp add: session_ok_def)
qed

definition idle_cores :: launcher where
  "idle_cores = new_launcher False (\<lambda>_. None) []"

lemma session_reachable_ok_witness:
  "let s = report_deaths (Sent 0) ((new_session 7778 idle_cores sample_templates)\<lparr>health :=
      count_vitals None (Some (Fin 0)) new_vitals\<rparr>) in deaths (health s) = 1 \<and> bridge_inv (net s)"
proof -
  let ?s0 = "new_session 7778 idle_cores sample_templates"
  let ?s1 = "?s0\<lparr>health := count_vitals None (Some (Fin 0)) (health ?s0)\<rparr>"
  have "session_step ?s0 ?s1" by (rule step_vitals)
  then have "session_step\<^sup>*\<^sup>* ?s0 (report_deaths (Sent 0) ?s1)" 
    by (rule converse_rtranclp_into_rtranclp) (rule r_into_rtranclp, rule step_deaths)
  from session_reachable_ok [OF this] show ?thesis
    by (simp add: Let_def new_session_def report_deaths_def count_vitals_def new_vitals_def split_beta)
qed

section \<open>What the threads forget\<close>

text \<open>
  A death is counted again when the level is torn down while the health still reads 0: the baseline
  is forgotten, and the next reading looks like a new death.
\<close>

lemma death_counted_twice:
  assumes "dbl_le h (Fin 0)" and "\<not> was_dead v"
  shows "deaths (count_vitals a (Some h) (forget_vitals (count_vitals b (Some h) v))) = deaths v + 2"
  using assms by (auto simp: count_vitals_def forget_vitals_def Let_def split: option.split)

text \<open>
  Only readiness at the head of an update is remembered, so a core that becomes ready and is lost within
  one update leaves no trace: the lines it sent are queued, and no later update asks for its ghosts to be parked.
\<close>

lemma unseen_readiness_never_cleaned:
  assumes "\<not> was_connected s" and "\<not> is_ready (tick_connect (ports u) (check_time u) (stamp_time u) (sweep_time u) (net s))"
  shows "cleanup_pending (snd (on_update u s)) = cleanup_pending s \<and> \<not> was_connected (snd (on_update u s))"
proof -
  have l: "was_connected (snd (update_launcher u x)) = was_connected x \<and> cleanup_pending (snd (update_launcher u x)) = cleanup_pending x" for x
    by (auto simp: update_launcher_def Let_def split: option.splits prod.splits)
  have h: "was_connected (send_hello u x) = was_connected x \<and> cleanup_pending (send_hello u x) = cleanup_pending x" for x
    by (auto simp: send_hello_def split: prod.splits bool.splits)
  have d: "was_connected (input_track_drain_and_send u x) = was_connected x \<and>
      cleanup_pending (input_track_drain_and_send u x) = cleanup_pending x" for x
    by (auto simp: input_track_drain_and_send_def split: option.splits prod.splits)
  have t: "was_connected (send_state u x) = was_connected x \<and> cleanup_pending (send_state u x) = cleanup_pending x" for x
    by (simp add: send_state_def)
  show ?thesis using assms by (simp add: on_update_def Let_def split_beta l h d t)
qed

text \<open>Parking every ghost says nothing of the recording the lost core was making.\<close>

lemma lost_core_still_recording:
  assumes "collapse_latest_render_remote (pending s) = []"
  shows "recording_active (world (snd (drain_pending answers destroyed s))) = recording_active (world s)"
  using assms by (simp add: drain_pending_def release_all_ghosts_parked_def enumerate_eq_zip)

end
