(* ===== verification/Json_Spaced.thy ===== *)
theory Json_Spaced
  imports Json_Text
begin

text \<open>
  The scoped member reader on any JSON text: white space may stand around every name, colon, value and comma, as the
  grammar of JSON allows.
\<close>

section \<open>Texts\<close>

record spaced_member =
  before_name :: string
  name_raw :: string
  before_colon :: string
  after_colon :: string
  value_items :: "jitem list"
  after_value :: string

abbreviation spaces :: "string \<Rightarrow> bool" where
  "spaces ws \<equiv> list_all json_is_space ws"

definition spaced_ok :: "spaced_member \<Rightarrow> bool" where
  "spaced_ok m \<longleftrightarrow> spaces (before_name m) \<and> raw_ok (name_raw m) \<and> spaces (before_colon m) \<and> spaces (after_colon m) \<and>
     value_ok (value_items m) \<and> spaces (after_value m)"

definition name_text :: "spaced_member \<Rightarrow> string" where
  "name_text m = chr_quote # name_raw m @ chr_quote # before_colon m @ CHR '':'' # after_colon m"

definition member_text :: "spaced_member \<Rightarrow> string" where
  "member_text m = before_name m @ name_text m @ items_text (value_items m) @ after_value m"

text \<open>The body of an object; the body of an empty one may be white space.\<close>

fun members_text :: "spaced_member list \<Rightarrow> string" where
  "members_text [] = []"
| "members_text [m] = member_text m"
| "members_text (m # ms) = member_text m @ CHR '','' # members_text ms"

definition body_text :: "string \<Rightarrow> spaced_member list \<Rightarrow> string" where
  "body_text pad ms = pad @ members_text ms"

definition members_of :: "spaced_member list \<Rightarrow> members" where
  "members_of = map (\<lambda>m. (name_raw m, value_items m))"

lemma members_text_Cons:
  "members_text (m # ms) = member_text m @ (if ms = [] then [] else CHR '','' # members_text ms)"
  by (cases ms) auto

section \<open>Steps of the scan\<close>

lemma skip_spaces_run:
  assumes "spaces ws" and "length pre + length ws \<le> e" and "length pre + length ws < e \<Longrightarrow> post \<noteq> [] \<and> \<not> json_is_space (hd post)"
  shows "skip_spaces (pre @ ws @ post) (length pre) e = length pre + length ws"
  using assms
proof (induction ws arbitrary: pre)
  case Nil
  then show ?case by (intro trans [OF skip_spaces_stop]) (auto simp: nth_append hd_conv_nth)
next
  case (Cons c ws)
  have "skip_spaces (pre @ (c # ws) @ post) (length pre) e = skip_spaces ((pre @ [c]) @ ws @ post) (length (pre @ [c])) e"
    using Cons.prems by (subst skip_spaces.simps) simp
  then show ?case using Cons.IH [of "pre @ [c]"] Cons.prems by simp
qed

lemma not_structural_space: "json_is_space c \<Longrightarrow> \<not> structural c"
  by (auto simp: json_is_space_def structural_def)

lemma member_loop_spaces:
  "spaces ws \<Longrightarrow> length pre + length ws \<le> e \<Longrightarrow>
   member_loop key (pre @ ws @ post) e (length pre) d = member_loop key (pre @ ws @ post) e (length pre + length ws) d"
proof (induction ws arbitrary: pre)
  case (Cons c ws)
  have "member_loop key (pre @ (c # ws) @ post) e (length pre) d = member_loop key ((pre @ [c]) @ ws @ post) e (length (pre @ [c])) d"
    using member_scan.scan_plain [of "length pre" e "pre @ (c # ws) @ post" key d] Cons.prems not_structural_space by simp
  then show ?case using Cons.IH [of "pre @ [c]"] Cons.prems by simp
qed simp

lemma member_loop_name:
  assumes "raw_ok (name_raw m)" and "spaces (before_colon m)" and "spaces (after_colon m)"
    and "rest \<noteq> []" and "\<not> json_is_space (hd rest)"
    and "length pre + length (name_text m) < e" and "e \<le> length (pre @ name_text m @ rest)"
  shows "member_loop key (pre @ name_text m @ rest) e (length pre) 0 =
    (if name_raw m = key then Some (length pre + length (name_text m))
     else member_loop key (pre @ name_text m @ rest) e (length pre + length (name_text m)) 0)"
proof -
  let ?s = "pre @ name_text m @ rest" and ?k = "name_raw m"
  let ?close = "length pre + length ?k + 1"
  let ?pre1 = "pre @ chr_quote # ?k @ [chr_quote]"
  let ?pre2 = "?pre1 @ before_colon m @ [CHR '':'']"
  have s1: "?s = ?pre1 @ before_colon m @ CHR '':'' # after_colon m @ rest" by (simp add: name_text_def)
  have s2: "?s = ?pre2 @ after_colon m @ rest" by (simp add: name_text_def)
  have L1: "length ?pre1 = ?close + 1" and L2: "length ?pre2 = ?close + 1 + length (before_colon m) + 1"
    and L3: "length pre + length (name_text m) = length ?pre2 + length (after_colon m)"
    by (simp_all add: name_text_def)
  have skip: "json_skip_string ?s (length pre) e = Some ?close"
    using json_skip_string_raw [of ?k pre e "before_colon m @ CHR '':'' # after_colon m @ rest"] assms(1,6)
    by (simp add: name_text_def)
  have sp1: "skip_spaces ?s (?close + 1) e = ?close + 1 + length (before_colon m)"
    using skip_spaces_run [OF assms(2), of ?pre1 e "CHR '':'' # after_colon m @ rest"] assms(6) L1 L2 L3
    by (simp only: s1 list.sel) (simp add: json_is_space_def)
  have sp2: "skip_spaces ?s (?close + 1 + length (before_colon m) + 1) e = length pre + length (name_text m)"
    using skip_spaces_run [OF assms(3), of ?pre2 e rest] assms(4,5,6) L2 L3 by (simp only: s2) simp
  have at: "?s ! (?close + 1 + length (before_colon m)) = CHR '':''" "?s ! length pre = chr_quote"
    by (simp_all add: name_text_def nth_append)
  have cmp: "str_compare_eq ?s (length pre + 1) (length ?k) key \<longleftrightarrow> ?k = key"
    by (simp add: str_compare_eq_def name_text_def)
  have hit: "member_hit ?s (length pre + 1) ?close e key =
      (if ?k = key then Some (Some (length pre + length (name_text m))) else None)"
    using assms(6) at(1) sp1 sp2 cmp L2 L3 by (auto simp: member_hit_def Let_def)
  have "member_loop key ?s e (?close + 1) 0 = member_loop key ?s e (length ?pre1 + length (before_colon m)) 0"
    using member_loop_spaces [OF assms(2), of ?pre1 e key "CHR '':'' # after_colon m @ rest" 0] assms(6) L1 L2 L3
    by (simp only: s1 [symmetric])
  also have "\<dots> = member_loop key ?s e (length ?pre2) 0"
    using member_scan.scan_plain [of "length ?pre1 + length (before_colon m)" e ?s key 0] at(1) assms(6) L1 L2 L3
    by (simp add: structural_def add_ac)
  also have "\<dots> = member_loop key ?s e (length pre + length (name_text m)) 0"
    using member_loop_spaces [OF assms(3), of ?pre2 e key rest 0] assms(6) L3 by (simp only: s2 [symmetric])
  finally have go: "member_loop key ?s e (?close + 1) 0 = member_loop key ?s e (length pre + length (name_text m)) 0" .
  show ?thesis
    using skip hit at(2) go assms(6) by (subst member_loop.simps) auto
qed

lemma member_loop_spaced_value:
  assumes ok: "value_ok v" and ws: "spaces ws"
    and le: "length pre + length (items_text v) + length ws \<le> e"
    and ev: "length pre + length (items_text v) + length ws < e \<Longrightarrow> post \<noteq> [] \<and> hd post = CHR '',''"
  shows "member_loop key (pre @ items_text v @ ws @ post) e (length pre) 0 =
         member_loop key (pre @ items_text v @ ws @ post) e (length pre + length (items_text v) + length ws) 0"
proof -
  let ?s = "pre @ items_text v @ ws @ post"
  have "member_loop key ?s e (length pre) 0 = member_loop key ?s e (length pre + length (items_text v)) 0"
  proof (cases "\<exists>r. v = [Str r]")
    case True
    then obtain r where v: "v = [Str r]" by blast
    let ?close = "length pre + length r + 1" and ?pre1 = "pre @ chr_quote # r @ [chr_quote]"
    have skip: "json_skip_string ?s (length pre) e = Some ?close"
      using json_skip_string_raw [of r pre e "ws @ post"] ok le v by simp
    have s: "?s = ?pre1 @ ws @ post" by (simp add: v)
    have sp: "skip_spaces ?s (?close + 1) e = ?close + 1 + length ws"
      using skip_spaces_run [OF ws, of ?pre1 e post] le ev by (simp only: s) (simp add: v json_is_space_def)
    have "?close + 1 + length ws < e \<Longrightarrow> ?s ! (?close + 1 + length ws) = CHR '',''"
      using ev by (cases post) (auto simp: s nth_append v)
    then have "member_hit ?s (length pre + 1) ?close e key = None"
      using sp by (auto simp: member_hit_def)
    then show ?thesis
      using skip le v by (subst member_loop.simps) simp
  next
    case False
    note nested = member_loop_nested [of _ pre "items_text v" e key "ws @ post"]
    show ?thesis
      using ok False le nested member_loop_plain_run [of v pre e key "ws @ post" 0]
      by (cases v rule: value_ok.cases) auto
  qed
  also have "\<dots> = member_loop key ?s e (length pre + length (items_text v) + length ws) 0"
    using member_loop_spaces [OF ws, of "pre @ items_text v" e key post 0] le by simp
  finally show ?thesis .
qed

section \<open>The reader\<close>

definition found_in :: "string \<Rightarrow> nat \<Rightarrow> spaced_member list \<Rightarrow> string \<Rightarrow> nat option \<Rightarrow> bool" where
  "found_in t base ms key r \<longleftrightarrow>
     (case map_of (members_of ms) key of
        None \<Rightarrow> r = None
      | Some v \<Rightarrow> \<exists>a z. t = a @ items_text v @ z \<and> r = Some (base + length a))"

lemma found_in_shift:
  assumes "found_in t (base + length a) ms key r"
  shows "found_in (a @ t) base ms key r"
proof (cases "map_of (members_of ms) key")
  case (Some v)
  then obtain b z where "t = b @ items_text v @ z" "r = Some (base + length a + length b)"
    using assms by (auto simp: found_in_def)
  then show ?thesis using Some
    by (simp add: found_in_def) (intro exI [of _ "a @ b"] exI [of _ z], simp)
qed (use assms in \<open>simp add: found_in_def\<close>)

lemma member_loop_spaced:
  "list_all spaced_ok ms \<Longrightarrow> s = pre @ members_text ms @ post \<Longrightarrow> e = length pre + length (members_text ms) \<Longrightarrow>
   found_in (members_text ms) (length pre) ms key (member_loop key s e (length pre) 0)"
proof (induction ms arbitrary: pre)
  case Nil
  then have "member_loop key s e (length pre) 0 = None" by (subst member_loop.simps) simp
  then show ?case by (simp add: found_in_def members_of_def)
next
  case (Cons m ms)
  have ok: "spaces (before_name m)" "raw_ok (name_raw m)" "spaces (before_colon m)" "spaces (after_colon m)"
    "value_ok (value_items m)" "spaces (after_value m)" and ms: "list_all spaced_ok ms"
    using Cons.prems(1) by (simp_all add: spaced_ok_def [of m])
  let ?tail = "if ms = [] then [] else CHR '','' # members_text ms" and ?v = "items_text (value_items m)"
  let ?pre1 = "pre @ before_name m" and ?pre2 = "pre @ before_name m @ name_text m"
  let ?pre3 = "?pre2 @ ?v @ after_value m"
  have ne: "?v \<noteq> []" and hd: "\<not> json_is_space (hd ?v)"
    using value_ok_nonempty [OF ok(5)] value_ok_hd [OF ok(5)] by blast+
  have s: "s = pre @ before_name m @ name_text m @ ?v @ after_value m @ ?tail @ post"
    using Cons.prems(2) by (simp add: members_text_Cons member_text_def)
  have e: "e = length ?pre3 + length ?tail"
    using Cons.prems(3) by (simp add: members_text_Cons member_text_def)
  have "member_loop key s e (length pre) 0 = member_loop key s e (length ?pre1) 0"
    using member_loop_spaces [OF ok(1), of pre e key "name_text m @ ?v @ after_value m @ ?tail @ post" 0] e
    by (simp only: s) simp
  also have "\<dots> = (if name_raw m = key then Some (length ?pre2) else member_loop key s e (length ?pre2) 0)"
  proof -
    let ?rest = "?v @ after_value m @ ?tail @ post"
    have s': "s = ?pre1 @ name_text m @ ?rest" by (simp add: s)
    have "?rest \<noteq> []" "\<not> json_is_space (hd ?rest)" using ne hd hd_append2 [OF ne] by (simp_all only:) auto
    moreover have "length ?pre1 + length (name_text m) < e" "e \<le> length (?pre1 @ name_text m @ ?rest)"
      using ne e by (cases "?v"; simp)+
    ultimately show ?thesis using member_loop_name [OF ok(2-4), of ?rest ?pre1 e key] by (simp only: s' [symmetric]) (simp add: add_ac)
  qed
  finally have step: "member_loop key s e (length pre) 0 =
    (if name_raw m = key then Some (length ?pre2) else member_loop key s e (length ?pre2) 0)" .
  have whole: "members_text (m # ms) = (before_name m @ name_text m) @ ?v @ after_value m @ ?tail"
    by (simp add: members_text_Cons member_text_def)
  show ?case
  proof (cases "name_raw m = key")
    case True
    have "map_of (members_of (m # ms)) key = Some (value_items m)" using True by (simp add: members_of_def)
    moreover have "member_loop key s e (length pre) 0 = Some (length pre + length (before_name m @ name_text m))"
      using step True by simp
    ultimately show ?thesis
      unfolding found_in_def whole option.case
      by (simp only: option.case) (intro exI [of _ "before_name m @ name_text m"] exI [of _ "after_value m @ ?tail"] conjI refl)
  next
    case False
    have val: "member_loop key s e (length ?pre2) 0 = member_loop key s e (length ?pre3) 0"
      using member_loop_spaced_value [OF ok(5,6), of ?pre2 e "?tail @ post" key] e s by (auto simp: add_ac split: if_splits)
    have same: "map_of (members_of (m # ms)) key = map_of (members_of ms) key"
      using False by (simp add: members_of_def)
    show ?thesis
    proof (cases "ms = []")
      case True
      then have "member_loop key s e (length ?pre3) 0 = None" using e by (subst member_loop.simps) simp
      then show ?thesis using step val False True by (simp add: found_in_def members_of_def)
    next
      case ne: False
      let ?pre4 = "?pre3 @ [CHR '','']"
      have "member_loop key s e (length ?pre3) 0 = member_loop key s e (length ?pre4) 0"
        using member_scan.scan_plain [of "length ?pre3" e s key 0] e s ne by (simp add: structural_def nth_append)
      moreover have "found_in (members_text ms) (length ?pre4) ms key (member_loop key s e (length ?pre4) 0)"
        by (rule Cons.IH [OF ms]) (use s e ne in auto)
      ultimately have "found_in (members_text ms) (length pre + length (drop (length pre) ?pre4)) ms key
          (member_loop key s e (length pre) 0)"
        using step val False by simp
      from found_in_shift [OF this] show ?thesis
        using ne same by (simp add: whole found_in_def)
    qed
  qed
qed

text \<open>
  Property C8. Scoped reading cannot be shadowed. In the body of any object of any well-formed text, white space
  anywhere the grammar allows it, whatever its other members hold (strings with quotes and braces, nested objects and
  arrays with members of the same name), the scanner finds the value of the first member of that name, as its bytes are
  written, at the object's own top level, exactly where it stands and inside the body, and nothing when there is none.
\<close>

theorem json_member_value_exact:
  assumes "list_all spaced_ok ms" and "spaces pad" and "span_of s (body_text pad ms) b e"
  shows "case map_of (members_of ms) key of
      None \<Rightarrow> json_member_value s b e key = None
    | Some v \<Rightarrow> \<exists>p. json_member_value s b e key = Some p \<and>
        span_of s (items_text v) p (p + length (items_text v)) \<and> b \<le> p \<and> p + length (items_text v) \<le> e"
proof -
  obtain pre post where s: "s = pre @ pad @ members_text ms @ post" and b: "b = length pre"
    and e: "e = length (pre @ pad) + length (members_text ms)"
    using assms(3) by (auto simp: span_of_def body_text_def)
  have "json_member_value s b e key = member_loop key s e (length (pre @ pad)) 0"
    using member_loop_spaces [OF assms(2), of pre e key "members_text ms @ post" 0] s b e
    by (simp add: json_member_value_def)
  then have f: "found_in (members_text ms) (length (pre @ pad)) ms key (json_member_value s b e key)"
    using member_loop_spaced [OF assms(1), of s "pre @ pad" post e key] s e by simp
  show ?thesis
  proof (cases "map_of (members_of ms) key")
    case (Some v)
    then obtain a z where a: "members_text ms = a @ items_text v @ z"
      "json_member_value s b e key = Some (length (pre @ pad) + length a)"
      using f by (auto simp: found_in_def)
    moreover have "span_of s (items_text v) (length (pre @ pad) + length a) (length (pre @ pad) + length a + length (items_text v))"
      unfolding span_of_def s a(1) by (intro exI [of _ "pre @ pad @ a"] exI [of _ "z @ post"]) simp
    ultimately show ?thesis using Some b e by simp
  qed (use f in \<open>simp add: found_in_def\<close>)
qed

definition spaced_state :: "spaced_member list" where
  "spaced_state =
    [\<lparr>before_name = '' '', name_raw = ''orientation'', before_colon = '' '', after_colon = [],
      value_items = [Obj (body_items [(''extras'', [Str ''forged''])])], after_value = '' ''\<rparr>,
     \<lparr>before_name = [], name_raw = ''extras'', before_colon = ''  '', after_colon = '' '', value_items = [Str ''dash''], after_value = []\<rparr>]"

theorem json_member_value_exact_witness:
  "\<exists>p. json_member_value (body_text [] spaced_state) 0 (length (body_text [] spaced_state)) ''extras'' = Some p \<and>
    span_of (body_text [] spaced_state) (items_text [Str ''dash'']) p (p + 6)"
proof -
  have "span_of (body_text [] spaced_state) (body_text [] spaced_state) 0 (length (body_text [] spaced_state))"
    by (auto simp: span_of_def intro: exI [of _ "[]"])
  moreover have "list_all spaced_ok spaced_state"
    by (simp add: spaced_state_def spaced_ok_def json_is_space_def structural_def)
  moreover have "map_of (members_of spaced_state) ''extras'' = Some [Str ''dash'']"
    by (simp add: spaced_state_def members_of_def)
  ultimately show ?thesis
    using json_member_value_exact [of spaced_state "[]" "body_text [] spaced_state" 0
      "length (body_text [] spaced_state)" "''extras''"]
    by (auto simp: numeral_eq_Suc)
qed

end
