(* ===== verification/Registry.thy ===== *)
theory Registry
  imports Prelude "HOL-Library.AList"
begin

text \<open>
  The object registries (\<^verbatim>\<open>Plugin.cpp\<close>: \<^verbatim>\<open>ObjectRegistry\<close>, \<^verbatim>\<open>registry_for_class\<close>,
  \<^verbatim>\<open>registry_note_constructed\<close>, \<^verbatim>\<open>registry_drain_pending\<close>): the lists a whole-world search would
  return, kept by events. An object is an address and a serial number; an address may be used again by
  another object, never with the same serial number. A weak pointer holds both. The iteration order of a
  hash map is the order of an association list here. The locale \<open>identity_cache\<close> is the contract of the
  caches that scans keep over a registry's list.
\<close>

section \<open>Objects and weak pointers\<close>

type_synonym address = nat

record uobject =
  serial :: nat
  class_chain :: "string list"

type_synonym heap = "address \<Rightarrow> uobject option"
type_synonym weak = "address \<times> nat option"

definition serial_at :: "heap \<Rightarrow> address \<Rightarrow> nat option" where
  "serial_at h a = map_option serial (h a)"

definition weak_of :: "heap \<Rightarrow> address \<Rightarrow> weak" where
  "weak_of h a = (a, serial_at h a)"

definition weak_get :: "heap \<Rightarrow> weak \<Rightarrow> address option" where
  "weak_get h w = (case w of (a, n) \<Rightarrow> if n \<noteq> None \<and> serial_at h a = n then Some a else None)"

lemmas weak_defs = weak_get_def weak_of_def serial_at_def

lemma weak_get_addr: "weak_get h (a, n) = Some b \<Longrightarrow> b = a"
  by (auto simp: weak_get_def split: if_splits)

lemma weak_get_of: "weak_get h (weak_of h a) = (if h a = None then None else Some a)"
  by (auto simp: weak_get_def weak_of_def serial_at_def)

section \<open>One registry\<close>

record registry =
  members :: "(address \<times> weak) list"
  seeded_at_tick :: u64
  seeded :: bool

definition new_registry :: registry where
  "new_registry = \<lparr>members = [], seeded_at_tick = 0, seeded = False\<rparr>"

definition REGISTRY_RESEED_TICKS :: u64 where "REGISTRY_RESEED_TICKS = 600"

text \<open>\<open>found\<close> is what \<^verbatim>\<open>FindAllOf\<close> returned; \<open>None\<close> is a null pointer.\<close>

definition emplace_member :: "heap \<Rightarrow> address option \<Rightarrow> (address \<times> weak) list \<Rightarrow> (address \<times> weak) list" where
  "emplace_member h p ms =
     (case p of
        None \<Rightarrow> ms
      | Some a \<Rightarrow> if map_of ms a = None then ms @ [(a, weak_of h a)] else ms)"

definition registry_seed :: "heap \<Rightarrow> address option list \<Rightarrow> u64 \<Rightarrow> registry \<Rightarrow> registry" where
  "registry_seed h found tick r =
     r\<lparr>members := fold (emplace_member h) found [], seeded := True, seeded_at_tick := tick\<rparr>"

definition registry_add :: "heap \<Rightarrow> address option \<Rightarrow> registry \<Rightarrow> registry" where
  "registry_add h p r =
     (case p of
        None \<Rightarrow> r
      | Some a \<Rightarrow>
          if Option.bind (map_of (members r) a) (weak_get h) = Some a then r
          else r\<lparr>members := AList.update a (weak_of h a) (members r)\<rparr>)"

definition belt_due :: "u64 \<Rightarrow> registry \<Rightarrow> bool" where
  "belt_due tick r \<longleftrightarrow> \<not> seeded r \<or> tick - seeded_at_tick r \<ge> REGISTRY_RESEED_TICKS"

definition registry_live :: "heap \<Rightarrow> address option list \<Rightarrow> u64 \<Rightarrow> registry \<Rightarrow> address list \<times> registry" where
  "registry_live h found tick r =
     (let r = (if belt_due tick r then registry_seed h found tick r else r) in
      (List.map_filter (\<lambda>p. weak_get h (snd p)) (members r),
       r\<lparr>members := filter (\<lambda>p. weak_get h (snd p) \<noteq> None) (members r)\<rparr>))"

definition registry_clear :: "registry \<Rightarrow> registry" where
  "registry_clear r = r\<lparr>members := [], seeded := False\<rparr>"

section \<open>The four registries and their feed\<close>

datatype registry_kind = Niagara | Afterimage | Camera | CamRig

definition registry_kinds :: "registry_kind list" where
  "registry_kinds = [Niagara, Afterimage, Camera, CamRig]"

fun registry_name :: "registry_kind \<Rightarrow> string" where
  "registry_name Niagara = ''NiagaraComponent''"
| "registry_name Afterimage = ''BP_AfterImage_C''"
| "registry_name Camera = ''CameraComponent''"
| "registry_name CamRig = ''BP_PlayerCam_C''"

text \<open>The nearest class of the chain that has a registry.\<close>

fun registry_for_class :: "string list \<Rightarrow> registry_kind option" where
  "registry_for_class [] = None"
| "registry_for_class (n # ns) =
     (case find (\<lambda>k. registry_name k = n) registry_kinds of Some k \<Rightarrow> Some k | None \<Rightarrow> registry_for_class ns)"

record feed =
  regs :: "registry_kind \<Rightarrow> registry"
  pending_adds :: "(registry_kind \<times> weak) list"

definition new_feed :: feed where
  "new_feed = \<lparr>regs = (\<lambda>_. new_registry), pending_adds = []\<rparr>"

definition registry_note_constructed :: "heap \<Rightarrow> bool \<Rightarrow> address option \<Rightarrow> feed \<Rightarrow> feed" where
  "registry_note_constructed h in_game_thread p f =
     (case p of
        None \<Rightarrow> f
      | Some a \<Rightarrow>
          (case registry_for_class (case h a of None \<Rightarrow> [] | Some ob \<Rightarrow> class_chain ob) of
             None \<Rightarrow> f
           | Some k \<Rightarrow>
               if in_game_thread then f\<lparr>regs := (regs f)(k := registry_add h (Some a) (regs f k))\<rparr>
               else f\<lparr>pending_adds := pending_adds f @ [(k, weak_of h a)]\<rparr>))"

definition drain_add :: "heap \<Rightarrow> registry_kind \<times> weak \<Rightarrow> (registry_kind \<Rightarrow> registry) \<Rightarrow> registry_kind \<Rightarrow> registry" where
  "drain_add h kw rs = (case kw of (k, w) \<Rightarrow> if weak_get h w = None then rs else rs(k := registry_add h (weak_get h w) (rs k)))"

definition registry_drain_pending :: "heap \<Rightarrow> feed \<Rightarrow> feed" where
  "registry_drain_pending h f = f\<lparr>regs := fold (drain_add h) (pending_adds f) (regs f), pending_adds := []\<rparr>"

text \<open>\<^verbatim>\<open>release_all_ghosts\<close>: a level is torn down, its objects die with it.\<close>

definition clear_registries :: "feed \<Rightarrow> feed" where
  "clear_registries f = f\<lparr>regs := registry_clear \<circ> regs f\<rparr>"

section \<open>What a registry tracks\<close>

text \<open>An object of a kind that is alive; the objects a weak pointer list still reaches.\<close>

definition kind_at :: "heap \<Rightarrow> address \<Rightarrow> registry_kind option" where
  "kind_at h a = Option.bind (h a) (\<lambda>ob. registry_for_class (class_chain ob))"

definition alive_of :: "heap \<Rightarrow> registry_kind \<Rightarrow> address set" where
  "alive_of h k = {a. kind_at h a = Some k}"

definition tracked :: "heap \<Rightarrow> registry \<Rightarrow> address set" where
  "tracked h r = {a. \<exists>w. map_of (members r) a = Some w \<and> weak_get h w = Some a}"

definition staged :: "heap \<Rightarrow> registry_kind \<Rightarrow> feed \<Rightarrow> address set" where
  "staged h k f = {a. \<exists>w. (k, w) \<in> set (pending_adds f) \<and> weak_get h w = Some a}"

definition registry_ok :: "registry \<Rightarrow> bool" where
  "registry_ok r \<longleftrightarrow> distinct (map fst (members r)) \<and> (\<forall>(a, w) \<in> set (members r). fst w = a)"

lemma registry_ok_Nil [simp]: "registry_ok (r\<lparr>members := []\<rparr>)"
  by (simp add: registry_ok_def)

lemma registry_ok_emplace:
  "registry_ok (r\<lparr>members := ms\<rparr>) \<Longrightarrow> registry_ok (r\<lparr>members := emplace_member h p ms\<rparr>)"
  by (auto simp: registry_ok_def emplace_member_def weak_of_def map_of_eq_None_iff split: option.splits)

lemma registry_ok_seed [simp]: "registry_ok (registry_seed h found tick r)"
proof -
  have "registry_ok (r\<lparr>members := fold (emplace_member h) found ms\<rparr>)" if "registry_ok (r\<lparr>members := ms\<rparr>)" for ms
    using that by (induction found arbitrary: ms) (simp_all add: registry_ok_emplace)
  from this [of "[]"] show ?thesis by (simp add: registry_seed_def registry_ok_def)
qed

lemma set_alist_update: "set (AList.update a w ms) \<subseteq> insert (a, w) (set ms)"
  by (induction ms) auto

lemma registry_ok_add: "registry_ok r \<Longrightarrow> registry_ok (registry_add h p r)"
  using set_alist_update [of _ _ "members r"]
  by (fastforce simp: registry_ok_def registry_add_def weak_of_def distinct_update split: option.splits)

lemma registry_ok_live: "registry_ok r \<Longrightarrow> registry_ok (snd (registry_live h found t r))"
  using registry_ok_seed [of h found t r]
  by (auto simp: registry_ok_def registry_live_def Let_def distinct_map_filter)

lemma registry_ok_clear [simp]: "registry_ok (registry_clear r)"
  by (simp add: registry_ok_def registry_clear_def)

lemma registry_ok_new [simp]: "registry_ok new_registry"
  by (simp add: registry_ok_def new_registry_def)

text \<open>What each operation does to the tracked objects.\<close>

lemma weak_get_None: "weak_get h w = None \<longleftrightarrow> (\<forall>a. weak_get h w \<noteq> Some a)" by simp

lemma tracked_iff: "registry_ok r \<Longrightarrow> a \<in> tracked h r \<longleftrightarrow> (\<exists>w. (a, w) \<in> set (members r) \<and> weak_get h w = Some a)"
  by (auto simp: tracked_def registry_ok_def)

lemma tracked_add: "h a \<noteq> None \<Longrightarrow> tracked h (registry_add h (Some a) r) = insert a (tracked h r)"
  by (auto simp: tracked_def registry_add_def update_conv' weak_defs bind_eq_Some_conv split: if_splits)

lemma tracked_add_None [simp]: "registry_add h None r = r"
  by (simp add: registry_add_def)

lemma map_of_seed:
  "map_of (fold (emplace_member h) found ms) a =
     (case map_of ms a of Some w \<Rightarrow> Some w | None \<Rightarrow> if Some a \<in> set found then Some (weak_of h a) else None)"
proof (induction found arbitrary: ms)
  case (Cons p found)
  show ?case unfolding fold_Cons o_apply Cons.IH
    by (auto simp: emplace_member_def map_add_def split: option.splits)
qed (simp split: option.split)

lemma tracked_seed: "tracked h (registry_seed h found t r) = {a. Some a \<in> set found \<and> h a \<noteq> None}"
  by (auto simp: tracked_def registry_seed_def map_of_seed weak_defs split: if_splits)

lemma live_result:
  fixes h :: heap and found :: "address option list" and t :: u64 and r :: registry
  assumes "registry_ok r"
  defines "r' \<equiv> if belt_due t r then registry_seed h found t r else r"
  shows "set (fst (registry_live h found t r)) = tracked h r'"
    and "distinct (fst (registry_live h found t r))"
    and "tracked h (snd (registry_live h found t r)) = tracked h r'"
    and "seeded (snd (registry_live h found t r))"
proof -
  have ok: "registry_ok r'" using assms by simp
  have addr: "a = b" if "(a, w) \<in> set (members r')" "weak_get h w = Some b" for a b w
    using ok that weak_get_addr [of h "fst w" "snd w" b] by (auto simp: registry_ok_def)
  have out: "fst (registry_live h found t r) = List.map_filter (\<lambda>p. weak_get h (snd p)) (members r')"
    by (simp add: registry_live_def Let_def r'_def)
  have "List.map_filter (\<lambda>p. weak_get h (snd p)) ms = map fst (filter (\<lambda>p. weak_get h (snd p) \<noteq> None) ms)"
    if "\<forall>(a, w) \<in> set ms. weak_get h w = None \<or> weak_get h w = Some a" for ms
    using that by (induction ms) (auto simp: List.map_filter_def)
  moreover have "\<forall>(a, w) \<in> set (members r'). weak_get h w = None \<or> weak_get h w = Some a"
    using addr by (auto simp: option.split_sel) (metis option.exhaust)
  ultimately have out': "fst (registry_live h found t r) = map fst (filter (\<lambda>p. weak_get h (snd p) \<noteq> None) (members r'))"
    using out by simp
  show "set (fst (registry_live h found t r)) = tracked h r'"
    unfolding out'
  proof (rule set_eqI)
    fix a
    have "a \<in> tracked h r' \<longleftrightarrow> (\<exists>w. (a, w) \<in> set (members r') \<and> weak_get h w \<noteq> None)"
      unfolding tracked_iff [OF ok] using addr by (metis not_None_eq)
    then show "a \<in> set (map fst (filter (\<lambda>p. weak_get h (snd p) \<noteq> None) (members r'))) \<longleftrightarrow> a \<in> tracked h r'"
      by (simp add: image_iff Bex_def split_beta)
  qed
  show "distinct (fst (registry_live h found t r))"
    unfolding out' using ok by (simp add: registry_ok_def distinct_map_filter)
  show "seeded (snd (registry_live h found t r))"
    by (simp add: registry_live_def Let_def registry_seed_def belt_due_def)
  note ok' = registry_ok_live [OF assms(1), of h found t]
  have "members (snd (registry_live h found t r)) = filter (\<lambda>p. weak_get h (snd p) \<noteq> None) (members r')"
    by (simp add: registry_live_def Let_def r'_def split_beta)
  then show "tracked h (snd (registry_live h found t r)) = tracked h r'"
    unfolding set_eq_iff tracked_iff [OF ok'] tracked_iff [OF ok] by fastforce
qed

section \<open>The world and the feed\<close>

text \<open>
  What happens between two reads: objects are constructed, in the game thread or the loading thread,
  seen by the construct callback or not; objects die; the custom-depth hook notes an image it meets; a
  tick drains what the loading thread staged; a list is read; a level is torn down. The last component
  collects the addresses of objects that no hook saw. \<open>next_serial\<close> is the engine's.
\<close>

definition find_all :: "heap \<Rightarrow> registry_kind \<Rightarrow> address option list \<Rightarrow> bool" where
  "find_all h k found \<longleftrightarrow> set found = Some ` alive_of h k"

record registry_world =
  objects :: heap
  next_serial :: nat
  the_feed :: feed
  unseen :: "address set"

definition new_registry_world :: registry_world where
  "new_registry_world = \<lparr>objects = (\<lambda>_. None), next_serial = 0, the_feed = new_feed, unseen = {}\<rparr>"

inductive registry_step :: "registry_world \<Rightarrow> registry_world \<Rightarrow> bool" where
  constructed:
    "objects w a = None \<Longrightarrow> h = (objects w)(a \<mapsto> \<lparr>serial = next_serial w, class_chain = chain\<rparr>) \<Longrightarrow>
     registry_step w (w\<lparr>objects := h, next_serial := next_serial w + 1,
       the_feed := registry_note_constructed h in_game_thread (Some a) (the_feed w), unseen := unseen w - {a}\<rparr>)"
| construct_unseen:
    "objects w a = None \<Longrightarrow>
     registry_step w (w\<lparr>objects := (objects w)(a \<mapsto> \<lparr>serial = next_serial w, class_chain = chain\<rparr>),
       next_serial := next_serial w + 1, unseen := insert a (unseen w)\<rparr>)"
| destroyed: "registry_step w (w\<lparr>objects := (objects w)(a := None)\<rparr>)"
| hooked: "kind_at (objects w) a = Some k \<Longrightarrow>
     registry_step w (w\<lparr>the_feed := (the_feed w)\<lparr>regs := (regs (the_feed w))(k := registry_add (objects w) (Some a) (regs (the_feed w) k))\<rparr>\<rparr>)"
| drained: "registry_step w (w\<lparr>the_feed := registry_drain_pending (objects w) (the_feed w)\<rparr>)"
| listed: "find_all (objects w) k found \<Longrightarrow>
     registry_step w (w\<lparr>the_feed := (the_feed w)\<lparr>regs := (regs (the_feed w))(k := snd (registry_live (objects w) found t (regs (the_feed w) k)))\<rparr>\<rparr>)"
| level_end: "registry_step w (w\<lparr>the_feed := clear_registries (the_feed w)\<rparr>)"

inductive registry_run :: "registry_world \<Rightarrow> bool" where
  start: "registry_run new_registry_world"
| step: "registry_run w \<Longrightarrow> registry_step w w' \<Longrightarrow> registry_run w'"

text \<open>
  The invariant: a weak pointer held for a kind never reaches an object of another kind, no serial
  number is from the future, and what is alive in a seeded registry's kind is tracked, staged or unseen.
\<close>

definition weak_ok :: "heap \<Rightarrow> nat \<Rightarrow> registry_kind \<Rightarrow> weak \<Rightarrow> bool" where
  "weak_ok h n k w \<longleftrightarrow> (\<forall>m. snd w = Some m \<longrightarrow> m < n) \<and> (\<forall>a. weak_get h w = Some a \<longrightarrow> kind_at h a = Some k)"

definition registry_world_ok :: "registry_world \<Rightarrow> bool" where
  "registry_world_ok w \<longleftrightarrow>
     (\<forall>a ob. objects w a = Some ob \<longrightarrow> serial ob < next_serial w) \<and>
     (\<forall>k. registry_ok (regs (the_feed w) k) \<and>
        (\<forall>p \<in> set (members (regs (the_feed w) k)). weak_ok (objects w) (next_serial w) k (snd p)) \<and>
        (seeded (regs (the_feed w) k) \<longrightarrow>
           alive_of (objects w) k \<subseteq> tracked (objects w) (regs (the_feed w) k) \<union> staged (objects w) k (the_feed w) \<union> unseen w)) \<and>
     (\<forall>(k, p) \<in> set (pending_adds (the_feed w)). weak_ok (objects w) (next_serial w) k p)"

lemma weak_ok_construct:
  assumes "h a = None" and "weak_ok h n k p"
  shows "weak_ok (h(a \<mapsto> \<lparr>serial = n, class_chain = c\<rparr>)) (n + 1) k p"
  using assms by (cases p) (auto simp: weak_ok_def weak_get_def serial_at_def kind_at_def less_Suc_eq split: if_splits)

lemma weak_ok_destroy: "weak_ok h n k p \<Longrightarrow> weak_ok (h(a := None)) n k p"
  by (cases p) (auto simp: weak_ok_def weak_get_def serial_at_def kind_at_def split: if_splits)

lemma weak_get_construct:
  assumes "h a = None" and "\<forall>m. snd p = Some m \<longrightarrow> m < n"
  shows "weak_get (h(a \<mapsto> \<lparr>serial = n, class_chain = c\<rparr>)) p = weak_get h p"
  using assms by (cases p) (auto simp: weak_get_def serial_at_def)

lemma weak_get_destroy: "weak_get (h(a := None)) p = Some b \<longleftrightarrow> weak_get h p = Some b \<and> a \<noteq> b"
  by (cases p) (auto simp: weak_get_def serial_at_def split: if_splits)

lemma weak_ok_of: "kind_at h a = Some k \<Longrightarrow> (\<forall>ob. h a = Some ob \<longrightarrow> serial ob < n) \<Longrightarrow> weak_ok h n k (weak_of h a)"
  by (auto simp: weak_ok_def weak_defs split: if_splits)

lemma set_members_add:
  "set (members (registry_add h (Some a) r)) \<subseteq> insert (a, weak_of h a) (set (members r))"
  using set_alist_update [of a "weak_of h a" "members r"] by (auto simp: registry_add_def)

lemma seeded_add [simp]: "seeded (registry_add h p r) = seeded r"
  by (simp add: registry_add_def split: option.split)

lemma kind_at_alive: "kind_at h a = Some k \<Longrightarrow> h a \<noteq> None"
  by (cases "h a") (auto simp: kind_at_def)


lemma tracked_heap:
  "\<forall>p \<in> set (members r). weak_get h' (snd p) = weak_get h (snd p) \<Longrightarrow> tracked h' r = tracked h r"
  unfolding tracked_def by (metis map_of_SomeD snd_conv)

lemma tracked_destroy: "tracked (h(a := None)) r = tracked h r - {a}"
  by (auto simp: tracked_def weak_get_destroy)

lemma staged_heap:
  "\<forall>p \<in> set (pending_adds f). weak_get h' (snd p) = weak_get h (snd p) \<Longrightarrow> staged h' k f = staged h k f"
  unfolding staged_def by (metis snd_conv)

lemma staged_destroy: "staged (h(a := None)) k f = staged h k f - {a}"
  by (auto simp: staged_def weak_get_destroy)

lemma alive_construct:
  "h a = None \<Longrightarrow> alive_of (h(a \<mapsto> \<lparr>serial = n, class_chain = c\<rparr>)) k =
     (if registry_for_class c = Some k then insert a (alive_of h k) else alive_of h k)"
  by (auto simp: alive_of_def kind_at_def split: if_splits)

lemma alive_destroy: "alive_of (h(a := None)) k = alive_of h k - {a}"
  by (auto simp: alive_of_def kind_at_def split: if_splits)

text \<open>One kind's half of the invariant.\<close>

definition kind_inv :: "heap \<Rightarrow> nat \<Rightarrow> registry_kind \<Rightarrow> registry \<Rightarrow> bool" where
  "kind_inv h n k r \<longleftrightarrow> registry_ok r \<and> (\<forall>p \<in> set (members r). weak_ok h n k (snd p))"

lemma kind_inv_add:
  assumes "kind_inv h n k r" and "kind_at h a = Some k" and "\<forall>ob. h a = Some ob \<longrightarrow> serial ob < n"
  shows "kind_inv h n k (registry_add h (Some a) r)"
  using assms set_members_add [of h a r] weak_ok_of [OF assms(2,3)] registry_ok_add [of r h "Some a"]
  by (auto simp: kind_inv_def)

lemma members_seed:
  assumes "(a, w) \<in> set (members (registry_seed h found t r))"
  shows "Some a \<in> set found \<and> w = weak_of h a"
proof -
  have "map_of (members (registry_seed h found t r)) a = Some w"
    using registry_ok_seed [of h found t r] assms by (simp add: registry_ok_def)
  then show ?thesis by (simp add: registry_seed_def map_of_seed split: if_splits)
qed

lemma kind_inv_live:
  assumes "kind_inv h n k r" and "find_all h k found" and "\<forall>a ob. h a = Some ob \<longrightarrow> serial ob < n"
  shows "kind_inv h n k (snd (registry_live h found t r))"
proof -
  have "weak_ok h n k w" if "(a, w) \<in> set (members (registry_seed h found t r))" for a w
  proof -
    have "a \<in> alive_of h k" "w = weak_of h a" using members_seed [OF that] assms(2) by (auto simp: find_all_def)
    then show ?thesis using weak_ok_of [of h a k n] assms(3) by (auto simp: alive_of_def)
  qed
  then show ?thesis
    using assms(1) registry_ok_live [of r h found t] unfolding kind_inv_def
    by (auto simp: registry_live_def Let_def)
qed

lemma kind_inv_construct:
  "kind_inv h n k r \<Longrightarrow> h a = None \<Longrightarrow> kind_inv (h(a \<mapsto> \<lparr>serial = n, class_chain = c\<rparr>)) (n + 1) k r"
  using weak_ok_construct [of h a n k _ c] by (auto simp: kind_inv_def)

lemma kind_inv_destroy: "kind_inv h n k r \<Longrightarrow> kind_inv (h(a := None)) n k r"
  using weak_ok_destroy [of h n k _ a] by (auto simp: kind_inv_def)

lemma kind_inv_clear [simp]: "kind_inv h n k (registry_clear r)"
  by (simp add: kind_inv_def) (simp add: registry_clear_def)

lemma registry_world_ok_iff:
  "registry_world_ok w \<longleftrightarrow>
     (\<forall>a ob. objects w a = Some ob \<longrightarrow> serial ob < next_serial w) \<and>
     (\<forall>k. kind_inv (objects w) (next_serial w) k (regs (the_feed w) k)) \<and>
     (\<forall>k. seeded (regs (the_feed w) k) \<longrightarrow>
        alive_of (objects w) k \<subseteq> tracked (objects w) (regs (the_feed w) k) \<union> staged (objects w) k (the_feed w) \<union> unseen w) \<and>
     (\<forall>p \<in> set (pending_adds (the_feed w)). weak_ok (objects w) (next_serial w) (fst p) (snd p))"
  by (auto simp: registry_world_ok_def kind_inv_def split_beta)

lemma staged_regs [simp]: "staged h k (f\<lparr>regs := rs\<rparr>) = staged h k f"
  by (simp add: staged_def)

lemma staged_Nil: "pending_adds f = [] \<Longrightarrow> staged h k f = {}"
  by (simp add: staged_def)

lemma staged_Cons:
  "pending_adds f = p # ps \<Longrightarrow>
   staged h k f = (if fst p = k then set_option (weak_get h (snd p)) else {}) \<union> staged h k (f\<lparr>pending_adds := ps\<rparr>)"
  by (cases p) (auto simp: staged_def)

lemma staged_snoc:
  "staged h k (f\<lparr>pending_adds := pending_adds f @ [p]\<rparr>) =
   staged h k f \<union> (if fst p = k then set_option (weak_get h (snd p)) else {})"
  by (cases p) (auto simp: staged_def)

lemma alive_none: "h a = None \<Longrightarrow> a \<notin> alive_of h k"
  by (simp add: alive_of_def kind_at_def)

definition covers :: "registry_world \<Rightarrow> registry_kind \<Rightarrow> address set" where
  "covers w k = tracked (objects w) (regs (the_feed w) k) \<union> staged (objects w) k (the_feed w) \<union> unseen w"

lemma registry_world_okI:
  assumes "\<And>a ob. objects w a = Some ob \<Longrightarrow> serial ob < next_serial w"
    and "\<And>k. kind_inv (objects w) (next_serial w) k (regs (the_feed w) k)"
    and "\<And>k. seeded (regs (the_feed w) k) \<Longrightarrow> alive_of (objects w) k \<subseteq> covers w k"
    and "\<And>p. p \<in> set (pending_adds (the_feed w)) \<Longrightarrow> weak_ok (objects w) (next_serial w) (fst p) (snd p)"
  shows "registry_world_ok w"
  using assms by (simp add: registry_world_ok_iff covers_def)

lemma registry_world_okD:
  assumes "registry_world_ok w"
  shows "objects w a = Some ob \<Longrightarrow> serial ob < next_serial w"
    and "kind_inv (objects w) (next_serial w) k (regs (the_feed w) k)"
    and "seeded (regs (the_feed w) k) \<Longrightarrow> alive_of (objects w) k \<subseteq> covers w k"
    and "p \<in> set (pending_adds (the_feed w)) \<Longrightarrow> weak_ok (objects w) (next_serial w) (fst p) (snd p)"
  using assms by (simp_all add: registry_world_ok_iff covers_def)

text \<open>Registering an object that is there keeps the invariant; so does draining what was staged.\<close>

definition add_at :: "address \<Rightarrow> registry_kind \<Rightarrow> registry_world \<Rightarrow> registry_world" where
  "add_at a k w = w\<lparr>the_feed := (the_feed w)\<lparr>regs := (regs (the_feed w))(k := registry_add (objects w) (Some a) (regs (the_feed w) k))\<rparr>\<rparr>"

lemma covers_add:
  "kind_at (objects w) a = Some k \<Longrightarrow> covers (add_at a k w) j = (if j = k then insert a (covers w j) else covers w j)"
  using tracked_add [of "objects w" a] kind_at_alive [of "objects w" a k] by (auto simp: covers_def add_at_def)

lemma ok_add:
  assumes w: "registry_world_ok w" and k: "kind_at (objects w) a = Some k"
  shows "registry_world_ok (add_at a k w)"
proof (rule registry_world_okI)
  fix j
  show "kind_inv (objects (add_at a k w)) (next_serial (add_at a k w)) j (regs (the_feed (add_at a k w)) j)"
    using registry_world_okD(2) [OF w, of j] kind_inv_add [OF registry_world_okD(2) [OF w] k] registry_world_okD(1) [OF w, of a]
    by (simp add: add_at_def)
  show "alive_of (objects (add_at a k w)) j \<subseteq> covers (add_at a k w) j" if "seeded (regs (the_feed (add_at a k w)) j)"
    using that registry_world_okD(3) [OF w, of j] unfolding covers_add [of w, OF k] by (auto simp: add_at_def split: if_splits)
qed (use registry_world_okD(1,4) [OF w] in \<open>simp_all add: add_at_def\<close>)

definition unstage :: "registry_world \<Rightarrow> registry_world" where
  "unstage w = w\<lparr>the_feed := (the_feed w)\<lparr>pending_adds := tl (pending_adds (the_feed w))\<rparr>\<rparr>"

lemma ok_unstage:
  assumes w: "registry_world_ok w" and p: "pending_adds (the_feed w) = (k, q) # ps"
    and q: "set_option (weak_get (objects w) q) \<subseteq> tracked (objects w) (regs (the_feed w) k)"
  shows "registry_world_ok (unstage w)"
proof (rule registry_world_okI)
  fix j
  have "covers w j \<subseteq> covers (unstage w) j"
    using q unfolding covers_def staged_Cons [OF p] by (auto simp: unstage_def p split: if_splits)
  then show "alive_of (objects (unstage w)) j \<subseteq> covers (unstage w) j" if "seeded (regs (the_feed (unstage w)) j)"
    using that registry_world_okD(3) [OF w, of j] by (simp add: unstage_def)
qed (use registry_world_okD(1,2,4) [OF w] in \<open>simp_all add: unstage_def p\<close>)

lemma ok_drain:
  assumes "registry_world_ok w"
  shows "registry_world_ok (w\<lparr>the_feed := registry_drain_pending (objects w) (the_feed w)\<rparr>)"
proof -
  have "registry_world_ok (w\<lparr>the_feed := (the_feed w)\<lparr>regs := fold (drain_add (objects w)) ps (regs (the_feed w)), pending_adds := []\<rparr>\<rparr>)"
    if "registry_world_ok w" "pending_adds (the_feed w) = ps" for ps w
    using that
  proof (induction ps arbitrary: w)
    case Nil
    then have "(the_feed w)\<lparr>pending_adds := []\<rparr> = the_feed w" by (cases "the_feed w") simp
    then have e: "w\<lparr>the_feed := (the_feed w)\<lparr>pending_adds := []\<rparr>\<rparr> = w" by simp
    show ?case using Nil(1) by (simp add: e)
  next
    case (Cons p ps)
    obtain k q where p: "p = (k, q)" by (cases p)
    define u where "u = (case weak_get (objects w) q of None \<Rightarrow> w | Some a \<Rightarrow> add_at a k w)"
    have kind: "kind_at (objects w) a = Some k" if "weak_get (objects w) q = Some a" for a
      using registry_world_okD(4) [OF Cons.prems(1), of p] Cons.prems(2) that by (simp add: p weak_ok_def)
    have "registry_world_ok u"
      using Cons.prems(1) ok_add kind by (simp add: u_def split: option.split)
    moreover have "set_option (weak_get (objects u) q) \<subseteq> tracked (objects u) (regs (the_feed u) k)"
      using kind tracked_add [of "objects w"] kind_at_alive [of "objects w"]
      by (auto simp: u_def add_at_def split: option.split)
    moreover have "pending_adds (the_feed u) = (k, q) # ps"
      using Cons.prems(2) by (simp add: u_def add_at_def p split: option.split)
    ultimately have "registry_world_ok (unstage u)" "pending_adds (the_feed (unstage u)) = ps"
      using ok_unstage [of u k q ps] by (simp_all, simp add: unstage_def)
    from Cons.IH [OF this] show ?case
      by (cases "weak_get (objects w) q") (simp_all add: unstage_def u_def add_at_def p drain_add_def fun_upd_def)
  qed
  from this [OF assms] show ?thesis by (simp add: registry_drain_pending_def)
qed

text \<open>Construction, unseen and seen.\<close>

definition construct_at :: "address \<Rightarrow> string list \<Rightarrow> registry_world \<Rightarrow> registry_world" where
  "construct_at a c w = w\<lparr>objects := (objects w)(a \<mapsto> \<lparr>serial = next_serial w, class_chain = c\<rparr>), next_serial := next_serial w + 1\<rparr>"

lemma construct_keeps:
  assumes w: "registry_world_ok w" and a: "objects w a = None"
  shows "kind_inv (objects (construct_at a c w)) (next_serial (construct_at a c w)) k (regs (the_feed w) k)"
    and "p \<in> set (pending_adds (the_feed w)) \<Longrightarrow> weak_ok (objects (construct_at a c w)) (next_serial (construct_at a c w)) (fst p) (snd p)"
    and "objects (construct_at a c w) b = Some ob \<Longrightarrow> serial ob < next_serial (construct_at a c w)"
    and "seeded (regs (the_feed w) k) \<Longrightarrow> alive_of (objects w) k \<subseteq> covers (construct_at a c w) k"
    and "alive_of (objects (construct_at a c w)) k = (if registry_for_class c = Some k then insert a (alive_of (objects w) k) else alive_of (objects w) k)"
    and "a \<notin> alive_of (objects w) k"
proof -
  let ?h = "objects (construct_at a c w)"
  have mem: "\<forall>p \<in> set (members (regs (the_feed w) k)). weak_get ?h (snd p) = weak_get (objects w) (snd p)"
    using registry_world_okD(2) [OF w, of k] a by (auto simp: construct_at_def kind_inv_def weak_ok_def intro!: weak_get_construct)
  have pend: "\<forall>p \<in> set (pending_adds (the_feed w)). weak_get ?h (snd p) = weak_get (objects w) (snd p)"
    using registry_world_okD(4) [OF w] a by (auto simp: construct_at_def weak_ok_def intro!: weak_get_construct)
  show "seeded (regs (the_feed w) k) \<Longrightarrow> alive_of (objects w) k \<subseteq> covers (construct_at a c w) k"
    using registry_world_okD(3) [OF w, of k] tracked_heap [OF mem] staged_heap [OF pend]
    by (simp add: covers_def) (simp add: construct_at_def)
  show "kind_inv ?h (next_serial (construct_at a c w)) k (regs (the_feed w) k)"
    using kind_inv_construct [OF registry_world_okD(2) [OF w]] a by (simp add: construct_at_def)
  show "p \<in> set (pending_adds (the_feed w)) \<Longrightarrow> weak_ok ?h (next_serial (construct_at a c w)) (fst p) (snd p)"
    using weak_ok_construct [of "objects w" a "next_serial w"] registry_world_okD(4) [OF w] a by (simp add: construct_at_def)
  show "?h b = Some ob \<Longrightarrow> serial ob < next_serial (construct_at a c w)"
    using registry_world_okD(1) [OF w, of b ob] by (auto simp: construct_at_def split: if_splits)
  show "alive_of ?h k = (if registry_for_class c = Some k then insert a (alive_of (objects w) k) else alive_of (objects w) k)"
    using alive_construct [of "objects w" a] a by (simp add: construct_at_def)
  show "a \<notin> alive_of (objects w) k" using alive_none [of "objects w" a] a by simp
qed

lemma ok_construct_unseen:
  assumes "registry_world_ok w" and "objects w a = None"
  shows "registry_world_ok ((construct_at a c w)\<lparr>unseen := insert a (unseen w)\<rparr>)"
proof (rule registry_world_okI)
  fix k
  show "alive_of (objects ((construct_at a c w)\<lparr>unseen := insert a (unseen w)\<rparr>)) k \<subseteq> covers ((construct_at a c w)\<lparr>unseen := insert a (unseen w)\<rparr>) k"
    if "seeded (regs (the_feed ((construct_at a c w)\<lparr>unseen := insert a (unseen w)\<rparr>)) k)"
    using construct_keeps(4,5) [OF assms, where k = k and c = c] that by (auto simp: covers_def construct_at_def)
qed (use construct_keeps(1-3) [OF assms, where c = c] in \<open>simp_all add: construct_at_def\<close>)

definition noted :: "address \<Rightarrow> string list \<Rightarrow> bool \<Rightarrow> registry_world \<Rightarrow> registry_world" where
  "noted a c g w = (let u = construct_at a c w in
     u\<lparr>the_feed := registry_note_constructed (objects u) g (Some a) (the_feed u), unseen := unseen u - {a}\<rparr>)"

lemma noted_feed:
  "the_feed (noted a c g w) =
     (case registry_for_class c of
        None \<Rightarrow> the_feed w
      | Some k \<Rightarrow>
          if g then (the_feed w)\<lparr>regs := (regs (the_feed w))(k := registry_add (objects (construct_at a c w)) (Some a) (regs (the_feed w) k))\<rparr>
          else (the_feed w)\<lparr>pending_adds := pending_adds (the_feed w) @ [(k, weak_of (objects (construct_at a c w)) a)]\<rparr>)"
  by (simp add: noted_def Let_def registry_note_constructed_def construct_at_def split: option.split)

lemma noted_other [simp]:
  "objects (noted a c g w) = objects (construct_at a c w)" "next_serial (noted a c g w) = next_serial (construct_at a c w)"
  "unseen (noted a c g w) = unseen w - {a}"
  by (simp_all add: noted_def Let_def) (simp add: construct_at_def)

lemma kind_at_construct [simp]: "kind_at (objects (construct_at a c w)) a = registry_for_class c"
  by (simp add: construct_at_def kind_at_def)

lemma covers_noted:
  "covers (construct_at a c w) k - {a} \<union> (if registry_for_class c = Some k then {a} else {}) \<subseteq> covers (noted a c g w) k"
proof -
  have ne: "objects (construct_at a c w) a \<noteq> None" by (simp add: construct_at_def)
  have eq: "the_feed (construct_at a c w) = the_feed w" "unseen (construct_at a c w) = unseen w" by (simp_all add: construct_at_def)
  show ?thesis
    using tracked_add [of "objects (construct_at a c w)" a] ne
    by (cases "registry_for_class c") (auto simp: covers_def noted_feed eq staged_snoc weak_get_of split: if_splits)
qed

lemma ok_noted:
  assumes w: "registry_world_ok w" and a: "objects w a = None"
  shows "registry_world_ok (noted a c g w)"
proof (rule registry_world_okI)
  note keep = construct_keeps(1-5) [OF w a, where c = c] construct_keeps(6) [OF w a]
  have kind: "kind_at (objects (construct_at a c w)) a = registry_for_class c" by simp
  have ser: "\<forall>ob. objects (construct_at a c w) a = Some ob \<longrightarrow> serial ob < next_serial (construct_at a c w)" using keep(3) by blast
  show "serial ob < next_serial (noted a c g w)" if "objects (noted a c g w) b = Some ob" for b ob
    using that keep(3) by simp
  show "kind_inv (objects (noted a c g w)) (next_serial (noted a c g w)) k (regs (the_feed (noted a c g w)) k)" for k
    using keep(1) [of k] kind_inv_add [OF keep(1), of a k] ser by (simp add: noted_feed split: option.split)
  show "weak_ok (objects (noted a c g w)) (next_serial (noted a c g w)) (fst p) (snd p)"
    if "p \<in> set (pending_adds (the_feed (noted a c g w)))" for p
    using that keep(2) [of p] weak_ok_of [of "objects (construct_at a c w)" a _ "next_serial (construct_at a c w)"] ser
    by (auto simp: noted_feed split: option.splits if_splits)
  show "alive_of (objects (noted a c g w)) k \<subseteq> covers (noted a c g w) k" if "seeded (regs (the_feed (noted a c g w)) k)" for k
  proof -
    have "seeded (regs (the_feed w) k)" using that by (auto simp: noted_feed split: option.splits if_splits)
    from keep(4) [OF this] keep(5,6) [of k] covers_noted [of a c w k g] show ?thesis by (auto split: if_splits)
  qed
qed

lemma ok_destroy:
  assumes w: "registry_world_ok w"
  shows "registry_world_ok (w\<lparr>objects := (objects w)(a := None)\<rparr>)"
proof (rule registry_world_okI)
  fix k
  show "alive_of (objects (w\<lparr>objects := (objects w)(a := None)\<rparr>)) k \<subseteq> covers (w\<lparr>objects := (objects w)(a := None)\<rparr>) k"
    if "seeded (regs (the_feed (w\<lparr>objects := (objects w)(a := None)\<rparr>)) k)"
    using registry_world_okD(3) [OF w, of k] that by (auto simp: covers_def alive_destroy tracked_destroy staged_destroy)
qed (use registry_world_okD(1,2,4) [OF w] kind_inv_destroy weak_ok_destroy in \<open>auto split: if_splits\<close>)

definition read_at :: "registry_kind \<Rightarrow> address option list \<Rightarrow> u64 \<Rightarrow> registry_world \<Rightarrow> registry_world" where
  "read_at k found t w = w\<lparr>the_feed := (the_feed w)\<lparr>regs := (regs (the_feed w))(k := snd (registry_live (objects w) found t (regs (the_feed w) k)))\<rparr>\<rparr>"

lemma live_tracks:
  assumes "registry_world_ok w" and "find_all (objects w) k found"
  shows "tracked (objects w) (snd (registry_live (objects w) found t (regs (the_feed w) k))) =
    (if belt_due t (regs (the_feed w) k) then alive_of (objects w) k else tracked (objects w) (regs (the_feed w) k))"
  using live_result(3) [of "regs (the_feed w) k" "objects w" found t] registry_world_okD(2) [OF assms(1), of k] assms(2)
    kind_at_alive [of "objects w" _ k]
  by (auto simp: kind_inv_def tracked_seed find_all_def alive_of_def)

lemma ok_live:
  assumes w: "registry_world_ok w" and f: "find_all (objects w) k found"
  shows "registry_world_ok (read_at k found t w)"
proof (rule registry_world_okI)
  fix j
  have "\<not> belt_due t (regs (the_feed w) k) \<Longrightarrow> seeded (regs (the_feed w) k)" by (simp add: belt_due_def)
  then show "alive_of (objects (read_at k found t w)) j \<subseteq> covers (read_at k found t w) j" if "seeded (regs (the_feed (read_at k found t w)) j)"
    using registry_world_okD(3) [OF w, of j] that live_tracks [OF w f, of t]
    by (auto simp: covers_def read_at_def split: if_splits)
  show "kind_inv (objects (read_at k found t w)) (next_serial (read_at k found t w)) j (regs (the_feed (read_at k found t w)) j)"
    using registry_world_okD(2) [OF w, of j] kind_inv_live [OF registry_world_okD(2) [OF w] f] registry_world_okD(1) [OF w]
    by (simp add: read_at_def)
qed (use registry_world_okD(1,4) [OF w] in \<open>simp_all add: read_at_def\<close>)

lemma ok_clear:
  assumes w: "registry_world_ok w"
  shows "registry_world_ok (w\<lparr>the_feed := clear_registries (the_feed w)\<rparr>)"
proof (rule registry_world_okI)
  fix k
  show "alive_of (objects (w\<lparr>the_feed := clear_registries (the_feed w)\<rparr>)) k \<subseteq> covers (w\<lparr>the_feed := clear_registries (the_feed w)\<rparr>) k"
    if "seeded (regs (the_feed (w\<lparr>the_feed := clear_registries (the_feed w)\<rparr>)) k)"
    using that by (simp add: clear_registries_def registry_clear_def)
qed (use registry_world_okD(1,4) [OF w] in \<open>simp_all add: clear_registries_def\<close>)

lemma registry_run_ok: "registry_run w \<Longrightarrow> registry_world_ok w"
proof (induction rule: registry_run.induct)
  case start
  show ?case
    by (rule registry_world_okI) (simp_all add: new_registry_world_def new_feed_def kind_inv_def, simp_all add: new_registry_def)
next
  case (step w w')
  from step.hyps(2) show ?case
  proof (cases rule: registry_step.cases)
    case (constructed a h chain g)
    then show ?thesis using ok_noted [OF step.IH, of a chain g] by (simp add: noted_def construct_at_def Let_def)
  next
    case (construct_unseen a chain)
    then show ?thesis using ok_construct_unseen [OF step.IH, of a chain] by (simp add: construct_at_def)
  next
    case (hooked a k)
    then show ?thesis using ok_add [OF step.IH, of a k] by (simp add: add_at_def)
  next
    case (listed k found t)
    then show ?thesis using ok_live [OF step.IH, of k found t] by (simp add: read_at_def)
  qed (simp_all add: ok_destroy [OF step.IH] ok_drain [OF step.IH] ok_clear [OF step.IH])
qed

text \<open>
  Property C5. A registry answers what a whole-world search would. After any sequence of
  constructions, deaths, address reuse, drains, reads and level changes, the list a registry gives
  holds each object once, only live objects of its class, and every one of them that the callback saw
  and no queue still stages; when the belt is due it holds them all, seen or not.
\<close>

theorem registry_answers_find_all:
  assumes "registry_run w" and "find_all (objects w) k found"
  shows "let out = fst (registry_live (objects w) found t (regs (the_feed w) k)) in
    distinct out \<and> set out \<subseteq> alive_of (objects w) k \<and>
    alive_of (objects w) k - unseen w - staged (objects w) k (the_feed w) \<subseteq> set out \<and>
    (belt_due t (regs (the_feed w) k) \<longrightarrow> set out = alive_of (objects w) k)"
proof -
  note ok = registry_run_ok [OF assms(1)]
  have r: "registry_ok (regs (the_feed w) k)" using registry_world_okD(2) [OF ok, of k] by (simp add: kind_inv_def)
  have out: "set (fst (registry_live (objects w) found t (regs (the_feed w) k))) =
      (if belt_due t (regs (the_feed w) k) then alive_of (objects w) k else tracked (objects w) (regs (the_feed w) k))"
    using live_result(1,3) [OF r, of "objects w" found t] live_tracks [OF ok assms(2), of t] by simp
  have "tracked (objects w) (regs (the_feed w) k) \<subseteq> alive_of (objects w) k"
    using registry_world_okD(2) [OF ok, of k] by (force simp: tracked_def kind_inv_def weak_ok_def alive_of_def dest: map_of_SomeD)
  moreover have "alive_of (objects w) k - unseen w - staged (objects w) k (the_feed w) \<subseteq> tracked (objects w) (regs (the_feed w) k)"
    if "\<not> belt_due t (regs (the_feed w) k)"
    using registry_world_okD(3) [OF ok, of k] that by (auto simp: covers_def belt_due_def)
  ultimately show ?thesis using out live_result(2) [OF r] by (auto simp: Let_def)
qed

text \<open>An address used again: a component at 7 dies, an actor of no registry takes its place, another component comes up at 8.\<close>

definition sample_world :: registry_world where
  "sample_world =
     (let w = noted 8 [''NiagaraComponent'', ''ActorComponent''] True
                ((noted 7 [''NiagaraComponent''] True new_registry_world)\<lparr>objects := (objects (noted 7 [''NiagaraComponent''] True new_registry_world))(7 := None)\<rparr>)
      in noted 7 [''Actor''] True w)"

lemma run_noted: "registry_run w \<Longrightarrow> objects w a = None \<Longrightarrow> registry_run (noted a c g w)"
  using registry_run.step [of w "noted a c g w"] registry_step.constructed [of w a _ c g]
  by (simp add: noted_def construct_at_def Let_def)

lemma run_destroyed: "registry_run w \<Longrightarrow> registry_run (w\<lparr>objects := (objects w)(a := None)\<rparr>)"
  by (rule registry_run.step [OF _ registry_step.destroyed])

lemma sample_world_run: "registry_run sample_world"
  unfolding sample_world_def Let_def
  by (intro run_noted run_destroyed registry_run.start) (simp_all add: construct_at_def new_registry_world_def)

theorem registry_answers_find_all_witness:
  "set (fst (registry_live (objects sample_world) [Some 8] 900 (regs (the_feed sample_world) Niagara))) = {8}"
proof -
  have alive: "alive_of (objects sample_world) Niagara = {8}"
    by (auto simp: alive_of_def kind_at_def sample_world_def construct_at_def new_registry_world_def Let_def registry_kinds_def split: if_splits)
  then have "find_all (objects sample_world) Niagara [Some 8]" by (simp add: find_all_def)
  moreover have "belt_due 900 (regs (the_feed sample_world) Niagara)"
    by (simp add: belt_due_def sample_world_def noted_feed registry_kinds_def Let_def)
       (simp add: new_registry_world_def new_feed_def new_registry_def)
  ultimately show ?thesis
    using registry_answers_find_all [OF sample_world_run, of Niagara "[Some 8]" 900] by (simp add: alive Let_def)
qed

section \<open>Caches over a registry's list\<close>

text \<open>
  A scan keeps what it found out about each object it met, and asks again only about those it has not
  met: \<open>visit\<close> is what it does to the map it rebuilds, \<open>look\<close> what it would find out by asking.
\<close>

locale identity_cache =
  fixes look :: "'v \<Rightarrow> 'i"
    and visit :: "(address \<Rightarrow> 'i option) \<Rightarrow> 'v \<Rightarrow> address \<Rightarrow> (address \<Rightarrow> 'i option) \<Rightarrow> (address \<Rightarrow> 'i option)"
  assumes visit_known: "cache a = Some i \<Longrightarrow> live a = None \<Longrightarrow> visit cache v a live = live(a \<mapsto> i)"
    and visit_new: "cache a = None \<Longrightarrow> live a = None \<Longrightarrow> visit cache v a live = live(a \<mapsto> look v)"
begin

definition rebuilt :: "(address \<Rightarrow> 'i option) \<Rightarrow> (address \<Rightarrow> 'v) \<Rightarrow> address list \<Rightarrow> address \<Rightarrow> 'i option" where
  "rebuilt cache view as = fold (\<lambda>a. visit cache (view a) a) as (\<lambda>_. None)"

lemma rebuilt_step:
  assumes "distinct as" and "set as \<inter> dom live = {}"
  shows "fold (\<lambda>a. visit cache (view a) a) as live a =
    (if a \<in> set as then Some (case cache a of Some i \<Rightarrow> i | None \<Rightarrow> look (view a)) else live a)"
  using assms
proof (induction as arbitrary: live)
  case (Cons b as)
  have "visit cache (view b) b live = live(b \<mapsto> (case cache b of Some i \<Rightarrow> i | None \<Rightarrow> look (view b)))"
    using Cons.prems(2) visit_known [of cache b] visit_new [of cache b live] by (cases "cache b") auto
  moreover have "set as \<inter> dom (live(b \<mapsto> (case cache b of Some i \<Rightarrow> i | None \<Rightarrow> look (view b)))) = {}"
    using Cons.prems by auto
  ultimately show ?case using Cons.IH Cons.prems(1) by auto
qed simp

lemma rebuilt_lookup:
  "distinct as \<Longrightarrow> rebuilt cache view as a =
     (if a \<in> set as then Some (case cache a of Some i \<Rightarrow> i | None \<Rightarrow> look (view a)) else None)"
  by (simp add: rebuilt_def rebuilt_step)

text \<open>While nothing listed has changed under its address, the cache says what asking would.\<close>

lemma rebuilt_exact:
  assumes "distinct as" and "\<And>a i. a \<in> set as \<Longrightarrow> cache a = Some i \<Longrightarrow> i = look (view a)"
  shows "rebuilt cache view as a = (if a \<in> set as then Some (look (view a)) else None)"
  using assms by (auto simp: rebuilt_lookup split: option.split)

end

end
