(* ===== verification/Local_State.thy ===== *)
theory Local_State
  imports Session Registry
begin

text \<open>
  What the mod reads off the local player each game tick and writes as the \<^verbatim>\<open>local_state\<close> line
  (\<^verbatim>\<open>Plugin::game_thread_tick\<close>, from the level's name to \<^verbatim>\<open>cached_local_state_json\<close>). The reads are
  arguments: a property or object that is not there is \<open>None\<close>. The state is what the code keeps in
  statics and members between ticks. Blocks behind a constant that ships as false (traces, the blink
  count, the reconstructed trail triggers) are left out.
\<close>

section \<open>Names and places\<close>

definition contains :: "string \<Rightarrow> string \<Rightarrow> bool" where
  "contains s needle \<longleftrightarrow> str_find s needle 0 \<noteq> None"

text \<open>A full name is a class and a path; the path crosses the wire.\<close>

definition asset_path :: "string \<Rightarrow> string" where
  "asset_path full_name = (case str_find full_name '' '' 0 of None \<Rightarrow> full_name | Some p \<Rightarrow> drop (p + 1) full_name)"

definition worn_mesh :: "string option \<Rightarrow> string" where
  "worn_mesh mesh = (case mesh of None \<Rightarrow> [] | Some full_name \<Rightarrow> asset_path full_name)"

definition area_of :: "string option \<Rightarrow> string" where
  "area_of level = (case level of None \<Rightarrow> [] | Some full_name \<Rightarrow> full_name)"

definition NON_GAMEPLAY_MAP_FRAGMENTS :: "string list" where
  "NON_GAMEPLAY_MAP_FRAGMENTS = [''TitleScreen'']"

definition in_non_gameplay_map :: "string \<Rightarrow> bool" where
  "in_non_gameplay_map area = list_ex (contains area) NON_GAMEPLAY_MAP_FRAGMENTS"

definition sum_sq :: "triple \<Rightarrow> dbl" where
  "sum_sq v = (case v of (x, y, z) \<Rightarrow> dbl_add (dbl_add (dbl_mult x x) (dbl_mult y y)) (dbl_mult z z))"

definition sub3 :: "triple \<Rightarrow> triple \<Rightarrow> triple" where
  "sub3 v w = (case v of (x, y, z) \<Rightarrow> case w of (x', y', z') \<Rightarrow> (dbl_sub x x', dbl_sub y y', dbl_sub z z'))"

section \<open>Landings, jumps and montages\<close>

record local_pulses =
  landed_count :: u32
  jumped_count :: u32
  prev_landed_raw :: bool
  prev_jumped_raw :: bool

definition count_pulses :: "bool \<Rightarrow> bool \<Rightarrow> local_pulses \<Rightarrow> local_pulses" where
  "count_pulses landed_now jumped_now p =
     p\<lparr>landed_count := (if landed_now \<and> \<not> prev_landed_raw p then landed_count p + 1 else landed_count p),
       jumped_count := (if jumped_now \<and> \<not> prev_jumped_raw p then jumped_count p + 1 else jumped_count p),
       prev_landed_raw := landed_now, prev_jumped_raw := jumped_now\<rparr>"

record local_montages =
  started_count :: u32
  stopped_count :: u32
  prev_local_montage :: string

text \<open>\<open>None\<close>: no anim instance, or no getter; the getter says \<^verbatim>\<open>none\<close> for no montage.\<close>

definition montage_path :: "string option \<Rightarrow> string" where
  "montage_path name = (case name of None \<Rightarrow> [] | Some m \<Rightarrow> if m = [] \<or> m = ''none'' then [] else asset_path m)"

definition count_montages :: "string \<Rightarrow> local_montages \<Rightarrow> local_montages" where
  "count_montages path m =
     m\<lparr>stopped_count := (if path = [] \<and> prev_local_montage m \<noteq> [] then stopped_count m + 1 else stopped_count m),
       started_count := (if path \<noteq> [] \<and> path \<noteq> prev_local_montage m then started_count m + 1 else started_count m),
       prev_local_montage := path\<rparr>"

section \<open>The player's shot\<close>

record local_shot =
  shot_pool :: "weak list"
  shot_active :: bool
  shot_vfx :: string
  shot_pos :: triple
  shot_rot :: triple

text \<open>A pooled cutter: \<open>cutter_movement\<close> is whether its movement component, if it has one, is active.\<close>

record cutter =
  cutter_root :: bool
  cutter_instigator :: "address option option"
  cutter_movement :: "bool option"
  cutter_hidden :: "bool option"
  cutter_pos :: triple
  cutter_rot :: triple
  cutter_assets :: "string option list"

definition PROJECTILE_SAMPLE_INTERVAL_TICKS :: u64 where "PROJECTILE_SAMPLE_INTERVAL_TICKS = 3"
definition PROJECTILE_RESCAN_INTERVAL_TICKS :: u64 where "PROJECTILE_RESCAN_INTERVAL_TICKS = 30"

definition shot_in_flight :: "address \<Rightarrow> cutter \<Rightarrow> bool" where
  "shot_in_flight pawn c \<longleftrightarrow>
     cutter_root c \<and> cutter_instigator c = Some (Some pawn) \<and>
     (case cutter_movement c of Some active \<Rightarrow> active | None \<Rightarrow> cutter_hidden c \<noteq> Some True)"

text \<open>The first object property that holds a component with an asset names the effect.\<close>

definition cutter_vfx :: "cutter \<Rightarrow> string \<Rightarrow> string" where
  "cutter_vfx c old = (case List.map_filter id (cutter_assets c) of [] \<Rightarrow> old | full_name # _ \<Rightarrow> asset_path full_name)"

definition sample_shot ::
  "u64 \<Rightarrow> heap \<Rightarrow> (address \<Rightarrow> cutter) \<Rightarrow> address \<Rightarrow> address option list \<Rightarrow> local_shot \<Rightarrow> local_shot" where
  "sample_shot tick h cutter_at pawn found s =
     (if tick mod PROJECTILE_SAMPLE_INTERVAL_TICKS \<noteq> 0 then s
      else
        let s = s\<lparr>shot_active := False\<rparr>;
            s = (if tick mod PROJECTILE_RESCAN_INTERVAL_TICKS = 0
                 then s\<lparr>shot_pool := map (weak_of h) (List.map_filter id found)\<rparr> else s)
        in case find (\<lambda>a. shot_in_flight pawn (cutter_at a)) (List.map_filter (weak_get h) (shot_pool s)) of
             None \<Rightarrow> s
           | Some a \<Rightarrow> s\<lparr>shot_active := True, shot_pos := cutter_pos (cutter_at a), shot_rot := cutter_rot (cutter_at a),
                           shot_vfx := cutter_vfx (cutter_at a) (shot_vfx s)\<rparr>)"

section \<open>The thrown sword\<close>

record sword_reads =
  sword_root :: bool
  sword_at :: triple
  sword_rotation :: triple
  sword_class_name :: "string option"
  sword_state_byte :: "8 word option"
  sword_velocity :: "triple option"
  sword_glow_asset :: "string option"

record thrown_sword =
  sword_out :: bool
  sword_class :: string
  sword_pos :: triple
  sword_rot :: triple
  sword_state :: nat
  sword_glow :: string

record sword_flight =
  weapon_bounce_count :: u64
  prev_vel :: triple
  have_prev_vel :: bool

definition no_sword :: thrown_sword where
  "no_sword = \<lparr>sword_out = False, sword_class = [], sword_pos = zero3, sword_rot = zero3, sword_state = 0, sword_glow = []\<rparr>"

definition MIN_PLAUSIBLE_DISTANCE :: rat where "MIN_PLAUSIBLE_DISTANCE = 100"

text \<open>
  \<^verbatim>\<open>std::sqrt(s) >= 100.0\<close>: the largest double below 10000 has a square root that rounds below 100, so
  the comparison is one of the squares.
\<close>

definition far_from_origin :: "triple \<Rightarrow> bool" where
  "far_from_origin p \<longleftrightarrow> dbl_le (Fin (MIN_PLAUSIBLE_DISTANCE * MIN_PLAUSIBLE_DISTANCE)) (sum_sq p)"

definition flipped :: "dbl \<Rightarrow> dbl \<Rightarrow> bool" where
  "flipped before now \<longleftrightarrow>
     (dbl_less (Fin 40) before \<and> dbl_less now (Fin (- 40))) \<or> (dbl_less before (Fin (- 40)) \<and> dbl_less (Fin 40) now)"

definition track_bounce :: "nat \<Rightarrow> triple option \<Rightarrow> sword_flight \<Rightarrow> sword_flight" where
  "track_bounce state velocity f =
     (if state \<noteq> 0 then f\<lparr>have_prev_vel := False\<rparr>
      else case velocity of
        None \<Rightarrow> f
      | Some (vx, vy, vz) \<Rightarrow>
          (case prev_vel f of (px, py, pz) \<Rightarrow>
             f\<lparr>weapon_bounce_count :=
                 (if have_prev_vel f \<and> (flipped px vx \<or> flipped py vy \<or> flipped pz vz)
                  then weapon_bounce_count f + 1 else weapon_bounce_count f),
               prev_vel := (vx, vy, vz), have_prev_vel := True\<rparr>))"

definition read_sword :: "sword_reads option \<Rightarrow> bool option \<Rightarrow> sword_flight \<Rightarrow> thrown_sword \<times> sword_flight" where
  "read_sword weapon_ref equipped f =
     (case weapon_ref of
        None \<Rightarrow> (no_sword, f)
      | Some w \<Rightarrow>
          if equipped = Some True \<or> \<not> sword_root w \<or> \<not> far_from_origin (sword_at w) then (no_sword, f)
          else
            let state = (case sword_state_byte w of None \<Rightarrow> 0 | Some b \<Rightarrow> unat b) in
            (\<lparr>sword_out = True, sword_class = worn_mesh (sword_class_name w), sword_pos = sword_at w, sword_rot = sword_rotation w,
              sword_state = state, sword_glow = worn_mesh (sword_glow_asset w)\<rparr>,
             track_bounce state (sword_velocity w) f))"

section \<open>Niagara components: the recall glow and the mirrored effects\<close>

record component =
  component_name :: string
  component_asset :: "string option"
  component_active :: bool
  component_at :: "triple option"

definition RECALL_GLOW_ASSET :: string where
  "RECALL_GLOW_ASSET = ''/Game/VFX/Emitters/NS_WeaponCallReady.NS_WeaponCallReady''"

definition RECALL_GLOW_SCAN_INTERVAL_TICKS :: u64 where "RECALL_GLOW_SCAN_INTERVAL_TICKS = 15"

definition is_recall_glow :: "string \<Rightarrow> component \<Rightarrow> bool" where
  "is_recall_glow pawn_name c \<longleftrightarrow>
     contains (component_name c) pawn_name \<and>
     (case component_asset c of None \<Rightarrow> False | Some full_name \<Rightarrow> contains full_name RECALL_GLOW_ASSET)"

record recall_scan =
  recall_identity :: "address \<Rightarrow> bool option"
  recall_identity_pawn :: "address option"
  local_recall_glow :: bool

text \<open>\<^verbatim>\<open>emplace\<close> leaves an entry that is there.\<close>

definition emplace :: "'k \<Rightarrow> 'i \<Rightarrow> ('k \<Rightarrow> 'i option) \<Rightarrow> 'k \<Rightarrow> 'i option" where
  "emplace k i m = (if m k = None then m(k \<mapsto> i) else m)"

definition recall_visit ::
  "string \<Rightarrow> (address \<Rightarrow> bool option) \<Rightarrow> component \<Rightarrow> address \<Rightarrow> (address \<Rightarrow> bool option) \<Rightarrow> (address \<Rightarrow> bool option)" where
  "recall_visit pawn_name known c a live =
     (case known a of
        Some b \<Rightarrow> emplace a b live
      | None \<Rightarrow> let live = emplace a False live in if is_recall_glow pawn_name c then live(a \<mapsto> True) else live)"

definition recall_step ::
  "string \<Rightarrow> (address \<Rightarrow> bool option) \<Rightarrow> (address \<Rightarrow> component) \<Rightarrow> address \<Rightarrow> (address \<Rightarrow> bool option) \<times> bool \<Rightarrow>
   (address \<Rightarrow> bool option) \<times> bool" where
  "recall_step pawn_name known view a st =
     (case st of (live, glow_now) \<Rightarrow>
        (recall_visit pawn_name known (view a) a live,
         glow_now \<or> (case known a of Some b \<Rightarrow> b | None \<Rightarrow> is_recall_glow pawn_name (view a)) \<and> component_active (view a)))"

definition scan_recall_glow ::
  "u64 \<Rightarrow> address \<Rightarrow> string \<Rightarrow> address list \<Rightarrow> (address \<Rightarrow> component) \<Rightarrow> recall_scan \<Rightarrow> recall_scan" where
  "scan_recall_glow tick pawn pawn_name components view r =
     (if tick mod RECALL_GLOW_SCAN_INTERVAL_TICKS \<noteq> 0 then r
      else
        let r = (if recall_identity_pawn r \<noteq> Some pawn
                 then r\<lparr>recall_identity := (\<lambda>_. None), recall_identity_pawn := Some pawn\<rparr> else r)
        in case fold (recall_step pawn_name (recall_identity r) view) components (\<lambda>_. None, False) of
             (live, glow_now) \<Rightarrow> r\<lparr>recall_identity := live, local_recall_glow := glow_now\<rparr>)"

text \<open>\<^verbatim>\<open>release_all_ghosts\<close>.\<close>

definition clear_recall_identity :: "recall_scan \<Rightarrow> recall_scan" where
  "clear_recall_identity r = r\<lparr>recall_identity := (\<lambda>_. None), recall_identity_pawn := None\<rparr>"

record mirrored_effect =
  effect_key :: string
  effect_asset :: string
  attach_prop :: string
  socket :: "string option"
  world_spawned :: bool
  world_offset_z :: rat
  use_performer_yaw :: bool
  attach_offset :: "rat \<times> rat \<times> rat"

definition MIRRORED_EFFECTS :: "mirrored_effect list" where
  "MIRRORED_EFFECTS =
    [\<lparr>effect_key = ''heal'', effect_asset = ''/Game/VFX/Systems/NS_Healing.NS_Healing'', attach_prop = ''CapsuleComponent'',
      socket = None, world_spawned = False, world_offset_z = 0, use_performer_yaw = False, attach_offset = (0, 0, 0)\<rparr>,
     \<lparr>effect_key = ''chg'', effect_asset = ''/Game/VFX/Emitters/NS_ProjectileCharged.NS_ProjectileCharged'', attach_prop = ''VisualMesh'',
      socket = Some ''handslot_R'', world_spawned = False, world_offset_z = 0, use_performer_yaw = False, attach_offset = (0, 0, 0)\<rparr>,
     \<lparr>effect_key = ''hw'', effect_asset = ''/Game/VFX/Emitters/NS_HealWave.NS_HealWave'', attach_prop = ''RootComponent'',
      socket = None, world_spawned = True, world_offset_z = 100, use_performer_yaw = False, attach_offset = (0, 0, 0)\<rparr>,
     \<lparr>effect_key = ''hew'', effect_asset = ''/Game/VFX/Emitters/NS_HealEndwave.NS_HealEndwave'', attach_prop = ''RootComponent'',
      socket = None, world_spawned = True, world_offset_z = 10, use_performer_yaw = False, attach_offset = (0, 0, 0)\<rparr>,
     \<lparr>effect_key = ''rsp'', effect_asset = ''/Game/VFX/Systems/NS_RespawnSafe.NS_RespawnSafe'', attach_prop = ''CapsuleComponent'',
      socket = None, world_spawned = False, world_offset_z = 0, use_performer_yaw = False, attach_offset = (0, 0, 0)\<rparr>,
     \<lparr>effect_key = ''dl'', effect_asset = ''/Game/VFX/Systems/NS_DustLand.NS_DustLand'', attach_prop = ''RootComponent'',
      socket = None, world_spawned = True, world_offset_z = - GHOST_STANDING_CAPSULE_HALF, use_performer_yaw = False, attach_offset = (0, 0, 0)\<rparr>,
     \<lparr>effect_key = ''bb'', effect_asset = ''/Game/VFX/Systems/NS_BasicBurst.NS_BasicBurst'', attach_prop = ''RootComponent'',
      socket = None, world_spawned = True, world_offset_z = 0, use_performer_yaw = False, attach_offset = (0, 0, 0)\<rparr>,
     \<lparr>effect_key = ''sl'', effect_asset = ''/Game/VFX/Systems/NS_PlayerSlash.NS_PlayerSlash'', attach_prop = ''RootComponent'',
      socket = None, world_spawned = True, world_offset_z = 30, use_performer_yaw = True, attach_offset = (0, 0, 0)\<rparr>,
     \<lparr>effect_key = ''wk'', effect_asset = ''/Game/VFX/Systems/NS_WallKickHit.NS_WallKickHit'', attach_prop = ''RootComponent'',
      socket = None, world_spawned = True, world_offset_z = 0, use_performer_yaw = False, attach_offset = (0, 0, 0)\<rparr>,
     \<lparr>effect_key = ''ks'', effect_asset = ''/Game/VFX/Systems/NS_KickStab.NS_KickStab'', attach_prop = ''VisualMesh'',
      socket = None, world_spawned = False, world_offset_z = 0, use_performer_yaw = False, attach_offset = (10, 100, 85)\<rparr>]"

definition MIRRORED_EFFECT_COUNT :: nat where "MIRRORED_EFFECT_COUNT = 10"
definition MIRROR_WORLD_VFX_RADIUS :: rat where "MIRROR_WORLD_VFX_RADIUS = 600"
definition MIRROR_PLAYER_VFX_INTERVAL_TICKS :: u64 where "MIRROR_PLAYER_VFX_INTERVAL_TICKS = 5"

lemma length_effects: "length MIRRORED_EFFECTS = MIRRORED_EFFECT_COUNT"
  by (simp add: MIRRORED_EFFECTS_def MIRRORED_EFFECT_COUNT_def)

definition is_world_effect :: "nat \<Rightarrow> bool" where
  "is_world_effect i = world_spawned (MIRRORED_EFFECTS ! i)"

text \<open>The row of the table a component shows: \<open>None\<close> is the code's \<open>- 1\<close>.\<close>

definition effect_of :: "string \<Rightarrow> component \<Rightarrow> nat option" where
  "effect_of pawn_name c =
     (case component_asset c of
        None \<Rightarrow> None
      | Some full_name \<Rightarrow>
          (case find (\<lambda>i. asset_path full_name = effect_asset (MIRRORED_EFFECTS ! i)) [0..<MIRRORED_EFFECT_COUNT] of
             None \<Rightarrow> None
           | Some i \<Rightarrow> if is_world_effect i \<or> contains (component_name c) pawn_name then Some i else None))"

record effect_scan =
  vfx_identity :: "address \<Rightarrow> nat option option"
  world_vfx_start_count :: "nat \<Rightarrow> u64"
  observed_world_offset_z :: "nat \<Rightarrow> dbl option"
  mirrored_vfx_keys :: string

definition effect_visit ::
  "string \<Rightarrow> (address \<Rightarrow> nat option option) \<Rightarrow> component \<Rightarrow> address \<Rightarrow> (address \<Rightarrow> nat option option) \<Rightarrow> (address \<Rightarrow> nat option option)" where
  "effect_visit pawn_name known c a live =
     emplace a (case known a of Some which \<Rightarrow> which | None \<Rightarrow> effect_of pawn_name c) live"

text \<open>Near the player, and not nearer to the player's own thrown sword.\<close>

definition at_player :: "triple \<Rightarrow> triple option \<Rightarrow> triple \<Rightarrow> bool" where
  "at_player player sword p \<longleftrightarrow>
     \<not> dbl_less (Fin (MIRROR_WORLD_VFX_RADIUS * MIRROR_WORLD_VFX_RADIUS)) (sum_sq (sub3 p player)) \<and>
     \<not> (case sword of None \<Rightarrow> False | Some s \<Rightarrow> dbl_less (sum_sq (sub3 p s)) (sum_sq (sub3 p player)))"

definition height_over :: "triple \<Rightarrow> triple \<Rightarrow> dbl" where
  "height_over p player = snd (snd (sub3 p player))"

text \<open>One component: the map rebuilt, the rows found active, and the scan's counts.\<close>

definition effect_step ::
  "string \<Rightarrow> triple \<Rightarrow> triple option \<Rightarrow> address set \<Rightarrow> (address \<Rightarrow> nat option option) \<Rightarrow> (address \<Rightarrow> component) \<Rightarrow> address \<Rightarrow>
   (address \<Rightarrow> nat option option) \<times> nat set \<times> effect_scan \<Rightarrow> (address \<Rightarrow> nat option option) \<times> nat set \<times> effect_scan" where
  "effect_step pawn_name player sword ours known view a st =
     (case st of (live, active, e) \<Rightarrow>
        if a \<in> ours then st
        else
          let c = view a; newly_seen = (known a = None);
              live = effect_visit pawn_name known c a live
          in case (case known a of Some which \<Rightarrow> which | None \<Rightarrow> effect_of pawn_name c) of
               None \<Rightarrow> (live, active, e)
             | Some i \<Rightarrow>
                 if \<not> component_active c then (live, active, e)
                 else if \<not> is_world_effect i then (live, insert i active, e)
                 else (case component_at c of
                         None \<Rightarrow> (live, active, e)
                       | Some p \<Rightarrow>
                           if \<not> at_player player sword p then (live, active, e)
                           else if newly_seen
                           then (live, insert i active,
                                 e\<lparr>observed_world_offset_z := (observed_world_offset_z e)(i \<mapsto> height_over p player),
                                   world_vfx_start_count := (world_vfx_start_count e)(i := world_vfx_start_count e i + 1)\<rparr>)
                           else (live, insert i active, e)))"

definition effect_keys :: "nat set \<Rightarrow> (nat \<Rightarrow> u64) \<Rightarrow> string" where
  "effect_keys active n = join '',''
     (map (\<lambda>i. effect_key (MIRRORED_EFFECTS ! i) @ (if is_world_effect i then '':'' @ show_int (uint (n i)) else []))
       [i \<leftarrow> [0..<MIRRORED_EFFECT_COUNT]. i \<in> active \<or> is_world_effect i])"

definition scan_effects ::
  "u64 \<Rightarrow> string \<Rightarrow> triple \<Rightarrow> triple option \<Rightarrow> address set \<Rightarrow> address list \<Rightarrow> (address \<Rightarrow> component) \<Rightarrow> effect_scan \<Rightarrow> effect_scan" where
  "scan_effects tick pawn_name player sword ours components view e =
     (if tick mod MIRROR_PLAYER_VFX_INTERVAL_TICKS \<noteq> 0 then e
      else case fold (effect_step pawn_name player sword ours (vfx_identity e) view) components (\<lambda>_. None, {}, e) of
             (live, active, e) \<Rightarrow>
               e\<lparr>vfx_identity := live, mirrored_vfx_keys := effect_keys active (world_vfx_start_count e)\<rparr>)"

section \<open>The trail\<close>

text \<open>An afterimage: whether its cached mesh belongs to the local pawn, where it is, its colour if it reads.\<close>

record afterimage =
  image_mine :: bool
  image_at :: triple
  image_color :: "triple option"

record trail_observation =
  images_new :: nat
  have_color :: bool
  have_special :: bool
  obs_color :: triple

definition REUSE_MOVE_THRESHOLD :: rat where "REUSE_MOVE_THRESHOLD = 5"
definition AFTERIMAGE_SPAWN_PROXIMITY_UNITS :: rat where "AFTERIMAGE_SPAWN_PROXIMITY_UNITS = 400"
definition AFTERIMAGE_OBSERVE_SCAN_INTERVAL_TICKS :: u64 where "AFTERIMAGE_OBSERVE_SCAN_INTERVAL_TICKS = 6"

definition COLOR_MATCH_EPSILON :: dbl where "COLOR_MATCH_EPSILON = rnd_float (1 / 100)"

fun flt_sub :: "dbl \<Rightarrow> dbl \<Rightarrow> dbl" where
  "flt_sub (Fin x) (Fin y) = rnd_float (x - y)"
| "flt_sub x y = dbl_sub x y"

fun dbl_fabs :: "dbl \<Rightarrow> dbl" where
  "dbl_fabs (Fin x) = Fin \<bar>x\<bar>"
| "dbl_fabs NegInf = PosInf"
| "dbl_fabs x = x"

definition channel_differs :: "dbl \<Rightarrow> dbl \<Rightarrow> bool" where
  "channel_differs x y \<longleftrightarrow> dbl_less COLOR_MATCH_EPSILON (dbl_fabs (flt_sub x y))"

definition differs_from_baseline :: "triple \<Rightarrow> triple \<Rightarrow> bool" where
  "differs_from_baseline c base =
     (case c of (r, g, b) \<Rightarrow> case base of (r', g', b') \<Rightarrow> channel_differs r r' \<or> channel_differs g g' \<or> channel_differs b b')"

text \<open>A pooled image is new when it is first met or has moved; it counts when it is near the player.\<close>

definition image_moved :: "triple option \<Rightarrow> triple \<Rightarrow> bool" where
  "image_moved old_pos p =
     (case old_pos of None \<Rightarrow> True | Some q \<Rightarrow> dbl_less (Fin (REUSE_MOVE_THRESHOLD * REUSE_MOVE_THRESHOLD)) (sum_sq (sub3 p q)))"

definition image_near :: "triple \<Rightarrow> triple \<Rightarrow> bool" where
  "image_near player p \<longleftrightarrow>
     \<not> dbl_less (Fin (AFTERIMAGE_SPAWN_PROXIMITY_UNITS * AFTERIMAGE_SPAWN_PROXIMITY_UNITS)) (sum_sq (sub3 p player))"

definition observe_image ::
  "triple \<Rightarrow> triple \<Rightarrow> (address \<Rightarrow> afterimage) \<Rightarrow> address \<Rightarrow> (address \<Rightarrow> triple option) \<times> trail_observation \<Rightarrow>
   (address \<Rightarrow> triple option) \<times> trail_observation" where
  "observe_image player base view a st =
     (case st of (last_pos, obs) \<Rightarrow>
        let im = view a in
        if \<not> image_mine im then st
        else
          let fresh = image_moved (last_pos a) (image_at im);
              last_pos = last_pos(a \<mapsto> image_at im)
          in if \<not> fresh \<or> \<not> image_near player (image_at im) then (last_pos, obs)
             else
               let obs = obs\<lparr>images_new := images_new obs + 1\<rparr> in
               case image_color im of
                 None \<Rightarrow> (last_pos, obs)
               | Some c \<Rightarrow>
                   let special = differs_from_baseline c base;
                       obs = (if \<not> have_color obs \<or> (special \<and> \<not> have_special obs)
                              then obs\<lparr>obs_color := c, have_color := True\<rparr> else obs)
                   in (last_pos, obs\<lparr>have_special := have_special obs \<or> special\<rparr>))"

definition observe_local_afterimage_colors ::
  "triple \<Rightarrow> triple \<Rightarrow> (address \<Rightarrow> afterimage) \<Rightarrow> address list \<Rightarrow> (address \<Rightarrow> triple option) \<Rightarrow>
   (address \<Rightarrow> triple option) \<times> trail_observation" where
  "observe_local_afterimage_colors player base view images last_pos =
     fold (observe_image player base view) images
       (last_pos, \<lparr>images_new = 0, have_color = False, have_special = False, obs_color = zero3\<rparr>)"

record local_trail =
  trail_count :: u32
  afterimage_spawn_n :: int
  afterimage_have_observed_color :: bool
  latched_afterimage_color :: triple
  afterimage_pos_by_ptr :: "address \<Rightarrow> triple option"
  afterimage_pos_primed :: bool
  afterimage_idle_next_scan_tick :: u64

text \<open>The colour sent, and the trail after the tick; an unread pawn colour is black.\<close>

definition trail_tick ::
  "u64 \<Rightarrow> triple \<Rightarrow> triple option \<Rightarrow> (address \<Rightarrow> afterimage) \<Rightarrow> address list \<Rightarrow> local_trail \<Rightarrow> triple \<times> local_trail" where
  "trail_tick tick player pawn_color view images t =
     (let base = (case pawn_color of None \<Rightarrow> zero3 | Some c \<Rightarrow> c);
          color = (if afterimage_have_observed_color t then latched_afterimage_color t else base)
      in if tick < afterimage_idle_next_scan_tick t then (color, t)
         else
           let t = t\<lparr>afterimage_idle_next_scan_tick := tick + AFTERIMAGE_OBSERVE_SCAN_INTERVAL_TICKS\<rparr>;
               (last_pos, obs) = observe_local_afterimage_colors player base view images (afterimage_pos_by_ptr t);
               t = t\<lparr>afterimage_pos_by_ptr := last_pos\<rparr>
           in if \<not> afterimage_pos_primed t then (color, t\<lparr>afterimage_pos_primed := True\<rparr>)
              else if images_new obs = 0 then (color, t)
              else (obs_color obs,
                    t\<lparr>latched_afterimage_color := obs_color obs, afterimage_have_observed_color := True,
                      trail_count := trail_count t + 1, afterimage_spawn_n := int (images_new obs)\<rparr>))"

definition forget_images :: "local_trail \<Rightarrow> local_trail" where
  "forget_images t = t\<lparr>afterimage_pos_by_ptr := (\<lambda>_. None), afterimage_pos_primed := False\<rparr>"

section \<open>Orphaned camera rigs\<close>

definition CAMERA_RIG_SWEEP_INTERVAL_TICKS :: u64 where "CAMERA_RIG_SWEEP_INTERVAL_TICKS = 30"
definition CAMERA_RIG_ORPHAN_SWEEPS_BEFORE_DESTROY :: nat where "CAMERA_RIG_ORPHAN_SWEEPS_BEFORE_DESTROY = 3"

text \<open>\<open>owner_of rig\<close> is the rig's \<^verbatim>\<open>OwningActor\<close>: \<open>None\<close> for a build whose rig has no such property.\<close>

definition is_orphan :: "(address \<Rightarrow> address option option) \<Rightarrow> address \<Rightarrow> bool" where
  "is_orphan owner_of rig \<longleftrightarrow> owner_of rig = Some None"

definition sweep_rig ::
  "(address \<Rightarrow> address option option) \<Rightarrow> address \<Rightarrow> (address \<Rightarrow> nat option) \<times> address list \<Rightarrow> (address \<Rightarrow> nat option) \<times> address list" where
  "sweep_rig owner_of rig st =
     (case st of (sightings, destroyed) \<Rightarrow>
        if \<not> is_orphan owner_of rig then st
        else
          let n = (case sightings rig of None \<Rightarrow> 1 | Some k \<Rightarrow> k + 1)
          in (sightings(rig \<mapsto> n), if n < CAMERA_RIG_ORPHAN_SWEEPS_BEFORE_DESTROY then destroyed else destroyed @ [rig]))"

text \<open>One sweep: the rigs destroyed, and the sightings of the rigs seen orphaned; the others start over.\<close>

definition sweep_camera_rigs ::
  "u64 \<Rightarrow> bool \<Rightarrow> (address \<Rightarrow> address option option) \<Rightarrow> address list \<Rightarrow> (address \<Rightarrow> nat option) \<Rightarrow> address list \<times> (address \<Rightarrow> nat option)" where
  "sweep_camera_rigs tick pawn_is_player owner_of rigs sightings =
     (if tick mod CAMERA_RIG_SWEEP_INTERVAL_TICKS \<noteq> 0 \<or> \<not> pawn_is_player then ([], sightings)
      else case fold (sweep_rig owner_of) rigs (sightings, []) of
             (sightings, destroyed) \<Rightarrow> (destroyed, sightings |` {rig \<in> set rigs. is_orphan owner_of rig}))"

end
