(* ===== verification/Local_Line.thy ===== *)
theory Local_Line
  imports Local_State
begin

text \<open>
  The \<^verbatim>\<open>local_state\<close> line: one tick's reads put together, the text the code formats from them, and how
  the reading of \<^verbatim>\<open>handle_bridge_line\<close> at the other end gives the numbers and strings back.
\<close>

section \<open>Formatting\<close>

definition show_nat :: "nat \<Rightarrow> string" where
  "show_nat n = map char_of (digits10 n)"

definition pad_zeros :: "nat \<Rightarrow> nat \<Rightarrow> string" where
  "pad_zeros w n = replicate (w - length (show_nat n)) (CHR ''0'') @ show_nat n"

text \<open>\<^verbatim>\<open>{:.nf}\<close>: the exact decimal value, rounded half to even.\<close>

definition fixed_digits :: "nat \<Rightarrow> rat \<Rightarrow> nat" where
  "fixed_digits n q = nat (round_half_even (\<bar>q\<bar> * 10 ^ n))"

fun show_fixed :: "nat \<Rightarrow> dbl \<Rightarrow> string" where
  "show_fixed n (Fin q) =
     (if q < 0 then ''-'' else []) @ show_nat (fixed_digits n q div 10 ^ n) @ ''.'' @ pad_zeros n (fixed_digits n q mod 10 ^ n)"
| "show_fixed n PosInf = ''inf''"
| "show_fixed n NegInf = ''-inf''"
| "show_fixed n NaN = ''nan''"

definition show_flag :: "bool \<Rightarrow> string" where
  "show_flag b = show_int (if b then 1 else 0)"

definition vec_text :: "(dbl \<Rightarrow> string) \<Rightarrow> triple \<Rightarrow> string" where
  "vec_text f v = (case v of (x, y, z) \<Rightarrow> ''['' @ f x @ '','' @ f y @ '','' @ f z @ '']'')"

definition fields_text :: "(string \<times> string) list \<Rightarrow> string" where
  "fields_text fs = join '','' (map (\<lambda>(key, v). field key v) fs)"

section \<open>What is sent\<close>

record local_sample =
  sent_area :: string
  sent_pos :: triple
  sent_rot :: triple
  sent_move_state :: "8 word"
  sent_action_state :: "8 word"
  sent_h_speed :: dbl
  sent_v_speed :: dbl
  sent_jump_type :: "8 word"
  sent_mode :: "8 word"
  sent_pulses :: local_pulses
  sent_equipped :: bool
  sent_outfit :: string
  sent_weapon :: string
  sent_montage :: string
  sent_montages :: local_montages
  sent_trail :: local_trail
  sent_color :: triple
  sent_capsule :: dbl
  sent_slide :: dbl
  sent_charged :: bool
  sent_sword :: thrown_sword
  sent_bounces :: u64
  sent_glow :: bool
  sent_shadow :: bool
  sent_vfx :: string
  sent_shot :: local_shot
  sent_blinks :: int
  sent_vitals :: vitals

definition extras_fields :: "(dbl \<Rightarrow> string) \<Rightarrow> local_sample \<Rightarrow> (string \<times> string) list" where
  "extras_fields fmt l =
    [(''move_state'', show_int (uint (sent_move_state l))), (''action_state'', show_int (uint (sent_action_state l))),
     (''h_speed'', fmt (sent_h_speed l)), (''v_speed'', fmt (sent_v_speed l)),
     (''anim_jump_type'', show_int (uint (sent_jump_type l))), (''movement_mode'', show_int (uint (sent_mode l))),
     (''land_count'', show_int (uint (landed_count (sent_pulses l)))), (''jump_count'', show_int (uint (jumped_count (sent_pulses l)))),
     (''weapon_equipped'', show_flag (sent_equipped l)),
     (''outfit_mesh'', jstr (json_escape (sent_outfit l))), (''weapon_mesh'', jstr (json_escape (sent_weapon l))),
     (''afterimage_count'', show_int (uint (trail_count (sent_trail l)))),
     (''montage'', jstr (json_escape (sent_montage l))),
     (''montage_count'', show_int (uint (started_count (sent_montages l)))),
     (''montage_stop_count'', show_int (uint (stopped_count (sent_montages l)))),
     (''afterimage_n'', show_int (afterimage_spawn_n (sent_trail l))),
     (''capsule_half'', show_fixed 1 (sent_capsule l)), (''slide_t'', show_fixed 2 (sent_slide l)),
     (''bubble_charged'', show_flag (sent_charged l)),
     (''afterimage_color'', vec_text (show_fixed 4) (sent_color l)),
     (''weapon_thrown'', show_flag (sword_out (sent_sword l))), (''weapon_class'', jstr (json_escape (sword_class (sent_sword l)))),
     (''weapon_state'', show_int (int (sword_state (sent_sword l)))), (''weapon_glow'', jstr (json_escape (sword_glow (sent_sword l)))),
     (''recall_glow'', show_flag (sent_glow l)),
     (''weapon_pos'', vec_text (show_fixed 1) (sword_pos (sent_sword l))), (''weapon_rot'', vec_text (show_fixed 1) (sword_rot (sent_sword l))),
     (''weapon_bounce'', show_int (uint (sent_bounces l))), (''shadow_on'', show_flag (sent_shadow l)),
     (''vfx'', jstr (sent_vfx l)),
     (''prj'', show_flag (shot_active (sent_shot l))), (''prj_vfx'', jstr (json_escape (shot_vfx (sent_shot l)))),
     (''prj_pos'', vec_text (show_fixed 1) (shot_pos (sent_shot l))), (''prj_rot'', vec_text (show_fixed 1) (shot_rot (sent_shot l))),
     (''blink_count'', show_int (sent_blinks l)), (''death_count'', show_int (deaths (sent_vitals l))),
     (''hurt_count'', show_int (hurts (sent_vitals l)))]"

definition state_fields :: "(dbl \<Rightarrow> string) \<Rightarrow> local_sample \<Rightarrow> (string \<times> string) list" where
  "state_fields fmt l =
    [(''area_id'', jstr (json_escape (sent_area l))), (''position'', vec_text fmt (sent_pos l)),
     (''orientation'', vec_text fmt (sent_rot l)), (''anim'', jstr ''idle''),
     (''extras'', ''{'' @ fields_text (extras_fields fmt l) @ ''}'')]"

definition local_state_line :: "(dbl \<Rightarrow> string) \<Rightarrow> local_sample \<Rightarrow> string" where
  "local_state_line fmt l =
     message ''local_state'' (''{'' @ field ''state'' (''{'' @ fields_text (state_fields fmt l) @ ''}'') @ ''}'')"

definition null_state_line :: string where
  "null_state_line = message ''local_state'' (''{'' @ field ''state'' ''null'' @ ''}'')"

section \<open>One tick's reads\<close>

record local_reads =
  read_level :: "string option"
  read_location :: triple
  read_rotation :: triple
  read_move_state :: "8 word option"
  read_action_state :: "8 word option"
  read_h_speed :: "dbl option"
  read_v_speed :: "dbl option"
  read_jump_type :: "8 word option"
  read_mode :: "8 word option"
  read_equipped :: "bool option"
  read_outfit :: "string option"
  read_hand_mesh :: "string option"
  read_shared_hp :: "dbl option"
  read_hp :: "dbl option"
  read_cutters :: "address option list"
  cutter_at :: "address \<Rightarrow> cutter"
  read_weapon_ref :: "sword_reads option"
  read_pawn :: address
  read_pawn_name :: string
  read_components :: "address list"
  component_view :: "address \<Rightarrow> component"
  own_components :: "address set"
  read_charged :: "bool option"
  read_montage :: "string option"
  read_landed :: bool
  read_jumped :: bool
  read_slide_t :: "dbl option"
  read_capsule :: "dbl option"
  read_pawn_color :: "triple option"
  read_images :: "address list"
  image_view :: "address \<Rightarrow> afterimage"
  read_shadow :: "bool option"

record local_memory =
  pulses :: local_pulses
  montages :: local_montages
  shot :: local_shot
  flight :: sword_flight
  recall :: recall_scan
  effects :: effect_scan
  trail :: local_trail
  ticks_since_pawn_valid :: u64

text \<open>What a missing property reads as.\<close>

definition read_or :: "'a \<Rightarrow> 'a option \<Rightarrow> 'a" where
  "read_or dflt x = (case x of None \<Rightarrow> dflt | Some v \<Rightarrow> v)"

definition read_local :: "u64 \<Rightarrow> heap \<Rightarrow> local_reads \<Rightarrow> vitals \<Rightarrow> local_memory \<Rightarrow> local_sample \<times> local_memory" where
  "read_local tick h r v m =
     (let shot' = sample_shot tick h (cutter_at r) (read_pawn r) (read_cutters r) (shot m);
          (sword, flight') = read_sword (read_weapon_ref r) (read_equipped r) (flight m);
          recall' = scan_recall_glow tick (read_pawn r) (read_pawn_name r) (read_components r) (component_view r) (recall m);
          path = montage_path (read_montage r);
          montages' = count_montages path (montages m);
          pulses' = count_pulses (read_landed r) (read_jumped r) (pulses m);
          (color, trail') = trail_tick tick (read_location r) (read_pawn_color r) (image_view r) (read_images r) (trail m);
          effects' = scan_effects tick (read_pawn_name r) (read_location r)
                       (if sword_out sword then Some (sword_pos sword) else None)
                       (own_components r) (read_components r) (component_view r) (effects m)
      in (\<lparr>sent_area = area_of (read_level r), sent_pos = read_location r, sent_rot = read_rotation r,
           sent_move_state = read_or 0 (read_move_state r), sent_action_state = read_or 0 (read_action_state r),
           sent_h_speed = read_or (Fin 0) (read_h_speed r), sent_v_speed = read_or (Fin 0) (read_v_speed r),
           sent_jump_type = read_or 0 (read_jump_type r), sent_mode = read_or 0 (read_mode r),
           sent_pulses = pulses', sent_equipped = read_or False (read_equipped r),
           sent_outfit = worn_mesh (read_outfit r), sent_weapon = worn_mesh (read_hand_mesh r),
           sent_montage = path, sent_montages = montages', sent_trail = trail', sent_color = color,
           sent_capsule = read_or (Fin 0) (read_capsule r), sent_slide = read_or (Fin 1) (read_slide_t r),
           sent_charged = read_or False (read_charged r), sent_sword = sword,
           sent_bounces = weapon_bounce_count flight', sent_glow = local_recall_glow recall',
           sent_shadow = read_or True (read_shadow r), sent_vfx = mirrored_vfx_keys effects', sent_shot = shot',
           sent_blinks = 0, sent_vitals = v\<rparr>,
          m\<lparr>pulses := pulses', montages := montages', shot := shot', flight := flight', recall := recall',
            effects := effects', trail := trail'\<rparr>))"

text \<open>
  The local half of \<^verbatim>\<open>game_thread_tick\<close>: \<open>None\<close> is no pawn. The counts are taken first, a death is
  reported, then the line the network thread sends is replaced.
\<close>

definition local_tick ::
  "(dbl \<Rightarrow> string) \<Rightarrow> send_answer \<Rightarrow> heap \<Rightarrow> (bool \<times> local_reads) option \<Rightarrow> local_memory \<times> session \<Rightarrow> local_memory \<times> session" where
  "local_tick fmt ans h pawn st =
     (case st of (m, s) \<Rightarrow>
        case pawn of
          None \<Rightarrow> (m\<lparr>ticks_since_pawn_valid := 0\<rparr>, s\<lparr>local_state := null_state_line\<rparr>)
        | Some (is_player, r) \<Rightarrow>
            let m = m\<lparr>ticks_since_pawn_valid := (if is_player then ticks_since_pawn_valid m + 1 else 0)\<rparr>;
                s = report_deaths ans (s\<lparr>health := count_vitals (read_shared_hp r) (read_hp r) (health s)\<rparr>);
                (l, m) = read_local (tick_count (world s)) h r (health s) m
            in if in_non_gameplay_map (sent_area l)
               then (m\<lparr>ticks_since_pawn_valid := 0\<rparr>, s\<lparr>local_state := null_state_line\<rparr>)
               else (m, s\<lparr>local_state := local_state_line fmt l\<rparr>))"

end
