(* ===== verification/Number_Text.thy ===== *)
theory Number_Text
  imports Local_Line
begin

text \<open>
  Numbers written by \<^verbatim>\<open>std::format\<close> and read back by the scanners of \<^verbatim>\<open>PeerJson.hpp\<close>: decimal texts, what
  \<^verbatim>\<open>sscanf\<close> makes of them, and the members of an object that hold them.
\<close>

section \<open>Decimal texts\<close>

lemma digits_value_append: "digits_value b (xs @ ys) = digits_value b xs * b ^ length ys + digits_value b ys"
proof (induction ys rule: rev_induct)
  case Nil
  then show ?case by (simp add: digits_value_def)
next
  case (snoc y ys)
  have "digits_value b (xs @ ys @ [y]) = b * digits_value b (xs @ ys) + y"
    "digits_value b (ys @ [y]) = b * digits_value b ys + y"
    by (simp_all add: digits_value_def)
  with snoc show ?case by (simp only: length_append_singleton power_Suc) (simp add: algebra_simps)
qed

lemma digit_char: "d < 10 \<Longrightarrow> is_digit (char_of (48 + d :: nat)) \<and> digit_val (char_of (48 + d :: nat)) = d"
  by (simp add: is_digit_def digit_val_def byte_of_def of_char_of)

lemma show_nat_rec: "show_nat n = (if n < 10 then [char_of (48 + n)] else show_nat (n div 10) @ [char_of (48 + n mod 10)])"
  by (simp add: show_nat_def digits10.simps [of n])

lemma show_nat_digits:
  "list_all is_digit (show_nat n) \<and> show_nat n \<noteq> [] \<and> digits_value 10 (map digit_val (show_nat n)) = n"
proof (induction n rule: less_induct)
  case (less n)
  show ?case
  proof (cases "n < 10")
    case True
    then show ?thesis using digit_char [of n] by (simp add: show_nat_rec [of n] digits_value_def)
  next
    case False
    then show ?thesis using less [of "n div 10"] digit_char [of "n mod 10"]
      by (simp add: show_nat_rec [of n] digits_value_append) (simp add: digits_value_def)
  qed
qed

lemmas show_nat_is_digit = show_nat_digits [THEN conjunct1]
  and show_nat_nonempty = show_nat_digits [THEN conjunct2, THEN conjunct1]
  and show_nat_value = show_nat_digits [THEN conjunct2, THEN conjunct2]

lemma length_show_nat: "n < 10 ^ Suc w \<Longrightarrow> length (show_nat n) \<le> Suc w"
  using length_digits10 [of n w] by (simp add: show_nat_def)

lemma digits_value_zeros: "digits_value 10 (map digit_val (replicate k (CHR ''0''))) = 0"
  by (induction k) (simp_all add: digits_value_def digit_val_def byte_of_def)

lemma pad_zeros_digits:
  assumes "n < 10 ^ Suc w"
  shows "list_all is_digit (pad_zeros (Suc w) n)" and "length (pad_zeros (Suc w) n) = Suc w"
    and "digits_value 10 (map digit_val (pad_zeros (Suc w) n)) = n"
proof -
  show "length (pad_zeros (Suc w) n) = Suc w"
    using length_show_nat [OF assms] by (simp add: pad_zeros_def)
  have "is_digit (CHR ''0'')" by (simp add: is_digit_def byte_of_def)
  then show "list_all is_digit (pad_zeros (Suc w) n)"
    using show_nat_is_digit [of n] by (auto simp: pad_zeros_def list_all_iff)
  show "digits_value 10 (map digit_val (pad_zeros (Suc w) n)) = n"
    using show_nat_value [of n] digits_value_zeros by (simp add: pad_zeros_def digits_value_append del: map_replicate)
qed

section \<open>Scanning a decimal text\<close>

definition stops :: "string \<Rightarrow> bool" where
  "stops s \<longleftrightarrow> s \<noteq> [] \<and> (hd s = CHR '','' \<or> hd s = CHR ''}'' \<or> hd s = CHR '']'')"

definition fraction :: "string \<Rightarrow> string" where
  "fraction fp = (if fp = [] then [] else CHR ''.'' # fp)"

lemma stops_obtain:
  assumes "stops post"
  obtains c t where "post = c # t" and "c = CHR '','' \<or> c = CHR ''}'' \<or> c = CHR '']''"
  using assms by (cases post) (auto simp: stops_def)

lemma takeWhile_run: "list_all P xs \<Longrightarrow> \<not> P c \<Longrightarrow> takeWhile P (xs @ c # t) = xs \<and> dropWhile P (xs @ c # t) = c # t"
  by (induction xs) auto

lemma scan_decimal_run:
  assumes ip: "list_all is_digit ip" "ip \<noteq> []" and fp: "list_all is_digit fp" and post: "stops post"
  shows "scan_decimal True (ip @ fraction fp @ post) =
    Some (of_nat (digits_value 10 (map digit_val (ip @ fp))) / 10 ^ length fp, post)"
proof -
  obtain c t where c: "post = c # t" "c = CHR '','' \<or> c = CHR ''}'' \<or> c = CHR '']''"
    using stops_obtain [OF post] by blast
  have nd: "\<not> is_digit c" "c \<noteq> CHR ''.''" "c_tolower c \<noteq> CHR ''e''" "\<not> is_digit (CHR ''.'')"
    using c(2) by (auto simp: is_digit_def byte_of_def c_tolower_def)
  have "scan_mantissa is_digit (ip @ fraction fp @ post) = Some (ip, fp, post)"
    using takeWhile_run [OF ip(1), of "CHR ''.''" "fp @ post"] takeWhile_run [OF ip(1), of c t]
      takeWhile_run [OF fp, of c t] nd ip(2)
    by (auto simp: scan_mantissa_def fraction_def c(1) Let_def)
  moreover have "scan_exponent True (CHR ''e'') post = Some (0, post)"
    using nd by (simp add: scan_exponent_def c(1))
  ultimately show ?thesis by (simp add: scan_decimal_def pow_int_def)
qed

definition sign_text :: "bool \<Rightarrow> string" where
  "sign_text neg = (if neg then ''-'' else [])"

lemma scan_unsigned_run:
  assumes ip: "list_all is_digit ip" "ip \<noteq> []" and fp: "list_all is_digit fp" and post: "stops post"
  shows "scan_unsigned True neg (ip @ fraction fp @ post) =
    Some (signed_round neg (of_nat (digits_value 10 (map digit_val (ip @ fp))) / 10 ^ length fp), post)"
proof -
  obtain d ip' where d: "ip = d # ip'" "is_digit d" using ip by (cases ip) auto
  obtain c t where c: "post = c # t" "c = CHR '','' \<or> c = CHR ''}'' \<or> c = CHR '']''"
    using stops_obtain [OF post] by blast
  obtain x r where x: "ip' @ fraction fp @ post = x # r" "is_digit x \<or> x = CHR ''.'' \<or> x = c"
    using ip(1) d c by (cases ip'; cases fp) (auto simp: fraction_def)
  have "c_tolower x \<noteq> CHR ''x''"
    using x(2) c(2) by (auto simp: c_tolower_def is_digit_def byte_of_def)
  then have "match_nocase ''0x'' (ip @ fraction fp @ post) = None"
    using x(1) by (simp add: d(1))
  moreover have "match_nocase ''inf'' (ip @ fraction fp @ post) = None" "match_nocase ''nan'' (ip @ fraction fp @ post) = None"
    using digit_tolower [OF d(2)] by (simp_all add: d(1))
  ultimately show ?thesis
    using scan_decimal_run [OF assms] by (simp add: scan_unsigned_def)
qed

lemma scan_double_run:
  assumes "list_all is_digit ip" and "ip \<noteq> []" and "list_all is_digit fp" and "stops post"
  shows "scan_double True (sign_text neg @ ip @ fraction fp @ post) =
    Some (signed_round neg (of_nat (digits_value 10 (map digit_val (ip @ fp))) / 10 ^ length fp), post)"
proof -
  obtain d ip' where d: "ip = d # ip'" "is_digit d" using assms(1,2) by (cases ip) auto
  have minus: "\<not> c_isspace (CHR ''-'')" by (simp add: c_isspace_def byte_of_def)
  show ?thesis
    using scan_unsigned_run [OF assms, of neg] digit_not_space [OF d(2)]
      minus
    by (cases neg) (simp_all add: scan_double_def sign_text_def d(1))
qed

section \<open>Numbers that are read back\<close>

text \<open>
  A text the scanners read as \<open>x\<close> wherever a comma or a closing bracket follows it: what a number the
  code formats has to be.
\<close>

definition number_head :: "string \<Rightarrow> bool" where
  "number_head t \<longleftrightarrow> (case t of [] \<Rightarrow> False | c # t' \<Rightarrow> is_digit c \<or> c = CHR ''-'' \<and> t' \<noteq> [] \<and> is_digit (hd t'))"

definition reads_as :: "string \<Rightarrow> dbl \<Rightarrow> bool" where
  "reads_as t x \<longleftrightarrow> list_all number_char t \<and> number_head t \<and>
     (\<forall>post. stops post \<longrightarrow> scan_double True (t @ post) = Some (x, post))"

lemma digit_number_char: "is_digit c \<Longrightarrow> number_char c"
  by (simp add: number_char_def)

lemma decimal_reads:
  assumes ip: "list_all is_digit ip" "ip \<noteq> []" and fp: "list_all is_digit fp"
  shows "reads_as (sign_text neg @ ip @ fraction fp) (signed_round neg (of_nat (digits_value 10 (map digit_val (ip @ fp))) / 10 ^ length fp))"
proof -
  have "list_all number_char (sign_text neg @ ip @ fraction fp)"
    using ip(1) fp by (auto simp: list_all_iff sign_text_def fraction_def number_char_def)
  moreover have "number_head (sign_text neg @ ip @ fraction fp)"
    using ip by (cases ip) (auto simp: number_head_def sign_text_def)
  ultimately show ?thesis
    using scan_double_run [OF ip fp, of _ neg] by (simp add: reads_as_def)
qed

lemma nat_reads: "reads_as (sign_text neg @ show_nat n) (signed_round neg (of_nat n))"
  using decimal_reads [OF show_nat_is_digit show_nat_nonempty, of "[]" neg n] show_nat_value [of n]
  by (simp add: fraction_def)

lemma show_int_nat: "show_int i = sign_text (i < 0) @ show_nat (nat \<bar>i\<bar>)"
  using char_of_char [where 'a = nat, of "CHR ''-''"] by (simp add: show_int_def print_int_def sign_text_def show_nat_def)

lemma show_int_reads: "reads_as (show_int i) (rnd_double (of_int i))"
  using nat_reads [of "i < 0" "nat \<bar>i\<bar>"] by (cases "i < 0") (simp_all add: show_int_nat signed_round_def)

lemma small_int_reads: "\<bar>i\<bar> < 2 ^ 53 \<Longrightarrow> reads_as (show_int i) (Fin (of_int i))"
  using show_int_reads [of i] by simp

text \<open>The decimal a fixed-point format shows.\<close>

definition shown_value :: "nat \<Rightarrow> rat \<Rightarrow> rat" where
  "shown_value n q = (if q < 0 then - 1 else 1) * (of_nat (fixed_digits n q) / 10 ^ n)"

lemma show_fixed_reads: "reads_as (show_fixed (Suc n) (Fin q)) (rnd_double (shown_value (Suc n) q))"
proof -
  let ?r = "fixed_digits (Suc n) q"
  let ?f = "pad_zeros (Suc n) (?r mod 10 ^ Suc n)"
  have "?r mod 10 ^ Suc n < 10 ^ Suc n" by simp
  note f = pad_zeros_digits [OF this]
  have shape: "show_fixed (Suc n) (Fin q) = sign_text (q < 0) @ show_nat (?r div 10 ^ Suc n) @ fraction ?f"
    using f(2) by (auto simp: sign_text_def fraction_def)
  have "digits_value 10 (map digit_val (show_nat (?r div 10 ^ Suc n) @ ?f)) = ?r"
    using f(2,3) show_nat_value [of "?r div 10 ^ Suc n"]
    by (simp add: digits_value_append div_mult_mod_eq del: power_Suc)
  with decimal_reads [OF show_nat_is_digit show_nat_nonempty f(1), of "q < 0" "?r div 10 ^ Suc n"] f(2)
  show ?thesis by (simp add: shape signed_round_def shown_value_def del: power_Suc show_fixed.simps split: if_splits)
qed

section \<open>Members that are read back\<close>

abbreviation number_items :: "string \<Rightarrow> jitem list" where
  "number_items t \<equiv> map Plain t"

lemma concat_plain [simp]: "concat (map (item_text \<circ> Plain) t) = t"
  by (induction t) simp_all

lemma items_text_plain [simp]: "items_text (map Plain t) = t"
  by simp

lemma number_char_plain: "number_char c \<Longrightarrow> \<not> structural c \<and> \<not> json_is_space c \<and> c \<noteq> chr_nul"
  by (auto simp: number_char_def structural_def json_is_space_def is_digit_def byte_of_def)

lemma number_value_ok:
  assumes "list_all number_char t" and "t \<noteq> []"
  shows "value_ok (number_items t)"
proof -
  have "list_all (\<lambda>it. case it of Plain c \<Rightarrow> \<not> structural c \<and> \<not> json_is_space c | _ \<Rightarrow> False) (number_items t)"
    using assms(1) number_char_plain by (auto simp: list_all_iff)
  with assms(2) show ?thesis by (cases "number_items t" rule: value_ok.cases) auto
qed

lemma c_str_plain: "list_all number_char t \<Longrightarrow> c_str (t @ post) = t @ c_str post"
  using number_char_plain by (induction t) (auto simp: c_str_def)

lemma stops_c_str: "stops post \<Longrightarrow> stops (c_str post)"
  by (cases post) (auto simp: stops_def c_str_def)

lemma reads_sscanf:
  assumes "reads_as t x" and "stops post"
  shows "sscanf_lf (t @ post) = Some x"
  using assms stops_c_str [OF assms(2)] by (simp add: reads_as_def sscanf_lf_def c_str_plain)

lemma reads_sscanf3:
  assumes "reads_as a x" and "reads_as b y" and "reads_as c z" and "stops post"
  shows "sscanf_lf3 (a @ '','' @ b @ '','' @ c @ post) abc = (3, (x, y, z))"
proof -
  have comma: "stops (CHR '','' # t)" "c_str (CHR '','' # t) = CHR '','' # c_str t" "scan_comma (CHR '','' # t) = Some t" for t
    by (simp_all add: stops_def c_str_def scan_comma_def)
  have scan: "scan_double True (u @ p) = Some (v, p)" if "reads_as u v" "stops p" for u v p
    using that by (simp add: reads_as_def)
  have chars: "list_all number_char u" if "reads_as u v" for u v using that by (simp add: reads_as_def)
  have "c_str (a @ '','' @ b @ '','' @ c @ post) = a @ CHR '','' # b @ CHR '','' # c @ c_str post"
    by (simp add: c_str_plain chars [OF assms(1)] chars [OF assms(2)] chars [OF assms(3)] comma)
  then show ?thesis
    by (cases abc) (simp add: sscanf_lf3_def scan [OF assms(1) comma(1)] scan [OF assms(2) comma(1)]
      scan [OF assms(3) stops_c_str [OF assms(4)]] comma(3))
qed

text \<open>A member's value and what follows it, in a body that a brace closes.\<close>

lemma member_value_next:
  assumes "members_ok mem" and "span_of s (items_text (body_items mem)) b e" and "map_of mem key = Some v"
    and "e < length s" and "s ! e = CHR ''}''"
  obtains p post where "json_member_value s b e key = Some p" and "drop p s = items_text v @ post"
    and "stops post" and "p < length s"
proof -
  obtain p where p: "json_member_value s b e key = Some p"
    "span_of s (items_text v) p (p + length (items_text v))" "p + length (items_text v) \<le> e"
    "p + length (items_text v) = e \<or> s ! (p + length (items_text v)) = CHR '',''"
    using json_member_value_span [OF assms(1-3)] by metis
  have "drop p s = items_text v @ drop (p + length (items_text v)) s"
    using p(2) by (auto simp: span_of_def)
  moreover have "stops (drop (p + length (items_text v)) s)"
    using p(3,4) assms(4,5) by (auto simp: stops_def hd_drop_conv_nth)
  ultimately show ?thesis using that [OF p(1)] p(3) assms(4) by simp
qed

lemma number_member_read:
  assumes "members_ok mem" and "span_of s (items_text (body_items mem)) b e" and "map_of mem key = Some (number_items t)"
    and "e < length s" and "s ! e = CHR ''}''" and "reads_as t x"
  shows "json_number_member s b e key = Some x"
proof -
  obtain p post where p: "json_member_value s b e key = Some p" "drop p s = t @ post" "stops post" "p < length s"
    using member_value_next [OF assms(1-5)] by (metis items_text_plain)
  obtain c t' where c: "t = c # t'" "is_digit c \<or> c = CHR ''-'' \<and> t' \<noteq> [] \<and> is_digit (hd t')"
    using assms(6) by (cases t) (auto simp: reads_as_def number_head_def)
  have s: "s ! p = c" using p(2,4) c(1) by (metis append_Cons nth_drop_0 list.inject)
  have "is_digit (s ! (if s ! p = CHR ''-'' then p + 1 else p)) \<and> (if s ! p = CHR ''-'' then p + 1 else p) < length s"
  proof (cases "c = CHR ''-''")
    case True
    then have "\<not> is_digit c" by (simp add: is_digit_def byte_of_def)
    with c(2) obtain d t'' where "t' = d # t''" "is_digit d" by (cases t') auto
    moreover from this(1) p(2) c(1) have "drop (Suc p) s = d # t'' @ post" by (metis append_Cons drop_Suc tl_drop list.sel(3))
    ultimately show ?thesis using s True nth_drop_0 [of "Suc p" s]
      by (cases "Suc p < length s") (auto simp del: Cons_nth_drop_Suc)
  next
    case False
    then show ?thesis using s c(2) p(4) by auto
  qed
  then show ?thesis
    using p reads_sscanf [OF assms(6) p(3)] by (auto simp: json_number_member_def Let_def)
qed

definition vec_items :: "string \<Rightarrow> string \<Rightarrow> string \<Rightarrow> jitem list" where
  "vec_items a b c = [Arr (map Plain (a @ '','' @ b @ '','' @ c))]"

lemma vec_member_read:
  assumes "members_ok mem" and "span_of s (items_text (body_items mem)) b e" and "map_of mem key = Some (vec_items t u v)"
    and "e < length s" and "s ! e = CHR ''}''" and "reads_as t x" and "reads_as u y" and "reads_as v z"
  shows "json_vec3_member s b e key abc = (True, (x, y, z))"
proof -
  have shape: "items_text (vec_items t u v) = ''['' @ t @ '','' @ u @ '','' @ v @ '']''"
    by (simp add: vec_items_def)
  obtain p post where p: "json_member_value s b e key = Some p"
      "drop p s = ''['' @ t @ '','' @ u @ '','' @ v @ '']'' @ post" "p < length s"
    using member_value_next [OF assms(1-5)] by (metis shape append_assoc)
  have "s ! p = CHR ''[''" "drop (p + 1) s = t @ '','' @ u @ '','' @ v @ '']'' @ post"
    using p(2,3) nth_drop_0 [OF p(3)] by simp_all
  moreover have "stops ('']'' @ post)" by (simp add: stops_def)
  ultimately show ?thesis
    using p(1) reads_sscanf3 [OF assms(6-8), of "'']'' @ post" abc] by (simp add: json_vec3_member_def)
qed

end
