(* ===== verification/Respelled.thy ===== *)
theory Respelled
  imports Number_Text
begin

text \<open>
  The same JSON value in other letters. The core decodes what the mod sends and writes it again: numbers may be printed
  otherwise, strings escaped otherwise, the members of an object may change places and have company. What a text
  denotes is said here; the readers of \<^verbatim>\<open>PeerJson.hpp\<close> give it.
\<close>

section \<open>Strings\<close>

text \<open>\<open>spells r t\<close>: the body \<open>r\<close> of a JSON string stands for the bytes \<open>t\<close>.\<close>

definition short_escapes :: "(char \<times> char) set" where
  "short_escapes = {(chr_quote, chr_quote), (chr_backslash, chr_backslash), (CHR ''/'', CHR ''/''), (CHR ''b'', CHR 0x08),
     (CHR ''f'', CHR 0x0C), (CHR ''n'', CHR 0x0A), (CHR ''r'', CHR 0x0D), (CHR ''t'', CHR 0x09)}"

inductive spells :: "string \<Rightarrow> string \<Rightarrow> bool" where
  spells_nil: "spells [] []"
| spells_plain: "c \<noteq> chr_quote \<Longrightarrow> c \<noteq> chr_backslash \<Longrightarrow> spells r t \<Longrightarrow> spells (c # r) (c # t)"
| spells_short: "(c, d) \<in> short_escapes \<Longrightarrow> spells r t \<Longrightarrow> spells (chr_backslash # c # r) (d # t)"
| spells_unit: "length h = 4 \<Longrightarrow> hex_nat h 0 = Some n \<Longrightarrow> n < 0xD800 \<or> 0xE000 \<le> n \<Longrightarrow> spells r t \<Longrightarrow>
    spells (chr_backslash # CHR ''u'' # h @ r) (append_utf8 [] (of_nat n) @ t)"
| spells_pair: "length h = 4 \<Longrightarrow> length l = 4 \<Longrightarrow> hex_nat h 0 = Some n \<Longrightarrow> hex_nat l 0 = Some m \<Longrightarrow>
    0xD800 \<le> n \<Longrightarrow> n < 0xDC00 \<Longrightarrow> 0xDC00 \<le> m \<Longrightarrow> m < 0xE000 \<Longrightarrow> spells r t \<Longrightarrow>
    spells (chr_backslash # CHR ''u'' # h @ chr_backslash # CHR ''u'' # l @ r)
      (append_utf8 [] (of_nat (0x10000 + (n - 0xD800) * 1024 + (m - 0xDC00))) @ t)"

lemma hex4_read:
  assumes "length h = 4" and "hex_nat h 0 = Some n"
  shows "json_hex4 (pre @ h @ rest) (length pre) = Some (of_nat n)" and "n < 0x10000"
proof -
  have "map_option unat (json_hex4 (pre @ h @ rest) (length pre)) = Some n"
    using assms by (simp add: json_hex4_eq)
  then obtain w where w: "json_hex4 (pre @ h @ rest) (length pre) = Some w" "unat w = n" by auto
  then show "json_hex4 (pre @ h @ rest) (length pre) = Some (of_nat n)" and "n < 0x10000"
    using json_hex4_less [OF w(1)] by auto
qed

lemma of_nat_word_le:
  assumes "n < 0x10000" and "m < 0x10000"
  shows "(of_nat n :: u32) \<le> of_nat m \<longleftrightarrow> n \<le> m"
  using assms by (simp add: word_le_nat_alt unat_of_nat)

lemma unit_read:
  assumes "length h = 4" and "hex_nat h 0 = Some n" and "n < 0xD800 \<or> 0xE000 \<le> n"
  shows "json_unicode_escape (pre @ CHR ''u'' # h @ rest) (length pre) = Some (of_nat n, length pre + 4)"
proof -
  note h = hex4_read(1) [OF assms(1,2), where pre = "pre @ ''u''" and rest = rest] hex4_read(2) [OF assms(1,2)]
  have "(0xD800 \<le> (of_nat n :: u32) \<and> (of_nat n :: u32) \<le> 0xDBFF) = (0xD800 \<le> n \<and> n \<le> 0xDBFF)"
    "(0xDC00 \<le> (of_nat n :: u32) \<and> (of_nat n :: u32) \<le> 0xDFFF) = (0xDC00 \<le> n \<and> n \<le> 0xDFFF)"
    using of_nat_word_le [of "0xD800" n] of_nat_word_le [of n "0xDBFF"] of_nat_word_le [of "0xDC00" n] of_nat_word_le [of n "0xDFFF"] h(2)
    by simp_all
  then show ?thesis using h(1) assms(3) by (auto simp: json_unicode_escape_def Let_def)
qed

lemma pair_read:
  assumes "length h = 4" and "length l = 4" and "hex_nat h 0 = Some n" and "hex_nat l 0 = Some m"
    and "0xD800 \<le> n" and "n < 0xDC00" and "0xDC00 \<le> m" and "m < 0xE000"
  shows "json_unicode_escape (pre @ CHR ''u'' # h @ chr_backslash # CHR ''u'' # l @ rest) (length pre) =
    Some (of_nat (0x10000 + (n - 0xD800) * 1024 + (m - 0xDC00)), length pre + 10)"
proof -
  let ?s = "pre @ CHR ''u'' # h @ chr_backslash # CHR ''u'' # l @ rest"
  note hn = hex4_read(1) [OF assms(1,3), where pre = "pre @ ''u''" and rest = "chr_backslash # CHR ''u'' # l @ rest"] hex4_read(2) [OF assms(1,3)]
  note hm = hex4_read(1) [OF assms(2,4), where pre = "pre @ CHR ''u'' # h @ [chr_backslash, CHR ''u'']" and rest = rest] hex4_read(2) [OF assms(2,4)]
  have hi: "0xD800 \<le> (of_nat n :: u32)" "(of_nat n :: u32) \<le> 0xDBFF" and lo: "0xDC00 \<le> (of_nat m :: u32)" "(of_nat m :: u32) \<le> 0xDFFF"
    using of_nat_word_le [of "0xD800" n] of_nat_word_le [of n "0xDBFF"] of_nat_word_le [of "0xDC00" m] of_nat_word_le [of m "0xDFFF"]
      hn(2) hm(2) assms(5-8) by simp_all
  have un: "unat (of_nat n :: u32) = n" "unat (of_nat m :: u32) = m"
    using hn(2) hm(2) by (simp_all add: unat_of_nat)
  let ?v = "0x10000 + push_bit 10 (of_nat n - 0xD800) + (of_nat m - 0xDC00) :: u32"
  have "unat ?v = 0x10000 + (n - 0xD800) * 1024 + (m - 0xDC00)"
    using surrogate_pair_value [OF hi lo] by (simp only: un)
  moreover have "(of_nat (unat ?v) :: u32) = ?v" by simp
  ultimately have v: "?v = of_nat (0x10000 + (n - 0xD800) * 1024 + (m - 0xDC00))" by metis
  have at: "?s ! (length pre + 5) = chr_backslash" "?s ! (length pre + 6) = CHR ''u''" "length pre + 10 < length ?s"
    using assms(1,2) by (simp_all add: nth_append)
  show ?thesis
    using hn(1) hm(1) hi lo v at assms(1) by (simp add: json_unicode_escape_def Let_def add_ac)
qed

lemma decode_spelled:
  "spells r t \<Longrightarrow> json_decode_loop (pre @ r @ chr_quote # rest) (length pre) out = out @ t"
proof (induction arbitrary: pre out rule: spells.induct)
  case spells_nil
  show ?case by (simp add: json_decode_loop_quote)
next
  case (spells_plain c r t)
  then show ?case
    using json_decode_loop_raw [of c pre "r @ chr_quote # rest" out] spells_plain.IH [of "pre @ [c]" "out @ [c]"] by simp
next
  case (spells_short c d r t)
  have "json_decode_loop (pre @ (chr_backslash # c # r) @ chr_quote # rest) (length pre) out =
      json_decode_loop ((pre @ [chr_backslash, c]) @ r @ chr_quote # rest) (length (pre @ [chr_backslash, c])) (out @ [d])"
    using spells_short.hyps(1)
    by (subst json_decode_loop.simps) (auto simp: json_escape_at_def short_escapes_def nth_append)
  then show ?case using spells_short.IH [of "pre @ [chr_backslash, c]" "out @ [d]"] by simp
next
  case (spells_unit h n r t)
  let ?pre = "pre @ chr_backslash # CHR ''u'' # h" and ?bs = "append_utf8 [] (of_nat n)"
  note u = unit_read [OF spells_unit.hyps(1-3), of "pre @ [chr_backslash]" "r @ chr_quote # rest"]
  have "json_decode_loop (pre @ (chr_backslash # CHR ''u'' # h @ r) @ chr_quote # rest) (length pre) out =
      json_decode_loop (?pre @ r @ chr_quote # rest) (length ?pre) (out @ ?bs)"
    using u spells_unit.hyps(1) by (subst json_decode_loop.simps) (simp add: json_escape_at_def nth_append add.commute)
  then show ?case using spells_unit.IH [of ?pre "out @ ?bs"] by simp
next
  case (spells_pair h l n m r t)
  let ?pre = "pre @ chr_backslash # CHR ''u'' # h @ chr_backslash # CHR ''u'' # l"
  let ?bs = "append_utf8 [] (of_nat (0x10000 + (n - 0xD800) * 1024 + (m - 0xDC00)))"
  note u = pair_read [OF spells_pair.hyps(1-8), of "pre @ [chr_backslash]" "r @ chr_quote # rest"]
  have "json_decode_loop (pre @ (chr_backslash # CHR ''u'' # h @ chr_backslash # CHR ''u'' # l @ r) @ chr_quote # rest) (length pre) out =
      json_decode_loop (?pre @ r @ chr_quote # rest) (length ?pre) (out @ ?bs)"
    using u spells_pair.hyps(1,2) by (subst json_decode_loop.simps) (simp add: json_escape_at_def nth_append add.commute)
  then show ?case using spells_pair.IH [of ?pre "out @ ?bs"] by simp
qed

lemma spells_unique: "spells r t \<Longrightarrow> spells r u \<Longrightarrow> t = u"
  using decode_spelled [of r t "[]" "[]" "[]"] decode_spelled [of r u "[]" "[]" "[]"] by simp

lemma spells_escape: "spells (json_escape t) t"
  by (induction t) (auto simp: short_escapes_def intro: spells.intros)

lemma json_string_member_spelled:
  assumes "members_ok mem" and "span_of s (items_text (body_items mem)) b e" and "map_of mem key = Some [Str r]" and "spells r t"
  shows "json_string_member s b e key = t"
proof -
  from json_member_value_span [OF assms(1-3)] obtain p where
    v: "json_member_value s b e key = Some p" and sp: "span_of s (item_text (Str r)) p (p + length (item_text (Str r)))"
    by simp metis
  from sp obtain pre post where s: "s = pre @ chr_quote # r @ chr_quote # post" and p: "p = length pre"
    by (auto simp: span_of_def)
  have "json_decode_string_at s (p + 1) = t"
    using decode_spelled [OF assms(4), of "pre @ [chr_quote]" post "[]"] by (simp add: json_decode_string_at_def s p)
  moreover have "s ! p = chr_quote" by (simp add: s p)
  ultimately show ?thesis by (simp add: json_string_member_def v)
qed

section \<open>Values\<close>

datatype jvalue = Num dbl | Bytes string | Vec dbl dbl dbl

fun denotes :: "jitem list \<Rightarrow> jvalue \<Rightarrow> bool" where
  "denotes v (Num x) = (\<exists>t. v = number_items t \<and> reads_as t x)"
| "denotes v (Bytes u) = (\<exists>r. v = [Str r] \<and> spells r u)"
| "denotes v (Vec x y z) = (\<exists>a b c. v = vec_items a b c \<and> reads_as a x \<and> reads_as b y \<and> reads_as c z)"

text \<open>
  Every member of \<open>mem\<close> is a member of \<open>mem2\<close> with the same value, objects inside apart; \<open>mem2\<close> may hold more and in
  any order.
\<close>

definition handed_on :: "members \<Rightarrow> members \<Rightarrow> bool" where
  "handed_on mem mem2 \<longleftrightarrow>
     (\<forall>(k, v)\<in>set mem. (\<exists>its. v = [Obj its]) \<or> (\<exists>v' j. map_of mem2 k = Some v' \<and> denotes v j \<and> denotes v' j))"

lemma reads_as_unique: "reads_as t x \<Longrightarrow> reads_as t y \<Longrightarrow> x = y"
  by (auto simp: reads_as_def stops_def dest: spec [of _ "[]"])

lemma number_items_inj: "map Plain t = map Plain u \<Longrightarrow> t = u"
  by (rule map_injective) (auto intro: injI)

lemma denotes_number: "denotes (number_items t) j \<Longrightarrow> reads_as t x \<Longrightarrow> j = Num x"
  by (cases j) (auto simp: vec_items_def map_eq_Cons_conv dest: reads_as_unique number_items_inj)

lemma denotes_string: "denotes [Str r] j \<Longrightarrow> spells r u \<Longrightarrow> j = Bytes u"
  by (cases j) (auto simp: vec_items_def map_eq_Cons_conv dest: spells_unique)

lemma number_split:
  assumes "reads_as a x" and "reads_as a' x'" and "a @ CHR '','' # r = a' @ CHR '','' # r'"
  shows "a = a'" and "r = r'"
proof -
  have c: "\<not> number_char (CHR '','')" by (simp add: number_char_def is_digit_def byte_of_def)
  have "takeWhile number_char (t @ CHR '','' # u) = t" if "reads_as t y" for t u y
    using that c by (subst takeWhile_append2) (auto simp: reads_as_def list_all_iff)
  from this [OF assms(1)] this [OF assms(2)] show "a = a'" using assms(3) by metis
  with assms(3) show "r = r'" by simp
qed

lemma denotes_vec:
  assumes "denotes (vec_items a b c) j" and "reads_as a x" and "reads_as b y" and "reads_as c z"
  shows "j = Vec x y z"
proof (cases j)
  case (Vec x' y' z')
  then obtain a' b' c' where v: "vec_items a b c = vec_items a' b' c'" and r: "reads_as a' x'" "reads_as b' y'" "reads_as c' z'"
    using assms(1) by auto
  have e: "a @ CHR '','' # b @ CHR '','' # c = a' @ CHR '','' # b' @ CHR '','' # c'"
    using v number_items_inj [of "a @ CHR '','' # b @ CHR '','' # c" "a' @ CHR '','' # b' @ CHR '','' # c'"] by (simp add: vec_items_def)
  note first = number_split [OF assms(2) r(1) e]
  note second = number_split [OF assms(3) r(2) first(2)]
  show ?thesis
    using Vec assms(2-4) r first(1) second by (auto dest: reads_as_unique)
qed (use assms(1) in \<open>auto simp: vec_items_def map_eq_Cons_conv Cons_eq_map_conv\<close>)

text \<open>What a member's value is, wherever it is handed on.\<close>

lemma handed_onD:
  assumes "handed_on mem mem2" and "map_of mem k = Some v" and "\<And>its. v \<noteq> [Obj its]"
  obtains v' j where "map_of mem2 k = Some v'" and "denotes v j" and "denotes v' j"
  using assms map_of_SomeD [OF assms(2)] by (fastforce simp: handed_on_def)

lemma handed_on_again:
  assumes "\<forall>(k, v)\<in>set mem. map_of mem2 k = Some v \<and> ((\<exists>its. v = [Obj its]) \<or> (\<exists>j. denotes v j))"
  shows "handed_on mem mem2"
  using assms by (fastforce simp: handed_on_def)

end
