(* ===== verification/Local_Props.thy ===== *)
theory Local_Props
  imports Respelled Session_Props
begin

text \<open>
  What the \<^verbatim>\<open>local_state\<close> line carries across, and what the reads behind it count.
\<close>

section \<open>The line as a tree\<close>



fun vec_member :: "(dbl \<Rightarrow> string) \<Rightarrow> triple \<Rightarrow> jitem list" where
  "vec_member f (x, y, z) = vec_items (f x) (f y) (f z)"




lemma vec_member_text [simp]: "items_text (vec_member f v) = vec_text f v"
  by (cases v) (simp add: vec_items_def vec_text_def)



section \<open>What a sample must be like\<close>












section \<open>The sent object is well formed\<close>


lemma reads_flag: "reads_as (show_flag b) (Fin (if b then 1 else 0))"
  using small_int_reads [of "if b then 1 else 0"] by (cases b) (simp_all add: show_flag_def)

lemma reads_word8: "reads_as (show_int (uint (w :: 8 word))) (Fin (of_int (uint w)))"
  using small_int_reads [of "uint w"] uint_bounded [of w] by simp

lemma reads_word32: "reads_as (show_int (uint (w :: u32))) (Fin (of_int (uint w)))"
  using small_int_reads [of "uint w"] uint_bounded [of w] by simp

lemma reads_int32: "\<bar>i\<bar> < 2 ^ 31 \<Longrightarrow> reads_as (show_int i) (Fin (of_int i))"
  using small_int_reads [of i] by simp

lemmas reads_intros = reads_flag reads_word8 reads_word32 reads_int32 show_int_reads









section \<open>The line read back\<close>











lemma num_true_flag [simp]: "num_true (Fin (if b then 1 else 0)) = b" "num_true (Fin 0) = False" "num_true (Fin 1) = True"
  by (simp_all add: num_true_def dbl_ne_def)























end
