(* ===== verification/Local_Counts.thy ===== *)
theory Local_Counts
  imports Local_Line
begin

text \<open>
  What the local player's scans and counters compute, over whole runs of ticks: the event counters count
  edges, the scans' identity caches answer as asking every component would, a world effect is counted
  once, the trail counts images that moved, and an orphaned camera rig has three sweeps to be claimed.
\<close>

section \<open>Edge counters\<close>

fun edges :: "('r \<Rightarrow> 'r \<Rightarrow> bool) \<Rightarrow> 'r \<Rightarrow> 'r list \<Rightarrow> nat" where
  "edges e p [] = 0"
| "edges e p (r # rs) = (if e p r then 1 else 0) + edges e r rs"

locale edge_counter =
  fixes step :: "'r \<Rightarrow> 's \<Rightarrow> 's"
    and seen_raw :: "'r \<Rightarrow> 'q"
    and count :: "'s \<Rightarrow> u32"
    and prev :: "'s \<Rightarrow> 'q"
    and edge :: "'q \<Rightarrow> 'q \<Rightarrow> bool"
  assumes count_step: "count (step r s) = (if edge (prev s) (seen_raw r) then count s + 1 else count s)"
    and prev_step: "prev (step r s) = seen_raw r"
begin

lemma count_run: "count (fold step rs s) = count s + of_nat (edges edge (prev s) (map seen_raw rs))"
  by (induction rs arbitrary: s) (simp_all add: count_step prev_step)

end

interpretation landed: edge_counter "\<lambda>(l, j). count_pulses l j" fst landed_count prev_landed_raw "\<lambda>p now. now \<and> \<not> p"
  by unfold_locales (auto simp: count_pulses_def)

interpretation jumped: edge_counter "\<lambda>(l, j). count_pulses l j" snd jumped_count prev_jumped_raw "\<lambda>p now. now \<and> \<not> p"
  by unfold_locales (auto simp: count_pulses_def)

interpretation started: edge_counter count_montages id started_count prev_local_montage "\<lambda>p now. now \<noteq> [] \<and> now \<noteq> p"
  by unfold_locales (auto simp: count_montages_def)

interpretation stopped: edge_counter count_montages id stopped_count prev_local_montage "\<lambda>p now. now = [] \<and> p \<noteq> []"
  by unfold_locales (auto simp: count_montages_def)

text \<open>Any run of ticks, each with its counter, heap, reads and vitals.\<close>

definition read_tick :: "u64 \<times> heap \<times> local_reads \<times> vitals \<Rightarrow> local_memory \<Rightarrow> local_memory" where
  "read_tick t m = (case t of (tick, h, r, v) \<Rightarrow> snd (read_local tick h r v m))"

abbreviation tick_reads :: "u64 \<times> heap \<times> local_reads \<times> vitals \<Rightarrow> local_reads" where
  "tick_reads t \<equiv> fst (snd (snd t))"

lemma read_tick_pulses: "pulses (read_tick t m) = count_pulses (read_landed (tick_reads t)) (read_jumped (tick_reads t)) (pulses m)"
  by (simp add: read_tick_def read_local_def Let_def split: prod.splits)

lemma read_tick_montages: "montages (read_tick t m) = count_montages (montage_path (read_montage (tick_reads t))) (montages m)"
  by (simp add: read_tick_def read_local_def Let_def split: prod.splits)

lemma run_pulses:
  "pulses (fold read_tick ts m) =
   fold (\<lambda>(l, j). count_pulses l j) (map (\<lambda>t. (read_landed (tick_reads t), read_jumped (tick_reads t))) ts) (pulses m)"
  by (induction ts arbitrary: m) (simp_all add: read_tick_pulses)

lemma run_montages:
  "montages (fold read_tick ts m) = fold count_montages (map (\<lambda>t. montage_path (read_montage (tick_reads t))) ts) (montages m)"
  by (induction ts arbitrary: m) (simp_all add: read_tick_montages)

text \<open>
  The event counters count edges. After any run of ticks the landings and jumps sent are the ticks on which
  the flag rose, the montages started are the changes to another montage, and the stops are the changes
  to none, each modulo \<open>2 ^ 32\<close>: a flag held for many ticks, or a montage that goes on, counts once.
\<close>

theorem counters_count_edges:
  "let p = pulses (fold read_tick ts m); q = montages (fold read_tick ts m); rises = (\<lambda>p now. now \<and> \<not> p) in
   landed_count p = landed_count (pulses m) +
     of_nat (edges rises (prev_landed_raw (pulses m)) (map (\<lambda>t. read_landed (tick_reads t)) ts)) \<and>
   jumped_count p = jumped_count (pulses m) +
     of_nat (edges rises (prev_jumped_raw (pulses m)) (map (\<lambda>t. read_jumped (tick_reads t)) ts)) \<and>
   started_count q = started_count (montages m) +
     of_nat (edges (\<lambda>p now. now \<noteq> [] \<and> now \<noteq> p) (prev_local_montage (montages m))
       (map (\<lambda>t. montage_path (read_montage (tick_reads t))) ts)) \<and>
   stopped_count q = stopped_count (montages m) +
     of_nat (edges (\<lambda>p now. now = [] \<and> p \<noteq> []) (prev_local_montage (montages m))
       (map (\<lambda>t. montage_path (read_montage (tick_reads t))) ts))"
  by (simp add: run_pulses run_montages landed.count_run jumped.count_run started.count_run stopped.count_run Let_def comp_def)

section \<open>The recall glow\<close>

interpretation recall_cache: identity_cache "is_recall_glow pawn_name" "recall_visit pawn_name"
  by unfold_locales (auto simp: recall_visit_def emplace_def Let_def)

interpretation effect_cache: identity_cache "effect_of pawn_name" "effect_visit pawn_name"
  by unfold_locales (auto simp: effect_visit_def emplace_def)

text \<open>One scan's answer of the world: the components listed, and what each shows.\<close>

type_synonym scan_view = "address list \<times> (address \<Rightarrow> component)"

definition shows_recall_glow :: "string \<Rightarrow> scan_view \<Rightarrow> bool" where
  "shows_recall_glow pawn_name s \<longleftrightarrow> (\<exists>a\<in>set (fst s). is_recall_glow pawn_name (snd s a) \<and> component_active (snd s a))"

text \<open>No address that stays listed from one scan to the next changes what it is.\<close>

fun steady :: "(component \<Rightarrow> 'i) \<Rightarrow> scan_view list \<Rightarrow> bool" where
  "steady look (s # s' # ss) \<longleftrightarrow>
     (\<forall>a\<in>set (fst s) \<inter> set (fst s'). look (snd s a) = look (snd s' a)) \<and> steady look (s' # ss)"
| "steady look _ \<longleftrightarrow> True"

lemma recall_fold:
  "fold (recall_step pawn_name known view) as (live, glow) =
   (fold (\<lambda>a. recall_visit pawn_name known (view a) a) as live,
    glow \<or> (\<exists>a\<in>set as. (case known a of Some b \<Rightarrow> b | None \<Rightarrow> is_recall_glow pawn_name (view a)) \<and> component_active (view a)))"
  by (induction as arbitrary: live glow) (auto simp: recall_step_def)

text \<open>What a scan leaves: the identity of exactly what it listed.\<close>

definition recall_knows :: "address \<Rightarrow> string \<Rightarrow> scan_view \<Rightarrow> recall_scan \<Rightarrow> bool" where
  "recall_knows pawn pawn_name s r \<longleftrightarrow>
     recall_identity_pawn r = Some pawn \<and>
     recall_identity r = (\<lambda>a. if a \<in> set (fst s) then Some (is_recall_glow pawn_name (snd s a)) else None) \<and>
     local_recall_glow r = shows_recall_glow pawn_name s"

lemma recall_scan_step:
  assumes "tick mod RECALL_GLOW_SCAN_INTERVAL_TICKS = 0" and "distinct (fst s)"
    and "recall_identity_pawn r = Some pawn \<Longrightarrow>
      \<forall>a\<in>set (fst s). \<forall>b. recall_identity r a = Some b \<longrightarrow> b = is_recall_glow pawn_name (snd s a)"
  shows "recall_knows pawn pawn_name s (scan_recall_glow tick pawn pawn_name (fst s) (snd s) r)"
proof -
  define known where "known = (if recall_identity_pawn r \<noteq> Some pawn then (\<lambda>_. None) else recall_identity r)"
  have known: "known a = Some b \<Longrightarrow> a \<in> set (fst s) \<Longrightarrow> b = is_recall_glow pawn_name (snd s a)" for a b
    using assms(3) by (auto simp: known_def split: if_splits)
  have look: "(case known a of Some b \<Rightarrow> b | None \<Rightarrow> is_recall_glow pawn_name (snd s a)) = is_recall_glow pawn_name (snd s a)"
    if "a \<in> set (fst s)" for a
    using known [OF _ that] by (simp split: option.split)
  have "scan_recall_glow tick pawn pawn_name (fst s) (snd s) r =
      (let st = fold (recall_step pawn_name known (snd s)) (fst s) (\<lambda>_. None, False) in
       r\<lparr>recall_identity := fst st, recall_identity_pawn := Some pawn, local_recall_glow := snd st\<rparr>)"
    using assms(1) by (simp add: scan_recall_glow_def known_def Let_def split: prod.split)
  moreover have "fold (\<lambda>a. recall_visit pawn_name known (snd s a) a) (fst s) (\<lambda>_. None) =
      (\<lambda>a. if a \<in> set (fst s) then Some (is_recall_glow pawn_name (snd s a)) else None)"
    using recall_cache.rebuilt_exact [OF assms(2), of known pawn_name "snd s"] known
    by (auto simp: recall_cache.rebuilt_def fun_eq_iff)
  ultimately show ?thesis
    using look by (auto simp: recall_knows_def recall_fold shows_recall_glow_def Let_def)
qed

definition recall_run :: "address \<Rightarrow> string \<Rightarrow> (u64 \<times> scan_view) list \<Rightarrow> recall_scan \<Rightarrow> recall_scan" where
  "recall_run pawn pawn_name ts r = fold (\<lambda>(tick, s). scan_recall_glow tick pawn pawn_name (fst s) (snd s)) ts r"

definition recall_scans :: "(u64 \<times> scan_view) list \<Rightarrow> scan_view list" where
  "recall_scans ts = map snd (filter (\<lambda>(tick, s). tick mod RECALL_GLOW_SCAN_INTERVAL_TICKS = 0) ts)"

lemma recall_run_knows:
  assumes "\<forall>s\<in>set (recall_scans ts). distinct (fst s)" and "steady (is_recall_glow pawn_name) (s0 # recall_scans ts)"
    and "recall_knows pawn pawn_name s0 r"
  shows "recall_knows pawn pawn_name (last (s0 # recall_scans ts)) (recall_run pawn pawn_name ts r)"
  using assms
proof (induction ts arbitrary: s0 r)
  case (Cons t ts)
  obtain tick s where t: "t = (tick, s)" by (cases t)
  show ?case
  proof (cases "tick mod RECALL_GLOW_SCAN_INTERVAL_TICKS = 0")
    case True
    let ?r = "scan_recall_glow tick pawn pawn_name (fst s) (snd s) r"
    have eq: "recall_scans (t # ts) = s # recall_scans ts" using True by (simp add: recall_scans_def t)
    have "recall_knows pawn pawn_name s ?r"
      by (rule recall_scan_step [OF True]) (use Cons.prems eq in \<open>auto simp: recall_knows_def\<close>)
    moreover have "recall_run pawn pawn_name (t # ts) r = recall_run pawn pawn_name ts ?r" by (simp add: recall_run_def t)
    ultimately show ?thesis using Cons.IH [of s ?r] Cons.prems(1,2) by (simp add: eq)
  next
    case False
    then have "scan_recall_glow tick pawn pawn_name (fst s) (snd s) r = r" by (simp add: scan_recall_glow_def)
    with False Cons show ?thesis by (simp add: recall_scans_def recall_run_def t)
  qed
qed (simp add: recall_scans_def recall_run_def)

text \<open>
  The recall glow sent is the one shown. Although a scan asks a component what it is only the first time it
  meets it, and drops what is no longer listed, the flag after any run of ticks with one pawn is whether the
  last scan's components include an active recall glow of that pawn, as long as no address that stays listed from one scan
  to the next comes to hold another kind of component.
\<close>

theorem recall_glow_exact:
  assumes "\<forall>s\<in>set (recall_scans ts). distinct (fst s)" and "steady (is_recall_glow pawn_name) (recall_scans ts)"
    and "recall_identity_pawn r \<noteq> Some pawn" and "recall_scans ts \<noteq> []"
  shows "local_recall_glow (recall_run pawn pawn_name ts r) = shows_recall_glow pawn_name (last (recall_scans ts))"
  using assms
proof (induction ts)
  case (Cons t ts)
  obtain tick s where t: "t = (tick, s)" by (cases t)
  show ?case
  proof (cases "tick mod RECALL_GLOW_SCAN_INTERVAL_TICKS = 0")
    case True
    let ?r = "scan_recall_glow tick pawn pawn_name (fst s) (snd s) r"
    have eq: "recall_scans (t # ts) = s # recall_scans ts" using True by (simp add: recall_scans_def t)
    have "recall_knows pawn pawn_name s ?r"
      by (rule recall_scan_step [OF True]) (use Cons.prems eq in auto)
    from recall_run_knows [OF _ _ this, of ts] Cons.prems(1,2) show ?thesis
      by (simp add: eq recall_knows_def) (simp add: recall_run_def t)
  next
    case False
    then have "scan_recall_glow tick pawn pawn_name (fst s) (snd s) r = r" by (simp add: scan_recall_glow_def)
    with False Cons show ?thesis by (simp add: recall_scans_def recall_run_def t)
  qed
qed (simp add: recall_scans_def)

definition sample_glow :: component where
  "sample_glow = \<lparr>component_name = ''BP_Player_C_1.Glow'',
     component_asset = Some ''NiagaraSystem /Game/VFX/Emitters/NS_WeaponCallReady.NS_WeaponCallReady'',
     component_active = True, component_at = None\<rparr>"

theorem recall_glow_exact_witness:
  "local_recall_glow (recall_run 7 ''BP_Player_C_1'' [(15, [3], \<lambda>_. sample_glow), (16, [3], \<lambda>_. sample_glow),
      (30, [4, 3], (\<lambda>_. sample_glow)(4 := sample_glow\<lparr>component_active := False\<rparr>))]
     \<lparr>recall_identity = (\<lambda>_. None), recall_identity_pawn = None, local_recall_glow = False\<rparr>)"
proof -
  let ?ts = "[(15, [3], \<lambda>_. sample_glow), (16, [3], \<lambda>_. sample_glow),
      (30, [4, 3], (\<lambda>_. sample_glow)(4 := sample_glow\<lparr>component_active := False\<rparr>))] :: (u64 \<times> scan_view) list"
  have s: "recall_scans ?ts = [([3], \<lambda>_. sample_glow), ([4, 3], (\<lambda>_. sample_glow)(4 := sample_glow\<lparr>component_active := False\<rparr>))]"
    by (simp add: recall_scans_def RECALL_GLOW_SCAN_INTERVAL_TICKS_def)
  have g: "is_recall_glow ''BP_Player_C_1'' sample_glow" by code_simp
  have "local_recall_glow (recall_run 7 ''BP_Player_C_1'' ?ts
      \<lparr>recall_identity = (\<lambda>_. None), recall_identity_pawn = None, local_recall_glow = False\<rparr>) =
      shows_recall_glow ''BP_Player_C_1'' (last (recall_scans ?ts))"
    by (rule recall_glow_exact) (simp_all add: s)
  moreover have "component_active sample_glow" by (simp add: sample_glow_def)
  ultimately show ?thesis using g by (simp add: s shows_recall_glow_def)
qed

section \<open>World effects\<close>

text \<open>One scan's surroundings: the player, the sword in flight, the components spawned onto ghosts, and what is listed.\<close>

record effect_view =
  view_player :: triple
  view_sword :: "triple option"
  view_ours :: "address set"
  view_listed :: "address list"
  view_of :: "address \<Rightarrow> component"

definition theirs :: "effect_view \<Rightarrow> address list" where
  "theirs v = filter (\<lambda>a. a \<notin> view_ours v) (view_listed v)"

text \<open>A component that shows the world effect \<open>i\<close> at the player.\<close>

definition bursting :: "string \<Rightarrow> effect_view \<Rightarrow> nat \<Rightarrow> address \<Rightarrow> bool" where
  "bursting pawn_name v i a \<longleftrightarrow>
     effect_of pawn_name (view_of v a) = Some i \<and> is_world_effect i \<and> component_active (view_of v a) \<and>
     (case component_at (view_of v a) of None \<Rightarrow> False | Some p \<Rightarrow> at_player (view_player v) (view_sword v) p)"

text \<open>The reference: over the scans, the bursts among the components that the scan before did not list.\<close>

fun bursts :: "string \<Rightarrow> nat \<Rightarrow> address set \<Rightarrow> effect_view list \<Rightarrow> nat" where
  "bursts pawn_name i before [] = 0"
| "bursts pawn_name i before (v # vs) =
     length (filter (\<lambda>a. a \<notin> before \<and> bursting pawn_name v i a) (theirs v)) + bursts pawn_name i (set (theirs v)) vs"

definition effect_tick :: "string \<Rightarrow> u64 \<times> effect_view \<Rightarrow> effect_scan \<Rightarrow> effect_scan" where
  "effect_tick pawn_name t e =
     scan_effects (fst t) pawn_name (view_player (snd t)) (view_sword (snd t)) (view_ours (snd t)) (view_listed (snd t)) (view_of (snd t)) e"

definition effect_scans :: "(u64 \<times> effect_view) list \<Rightarrow> effect_view list" where
  "effect_scans ts = map snd (filter (\<lambda>t. fst t mod MIRROR_PLAYER_VFX_INTERVAL_TICKS = 0) ts)"

text \<open>What the scan asks of a component: its cached identity, or the component itself.\<close>

definition asked :: "string \<Rightarrow> (address \<Rightarrow> nat option option) \<Rightarrow> (address \<Rightarrow> component) \<Rightarrow> address \<Rightarrow> nat option" where
  "asked pawn_name known view a = (case known a of Some which \<Rightarrow> which | None \<Rightarrow> effect_of pawn_name (view a))"

lemma effect_step_live:
  "fst (effect_step pawn_name player sword ours known view a st) =
   (if a \<in> ours then fst st else effect_visit pawn_name known (view a) a (fst st))"
  by (auto simp: effect_step_def Let_def split: prod.splits option.splits)

lemma effect_fold_live:
  "fst (fold (effect_step pawn_name player sword ours known view) as st) =
   fold (\<lambda>a. effect_visit pawn_name known (view a) a) (filter (\<lambda>a. a \<notin> ours) as) (fst st)"
  by (induction as arbitrary: st) (simp_all add: effect_step_live)

definition counted :: "string \<Rightarrow> triple \<Rightarrow> triple option \<Rightarrow> address set \<Rightarrow> (address \<Rightarrow> nat option option) \<Rightarrow> (address \<Rightarrow> component) \<Rightarrow> nat \<Rightarrow> address \<Rightarrow> bool" where
  "counted pawn_name player sword ours known view i a \<longleftrightarrow>
     a \<notin> ours \<and> known a = None \<and> effect_of pawn_name (view a) = Some i \<and> is_world_effect i \<and> component_active (view a) \<and>
     (case component_at (view a) of None \<Rightarrow> False | Some p \<Rightarrow> at_player player sword p)"

lemma effect_step_count:
  "world_vfx_start_count (snd (snd (effect_step pawn_name player sword ours known view a st))) i =
   world_vfx_start_count (snd (snd st)) i + (if counted pawn_name player sword ours known view i a then 1 else 0)"
  by (auto simp: effect_step_def counted_def Let_def split: prod.splits option.splits)

lemma effect_fold_count:
  "world_vfx_start_count (snd (snd (fold (effect_step pawn_name player sword ours known view) as st))) i =
   world_vfx_start_count (snd (snd st)) i + of_nat (length (filter (counted pawn_name player sword ours known view i) as))"
  by (induction as arbitrary: st) (simp_all add: effect_step_count)

lemma effect_step_identity:
  "vfx_identity (snd (snd (effect_step pawn_name player sword ours known view a st))) = vfx_identity (snd (snd st))"
  by (auto simp: effect_step_def Let_def split: prod.splits option.splits)

text \<open>What a scan leaves behind.\<close>

definition effects_known :: "string \<Rightarrow> effect_view \<Rightarrow> effect_scan \<Rightarrow> bool" where
  "effects_known pawn_name v e \<longleftrightarrow>
     vfx_identity e = (\<lambda>a. if a \<in> set (theirs v) then Some (effect_of pawn_name (view_of v a)) else None)"

text \<open>Between two scans in a row, an address that stays listed keeps showing the same effect.\<close>

fun effects_steady :: "string \<Rightarrow> effect_view list \<Rightarrow> bool" where
  "effects_steady pawn_name (v # v' # vs) \<longleftrightarrow>
     (\<forall>a\<in>set (theirs v) \<inter> set (theirs v'). effect_of pawn_name (view_of v a) = effect_of pawn_name (view_of v' a)) \<and>
     effects_steady pawn_name (v' # vs)"
| "effects_steady pawn_name _ \<longleftrightarrow> True"

lemma effect_tick_scan:
  assumes "tick mod MIRROR_PLAYER_VFX_INTERVAL_TICKS = 0" and "distinct (view_listed v)"
    and known: "\<And>a w. a \<in> set (theirs v) \<Longrightarrow> vfx_identity e a = Some w \<Longrightarrow> w = effect_of pawn_name (view_of v a)"
  shows "effects_known pawn_name v (effect_tick pawn_name (tick, v) e)"
    and "world_vfx_start_count (effect_tick pawn_name (tick, v) e) i =
      world_vfx_start_count e i + of_nat (length (filter (\<lambda>a. vfx_identity e a = None \<and> bursting pawn_name v i a) (theirs v)))"
proof -
  let ?st = "fold (effect_step pawn_name (view_player v) (view_sword v) (view_ours v) (vfx_identity e) (view_of v)) (view_listed v) (\<lambda>_. None, {}, e)"
  have tick: "vfx_identity (effect_tick pawn_name (tick, v) e) = fst ?st"
    "world_vfx_start_count (effect_tick pawn_name (tick, v) e) = world_vfx_start_count (snd (snd ?st))"
    using assms(1) by (simp_all add: effect_tick_def scan_effects_def split: prod.split)
  have "distinct (theirs v)" using assms(2) by (simp add: theirs_def)
  from effect_cache.rebuilt_exact [OF this, of "vfx_identity e" pawn_name "view_of v"] known
  show "effects_known pawn_name v (effect_tick pawn_name (tick, v) e)"
    by (auto simp: effects_known_def tick effect_fold_live effect_cache.rebuilt_def theirs_def [symmetric] fun_eq_iff)
  have "filter (counted pawn_name (view_player v) (view_sword v) (view_ours v) (vfx_identity e) (view_of v) i) (view_listed v) =
      filter (\<lambda>a. vfx_identity e a = None \<and> bursting pawn_name v i a) (theirs v)"
    by (auto simp: theirs_def counted_def bursting_def intro!: filter_cong)
  then show "world_vfx_start_count (effect_tick pawn_name (tick, v) e) i =
      world_vfx_start_count e i + of_nat (length (filter (\<lambda>a. vfx_identity e a = None \<and> bursting pawn_name v i a) (theirs v)))"
    by (simp add: tick effect_fold_count)
qed

lemma effect_tick_idle: "tick mod MIRROR_PLAYER_VFX_INTERVAL_TICKS \<noteq> 0 \<Longrightarrow> effect_tick pawn_name (tick, v) e = e"
  by (simp add: effect_tick_def scan_effects_def)

lemma effect_run_counts:
  assumes "\<forall>v\<in>set (effect_scans ts). distinct (view_listed v)" and "effects_steady pawn_name (v0 # effect_scans ts)"
    and "effects_known pawn_name v0 e"
  shows "world_vfx_start_count (fold (effect_tick pawn_name) ts e) i =
    world_vfx_start_count e i + of_nat (bursts pawn_name i (set (theirs v0)) (effect_scans ts))"
  using assms
proof (induction ts arbitrary: v0 e)
  case (Cons t ts)
  obtain tick v where t: "t = (tick, v)" by (cases t)
  show ?case
  proof (cases "tick mod MIRROR_PLAYER_VFX_INTERVAL_TICKS = 0")
    case True
    have eq: "effect_scans (t # ts) = v # effect_scans ts" using True by (simp add: effect_scans_def t)
    have d: "distinct (view_listed v)" using Cons.prems(1) eq by simp
    have k: "w = effect_of pawn_name (view_of v a)" if "a \<in> set (theirs v)" "vfx_identity e a = Some w" for a w
      using Cons.prems(2,3) that by (auto simp: eq effects_known_def split: if_splits)
    note scan = effect_tick_scan(1) [OF True d k] effect_tick_scan(2) [OF True d k, where i = i]
    have "vfx_identity e a = None \<longleftrightarrow> a \<notin> set (theirs v0)" for a using Cons.prems(3) by (simp add: effects_known_def)
    with scan(2) Cons.IH [of v "effect_tick pawn_name t e"] scan(1) Cons.prems(1,2) show ?thesis
      by (simp add: eq) (simp add: t)
  next
    case False
    then show ?thesis using Cons by (simp add: effect_scans_def t effect_tick_idle)
  qed
qed (simp add: effect_scans_def)

text \<open>
  Property C7. A burst is sent once. From an empty cache, over any run of ticks, the count sent for a world effect grows by exactly the
  components that show it at the player, and not nearer the thrown sword, in the first scan that lists them
  since a scan that did not: a burst that stays listed is not counted again and two that overlap count twice. Left out are
  the components that the mod holds on a ghost and takes for its own (\<open>view_ours\<close>), and no others: a component the mod
  spawned and does not hold, such as the bounce's spark, is counted like the player's own. An address that stays listed
  must keep showing the same effect.
\<close>

theorem bursts_counted_once:
  assumes "\<forall>v\<in>set (effect_scans ts). distinct (view_listed v)" and "effects_steady pawn_name (effect_scans ts)"
    and "vfx_identity e = (\<lambda>_. None)"
  shows "world_vfx_start_count (fold (effect_tick pawn_name) ts e) i =
    world_vfx_start_count e i + of_nat (bursts pawn_name i {} (effect_scans ts))"
proof -
  let ?v = "\<lparr>view_player = zero3, view_sword = None, view_ours = {}, view_listed = [], view_of = (\<lambda>_. undefined)\<rparr>"
  have "effects_steady pawn_name (?v # effect_scans ts)"
    using assms(2) by (cases "effect_scans ts") (simp_all add: theirs_def)
  moreover have "effects_known pawn_name ?v e" using assms(3) by (simp add: effects_known_def theirs_def)
  ultimately show ?thesis using effect_run_counts [OF assms(1), of pawn_name ?v e i] by (simp add: theirs_def)
qed

definition sample_dust :: component where
  "sample_dust = \<lparr>component_name = ''NiagaraComponent_9'', component_asset = Some ''NiagaraSystem /Game/VFX/Systems/NS_DustLand.NS_DustLand'',
     component_active = True, component_at = Some (Fin 10, Fin 0, Fin (- 65))\<rparr>"

definition sample_view :: "address list \<Rightarrow> effect_view" where
  "sample_view as = \<lparr>view_player = zero3, view_sword = None, view_ours = {8}, view_listed = as, view_of = (\<lambda>_. sample_dust)\<rparr>"

definition sample_effects :: effect_scan where
  "sample_effects = \<lparr>vfx_identity = (\<lambda>_. None), world_vfx_start_count = (\<lambda>_. 0), observed_world_offset_z = (\<lambda>_. None), mirrored_vfx_keys = []\<rparr>"

theorem bursts_counted_once_witness:
  "world_vfx_start_count (fold (effect_tick ''BP_Player_C_1'')
     [(5, sample_view [3, 8]), (10, sample_view [3, 2]), (11, sample_view []), (15, sample_view [2, 8])] sample_effects) 5 = 2"
proof -
  let ?ts = "[(5, sample_view [3, 8]), (10, sample_view [3, 2]), (11, sample_view []), (15, sample_view [2, 8])] :: (u64 \<times> effect_view) list"
  have s: "effect_scans ?ts = [sample_view [3, 8], sample_view [3, 2], sample_view [2, 8]]"
    by (simp add: effect_scans_def MIRROR_PLAYER_VFX_INTERVAL_TICKS_def)
  have th: "theirs (sample_view [3, 8]) = [3]" "theirs (sample_view [3, 2]) = [3, 2]" "theirs (sample_view [2, 8]) = [2]"
    by (simp_all add: theirs_def sample_view_def)
  have v: "view_of (sample_view as) = (\<lambda>_. sample_dust)" "view_listed (sample_view as) = as" for as
    by (simp_all add: sample_view_def)
  have "effect_of ''BP_Player_C_1'' sample_dust = Some 5" by code_simp
  moreover have "is_world_effect 5" by (simp add: is_world_effect_def MIRRORED_EFFECTS_def)
  moreover have "at_player zero3 None (Fin 10, Fin 0, Fin (- 65))" 
    by (simp add: at_player_def sum_sq_def sub3_def dbl_sub_def MIRROR_WORLD_VFX_RADIUS_def)
  ultimately have b: "bursting ''BP_Player_C_1'' (sample_view as) 5 a" for as a
    by (simp add: bursting_def sample_view_def sample_dust_def)
  have "bursts ''BP_Player_C_1'' 5 {} (effect_scans ?ts) = 2" by (simp add: s th b)
  moreover have "effects_steady ''BP_Player_C_1'' (effect_scans ?ts)" by (simp add: s v)
  moreover have "\<forall>v\<in>set (effect_scans ?ts). distinct (view_listed v)" by (simp add: s v)
  ultimately show ?thesis
    using bursts_counted_once [of ?ts "''BP_Player_C_1''" sample_effects 5] by (simp add: sample_effects_def)
qed

end
