(* ===== verification/Local_Trail.thy ===== *)
theory Local_Trail
  imports Local_Line
begin

text \<open>
  The trail's scan, the sweep of orphaned camera rigs, and the thrown sword's bounces.
\<close>

section \<open>The trail\<close>

definition image_fresh :: "triple \<Rightarrow> (address \<Rightarrow> afterimage) \<Rightarrow> (address \<Rightarrow> triple option) \<Rightarrow> address \<Rightarrow> bool" where
  "image_fresh player view seen_at a \<longleftrightarrow>
     image_mine (view a) \<and> image_moved (seen_at a) (image_at (view a)) \<and> image_near player (image_at (view a))"

lemma observe_pos:
  "fst (observe_image player base view a st) =
   (if image_mine (view a) then (fst st)(a \<mapsto> image_at (view a)) else fst st)"
  by (auto simp: observe_image_def Let_def split: prod.splits option.splits)

lemma observe_new:
  "images_new (snd (observe_image player base view a st)) =
   images_new (snd st) + (if image_fresh player view (fst st) a then 1 else 0)"
  by (auto simp: observe_image_def image_fresh_def Let_def split: prod.splits option.splits)

lemma observe_fold:
  assumes "distinct as"
  shows "fst (fold (observe_image player base view) as st) b =
      (if b \<in> set as \<and> image_mine (view b) then Some (image_at (view b)) else fst st b)"
    and "images_new (snd (fold (observe_image player base view) as st)) =
      images_new (snd st) + length (filter (image_fresh player view (fst st)) as)"
  using assms
proof (induction as arbitrary: st)
  case (Cons a as)
  {
    case 1
    with Cons.IH(1) [of "observe_image player base view a st"] show ?case by (auto simp: observe_pos)
  next
    case 2
    let ?st = "observe_image player base view a st"
    have "filter (image_fresh player view (fst ?st)) as = filter (image_fresh player view (fst st)) as"
      using 2 by (auto simp: observe_pos image_fresh_def intro!: filter_cong split: if_splits)
    with 2 Cons.IH(2) [of ?st] show ?case by (simp add: observe_new)
  }
qed simp_all

text \<open>
  Property C11. The trail's scan counts images that were spawned. On a tick that is due, and after the first scan has primed
  the positions, the burst counter moves by one exactly when some of the local pawn's afterimages near the
  player is new or has moved since it was last seen, and the size sent is how many did; each of its images is remembered
  where it is now, so one that stays in the pool where it was is never counted again.
\<close>

theorem trail_counts_spawned:
  assumes "distinct images"
  shows "let fresh = filter (image_fresh player view (afterimage_pos_by_ptr t)) images;
      due = (afterimage_idle_next_scan_tick t \<le> tick);
      burst = (due \<and> afterimage_pos_primed t \<and> fresh \<noteq> []);
      t' = snd (trail_tick tick player pawn_color view images t)
    in trail_count t' = (if burst then trail_count t + 1 else trail_count t) \<and>
       afterimage_spawn_n t' = (if burst then int (length fresh) else afterimage_spawn_n t) \<and>
       (\<forall>a. afterimage_pos_by_ptr t' a =
          (if due \<and> a \<in> set images \<and> image_mine (view a) then Some (image_at (view a)) else afterimage_pos_by_ptr t a)) \<and>
       afterimage_pos_primed t' = (due \<or> afterimage_pos_primed t)"
proof -
  let ?base = "case pawn_color of None \<Rightarrow> zero3 | Some c \<Rightarrow> c"
  let ?st = "observe_local_afterimage_colors player ?base view images (afterimage_pos_by_ptr t)"
  note obs = observe_fold [OF assms, of player ?base view
      "(afterimage_pos_by_ptr t, \<lparr>images_new = 0, have_color = False, have_special = False, obs_color = zero3\<rparr>)",
      folded observe_local_afterimage_colors_def]
  have new: "images_new (snd ?st) = length (filter (image_fresh player view (afterimage_pos_by_ptr t)) images)"
    using obs(2) by simp
  have pos: "fst ?st a = (if a \<in> set images \<and> image_mine (view a) then Some (image_at (view a)) else afterimage_pos_by_ptr t a)" for a
    using obs(1) by simp
  show ?thesis
    by (cases ?st) (use new pos in \<open>auto simp: trail_tick_def Let_def\<close>)
qed

definition sample_image :: "rat \<Rightarrow> afterimage" where
  "sample_image x = \<lparr>image_mine = True, image_at = (Fin x, Fin 0, Fin 0), image_color = Some (Fin 1, Fin 0, Fin 0)\<rparr>"

definition sample_trail :: local_trail where
  "sample_trail = \<lparr>trail_count = 4, afterimage_spawn_n = 1, afterimage_have_observed_color = False, latched_afterimage_color = zero3,
     afterimage_pos_by_ptr = (\<lambda>_. None)(2 := Some (Fin 10, Fin 0, Fin 0), 3 := Some (Fin 90, Fin 0, Fin 0)),
     afterimage_pos_primed = True, afterimage_idle_next_scan_tick = 12\<rparr>"

text \<open>Of two pooled images one moved: one burst of one.\<close>

theorem trail_counts_spawned_witness:
  "trail_count (snd (trail_tick 12 zero3 None (\<lambda>_. sample_image 10) [2, 3] sample_trail)) = 5 \<and>
   afterimage_spawn_n (snd (trail_tick 12 zero3 None (\<lambda>_. sample_image 10) [2, 3] sample_trail)) = 1"
proof -
  have "filter (image_fresh zero3 (\<lambda>_. sample_image 10) (afterimage_pos_by_ptr sample_trail)) [2, 3] = [3]"
    by (simp add: image_fresh_def image_moved_def image_near_def sample_image_def sample_trail_def sum_sq_def sub3_def dbl_sub_def
        REUSE_MOVE_THRESHOLD_def AFTERIMAGE_SPAWN_PROXIMITY_UNITS_def)
  moreover have "distinct [2, 3 :: nat]" by simp
  ultimately show ?thesis
    using trail_counts_spawned [of "[2, 3]" zero3 "\<lambda>_. sample_image 10" sample_trail 12 None]
    by (simp add: Let_def sample_trail_def del: filter.simps)
qed

section \<open>Camera rigs\<close>

record rig_view =
  pawn_is_player :: bool
  owner_of :: "address \<Rightarrow> address option option"
  rigs_listed :: "address list"

definition orphan_in :: "address \<Rightarrow> rig_view \<Rightarrow> bool" where
  "orphan_in rig v \<longleftrightarrow> rig \<in> set (rigs_listed v) \<and> is_orphan (owner_of v) rig"

definition rig_tick :: "u64 \<times> rig_view \<Rightarrow> (address \<Rightarrow> nat option) \<Rightarrow> address list \<times> (address \<Rightarrow> nat option)" where
  "rig_tick t s = sweep_camera_rigs (fst t) (pawn_is_player (snd t)) (owner_of (snd t)) (rigs_listed (snd t)) s"

definition sweeps :: "(u64 \<times> rig_view) list \<Rightarrow> rig_view list" where
  "sweeps ts = map snd (filter (\<lambda>t. fst t mod CAMERA_RIG_SWEEP_INTERVAL_TICKS = 0 \<and> pawn_is_player (snd t)) ts)"

text \<open>How many sweeps in a row, up to the last, saw the rig orphaned.\<close>

definition streak :: "address \<Rightarrow> rig_view list \<Rightarrow> nat" where
  "streak rig vs = length (takeWhile (orphan_in rig) (rev vs))"

lemma streak_snoc: "streak rig (vs @ [v]) = (if orphan_in rig v then Suc (streak rig vs) else 0)"
  by (simp add: streak_def)

lemma sweep_fold:
  assumes "distinct rigs"
  shows "fst (fold (sweep_rig own) rigs (s, d)) rig =
      (if rig \<in> set rigs \<and> is_orphan own rig then Some (case s rig of None \<Rightarrow> 1 | Some k \<Rightarrow> k + 1) else s rig)"
    and "rig \<in> set (snd (fold (sweep_rig own) rigs (s, d))) \<longleftrightarrow>
      rig \<in> set d \<or> rig \<in> set rigs \<and> is_orphan own rig \<and>
        CAMERA_RIG_ORPHAN_SWEEPS_BEFORE_DESTROY \<le> (case s rig of None \<Rightarrow> 1 | Some k \<Rightarrow> k + 1)"
  using assms
proof (induction rigs arbitrary: s d)
  case (Cons a rigs)
  {
    case 1
    then show ?case using Cons.IH(1) by (auto simp: sweep_rig_def Let_def)
  next
    case 2
    then show ?case using Cons.IH(2) by (auto simp: sweep_rig_def Let_def not_less)
  }
qed simp_all

definition sightings_of :: "nat \<Rightarrow> nat option" where
  "sightings_of n = (if n = 0 then None else Some n)"

lemma sightings_next: "(case sightings_of n of None \<Rightarrow> 1 | Some k \<Rightarrow> k + 1) = Suc n"
  by (simp add: sightings_of_def)

lemma rig_sweep:
  assumes "fst t mod CAMERA_RIG_SWEEP_INTERVAL_TICKS = 0" and "pawn_is_player (snd t)" and "distinct (rigs_listed (snd t))"
    and "s = (\<lambda>rig. sightings_of (streak rig vs))"
  shows "snd (rig_tick t s) = (\<lambda>rig. sightings_of (streak rig (vs @ [snd t])))"
    and "rig \<in> set (fst (rig_tick t s)) \<longleftrightarrow> CAMERA_RIG_ORPHAN_SWEEPS_BEFORE_DESTROY \<le> streak rig (vs @ [snd t])"
proof -
  note fold = sweep_fold [OF assms(3), where own = "owner_of (snd t)" and s = s and d = "[]"]
  show "snd (rig_tick t s) = (\<lambda>rig. sightings_of (streak rig (vs @ [snd t])))"
    using assms(1,2) fold(1) sightings_next
    by (auto simp: rig_tick_def sweep_camera_rigs_def streak_snoc orphan_in_def assms(4) restrict_map_def fun_eq_iff
        sightings_of_def split: prod.splits)
  show "rig \<in> set (fst (rig_tick t s)) \<longleftrightarrow> CAMERA_RIG_ORPHAN_SWEEPS_BEFORE_DESTROY \<le> streak rig (vs @ [snd t])"
    using assms(1,2) fold(2) [where rig = rig] sightings_next
    by (auto simp: rig_tick_def sweep_camera_rigs_def streak_snoc orphan_in_def assms(4) CAMERA_RIG_ORPHAN_SWEEPS_BEFORE_DESTROY_def
        split: prod.splits)
qed

lemma rig_idle:
  "\<not> (fst t mod CAMERA_RIG_SWEEP_INTERVAL_TICKS = 0 \<and> pawn_is_player (snd t)) \<Longrightarrow> rig_tick t s = ([], s)"
  by (auto simp: rig_tick_def sweep_camera_rigs_def)

definition rig_run :: "(u64 \<times> rig_view) list \<Rightarrow> (address \<Rightarrow> nat option) \<Rightarrow> (address \<Rightarrow> nat option)" where
  "rig_run ts s = fold (\<lambda>t s. snd (rig_tick t s)) ts s"

lemma rig_run_streaks:
  assumes "\<forall>v\<in>set (sweeps ts). distinct (rigs_listed v)"
  shows "rig_run ts (\<lambda>rig. sightings_of (streak rig vs)) = (\<lambda>rig. sightings_of (streak rig (vs @ sweeps ts)))"
  using assms
proof (induction ts arbitrary: vs)
  case (Cons t ts)
  show ?case
  proof (cases "fst t mod CAMERA_RIG_SWEEP_INTERVAL_TICKS = 0 \<and> pawn_is_player (snd t)")
    case True
    then have eq: "sweeps (t # ts) = snd t # sweeps ts" by (simp add: sweeps_def)
    have "snd (rig_tick t (\<lambda>rig. sightings_of (streak rig vs))) = (\<lambda>rig. sightings_of (streak rig (vs @ [snd t])))"
      by (rule rig_sweep(1)) (use True Cons.prems eq in auto)
    with Cons.IH [of "vs @ [snd t]"] Cons.prems show ?thesis by (simp add: eq) (simp add: rig_run_def)
  next
    case False
    then have "sweeps (t # ts) = sweeps ts" by (simp add: sweeps_def)
    with Cons show ?thesis by (simp add: rig_run_def rig_idle [OF False])
  qed
qed (simp add: rig_run_def sweeps_def)

text \<open>
  An orphaned camera rig has three sweeps to be claimed. After any run of ticks, a tick destroys a rig exactly when it sweeps
  and this sweep and the two before it each listed the rig with no owner: a rig that found an owner, was missing from the
  list, or belongs to a build without the property in any of the three is left alone.
\<close>

theorem orphans_get_three_sweeps:
  assumes "\<forall>v\<in>set (sweeps (ts @ [t])). distinct (rigs_listed v)"
  shows "rig \<in> set (fst (rig_tick t (rig_run ts (\<lambda>_. None)))) \<longleftrightarrow>
    fst t mod CAMERA_RIG_SWEEP_INTERVAL_TICKS = 0 \<and> pawn_is_player (snd t) \<and>
    (\<exists>vs v w. sweeps (ts @ [t]) = vs @ [v, w, snd t] \<and> orphan_in rig v \<and> orphan_in rig w \<and> orphan_in rig (snd t))"
proof (cases "fst t mod CAMERA_RIG_SWEEP_INTERVAL_TICKS = 0 \<and> pawn_is_player (snd t)")
  case True
  then have eq: "sweeps (ts @ [t]) = sweeps ts @ [snd t]" by (simp add: sweeps_def)
  have run: "rig_run ts (\<lambda>_. None) = (\<lambda>rig. sightings_of (streak rig (sweeps ts)))"
    using rig_run_streaks [of ts "[]"] assms by (simp add: eq) (simp add: streak_def sightings_of_def)
  have "rig \<in> set (fst (rig_tick t (rig_run ts (\<lambda>_. None)))) \<longleftrightarrow> 3 \<le> streak rig (sweeps ts @ [snd t])"
    using rig_sweep(2) [OF _ _ _ run] True assms by (simp add: eq CAMERA_RIG_ORPHAN_SWEEPS_BEFORE_DESTROY_def)
  also have "\<dots> \<longleftrightarrow> (\<exists>vs v w. sweeps ts = vs @ [v, w] \<and> orphan_in rig v \<and> orphan_in rig w \<and> orphan_in rig (snd t))"
  proof (cases "sweeps ts" rule: rev_cases)
    case (snoc us w)
    then show ?thesis by (cases us rule: rev_cases) (auto simp: streak_snoc streak_def)
  qed (simp add: streak_def)
  finally show ?thesis using True by (simp add: eq)
qed (use rig_idle in auto)

definition sample_rigs :: "address list \<Rightarrow> rig_view" where
  "sample_rigs as = \<lparr>pawn_is_player = True, owner_of = (\<lambda>a. Some (if a = 9 then Some 7 else None)), rigs_listed = as\<rparr>"

theorem orphans_get_three_sweeps_witness:
  "4 \<in> set (fst (rig_tick (90, sample_rigs [4, 9]) (rig_run [(30, sample_rigs [4, 9]), (31, sample_rigs []), (60, sample_rigs [9, 4])] (\<lambda>_. None))))"
proof -
  let ?ts = "[(30, sample_rigs [4, 9]), (31, sample_rigs []), (60, sample_rigs [9, 4])] :: (u64 \<times> rig_view) list"
  have s: "sweeps (?ts @ [(90, sample_rigs [4, 9])]) = [] @ [sample_rigs [4, 9], sample_rigs [9, 4], snd (90 :: u64, sample_rigs [4, 9])]"
    by (simp add: sweeps_def CAMERA_RIG_SWEEP_INTERVAL_TICKS_def) (simp add: sample_rigs_def)
  have d: "distinct (rigs_listed (sample_rigs [4, 9]))" "distinct (rigs_listed (sample_rigs [9, 4]))"
    "pawn_is_player (sample_rigs [4, 9])" by (simp_all add: sample_rigs_def)
  have o: "orphan_in 4 (sample_rigs [4, 9])" "orphan_in 4 (sample_rigs [9, 4])"
    by (simp_all add: orphan_in_def is_orphan_def sample_rigs_def)
  have "\<forall>v\<in>set (sweeps (?ts @ [(90, sample_rigs [4, 9])])). distinct (rigs_listed v)" unfolding s using d by simp
  from orphans_get_three_sweeps [OF this, of 4] show ?thesis
    using s o d by (auto simp: CAMERA_RIG_SWEEP_INTERVAL_TICKS_def)
qed

section \<open>The bounce counter\<close>

text \<open>
  The velocity the counter compares with survives a catch: nothing resets it while no sword is out, so the first sample of
  the next throw is compared with the last one of the throw before.
\<close>

lemma caught_sword_keeps_velocity: "snd (read_sword None equipped f) = f" "snd (read_sword (Some w) (Some True) f) = f"
  by (simp_all add: read_sword_def)

definition sample_throw :: "rat \<Rightarrow> sword_reads" where
  "sample_throw v = \<lparr>sword_root = True, sword_at = (Fin 500, Fin 0, Fin 0), sword_rotation = zero3, sword_class_name = None,
     sword_state_byte = Some 0, sword_velocity = Some (Fin v, Fin 0, Fin 0), sword_glow_asset = None\<rparr>"

lemma phantom_bounce:
  "weapon_bounce_count (snd (read_sword (Some (sample_throw (- 900))) (Some False)
     (snd (read_sword None (Some True)
       (snd (read_sword (Some (sample_throw 900)) (Some False)
         \<lparr>weapon_bounce_count = 0, prev_vel = zero3, have_prev_vel = False\<rparr>)))))) = 1"
  by (simp add: read_sword_def sample_throw_def far_from_origin_def sum_sq_def MIN_PLAUSIBLE_DISTANCE_def track_bounce_def
      flipped_def Let_def)

end
