(* ===== verification/Ghost_Effects.thy ===== *)
theory Ghost_Effects
  imports Ghost_Props Local_State
begin

text \<open>
  The effects mirrored onto a ghost (\<^verbatim>\<open>Plugin.cpp\<close>: \<^verbatim>\<open>tick_remote_weapon\<close>, \<^verbatim>\<open>tick_remote_projectile\<close>,
  \<^verbatim>\<open>tick_remote_recall_glow\<close>, \<^verbatim>\<open>tick_remote_mirrored_vfx\<close>, and what the releases do to them): the thrown
  sword's flyer, its landing dust and glow, the shot, the empty-hand glow and the effects of the table. The
  components a \<^verbatim>\<open>RemoteGhost\<close> holds are handles; what the engine answers is an argument, and what is asked of it
  is a list of calls.
\<close>

section \<open>State\<close>

record ghost_fx =
  vfx_components :: "string \<Rightarrow> nat option option"
  vfx_counts :: "string \<Rightarrow> dbl option"
  vfx_counts_baselined :: bool
  recent_one_shot_components :: "nat list"
  projectile_component :: "nat option"
  projectile_component_world :: "nat option"
  last_failed_projectile_vfx :: string
  last_projectile_spawn_attempt_tick :: u64
  recall_glow_component :: "nat option"
  weapon_fly_component :: "nat option"
  weapon_glow_component :: "nat option"
  last_weapon_spawn_attempt_tick :: u64
  last_synced_weapon_state :: dbl
  last_seen_weapon_bounce :: dbl
  weapon_render_primed :: bool
  render_weapon :: triple
  weapon_seg_from :: triple
  weapon_seg_to :: triple
  weapon_seg_start_ms :: int
  weapon_seg_dur_ms :: int
  weapon_target_seen_ms :: int

definition new_fx :: ghost_fx where
  "new_fx = \<lparr>vfx_components = (\<lambda>_. None), vfx_counts = (\<lambda>_. None), vfx_counts_baselined = False,
     recent_one_shot_components = [], projectile_component = None, projectile_component_world = None,
     last_failed_projectile_vfx = [], last_projectile_spawn_attempt_tick = 0, recall_glow_component = None,
     weapon_fly_component = None, weapon_glow_component = None, last_weapon_spawn_attempt_tick = 0,
     last_synced_weapon_state = Fin (- 1), last_seen_weapon_bounce = Fin (- 1), weapon_render_primed = False,
     render_weapon = zero3, weapon_seg_from = zero3, weapon_seg_to = zero3, weapon_seg_start_ms = 0,
     weapon_seg_dur_ms = 0, weapon_target_seen_ms = 0\<rparr>"

text \<open>
  \<open>SpawnAt\<close>: asset, place, yaw, whether it destroys itself. \<open>StopComponent\<close> deactivates and destroys; \<open>StopNow\<close>
  hides, stops at once and destroys.
\<close>

datatype fx_call =
    SpawnAt string triple dbl bool
  | SpawnAttached string string "string option"
  | PlaceRelative nat triple
  | StopComponent nat
  | StopNow nat
  | SetVisible nat bool
  | SetHandVisible bool
  | MoveComponent nat triple triple
  | DieFadeBack

text \<open>The engine's answers; \<open>fx_spawned\<close> is the component a spawning call returned.\<close>

record fx_answers =
  asset_loaded :: "string \<Rightarrow> bool"
  peer_asset :: "string \<Rightarrow> bool"
  fx_spawned :: "fx_call \<Rightarrow> nat option"
  ghost_at :: triple
  attach_point :: "string \<Rightarrow> bool"
  has_relative :: bool
  has_hand :: bool
  flyer_made :: "nat option"
  prop_skipped :: bool
  fx_world :: "nat option"
  fx_now_ms :: int
  ghost_name :: string
  niagara_listed :: "nat list"
  niagara_view :: "nat \<Rightarrow> component"

type_synonym fx_stage = "remote_ghost \<times> ghost_fx"
type_synonym fx_step = "fx_stage \<Rightarrow> fx_call list \<times> fx_stage"

definition WEAPON_SEG_MIN_MS :: int where "WEAPON_SEG_MIN_MS = 16"
definition WEAPON_SEG_MAX_MS :: int where "WEAPON_SEG_MAX_MS = 400"
definition WEAPON_SNAP_DISTANCE :: rat where "WEAPON_SNAP_DISTANCE = 1500"
definition LANDED_WEAPON_STATE :: "8 word" where "LANDED_WEAPON_STATE = 3"
definition WEAPON_DUST_FLOOR_DROP :: rat where "WEAPON_DUST_FLOOR_DROP = 38"
definition WEAPON_GLOW_FLOOR_DROP :: rat where "WEAPON_GLOW_FLOOR_DROP = 38"
definition MAX_TRACKED_ONE_SHOTS :: nat where "MAX_TRACKED_ONE_SHOTS = 32"
definition DUST_LAND_ASSET :: string where "DUST_LAND_ASSET = ''/Game/VFX/Systems/NS_DustLand.NS_DustLand''"
definition WALL_KICK_ASSET :: string where "WALL_KICK_ASSET = ''/Game/VFX/Systems/NS_WallKickHit.NS_WallKickHit''"

definition remember_one_shot :: "nat option \<Rightarrow> ghost_fx \<Rightarrow> ghost_fx" where
  "remember_one_shot c f =
     (case c of
        None \<Rightarrow> f
      | Some h \<Rightarrow>
          let ring = recent_one_shot_components f @ [h] in
          f\<lparr>recent_one_shot_components := (if length ring > MAX_TRACKED_ONE_SHOTS then tl ring else ring)\<rparr>)"

definition below :: "rat \<Rightarrow> triple \<Rightarrow> triple" where
  "below depth p = (case p of (x, y, z) \<Rightarrow> (x, y, dbl_sub z (Fin depth)))"

section \<open>The thrown sword\<close>

definition sword_put_away :: "fx_answers \<Rightarrow> fx_step" where
  "sword_put_away a st = (case st of (r, f) \<Rightarrow>
     let show_hand = has_hand a \<and> weapon_hand_hidden (latches r)
     in ((case weapon_fly_component f of None \<Rightarrow> [] | Some c \<Rightarrow> [SetVisible c False]) @
         (case weapon_glow_component f of None \<Rightarrow> [] | Some c \<Rightarrow> [StopNow c]) @
         (if show_hand then [SetHandVisible True] else []),
         r\<lparr>latches := (latches r)\<lparr>weapon_hand_hidden := (if show_hand then False else weapon_hand_hidden (latches r))\<rparr>\<rparr>,
         f\<lparr>weapon_glow_component := None, weapon_render_primed := False, last_synced_weapon_state := Fin (- 1)\<rparr>))"

text \<open>The flyer, made from the hand mesh at most once in 120 ticks; \<open>False\<close>: there is none, and the tick ends.\<close>

definition make_flyer :: "fx_answers \<Rightarrow> u64 \<Rightarrow> ghost_fx \<Rightarrow> bool \<times> ghost_fx" where
  "make_flyer a tick f =
     (if weapon_fly_component f \<noteq> None then (True, f)
      else if tick - last_weapon_spawn_attempt_tick f < LOG_INTERVAL_TICKS \<and> last_weapon_spawn_attempt_tick f \<noteq> 0 then (False, f)
      else
        let made = (if has_hand a then flyer_made a else None)
        in (made \<noteq> None, f\<lparr>last_weapon_spawn_attempt_tick := tick, weapon_fly_component := made\<rparr>))"

definition on_flyer :: "(nat \<Rightarrow> fx_call) \<Rightarrow> ghost_fx \<Rightarrow> fx_call list" where
  "on_flyer call f = (case weapon_fly_component f of None \<Rightarrow> [] | Some c \<Rightarrow> [call c])"

definition sword_show :: "fx_answers \<Rightarrow> fx_step" where
  "sword_show a st = (case st of (r, f) \<Rightarrow>
     let hide = has_hand a \<and> \<not> weapon_hand_hidden (latches r)
     in ((if hide then [SetHandVisible False] else []) @ on_flyer (\<lambda>c. SetVisible c True) f,
         r\<lparr>latches := (latches r)\<lparr>weapon_hand_hidden := (hide \<or> weapon_hand_hidden (latches r))\<rparr>\<rparr>, f))"

definition must_snap :: "triple \<Rightarrow> ghost_fx \<Rightarrow> bool" where
  "must_snap target f \<longleftrightarrow>
     \<not> weapon_render_primed f \<or>
     dbl_less (Fin (WEAPON_SNAP_DISTANCE * WEAPON_SNAP_DISTANCE)) (sum_sq (sub3 target (render_weapon f)))"

definition ne3 :: "triple \<Rightarrow> triple \<Rightarrow> bool" where
  "ne3 v w = (case v of (x, y, z) \<Rightarrow> case w of (x', y', z') \<Rightarrow> dbl_ne x x' \<or> dbl_ne y y' \<or> dbl_ne z z')"

definition clamp_dur :: "int \<Rightarrow> int" where
  "clamp_dur d = (let d = (if d < WEAPON_SEG_MIN_MS then WEAPON_SEG_MIN_MS else d) in
                  if d > WEAPON_SEG_MAX_MS then WEAPON_SEG_MAX_MS else d)"

text \<open>A quotient of two whole numbers as doubles; the second is positive.\<close>

definition quot_double :: "int \<Rightarrow> int \<Rightarrow> dbl" where
  "quot_double m n =
     (case (rnd_double (of_int m), rnd_double (of_int n)) of (Fin x, Fin y) \<Rightarrow> rnd_double (x / y) | _ \<Rightarrow> NaN)"

definition glide_progress :: "int \<Rightarrow> ghost_fx \<Rightarrow> dbl" where
  "glide_progress now f =
     (if weapon_seg_dur_ms f > 0
      then let t = quot_double (now - weapon_seg_start_ms f) (weapon_seg_dur_ms f);
               t = (if dbl_less t (Fin 0) then Fin 0 else t)
           in if dbl_less (Fin 1) t then Fin 1 else t
      else Fin 1)"

definition along :: "triple \<Rightarrow> triple \<Rightarrow> dbl \<Rightarrow> triple" where
  "along v w t = (case v of (x, y, z) \<Rightarrow> case w of (x', y', z') \<Rightarrow>
     (dbl_add x (dbl_mult (dbl_sub x' x) t), dbl_add y (dbl_mult (dbl_sub y' y) t), dbl_add z (dbl_mult (dbl_sub z' z) t)))"

definition snap_to :: "int \<Rightarrow> triple \<Rightarrow> ghost_fx \<Rightarrow> ghost_fx" where
  "snap_to now target f =
     f\<lparr>render_weapon := target, weapon_seg_from := target, weapon_seg_to := target, weapon_seg_start_ms := now,
       weapon_seg_dur_ms := 0, weapon_target_seen_ms := now, weapon_render_primed := True\<rparr>"

definition next_segment :: "int \<Rightarrow> triple \<Rightarrow> ghost_fx \<Rightarrow> ghost_fx" where
  "next_segment now target f =
     (if ne3 target (weapon_seg_to f)
      then f\<lparr>weapon_seg_from := render_weapon f, weapon_seg_to := target, weapon_seg_start_ms := now,
             weapon_seg_dur_ms := clamp_dur (now - weapon_target_seen_ms f), weapon_target_seen_ms := now\<rparr>
      else f)"

definition glide :: "int \<Rightarrow> triple \<Rightarrow> ghost_fx \<Rightarrow> ghost_fx" where
  "glide now target f =
     (if must_snap target f then snap_to now target f
      else let f = next_segment now target f
           in f\<lparr>render_weapon := along (weapon_seg_from f) (weapon_seg_to f) (glide_progress now f)\<rparr>)"

definition sword_glide :: "fx_answers \<Rightarrow> fx_step" where
  "sword_glide a st = (case st of (r, f) \<Rightarrow> ([], r, glide (fx_now_ms a) (weapon_pos (weapon r)) f))"

text \<open>A landing: dust, remembered as the mod's own, and the glow ring the peer named.\<close>

definition sword_land :: "fx_answers \<Rightarrow> fx_step" where
  "sword_land a st = (case st of (r, f) \<Rightarrow>
     if \<not> dbl_ne (weapon_state (weapon r)) (last_synced_weapon_state f) then ([], r, f)
     else
       let f = f\<lparr>last_synced_weapon_state := weapon_state (weapon r)\<rparr> in
       if clamp_to_uint8 (weapon_state (weapon r)) \<noteq> LANDED_WEAPON_STATE then ([], r, f)
       else
         let dust = SpawnAt DUST_LAND_ASSET (below WEAPON_DUST_FLOOR_DROP (weapon_pos (weapon r))) (Fin 0) True;
             ring = SpawnAt (weapon_glow (weapon r)) (below WEAPON_GLOW_FLOOR_DROP (weapon_pos (weapon r))) (Fin 0) False;
             dusted = asset_loaded a DUST_LAND_ASSET;
             glowing = (weapon_glow_component f = None \<and> weapon_glow (weapon r) \<noteq> [] \<and> peer_asset a (weapon_glow (weapon r)));
             f = (if dusted then remember_one_shot (fx_spawned a dust) f else f)
         in ((if dusted then [dust] else []) @ (if glowing then [ring] else []),
             r, if glowing then f\<lparr>weapon_glow_component := fx_spawned a ring\<rparr> else f))"

definition sword_bounce :: "fx_answers \<Rightarrow> fx_step" where
  "sword_bounce a st = (case st of (r, f) \<Rightarrow>
     if dbl_less (last_seen_weapon_bounce f) (Fin 0) then ([], r, f\<lparr>last_seen_weapon_bounce := weapon_bounce (weapon r)\<rparr>)
     else if dbl_less (last_seen_weapon_bounce f) (weapon_bounce (weapon r))
     then (if asset_loaded a WALL_KICK_ASSET then [SpawnAt WALL_KICK_ASSET (render_weapon f) (Fin 0) True] else [],
           r, f\<lparr>last_seen_weapon_bounce := weapon_bounce (weapon r)\<rparr>)
     else ([], r, f))"

definition sword_seat_glow :: fx_step where
  "sword_seat_glow st = (case st of (r, f) \<Rightarrow>
     ((case weapon_glow_component f of
         None \<Rightarrow> []
       | Some c \<Rightarrow> if clamp_to_uint8 (weapon_state (weapon r)) = LANDED_WEAPON_STATE
                   then [MoveComponent c (below WEAPON_GLOW_FLOOR_DROP (weapon_pos (weapon r))) zero3] else []), r, f))"

definition sword_place :: fx_step where
  "sword_place st = (case st of (r, f) \<Rightarrow>
     (on_flyer (\<lambda>c. MoveComponent c (render_weapon f)
        (case weapon_rot (weapon r) of (pitch, yaw, roll) \<Rightarrow> (pitch, yaw, dbl_add roll (Fin 90)))) f, r, f))"

definition tick_remote_weapon :: "fx_answers \<Rightarrow> u64 \<Rightarrow> fx_step" where
  "tick_remote_weapon a tick st = (case st of (r, f) \<Rightarrow>
     if prop_skipped a \<or> ghost r = None then ([], st)
     else if \<not> weapon_thrown (weapon r) then sword_put_away a st
     else case make_flyer a tick f of
            (False, f) \<Rightarrow> ([], r, f)
          | (True, f) \<Rightarrow>
              run_steps [sword_show a, sword_glide a, sword_land a, sword_bounce a, sword_seat_glow, sword_place] (r, f))"

section \<open>The shot\<close>

text \<open>A component of another world died with it.\<close>

definition forget_old_world :: "nat option \<Rightarrow> ghost_fx \<Rightarrow> ghost_fx" where
  "forget_old_world now f =
     (if projectile_component f \<noteq> None \<and> now \<noteq> None \<and> projectile_component_world f \<noteq> None \<and> projectile_component_world f \<noteq> now
      then f\<lparr>projectile_component := None, projectile_component_world := None\<rparr> else f)"

definition spawn_shot :: "fx_answers \<Rightarrow> u64 \<Rightarrow> remote_ghost \<Rightarrow> ghost_fx \<Rightarrow> fx_call list \<times> ghost_fx" where
  "spawn_shot a tick r f =
     (let vfx = projectile_vfx (projectile r) in
      if projectile_component f \<noteq> None then ([], f)
      else if vfx = [] \<or> fx_world a = None then ([], f)
      else if vfx = last_failed_projectile_vfx f \<and> tick - last_projectile_spawn_attempt_tick f < LOG_INTERVAL_TICKS then ([], f)
      else
        let f = f\<lparr>last_projectile_spawn_attempt_tick := tick\<rparr> in
        if \<not> peer_asset a vfx then ([], f\<lparr>last_failed_projectile_vfx := vfx\<rparr>)
        else
          let call = SpawnAt vfx (projectile_pos (projectile r)) (Fin 0) False;
              f = f\<lparr>last_failed_projectile_vfx := [], projectile_component := fx_spawned a call\<rparr>
          in ([call], if fx_spawned a call = None then f else f\<lparr>projectile_component_world := fx_world a\<rparr>))"

definition tick_remote_projectile :: "fx_answers \<Rightarrow> u64 \<Rightarrow> fx_step" where
  "tick_remote_projectile a tick st = (case st of (r, f) \<Rightarrow>
     let f = forget_old_world (fx_world a) f in
     if \<not> projectile_active (projectile r)
     then (case projectile_component f of None \<Rightarrow> [] | Some c \<Rightarrow> [StopComponent c],
           r, if projectile_component f = None then f else f\<lparr>projectile_component := None, projectile_component_world := None\<rparr>)
     else
       (case spawn_shot a tick r f of (calls, f) \<Rightarrow>
          (calls @ (case projectile_component f of
                      None \<Rightarrow> []
                    | Some c \<Rightarrow> if has_relative a then [PlaceRelative c (projectile_pos (projectile r))] else []), r, f)))"

section \<open>The recall glow\<close>

definition sweep_self_glow :: "fx_answers \<Rightarrow> fx_step" where
  "sweep_self_glow a st = (case st of (r, f) \<Rightarrow>
     if recall_glow_swept (latches r) then ([], st)
     else (map StopComponent (filter (\<lambda>c. Some c \<noteq> recall_glow_component f \<and> is_recall_glow (ghost_name a) (niagara_view a c)) (niagara_listed a)),
           r\<lparr>latches := (latches r)\<lparr>recall_glow_swept := True\<rparr>\<rparr>, f))"

definition show_recall_glow :: "fx_answers \<Rightarrow> fx_step" where
  "show_recall_glow a st = (case st of (r, f) \<Rightarrow>
     let want = target_recall_glow (anim r) in
     if want = recall_glow_shown (latches r) then ([], st)
     else
       let r = r\<lparr>latches := (latches r)\<lparr>recall_glow_shown := want\<rparr>\<rparr> in
       if \<not> want
       then (case recall_glow_component f of None \<Rightarrow> [] | Some c \<Rightarrow> [StopComponent c], r, f\<lparr>recall_glow_component := None\<rparr>)
       else if \<not> asset_loaded a RECALL_GLOW_ASSET \<or> \<not> has_hand a then ([], r, f)
       else let call = SpawnAttached RECALL_GLOW_ASSET ''WeaponMesh'' None
            in ([call], r, f\<lparr>recall_glow_component := fx_spawned a call\<rparr>))"

definition tick_remote_recall_glow :: "fx_answers \<Rightarrow> fx_step" where
  "tick_remote_recall_glow a st =
     (if ghost (fst st) = None then ([], st) else run_steps [sweep_self_glow a, show_recall_glow a] st)"

section \<open>The effects of the table\<close>

text \<open>\<^verbatim>\<open>find_first_of(",:", pos)\<close>.\<close>

definition find_delim :: "string \<Rightarrow> nat \<Rightarrow> nat option" where
  "find_delim s pos = find (\<lambda>i. s ! i = CHR '','' \<or> s ! i = CHR '':'') [pos..<length s]"

definition wire_number :: "string \<Rightarrow> dbl option" where
  "wire_number number =
     (if number \<noteq> [] \<and> length number \<le> 10 \<and> list_all is_digit number
      then Some (case scan_double False number of None \<Rightarrow> Fin 0 | Some (x, _) \<Rightarrow> x) else None)"

text \<open>One token: the end of its key, its end, and the comma after it.\<close>

definition vfx_token :: "string \<Rightarrow> nat \<Rightarrow> nat \<times> nat \<times> nat option" where
  "vfx_token s pos =
     (case find_delim s pos of
        None \<Rightarrow> (length s, length s, None)
      | Some d \<Rightarrow>
          if s ! d = CHR '':'' then
            (let comma = str_find s '','' d in (d, (case comma of None \<Rightarrow> length s | Some c \<Rightarrow> c), comma))
          else (d, d, Some d))"

lemma find_delim_bounds: "find_delim s pos = Some d \<Longrightarrow> pos \<le> d \<and> d < length s"
  by (auto simp: find_delim_def find_Some_iff)

lemma vfx_token_comma: "vfx_token s pos = (k, e, Some c) \<Longrightarrow> pos \<le> c \<and> c < length s"
  using find_delim_bounds [of s pos] str_find_char [of s "CHR '',''"]
  by (fastforce simp: vfx_token_def Let_def split: option.splits if_splits)

function read_vfx_from :: "string \<Rightarrow> string \<Rightarrow> nat \<Rightarrow> bool \<times> dbl option" where
  "read_vfx_from s key pos =
     (if pos > length s then (False, None)
      else (case vfx_token s pos of (key_end, stop, comma) \<Rightarrow>
        if str_compare_eq s pos (key_end - pos) key
        then (True, if key_end \<noteq> stop then wire_number (str_substr s (key_end + 1) (stop - key_end - 1)) else None)
        else (case comma of None \<Rightarrow> (False, None) | Some c \<Rightarrow> read_vfx_from s key (c + 1))))"
  by pat_completeness auto
termination
  by (relation "measure (\<lambda>(s, key, pos). Suc (length s) - pos)") (auto dest: vfx_token_comma [OF sym])

declare read_vfx_from.simps [simp del]

definition read_vfx :: "string \<Rightarrow> string \<Rightarrow> bool \<times> dbl option" where
  "read_vfx s key = read_vfx_from s key 0"

text \<open>A one-shot row: a count first seen is a baseline, a larger one is a burst.\<close>

definition play_burst :: "fx_answers \<Rightarrow> (nat \<Rightarrow> dbl option) \<Rightarrow> nat \<Rightarrow> dbl \<Rightarrow> fx_step" where
  "play_burst a offset i c st = (case st of (r, f) \<Rightarrow>
     let effect = MIRRORED_EFFECTS ! i; key = effect_key effect in
     case (if vfx_counts_baselined f then vfx_counts f key else None) of
       None \<Rightarrow> ([], r, f\<lparr>vfx_counts := (vfx_counts f)(key \<mapsto> c)\<rparr>)
     | Some n \<Rightarrow>
         if dbl_le c n then ([], r, f)
         else
           let f = f\<lparr>vfx_counts := (vfx_counts f)(key \<mapsto> c)\<rparr> in
           if \<not> asset_loaded a (effect_asset effect) then ([], r, f)
           else
             let z = (case offset i of None \<Rightarrow> Fin (world_offset_z effect) | Some z \<Rightarrow> z);
                 call = SpawnAt (effect_asset effect) (case ghost_at a of (x, y, gz) \<Rightarrow> (x, y, dbl_add gz z))
                          (if use_performer_yaw effect then fst (snd (target_rot (pose r))) else Fin 0) True
             in ([call], r, remember_one_shot (fx_spawned a call) f))"

text \<open>A sustained row: its component is there while the key is.\<close>

definition sustain_effect :: "fx_answers \<Rightarrow> nat \<Rightarrow> bool \<Rightarrow> fx_step" where
  "sustain_effect a i wanted st = (case st of (r, f) \<Rightarrow>
     let effect = MIRRORED_EFFECTS ! i; key = effect_key effect in
     case (wanted, Option.bind (vfx_components f key) id) of
       (True, None) \<Rightarrow>
         if \<not> asset_loaded a (effect_asset effect) \<or> \<not> attach_point a (attach_prop effect) then ([], r, f)
         else
           let call = SpawnAttached (effect_asset effect) (attach_prop effect) (socket effect); made = fx_spawned a call
           in (call #
               (case made of
                  None \<Rightarrow> []
                | Some c \<Rightarrow> if attach_offset effect \<noteq> (0, 0, 0) \<and> has_relative a
                            then [PlaceRelative c (case attach_offset effect of (x, y, z) \<Rightarrow> (Fin x, Fin y, Fin z))] else []) @
               (if key = ''rsp'' then [DieFadeBack] else []),
               r, f\<lparr>vfx_components := (vfx_components f)(key \<mapsto> made)\<rparr>)
     | (False, Some c) \<Rightarrow> ([StopComponent c], r, f\<lparr>vfx_components := (vfx_components f)(key := None)\<rparr>)
     | _ \<Rightarrow> ([], r, f))"

definition vfx_row :: "fx_answers \<Rightarrow> (nat \<Rightarrow> dbl option) \<Rightarrow> nat \<Rightarrow> fx_step" where
  "vfx_row a offset i st =
     (case read_vfx (target_vfx (anim (fst st))) (effect_key (MIRRORED_EFFECTS ! i)) of
        (wanted, count) \<Rightarrow>
          if is_world_effect i
          then (case (wanted, count) of (True, Some c) \<Rightarrow> play_burst a offset i c st | _ \<Rightarrow> ([], st))
          else sustain_effect a i wanted st)"

definition baseline_counts :: fx_step where
  "baseline_counts st = (case st of (r, f) \<Rightarrow> ([], r, f\<lparr>vfx_counts_baselined := True\<rparr>))"

definition tick_remote_mirrored_vfx :: "fx_answers \<Rightarrow> (nat \<Rightarrow> dbl option) \<Rightarrow> fx_step" where
  "tick_remote_mirrored_vfx a offset st =
     (if ghost (fst st) = None then ([], st)
      else run_steps (map (vfx_row a offset) [0..<MIRRORED_EFFECT_COUNT] @ [baseline_counts]) st)"

text \<open>The four, in the order of the remotes loop.\<close>

definition tick_ghost_fx :: "fx_answers \<Rightarrow> (nat \<Rightarrow> dbl option) \<Rightarrow> u64 \<Rightarrow> fx_step" where
  "tick_ghost_fx a offset tick =
     run_steps [tick_remote_weapon a tick, tick_remote_projectile a tick, tick_remote_recall_glow a, tick_remote_mirrored_vfx a offset]"

section \<open>Letting go\<close>

text \<open>\<^verbatim>\<open>release_ghost\<close>: what the ghost left in the world is stopped if it still lives.\<close>

definition fx_components :: "ghost_fx \<Rightarrow> nat list" where
  "fx_components f = List.map_filter (\<lambda>e. Option.bind (vfx_components f (effect_key e)) id) MIRRORED_EFFECTS"

definition stranded :: "ghost_fx \<Rightarrow> nat list" where
  "stranded f =
     List.map_filter id [weapon_glow_component f, projectile_component f] @ fx_components f @ recent_one_shot_components f"

definition destroy_world_spawned_components :: "nat list \<Rightarrow> nat list \<Rightarrow> fx_call list" where
  "destroy_world_spawned_components live candidates = map StopNow (filter (\<lambda>c. c \<in> set live) candidates)"

definition release_fx :: "nat list \<Rightarrow> ghost_fx \<Rightarrow> fx_call list \<times> ghost_fx" where
  "release_fx live f =
     (destroy_world_spawned_components live (stranded f),
      f\<lparr>recent_one_shot_components := [], weapon_glow_component := None, weapon_fly_component := None,
        recall_glow_component := None, projectile_component := None, projectile_component_world := None,
        vfx_components := (\<lambda>_. None)\<rparr>)"

text \<open>\<^verbatim>\<open>release_all_ghosts\<close>: the level takes the components with it.\<close>

definition drop_fx :: "ghost_fx \<Rightarrow> ghost_fx" where
  "drop_fx f =
     f\<lparr>weapon_fly_component := None, weapon_render_primed := False, weapon_glow_component := None,
       last_synced_weapon_state := Fin (- 1), vfx_components := (\<lambda>_. None), recent_one_shot_components := [],
       projectile_component := None, projectile_component_world := None, recall_glow_component := None\<rparr>"

text \<open>The stale branches of the loop.\<close>

definition stale_fx :: "ghost_fx \<Rightarrow> ghost_fx" where
  "stale_fx f = f\<lparr>vfx_components := (\<lambda>_. None), weapon_fly_component := None, recall_glow_component := None\<rparr>"

text \<open>What the local scan must not take for the player's own.\<close>

definition own_fx :: "ghost_fx list \<Rightarrow> address set" where
  "own_fx fs = set (concat (map (\<lambda>f. fx_components f @ recent_one_shot_components f) fs))"

end
