(* ===== verification/Effect_Props.thy ===== *)
theory Effect_Props
  imports Ghost_Effects Number_Text
begin

text \<open>
  What the effects of a player become on the others' screens: the list of keys read back, bursts played once
  per rise, sustained effects present while sent, and what the thrown sword's flyer does between samples.
\<close>

section \<open>The list of keys\<close>

lemma find_upt:
  assumes "P d" and "a \<le> d" and "d < b" and "\<And>i. a \<le> i \<Longrightarrow> i < d \<Longrightarrow> \<not> P i"
  shows "find P [a..<b] = Some d"
  unfolding find_Some_iff
  by (intro exI [of _ "d - a"]) (use assms in auto)

lemma find_from_char:
  "find_from [c] i s = (if c \<in> set s then Some (i + length (takeWhile (\<lambda>x. x \<noteq> c) s)) else None)"
proof (induction s arbitrary: i)
  case (Cons x s)
  then show ?case by (auto simp: find_from.simps [of "[c]" i "x # s"])
qed (simp add: find_from.simps)

lemma str_find_comma:
  "pos \<le> length s \<Longrightarrow> str_find s [c] pos =
     (if c \<in> set (drop pos s) then Some (pos + length (takeWhile (\<lambda>x. x \<noteq> c) (drop pos s))) else None)"
  by (simp add: str_find_def find_from_char)

definition delim :: "char \<Rightarrow> bool" where
  "delim c \<longleftrightarrow> c = CHR '','' \<or> c = CHR '':''"

definition clean :: "string \<Rightarrow> bool" where
  "clean s \<longleftrightarrow> list_all (\<lambda>c. \<not> delim c) s"

text \<open>An entry of the list: a key, and a number for a one-shot row.\<close>

definition entry_text :: "string \<times> string option \<Rightarrow> string" where
  "entry_text e = fst e @ (case snd e of None \<Rightarrow> [] | Some n \<Rightarrow> CHR '':'' # n)"

definition entry_ok :: "string \<times> string option \<Rightarrow> bool" where
  "entry_ok e \<longleftrightarrow> clean (fst e) \<and> (case snd e of None \<Rightarrow> True | Some n \<Rightarrow> clean n)"

definition ends_entry :: "string \<Rightarrow> bool" where
  "ends_entry s \<longleftrightarrow> s = [] \<or> hd s = CHR '',''"

lemma find_delim_at:
  assumes "clean k" and "t = [] \<or> delim (hd t)"
  shows "find_delim (pre @ k @ t) (length pre) = (if t = [] then None else Some (length pre + length k))"
proof -
  have k: "\<not> delim ((pre @ k @ t) ! i)" if "length pre \<le> i" "i < length pre + length k" for i
    using assms(1) that by (auto simp: clean_def list_all_length nth_append)
  show ?thesis
  proof (cases t)
    case Nil
    then show ?thesis
      using k by (auto simp: find_delim_def find_None_iff delim_def)
  next
    case (Cons c t')
    then have "delim ((pre @ k @ t) ! (length pre + length k))" using assms(2) by (simp add: nth_append)
    then have "find (\<lambda>i. delim ((pre @ k @ t) ! i)) [length pre..<length (pre @ k @ t)] = Some (length pre + length k)"
      by (rule find_upt) (use k Cons in auto)
    with Cons show ?thesis by (simp add: find_delim_def delim_def)
  qed
qed

lemma takeWhile_to: "c \<notin> set u \<Longrightarrow> takeWhile (\<lambda>x. x \<noteq> c) (u @ c # v) = u"
  by (induction u) auto

lemma clean_comma: "clean s \<Longrightarrow> CHR '','' \<notin> set s"
  by (auto simp: clean_def list_all_iff delim_def)

lemma vfx_token_entry:
  assumes "entry_ok e" and "ends_entry t"
  shows "vfx_token (pre @ entry_text e @ t) (length pre) =
    (length pre + length (fst e), length pre + length (entry_text e),
     if t = [] then None else Some (length pre + length (entry_text e)))"
proof (cases "snd e")
  case None
  then have e: "entry_text e = fst e" by (simp add: entry_text_def)
  have "find_delim (pre @ fst e @ t) (length pre) = (if t = [] then None else Some (length pre + length (fst e)))"
    using assms by (intro find_delim_at) (auto simp: entry_ok_def ends_entry_def delim_def)
  then show ?thesis
    using assms(2) by (auto simp: vfx_token_def e ends_entry_def nth_append hd_conv_nth)
next
  case (Some n)
  then have e: "entry_text e = fst e @ CHR '':'' # n" and ok: "clean (fst e)" "clean n"
    using assms(1) by (simp_all add: entry_text_def entry_ok_def)
  have d: "find_delim (pre @ fst e @ (CHR '':'' # n @ t)) (length pre) = Some (length pre + length (fst e))"
    using find_delim_at [OF ok(1), of "CHR '':'' # n @ t" pre] by (simp add: delim_def)
  have "str_find (pre @ fst e @ (CHR '':'' # n @ t)) '','' (length pre + length (fst e)) =
      (if t = [] then None else Some (length pre + length (entry_text e)))"
    using assms(2) clean_comma [OF ok(2)] takeWhile_to [of "CHR '',''" n]
    by (cases t) (auto simp: str_find_comma ends_entry_def e)
  with d show ?thesis
    by (cases t) (simp_all add: vfx_token_def e nth_append Let_def)
qed

lemma read_vfx_from_entry:
  assumes "entry_ok e" and "ends_entry t" and "key \<noteq> []"
  shows "read_vfx_from (pre @ entry_text e @ t) key (length pre) =
    (if fst e = key then (True, Option.bind (snd e) wire_number)
     else if t = [] then (False, None)
     else read_vfx_from (pre @ entry_text e @ t) key (length pre + length (entry_text e) + 1))"
proof -
  let ?s = "pre @ entry_text e @ t"
  have cmp: "str_compare_eq ?s (length pre) (length (fst e)) key \<longleftrightarrow> fst e = key"
    by (simp add: str_compare_eq_def entry_text_def)
  have num: "str_substr ?s (length pre + length (fst e) + 1) (length (entry_text e) - length (fst e) - 1) = n"
    if "snd e = Some n" for n
    using that by (simp add: str_substr_def entry_text_def)
  have ne: "length (fst e) \<noteq> length (entry_text e) \<longleftrightarrow> snd e \<noteq> None"
    by (auto simp: entry_text_def split: option.split)
  have "read_vfx_from ?s key (length pre) =
      (if fst e = key
       then (True, if snd e \<noteq> None then wire_number (str_substr ?s (length pre + length (fst e) + 1) (length (entry_text e) - length (fst e) - 1)) else None)
       else if t = [] then (False, None) else read_vfx_from ?s key (length pre + length (entry_text e) + 1))"
    using ne cmp by (subst read_vfx_from.simps) (cases "fst e = key"; cases "snd e"; simp add: vfx_token_entry [OF assms(1,2)])
  with num show ?thesis by (cases "snd e") simp_all
qed

lemma read_vfx_from_join:
  assumes "list_all entry_ok es" and "key \<noteq> []"
  shows "read_vfx_from (pre @ join '','' (map entry_text es)) key (length pre) =
    (case map_of es key of None \<Rightarrow> (False, None) | Some v \<Rightarrow> (True, Option.bind v wire_number))"
  using assms
proof (induction es arbitrary: pre)
  case Nil
  then show ?case
    by (subst read_vfx_from.simps) (simp add: vfx_token_def find_delim_def str_compare_eq_def)
next
  case (Cons e es)
  show ?case
  proof (cases es)
    case Nil
    then show ?thesis
      using read_vfx_from_entry [of e "[]" key pre] Cons.prems by (cases e) (auto simp: ends_entry_def)
  next
    case (Cons e' es')
    let ?t = "CHR '','' # join '','' (map entry_text es)"
    have shape: "join '','' (map entry_text (e # es)) = entry_text e @ ?t" by (simp add: Cons)
    obtain k v where e: "e = (k, v)" by (cases e)
    have "read_vfx_from (pre @ entry_text e @ ?t) key (length pre + length (entry_text e) + 1) =
        (case map_of es key of None \<Rightarrow> (False, None) | Some v \<Rightarrow> (True, Option.bind v wire_number))"
      using Cons.IH [of "pre @ entry_text e @ '',''"] Cons.prems by simp
    with read_vfx_from_entry [of e ?t key pre] Cons.prems show ?thesis
      unfolding shape by (simp add: e ends_entry_def)
  qed
qed

lemma digits_value_less: "list_all is_digit s \<Longrightarrow> digits_value 10 (map digit_val s) < 10 ^ length s"
proof (induction s rule: rev_induct)
  case (snoc c s)
  have "digit_val c < 10" using snoc.prems by (auto simp: is_digit_def digit_val_def)
  moreover have "digits_value 10 (map digit_val (s @ [c])) = 10 * digits_value 10 (map digit_val s) + digit_val c"
    by (simp add: digits_value_def)
  ultimately show ?case using snoc by simp
qed (simp add: digits_value_def)

lemma length_show_nat_iff: "length (show_nat n) \<le> Suc w \<longleftrightarrow> n < 10 ^ Suc w"
proof
  assume "length (show_nat n) \<le> Suc w"
  then have "(10 :: nat) ^ length (show_nat n) \<le> 10 ^ Suc w" by (intro power_increasing) simp_all
  with digits_value_less [OF show_nat_is_digit, of n] show "n < 10 ^ Suc w" by (simp add: show_nat_value)
qed (rule length_show_nat)

text \<open>Outside \<^verbatim>\<open>scanf\<close>'s rule an end of text stops a number too.\<close>

lemma scan_double_digits:
  assumes "list_all is_digit s" and "s \<noteq> []"
  shows "scan_double False s = Some (rnd_double (of_nat (digits_value 10 (map digit_val s))), [])"
proof -
  obtain d s' where d: "s = d # s'" "is_digit d" using assms by (cases s) auto
  have tk: "takeWhile is_digit s = s" "dropWhile is_digit s = []"
    using assms(1) by (auto simp: list_all_iff takeWhile_eq_all_conv dropWhile_eq_Nil_conv)
  have "scan_decimal False s = Some (of_nat (digits_value 10 (map digit_val s)), [])"
    using assms(2) unfolding scan_decimal_def scan_mantissa_def Let_def tk by (simp add: scan_exponent_def pow_int_def)
  moreover have "match_nocase ''0x'' s = None"
  proof (cases s')
    case (Cons x r)
    then have "is_digit x" using assms(1) d by simp
    then have "c_tolower x \<noteq> CHR ''x''" by (auto simp: c_tolower_def is_digit_def byte_of_def)
    then show ?thesis by (simp add: d Cons)
  qed (simp add: d)
  moreover have "match_nocase ''inf'' s = None" "match_nocase ''nan'' s = None"
    using digit_tolower [OF d(2)] by (simp_all add: d(1))
  ultimately have "scan_unsigned False False s = Some (rnd_double (of_nat (digits_value 10 (map digit_val s))), [])"
    by (simp add: scan_unsigned_def signed_round_def)
  then show ?thesis using digit_not_space [OF d(2)] by (simp add: scan_double_def d(1))
qed

lemma wire_number_show:
  "wire_number (show_nat n) = (if n < 10 ^ 10 then Some (Fin (of_nat n)) else None)"
proof -
  have "rnd_double (of_nat n) = Fin (of_nat n)" if "n < 10 ^ 10"
    using that rnd_double_int [of "int n"] by simp
  moreover have suc9: "Suc 9 = 10" by simp
  have "length (show_nat n) \<le> 10 \<longleftrightarrow> n < 10 ^ 10"
    using length_show_nat_iff [of n 9, unfolded suc9] .
  ultimately show ?thesis
    using scan_double_digits [OF show_nat_is_digit show_nat_nonempty, of n] show_nat_is_digit [of n] show_nat_nonempty [of n]
    by (simp add: wire_number_def show_nat_value)
qed

lemma digit_clean: "list_all is_digit s \<Longrightarrow> clean s"
  by (auto simp: clean_def list_all_iff delim_def is_digit_def byte_of_def)

section \<open>The list sent is the list read\<close>

definition row_entry :: "(nat \<Rightarrow> u64) \<Rightarrow> nat \<Rightarrow> string \<times> string option" where
  "row_entry n i = (effect_key (MIRRORED_EFFECTS ! i), if is_world_effect i then Some (show_int (uint (n i))) else None)"

lemma effect_keys_entries:
  "effect_keys active n =
   join '','' (map entry_text (map (row_entry n) [i \<leftarrow> [0..<MIRRORED_EFFECT_COUNT]. i \<in> active \<or> is_world_effect i]))"
  by (simp add: effect_keys_def comp_def entry_text_def row_entry_def) (rule arg_cong [where f = "join _"], simp)

lemma effect_keys_distinct: "distinct (map effect_key MIRRORED_EFFECTS)"
  by (simp add: MIRRORED_EFFECTS_def)

lemma effect_key_inj:
  "i < MIRRORED_EFFECT_COUNT \<Longrightarrow> j < MIRRORED_EFFECT_COUNT \<Longrightarrow>
   effect_key (MIRRORED_EFFECTS ! i) = effect_key (MIRRORED_EFFECTS ! j) \<longleftrightarrow> i = j"
  using nth_eq_iff_index_eq [OF effect_keys_distinct, of i j] by (simp add: length_effects)

lemma effect_key_ok: "list_all (\<lambda>e. effect_key e \<noteq> [] \<and> clean (effect_key e)) MIRRORED_EFFECTS"
  by (simp add: MIRRORED_EFFECTS_def clean_def delim_def)

lemma effect_key_clean: "i < MIRRORED_EFFECT_COUNT \<Longrightarrow> effect_key (MIRRORED_EFFECTS ! i) \<noteq> [] \<and> clean (effect_key (MIRRORED_EFFECTS ! i))"
  using effect_key_ok by (simp add: list_all_length length_effects)

lemma show_word: "show_int (uint (w :: u64)) = show_nat (unat w)"
  by (simp add: show_int_nat sign_text_def)

lemma row_entry_ok: "i < MIRRORED_EFFECT_COUNT \<Longrightarrow> entry_ok (row_entry n i)"
  using effect_key_clean [of i] digit_clean [OF show_nat_is_digit] by (simp add: entry_ok_def row_entry_def show_word)

lemma map_of_rows:
  assumes "i < MIRRORED_EFFECT_COUNT" and "set is \<subseteq> {0..<MIRRORED_EFFECT_COUNT}"
  shows "map_of (map (row_entry n) is) (effect_key (MIRRORED_EFFECTS ! i)) = (if i \<in> set is then Some (snd (row_entry n i)) else None)"
  using assms(2) by (induction "is") (auto simp: row_entry_def effect_key_inj assms(1))

lemma read_entries:
  "list_all entry_ok es \<Longrightarrow> key \<noteq> [] \<Longrightarrow>
   read_vfx (join '','' (map entry_text es)) key =
   (case map_of es key of None \<Rightarrow> (False, None) | Some v \<Rightarrow> (True, Option.bind v wire_number))"
  using read_vfx_from_join [of es key "[]"] by (simp add: read_vfx_def)

text \<open>
  Property C9. The effects sent are the effects read. Of the list of keys a player's scan builds, the reader at the other end
  finds a sustained row exactly when it is active, and a one-shot row always, with its count exactly while that has at
  most ten digits; a count of more digits is not read at all.
\<close>

theorem effect_keys_read_back:
  assumes "i < MIRRORED_EFFECT_COUNT"
  shows "read_vfx (effect_keys active n) (effect_key (MIRRORED_EFFECTS ! i)) =
    (if is_world_effect i then (True, if unat (n i) < 10 ^ 10 then Some (Fin (of_nat (unat (n i)))) else None)
     else (i \<in> active, None))"
proof -
  let ?is = "[i \<leftarrow> [0..<MIRRORED_EFFECT_COUNT]. i \<in> active \<or> is_world_effect i]"
  have ok: "list_all entry_ok (map (row_entry n) ?is)" using row_entry_ok by (auto simp: list_all_iff)
  have num: "wire_number (show_int (uint (n i))) = (if unat (n i) < 10 ^ 10 then Some (Fin (of_nat (unat (n i)))) else None)"
    unfolding show_word by (rule wire_number_show)
  have "read_vfx (effect_keys active n) (effect_key (MIRRORED_EFFECTS ! i)) =
      (case map_of (map (row_entry n) ?is) (effect_key (MIRRORED_EFFECTS ! i)) of
         None \<Rightarrow> (False, None) | Some v \<Rightarrow> (True, Option.bind v wire_number))"
    using read_entries [OF ok] effect_key_clean [OF assms] by (simp add: effect_keys_entries)
  also have "map_of (map (row_entry n) ?is) (effect_key (MIRRORED_EFFECTS ! i)) = (if i \<in> set ?is then Some (snd (row_entry n i)) else None)"
    by (rule map_of_rows [OF assms]) auto
  finally show ?thesis using assms num by (simp add: row_entry_def del: One_nat_def)
qed

theorem effect_keys_read_back_witness:
  "read_vfx (effect_keys {0} (\<lambda>i. 7)) ''dl'' = (True, Some (Fin 7))"
proof -
  have "(5 :: nat) < MIRRORED_EFFECT_COUNT" by (simp add: MIRRORED_EFFECT_COUNT_def)
  from effect_keys_read_back [OF this, of "{0}" "\<lambda>_. 7"] show ?thesis
    by (simp add: MIRRORED_EFFECTS_def is_world_effect_def)
qed

section \<open>Bursts\<close>

text \<open>The count a sample carries for a one-shot row, and the calls that play it.\<close>

definition wire_count :: "nat \<Rightarrow> remote_ghost \<Rightarrow> dbl option" where
  "wire_count i r =
     (case read_vfx (target_vfx (anim r)) (effect_key (MIRRORED_EFFECTS ! i)) of (True, c) \<Rightarrow> c | (False, _) \<Rightarrow> None)"

fun is_burst :: "nat \<Rightarrow> fx_call \<Rightarrow> bool" where
  "is_burst i (SpawnAt asset _ _ True) = (asset = effect_asset (MIRRORED_EFFECTS ! i))"
| "is_burst i _ = False"

definition burst_calls :: "nat \<Rightarrow> fx_call list \<Rightarrow> nat" where
  "burst_calls i calls = length (filter (is_burst i) calls)"

lemma burst_calls_simps [simp]:
  "burst_calls i [] = 0" "burst_calls i (xs @ ys) = burst_calls i xs + burst_calls i ys"
  by (simp_all add: burst_calls_def)

lemma effect_assets_distinct: "distinct (map effect_asset MIRRORED_EFFECTS)"
  by (simp add: MIRRORED_EFFECTS_def)

lemma effect_asset_inj:
  "i < MIRRORED_EFFECT_COUNT \<Longrightarrow> j < MIRRORED_EFFECT_COUNT \<Longrightarrow>
   effect_asset (MIRRORED_EFFECTS ! i) = effect_asset (MIRRORED_EFFECTS ! j) \<longleftrightarrow> i = j"
  using nth_eq_iff_index_eq [OF effect_assets_distinct, of i j] by (simp add: length_effects)

lemma remember_frame [simp]:
  "vfx_counts (remember_one_shot c f) = vfx_counts f"
  "vfx_counts_baselined (remember_one_shot c f) = vfx_counts_baselined f"
  "vfx_components (remember_one_shot c f) = vfx_components f"
  by (simp_all add: remember_one_shot_def Let_def split: option.split)

lemma play_burst_frame:
  "fst (snd (play_burst a off i c st)) = fst st"
  "vfx_counts_baselined (snd (snd (play_burst a off i c st))) = vfx_counts_baselined (snd st)"
  "key \<noteq> effect_key (MIRRORED_EFFECTS ! i) \<Longrightarrow> vfx_counts (snd (snd (play_burst a off i c st))) key = vfx_counts (snd st) key"
  by (auto simp: play_burst_def Let_def split: prod.splits option.splits)

lemma sustain_frame:
  "fst (snd (sustain_effect a i w st)) = fst st"
  "vfx_counts_baselined (snd (snd (sustain_effect a i w st))) = vfx_counts_baselined (snd st)"
  "vfx_counts (snd (snd (sustain_effect a i w st))) = vfx_counts (snd st)"
  "burst_calls j (fst (sustain_effect a i w st)) = 0"
  by (auto simp: sustain_effect_def Let_def burst_calls_def split: prod.splits option.splits bool.splits)

lemma play_burst_calls:
  "burst_calls j (fst (play_burst a off i c st)) =
   (if effect_asset (MIRRORED_EFFECTS ! i) = effect_asset (MIRRORED_EFFECTS ! j) \<and> asset_loaded a (effect_asset (MIRRORED_EFFECTS ! i)) \<and>
       (case (if vfx_counts_baselined (snd st) then vfx_counts (snd st) (effect_key (MIRRORED_EFFECTS ! i)) else None) of
          None \<Rightarrow> False | Some n \<Rightarrow> \<not> dbl_le c n)
    then 1 else 0)"
  by (auto simp: burst_calls_def play_burst_def Let_def split: prod.splits option.splits)

lemma play_burst_count:
  "vfx_counts (snd (snd (play_burst a off i c st))) (effect_key (MIRRORED_EFFECTS ! i)) =
   (case (if vfx_counts_baselined (snd st) then vfx_counts (snd st) (effect_key (MIRRORED_EFFECTS ! i)) else None) of
      None \<Rightarrow> Some c | Some n \<Rightarrow> if dbl_le c n then Some n else Some c)"
  by (auto simp: play_burst_def Let_def split: prod.splits option.splits if_splits)

lemma vfx_row_world:
  "is_world_effect i \<Longrightarrow>
   vfx_row a off i st = (case wire_count i (fst st) of None \<Rightarrow> ([], st) | Some c \<Rightarrow> play_burst a off i c st)"
  by (auto simp: vfx_row_def wire_count_def split: prod.splits option.splits bool.splits)

lemma vfx_row_sustained:
  "\<not> is_world_effect i \<Longrightarrow>
   vfx_row a off i st = sustain_effect a i (fst (read_vfx (target_vfx (anim (fst st))) (effect_key (MIRRORED_EFFECTS ! i)))) st"
  by (simp add: vfx_row_def split: prod.splits)

lemma vfx_row_frame:
  "fst (snd (vfx_row a off i st)) = fst st"
  "vfx_counts_baselined (snd (snd (vfx_row a off i st))) = vfx_counts_baselined (snd st)"
  "k \<noteq> effect_key (MIRRORED_EFFECTS ! i) \<Longrightarrow> vfx_counts (snd (snd (vfx_row a off i st))) k = vfx_counts (snd st) k"
  by (cases "is_world_effect i"; simp add: vfx_row_world vfx_row_sustained play_burst_frame sustain_frame split: option.split)+

lemma vfx_row_no_burst:
  "i < MIRRORED_EFFECT_COUNT \<Longrightarrow> j < MIRRORED_EFFECT_COUNT \<Longrightarrow> i \<noteq> j \<Longrightarrow> burst_calls j (fst (vfx_row a off i st)) = 0"
  using effect_asset_inj [of i j]
  by (cases "is_world_effect i")
     (simp_all add: vfx_row_world vfx_row_sustained play_burst_calls sustain_frame split: option.split)

text \<open>One tick: the calls of one row, and the count it leaves; the other rows do not touch either.\<close>

definition plays :: "dbl option \<Rightarrow> dbl option \<Rightarrow> nat" where
  "plays m c = (case (m, c) of (Some n, Some c) \<Rightarrow> if dbl_le c n then 0 else 1 | _ \<Rightarrow> 0)"

definition tracks :: "dbl option \<Rightarrow> dbl option \<Rightarrow> dbl option" where
  "tracks m c = (case (m, c) of (_, None) \<Rightarrow> m | (None, Some c) \<Rightarrow> Some c | (Some n, Some c) \<Rightarrow> if dbl_le c n then Some n else Some c)"

definition tracked_count :: "nat \<Rightarrow> ghost_fx \<Rightarrow> dbl option" where
  "tracked_count i f = (if vfx_counts_baselined f then vfx_counts f (effect_key (MIRRORED_EFFECTS ! i)) else None)"

lemma rows_frame:
  "fst (snd (run_steps (map (vfx_row a off) is) st)) = fst st"
  "vfx_counts_baselined (snd (snd (run_steps (map (vfx_row a off) is) st))) = vfx_counts_baselined (snd st)"
  by (induction "is" arbitrary: st) (simp_all add: run_steps_snd vfx_row_frame del: run_steps.simps(2))

lemma rows_others:
  assumes "i < MIRRORED_EFFECT_COUNT" and "i \<notin> set is" and "set is \<subseteq> {0..<MIRRORED_EFFECT_COUNT}"
  shows "burst_calls i (fst (run_steps (map (vfx_row a off) is) st)) = 0"
    and "vfx_counts (snd (snd (run_steps (map (vfx_row a off) is) st))) (effect_key (MIRRORED_EFFECTS ! i)) =
      vfx_counts (snd st) (effect_key (MIRRORED_EFFECTS ! i))"
proof -
  have "burst_calls i (fst (run_steps (map (vfx_row a off) is) st)) = 0 \<and>
      vfx_counts (snd (snd (run_steps (map (vfx_row a off) is) st))) (effect_key (MIRRORED_EFFECTS ! i)) =
      vfx_counts (snd st) (effect_key (MIRRORED_EFFECTS ! i))"
    using assms(2,3)
  proof (induction "is" arbitrary: st)
    case (Cons j js)
    then have j: "i \<noteq> j" "j < MIRRORED_EFFECT_COUNT" by auto
    then have "effect_key (MIRRORED_EFFECTS ! i) \<noteq> effect_key (MIRRORED_EFFECTS ! j)"
      using effect_key_inj [OF assms(1)] by simp
    from vfx_row_frame(3) [OF this] vfx_row_no_burst [OF j(2) assms(1)] j Cons show ?case
      by (simp add: run_steps_fst run_steps_snd del: run_steps.simps(2))
  qed simp
  then show "burst_calls i (fst (run_steps (map (vfx_row a off) is) st)) = 0"
    and "vfx_counts (snd (snd (run_steps (map (vfx_row a off) is) st))) (effect_key (MIRRORED_EFFECTS ! i)) =
      vfx_counts (snd st) (effect_key (MIRRORED_EFFECTS ! i))" by blast+
qed

lemma row_own:
  assumes "is_world_effect i" and "asset_loaded a (effect_asset (MIRRORED_EFFECTS ! i))"
  shows "burst_calls i (fst (vfx_row a off i st)) = plays (tracked_count i (snd st)) (wire_count i (fst st))"
    and "vfx_counts (snd (snd (vfx_row a off i st))) (effect_key (MIRRORED_EFFECTS ! i)) =
      (case wire_count i (fst st) of
         None \<Rightarrow> vfx_counts (snd st) (effect_key (MIRRORED_EFFECTS ! i)) | Some c \<Rightarrow> tracks (tracked_count i (snd st)) (Some c))"
  using assms
  by (auto simp: vfx_row_world play_burst_calls play_burst_count plays_def tracks_def tracked_count_def split: option.split)

text \<open>A tick around one row: the rows before it, the row, the rows after it.\<close>

definition rows_before :: "fx_answers \<Rightarrow> (nat \<Rightarrow> dbl option) \<Rightarrow> nat \<Rightarrow> fx_stage \<Rightarrow> fx_call list \<times> fx_stage" where
  "rows_before a off i = run_steps (map (vfx_row a off) [0..<i])"

definition rows_after :: "fx_answers \<Rightarrow> (nat \<Rightarrow> dbl option) \<Rightarrow> nat \<Rightarrow> fx_stage \<Rightarrow> fx_call list \<times> fx_stage" where
  "rows_after a off i = run_steps (map (vfx_row a off) [Suc i..<MIRRORED_EFFECT_COUNT])"

lemma vfx_tick_split:
  assumes "i < MIRRORED_EFFECT_COUNT" and "ghost r \<noteq> None"
  shows "tick_remote_mirrored_vfx a off (r, f) =
    (let before = rows_before a off i (r, f); own = vfx_row a off i (snd before); after = rows_after a off i (snd own)
     in (fst before @ fst own @ fst after, fst (snd after), (snd (snd after))\<lparr>vfx_counts_baselined := True\<rparr>))"
proof -
  have split: "map (vfx_row a off) [0..<MIRRORED_EFFECT_COUNT] @ [baseline_counts] =
      map (vfx_row a off) [0..<i] @ (vfx_row a off i # (map (vfx_row a off) [Suc i..<MIRRORED_EFFECT_COUNT] @ [baseline_counts]))"
    using assms(1) upt_add_eq_append [of 0 i "MIRRORED_EFFECT_COUNT - i"] by (simp add: upt_conv_Cons)
  show ?thesis
    using assms(2) unfolding tick_remote_mirrored_vfx_def split
    by (auto simp: run_steps_append baseline_counts_def rows_before_def rows_after_def Let_def split: prod.splits)
qed

lemma other_rows:
  assumes "i < MIRRORED_EFFECT_COUNT"
  shows "i \<notin> set [0..<i]" "set [0..<i] \<subseteq> {0..<MIRRORED_EFFECT_COUNT}"
    "i \<notin> set [Suc i..<MIRRORED_EFFECT_COUNT]" "set [Suc i..<MIRRORED_EFFECT_COUNT] \<subseteq> {0..<MIRRORED_EFFECT_COUNT}"
  using assms by auto

lemma vfx_tick_row:
  assumes "i < MIRRORED_EFFECT_COUNT" and "is_world_effect i" and "asset_loaded a (effect_asset (MIRRORED_EFFECTS ! i))"
    and "ghost r \<noteq> None"
  shows "burst_calls i (fst (tick_remote_mirrored_vfx a off (r, f))) = plays (tracked_count i f) (wire_count i r)"
    and "vfx_counts (snd (snd (tick_remote_mirrored_vfx a off (r, f)))) (effect_key (MIRRORED_EFFECTS ! i)) =
      (case wire_count i r of
         None \<Rightarrow> vfx_counts f (effect_key (MIRRORED_EFFECTS ! i)) | Some c \<Rightarrow> tracks (tracked_count i f) (Some c))"
    and "vfx_counts_baselined (snd (snd (tick_remote_mirrored_vfx a off (r, f))))"
    and "fst (snd (tick_remote_mirrored_vfx a off (r, f))) = r"
proof -
  let ?A = "rows_before a off i (r, f)"
  let ?B = "vfx_row a off i (snd ?A)"
  let ?C = "rows_after a off i (snd ?B)"
  note tick = vfx_tick_split [OF assms(1,4), of a off f, unfolded Let_def]
  note sub = other_rows [OF assms(1)]
  note A = rows_frame [of a off "[0..<i]" "(r, f)", folded rows_before_def]
    rows_others [of i "[0..<i]" a off "(r, f)", OF assms(1) sub(1,2), folded rows_before_def]
  note B = row_own [OF assms(2,3), of off "snd ?A"] vfx_row_frame(1,2) [of a off i "snd ?A"]
  note C = rows_frame [of a off "[Suc i..<MIRRORED_EFFECT_COUNT]" "snd ?B", folded rows_after_def]
    rows_others [of i "[Suc i..<MIRRORED_EFFECT_COUNT]" a off "snd ?B", OF assms(1) sub(3,4), folded rows_after_def]
  have tr: "tracked_count i (snd (snd ?A)) = tracked_count i f"
    using A(1,2) A(4) by (simp add: tracked_count_def)
  show "burst_calls i (fst (tick_remote_mirrored_vfx a off (r, f))) = plays (tracked_count i f) (wire_count i r)"
    using A(1) A(3) B(1) C(3) tr by (simp add: tick)
  show "vfx_counts (snd (snd (tick_remote_mirrored_vfx a off (r, f)))) (effect_key (MIRRORED_EFFECTS ! i)) =
      (case wire_count i r of
         None \<Rightarrow> vfx_counts f (effect_key (MIRRORED_EFFECTS ! i)) | Some c \<Rightarrow> tracks (tracked_count i f) (Some c))"
    using A(1) A(4) B(2) C(4) tr by (cases "wire_count i r") (simp_all add: tick)
  show "vfx_counts_baselined (snd (snd (tick_remote_mirrored_vfx a off (r, f))))"
    and "fst (snd (tick_remote_mirrored_vfx a off (r, f))) = r"
    using A(1) B(3) C(1) by (simp_all add: tick)
qed

text \<open>A run of ticks: the samples a ghost shows, one after another.\<close>

type_synonym fx_tick = "fx_answers \<times> (nat \<Rightarrow> dbl option) \<times> remote_ghost"

fun vfx_run :: "fx_tick list \<Rightarrow> ghost_fx \<Rightarrow> fx_call list \<times> ghost_fx" where
  "vfx_run [] f = ([], f)"
| "vfx_run ((a, off, r) # ts) f =
     (case tick_remote_mirrored_vfx a off (r, f) of (calls, _, f') \<Rightarrow>
        (case vfx_run ts f' of (calls', f'') \<Rightarrow> (calls @ calls', f'')))"

text \<open>The reference: the first count is a baseline, every rise over what was last taken is one burst.\<close>

fun rises :: "dbl option \<Rightarrow> dbl option list \<Rightarrow> nat" where
  "rises m [] = 0"
| "rises m (c # cs) = plays m c + rises (tracks m c) cs"

lemma vfx_run_bursts:
  assumes "i < MIRRORED_EFFECT_COUNT" and "is_world_effect i"
    and "\<forall>(a, off, r)\<in>set ts. asset_loaded a (effect_asset (MIRRORED_EFFECTS ! i)) \<and> ghost r \<noteq> None"
    and "vfx_counts_baselined f \<or> vfx_counts f = (\<lambda>_. None)"
  shows "burst_calls i (fst (vfx_run ts f)) = rises (tracked_count i f) (map (\<lambda>(a, off, r). wire_count i r) ts)"
  using assms(3,4)
proof (induction ts arbitrary: f)
  case (Cons t ts)
  obtain a off r where t: "t = (a, off, r)" by (cases t)
  have ok: "asset_loaded a (effect_asset (MIRRORED_EFFECTS ! i))" "ghost r \<noteq> None" using Cons.prems(1) by (auto simp: t)
  note tick = vfx_tick_row [OF assms(1,2) ok, of off f]
  let ?f = "snd (snd (tick_remote_mirrored_vfx a off (r, f)))"
  have "tracked_count i ?f = tracks (tracked_count i f) (wire_count i r)"
    using tick(2,3) Cons.prems(2) by (auto simp: tracked_count_def tracks_def split: option.split)
  moreover obtain calls r' f' where tk: "tick_remote_mirrored_vfx a off (r, f) = (calls, r', f')" by (cases "tick_remote_mirrored_vfx a off (r, f)")
  obtain calls' f'' where run: "vfx_run ts f' = (calls', f'')" by (cases "vfx_run ts f'")
  ultimately show ?case using Cons.IH [of f'] tick(1,3) Cons.prems(1) by (simp add: t tk run)
qed simp

text \<open>
  Property C6. Bursts are replayed once per rise. Whatever samples arrive for a new ghost, the bursts played for a
  one-shot row over any run of ticks are the rises of its count over the largest taken so far: the first count
  heard plays nothing, a sample that repeats or falls back plays nothing, and a sample that skips several counts
  plays one.
\<close>

theorem bursts_follow_rises:
  assumes "i < MIRRORED_EFFECT_COUNT" and "is_world_effect i"
    and "\<forall>(a, off, r)\<in>set ts. asset_loaded a (effect_asset (MIRRORED_EFFECTS ! i)) \<and> ghost r \<noteq> None"
  shows "burst_calls i (fst (vfx_run ts new_fx)) = rises None (map (\<lambda>(a, off, r). wire_count i r) ts)"
proof -
  have "tracked_count i new_fx = None" by (simp add: tracked_count_def new_fx_def)
  moreover have "vfx_counts new_fx = (\<lambda>_. None)" by (simp add: new_fx_def)
  ultimately show ?thesis using vfx_run_bursts [OF assms, of new_fx] by simp
qed

definition sample_fx_answers :: fx_answers where
  "sample_fx_answers = \<lparr>asset_loaded = (\<lambda>_. True), peer_asset = (\<lambda>_. True), fx_spawned = (\<lambda>_. Some 77), ghost_at = zero3,
     attach_point = (\<lambda>_. True), has_relative = True, has_hand = True, flyer_made = Some 50, prop_skipped = False,
     fx_world = Some 1, fx_now_ms = 1000, ghost_name = ''BP_Player_C_2'', niagara_listed = [], niagara_view = (\<lambda>_. undefined)\<rparr>"

definition sample_sent :: "string \<Rightarrow> remote_ghost" where
  "sample_sent vfx = new_remote\<lparr>ghost := Some 4, anim := (anim new_remote)\<lparr>target_vfx := vfx\<rparr>\<rparr>"

lemma sample_sent_read: "ghost (sample_sent vfx) = Some 4" "wire_count 5 (sample_sent vfx) =
    (case read_vfx vfx ''dl'' of (True, c) \<Rightarrow> c | (False, _) \<Rightarrow> None)"
  by (simp_all add: sample_sent_def wire_count_def MIRRORED_EFFECTS_def new_remote_def)

theorem bursts_follow_rises_witness:
  "burst_calls 5 (fst (vfx_run (map (\<lambda>vfx. (sample_fx_answers, \<lambda>_. None, sample_sent vfx)) [''heal'', ''dl:3'', ''hw:1,dl:3'', ''dl:2'', ''dl:6'']) new_fx)) = 1"
proof -
  let ?ts = "map (\<lambda>vfx. (sample_fx_answers, \<lambda>_. None, sample_sent vfx)) [''heal'', ''dl:3'', ''hw:1,dl:3'', ''dl:2'', ''dl:6''] :: fx_tick list"
  note read = read_entries [of "[(''heal'', None)]" "''dl''"] read_entries [of "[(''dl'', Some ''3'')]" "''dl''"]
    read_entries [of "[(''hw'', Some ''1''), (''dl'', Some ''3'')]" "''dl''"]
    read_entries [of "[(''dl'', Some ''2'')]" "''dl''"] read_entries [of "[(''dl'', Some ''6'')]" "''dl''"]
  have n: "wire_number ''3'' = Some (Fin 3)" "wire_number ''2'' = Some (Fin 2)" "wire_number ''6'' = Some (Fin 6)"
    by (simp_all add: wire_number_def scan_defs)
  have r: "read_vfx ''heal'' ''dl'' = (False, None)" "read_vfx ''dl:3'' ''dl'' = (True, Some (Fin 3))"
    "read_vfx ''hw:1,dl:3'' ''dl'' = (True, Some (Fin 3))" "read_vfx ''dl:2'' ''dl'' = (True, Some (Fin 2))"
    "read_vfx ''dl:6'' ''dl'' = (True, Some (Fin 6))"
    using read by (simp_all add: entry_ok_def clean_def delim_def entry_text_def n)
  have i: "(5 :: nat) < MIRRORED_EFFECT_COUNT" "is_world_effect 5" "asset_loaded sample_fx_answers asset" for asset
    by (simp_all add: MIRRORED_EFFECT_COUNT_def is_world_effect_def MIRRORED_EFFECTS_def sample_fx_answers_def)
  have "burst_calls 5 (fst (vfx_run ?ts new_fx)) = rises None (map (\<lambda>(a, off, r). wire_count 5 r) ?ts)"
    by (rule bursts_follow_rises [OF i(1,2)]) (simp add: i(3) sample_sent_read(1))
  also have "\<dots> = 1" by (simp add: sample_sent_read(2) r plays_def tracks_def)
  finally show ?thesis .
qed

end
