(* ===== verification/Flyer_Props.thy ===== *)
theory Flyer_Props
  imports Effect_Props Local_Counts
begin

text \<open>
  The effects on a ghost, continued: which components the local scan must leave alone, the sustained rows, and the thrown
  sword's flyer; and two effects the bookkeeping misses.
\<close>

section \<open>The mod's own bursts\<close>

lemma remember_ring:
  assumes "length (recent_one_shot_components f) \<le> MAX_TRACKED_ONE_SHOTS"
  shows "length (recent_one_shot_components (remember_one_shot c f)) \<le> MAX_TRACKED_ONE_SHOTS"
    and "suffix hs (recent_one_shot_components f) \<Longrightarrow> length hs + 1 \<le> MAX_TRACKED_ONE_SHOTS \<Longrightarrow>
      suffix (hs @ (case c of None \<Rightarrow> [] | Some h \<Rightarrow> [h])) (recent_one_shot_components (remember_one_shot c f))"
proof -
  show "length (recent_one_shot_components (remember_one_shot c f)) \<le> MAX_TRACKED_ONE_SHOTS"
    using assms by (auto simp: remember_one_shot_def Let_def split: option.split)
  assume hs: "suffix hs (recent_one_shot_components f)" "length hs + 1 \<le> MAX_TRACKED_ONE_SHOTS"
  show "suffix (hs @ (case c of None \<Rightarrow> [] | Some h \<Rightarrow> [h])) (recent_one_shot_components (remember_one_shot c f))"
  proof (cases c)
    case (Some h)
    obtain ys where ys: "recent_one_shot_components f = ys @ hs" using hs(1) by (auto simp: suffix_def)
    show ?thesis
    proof (cases ys)
      case Nil
      then show ?thesis using hs(2) by (simp add: remember_one_shot_def Let_def Some ys)
    next
      case (Cons y ys')
      then show ?thesis by (auto simp: remember_one_shot_def Let_def Some ys suffix_def)
    qed
  qed (use hs in \<open>simp add: remember_one_shot_def\<close>)
qed

text \<open>The components a list of calls made that destroy themselves.\<close>

fun one_shot_made :: "fx_answers \<Rightarrow> fx_call \<Rightarrow> nat option" where
  "one_shot_made a (SpawnAt asset p y True) = fx_spawned a (SpawnAt asset p y True)"
| "one_shot_made a _ = None"

definition one_shots_made :: "fx_answers \<Rightarrow> fx_call list \<Rightarrow> nat list" where
  "one_shots_made a calls = List.map_filter (one_shot_made a) calls"

lemma one_shots_made_simps [simp]:
  "one_shots_made a [] = []"
  "one_shots_made a (xs @ ys) = one_shots_made a xs @ one_shots_made a ys"
  "one_shots_made a (c # xs) = (case one_shot_made a c of None \<Rightarrow> [] | Some h \<Rightarrow> [h]) @ one_shots_made a xs"
  by (simp_all add: one_shots_made_def map_filter_def split: option.split)

lemma vfx_row_ring:
  assumes "length (recent_one_shot_components (snd st)) \<le> MAX_TRACKED_ONE_SHOTS"
  shows "length (recent_one_shot_components (snd (snd (vfx_row a off i st)))) \<le> MAX_TRACKED_ONE_SHOTS"
    and "length (one_shots_made a (fst (vfx_row a off i st))) \<le> 1"
    and "suffix hs (recent_one_shot_components (snd st)) \<Longrightarrow> length hs + 1 \<le> MAX_TRACKED_ONE_SHOTS \<Longrightarrow>
      suffix (hs @ one_shots_made a (fst (vfx_row a off i st))) (recent_one_shot_components (snd (snd (vfx_row a off i st))))"
proof -
  have sustained: "recent_one_shot_components (snd (snd (sustain_effect a i w st))) = recent_one_shot_components (snd st) \<and>
      one_shots_made a (fst (sustain_effect a i w st)) = []" for w
    by (auto simp: sustain_effect_def Let_def split: prod.splits option.splits bool.splits)
  have burst: "(\<exists>c. recent_one_shot_components (snd (snd (play_burst a off i n st))) =
        recent_one_shot_components (remember_one_shot c (snd st)) \<and>
      one_shots_made a (fst (play_burst a off i n st)) = (case c of None \<Rightarrow> [] | Some h \<Rightarrow> [h]))" for n
  proof -
    obtain r f where st: "st = (r, f)" by (cases st)
    have same: "recent_one_shot_components (remember_one_shot c (f\<lparr>vfx_counts := m\<rparr>)) = recent_one_shot_components (remember_one_shot c f)" for c m
      by (simp add: remember_one_shot_def Let_def split: option.split)
    have none: "remember_one_shot None f = f" by (simp add: remember_one_shot_def)
    show ?thesis
      unfolding play_burst_def st Let_def
      by (auto simp: same none split: option.splits intro: exI [of _ None] exI [of _ "fx_spawned a _"])
  qed
  let ?r = "recent_one_shot_components (snd (snd (vfx_row a off i st)))" and ?m = "one_shots_made a (fst (vfx_row a off i st))"
  have "?r = recent_one_shot_components (snd st) \<and> ?m = [] \<or>
      (\<exists>c. ?r = recent_one_shot_components (remember_one_shot c (snd st)) \<and> ?m = (case c of None \<Rightarrow> [] | Some h \<Rightarrow> [h]))"
    using sustained burst by (cases "is_world_effect i") (auto simp: vfx_row_world vfx_row_sustained split: option.split)
  with remember_ring(1) [OF assms] remember_ring(2) [OF assms, of _ None] remember_ring(2) [OF assms, of _ "Some _"] assms
  show "length ?r \<le> MAX_TRACKED_ONE_SHOTS" and "length ?m \<le> 1"
    and "suffix hs (recent_one_shot_components (snd st)) \<Longrightarrow> length hs + 1 \<le> MAX_TRACKED_ONE_SHOTS \<Longrightarrow> suffix (hs @ ?m) ?r"
    by (auto split: option.splits)
qed

lemma rows_ring:
  assumes "length (recent_one_shot_components (snd st)) \<le> MAX_TRACKED_ONE_SHOTS"
    and "suffix hs (recent_one_shot_components (snd st))" and "length hs + length is \<le> MAX_TRACKED_ONE_SHOTS"
  shows "length (recent_one_shot_components (snd (snd (run_steps (map (vfx_row a off) is) st)))) \<le> MAX_TRACKED_ONE_SHOTS \<and>
    suffix (hs @ one_shots_made a (fst (run_steps (map (vfx_row a off) is) st)))
      (recent_one_shot_components (snd (snd (run_steps (map (vfx_row a off) is) st))))"
  using assms
proof (induction "is" arbitrary: st hs)
  case (Cons i "is")
  let ?m = "one_shots_made a (fst (vfx_row a off i st))"
  note row = vfx_row_ring [OF Cons.prems(1), where a = a and off = off and i = i]
  have "suffix (hs @ ?m) (recent_one_shot_components (snd (snd (vfx_row a off i st))))"
    using row(3) [OF Cons.prems(2)] Cons.prems(3) by simp
  with Cons.IH [of "snd (vfx_row a off i st)" "hs @ ?m"] row(1,2) Cons.prems(3) show ?case
    by (simp add: run_steps_fst run_steps_snd del: run_steps.simps(2))
qed simp

text \<open>
  A ghost's bursts are not taken for the player's own. The ring of a ghost's one-shot components never grows beyond
  32, and after a tick every component that tick spawned as a burst is among what the local scan leaves out, so
  a burst shown on a ghost beside the player is not sent on as the player's.
\<close>

theorem bursts_left_out:
  assumes "length (recent_one_shot_components f) \<le> MAX_TRACKED_ONE_SHOTS"
    and "tick_remote_mirrored_vfx a off (r, f) = (calls, r', f')"
  shows "length (recent_one_shot_components f') \<le> MAX_TRACKED_ONE_SHOTS \<and> set (one_shots_made a calls) \<subseteq> own_fx [f']"
proof (cases "ghost r")
  case None
  then show ?thesis using assms by (simp add: tick_remote_mirrored_vfx_def)
next
  case (Some g)
  obtain calls1 r1 f1 where rows: "run_steps (map (vfx_row a off) [0..<MIRRORED_EFFECT_COUNT]) (r, f) = (calls1, r1, f1)"
    by (cases "run_steps (map (vfx_row a off) [0..<MIRRORED_EFFECT_COUNT]) (r, f)")
  have "calls = calls1" "f' = f1\<lparr>vfx_counts_baselined := True\<rparr>"
    using assms(2) Some by (auto simp: tick_remote_mirrored_vfx_def run_steps_append rows baseline_counts_def)
  moreover have "MIRRORED_EFFECT_COUNT \<le> MAX_TRACKED_ONE_SHOTS" by (simp add: MIRRORED_EFFECT_COUNT_def MAX_TRACKED_ONE_SHOTS_def)
  then have "length (recent_one_shot_components f1) \<le> MAX_TRACKED_ONE_SHOTS \<and> suffix (one_shots_made a calls1) (recent_one_shot_components f1)"
    using rows_ring [of "(r, f)" "[]" "[0..<MIRRORED_EFFECT_COUNT]" a off] assms(1) by (simp add: rows)
  ultimately show ?thesis by (auto simp: own_fx_def fx_components_def dest: set_mono_suffix)
qed

section \<open>Sustained rows\<close>

lemma vfx_row_components:
  "k \<noteq> effect_key (MIRRORED_EFFECTS ! i) \<Longrightarrow> vfx_components (snd (snd (vfx_row a off i st))) k = vfx_components (snd st) k"
proof (cases "is_world_effect i")
  case True
  have "vfx_components (snd (snd (play_burst a off i c st))) = vfx_components (snd st)" for c
    by (auto simp: play_burst_def Let_def split: prod.splits option.splits)
  then show ?thesis using True by (simp add: vfx_row_world split: option.split)
next
  case False
  assume "k \<noteq> effect_key (MIRRORED_EFFECTS ! i)"
  then have "vfx_components (snd (snd (sustain_effect a i w st))) k = vfx_components (snd st) k" for w
    by (auto simp: sustain_effect_def Let_def split: prod.splits option.splits bool.splits)
  then show ?thesis using False by (simp add: vfx_row_sustained)
qed

lemma rows_components:
  assumes "i < MIRRORED_EFFECT_COUNT" and "i \<notin> set is" and "set is \<subseteq> {0..<MIRRORED_EFFECT_COUNT}"
  shows "vfx_components (snd (snd (run_steps (map (vfx_row a off) is) st))) (effect_key (MIRRORED_EFFECTS ! i)) =
    vfx_components (snd st) (effect_key (MIRRORED_EFFECTS ! i))"
  using assms(2,3)
proof (induction "is" arbitrary: st)
  case (Cons j js)
  then have "effect_key (MIRRORED_EFFECTS ! i) \<noteq> effect_key (MIRRORED_EFFECTS ! j)"
    using effect_key_inj [OF assms(1), of j] by auto
  with vfx_row_components [OF this] Cons show ?case by (simp add: run_steps_snd del: run_steps.simps(2))
qed simp

definition shown_component :: "nat \<Rightarrow> ghost_fx \<Rightarrow> nat option" where
  "shown_component i f = Option.bind (vfx_components f (effect_key (MIRRORED_EFFECTS ! i))) id"

text \<open>
  A sustained effect is there while it is sent. After every tick of a ghost, the component of a sustained row is
  the one it had, when the row is in the sample and there was one; a new one, when the row has just
  come and the engine made it; and none, when the row is not in the sample, its component having been stopped.
\<close>

theorem effect_there_while_sent:
  assumes "i < MIRRORED_EFFECT_COUNT" and "\<not> is_world_effect i" and "ghost r \<noteq> None"
    and "asset_loaded a (effect_asset (MIRRORED_EFFECTS ! i))" and "attach_point a (attach_prop (MIRRORED_EFFECTS ! i))"
    and "tick_remote_mirrored_vfx a off (r, f) = (calls, r', f')"
  shows "let effect = MIRRORED_EFFECTS ! i; wanted = fst (read_vfx (target_vfx (anim r)) (effect_key effect)) in
    shown_component i f' =
      (if \<not> wanted then None
       else if shown_component i f \<noteq> None then shown_component i f
       else fx_spawned a (SpawnAttached (effect_asset effect) (attach_prop effect) (socket effect))) \<and>
    (\<forall>c. \<not> wanted \<and> shown_component i f = Some c \<longrightarrow> StopComponent c \<in> set calls)"
proof -
  let ?A = "rows_before a off i (r, f)"
  let ?B = "vfx_row a off i (snd ?A)"
  let ?C = "rows_after a off i (snd ?B)"
  note tick = vfx_tick_split [OF assms(1,3), of a off f, unfolded Let_def assms(6)]
  note sub = other_rows [OF assms(1)]
  have A: "fst (snd ?A) = r" "shown_component i (snd (snd ?A)) = shown_component i f"
    using rows_frame [of a off "[0..<i]" "(r, f)"] rows_components [OF assms(1) sub(1,2), of a off "(r, f)"]
    by (simp_all add: rows_before_def shown_component_def)
  have C: "shown_component i (snd (snd ?C)) = shown_component i (snd (snd ?B))"
    using rows_components [OF assms(1) sub(3,4), of a off "snd ?B"] by (simp add: rows_after_def shown_component_def)
  let ?w = "fst (read_vfx (target_vfx (anim r)) (effect_key (MIRRORED_EFFECTS ! i)))"
  obtain f1 where f1: "snd ?A = (r, f1)" using A(1) by (cases "snd ?A") auto
  have B: "vfx_row a off i (r, f1) = sustain_effect a i ?w (r, f1)"
    by (simp add: vfx_row_sustained [OF assms(2)])
  have own: "shown_component i (snd (snd (sustain_effect a i ?w (r, f1)))) =
      (if \<not> ?w then None else if shown_component i f1 \<noteq> None then shown_component i f1
       else fx_spawned a (SpawnAttached (effect_asset (MIRRORED_EFFECTS ! i)) (attach_prop (MIRRORED_EFFECTS ! i)) (socket (MIRRORED_EFFECTS ! i)))) \<and>
      (\<forall>c. \<not> ?w \<and> shown_component i f1 = Some c \<longrightarrow> StopComponent c \<in> set (fst (sustain_effect a i ?w (r, f1))))"
    using assms(4,5)
    by (cases ?w; cases "Option.bind (vfx_components f1 (effect_key (MIRRORED_EFFECTS ! i))) id")
       (simp_all add: sustain_effect_def shown_component_def Let_def)
  have "shown_component i f' = shown_component i (snd (snd ?B))" "set (fst ?B) \<subseteq> set calls"
    using tick C by (auto simp: shown_component_def)
  with own A(2) show ?thesis by (auto simp: Let_def B f1)
qed

section \<open>The thrown sword between samples\<close>

lemma clamp_dur_bounds: "WEAPON_SEG_MIN_MS \<le> clamp_dur d \<and> clamp_dur d \<le> WEAPON_SEG_MAX_MS"
  by (auto simp: clamp_dur_def Let_def WEAPON_SEG_MIN_MS_def WEAPON_SEG_MAX_MS_def)

definition segment_ok :: "ghost_fx \<Rightarrow> bool" where
  "segment_ok f \<longleftrightarrow> weapon_seg_dur_ms f = 0 \<or> (WEAPON_SEG_MIN_MS \<le> weapon_seg_dur_ms f \<and> weapon_seg_dur_ms f \<le> WEAPON_SEG_MAX_MS)"

lemma segment_ok_glide: "segment_ok f \<Longrightarrow> segment_ok (glide now target f)"
  using clamp_dur_bounds by (auto simp: segment_ok_def glide_def snap_to_def next_segment_def Let_def)

lemma quot_double_bounds:
  assumes "0 \<le> m" and "m \<le> n" and "0 < n" and "n < 2 ^ 53"
  shows "\<exists>t. quot_double m n = Fin t \<and> 0 \<le> t \<and> t \<le> 1"
proof -
  have r: "rnd_double (of_int m) = Fin (of_int m)" "rnd_double (of_int n) = Fin (of_int n)"
    using assms by (auto intro!: rnd_double_int)
  have "0 \<le> (of_int m / of_int n :: rat)" "of_int m / of_int n \<le> (1 :: rat)" using assms by simp_all
  from double.rnd_between [OF rnd_double_0_1(1,2) this] show ?thesis by (auto simp: quot_double_def r)
qed

lemma quot_double_sign:
  assumes "\<bar>m\<bar> < 2 ^ 53" and "0 < n" and "n < 2 ^ 53"
  shows "m \<le> 0 \<Longrightarrow> dbl_le (quot_double m n) (Fin 0)" and "n \<le> m \<Longrightarrow> dbl_le (Fin 1) (quot_double m n)"
proof -
  have r: "rnd_double (of_int m) = Fin (of_int m)" "rnd_double (of_int n) = Fin (of_int n)"
    using assms by (auto intro!: rnd_double_int)
  {
    assume "m \<le> 0"
    then have "of_int m / of_int n \<le> (0 :: rat)" using assms(2) by (simp add: divide_nonpos_pos)
    from double.rnd_mono [OF this] show "dbl_le (quot_double m n) (Fin 0)" by (simp add: quot_double_def r)
  next
    assume "n \<le> m"
    then have "(1 :: rat) \<le> of_int m / of_int n" using assms(2) by (simp add: pos_le_divide_eq)
    from double.rnd_mono [OF this] show "dbl_le (Fin 1) (quot_double m n)" by (simp add: quot_double_def r)
  }
qed

lemma glide_progress_bounds:
  assumes "segment_ok f" and "\<bar>now - weapon_seg_start_ms f\<bar> < 2 ^ 53"
  shows "\<exists>t. glide_progress now f = Fin t \<and> 0 \<le> t \<and> t \<le> 1 \<and>
    (weapon_seg_start_ms f + weapon_seg_dur_ms f \<le> now \<longrightarrow> t = 1)"
proof (cases "weapon_seg_dur_ms f > 0")
  case True
  let ?m = "now - weapon_seg_start_ms f" and ?n = "weapon_seg_dur_ms f"
  have n: "0 < ?n" "?n < 2 ^ 53"
    using True assms(1) by (auto simp: segment_ok_def WEAPON_SEG_MAX_MS_def)
  consider "?m \<le> 0" | "0 \<le> ?m" "?m < ?n" | "?n \<le> ?m" by linarith
  then show ?thesis
  proof cases
    case 1
    with quot_double_sign(1) [OF assms(2) n] True show ?thesis
      by (cases "quot_double ?m ?n") (auto simp: glide_progress_def Let_def)
  next
    case 2
    with quot_double_bounds [OF 2(1) _ n] True show ?thesis by (auto simp: glide_progress_def Let_def)
  next
    case 3
    with quot_double_sign(2) [OF assms(2) n] True show ?thesis
      by (cases "quot_double ?m ?n") (auto simp: glide_progress_def Let_def)
  qed
qed (use assms in \<open>auto simp: glide_progress_def segment_ok_def WEAPON_SEG_MIN_MS_def\<close>)

definition glide_run :: "(int \<times> triple) list \<Rightarrow> ghost_fx \<Rightarrow> ghost_fx" where
  "glide_run ts f = fold (\<lambda>(now, target). glide now target) ts f"

lemma segment_ok_run: "segment_ok f \<Longrightarrow> segment_ok (glide_run ts f)"
  by (induction ts arbitrary: f) (auto simp: glide_run_def segment_ok_glide)

text \<open>
  A thrown sword is drawn between its samples. Whatever targets have come at whatever clock readings, the segment being glided lasts 0 or
  between 16 and 400 ms, the fraction drawn is a number between 0 and 1, it is 1 from the segment's end on,
  and a sword that is not yet shown or is more than 1500 units from where it is drawn starts at its target.
\<close>

theorem sword_drawn_between_samples:
  assumes "f = glide_run ts new_fx" and "\<bar>now - weapon_seg_start_ms f\<bar> < 2 ^ 53"
  shows "(weapon_seg_dur_ms f = 0 \<or> WEAPON_SEG_MIN_MS \<le> weapon_seg_dur_ms f \<and> weapon_seg_dur_ms f \<le> WEAPON_SEG_MAX_MS) \<and>
    (\<exists>t. glide_progress now f = Fin t \<and> 0 \<le> t \<and> t \<le> 1 \<and> (weapon_seg_start_ms f + weapon_seg_dur_ms f \<le> now \<longrightarrow> t = 1)) \<and>
    (must_snap target f \<longrightarrow> render_weapon (glide now target f) = target)"
proof -
  have ok: "segment_ok f" using segment_ok_run [of new_fx ts] by (simp add: assms(1) segment_ok_def new_fx_def)
  then show ?thesis
    using glide_progress_bounds [OF ok assms(2)] by (simp add: segment_ok_def glide_def snap_to_def)
qed

text \<open>The first sample snaps, the second glides over the 100 ms between them; half way through at 150.\<close>

theorem sword_drawn_between_samples_witness:
  "let f = glide_run [(1000, zero3), (1100, (Fin 64, Fin 0, Fin 0))] new_fx in
   weapon_seg_dur_ms f = 100 \<and> (\<exists>t. glide_progress 1150 f = Fin t \<and> 0 \<le> t \<and> t \<le> 1)"
proof -
  define f where "f = glide_run [(1000, zero3), (1100, (Fin 64, Fin 0, Fin 0))] new_fx"
  have d: "weapon_seg_dur_ms f = 100 \<and> weapon_seg_start_ms f = 1100"
    by (simp add: f_def glide_run_def glide_def must_snap_def new_fx_def snap_to_def next_segment_def Let_def ne3_def dbl_ne_def
        clamp_dur_def WEAPON_SEG_MIN_MS_def WEAPON_SEG_MAX_MS_def sum_sq_def sub3_def dbl_sub_def WEAPON_SNAP_DISTANCE_def)
  from sword_drawn_between_samples [OF f_def, of 1150] d show ?thesis by (auto simp: f_def [symmetric] Let_def)
qed

section \<open>Two effects the bookkeeping misses\<close>

text \<open>
  The spark of a bounce is the table's wall-kick effect, but it is spawned without being remembered: the ring is
  as it was, so the local scan does not leave it out.
\<close>

lemma bounce_spark_not_remembered:
  "sword_bounce a (r, f) = (calls, r', f') \<Longrightarrow> own_fx [f'] = own_fx [f]"
  by (auto simp: sword_bounce_def own_fx_def fx_components_def split: if_splits)

text \<open>Such a spark beside the local player is counted as the player's own wall kick, and sent.\<close>

lemma bounce_spark_echoes:
  assumes "effect_of pawn_name (view c) = Some 8" and "component_active (view c)" and "component_at (view c) = Some p"
    and "at_player player None p" and "c \<notin> own_fx [f]" and "sword_bounce a (r, f) = (calls, r', f')"
  shows "counted pawn_name player None (own_fx [f']) (\<lambda>_. None) view 8 c"
proof -
  have "is_world_effect 8" by (simp add: is_world_effect_def MIRRORED_EFFECTS_def)
  then show ?thesis using assms bounce_spark_not_remembered [OF assms(6)] by (simp add: counted_def)
qed

text \<open>
  \<^verbatim>\<open>release_ghost\<close> stops the glow of a landed sword but keeps the state it was last synced at, so the ghost
  that replaces this one finds no change and spawns neither ring nor dust until the sword is caught.
\<close>

lemma landed_glow_lost:
  assumes "\<not> dbl_ne (weapon_state (weapon r)) (last_synced_weapon_state f)"
  shows "sword_land a (r, snd (release_fx live f)) = ([], r, snd (release_fx live f))" and "weapon_glow_component (snd (release_fx live f)) = None"
  using assms by (simp_all add: sword_land_def release_fx_def)

text \<open>A level teardown does reset it.\<close>

lemma landed_glow_after_teardown: "last_synced_weapon_state (drop_fx f) = Fin (- 1)"
  by (simp add: drop_fx_def)

section \<open>Samples\<close>

definition sample_seen :: ghost_fx where
  "sample_seen = new_fx\<lparr>vfx_counts := [''dl'' \<mapsto> Fin 1], vfx_counts_baselined := True\<rparr>"

theorem bursts_left_out_witness:
  "set (one_shots_made sample_fx_answers (fst (tick_remote_mirrored_vfx sample_fx_answers (\<lambda>_. None) (sample_sent ''dl:2'', sample_seen)))) \<subseteq>
   own_fx [snd (snd (tick_remote_mirrored_vfx sample_fx_answers (\<lambda>_. None) (sample_sent ''dl:2'', sample_seen)))]"
proof -
  obtain calls r f where t: "tick_remote_mirrored_vfx sample_fx_answers (\<lambda>_. None) (sample_sent ''dl:2'', sample_seen) = (calls, r, f)"
    by (cases "tick_remote_mirrored_vfx sample_fx_answers (\<lambda>_. None) (sample_sent ''dl:2'', sample_seen)")
  have "length (recent_one_shot_components sample_seen) \<le> MAX_TRACKED_ONE_SHOTS" by (simp add: sample_seen_def new_fx_def)
  from bursts_left_out [OF this t] show ?thesis by (simp add: t)
qed

theorem effect_there_while_sent_witness:
  "shown_component 0 (snd (snd (tick_remote_mirrored_vfx sample_fx_answers (\<lambda>_. None) (sample_sent ''heal'', new_fx)))) = Some 77"
proof -
  have i: "(0 :: nat) < MIRRORED_EFFECT_COUNT" "\<not> is_world_effect 0" "asset_loaded sample_fx_answers x" "attach_point sample_fx_answers x"
    "ghost (sample_sent y) \<noteq> None" for x y
    by (simp_all add: MIRRORED_EFFECT_COUNT_def is_world_effect_def MIRRORED_EFFECTS_def sample_fx_answers_def sample_sent_def)
  obtain calls r f where t: "tick_remote_mirrored_vfx sample_fx_answers (\<lambda>_. None) (sample_sent ''heal'', new_fx) = (calls, r, f)"
    by (cases "tick_remote_mirrored_vfx sample_fx_answers (\<lambda>_. None) (sample_sent ''heal'', new_fx)")
  have "target_vfx (anim (sample_sent ''heal'')) = ''heal''" by (simp add: sample_sent_def)
  moreover have "read_vfx ''heal'' ''heal'' = (True, None)"
    using read_entries [of "[(''heal'', None)]" "''heal''"] by (simp add: entry_ok_def clean_def delim_def entry_text_def)
  moreover have "effect_key (MIRRORED_EFFECTS ! 0) = ''heal''" by (simp add: MIRRORED_EFFECTS_def)
  moreover have "shown_component 0 new_fx = None" by (simp add: shown_component_def new_fx_def)
  moreover have "fx_spawned sample_fx_answers call = Some 77" for call by (simp add: sample_fx_answers_def)
  ultimately show ?thesis using effect_there_while_sent [OF i(1,2,5,3,4) t] by (simp add: Let_def t)
qed

end
