(* ===== verification/Peer_Assets.thy ===== *)
theory Peer_Assets
  imports Local_State
begin

text \<open>
  Assets a peer names (\<^verbatim>\<open>Plugin.cpp\<close>: \<^verbatim>\<open>resolve_peer_named_asset\<close>): a name reaches the engine's global lookup only as
  the path of an object the game has loaded, taken from a catalog per class that is enumerated at most once in ten seconds.
  A class of asset is a string; what the engine and the clock answer is an argument, and every call
  made of them goes to a log.
\<close>

section \<open>The catalogs\<close>

definition PEER_ASSET_CATALOG_REFRESH_MS :: int where "PEER_ASSET_CATALOG_REFRESH_MS = 10000"
definition PEER_ASSET_NAME_MAX_BYTES :: nat where "PEER_ASSET_NAME_MAX_BYTES = 512"

record catalog =
  paths :: "string set"
  last_refresh_ms :: int

definition new_catalog :: catalog where
  "new_catalog = \<lparr>paths = {}, last_refresh_ms = - 1\<rparr>"

text \<open>An enumeration is logged with its reading of the clock and the full names it found (\<open>None\<close> a null pointer), a global lookup with the class
  of the catalog that had the path: the call itself gets the wide name alone.\<close>

datatype asset_call = FindAllOf string int "string option list" | StaticFindObject string "nat list"

text \<open>\<^verbatim>\<open>to_wide_ascii\<close> widens byte by byte; a \<^verbatim>\<open>char\<close> is signed, so a byte of 128 or more becomes a unit above \<open>65280\<close>.\<close>

definition widen :: "char \<Rightarrow> nat" where
  "widen c = (if of_char c < (128::nat) then of_char c else 65280 + of_char c)"

definition to_wide_ascii :: "string \<Rightarrow> nat list" where
  "to_wide_ascii s = map widen s"

text \<open>The readings and enumerations of one lookup, in the code's order; \<open>usable\<close>: found, reachable and not being destroyed.\<close>

record asset_answers =
  first_ms :: int
  first_found :: "string option list"
  miss_ms :: int
  again_ms :: int
  again_found :: "string option list"
  usable :: "nat list \<Rightarrow> bool"

definition listed_paths :: "string option list \<Rightarrow> string set" where
  "listed_paths found = set (map asset_path (List.map_filter id found))"

definition rebuild :: "string \<Rightarrow> int \<Rightarrow> string option list \<Rightarrow> catalog \<Rightarrow> asset_call list \<times> catalog" where
  "rebuild class_name now found cat = ([FindAllOf class_name now found], cat\<lparr>last_refresh_ms := now, paths := listed_paths found\<rparr>)"

definition lookup_path :: "asset_answers \<Rightarrow> string \<Rightarrow> string \<Rightarrow> catalog \<Rightarrow> asset_call list \<times> bool \<times> catalog" where
  "lookup_path a class_name peer_path cat =
     (let (calls, cat) = (if last_refresh_ms cat < 0 then rebuild class_name (first_ms a) (first_found a) cat else ([], cat)) in
      if peer_path \<in> paths cat then (calls, True, cat)
      else if miss_ms a - last_refresh_ms cat \<ge> PEER_ASSET_CATALOG_REFRESH_MS
      then (case rebuild class_name (again_ms a) (again_found a) cat of
              (again, cat) \<Rightarrow> (calls @ again, peer_path \<in> paths cat, cat))
      else (calls, False, cat))"

text \<open>The name asked for of the object handed back, if any.\<close>

definition resolve_peer_named_asset ::
  "asset_answers \<Rightarrow> string \<Rightarrow> string \<Rightarrow> (string \<Rightarrow> catalog option) \<Rightarrow> asset_call list \<times> nat list option \<times> (string \<Rightarrow> catalog option)" where
  "resolve_peer_named_asset a class_name peer_path cats =
     (if peer_path = [] \<or> length peer_path > PEER_ASSET_NAME_MAX_BYTES then ([], None, cats)
      else
        case lookup_path a class_name peer_path (case cats class_name of None \<Rightarrow> new_catalog | Some cat \<Rightarrow> cat) of
          (calls, hit, cat) \<Rightarrow>
            (if hit
             then (calls @ [StaticFindObject class_name (to_wide_ascii peer_path)],
                   if usable a (to_wide_ascii peer_path) then Some (to_wide_ascii peer_path) else None, cats(class_name \<mapsto> cat))
             else (calls, None, cats(class_name \<mapsto> cat))))"

section \<open>Runs\<close>

type_synonym asset_lookup = "asset_answers \<times> string \<times> string"

fun asset_run :: "asset_lookup list \<Rightarrow> (string \<Rightarrow> catalog option) \<Rightarrow> asset_call list \<times> (string \<Rightarrow> catalog option)" where
  "asset_run [] cats = ([], cats)"
| "asset_run ((a, class_name, peer_path) # ls) cats =
     (case resolve_peer_named_asset a class_name peer_path cats of (calls, _, cats) \<Rightarrow>
        (case asset_run ls cats of (later, cats) \<Rightarrow> (calls @ later, cats)))"

text \<open>The latest enumeration of a class in a log: when, and the paths it listed.\<close>

fun latest :: "string \<Rightarrow> asset_call list \<Rightarrow> (int \<times> string set) option \<Rightarrow> (int \<times> string set) option" where
  "latest class_name [] acc = acc"
| "latest class_name (FindAllOf k t found # cs) acc = latest class_name cs (if k = class_name then Some (t, listed_paths found) else acc)"
| "latest class_name (StaticFindObject k p # cs) acc = latest class_name cs acc"

text \<open>A log is orderly when every global lookup names a listed path, widened, and enumerations of a class are ten seconds apart.\<close>

fun orderly :: "(string \<Rightarrow> (int \<times> string set) option) \<Rightarrow> asset_call list \<Rightarrow> bool" where
  "orderly acc [] = True"
| "orderly acc (FindAllOf k t found # cs) =
     ((case acc k of None \<Rightarrow> True | Some (t', _) \<Rightarrow> t' + PEER_ASSET_CATALOG_REFRESH_MS \<le> t) \<and>
      orderly (acc(k \<mapsto> (t, listed_paths found))) cs)"
| "orderly acc (StaticFindObject k w # cs) =
     ((case acc k of None \<Rightarrow> False
       | Some (_, ps) \<Rightarrow> \<exists>p\<in>ps. p \<noteq> [] \<and> length p \<le> PEER_ASSET_NAME_MAX_BYTES \<and> w = to_wide_ascii p) \<and> orderly acc cs)"

definition known_of :: "(string \<Rightarrow> catalog option) \<Rightarrow> string \<Rightarrow> (int \<times> string set) option" where
  "known_of cats k =
     (case cats k of None \<Rightarrow> None | Some cat \<Rightarrow> if last_refresh_ms cat < 0 then None else Some (last_refresh_ms cat, paths cat))"

fun after_log :: "(string \<Rightarrow> (int \<times> string set) option) \<Rightarrow> asset_call list \<Rightarrow> string \<Rightarrow> (int \<times> string set) option" where
  "after_log acc [] = acc"
| "after_log acc (FindAllOf k t found # cs) = after_log (acc(k \<mapsto> (t, listed_paths found))) cs"
| "after_log acc (StaticFindObject k p # cs) = after_log acc cs"

lemma orderly_append: "orderly acc (xs @ ys) \<longleftrightarrow> orderly acc xs \<and> orderly (after_log acc xs) ys"
  by (induction acc xs rule: orderly.induct) (auto simp del: fun_upd_apply)

lemma after_log_append: "after_log acc (xs @ ys) = after_log (after_log acc xs) ys"
  by (induction acc xs rule: after_log.induct) (simp_all del: fun_upd_apply)

definition clock_ok :: "asset_answers \<Rightarrow> bool" where
  "clock_ok a \<longleftrightarrow> 0 \<le> first_ms a \<and> 0 \<le> again_ms a \<and> miss_ms a \<le> again_ms a"

definition cats_ok :: "(string \<Rightarrow> catalog option) \<Rightarrow> bool" where
  "cats_ok cats \<longleftrightarrow> (\<forall>k cat. cats k = Some cat \<longrightarrow> 0 \<le> last_refresh_ms cat)"

lemma known_of_put [simp]:
  "0 \<le> last_refresh_ms cat \<Longrightarrow> known_of (cats(k \<mapsto> cat)) = (known_of cats)(k \<mapsto> (last_refresh_ms cat, paths cat))"
  by (rule ext) (simp add: known_of_def)

lemma cats_ok_put: "cats_ok cats \<Longrightarrow> 0 \<le> last_refresh_ms cat \<Longrightarrow> cats_ok (cats(k \<mapsto> cat))"
  by (simp add: cats_ok_def)

lemma lookup_orderly:
  assumes "clock_ok a" and "cats_ok cats"
    and "lookup_path a k p (case cats k of None \<Rightarrow> new_catalog | Some cat \<Rightarrow> cat) = (calls, hit, cat)"
  shows "orderly (known_of cats) calls \<and> after_log (known_of cats) calls = (known_of cats)(k \<mapsto> (last_refresh_ms cat, paths cat))
    \<and> 0 \<le> last_refresh_ms cat \<and> (hit \<longrightarrow> p \<in> paths cat)"
proof (cases "cats k")
  case None
  then show ?thesis
    using assms by (auto simp: lookup_path_def rebuild_def new_catalog_def known_of_def clock_ok_def Let_def split: if_splits)
next
  case (Some c)
  then have ok: "0 \<le> last_refresh_ms c" using assms(2) by (simp add: cats_ok_def)
  then have known: "known_of cats k = Some (last_refresh_ms c, paths c)" by (simp add: known_of_def Some)
  then have "(known_of cats)(k \<mapsto> (last_refresh_ms c, paths c)) = known_of cats" by (rule fun_upd_idem)
  with ok known show ?thesis
    using assms by (auto simp: Some lookup_path_def rebuild_def clock_ok_def Let_def split: if_splits)
qed

lemma resolve_orderly:
  assumes "clock_ok a" and "cats_ok cats" and "resolve_peer_named_asset a k p cats = (calls, result, cats')"
  shows "orderly (known_of cats) calls \<and> known_of cats' = after_log (known_of cats) calls \<and> cats_ok cats'"
proof (cases "p = [] \<or> length p > PEER_ASSET_NAME_MAX_BYTES")
  case True
  then show ?thesis using assms by (auto simp: resolve_peer_named_asset_def)
next
  case False
  obtain made hit cat where l: "lookup_path a k p (case cats k of None \<Rightarrow> new_catalog | Some cat \<Rightarrow> cat) = (made, hit, cat)"
    by (cases "lookup_path a k p (case cats k of None \<Rightarrow> new_catalog | Some cat \<Rightarrow> cat)")
  note o = lookup_orderly [OF assms(1,2) l]
  with False assms(2,3) show ?thesis
    by (auto simp: resolve_peer_named_asset_def l orderly_append after_log_append cats_ok_put split: if_splits
        intro!: bexI [of _ p])
qed

lemma run_orderly:
  "\<forall>(a, k, p)\<in>set ls. clock_ok a \<Longrightarrow> cats_ok cats \<Longrightarrow> orderly (known_of cats) (fst (asset_run ls cats))"
proof (induction ls arbitrary: cats)
  case (Cons l ls)
  obtain a k p where l: "l = (a, k, p)" by (cases l)
  obtain calls res cats' where r: "resolve_peer_named_asset a k p cats = (calls, res, cats')"
    by (cases "resolve_peer_named_asset a k p cats")
  have o: "orderly (known_of cats) calls \<and> known_of cats' = after_log (known_of cats) calls \<and> cats_ok cats'"
    using Cons.prems(1) by (intro resolve_orderly [OF _ Cons.prems(2) r]) (simp add: l)
  then have "cats_ok cats'" by simp
  with Cons have "orderly (known_of cats') (fst (asset_run ls cats'))" by (simp add: l)
  with o show ?case by (auto simp: l r orderly_append split: prod.splits)
qed simp

lemma orderly_latest:
  "orderly acc (pre @ StaticFindObject k w # post) \<Longrightarrow>
   \<exists>t ps p. latest k pre (acc k) = Some (t, ps) \<and> p \<in> ps \<and> p \<noteq> [] \<and> length p \<le> PEER_ASSET_NAME_MAX_BYTES \<and> w = to_wide_ascii p"
proof (induction acc pre rule: orderly.induct)
  case (1 acc)
  then show ?case by (auto split: option.splits)
next
  case (2 acc k' t found log)
  then show ?case by (auto simp: fun_upd_def split: if_splits)
next
  case (3 acc k' p' cs)
  then show ?case by auto
qed

text \<open>
  Property C10. A peer can name only what this game has loaded. Whatever names peers send, every name that reaches the global
  lookup is the byte-by-byte widening of a path that the latest enumeration of its class listed, not empty and at most
  512 bytes long: the path itself where that is ASCII.
\<close>

theorem peer_names_only_loaded:
  assumes "\<forall>(a, k, p)\<in>set ls. clock_ok a"
    and "fst (asset_run ls (\<lambda>_. None)) = pre @ StaticFindObject class_name w # post"
  shows "\<exists>t ps p. latest class_name pre None = Some (t, ps) \<and> p \<in> ps \<and> p \<noteq> [] \<and> length p \<le> PEER_ASSET_NAME_MAX_BYTES \<and>
    w = to_wide_ascii p \<and> (list_all (\<lambda>c. of_char c < (128::nat)) p \<longrightarrow> w = map of_char p)"
proof -
  have "orderly (known_of (\<lambda>_. None)) (pre @ StaticFindObject class_name w # post)"
    using run_orderly [OF assms(1), of "\<lambda>_. None"] by (simp add: assms(2) cats_ok_def)
  from orderly_latest [OF this] obtain t ps p where p: "latest class_name pre None = Some (t, ps)" "p \<in> ps" "p \<noteq> []"
    "length p \<le> PEER_ASSET_NAME_MAX_BYTES" "w = to_wide_ascii p" by (auto simp: known_of_def)
  moreover have "list_all (\<lambda>c. of_char c < (128::nat)) p \<longrightarrow> to_wide_ascii p = map of_char p"
    by (auto simp: to_wide_ascii_def widen_def list_all_iff)
  ultimately show ?thesis by blast
qed

lemma orderly_spacing:
  "orderly acc (pre @ FindAllOf k t found # post) \<Longrightarrow>
   case latest k pre (acc k) of None \<Rightarrow> True | Some (t', _) \<Rightarrow> t' + PEER_ASSET_CATALOG_REFRESH_MS \<le> t"
proof (induction acc pre rule: orderly.induct)
  case (2 acc k' t' found' log)
  then show ?case by (auto simp: fun_upd_def split: if_splits)
qed (auto split: option.splits)

text \<open>
  A flood of unknown names costs one enumeration in ten seconds. Whatever is looked up, two enumerations of a
  class in a row are at least ten seconds apart by the clock.
\<close>

theorem enumerations_spaced:
  assumes "\<forall>(a, k, p)\<in>set ls. clock_ok a"
    and "fst (asset_run ls (\<lambda>_. None)) = pre @ FindAllOf class_name t found # post" and "latest class_name pre None = Some (t', ps)"
  shows "t' + 10000 \<le> t"
proof -
  have "orderly (known_of (\<lambda>_. None)) (pre @ FindAllOf class_name t found # post)"
    using run_orderly [OF assms(1), of "\<lambda>_. None"] by (simp add: assms(2) cats_ok_def)
  from orderly_spacing [OF this] show ?thesis by (simp add: known_of_def assms(3) PEER_ASSET_CATALOG_REFRESH_MS_def)
qed

definition sample_answers :: "int \<Rightarrow> asset_answers" where
  "sample_answers now = \<lparr>first_ms = now, first_found = [Some ''NiagaraSystem /Game/A.A'', None], miss_ms = now, again_ms = now + 1,
     again_found = [Some ''NiagaraSystem /Game/B.B''], usable = (\<lambda>_. True)\<rparr>"

definition sample_lookups :: "asset_lookup list" where
  "sample_lookups = [(sample_answers 5, ''NiagaraSystem'', ''/Game/A.A''), (sample_answers 900, ''NiagaraSystem'', ''/Game/B.B''),
     (sample_answers 20000, ''NiagaraSystem'', ''/Game/B.B'')]"

lemma sample_log:
  "fst (asset_run sample_lookups (\<lambda>_. None)) =
    [FindAllOf ''NiagaraSystem'' 5 [Some ''NiagaraSystem /Game/A.A'', None], StaticFindObject ''NiagaraSystem'' (to_wide_ascii ''/Game/A.A''),
     FindAllOf ''NiagaraSystem'' 20001 [Some ''NiagaraSystem /Game/B.B''], StaticFindObject ''NiagaraSystem'' (to_wide_ascii ''/Game/B.B'')]"
proof -
  have p: "listed_paths [Some ''NiagaraSystem /Game/A.A'', None] = {''/Game/A.A''}" "listed_paths [Some ''NiagaraSystem /Game/B.B''] = {''/Game/B.B''}"
    by (simp_all add: listed_paths_def map_filter_def asset_path_def str_find_def find_from.simps)
  show ?thesis
    by (simp add: sample_lookups_def sample_answers_def resolve_peer_named_asset_def lookup_path_def rebuild_def new_catalog_def
        PEER_ASSET_CATALOG_REFRESH_MS_def PEER_ASSET_NAME_MAX_BYTES_def p Let_def)
qed

lemma sample_clock: "\<forall>(a, k, p)\<in>set sample_lookups. clock_ok a"
  by (simp add: sample_lookups_def clock_ok_def sample_answers_def)

theorem peer_names_only_loaded_witness:
  "\<exists>t ps p. latest ''NiagaraSystem'' (take 3 (fst (asset_run sample_lookups (\<lambda>_. None)))) None = Some (t, ps) \<and> p \<in> ps \<and>
    to_wide_ascii ''/Game/B.B'' = to_wide_ascii p"
proof -
  have "fst (asset_run sample_lookups (\<lambda>_. None)) =
      take 3 (fst (asset_run sample_lookups (\<lambda>_. None))) @ StaticFindObject ''NiagaraSystem'' (to_wide_ascii ''/Game/B.B'') # []"
    by (simp add: sample_log)
  from peer_names_only_loaded [OF sample_clock this] obtain t ps p where
    "latest ''NiagaraSystem'' (take 3 (fst (asset_run sample_lookups (\<lambda>_. None)))) None = Some (t, ps)" "p \<in> ps"
    "to_wide_ascii ''/Game/B.B'' = to_wide_ascii p" by blast
  then show ?thesis by blast
qed

text \<open>
  A path with a letter outside ASCII is asked for under another name: its UTF-8 bytes become two units where the game's
  own name has one.
\<close>

theorem widening_splits_letters: "to_wide_ascii [CHR 0xC3, CHR 0x89] = [65475, 65417]"
  by (simp add: to_wide_ascii_def widen_def)

theorem enumerations_spaced_witness: "(5 :: int) + 10000 \<le> 20001"
proof -
  have "fst (asset_run sample_lookups (\<lambda>_. None)) =
      take 2 (fst (asset_run sample_lookups (\<lambda>_. None))) @
      FindAllOf ''NiagaraSystem'' 20001 [Some ''NiagaraSystem /Game/B.B''] # [StaticFindObject ''NiagaraSystem'' (to_wide_ascii ''/Game/B.B'')]"
    by (simp add: sample_log)
  moreover have "latest ''NiagaraSystem'' (take 2 (fst (asset_run sample_lookups (\<lambda>_. None)))) None = Some (5, listed_paths [Some ''NiagaraSystem /Game/A.A'', None])"
    by (simp add: sample_log)
  ultimately show ?thesis by (rule enumerations_spaced [OF sample_clock])
qed

end
