(* ===== verification/Guards.thy ===== *)
theory Guards
  imports Local_State
begin

text \<open>
  The guards (\<^verbatim>\<open>Plugin.cpp\<close>: \<^verbatim>\<open>register_camera_fightback_hook\<close>, \<^verbatim>\<open>register_fade_guard_hook\<close>,
  \<^verbatim>\<open>register_audio_listener_guard\<close>, \<^verbatim>\<open>register_playerlocation_guard\<close>, \<^verbatim>\<open>register_damage_guard_hooks\<close>): callbacks that
  run before an engine function and may rewrite its arguments, so that a ghost, a clone of the player's
  pawn, does not take the player's camera, screen, ears or health. A hook is a function from the arguments
  to the arguments the engine then uses. A pointer is an address, \<open>None\<close> when null; a reflected property
  that does not resolve is \<open>None\<close> once more outside. The ghosts are those of \<^verbatim>\<open>remotes\<close>.
\<close>

section \<open>The camera\<close>

definition GHOST_SPAWN_CAMERA_GUARD_TICKS :: u64 where "GHOST_SPAWN_CAMERA_GUARD_TICKS = 10"

record view_guard =
  last_non_ghost_view_target :: "address option"
  ghost_spawn_camera_guard_tick :: u64

definition new_view_guard :: view_guard where
  "new_view_guard = \<lparr>last_non_ghost_view_target = None, ghost_spawn_camera_guard_tick = 0\<rparr>"

record view_call =
  new_view_target :: "address option"
  owning_actor :: "address option option"
  engine_owner :: "address option option"
  view_ghosts :: "address list"
  view_tick :: u64
  view_unreachable :: "address \<Rightarrow> bool"

definition pointee :: "address option option \<Rightarrow> address option" where
  "pointee p = (case p of Some (Some a) \<Rightarrow> Some a | _ \<Rightarrow> None)"

definition rig_owner :: "view_call \<Rightarrow> address option" where
  "rig_owner c = (case pointee (owning_actor c) of Some a \<Rightarrow> Some a | None \<Rightarrow> pointee (engine_owner c))"

definition owned_by_ghost :: "view_call \<Rightarrow> bool" where
  "owned_by_ghost c = (case rig_owner c of None \<Rightarrow> False | Some a \<Rightarrow> a \<in> set (view_ghosts c))"

definition inside_ghost_spawn_window :: "u64 \<Rightarrow> u64 \<Rightarrow> bool" where
  "inside_ghost_spawn_window guard tick \<longleftrightarrow> guard \<noteq> 0 \<and> guard \<le> tick \<and> tick \<le> guard + GHOST_SPAWN_CAMERA_GUARD_TICKS"

definition reject_view :: "view_call \<Rightarrow> u64 \<Rightarrow> bool" where
  "reject_view c guard \<longleftrightarrow> owned_by_ghost c \<or> (rig_owner c = None \<and> inside_ghost_spawn_window guard (view_tick c))"

definition guard_view_target :: "view_call \<Rightarrow> view_guard \<Rightarrow> address option \<times> view_guard" where
  "guard_view_target c g =
     (case new_view_target c of
        None \<Rightarrow> (None, g)
      | Some target \<Rightarrow>
          if \<not> reject_view c (ghost_spawn_camera_guard_tick g)
          then (Some target, g\<lparr>last_non_ghost_view_target := Some target\<rparr>)
          else case last_non_ghost_view_target g of
                 None \<Rightarrow> (Some target, g)
               | Some kept \<Rightarrow> (Some (if view_unreachable c kept then target else kept), g))"

text \<open>A spawn arms the window; a release of every ghost forgets the camera.\<close>

definition arm_view_guard :: "u64 \<Rightarrow> view_guard \<Rightarrow> view_guard" where
  "arm_view_guard tick g = g\<lparr>ghost_spawn_camera_guard_tick := tick\<rparr>"

definition forget_view_target :: "view_guard \<Rightarrow> view_guard" where
  "forget_view_target g = g\<lparr>last_non_ghost_view_target := None\<rparr>"

section \<open>Parameters found by name\<close>

text \<open>A function's parameters with their offsets, in order; a later match overwrites an earlier one.\<close>

type_synonym params = "(string \<times> nat) list"

definition param_offset :: "string list \<Rightarrow> params \<Rightarrow> nat option" where
  "param_offset names ps = fold (\<lambda>(name, off) found. if name \<in> set names then Some off else found) ps None"

definition write_at :: "nat option \<Rightarrow> 'v \<Rightarrow> (nat \<Rightarrow> 'v) \<Rightarrow> nat \<Rightarrow> 'v" where
  "write_at off v block = (case off of None \<Rightarrow> block | Some k \<Rightarrow> block(k := v))"

section \<open>The fade\<close>

definition GHOST_SPAWN_FADE_GUARD_TICKS :: u64 where "GHOST_SPAWN_FADE_GUARD_TICKS = 10"

definition guard_fade :: "params \<Rightarrow> u64 \<Rightarrow> u64 \<Rightarrow> (nat \<Rightarrow> dbl) \<Rightarrow> nat \<Rightarrow> dbl" where
  "guard_fade ps last_spawn tick block =
     (if last_spawn = 0 \<or> tick - last_spawn > GHOST_SPAWN_FADE_GUARD_TICKS then block
      else write_at (param_offset [''Duration''] ps) (Fin 0)
             (write_at (param_offset [''ToAlpha''] ps) (Fin 0) (write_at (param_offset [''FromAlpha''] ps) (Fin 0) block)))"

section \<open>Damage\<close>

definition DAMAGE_NAMES :: "string list" where "DAMAGE_NAMES = [''BaseDamage'', ''Damage'', ''DamageAmount'']"

text \<open>Hooked only when both offsets are found.\<close>

definition damage_hooked :: "params \<Rightarrow> bool" where
  "damage_hooked ps \<longleftrightarrow> param_offset DAMAGE_NAMES ps \<noteq> None \<and> param_offset [''DamageCauser''] ps \<noteq> None"

definition from_ghost :: "params \<Rightarrow> address list \<Rightarrow> (nat \<Rightarrow> address option) \<Rightarrow> bool" where
  "from_ghost ps ghosts pointers =
     (let causer = Option.bind (param_offset [''DamageCauser''] ps) pointers;
          instigator = Option.bind (param_offset [''EventInstigator''] ps) pointers
      in list_ex (\<lambda>g. Some g = causer \<or> Some g = instigator) ghosts)"

definition guard_damage :: "params \<Rightarrow> address list \<Rightarrow> (nat \<Rightarrow> address option) \<Rightarrow> (nat \<Rightarrow> dbl) \<Rightarrow> nat \<Rightarrow> dbl" where
  "guard_damage ps ghosts pointers block =
     (if damage_hooked ps \<and> from_ghost ps ghosts pointers then write_at (param_offset DAMAGE_NAMES ps) (Fin 0) block else block)"

section \<open>The listener\<close>

record listener_call =
  attach_to :: "address option"
  listener_controller :: "address option"
  acknowledged_pawn :: "address option option"
  controller_pawn :: "address option option"
  root_of :: "address \<Rightarrow> address option option"

definition driven_pawn :: "listener_call \<Rightarrow> address option" where
  "driven_pawn c = (case pointee (acknowledged_pawn c) of Some p \<Rightarrow> Some p | None \<Rightarrow> pointee (controller_pawn c))"

definition guard_listener :: "listener_call \<Rightarrow> address option" where
  "guard_listener c =
     (if listener_controller c = None then attach_to c
      else case Option.bind (driven_pawn c) (\<lambda>p. pointee (root_of c p)) of
             None \<Rightarrow> attach_to c
           | Some r \<Rightarrow> if attach_to c = Some r then attach_to c else Some r)"

section \<open>The player's place in the materials\<close>

record place_guard =
  playerlocation_guarded :: bool
  guard_local :: "triple option"
  mpc_player_related :: "address option"

record place_call =
  collection :: "address option"
  parameter_name :: string
  rgb :: triple

text \<open>\<open>found\<close> is what the lookup of the collection returns, made until it has returned something.\<close>

definition guard_place :: "address option \<Rightarrow> place_call \<Rightarrow> place_guard \<Rightarrow> place_call \<times> place_guard" where
  "guard_place found c g =
     (case (playerlocation_guarded g, guard_local g, collection c) of
        (True, Some (x, y, z), Some coll) \<Rightarrow>
          let g = (if mpc_player_related g = None then g\<lparr>mpc_player_related := found\<rparr> else g)
          in if mpc_player_related g \<noteq> Some coll \<or> parameter_name c \<noteq> ''PlayerLocation'' then (c, g)
             else (c\<lparr>rgb := (dbl_to_float x, dbl_to_float y, dbl_to_float z)\<rparr>, g)
      | _ \<Rightarrow> (c, g))"

section \<open>What the guards promise\<close>

text \<open>A run of the camera guard: calls, spawns, releases of every ghost.\<close>

datatype view_event = ViewCall view_call | GhostSpawned u64 | GhostsReleased

fun view_step :: "view_event \<Rightarrow> view_guard \<Rightarrow> view_guard" where
  "view_step (ViewCall c) g = snd (guard_view_target c g)"
| "view_step (GhostSpawned tick) g = arm_view_guard tick g"
| "view_step GhostsReleased g = forget_view_target g"

abbreviation view_run :: "view_event list \<Rightarrow> view_guard \<Rightarrow> view_guard" where
  "view_run evs g \<equiv> fold view_step evs g"

text \<open>
  What the guard is to decide, from the events before a call, the latest first. The pawn a rig serves is its
  \<^verbatim>\<open>OwningActor\<close>, or its \<^verbatim>\<open>Owner\<close> when it has none. A rig is a ghost's when that pawn is a ghost, or when there is no such
  pawn and the latest spawn of a ghost was at most ten ticks ago. The camera the player had is the latest target that was
  not a ghost's rig, since the ghosts were last released.
\<close>

fun latest_spawn :: "view_event list \<Rightarrow> u64 option" where
  "latest_spawn [] = None"
| "latest_spawn (GhostSpawned t # _) = Some t"
| "latest_spawn (_ # past) = latest_spawn past"

definition ghosts_rig :: "view_event list \<Rightarrow> view_call \<Rightarrow> bool" where
  "ghosts_rig past c =
     (case owning_actor c of
        Some (Some a) \<Rightarrow> a \<in> set (view_ghosts c)
      | _ \<Rightarrow>
          (case engine_owner c of
             Some (Some a) \<Rightarrow> a \<in> set (view_ghosts c)
           | _ \<Rightarrow> \<exists>t. latest_spawn past = Some t \<and> unat t \<le> unat (view_tick c) \<and> unat (view_tick c) \<le> unat t + 10))"

fun players_camera :: "view_event list \<Rightarrow> address option" where
  "players_camera [] = None"
| "players_camera (ViewCall c # past) =
     (if new_view_target c \<noteq> None \<and> \<not> ghosts_rig past c then new_view_target c else players_camera past)"
| "players_camera (GhostSpawned t # past) = players_camera past"
| "players_camera (GhostsReleased # past) = None"

text \<open>Spawns at ticks the window's sum does not leave.\<close>

definition spawn_ticks :: "view_event list \<Rightarrow> bool" where
  "spawn_ticks past \<longleftrightarrow> (\<forall>t. GhostSpawned t \<in> set past \<longrightarrow> 0 < unat t \<and> unat t + 10 < 2 ^ 64)"

lemma window_spec:
  assumes "0 < unat w" and "unat w + 10 < 2 ^ 64"
  shows "inside_ghost_spawn_window w now \<longleftrightarrow> unat w \<le> unat now \<and> unat now \<le> unat w + 10"
proof -
  have "unat (w + 10) = unat w + 10"
    using assms(2) by (simp add: unat_word_ariths)
  then show ?thesis using assms(1) by (auto simp: inside_ghost_spawn_window_def GHOST_SPAWN_CAMERA_GUARD_TICKS_def word_le_nat_alt)
qed

lemma reject_spec:
  assumes "spawn_ticks past" and "w = (case latest_spawn past of None \<Rightarrow> 0 | Some t \<Rightarrow> t)"
  shows "reject_view c w \<longleftrightarrow> ghosts_rig past c"
proof -
  have "GhostSpawned t \<in> set past" if "latest_spawn past = Some t" for t
    using that by (induction past rule: latest_spawn.induct) auto
  then have "inside_ghost_spawn_window w now \<longleftrightarrow>
      (\<exists>t. latest_spawn past = Some t \<and> unat t \<le> unat now \<and> unat now \<le> unat t + 10)" for now
    using assms window_spec [of w now]
    by (cases "latest_spawn past") (auto simp: spawn_ticks_def inside_ghost_spawn_window_def)
  then show ?thesis
    by (simp add: reject_view_def owned_by_ghost_def rig_owner_def ghosts_rig_def pointee_def split: option.split)
qed

lemma guard_window [simp]: "ghost_spawn_camera_guard_tick (snd (guard_view_target c g)) = ghost_spawn_camera_guard_tick g"
  by (simp add: guard_view_target_def split: option.split)

lemma guard_remembers:
  "last_non_ghost_view_target (snd (guard_view_target c g)) =
     (if new_view_target c \<noteq> None \<and> \<not> reject_view c (ghost_spawn_camera_guard_tick g) then new_view_target c
      else last_non_ghost_view_target g)"
  by (simp add: guard_view_target_def split: option.split)

lemma view_run_spec:
  "spawn_ticks past \<Longrightarrow>
     ghost_spawn_camera_guard_tick (view_run (rev past) new_view_guard) = (case latest_spawn past of None \<Rightarrow> 0 | Some t \<Rightarrow> t) \<and>
     last_non_ghost_view_target (view_run (rev past) new_view_guard) = players_camera past"
proof (induction past)
  case (Cons e past)
  have s: "spawn_ticks past" using Cons.prems by (simp add: spawn_ticks_def)
  show ?case
  proof (cases e)
    case (ViewCall c)
    then show ?thesis using Cons.IH [OF s] by (simp add: guard_remembers reject_spec [OF s])
  qed (use Cons.IH [OF s] in \<open>simp_all add: arm_view_guard_def forget_view_target_def\<close>)
qed (simp add: new_view_guard_def)

text \<open>
  Property C37. A ghost does not take the camera. After any run of view-target calls, spawns and releases, a call whose
  target is not a ghost's rig goes through as it is. A ghost's rig is turned back to the camera the player had, unless the
  player had none since the ghosts were last released, or it is being destroyed: then the rig goes through. A ghost's rig
  is one whose \<^verbatim>\<open>OwningActor\<close>, or \<^verbatim>\<open>Owner\<close> when it has none, is a ghost, or which has neither within ten ticks of the
  latest spawn. Spawns are counted from tick one.
\<close>

theorem ghost_never_takes_camera:
  assumes "new_view_target c = Some target" and "spawn_ticks past"
  shows "fst (guard_view_target c (view_run (rev past) new_view_guard)) =
    (if \<not> ghosts_rig past c then Some target
     else case players_camera past of
            None \<Rightarrow> Some target
          | Some kept \<Rightarrow> if view_unreachable c kept then Some target else Some kept)"
  using view_run_spec [OF assms(2)] reject_spec [OF assms(2)] assms(1)
  by (simp add: guard_view_target_def split: option.split)

definition sample_call :: "address \<Rightarrow> address option \<Rightarrow> u64 \<Rightarrow> view_call" where
  "sample_call target own tick = \<lparr>new_view_target = Some target, owning_actor = Some own, engine_owner = None, view_ghosts = [7],
     view_tick = tick, view_unreachable = (\<lambda>_. False)\<rparr>"

theorem ghost_never_takes_camera_witness:
  "fst (guard_view_target (sample_call 70 (Some 7) 12) (view_run (rev [GhostSpawned 10, ViewCall (sample_call 40 (Some 4) 3)]) new_view_guard)) = Some 40"
  using ghost_never_takes_camera [of "sample_call 70 (Some 7) 12" 70 "[GhostSpawned 10, ViewCall (sample_call 40 (Some 4) 3)]"]
  by (simp add: sample_call_def spawn_ticks_def ghosts_rig_def)

text \<open>Parameters: the last one of a name wins, and a name that is there is found.\<close>

lemma param_offset_found: "param_offset names ps = None \<longleftrightarrow> (\<forall>(name, off)\<in>set ps. name \<notin> set names)"
proof -
  have "fold (\<lambda>(name, off) found. if name \<in> set names then Some off else found) ps acc = None \<longleftrightarrow>
      acc = None \<and> (\<forall>(name, off)\<in>set ps. name \<notin> set names)" for acc
    by (induction ps arbitrary: acc) (auto split: if_splits)
  then show ?thesis by (simp add: param_offset_def)
qed

lemma write_at_same: "write_at off v block k = (if off = Some k then v else block k)"
  by (auto simp: write_at_def split: option.split)

text \<open>
  The damage guard, whose callbacks are registered in builds with \<^verbatim>\<open>GHOST_DAMAGE_GUARD\<close>. Where the function has a damage and a causer
  parameter, a call whose causer or instigator is a ghost reaches the engine with no damage, and any other
  call as it was made; nothing but the damage is ever changed.
\<close>

lemma ghost_damage_refused:
  assumes "param_offset DAMAGE_NAMES ps = Some d" and "param_offset [''DamageCauser''] ps = Some c"
  shows "let block' = guard_damage ps ghosts pointers block;
      blamed = (\<lambda>g. pointers c = Some g \<or> Option.bind (param_offset [''EventInstigator''] ps) pointers = Some g) in
    (block' d = (if \<exists>g\<in>set ghosts. blamed g then Fin 0 else block d)) \<and> (\<forall>k. k \<noteq> d \<longrightarrow> block' k = block k)"
  using assms
  by (auto simp: Let_def guard_damage_def damage_hooked_def from_ghost_def list_ex_iff write_at_same)

definition sample_params :: params where
  "sample_params = [(''DamagedActor'', 0), (''BaseDamage'', 8), (''EventInstigator'', 16), (''DamageCauser'', 24)]"

lemma ghost_damage_refused_witness:
  "guard_damage sample_params [7] (\<lambda>k. if k = 24 then Some 7 else None) (\<lambda>_. Fin 5) 8 = Fin 0"
  using ghost_damage_refused [of sample_params 8 24 "[7]" "\<lambda>k. if k = 24 then Some 7 else None" "\<lambda>_. Fin 5"]
  by (simp add: Let_def sample_params_def param_offset_def DAMAGE_NAMES_def)

text \<open>The others, as lemmas.\<close>

lemma fade_neutralised:
  assumes "last_spawn \<noteq> 0" and "tick - last_spawn \<le> GHOST_SPAWN_FADE_GUARD_TICKS"
    and "k \<in> {k. \<exists>n\<in>{''FromAlpha'', ''ToAlpha'', ''Duration''}. param_offset [n] ps = Some k}"
  shows "guard_fade ps last_spawn tick block k = Fin 0"
  using assms by (auto simp: guard_fade_def write_at_same)

lemma fade_kept:
  "last_spawn = 0 \<or> GHOST_SPAWN_FADE_GUARD_TICKS < tick - last_spawn \<Longrightarrow> guard_fade ps last_spawn tick block = block"
  by (simp add: guard_fade_def)

lemma listener_stays_on_player:
  assumes "listener_controller c \<noteq> None" and "driven_pawn c = Some p" and "root_of c p = Some (Some r)"
  shows "guard_listener c = Some r"
  using assms by (simp add: guard_listener_def pointee_def)

lemma listener_idempotent: "guard_listener (c\<lparr>attach_to := guard_listener c\<rparr>) = guard_listener c"
  by (auto simp: guard_listener_def driven_pawn_def split: option.split)

lemma place_is_players:
  assumes "playerlocation_guarded g" and "guard_local g = Some (x, y, z)" and "mpc_player_related g = collection c"
    and "collection c \<noteq> None" and "parameter_name c = ''PlayerLocation''"
  shows "rgb (fst (guard_place found c g)) = (dbl_to_float x, dbl_to_float y, dbl_to_float z)"
  using assms by (auto simp: guard_place_def)

end
