(* ===== verification/Outlines.thy ===== *)
theory Outlines
  imports Local_State
begin

text \<open>
  The outline of the afterimages (\<^verbatim>\<open>Plugin.cpp\<close>: \<^verbatim>\<open>register_afterimage_outline_guard\<close>, \<^verbatim>\<open>sweep_afterimage_outlines\<close>). The
  through-walls outline of a ghost's images would tell the player where a peer is. A callback before
  \<^verbatim>\<open>SetRenderCustomDepth\<close> refuses the enable on an image that is a ghost's or cannot be attributed yet; a sweep every
  five ticks attributes the images, strips the ghosts' and gives back what was refused on the player's. The two
  share the attribution and the refused enables, and the sweep's own calls run through the callback.
\<close>

section \<open>State\<close>

text \<open>
  What the engine shows: of a component, the afterimage among its outers and whether its flag and the setter are
  reflected; of an image, what it was copied from, whether it is placed, where it is, and the objects its
  properties hold.
\<close>

record outline_view =
  image_of :: "address \<Rightarrow> address option"
  reads_depth :: "address \<Rightarrow> bool"
  sets_depth :: "address \<Rightarrow> bool"
  copy_actor :: "address \<Rightarrow> address option option"
  image_placed :: "address \<Rightarrow> bool"
  image_loc :: "address \<Rightarrow> triple"
  image_parts :: "address \<Rightarrow> address list"
  is_owned_by :: "address \<Rightarrow> address \<Rightarrow> bool"

text \<open>The refused components of an image are a set: kept in the order they came.\<close>

record outline_state =
  custom_depth :: "address \<Rightarrow> bool"
  afterimage_owners :: "address \<Rightarrow> (address option \<times> triple) option"
  afterimage_pending_reenable :: "(address \<times> address list) list"
  afterimage_registry :: registry

definition AFTERIMAGE_SWEEP_INTERVAL_TICKS :: u64 where "AFTERIMAGE_SWEEP_INTERVAL_TICKS = 5"
definition AFTERIMAGE_REUSE_MOVE_THRESHOLD :: rat where "AFTERIMAGE_REUSE_MOVE_THRESHOLD = 5"

section \<open>The callback\<close>

definition copied_from :: "outline_view \<Rightarrow> address \<Rightarrow> address option" where
  "copied_from v im = (case copy_actor v im of Some (Some source) \<Rightarrow> Some source | _ \<Rightarrow> None)"

text \<open>Whose the image is, as far as the callback can tell: \<open>Some True\<close> is a ghost's.\<close>

definition attributed :: "outline_view \<Rightarrow> address list \<Rightarrow> outline_state \<Rightarrow> address \<Rightarrow> bool option" where
  "attributed v ghosts s im =
     (case copied_from v im of
        Some source \<Rightarrow> Some (source \<in> set ghosts)
      | None \<Rightarrow> map_option (\<lambda>owner. fst owner \<noteq> None) (afterimage_owners s im))"

definition hold_pending :: "address \<Rightarrow> address \<Rightarrow> outline_state \<Rightarrow> outline_state" where
  "hold_pending im component s =
     (let refused = (case map_of (afterimage_pending_reenable s) im of None \<Rightarrow> [] | Some cs \<Rightarrow> cs)
      in s\<lparr>afterimage_pending_reenable := AList.update im (List.insert component refused) (afterimage_pending_reenable s)\<rparr>)"

definition guard_custom_depth :: "heap \<Rightarrow> outline_view \<Rightarrow> address list \<Rightarrow> address \<Rightarrow> bool \<Rightarrow> outline_state \<Rightarrow> bool \<times> outline_state" where
  "guard_custom_depth h v ghosts component enable s =
     (if \<not> enable then (False, s)
      else case image_of v component of
        None \<Rightarrow> (True, s)
      | Some im \<Rightarrow>
          let s = s\<lparr>afterimage_registry := registry_add h (Some im) (afterimage_registry s)\<rparr> in
          if ghosts = [] then (True, s)
          else (case attributed v ghosts s im of
                  Some False \<Rightarrow> (True, s)
                | Some True \<Rightarrow> (False, s)
                | None \<Rightarrow> (False, hold_pending im component s)))"

text \<open>The setter as the engine runs it: the callback first, then the flag.\<close>

definition set_custom_depth :: "heap \<Rightarrow> outline_view \<Rightarrow> address list \<Rightarrow> address \<Rightarrow> bool \<Rightarrow> outline_state \<Rightarrow> outline_state" where
  "set_custom_depth h v ghosts component enable s =
     (case guard_custom_depth h v ghosts component enable s of
        (b, s) \<Rightarrow> s\<lparr>custom_depth := (custom_depth s)(component := b)\<rparr>)"

definition call_set_render_custom_depth ::
  "heap \<Rightarrow> outline_view \<Rightarrow> address list \<Rightarrow> address \<Rightarrow> bool \<Rightarrow> outline_state \<Rightarrow> outline_state" where
  "call_set_render_custom_depth h v ghosts component enable s =
     (if sets_depth v component then set_custom_depth h v ghosts component enable s else s)"

section \<open>The sweep\<close>

text \<open>Where the ghosts are, and the player if there is a pawn.\<close>

record outline_places =
  ghost_loc :: "address \<Rightarrow> triple"
  player_loc :: "triple option"

definition pool_reused :: "outline_view \<Rightarrow> outline_state \<Rightarrow> address \<Rightarrow> bool" where
  "pool_reused v s im =
     (case afterimage_owners s im of
        None \<Rightarrow> True
      | Some (_, p) \<Rightarrow>
          dbl_less (Fin (AFTERIMAGE_REUSE_MOVE_THRESHOLD * AFTERIMAGE_REUSE_MOVE_THRESHOLD)) (sum_sq (sub3 (image_loc v im) p)))"

text \<open>The nearest of the player and the ghosts, \<open>None\<close> the player; a negative distance is none yet.\<close>

definition nearer :: "outline_places \<Rightarrow> triple \<Rightarrow> address \<Rightarrow> dbl \<times> address option \<Rightarrow> dbl \<times> address option" where
  "nearer pl loc g acc =
     (let d = sum_sq (sub3 loc (ghost_loc pl g))
      in if dbl_less (fst acc) (Fin 0) \<or> dbl_less d (fst acc) then (d, Some g) else acc)"

definition nearest_owner :: "outline_places \<Rightarrow> address list \<Rightarrow> triple \<Rightarrow> address option" where
  "nearest_owner pl ghosts loc =
     snd (fold (nearer pl loc) ghosts (case player_loc pl of None \<Rightarrow> Fin (- 1) | Some p \<Rightarrow> sum_sq (sub3 loc p), None))"

definition decide_owner :: "outline_view \<Rightarrow> outline_places \<Rightarrow> address list \<Rightarrow> address \<Rightarrow> address option" where
  "decide_owner v pl ghosts im =
     (case copied_from v im of
        Some source \<Rightarrow> if source \<in> set ghosts then Some source else None
      | None \<Rightarrow> nearest_owner pl ghosts (image_loc v im))"

definition attribute_image :: "outline_view \<Rightarrow> outline_places \<Rightarrow> address list \<Rightarrow> address \<Rightarrow> outline_state \<Rightarrow> outline_state" where
  "attribute_image v pl ghosts im s =
     (if pool_reused v s im
      then s\<lparr>afterimage_owners := (afterimage_owners s)(im \<mapsto> (decide_owner v pl ghosts im, image_loc v im))\<rparr>
      else s)"

definition restore_components :: "heap \<Rightarrow> outline_view \<Rightarrow> address list \<Rightarrow> address list \<Rightarrow> outline_state \<Rightarrow> outline_state" where
  "restore_components h v ghosts cs s = fold (\<lambda>c. call_set_render_custom_depth h v ghosts c True) cs s"

definition strip_part :: "heap \<Rightarrow> outline_view \<Rightarrow> address list \<Rightarrow> address \<Rightarrow> address \<Rightarrow> outline_state \<Rightarrow> outline_state" where
  "strip_part h v ghosts im c s =
     (if reads_depth v c \<and> custom_depth s c \<and> is_owned_by v c im then call_set_render_custom_depth h v ghosts c False s else s)"

definition drop_pending :: "address \<Rightarrow> outline_state \<Rightarrow> outline_state" where
  "drop_pending im s = s\<lparr>afterimage_pending_reenable := AList.delete im (afterimage_pending_reenable s)\<rparr>"

definition settle_image :: "heap \<Rightarrow> outline_view \<Rightarrow> outline_places \<Rightarrow> address list \<Rightarrow> address \<Rightarrow> outline_state \<Rightarrow> outline_state" where
  "settle_image h v pl ghosts im s =
     (let s = attribute_image v pl ghosts im s;
          refused = (case map_of (afterimage_pending_reenable s) im of None \<Rightarrow> [] | Some cs \<Rightarrow> cs)
      in if Option.bind (afterimage_owners s im) fst = None
         then drop_pending im (restore_components h v ghosts refused s)
         else fold (strip_part h v ghosts im) (image_parts v im) (drop_pending im s))"

definition prune_outlines :: "address list \<Rightarrow> outline_state \<Rightarrow> outline_state" where
  "prune_outlines alive_now s =
     s\<lparr>afterimage_pending_reenable := filter (\<lambda>p. fst p \<in> set alive_now) (afterimage_pending_reenable s),
       afterimage_owners := (\<lambda>im. if im \<in> set alive_now then afterimage_owners s im else None)\<rparr>"

text \<open>No ghosts: what was refused on an image this sweep has seen and that still lives is given back, all is forgotten.\<close>

definition restore_left :: "heap \<Rightarrow> outline_view \<Rightarrow> address list \<Rightarrow> address \<times> address list \<Rightarrow> outline_state \<Rightarrow> outline_state" where
  "restore_left h v alive_now p s =
     (case p of (im, cs) \<Rightarrow>
        if afterimage_owners s im = None \<or> im \<notin> set alive_now then s else restore_components h v [] cs s)"

definition sweep_afterimage_outlines ::
  "heap \<Rightarrow> outline_view \<Rightarrow> outline_places \<Rightarrow> address option list \<Rightarrow> u64 \<Rightarrow> address list \<Rightarrow> outline_state \<Rightarrow> outline_state" where
  "sweep_afterimage_outlines h v pl found tick ghosts s =
     (case registry_live h found tick (afterimage_registry s) of
        (images, reg) \<Rightarrow>
          let s = s\<lparr>afterimage_registry := reg\<rparr> in
          if ghosts = []
          then (fold (restore_left h v images) (afterimage_pending_reenable s) s)
                 \<lparr>afterimage_pending_reenable := [], afterimage_owners := (\<lambda>_. None)\<rparr>
          else let alive_now = filter (image_placed v) images
               in prune_outlines alive_now (fold (settle_image h v pl ghosts) alive_now s))"

definition forget_outlines :: "outline_state \<Rightarrow> outline_state" where
  "forget_outlines s = s\<lparr>afterimage_pending_reenable := [], afterimage_owners := (\<lambda>_. None)\<rparr>"

section \<open>What a call changes\<close>

lemma guard_owners [simp]: "afterimage_owners (snd (guard_custom_depth h v ghosts c b s)) = afterimage_owners s"
  by (simp add: guard_custom_depth_def hold_pending_def Let_def split: option.split bool.split)

lemma guard_depth [simp]: "custom_depth (snd (guard_custom_depth h v ghosts c b s)) = custom_depth s"
  by (simp add: guard_custom_depth_def hold_pending_def Let_def split: option.split bool.split)

lemma call_owners [simp]: "afterimage_owners (call_set_render_custom_depth h v ghosts c b s) = afterimage_owners s"
  using guard_owners [of h v ghosts c b s]
  by (simp add: call_set_render_custom_depth_def set_custom_depth_def split_beta)

text \<open>An enable of a component whose image is attributed, or with no ghost about, is not remembered; a disable never is.\<close>

lemma call_pending:
  "\<not> b \<or> ghosts = [] \<or> (\<forall>im. image_of v c = Some im \<longrightarrow> attributed v ghosts s im \<noteq> None) \<Longrightarrow>
   afterimage_pending_reenable (call_set_render_custom_depth h v ghosts c b s) = afterimage_pending_reenable s"
  by (auto simp: call_set_render_custom_depth_def set_custom_depth_def guard_custom_depth_def attributed_def Let_def split: option.splits bool.splits)

definition lets_through :: "outline_view \<Rightarrow> address list \<Rightarrow> outline_state \<Rightarrow> address \<Rightarrow> bool" where
  "lets_through v ghosts s c \<longleftrightarrow>
     ghosts = [] \<or> (case image_of v c of None \<Rightarrow> True | Some im \<Rightarrow> attributed v ghosts s im = Some False)"

lemma call_depth:
  "custom_depth (call_set_render_custom_depth h v ghosts c b s) =
     (if sets_depth v c then (custom_depth s)(c := b \<and> lets_through v ghosts s c) else custom_depth s)"
  by (auto simp: call_set_render_custom_depth_def set_custom_depth_def guard_custom_depth_def lets_through_def attributed_def hold_pending_def
      Let_def split: option.splits bool.splits)

lemma attributed_cong: "afterimage_owners s' = afterimage_owners s \<Longrightarrow> attributed v ghosts s' im = attributed v ghosts s im"
  by (simp add: attributed_def split: option.split)

lemma lets_through_cong: "afterimage_owners s' = afterimage_owners s \<Longrightarrow> lets_through v ghosts s' c = lets_through v ghosts s c"
  by (simp add: lets_through_def attributed_cong [of s' s] split: option.split)

lemma restore_result:
  assumes "\<forall>c\<in>set cs. image_of v c = Some im" and "ghosts = [] \<or> attributed v ghosts s im \<noteq> None"
  shows "afterimage_owners (restore_components h v ghosts cs s) = afterimage_owners s \<and>
    afterimage_pending_reenable (restore_components h v ghosts cs s) = afterimage_pending_reenable s \<and>
    (\<forall>c. custom_depth (restore_components h v ghosts cs s) c =
      (if c \<in> set cs \<and> sets_depth v c then lets_through v ghosts s c else custom_depth s c))"
  using assms
proof (induction cs arbitrary: s)
  case (Cons d cs)
  let ?s = "call_set_render_custom_depth h v ghosts d True s"
  have prems: "\<forall>c\<in>set cs. image_of v c = Some im" "ghosts = [] \<or> attributed v ghosts ?s im \<noteq> None"
    using Cons.prems by (simp_all add: attributed_cong [of ?s s])
  have pend: "afterimage_pending_reenable ?s = afterimage_pending_reenable s"
    using Cons.prems by (intro call_pending) auto
  show ?case
    using Cons.IH [OF prems] by (auto simp: restore_components_def pend call_depth lets_through_cong [of ?s s])
qed (simp add: restore_components_def)

lemma strip_result:
  shows "afterimage_owners (fold (strip_part h v ghosts im) cs s) = afterimage_owners s"
    and "afterimage_pending_reenable (fold (strip_part h v ghosts im) cs s) = afterimage_pending_reenable s"
    and "custom_depth (fold (strip_part h v ghosts im) cs s) c =
      (custom_depth s c \<and> \<not> (c \<in> set cs \<and> reads_depth v c \<and> sets_depth v c \<and> is_owned_by v c im))"
proof (induction cs arbitrary: s)
  case (Cons d cs)
  {
    case 1
    show ?case by (simp add: Cons.IH(1)) (simp add: strip_part_def)
  next
    case 2
    show ?case by (simp add: Cons.IH(2)) (simp add: strip_part_def call_pending)
  next
    case 3
    show ?case by (simp add: Cons.IH(3)) (auto simp: strip_part_def call_depth)
  }
qed simp_all

section \<open>One image at a time\<close>

definition view_ok :: "outline_view \<Rightarrow> bool" where
  "view_ok v \<longleftrightarrow> (\<forall>im c. c \<in> set (image_parts v im) \<and> is_owned_by v c im \<longrightarrow> image_of v c = Some im)"

definition pending_ok :: "outline_view \<Rightarrow> outline_state \<Rightarrow> bool" where
  "pending_ok v s \<longleftrightarrow> (\<forall>im cs. map_of (afterimage_pending_reenable s) im = Some cs \<longrightarrow> (\<forall>c\<in>set cs. image_of v c = Some im))"

definition refused :: "outline_state \<Rightarrow> address \<Rightarrow> address list" where
  "refused s im = (case map_of (afterimage_pending_reenable s) im of None \<Rightarrow> [] | Some cs \<Rightarrow> cs)"

lemma refused_image: "pending_ok v s \<Longrightarrow> \<forall>c\<in>set (refused s im). image_of v c = Some im"
  by (auto simp: pending_ok_def refused_def dest: sym split: option.splits)

definition owner_after :: "outline_view \<Rightarrow> outline_places \<Rightarrow> address list \<Rightarrow> outline_state \<Rightarrow> address \<Rightarrow> address option" where
  "owner_after v pl ghosts s im =
     (if pool_reused v s im then decide_owner v pl ghosts im else Option.bind (afterimage_owners s im) fst)"

lemma attribute_result:
  shows "custom_depth (attribute_image v pl ghosts im s) = custom_depth s"
    and "afterimage_pending_reenable (attribute_image v pl ghosts im s) = afterimage_pending_reenable s"
    and "y \<noteq> im \<Longrightarrow> afterimage_owners (attribute_image v pl ghosts im s) y = afterimage_owners s y"
    and "map_option fst (afterimage_owners (attribute_image v pl ghosts im s) im) = Some (owner_after v pl ghosts s im)"
  by (cases "image_loc v im"; auto simp: attribute_image_def owner_after_def pool_reused_def split: option.splits)+

lemma map_of_drop_pending:
  "map_of (afterimage_pending_reenable (drop_pending im s)) y = (if y = im then None else map_of (afterimage_pending_reenable s) y)"
  by (simp add: drop_pending_def delete_conv')

lemma drop_pending_simps [simp]:
  "custom_depth (drop_pending im s) = custom_depth s" "afterimage_owners (drop_pending im s) = afterimage_owners s"
  by (simp_all add: drop_pending_def)

lemma settle_result:
  assumes "view_ok v" and "pending_ok v s"
  shows "afterimage_owners (settle_image h v pl ghosts im s) = afterimage_owners (attribute_image v pl ghosts im s)"
    and "map_of (afterimage_pending_reenable (settle_image h v pl ghosts im s)) = (map_of (afterimage_pending_reenable s))(im := None)"
    and "custom_depth (settle_image h v pl ghosts im s) c =
      (if owner_after v pl ghosts s im = None
       then (if c \<in> set (refused s im) \<and> sets_depth v c then lets_through v ghosts (attribute_image v pl ghosts im s) c else custom_depth s c)
       else custom_depth s c \<and> \<not> (c \<in> set (image_parts v im) \<and> reads_depth v c \<and> sets_depth v c \<and> is_owned_by v c im))"
proof -
  let ?s = "attribute_image v pl ghosts im s"
  obtain p where own: "afterimage_owners ?s im = Some (owner_after v pl ghosts s im, p)"
    using attribute_result(4) [of v pl ghosts im s] by (cases "afterimage_owners ?s im") auto
  then have att: "attributed v ghosts ?s im \<noteq> None"
    by (simp add: attributed_def split: option.split)
  note mine = refused_image [OF assms(2)]
  have settle: "settle_image h v pl ghosts im s =
      (if owner_after v pl ghosts s im = None then drop_pending im (restore_components h v ghosts (refused s im) ?s)
       else fold (strip_part h v ghosts im) (image_parts v im) (drop_pending im ?s))"
    by (simp add: settle_image_def own refused_def attribute_result Let_def)
  note restored = restore_result [OF mine disjI2 [OF att]]
  show "afterimage_owners (settle_image h v pl ghosts im s) = afterimage_owners ?s"
    by (simp add: settle restored strip_result)
  show "map_of (afterimage_pending_reenable (settle_image h v pl ghosts im s)) = (map_of (afterimage_pending_reenable s))(im := None)"
    by (rule ext) (simp add: settle restored strip_result map_of_drop_pending attribute_result)
  show "custom_depth (settle_image h v pl ghosts im s) c =
      (if owner_after v pl ghosts s im = None
       then (if c \<in> set (refused s im) \<and> sets_depth v c then lets_through v ghosts ?s c else custom_depth s c)
       else custom_depth s c \<and> \<not> (c \<in> set (image_parts v im) \<and> reads_depth v c \<and> sets_depth v c \<and> is_owned_by v c im))"
    by (simp add: settle restored strip_result attribute_result)
qed

lemma settle_pending_ok: "view_ok v \<Longrightarrow> pending_ok v s \<Longrightarrow> pending_ok v (settle_image h v pl ghosts im s)"
  by (simp add: pending_ok_def settle_result)

text \<open>Settling an image leaves another one's attribution, refused enables and components alone.\<close>

definition same_image :: "outline_view \<Rightarrow> address option \<Rightarrow> outline_state \<Rightarrow> outline_state \<Rightarrow> bool" where
  "same_image v x s s' \<longleftrightarrow>
     (\<forall>c. image_of v c = x \<longrightarrow> custom_depth s' c = custom_depth s c) \<and>
     (\<forall>y. x = Some y \<longrightarrow> afterimage_owners s' y = afterimage_owners s y \<and> refused s' y = refused s y)"

lemma same_image_refl [simp]: "same_image v x s s"
  by (simp add: same_image_def)

lemma same_image_trans: "same_image v x s s' \<Longrightarrow> same_image v x s' s'' \<Longrightarrow> same_image v x s s''"
  by (auto simp: same_image_def)

lemma settle_same:
  assumes "view_ok v" and "pending_ok v s" and "x \<noteq> Some im"
  shows "same_image v x s (settle_image h v pl ghosts im s)"
proof -
  show ?thesis
    using assms refused_image [OF assms(2), of im] by (auto simp: same_image_def settle_result attribute_result refused_def view_ok_def)
qed

lemma settle_all_same:
  assumes "view_ok v" and "pending_ok v s" and "\<forall>im\<in>set ims. x \<noteq> Some im"
  shows "same_image v x s (fold (settle_image h v pl ghosts) ims s) \<and> pending_ok v (fold (settle_image h v pl ghosts) ims s)"
  using assms(2,3)
proof (induction ims arbitrary: s)
  case (Cons im ims)
  then show ?case
    using settle_same [OF assms(1) Cons.prems(1), of x im h pl ghosts] settle_pending_ok [OF assms(1) Cons.prems(1), of h pl ghosts im]
    by (auto intro: same_image_trans)
qed simp

lemma settle_all_pending:
  assumes "view_ok v" and "pending_ok v s"
  shows "map_of (afterimage_pending_reenable (fold (settle_image h v pl ghosts) ims s)) im =
    (if im \<in> set ims then None else map_of (afterimage_pending_reenable s) im)"
  using assms(2)
proof (induction ims arbitrary: s)
  case (Cons x ims)
  then show ?case by (simp add: settle_pending_ok assms(1) settle_result)
qed simp

section \<open>A sweep\<close>

lemma owner_after_same: "same_image v (Some im) s s' \<Longrightarrow> owner_after v pl ghosts s' im = owner_after v pl ghosts s im"
  by (simp add: same_image_def owner_after_def pool_reused_def)

lemma lets_through_player:
  assumes "image_of v c = Some im" and "owner_after v pl ghosts s im = None"
  shows "lets_through v ghosts (attribute_image v pl ghosts im s) c =
    (ghosts = [] \<or> (case copied_from v im of None \<Rightarrow> True | Some source \<Rightarrow> source \<notin> set ghosts))"
  using assms attribute_result(4) [of v pl ghosts im s]
  by (auto simp: lets_through_def attributed_def split: option.splits)

text \<open>The flag of an image's component after a sweep.\<close>

definition swept_depth :: "outline_view \<Rightarrow> outline_places \<Rightarrow> address list \<Rightarrow> outline_state \<Rightarrow> address \<Rightarrow> address \<Rightarrow> bool" where
  "swept_depth v pl ghosts s im c =
     (if owner_after v pl ghosts s im = None
      then (if c \<in> set (refused s im) \<and> sets_depth v c
            then (case copied_from v im of None \<Rightarrow> True | Some source \<Rightarrow> source \<notin> set ghosts) else custom_depth s c)
      else custom_depth s c \<and> \<not> (c \<in> set (image_parts v im) \<and> reads_depth v c \<and> sets_depth v c \<and> is_owned_by v c im))"

lemma settle_depth:
  assumes "view_ok v" and "pending_ok v s" and "ghosts \<noteq> []" and "image_of v c = Some im"
  shows "custom_depth (settle_image h v pl ghosts im s) c = swept_depth v pl ghosts s im c"
  using assms by (simp add: settle_result lets_through_player swept_depth_def)

lemma swept_depth_same:
  "same_image v (Some im) s s' \<Longrightarrow> image_of v c = Some im \<Longrightarrow> swept_depth v pl ghosts s' im c = swept_depth v pl ghosts s im c"
  by (simp add: swept_depth_def owner_after_same) (simp add: same_image_def)

lemma settle_all_result:
  assumes "view_ok v" and "pending_ok v s" and "ghosts \<noteq> []" and "distinct ims" and "im \<in> set ims"
  shows "map_option fst (afterimage_owners (fold (settle_image h v pl ghosts) ims s) im) = Some (owner_after v pl ghosts s im)"
    and "image_of v c = Some im \<Longrightarrow> custom_depth (fold (settle_image h v pl ghosts) ims s) c = swept_depth v pl ghosts s im c"
proof -
  obtain xs ys where ims: "ims = xs @ im # ys" using assms(5) by (auto simp: in_set_conv_decomp)
  define s1 where "s1 = fold (settle_image h v pl ghosts) xs s"
  define s2 where "s2 = settle_image h v pl ghosts im s1"
  have apart: "\<forall>x\<in>set xs. Some im \<noteq> Some x" "\<forall>x\<in>set ys. Some im \<noteq> Some x" using assms(4) by (auto simp: ims)
  note before = settle_all_same [OF assms(1,2) apart(1), of h pl ghosts, folded s1_def]
  then have ok: "pending_ok v s2" by (simp add: s2_def settle_pending_ok assms(1))
  note later = settle_all_same [OF assms(1) ok apart(2), of h pl ghosts]
  have whole: "fold (settle_image h v pl ghosts) ims s = fold (settle_image h v pl ghosts) ys s2"
    by (simp add: ims s1_def s2_def)
  have "map_option fst (afterimage_owners s2 im) = Some (owner_after v pl ghosts s im)"
    using before attribute_result(4) [of v pl ghosts im s1] owner_after_same [of v im s s1 pl ghosts]
    by (simp add: s2_def settle_result assms(1))
  then show "map_option fst (afterimage_owners (fold (settle_image h v pl ghosts) ims s) im) = Some (owner_after v pl ghosts s im)"
    using later unfolding whole by (simp add: same_image_def)
  assume c: "image_of v c = Some im"
  then have "custom_depth s2 c = swept_depth v pl ghosts s im c"
    using before by (simp add: s2_def settle_depth assms(1,3) swept_depth_same)
  then show "custom_depth (fold (settle_image h v pl ghosts) ims s) c = swept_depth v pl ghosts s im c"
    using later c unfolding whole by (simp add: same_image_def)
qed

lemma registry_field [simp]:
  "refused (s\<lparr>afterimage_registry := r\<rparr>) im = refused s im"
  "owner_after v pl ghosts (s\<lparr>afterimage_registry := r\<rparr>) im = owner_after v pl ghosts s im"
  by (simp_all add: refused_def owner_after_def pool_reused_def)

lemma registry_field' [simp]:
  "pending_ok v (s\<lparr>afterimage_registry := r\<rparr>) = pending_ok v s"
  "swept_depth v pl ghosts (s\<lparr>afterimage_registry := r\<rparr>) im c = swept_depth v pl ghosts s im c"
  by (simp_all add: pending_ok_def swept_depth_def)

lemma map_of_filter_keys: "filter (\<lambda>p. fst p \<in> A) xs = [] \<longleftrightarrow> (\<forall>x\<in>A. map_of xs x = None)"
  by (auto simp: filter_empty_conv map_of_eq_None_iff)

lemma sweep_settled:
  assumes "view_ok v" and "pending_ok v s" and "registry_ok (afterimage_registry s)" and "ghosts \<noteq> []"
  shows "let listed = filter (image_placed v) (fst (registry_live h found tick (afterimage_registry s)));
      s' = sweep_afterimage_outlines h v pl found tick ghosts s in
    (\<forall>im\<in>set listed. map_option fst (afterimage_owners s' im) = Some (owner_after v pl ghosts s im) \<and>
       (\<forall>c. image_of v c = Some im \<longrightarrow> custom_depth s' c = swept_depth v pl ghosts s im c)) \<and>
    (\<forall>c. (\<forall>im\<in>set listed. image_of v c \<noteq> Some im) \<longrightarrow> custom_depth s' c = custom_depth s c) \<and>
    afterimage_pending_reenable s' = []"
proof -
  obtain images reg where live: "registry_live h found tick (afterimage_registry s) = (images, reg)" by fastforce
  define ims where "ims = filter (image_placed v) images"
  let ?s = "s\<lparr>afterimage_registry := reg\<rparr>"
  let ?fin = "fold (settle_image h v pl ghosts) ims ?s"
  have "distinct ims" using live_result(2) [OF assms(3), of h found tick] by (simp add: live ims_def)
  note settled = settle_all_result [OF assms(1) _ assms(4) this, of ?s, simplified, OF assms(2)]
  have foreign: "same_image v (image_of v c) ?s ?fin" if "\<forall>im\<in>set ims. image_of v c \<noteq> Some im" for c
    using settle_all_same [OF assms(1), of ?s ims "image_of v c" h pl ghosts] that assms(2) by simp
  have pend: "filter (\<lambda>p. fst p \<in> set ims) (afterimage_pending_reenable ?fin) = []"
    using settle_all_pending [OF assms(1), of ?s h pl ghosts ims] assms(2) by (simp add: map_of_filter_keys)
  have listed: "filter (image_placed v) (fst (registry_live h found tick (afterimage_registry s))) = ims"
    and sweep: "sweep_afterimage_outlines h v pl found tick ghosts s = prune_outlines ims ?fin"
    by (simp_all add: live ims_def sweep_afterimage_outlines_def Let_def assms(4))
  show ?thesis
    using settled foreign pend unfolding Let_def listed sweep by (simp add: prune_outlines_def) (simp add: same_image_def)
qed

text \<open>
  What a sweep owes an image, from what the engine shows. One that is new or has moved belongs to the actor it was copied
  from when that is a ghost, and to the player when that is anyone else; while it is copied from nothing, to the player when
  no ghost is nearer, and otherwise to a ghost that is nearer than the player and than which no ghost is nearer.
\<close>

definition away :: "outline_view \<Rightarrow> address \<Rightarrow> triple \<Rightarrow> dbl" where
  "away v im loc = sum_sq (sub3 (image_loc v im) loc)"

definition fresh_owner :: "outline_view \<Rightarrow> outline_places \<Rightarrow> address list \<Rightarrow> address \<Rightarrow> address option \<Rightarrow> bool" where
  "fresh_owner v pl ghosts im own \<longleftrightarrow>
     (case copy_actor v im of
        Some (Some source) \<Rightarrow> own = (if source \<in> set ghosts then Some source else None)
      | _ \<Rightarrow>
          (case own of
             None \<Rightarrow> \<exists>p. player_loc pl = Some p \<and> (\<forall>g\<in>set ghosts. \<not> dbl_less (away v im (ghost_loc pl g)) (away v im p))
           | Some g \<Rightarrow> g \<in> set ghosts \<and> (\<forall>p. player_loc pl = Some p \<longrightarrow> dbl_less (away v im (ghost_loc pl g)) (away v im p)) \<and>
               (\<forall>g'\<in>set ghosts. \<not> dbl_less (away v im (ghost_loc pl g')) (away v im (ghost_loc pl g)))))"

text \<open>An image known before and within five units of where it was seen keeps what was made of it.\<close>

definition settled_owner :: "outline_view \<Rightarrow> outline_places \<Rightarrow> address list \<Rightarrow> outline_state \<Rightarrow> address \<Rightarrow> address option \<Rightarrow> bool" where
  "settled_owner v pl ghosts s im own \<longleftrightarrow>
     (case afterimage_owners s im of
        Some (before, loc) \<Rightarrow> if dbl_less (Fin 25) (away v im loc) then fresh_owner v pl ghosts im own else own = before
      | None \<Rightarrow> fresh_owner v pl ghosts im own)"

text \<open>
  The outline of one of its components, on before or not: a ghost's is off where an object property of the image holds the
  component and the image is its outer; the player's is on again where the callback refused it, unless the image is after
  all copied from a ghost; any other stays.
\<close>

definition settled_outline :: "outline_view \<Rightarrow> address list \<Rightarrow> outline_state \<Rightarrow> address \<Rightarrow> address option \<Rightarrow> address \<Rightarrow> bool \<Rightarrow> bool" where
  "settled_outline v ghosts s im own c on \<longleftrightarrow>
     (case own of
        Some _ \<Rightarrow> if c \<in> set (image_parts v im) \<and> is_owned_by v c im \<and> reads_depth v c \<and> sets_depth v c then \<not> on else on = custom_depth s c
      | None \<Rightarrow>
          if (\<exists>cs. map_of (afterimage_pending_reenable s) im = Some cs \<and> c \<in> set cs) \<and> sets_depth v c
          then on = (\<forall>g\<in>set ghosts. copy_actor v im \<noteq> Some (Some g)) else on = custom_depth s c)"

definition distances_known :: "outline_view \<Rightarrow> outline_places \<Rightarrow> address list \<Rightarrow> bool" where
  "distances_known v pl ghosts \<longleftrightarrow>
     (\<forall>im. (\<forall>g\<in>set ghosts. away v im (ghost_loc pl g) \<noteq> NaN) \<and> (\<forall>p. player_loc pl = Some p \<longrightarrow> away v im p \<noteq> NaN))"

lemma sum_sq_nonneg: "sum_sq d = NaN \<or> dbl_le (Fin 0) (sum_sq d)"
proof -
  have r: "dbl_le (Fin 0) (rnd_double q)" if "0 \<le> q" for q using double.rnd_mono [OF that] by simp
  have m: "dbl_mult x x = NaN \<or> dbl_le (Fin 0) (dbl_mult x x)" for x by (cases x) (auto simp: inf_times_def r)
  have a: "dbl_add x y = NaN \<or> dbl_le (Fin 0) (dbl_add x y)" if "x = NaN \<or> dbl_le (Fin 0) x" "y = NaN \<or> dbl_le (Fin 0) y" for x y
    using that by (cases x; cases y) (auto simp: r)
  show ?thesis by (cases d) (simp add: sum_sq_def a m)
qed

lemma dbl_less_le: "dbl_less x y \<Longrightarrow> dbl_le y z \<Longrightarrow> dbl_less x z" "dbl_less x y \<Longrightarrow> dbl_less y z \<Longrightarrow> dbl_less x z"
  by (cases x; cases y; cases z; simp)+

lemma nonneg_not_less: "dbl_le (Fin 0) x \<Longrightarrow> \<not> dbl_less x (Fin 0)" "\<not> dbl_less x x"
  by (cases x; simp)+

lemma nearest_fold:
  assumes "dbl_le (Fin 0) d" and "\<forall>g\<in>set gs. dbl_le (Fin 0) (sum_sq (sub3 loc (ghost_loc pl g)))"
  shows "\<exists>d' own'. fold (nearer pl loc) gs (d, own) = (d', own') \<and> (d' = d \<and> own' = own \<or>
      (\<exists>g\<in>set gs. own' = Some g \<and> d' = sum_sq (sub3 loc (ghost_loc pl g)) \<and> dbl_less d' d)) \<and>
    (\<forall>g\<in>set gs. \<not> dbl_less (sum_sq (sub3 loc (ghost_loc pl g))) d')"
  using assms
proof (induction gs arbitrary: d own)
  case (Cons g gs)
  let ?e = "sum_sq (sub3 loc (ghost_loc pl g))"
  show ?case
  proof (cases "dbl_less ?e d")
    case True
    from Cons.IH [of ?e "Some g"] Cons.prems obtain d' own'
      where f: "fold (nearer pl loc) gs (?e, Some g) = (d', own')" "d' = ?e \<and> own' = Some g \<or>
          (\<exists>g\<in>set gs. own' = Some g \<and> d' = sum_sq (sub3 loc (ghost_loc pl g)) \<and> dbl_less d' ?e)"
        "\<forall>g\<in>set gs. \<not> dbl_less (sum_sq (sub3 loc (ghost_loc pl g))) d'" by auto
    have "\<not> dbl_less ?e d'" using f(2) dbl_less_le(2) nonneg_not_less(2) by blast
    moreover have "fold (nearer pl loc) (g # gs) (d, own) = (d', own')" using True f(1) by (simp add: nearer_def)
    moreover have "d' = d \<and> own' = own \<or> (\<exists>g\<in>set (g # gs). own' = Some g \<and> d' = sum_sq (sub3 loc (ghost_loc pl g)) \<and> dbl_less d' d)"
      using True f(2) dbl_less_le(2) by fastforce
    ultimately show ?thesis using f(3) by (intro exI [of _ d'] exI [of _ own']) simp
  next
    case False
    from Cons.IH [of d own] Cons.prems obtain d' own'
      where f: "fold (nearer pl loc) gs (d, own) = (d', own')" "d' = d \<and> own' = own \<or>
          (\<exists>g\<in>set gs. own' = Some g \<and> d' = sum_sq (sub3 loc (ghost_loc pl g)) \<and> dbl_less d' d)"
        "\<forall>g\<in>set gs. \<not> dbl_less (sum_sq (sub3 loc (ghost_loc pl g))) d'" by auto
    have "\<not> dbl_less ?e d'" using f(2) False dbl_less_le(2) by blast
    moreover have "fold (nearer pl loc) (g # gs) (d, own) = (d', own')"
      using False f(1) Cons.prems(1) by (simp add: nearer_def nonneg_not_less)
    ultimately show ?thesis using f(2,3) by (intro exI [of _ d'] exI [of _ own']) auto
  qed
qed simp

lemma nearest_fresh:
  assumes "distances_known v pl ghosts" and "ghosts \<noteq> []" and "copied_from v im = None"
  shows "fresh_owner v pl ghosts im (nearest_owner pl ghosts (image_loc v im))"
proof -
  have n: "\<forall>g\<in>set ghosts. dbl_le (Fin 0) (sum_sq (sub3 (image_loc v im) (ghost_loc pl g)))"
    using assms(1) sum_sq_nonneg unfolding distances_known_def away_def by blast
  have c: "fresh_owner v pl ghosts im own \<longleftrightarrow>
      (case own of
         None \<Rightarrow> \<exists>p. player_loc pl = Some p \<and> (\<forall>g\<in>set ghosts. \<not> dbl_less (away v im (ghost_loc pl g)) (away v im p))
       | Some g \<Rightarrow> g \<in> set ghosts \<and> (\<forall>p. player_loc pl = Some p \<longrightarrow> dbl_less (away v im (ghost_loc pl g)) (away v im p)) \<and>
           (\<forall>g'\<in>set ghosts. \<not> dbl_less (away v im (ghost_loc pl g')) (away v im (ghost_loc pl g))))" for own
    using assms(3) by (simp add: fresh_owner_def copied_from_def split: option.splits)
  show ?thesis
  proof (cases "player_loc pl")
    case (Some p)
    have "dbl_le (Fin 0) (sum_sq (sub3 (image_loc v im) p))"
      using assms(1) Some sum_sq_nonneg unfolding distances_known_def away_def by blast
    from nearest_fold [OF this n, of None] show ?thesis by (auto simp: c nearest_owner_def Some away_def)
  next
    case None
    obtain g gs where g: "ghosts = g # gs" using assms(2) by (cases ghosts) auto
    let ?e = "sum_sq (sub3 (image_loc v im) (ghost_loc pl g))"
    have e: "fold (nearer pl (image_loc v im)) ghosts (Fin (- 1), None) = fold (nearer pl (image_loc v im)) gs (?e, Some g)"
      by (simp add: g nearer_def)
    have "dbl_le (Fin 0) ?e" "\<forall>g\<in>set gs. dbl_le (Fin 0) (sum_sq (sub3 (image_loc v im) (ghost_loc pl g)))" using n by (simp_all add: g)
    from nearest_fold [OF this, of "Some g"] obtain d' own'
      where f: "fold (nearer pl (image_loc v im)) gs (?e, Some g) = (d', own')" "d' = ?e \<and> own' = Some g \<or>
          (\<exists>g\<in>set gs. own' = Some g \<and> d' = sum_sq (sub3 (image_loc v im) (ghost_loc pl g)) \<and> dbl_less d' ?e)"
        "\<forall>g\<in>set gs. \<not> dbl_less (sum_sq (sub3 (image_loc v im) (ghost_loc pl g))) d'" by blast
    have "\<not> dbl_less ?e d'" using f(2) dbl_less_le(2) nonneg_not_less(2) by blast
    moreover have "nearest_owner pl ghosts (image_loc v im) = own'" by (simp only: nearest_owner_def None option.case e f(1) snd_conv)
    ultimately show ?thesis using f(2,3) None by (auto simp: c [unfolded g] away_def g)
  qed
qed

lemma owner_after_settled:
  assumes "distances_known v pl ghosts" and "ghosts \<noteq> []"
  shows "settled_owner v pl ghosts s im (owner_after v pl ghosts s im)"
proof -
  have "fresh_owner v pl ghosts im (decide_owner v pl ghosts im)"
    using nearest_fresh [OF assms, of im] by (cases "copied_from v im")
      (auto simp: decide_owner_def fresh_owner_def copied_from_def split: option.splits)
  then show ?thesis
    by (auto simp: settled_owner_def owner_after_def pool_reused_def away_def AFTERIMAGE_REUSE_MOVE_THRESHOLD_def split: option.split)
qed

lemma swept_depth_settled: "settled_outline v ghosts s im (owner_after v pl ghosts s im) c (swept_depth v pl ghosts s im c)"
  by (auto simp: settled_outline_def swept_depth_def refused_def copied_from_def split: option.splits)

text \<open>
  Property C38. A sweep settles every afterimage while ghosts are about. Every placed image the registry lists is credited
  to the player or to one ghost: afresh when it is new or has moved (to what it was copied from, or to the nearest while that
  is unset), as before when it has not. On a ghost's image every component of its own that an object property holds is left
  with no outline; on the player's each enable that was refused is given back, unless the image is copied from a ghost;
  every other component keeps its outline or its lack of one, and nothing stays pending. Positions are numbers.
\<close>

theorem sweep_settles_outlines:
  assumes "view_ok v" and "pending_ok v s" and "registry_ok (afterimage_registry s)" and "ghosts \<noteq> []" and "distances_known v pl ghosts"
  shows "let listed = filter (image_placed v) (fst (registry_live h found tick (afterimage_registry s)));
      s' = sweep_afterimage_outlines h v pl found tick ghosts s in
    (\<forall>im\<in>set listed. \<exists>own. map_option fst (afterimage_owners s' im) = Some own \<and> settled_owner v pl ghosts s im own \<and>
       (\<forall>c. image_of v c = Some im \<longrightarrow> settled_outline v ghosts s im own c (custom_depth s' c))) \<and>
    (\<forall>c. (\<forall>im\<in>set listed. image_of v c \<noteq> Some im) \<longrightarrow> custom_depth s' c = custom_depth s c) \<and>
    afterimage_pending_reenable s' = []"
proof -
  define s' where "s' = sweep_afterimage_outlines h v pl found tick ghosts s"
  define listed where "listed = filter (image_placed v) (fst (registry_live h found tick (afterimage_registry s)))"
  note all = sweep_settled [OF assms(1-4), of h found tick pl, unfolded Let_def, folded s'_def listed_def]
  have "\<exists>own. map_option fst (afterimage_owners s' im) = Some own \<and> settled_owner v pl ghosts s im own \<and>
      (\<forall>c. image_of v c = Some im \<longrightarrow> settled_outline v ghosts s im own c (custom_depth s' c))" if "im \<in> set listed" for im
  proof (rule exI [of _ "owner_after v pl ghosts s im"], intro conjI allI impI)
    show "settled_outline v ghosts s im (owner_after v pl ghosts s im) c (custom_depth s' c)" if c: "image_of v c = Some im" for c
    proof -
      have "custom_depth s' c = swept_depth v pl ghosts s im c" using all \<open>im \<in> set listed\<close> c by blast
      then show ?thesis using swept_depth_settled by simp
    qed
  qed (use all that owner_after_settled [OF assms(5,4)] in blast)+
  then show ?thesis using all unfolding Let_def s'_def [symmetric] listed_def [symmetric] by blast
qed

text \<open>
  An outline refused too early is given back. An enable that the callback refuses because the image cannot be attributed yet
  is undone by the next sweep that lists the image and finds it copied from the player: the component's outline is on, as
  the game had asked, and nothing is left to be done.
\<close>

theorem refused_outline_given_back:
  assumes "view_ok v" and "view_ok v'" and "pending_ok v s" and "image_of v' = image_of v" and "ghosts \<noteq> []" and "ghosts' \<noteq> []"
    and "image_of v c = Some im" and "attributed v ghosts s im = None" and "sets_depth v c" and "sets_depth v' c"
    and "copied_from v' im = Some player" and "player \<notin> set ghosts'" and "image_placed v' im" and "registry_ok (afterimage_registry s)"
    and "im \<in> set (fst (registry_live h' found tick (afterimage_registry (call_set_render_custom_depth h v ghosts c True s))))"
  shows "let s1 = call_set_render_custom_depth h v ghosts c True s; s2 = sweep_afterimage_outlines h' v' pl found tick ghosts' s1 in
    \<not> custom_depth s1 c \<and> custom_depth s2 c \<and> afterimage_pending_reenable s2 = []"
proof -
  let ?s1 = "call_set_render_custom_depth h v ghosts c True s"
  have unknown: "copied_from v im = None" "afterimage_owners s im = None"
    using assms(8) by (auto simp: attributed_def split: option.splits)
  have off: "\<not> custom_depth ?s1 c" using assms(5,7-9) by (simp add: call_depth lets_through_def)
  have pend: "afterimage_pending_reenable ?s1 = AList.update im (List.insert c (refused s im)) (afterimage_pending_reenable s)"
    using assms(5,7-9) by (simp add: call_set_render_custom_depth_def set_custom_depth_def guard_custom_depth_def attributed_def unknown
        hold_pending_def refused_def)
  have reg: "registry_ok (afterimage_registry ?s1)"
    using assms(5,7-9,14) by (simp add: call_set_render_custom_depth_def set_custom_depth_def guard_custom_depth_def attributed_def unknown
        hold_pending_def Let_def registry_ok_add)
  have ok: "pending_ok v' ?s1"
    using assms(3,4,7) refused_image [OF assms(3), of im] by (auto simp: pending_ok_def pend update_conv' split: if_splits)
  have "owner_after v' pl ghosts' ?s1 im = None"
    using assms(11,12) by (simp add: owner_after_def pool_reused_def unknown decide_owner_def)
  moreover have "c \<in> set (refused ?s1 im)" by (simp add: refused_def pend update_conv')
  ultimately have "swept_depth v' pl ghosts' ?s1 im c" using assms(10-12) by (simp add: swept_depth_def)
  with sweep_settled [OF assms(2) ok reg assms(6), of h' found tick pl] off assms(4,7,13,15) show ?thesis
    by (simp add: Let_def)
qed

text \<open>
  What is not given back: an image of the pool that was a ghost's keeps that attribution until a sweep finds it moved. When it comes
  to serve the player, an enable before that is refused as a ghost's and is not remembered: the sweep that
  learns better leaves the outline off.
\<close>

lemma stale_owner_loses_outline:
  assumes "view_ok v" and "view_ok v'" and "pending_ok v s" and "pending_ok v' s" and "ghosts \<noteq> []" and "ghosts' \<noteq> []"
    and "image_of v c = Some im" and "image_of v' c = Some im" and "sets_depth v c" and "copied_from v im = None"
    and "afterimage_owners s im = Some (Some g, p)" and "refused s im = []" and "image_placed v' im"
    and "registry_ok (afterimage_registry s)" and "owner_after v' pl ghosts' s im = None"
    and "im \<in> set (fst (registry_live h' found tick (afterimage_registry (call_set_render_custom_depth h v ghosts c True s))))"
  shows "let s1 = call_set_render_custom_depth h v ghosts c True s; s2 = sweep_afterimage_outlines h' v' pl found tick ghosts' s1 in
    map_option fst (afterimage_owners s2 im) = Some None \<and> \<not> custom_depth s2 c"
proof -
  define s1 where "s1 = call_set_render_custom_depth h v ghosts c True s"
  have eq: "s1 = s\<lparr>afterimage_registry := registry_add h (Some im) (afterimage_registry s), custom_depth := (custom_depth s)(c := False)\<rparr>"
    using assms(5,7,9-11)
    by (simp add: s1_def call_set_render_custom_depth_def set_custom_depth_def guard_custom_depth_def attributed_def)
  then have facts: "pending_ok v' s1" "registry_ok (afterimage_registry s1)" "owner_after v' pl ghosts' s1 im = None" "refused s1 im = []"
    "\<not> custom_depth s1 c"
    using assms(4,12,14,15)
    by (simp_all add: pending_ok_def registry_ok_add owner_after_def pool_reused_def refused_def split: if_splits)
  have "im \<in> set (filter (image_placed v') (fst (registry_live h' found tick (afterimage_registry s1))))"
    using assms(13,16) by (simp add: s1_def)
  then show ?thesis
    using sweep_settled [OF assms(2) facts(1,2) assms(6), of h' found tick pl] assms(8) facts(3-5)
    unfolding Let_def s1_def [symmetric] by (metis swept_depth_def list.set(1) empty_iff)
qed

definition sample_outlines :: outline_state where
  "sample_outlines = \<lparr>custom_depth = (\<lambda>c. c = 51), afterimage_owners = (\<lambda>_. None), afterimage_pending_reenable = [(60, [61])],
     afterimage_registry = new_registry\<rparr>"

definition sample_outline_view :: "address option \<Rightarrow> outline_view" where
  "sample_outline_view player =
     \<lparr>image_of = (\<lambda>c. if c = 51 then Some 50 else if c = 61 then Some 60 else None), reads_depth = (\<lambda>_. True), sets_depth = (\<lambda>_. True),
      copy_actor = (\<lambda>im. if im = 50 then Some (Some 7) else Some player), image_placed = (\<lambda>_. True), image_loc = (\<lambda>_. zero3),
      image_parts = (\<lambda>im. [im + 1]), is_owned_by = (\<lambda>c im. im \<in> {50, 60} \<and> c = im + 1)\<rparr>"

definition sample_images :: heap where
  "sample_images a = (if a = 50 \<or> a = 60 then Some \<lparr>serial = a, class_chain = [''BP_AfterImage_C'']\<rparr> else None)"

lemma sample_outline_view_ok: "view_ok (sample_outline_view p)"
  by (simp add: view_ok_def sample_outline_view_def)

lemma sample_outline_pending: "pending_ok (sample_outline_view p) sample_outlines"
  by (simp add: pending_ok_def sample_outlines_def sample_outline_view_def)

theorem sweep_settles_outlines_witness:
  "let s' = sweep_afterimage_outlines sample_images (sample_outline_view (Some 4)) \<lparr>ghost_loc = (\<lambda>_. zero3), player_loc = None\<rparr>
       [Some 50, Some 60] 9 [7] sample_outlines
   in \<not> custom_depth s' 51 \<and> custom_depth s' 61 \<and> afterimage_pending_reenable s' = []"
proof -
  let ?v = "sample_outline_view (Some 4)" and ?pl = "\<lparr>ghost_loc = (\<lambda>_. zero3), player_loc = None\<rparr>"
  have r: "registry_ok (afterimage_registry sample_outlines)" by (simp add: sample_outlines_def)
  have dk: "distances_known ?v ?pl [7]"
    by (simp add: distances_known_def away_def sample_outline_view_def  sub3_def sum_sq_def dbl_sub_def)
  define s' where "s' = sweep_afterimage_outlines sample_images ?v ?pl [Some 50, Some 60] 9 [7] sample_outlines"
  note settles = sweep_settles_outlines [OF sample_outline_view_ok sample_outline_pending r _ dk, of sample_images "[Some 50, Some 60]" 9,
      unfolded Let_def, folded s'_def]
  have l: "set (fst (registry_live sample_images [Some 50, Some 60] 9 (afterimage_registry sample_outlines))) = {50, 60}"
    by (simp add: sample_outlines_def registry_live_def new_registry_def belt_due_def registry_seed_def emplace_member_def weak_defs
        sample_images_def List.map_filter_simps)
  have v: "image_of ?v 51 = Some 50" "image_of ?v 61 = Some 60" "image_placed ?v 50" "image_placed ?v 60"
    by (simp_all add: sample_outline_view_def)
  have own: "settled_owner ?v ?pl [7] sample_outlines 50 own \<longleftrightarrow> own = Some 7" "settled_owner ?v ?pl [7] sample_outlines 60 own \<longleftrightarrow> own = None" for own
    by (simp_all add: settled_owner_def fresh_owner_def sample_outlines_def sample_outline_view_def)
  have "settled_outline ?v [7] sample_outlines 50 (Some 7) 51 on \<longleftrightarrow> \<not> on" "settled_outline ?v [7] sample_outlines 60 None 61 on \<longleftrightarrow> on" for on
    by (simp_all add: settled_outline_def sample_outlines_def sample_outline_view_def)
  moreover have listed: "\<exists>own. settled_owner ?v ?pl [7] sample_outlines im own \<and> settled_outline ?v [7] sample_outlines im own c (custom_depth s' c)"
    if "im \<in> {50, 60}" "image_placed ?v im" "image_of ?v c = Some im" for im c
  proof -
    have "im \<in> set (filter (image_placed ?v) (fst (registry_live sample_images [Some 50, Some 60] 9 (afterimage_registry sample_outlines))))"
      using that l by simp
    then show ?thesis using settles that(3) by blast
  qed
  moreover obtain o1 where "settled_owner ?v ?pl [7] sample_outlines 50 o1" "settled_outline ?v [7] sample_outlines 50 o1 51 (custom_depth s' 51)"
    using listed [of 50 51] v by auto
  moreover obtain o2 where "settled_owner ?v ?pl [7] sample_outlines 60 o2" "settled_outline ?v [7] sample_outlines 60 o2 61 (custom_depth s' 61)"
    using listed [of 60 61] v by auto
  moreover have "afterimage_pending_reenable s' = []" using settles by blast
  ultimately show ?thesis by (simp add: s'_def own)
qed

theorem refused_outline_given_back_witness:
  "let v = sample_outline_view None; s = sample_outlines\<lparr>afterimage_pending_reenable := []\<rparr>;
     s1 = call_set_render_custom_depth sample_images v [7] 61 True s;
     s2 = sweep_afterimage_outlines sample_images (sample_outline_view (Some 4)) \<lparr>ghost_loc = (\<lambda>_. zero3), player_loc = None\<rparr>
       [Some 50, Some 60] 9 [7] s1
   in \<not> custom_depth s1 61 \<and> custom_depth s2 61"
proof -
  let ?v = "sample_outline_view None"
  let ?s = "sample_outlines\<lparr>afterimage_pending_reenable := []\<rparr>"
  have facts: "pending_ok ?v ?s" "image_of (sample_outline_view (Some 4)) = image_of ?v" "image_of ?v 61 = Some 60" "attributed ?v [7] ?s 60 = None"
    "sets_depth ?v 61" "sets_depth (sample_outline_view (Some 4)) 61" "copied_from (sample_outline_view (Some 4)) 60 = Some 4"
    "(4 :: nat) \<notin> set [7]" "image_placed (sample_outline_view (Some 4)) 60" "registry_ok (afterimage_registry ?s)" "[7 :: nat] \<noteq> []"
    by (simp_all add: pending_ok_def attributed_def copied_from_def sample_outline_view_def sample_outlines_def)
  have reg: "60 \<in> set (fst (registry_live sample_images [Some 50, Some 60] 9
      (afterimage_registry (call_set_render_custom_depth sample_images ?v [7] 61 True ?s))))"
    using facts(3-5)
    by (simp add: call_set_render_custom_depth_def set_custom_depth_def guard_custom_depth_def attributed_def copied_from_def hold_pending_def
        sample_outline_view_def sample_outlines_def registry_live_def registry_add_def new_registry_def belt_due_def registry_seed_def
        emplace_member_def weak_defs sample_images_def List.map_filter_simps)
  show ?thesis
    using refused_outline_given_back [OF sample_outline_view_ok sample_outline_view_ok facts(1,2) facts(11,11) facts(3-10) reg]
    by (simp add: Let_def)
qed

end
