(* ===== verification/Frames.thy ===== *)
theory Frames
  imports Remote Registry
begin

text \<open>
  How the mod calls the engine (\<^verbatim>\<open>Plugin.cpp\<close>, the \<^verbatim>\<open>call_*\<close> helpers): a reflected function is found by its
  name, a zeroed block of its \<^verbatim>\<open>PropertiesSize\<close> bytes is built, the arguments are written at the offsets its
  reflected parameters give, and the block goes to \<^verbatim>\<open>ProcessEvent\<close>. A signature is what the running game reflects,
  so it is an argument: the helpers must refuse what they do not recognise. A block is its size and the writes made
  into it, latest first; a target is null (\<open>None\<close>) or the functions its class reflects. \<^verbatim>\<open>TFieldRange\<close> is the list of
  parameters. Names are compared as they are written.
\<close>

section \<open>Signatures and blocks\<close>

datatype fproperty =
  Prop (prop_name: string) (prop_class: string) (prop_offset: int) (prop_size: int) (inner_props: "fproperty list option")

record ufunction =
  parms_size :: int
  parms :: "fproperty list"

type_synonym reflected = "string \<Rightarrow> ufunction option"

definition find_prop :: "string \<Rightarrow> fproperty list \<Rightarrow> fproperty option" where
  "find_prop name ps = List.find (\<lambda>p. prop_name p = name) ps"

text \<open>A value written into a block; \<^verbatim>\<open>FName\<close>, \<^verbatim>\<open>FVector\<close> and \<^verbatim>\<open>FText\<close> carry the size the platform gives them.\<close>

datatype fvalue =
    VByte "8 word" | VPtr "address option" | VFloat dbl | VDouble dbl | VInt int | VName int string | VVec int triple | VText int "nat list" | VBytes "8 word list"

fun width :: "fvalue \<Rightarrow> int" where
  "width (VByte _) = 1"
| "width (VPtr _) = 8"
| "width (VFloat _) = 4"
| "width (VDouble _) = 8"
| "width (VInt _) = 4"
| "width (VName n _) = n"
| "width (VVec n _) = n"
| "width (VText n _) = n"
| "width (VBytes bs) = int (length bs)"

record frame =
  frame_size :: int
  frame_writes :: "(int \<times> fvalue) list"

definition zeroed :: "int \<Rightarrow> frame" where
  "zeroed n = \<lparr>frame_size = n, frame_writes = []\<rparr>"

definition poke :: "int \<Rightarrow> fvalue \<Rightarrow> frame \<Rightarrow> frame" where
  "poke off v fr = fr\<lparr>frame_writes := (off, v) # frame_writes fr\<rparr>"

definition stored :: "frame \<Rightarrow> int \<Rightarrow> fvalue option" where
  "stored fr off = map_of (frame_writes fr) off"

definition fits :: "int \<Rightarrow> int \<Rightarrow> fvalue \<Rightarrow> bool" where
  "fits n off v \<longleftrightarrow> 0 \<le> off \<and> off + width v \<le> n"

definition inside :: "frame \<Rightarrow> bool" where
  "inside fr \<longleftrightarrow> list_all (\<lambda>(off, v). fits (frame_size fr) off v) (frame_writes fr)"

text \<open>A call returns before building a block, drops the block it built, or makes the call, with it or with a null one.\<close>

datatype attempt = NoFrame | Dropped frame | Called frame | CalledBare

fun made :: "attempt \<Rightarrow> bool" where
  "made NoFrame = False"
| "made (Dropped _) = False"
| "made (Called _) = True"
| "made CalledBare = True"

fun writes_inside :: "attempt \<Rightarrow> bool" where
  "writes_inside (Dropped fr) = inside fr"
| "writes_inside (Called fr) = inside fr"
| "writes_inside _ = True"

definition settle :: "bool \<Rightarrow> frame \<Rightarrow> attempt" where
  "settle found fr = (if found then Called fr else Dropped fr)"

definition on_function :: "reflected option \<Rightarrow> string \<Rightarrow> (ufunction \<Rightarrow> attempt) \<Rightarrow> attempt" where
  "on_function target name k =
     (case Option.bind target (\<lambda>fn. fn name) of None \<Rightarrow> NoFrame | Some f \<Rightarrow> k f)"

text \<open>Parameters in order, each written where \<open>pick\<close> gives it a value.\<close>

definition fill :: "(fproperty \<Rightarrow> fvalue option) \<Rightarrow> ufunction \<Rightarrow> frame" where
  "fill pick f = fold (\<lambda>p fr. case pick p of None \<Rightarrow> fr | Some v \<Rightarrow> poke (prop_offset p) v fr) (parms f) (zeroed (parms_size f))"

definition named :: "string \<Rightarrow> fvalue \<Rightarrow> fproperty \<Rightarrow> fvalue option" where
  "named name v p = (if prop_name p = name then Some v else None)"

definition has_param :: "string \<Rightarrow> ufunction \<Rightarrow> bool" where
  "has_param name f \<longleftrightarrow> list_ex (\<lambda>p. prop_name p = name) (parms f)"

definition flag :: "bool \<Rightarrow> fvalue" where
  "flag b = VByte (if b then 1 else 0)"

text \<open>The two shapes most helpers have: the argument's parameter must be there, or may be missing.\<close>

definition with_required :: "int \<Rightarrow> string \<Rightarrow> fvalue \<Rightarrow> ufunction \<Rightarrow> attempt" where
  "with_required least name v f =
     (if parms_size f < least then NoFrame else settle (has_param name f) (fill (named name v) f))"

definition with_optional :: "string \<Rightarrow> fvalue \<Rightarrow> ufunction \<Rightarrow> attempt" where
  "with_optional name v f = (if parms_size f < 1 then NoFrame else Called (fill (named name v) f))"

definition bare_frame :: "ufunction \<Rightarrow> attempt" where
  "bare_frame f = Called (zeroed (if parms_size f > 0 then parms_size f else 0))"

text \<open>
  A bound test adds in \<^verbatim>\<open>int32_t\<close>: a sum past \<open>2 ^ 31\<close> comes out negative on the target. \<open>ends_within off w n\<close> is the test that \<open>w\<close>
  bytes at \<open>off\<close> end within \<open>n\<close>, as the code makes it.
\<close>

definition wrap32 :: "int \<Rightarrow> int" where
  "wrap32 i = (i + 2 ^ 31) mod 2 ^ 32 - 2 ^ 31"

definition ends_within :: "int \<Rightarrow> int \<Rightarrow> int \<Rightarrow> bool" where
  "ends_within off w n \<longleftrightarrow> wrap32 (off + w) \<le> n"

lemma ends_within_small: "0 \<le> off \<Longrightarrow> 0 \<le> w \<Longrightarrow> off + w < 2 ^ 31 \<Longrightarrow> ends_within off w n \<longleftrightarrow> off + w \<le> n"
  by (simp add: ends_within_def wrap32_def)

section \<open>The helpers\<close>

definition call_ufunction_with_leading_actor_arg :: "reflected option \<Rightarrow> ufunction option \<Rightarrow> address option \<Rightarrow> attempt" where
  "call_ufunction_with_leading_actor_arg target function actor =
     (case (target, function) of
        (Some _, Some f) \<Rightarrow> if parms_size f < 8 then NoFrame else Called (poke 0 (VPtr actor) (zeroed (parms_size f)))
      | _ \<Rightarrow> NoFrame)"

definition first_byte :: "fvalue \<Rightarrow> ufunction \<Rightarrow> attempt" where
  "first_byte v f =
     (if parms_size f < 1 then NoFrame
      else case parms f of
             [] \<Rightarrow> Dropped (zeroed (parms_size f))
           | p # _ \<Rightarrow> Called (poke (prop_offset p) v (zeroed (parms_size f))))"

definition call_set_collision_object_type :: "reflected option \<Rightarrow> 8 word \<Rightarrow> attempt" where
  "call_set_collision_object_type target object_type =
     on_function target ''SetCollisionObjectType'' (first_byte (VByte object_type))"

definition custom_depth_frame :: "reflected option \<Rightarrow> bool \<Rightarrow> attempt" where
  "custom_depth_frame component on = on_function component ''SetRenderCustomDepth'' (first_byte (flag on))"

definition call_set_light_intensity :: "reflected option \<Rightarrow> dbl \<Rightarrow> attempt" where
  "call_set_light_intensity component v =
     on_function component ''SetIntensity'' (\<lambda>f.
       if parms_size f < 4 then NoFrame
       else case parms f of
              [] \<Rightarrow> Dropped (zeroed (parms_size f))
            | p # _ \<Rightarrow>
                if prop_offset p < 0 \<or> \<not> ends_within (prop_offset p) 4 (parms_size f) then Dropped (zeroed (parms_size f))
                else Called (poke (prop_offset p) (VFloat v) (zeroed (parms_size f))))"

definition call_set_visibility :: "reflected option \<Rightarrow> bool \<Rightarrow> bool \<Rightarrow> attempt" where
  "call_set_visibility component visible propagate =
     on_function component ''SetVisibility'' (\<lambda>f.
       if parms_size f < 1 then NoFrame
       else settle (parms f \<noteq> [])
         (fold (\<lambda>(p, v) fr. if 0 \<le> prop_offset p \<and> prop_offset p < parms_size f then poke (prop_offset p) v fr else fr)
            (zip (parms f) [flag visible, flag propagate]) (zeroed (parms_size f))))"

definition disable_component_collision :: "reflected option \<Rightarrow> attempt" where
  "disable_component_collision component = on_function component ''SetCollisionEnabled'' (with_optional ''NewType'' (VByte 0))"

text \<open>A getter: the block the engine filled (\<open>reply\<close>, by offset) read at \<^verbatim>\<open>ReturnValue\<close>.\<close>

definition returned :: "reflected option \<Rightarrow> string \<Rightarrow> ((int \<Rightarrow> 8 word) \<Rightarrow> 8 word option) option" where
  "returned target name =
     (case Option.bind target (\<lambda>fn. fn name) of
        None \<Rightarrow> None
      | Some f \<Rightarrow> if parms_size f < 1 then None
                  else Some (\<lambda>reply. map_option (\<lambda>p. reply (prop_offset p)) (find_prop ''ReturnValue'' (parms f))))"

definition component_collision_enabled :: "reflected option \<Rightarrow> (int \<Rightarrow> 8 word) \<Rightarrow> int" where
  "component_collision_enabled component reply =
     (case Option.bind (returned component ''GetCollisionEnabled'') (\<lambda>r. r reply) of None \<Rightarrow> -1 | Some b \<Rightarrow> uint b)"

definition timeline_is_playing :: "reflected option \<Rightarrow> (int \<Rightarrow> 8 word) \<Rightarrow> bool" where
  "timeline_is_playing timeline reply =
     (case Option.bind (returned timeline ''IsPlaying'') (\<lambda>r. r reply) of None \<Rightarrow> False | Some b \<Rightarrow> b \<noteq> 0)"

text \<open>An effect whose state cannot be asked counts as active; a null one does not.\<close>

definition component_is_active :: "reflected option \<Rightarrow> (int \<Rightarrow> 8 word) \<Rightarrow> bool" where
  "component_is_active component reply =
     (component \<noteq> None \<and>
      (case Option.bind (returned component ''IsActive'') (\<lambda>r. r reply) of None \<Rightarrow> True | Some b \<Rightarrow> b \<noteq> 0))"

definition call_set_collision_response_to_channel :: "reflected option \<Rightarrow> ufunction option \<Rightarrow> 8 word \<Rightarrow> 8 word \<Rightarrow> attempt" where
  "call_set_collision_response_to_channel target function channel response =
     (case (target, function) of
        (Some _, Some f) \<Rightarrow>
          if parms_size f < 2 then NoFrame
          else settle (2 \<le> length (parms f))
            (fold (\<lambda>(p, v). poke (prop_offset p) v) (zip (parms f) [VByte channel, VByte response]) (zeroed (parms_size f)))
      | _ \<Rightarrow> NoFrame)"

definition call_montage_stop :: "reflected option \<Rightarrow> dbl \<Rightarrow> attempt" where
  "call_montage_stop anim_instance blend_out_time =
     on_function anim_instance ''Montage_Stop'' (with_required 4 ''InBlendOutTime'' (VFloat blend_out_time))"

definition last_prop :: "string \<Rightarrow> fproperty list \<Rightarrow> fproperty option" where
  "last_prop name ps = find_prop name (rev ps)"

text \<open>What it returns: \<open>None\<close> for false, and the montage's name (\<^verbatim>\<open>none\<close> for a null one).\<close>

definition montage_slot :: "ufunction \<Rightarrow> int option" where
  "montage_slot f =
     (case last_prop ''ReturnValue'' (parms f) of
        None \<Rightarrow> None
      | Some p \<Rightarrow> if prop_class p \<noteq> ''ObjectProperty'' \<or> \<not> ends_within (prop_offset p) 8 (parms_size f) then None else Some (prop_offset p))"

definition read_current_active_montage :: "reflected option \<Rightarrow> (int \<Rightarrow> string option) \<Rightarrow> string option" where
  "read_current_active_montage anim_instance reply =
     (case Option.bind (Option.bind anim_instance (\<lambda>fn. fn ''GetCurrentActiveMontage'')) montage_slot of
        None \<Rightarrow> None
      | Some off \<Rightarrow> Some (case reply off of None \<Rightarrow> ''none'' | Some full_name \<Rightarrow> full_name))"

definition call_custom_play_montage :: "reflected option \<Rightarrow> address option \<Rightarrow> attempt" where
  "call_custom_play_montage pawn montage =
     (if montage = None then NoFrame
      else on_function pawn ''CustomPlayMontage'' (with_required 8 ''MontageToPlay'' (VPtr montage)))"

definition call_montage_play :: "reflected option \<Rightarrow> address option \<Rightarrow> attempt" where
  "call_montage_play anim_instance montage =
     (if montage = None then NoFrame
      else on_function anim_instance ''Montage_Play'' (\<lambda>f.
        if parms_size f < 8 then NoFrame
        else settle (has_param ''MontageToPlay'' f)
          (fill (\<lambda>p. if prop_name p = ''MontageToPlay'' then Some (VPtr montage)
                     else if prop_name p = ''InPlayRate'' then Some (VFloat (Fin 1)) else None) f)))"

text \<open>The duration it returns: minus one when it was not made, zero when the return value is not a float of the block.\<close>

definition montage_length :: "ufunction \<Rightarrow> (int \<Rightarrow> dbl) \<Rightarrow> dbl" where
  "montage_length f reply =
     (case last_prop ''ReturnValue'' (parms f) of
        None \<Rightarrow> Fin 0
      | Some p \<Rightarrow> if prop_class p = ''FloatProperty'' \<and> ends_within (prop_offset p) 4 (parms_size f) then reply (prop_offset p) else Fin 0)"

definition montage_play_result :: "reflected option \<Rightarrow> address option \<Rightarrow> (int \<Rightarrow> dbl) \<Rightarrow> dbl" where
  "montage_play_result anim_instance montage reply =
     (case (made (call_montage_play anim_instance montage), Option.bind anim_instance (\<lambda>fn. fn ''Montage_Play'')) of
        (True, Some f) \<Rightarrow> montage_length f reply
      | _ \<Rightarrow> Fin (- 1))"

definition call_update_weapon_equip :: "reflected option \<Rightarrow> bool \<Rightarrow> attempt" where
  "call_update_weapon_equip anim_instance equipped =
     on_function anim_instance ''updateWeaponEquip'' (with_required 1 ''animEquippedWeapon'' (flag equipped))"

definition call_set_simulate_physics :: "reflected option \<Rightarrow> bool \<Rightarrow> attempt" where
  "call_set_simulate_physics component simulate =
     on_function component ''SetSimulatePhysics'' (\<lambda>f.
       if parms_size f < 1 then NoFrame else Called (poke 0 (flag simulate) (zeroed (parms_size f))))"

definition call_perform_damage_response :: "reflected option \<Rightarrow> 8 word \<Rightarrow> attempt" where
  "call_perform_damage_response target damage_type =
     on_function target ''BPI_PerformDamageResponse'' (with_optional ''DamageType'' (VByte damage_type))"

definition call_die_fade :: "reflected option \<Rightarrow> bool \<Rightarrow> attempt" where
  "call_die_fade target die_not_rez = on_function target ''dieFade'' (with_required 1 ''DieNotRez'' (flag die_not_rez))"

definition call_contact_damage_response :: "reflected option \<Rightarrow> attempt" where
  "call_contact_damage_response hitable = on_function hitable ''BPI_ContactDamageResponse'' (\<lambda>_. CalledBare)"

definition call_combat_death :: "reflected option \<Rightarrow> dbl \<Rightarrow> attempt" where
  "call_combat_death hitable dissolve_delay =
     on_function hitable ''BPI_CombatDeath'' (\<lambda>f.
       let delay = (\<lambda>p. prop_name p = ''dissolveDelay'' \<and> prop_class p = ''DoubleProperty'')
       in if parms_size f < 1 then NoFrame
          else settle (list_ex delay (parms f)) (fill (\<lambda>p. if delay p then Some (VDouble dissolve_delay) else None) f))"

definition no_argument :: "ufunction \<Rightarrow> attempt" where
  "no_argument f = (if parms_size f < 0 then NoFrame else Called (zeroed (parms_size f)))"

definition call_start_blink :: "reflected option \<Rightarrow> attempt" where
  "call_start_blink target = on_function target ''startBlink'' no_argument"

definition call_manage_blob_shadow :: "reflected option \<Rightarrow> attempt" where
  "call_manage_blob_shadow target = on_function target ''manageBlobShadow'' no_argument"

text \<open>The light manager's own functions get a fixed block of 256 bytes.\<close>

definition call_fix_lights :: "reflected option \<Rightarrow> string \<Rightarrow> attempt" where
  "call_fix_lights manager which = on_function manager which (\<lambda>_. Called (zeroed 256))"

definition call_destroy_actor :: "reflected option \<Rightarrow> attempt" where
  "call_destroy_actor actor = on_function actor ''K2_DestroyActor'' (\<lambda>_. CalledBare)"

definition call_change_weapon_state :: "reflected option \<Rightarrow> 8 word \<Rightarrow> attempt" where
  "call_change_weapon_state weapon_actor new_state =
     on_function weapon_actor ''Change Weapon State'' (\<lambda>f.
       if parms_size f < 1 then NoFrame
       else case List.find (\<lambda>p. prop_size p = 1) (parms f) of
              None \<Rightarrow> Dropped (zeroed (parms_size f))
            | Some p \<Rightarrow> Called (poke (prop_offset p) (VByte new_state) (zeroed (parms_size f))))"

definition call_change_equipped_weapon :: "reflected option \<Rightarrow> bool \<Rightarrow> attempt" where
  "call_change_equipped_weapon pawn equipped =
     on_function pawn ''changeEquippedWeapon'' (with_required 1 ''weaponEquipped?'' (flag equipped))"

definition call_bool_ufunction :: "reflected option \<Rightarrow> string \<Rightarrow> string \<Rightarrow> bool \<Rightarrow> attempt" where
  "call_bool_ufunction target function_name param_name v =
     on_function target function_name (with_required 1 param_name (flag v))"

definition call_spawn_after_image :: "reflected option \<Rightarrow> dbl \<Rightarrow> attempt" where
  "call_spawn_after_image pawn duration =
     on_function pawn ''Spawn After Image'' (with_required 4 ''Duration'' (VFloat duration))"

definition call_do_wall_run :: "reflected option \<Rightarrow> attempt" where
  "call_do_wall_run pawn = on_function pawn ''doWallRun'' bare_frame"

definition call_named_no_arg :: "reflected option \<Rightarrow> string \<Rightarrow> attempt" where
  "call_named_no_arg pawn function_name = on_function pawn function_name bare_frame"

definition call_two_float_event :: "reflected option \<Rightarrow> string \<Rightarrow> dbl \<Rightarrow> dbl \<Rightarrow> attempt" where
  "call_two_float_event pawn function_name a b =
     on_function pawn function_name (\<lambda>f.
       if parms_size f < 8 then NoFrame else Called (poke 4 (VFloat b) (poke 0 (VFloat a) (zeroed (parms_size f)))))"

definition call_component_deactivate :: "reflected option \<Rightarrow> attempt" where
  "call_component_deactivate component = on_function component ''Deactivate'' bare_frame"

definition call_audio_component_stop :: "reflected option \<Rightarrow> string \<times> attempt" where
  "call_audio_component_stop component =
     (case component of
        None \<Rightarrow> (''<null component>'', NoFrame)
      | Some fn \<Rightarrow>
          (case fn ''Stop'' of
             Some f \<Rightarrow> (''Stop'', bare_frame f)
           | None \<Rightarrow> (case fn ''Deactivate'' of
                        Some f \<Rightarrow> (''Deactivate'', bare_frame f)
                      | None \<Rightarrow> (''<no Stop or Deactivate found>'', NoFrame))))"

definition call_spawn_num_afterimages :: "reflected option \<Rightarrow> attempt" where
  "call_spawn_num_afterimages pawn = on_function pawn ''spawnNumAfterimages'' bare_frame"

definition call_manage_recall_idle_fx :: "reflected option \<Rightarrow> attempt" where
  "call_manage_recall_idle_fx pawn = on_function pawn ''manageRecallIdleFX'' bare_frame"

text \<open>The first parameter four bytes wide takes the value; the call is made even when there is none.\<close>

definition call_float_setter :: "reflected option \<Rightarrow> string \<Rightarrow> dbl \<Rightarrow> attempt" where
  "call_float_setter component function_name v =
     on_function component function_name (\<lambda>f.
       if parms_size f < 4 then NoFrame
       else Called (case List.find (\<lambda>p. prop_size p = 4) (parms f) of
                      None \<Rightarrow> zeroed (parms_size f)
                    | Some p \<Rightarrow> poke (prop_offset p) (VFloat v) (zeroed (parms_size f))))"

definition call_object_param_ufunction :: "reflected option \<Rightarrow> string \<Rightarrow> string \<Rightarrow> address option \<Rightarrow> attempt" where
  "call_object_param_ufunction target function_name param_name v =
     on_function target function_name (\<lambda>f.
       case find_prop param_name (parms f) of
         None \<Rightarrow> NoFrame
       | Some p \<Rightarrow> if \<not> ends_within (prop_offset p) 8 (parms_size f) then NoFrame
                   else Called (poke (prop_offset p) (VPtr v) (zeroed (parms_size f))))"

definition INPUT_ACTION_VALUE_SIZE :: int where "INPUT_ACTION_VALUE_SIZE = 32"

text \<open>An input action's value: three doubles and its type at 24, written only when the parameter has the size the code knows.\<close>

definition call_input_action_event :: "reflected option \<Rightarrow> string \<Rightarrow> dbl \<Rightarrow> dbl \<Rightarrow> 8 word \<Rightarrow> attempt" where
  "call_input_action_event pawn function_name x y value_type =
     on_function pawn function_name (\<lambda>f.
       if parms_size f \<le> 0 then NoFrame
       else Called (case find_prop ''ActionValue'' (parms f) of
           None \<Rightarrow> zeroed (parms_size f)
         | Some p \<Rightarrow>
             if prop_size p = INPUT_ACTION_VALUE_SIZE \<and> ends_within (prop_offset p) INPUT_ACTION_VALUE_SIZE (parms_size f)
             then poke (prop_offset p + 24) (VByte (if value_type \<noteq> 255 then value_type else if dbl_ne y (Fin 0) then 2 else 0))
                    (poke (prop_offset p + 16) (VDouble (Fin 0)) (poke (prop_offset p + 8) (VDouble y)
                      (poke (prop_offset p) (VDouble x) (zeroed (parms_size f)))))
             else zeroed (parms_size f)))"

end
