(* ===== verification/Frame_Calls.thy ===== *)
theory Frame_Calls
  imports Frames
begin

text \<open>
  The engine calls whose arguments are structures (\<^verbatim>\<open>Plugin.cpp\<close>: \<^verbatim>\<open>write_struct_triple\<close> and its users, the
  effect spawners, the contact damage, the thrown sword's flyer) and the caches of reflected lookups. \<open>floats\<close> is
  \<^verbatim>\<open>Version::IsBelow(5, 0)\<close>: the engine's vectors hold floats. A function found by path is an argument.
\<close>

section \<open>Vectors and rotators\<close>

record triple_layout =
  at_a :: int
  at_b :: int
  at_c :: int
  triple_ok :: bool

definition no_triple :: triple_layout where
  "no_triple = \<lparr>at_a = -1, at_b = -1, at_c = -1, triple_ok = False\<rparr>"

definition resolve_struct_triple :: "fproperty option \<Rightarrow> string \<times> string \<times> string \<Rightarrow> triple_layout" where
  "resolve_struct_triple struct_property names =
     (case names of (a, b, c) \<Rightarrow>
       case struct_property of
         None \<Rightarrow> no_triple
       | Some p \<Rightarrow>
           (case inner_props p of
              None \<Rightarrow> no_triple
            | Some inner \<Rightarrow>
                (case (find_prop a inner, find_prop b inner, find_prop c inner) of
                   (Some pa, Some pb, Some pc) \<Rightarrow>
                     \<lparr>at_a = prop_offset p + prop_offset pa, at_b = prop_offset p + prop_offset pb,
                      at_c = prop_offset p + prop_offset pc, triple_ok = True\<rparr>
                 | _ \<Rightarrow> no_triple)))"

definition engine_real :: "bool \<Rightarrow> dbl \<Rightarrow> fvalue" where
  "engine_real floats x = (if floats then VFloat (dbl_to_float x) else VDouble x)"

definition write_layout_triple :: "bool \<Rightarrow> int \<Rightarrow> triple_layout \<Rightarrow> triple \<Rightarrow> frame \<Rightarrow> frame option" where
  "write_layout_triple floats base l v fr =
     (case v of (a, b, c) \<Rightarrow>
        if \<not> triple_ok l then None
        else Some (poke (base + at_c l) (engine_real floats c) (poke (base + at_b l) (engine_real floats b)
               (poke (base + at_a l) (engine_real floats a) fr))))"

definition write_struct_triple :: "bool \<Rightarrow> fproperty option \<Rightarrow> string \<times> string \<times> string \<Rightarrow> triple \<Rightarrow> frame \<Rightarrow> frame option" where
  "write_struct_triple floats struct_property names v fr =
     (case names of (na, nb, nc) \<Rightarrow> case v of (a, b, c) \<Rightarrow>
       case struct_property of
         None \<Rightarrow> None
       | Some p \<Rightarrow>
           (case inner_props p of
              None \<Rightarrow> None
            | Some inner \<Rightarrow>
                (case (find_prop na inner, find_prop nb inner, find_prop nc inner) of
                   (Some pa, Some pb, Some pc) \<Rightarrow>
                     Some (poke (prop_offset p + prop_offset pc) (engine_real floats c)
                       (poke (prop_offset p + prop_offset pb) (engine_real floats b)
                         (poke (prop_offset p + prop_offset pa) (engine_real floats a) fr)))
                 | _ \<Rightarrow> None)))"

definition write_vector_param :: "bool \<Rightarrow> fproperty option \<Rightarrow> triple \<Rightarrow> frame \<Rightarrow> frame option" where
  "write_vector_param floats p v fr = write_struct_triple floats p (''X'', ''Y'', ''Z'') v fr"

definition write_rotator_param :: "bool \<Rightarrow> fproperty option \<Rightarrow> triple \<Rightarrow> frame \<Rightarrow> frame option" where
  "write_rotator_param floats p v fr = write_struct_triple floats p (''Pitch'', ''Yaw'', ''Roll'') v fr"

text \<open>A location and a rotation into one block, the second only after the first.\<close>

definition place_frame :: "bool \<Rightarrow> ufunction \<Rightarrow> triple \<Rightarrow> triple \<Rightarrow> frame option" where
  "place_frame floats f loc rot =
     Option.bind (write_vector_param floats (find_prop ''NewLocation'' (parms f)) loc (zeroed (parms_size f)))
       (write_rotator_param floats (find_prop ''NewRotation'' (parms f)) rot)"

definition has_place :: "ufunction \<Rightarrow> bool" where
  "has_place f \<longleftrightarrow> find_prop ''NewLocation'' (parms f) \<noteq> None \<and> find_prop ''NewRotation'' (parms f) \<noteq> None"

definition attempt_of :: "int \<Rightarrow> frame option \<Rightarrow> attempt" where
  "attempt_of n fr = (case fr of None \<Rightarrow> Dropped (zeroed n) | Some fr \<Rightarrow> Called fr)"

definition set_text_render_transform :: "bool \<Rightarrow> bool \<Rightarrow> ufunction option \<Rightarrow> triple \<Rightarrow> triple \<Rightarrow> attempt" where
  "set_text_render_transform floats component function loc rot =
     (case function of
        None \<Rightarrow> NoFrame
      | Some f \<Rightarrow> if \<not> component \<or> \<not> has_place f \<or> parms_size f < 1 then NoFrame
                  else attempt_of (parms_size f) (place_frame floats f loc rot))"

definition set_component_relative_transform :: "bool \<Rightarrow> bool \<Rightarrow> ufunction option \<Rightarrow> triple \<Rightarrow> triple \<Rightarrow> attempt" where
  "set_component_relative_transform floats component function loc rot =
     (case function of
        None \<Rightarrow> NoFrame
      | Some f \<Rightarrow> if \<not> component \<or> \<not> has_place f \<or> parms_size f < 1 then NoFrame
                  else attempt_of (parms_size f) (place_frame floats f loc rot))"

text \<open>The two that also sweep and teleport, and check the two structures against the block.\<close>

definition ends_inside :: "ufunction \<Rightarrow> string \<Rightarrow> bool" where
  "ends_inside f name \<longleftrightarrow> (case find_prop name (parms f) of None \<Rightarrow> False | Some p \<Rightarrow> prop_offset p + prop_size p \<le> parms_size f)"

definition sweep_and_teleport :: "ufunction \<Rightarrow> frame \<Rightarrow> frame" where
  "sweep_and_teleport f fr =
     (case (find_prop ''bSweep'' (parms f), find_prop ''bTeleport'' (parms f)) of
        (Some s, Some t) \<Rightarrow> poke (prop_offset t) (flag True) (poke (prop_offset s) (flag False) fr)
      | _ \<Rightarrow> fr)"

definition can_teleport :: "ufunction \<Rightarrow> bool" where
  "can_teleport f \<longleftrightarrow> has_place f \<and> find_prop ''bSweep'' (parms f) \<noteq> None \<and> find_prop ''bTeleport'' (parms f) \<noteq> None"

text \<open>The first resolves the two structures once, the second at every call.\<close>

definition call_set_actor_location_and_rotation :: "bool \<Rightarrow> bool \<Rightarrow> ufunction option \<Rightarrow> triple \<Rightarrow> triple \<Rightarrow> attempt" where
  "call_set_actor_location_and_rotation floats actor function loc rot =
     (case function of
        None \<Rightarrow> NoFrame
      | Some f \<Rightarrow>
          if \<not> actor \<or> \<not> can_teleport f \<or> \<not> ends_inside f ''NewLocation'' \<or> \<not> ends_inside f ''NewRotation'' then NoFrame
          else let location_layout = resolve_struct_triple (find_prop ''NewLocation'' (parms f)) (''X'', ''Y'', ''Z'');
                   rotation_layout = resolve_struct_triple (find_prop ''NewRotation'' (parms f)) (''Pitch'', ''Yaw'', ''Roll'')
               in attempt_of (parms_size f) (map_option (sweep_and_teleport f)
                    (Option.bind (write_layout_triple floats 0 location_layout loc (zeroed (parms_size f)))
                      (write_layout_triple floats 0 rotation_layout rot))))"

definition call_set_component_world_location_and_rotation :: "bool \<Rightarrow> bool \<Rightarrow> ufunction option \<Rightarrow> triple \<Rightarrow> triple \<Rightarrow> attempt" where
  "call_set_component_world_location_and_rotation floats component function loc rot =
     (case function of
        None \<Rightarrow> NoFrame
      | Some f \<Rightarrow>
          if \<not> component \<or> \<not> can_teleport f \<or> \<not> ends_inside f ''NewLocation'' \<or> \<not> ends_inside f ''NewRotation'' then NoFrame
          else attempt_of (parms_size f) (map_option (sweep_and_teleport f) (place_frame floats f loc rot)))"

text \<open>
  A hazard's touch: every parameter called \<^verbatim>\<open>Location\<close> that is a structure is tried, and the last decides; the
  reads behind it do not change.
\<close>

definition call_touch_hazard :: "bool \<Rightarrow> reflected option \<Rightarrow> triple \<Rightarrow> attempt" where
  "call_touch_hazard floats hitable location =
     on_function hitable ''BPI_TouchHazard'' (\<lambda>f.
       if parms_size f < 1 then NoFrame
       else let (wrote, fr) = fold (\<lambda>p (wrote, fr).
                if prop_name p = ''Location'' \<and> prop_class p = ''StructProperty''
                then (case write_vector_param floats (Some p) location fr of None \<Rightarrow> (False, fr) | Some fr' \<Rightarrow> (True, fr'))
                else (wrote, fr)) (parms f) (False, zeroed (parms_size f))
            in settle wrote fr)"

definition camera_rotation_fields :: "ufunction \<Rightarrow> (int \<times> int) list option" where
  "camera_rotation_fields f =
     (case find_prop ''ReturnValue'' (parms f) of
        None \<Rightarrow> None
      | Some p \<Rightarrow>
          if parms_size f < prop_offset p + prop_size p then None
          else Option.bind (inner_props p) (\<lambda>inner.
            those (map (\<lambda>name. map_option (\<lambda>q. (prop_offset p + prop_offset q, prop_size q)) (find_prop name inner))
              [''Pitch'', ''Yaw'', ''Roll''])))"

text \<open>Each is read as a double when it is eight bytes wide, as a float otherwise.\<close>

definition camera_world_rotation :: "ufunction option \<Rightarrow> (int \<Rightarrow> dbl) \<Rightarrow> (int \<Rightarrow> dbl) \<Rightarrow> dbl list option" where
  "camera_world_rotation get_rotation double_at float_at =
     map_option (map (\<lambda>(off, size). if size = 8 then double_at off else float_at off)) (Option.bind get_rotation camera_rotation_fields)"

section \<open>Text components\<close>

definition force_text_rebuild :: "reflected option \<Rightarrow> dbl option \<Rightarrow> attempt" where
  "force_text_rebuild component world_size =
     (let size = (case world_size of None \<Rightarrow> Fin 0 | Some s \<Rightarrow> s)
      in if dbl_le size (Fin 0) then NoFrame else call_float_setter component ''SetWorldSize'' size)"

definition center_text_component :: "reflected option \<Rightarrow> attempt list" where
  "center_text_component component =
     map (\<lambda>setter. on_function component setter (\<lambda>f.
        if parms_size f < 1 then NoFrame else Called (poke 0 (VByte 1) (zeroed (parms_size f)))))
       [''SetHorizontalAlignment'', ''SetVerticalAlignment'']"

text \<open>With neither setter the two properties are written directly and the text rebuilt.\<close>

definition centers_by_property :: "reflected option \<Rightarrow> bool" where
  "centers_by_property component \<longleftrightarrow> component \<noteq> None \<and> list_all (\<lambda>a. \<not> made a) (center_text_component component)"

definition relative_scale_frame :: "bool \<Rightarrow> bool \<Rightarrow> ufunction option \<Rightarrow> triple \<Rightarrow> attempt" where
  "relative_scale_frame floats component function scale =
     (case function of
        None \<Rightarrow> NoFrame
      | Some f \<Rightarrow>
          if \<not> component \<or> find_prop ''NewScale3D'' (parms f) = None \<or> parms_size f < 1 then NoFrame
          else attempt_of (parms_size f) (write_vector_param floats (find_prop ''NewScale3D'' (parms f)) scale (zeroed (parms_size f))))"

text \<open>Where the call cannot be made the property is written, if it is there; the value is what the property then holds.\<close>

definition set_component_relative_scale :: "bool \<Rightarrow> bool \<Rightarrow> ufunction option \<Rightarrow> triple \<Rightarrow> triple option \<Rightarrow> attempt \<times> triple option" where
  "set_component_relative_scale floats component function scale held =
     (let a = relative_scale_frame floats component function scale
      in (a, if \<not> component \<or> made a then held else map_option (\<lambda>_. scale) held))"

definition attach_component_keep_relative :: "bool \<Rightarrow> address option \<Rightarrow> ufunction option \<Rightarrow> attempt" where
  "attach_component_keep_relative here parent function =
     (case function of
        None \<Rightarrow> NoFrame
      | Some f \<Rightarrow>
          if \<not> here \<or> parent = None \<or> parms_size f < 1 then NoFrame
          else settle (has_param ''Parent'' f)
            (fill (\<lambda>p. if prop_name p = ''Parent'' then Some (VPtr parent)
                       else if prop_name p \<in> {''LocationRule'', ''RotationRule'', ''ScaleRule''} then Some (VByte 0) else None) f))"

definition plate_width_scale_for :: "dbl \<Rightarrow> nat \<Rightarrow> dbl" where
  "plate_width_scale_for margin_chars chars =
     dbl_add (Fin 1) (case dbl_mult (Fin 2) margin_chars of
        Fin q \<Rightarrow> rnd_double (q / of_nat (max 1 chars)) | other \<Rightarrow> other)"

section \<open>Meshes\<close>

text \<open>The override materials are dropped first: how many, and what is left.\<close>

definition clear_override_materials :: "address list option \<Rightarrow> nat \<times> address list option" where
  "clear_override_materials overrides = (case overrides of None \<Rightarrow> (0, None) | Some l \<Rightarrow> (length l, Some []))"

definition call_set_skeletal_mesh_asset :: "reflected option \<Rightarrow> address option \<Rightarrow> address list option \<Rightarrow> attempt \<times> address list option" where
  "call_set_skeletal_mesh_asset mesh_component new_mesh overrides =
     (if mesh_component = None \<or> new_mesh = None then (NoFrame, overrides)
      else (on_function mesh_component ''SetSkeletalMeshAsset'' (\<lambda>f.
              if parms_size f < 8 then NoFrame
              else case parms f of
                     [] \<Rightarrow> Dropped (zeroed (parms_size f))
                   | p # _ \<Rightarrow> Called (poke (prop_offset p) (VPtr new_mesh) (zeroed (parms_size f)))),
            snd (clear_override_materials overrides)))"

section \<open>Effects\<close>

text \<open>\<open>names\<close> and \<open>vectors\<close> are the sizes of \<^verbatim>\<open>FName\<close> and \<^verbatim>\<open>FVector\<close>.\<close>

definition attached_argument :: "int \<Rightarrow> address \<Rightarrow> address \<Rightarrow> string option \<Rightarrow> fproperty \<Rightarrow> fvalue option" where
  "attached_argument names asset component point p =
     (if prop_name p = ''SystemTemplate'' then Some (VPtr (Some asset))
      else if prop_name p = ''AttachToComponent'' then Some (VPtr (Some component))
      else if prop_name p = ''AttachPointName'' then map_option (VName names) point
      else if prop_name p = ''bAutoActivate'' then Some (VByte 1)
      else if prop_name p = ''bAutoDestroy'' then Some (VByte 0)
      else None)"

definition spawn_niagara_attached :: "int \<Rightarrow> ufunction option \<Rightarrow> bool \<Rightarrow> address option \<Rightarrow> address option \<Rightarrow> string option \<Rightarrow> attempt" where
  "spawn_niagara_attached names function cdo system_asset attach_component point =
     (case (function, system_asset, attach_component) of
        (Some f, Some asset, Some component) \<Rightarrow>
          if \<not> cdo \<or> parms_size f < 1 then NoFrame
          else settle (has_param ''SystemTemplate'' f \<and> has_param ''AttachToComponent'' f)
                 (fill (attached_argument names asset component point) f)
      | _ \<Rightarrow> NoFrame)"

definition place_argument :: "int \<Rightarrow> address \<Rightarrow> address \<Rightarrow> triple \<Rightarrow> bool \<Rightarrow> fproperty \<Rightarrow> fvalue option" where
  "place_argument vectors world_context asset location auto_destroy p =
     (if prop_name p = ''SystemTemplate'' then Some (VPtr (Some asset))
      else if prop_name p = ''WorldContextObject'' then Some (VPtr (Some world_context))
      else if prop_name p = ''Location'' then Some (VVec vectors location)
      else if prop_name p = ''Scale'' then Some (VVec vectors (Fin 1, Fin 1, Fin 1))
      else if prop_name p = ''bAutoActivate'' then Some (VByte 1)
      else if prop_name p = ''bAutoDestroy'' then Some (flag auto_destroy)
      else None)"

text \<open>A yaw goes to the middle field of the rotation, when the parameter has a size the code knows.\<close>

definition yaw_argument :: "dbl \<Rightarrow> fproperty \<Rightarrow> (int \<times> fvalue) option" where
  "yaw_argument yaw p =
     (if prop_name p = ''Rotation'' \<and> dbl_ne yaw (Fin 0) then
        (if prop_size p = 24 then Some (prop_offset p + 8, VDouble yaw)
         else if prop_size p = 12 then Some (prop_offset p + 4, VFloat (dbl_to_float yaw)) else None)
      else None)"

definition located_write :: "int \<Rightarrow> address \<Rightarrow> address \<Rightarrow> triple \<Rightarrow> dbl \<Rightarrow> bool \<Rightarrow> fproperty \<Rightarrow> (int \<times> fvalue) option" where
  "located_write vectors world_context asset location yaw auto_destroy p =
     (case place_argument vectors world_context asset location auto_destroy p of
        Some v \<Rightarrow> Some (prop_offset p, v)
      | None \<Rightarrow> yaw_argument yaw p)"

definition spawn_niagara_at_location ::
    "int \<Rightarrow> ufunction option \<Rightarrow> bool \<Rightarrow> address option \<Rightarrow> address option \<Rightarrow> triple \<Rightarrow> dbl \<Rightarrow> bool \<Rightarrow> attempt" where
  "spawn_niagara_at_location vectors function cdo world_context system_asset location yaw auto_destroy =
     (case (function, world_context, system_asset) of
        (Some f, Some world, Some asset) \<Rightarrow>
          if \<not> cdo \<or> parms_size f < 1 then NoFrame
          else settle (has_param ''SystemTemplate'' f \<and> has_param ''Location'' f)
            (fold (\<lambda>p fr. case located_write vectors world asset location yaw auto_destroy p of None \<Rightarrow> fr | Some (off, v) \<Rightarrow> poke off v fr)
               (parms f) (zeroed (parms_size f)))
      | _ \<Rightarrow> NoFrame)"

text \<open>The effect the engine made, read at the last return value, null when it was not made or there is none.\<close>

definition spawned_effect :: "attempt \<Rightarrow> ufunction \<Rightarrow> (int \<Rightarrow> address option) \<Rightarrow> address option" where
  "spawned_effect a f reply =
     (if made a then Option.bind (last_prop ''ReturnValue'' (parms f)) (\<lambda>p. reply (prop_offset p)) else None)"

end
