(* ===== verification/Frame_Layouts.thy ===== *)
theory Frame_Layouts
  imports Frame_Calls Local_State
begin

text \<open>
  The layouts the mod resolves once and keeps (\<^verbatim>\<open>Plugin.cpp\<close>: the caches of reflected lookups, \<^verbatim>\<open>resolve_try_damage_layout\<close>),
  the contact damage that uses one, the capsules it tests, and the component a thrown sword flies in
  (\<^verbatim>\<open>create_ghost_weapon_flyer\<close>).
\<close>

section \<open>The caches of reflected lookups\<close>

text \<open>
  \<^verbatim>\<open>g_property_cache\<close> and \<^verbatim>\<open>g_function_cache\<close>: by class and name, misses included. \<open>find_in\<close> is the walk of the class
  chain. An object that is itself a class is its own owner for properties.
\<close>

type_synonym 'p lookups = "(address \<times> string) \<rightharpoonup> 'p option"

definition property_owner :: "address option \<Rightarrow> (address \<Rightarrow> bool) \<Rightarrow> (address \<Rightarrow> address option) \<Rightarrow> address option" where
  "property_owner object is_struct class_of = Option.bind object (\<lambda>a. if is_struct a then Some a else class_of a)"

definition function_owner :: "address option \<Rightarrow> (address \<Rightarrow> address option) \<Rightarrow> address option" where
  "function_owner object class_of = Option.bind object class_of"

definition cached_lookup :: "(address \<Rightarrow> string \<Rightarrow> 'p option) \<Rightarrow> address option \<Rightarrow> string \<Rightarrow> 'p lookups \<Rightarrow> 'p option \<times> 'p lookups" where
  "cached_lookup find_in owner name cache =
     (case owner of
        None \<Rightarrow> (None, cache)
      | Some cls \<Rightarrow>
          (case cache (cls, name) of
             Some found \<Rightarrow> (found, cache)
           | None \<Rightarrow> (find_in cls name, cache((cls, name) \<mapsto> find_in cls name))))"

definition mg_cached_property ::
    "(address \<Rightarrow> string \<Rightarrow> fproperty option) \<Rightarrow> address option \<Rightarrow> (address \<Rightarrow> bool) \<Rightarrow> (address \<Rightarrow> address option) \<Rightarrow> string \<Rightarrow>
     fproperty lookups \<Rightarrow> fproperty option \<times> fproperty lookups" where
  "mg_cached_property find_in object is_struct class_of name cache =
     cached_lookup find_in (property_owner object is_struct class_of) name cache"

definition mg_cached_function ::
    "(address \<Rightarrow> string \<Rightarrow> ufunction option) \<Rightarrow> address option \<Rightarrow> (address \<Rightarrow> address option) \<Rightarrow> string \<Rightarrow>
     ufunction lookups \<Rightarrow> ufunction option \<times> ufunction lookups" where
  "mg_cached_function find_in object class_of name cache = cached_lookup find_in (function_owner object class_of) name cache"

definition mg_object_properties ::
    "(address \<Rightarrow> fproperty list) \<Rightarrow> address option \<Rightarrow> (address \<rightharpoonup> fproperty list) \<Rightarrow> fproperty list \<times> (address \<rightharpoonup> fproperty list)" where
  "mg_object_properties props_of owner_class cache =
     (case owner_class of
        None \<Rightarrow> ([], cache)
      | Some cls \<Rightarrow>
          (case cache cls of
             Some found \<Rightarrow> (found, cache)
           | None \<Rightarrow> let found = filter (\<lambda>p. prop_class p = ''ObjectProperty'') (props_of cls) in (found, cache(cls \<mapsto> found))))"

text \<open>The three caches together, and what a teardown (\<^verbatim>\<open>release_all_ghosts\<close>) does to them.\<close>

record lookup_caches =
  g_property_cache :: "fproperty lookups"
  g_function_cache :: "ufunction lookups"
  g_object_property_cache :: "address \<rightharpoonup> fproperty list"

definition no_lookups :: lookup_caches where
  "no_lookups = \<lparr>g_property_cache = Map.empty, g_function_cache = Map.empty, g_object_property_cache = Map.empty\<rparr>"

definition drop_lookups :: "lookup_caches \<Rightarrow> lookup_caches" where
  "drop_lookups c = c\<lparr>g_property_cache := Map.empty, g_function_cache := Map.empty, g_object_property_cache := Map.empty\<rparr>"

section \<open>Capsules and health\<close>

text \<open>A capsule's radius and half height; an actor without both has none.\<close>

definition read_capsule :: "(dbl option \<times> dbl option) option \<Rightarrow> (dbl \<times> dbl) option" where
  "read_capsule capsule = (case capsule of Some (Some r, Some h) \<Rightarrow> Some (r, h) | _ \<Rightarrow> None)"

record body =
  body_capsule :: "(dbl option \<times> dbl option) option"
  body_loc :: triple

definition chaser_capsules_overlap :: "body option \<Rightarrow> body option \<Rightarrow> bool" where
  "chaser_capsules_overlap player ghost_body =
     (case (player, ghost_body) of
        (Some p, Some g) \<Rightarrow>
          (case (read_capsule (body_capsule p), read_capsule (body_capsule g), body_loc p, body_loc g) of
             (Some (pr, ph), Some (gr, gh), (px, py, pz), (gx, gy, gz)) \<Rightarrow>
               let dx = dbl_sub px gx; dy = dbl_sub py gy; limit = dbl_add pr gr
               in if dbl_less (dbl_mult limit limit) (dbl_add (dbl_mult dx dx) (dbl_mult dy dy)) then False
                  else dbl_le (dbl_fabs (dbl_sub pz gz)) (dbl_add ph gh)
           | _ \<Rightarrow> False)
      | _ \<Rightarrow> False)"

text \<open>The game instance's \<^verbatim>\<open>CurrentHp\<close>, reached through the pawn's reference to it.\<close>

definition read_shared_current_hp :: "address option \<Rightarrow> (address \<Rightarrow> address option option) \<Rightarrow> (address \<Rightarrow> dbl option) \<Rightarrow> dbl option" where
  "read_shared_current_hp pawn game_instance current_hp =
     Option.bind pawn (\<lambda>p. case game_instance p of Some (Some gi) \<Rightarrow> current_hp gi | _ \<Rightarrow> None)"

section \<open>Contact damage\<close>

record damage_layout =
  l_function :: "ufunction option"
  l_attacker :: "fproperty option"
  l_hitbox :: "fproperty option"
  l_forward :: "fproperty option"
  l_query :: "fproperty option"
  l_damage :: "fproperty option"
  l_hit_stop :: "fproperty option"
  l_sound :: "fproperty option"
  l_socket :: "fproperty option"
  l_extent :: "fproperty option"
  l_damage_type :: "fproperty option"
  l_ok :: bool

definition no_damage_layout :: damage_layout where
  "no_damage_layout = \<lparr>l_function = None, l_attacker = None, l_hitbox = None, l_forward = None, l_query = None, l_damage = None,
     l_hit_stop = None, l_sound = None, l_socket = None, l_extent = None, l_damage_type = None, l_ok = False\<rparr>"

text \<open>A blueprint struct's field is its short name, an underscore and a number that starts with a digit.\<close>

definition short_is :: "string \<Rightarrow> string \<Rightarrow> bool" where
  "short_is full short_name =
     (let head = short_name @ ''_''
      in length full > length head \<and> take (length head) full = head \<and> is_digit (full ! length head))"

definition last_matching :: "(string \<Rightarrow> bool) \<Rightarrow> string \<Rightarrow> fproperty list \<Rightarrow> fproperty option" where
  "last_matching is_name cls ps = List.find (\<lambda>p. is_name (prop_name p) \<and> prop_class p = cls) (rev ps)"

definition layout_params :: "ufunction \<Rightarrow> damage_layout" where
  "layout_params f = no_damage_layout\<lparr>l_function := Some f,
     l_attacker := last_matching ((=) ''Attacker'') ''ObjectProperty'' (parms f),
     l_hitbox := last_matching ((=) ''HitboxInfo'') ''StructProperty'' (parms f),
     l_forward := last_matching ((=) ''ForwardVector'') ''StructProperty'' (parms f),
     l_query := last_matching ((=) ''QueryLocation'') ''StructProperty'' (parms f)\<rparr>"

definition layout_fields :: "fproperty list \<Rightarrow> damage_layout \<Rightarrow> damage_layout" where
  "layout_fields inner l = l\<lparr>
     l_damage := last_matching (\<lambda>n. short_is n ''Damage'') ''DoubleProperty'' inner,
     l_hit_stop := last_matching (\<lambda>n. short_is n ''HitStopDuration'') ''DoubleProperty'' inner,
     l_sound := last_matching (\<lambda>n. short_is n ''HitSound'') ''ObjectProperty'' inner,
     l_socket := last_matching (\<lambda>n. short_is n ''hitboxSocketName'') ''NameProperty'' inner,
     l_extent := last_matching (\<lambda>n. short_is n ''lengthRadiusHalfHeight'') ''StructProperty'' inner,
     l_damage_type := last_matching (\<lambda>n. short_is n ''DamageType'') ''ByteProperty'' inner\<rparr>"

definition layout_complete :: "damage_layout \<Rightarrow> bool" where
  "layout_complete l \<longleftrightarrow> list_all (\<lambda>p. p \<noteq> None)
     [l_attacker l, l_hitbox l, l_forward l, l_query l, l_damage l, l_hit_stop l, l_sound l, l_socket l, l_extent l, l_damage_type l]"

definition resolve_try_damage_layout :: "reflected option \<Rightarrow> damage_layout" where
  "resolve_try_damage_layout hitable =
     (case Option.bind hitable (\<lambda>fn. fn ''BPI_TryDamage'') of
        None \<Rightarrow> no_damage_layout
      | Some f \<Rightarrow>
          let l = layout_params f
          in (case Option.bind (l_hitbox l) inner_props of
                None \<Rightarrow> l
              | Some inner \<Rightarrow> let l = layout_fields inner l in l\<lparr>l_ok := layout_complete l\<rparr>))"

definition offset_of :: "fproperty option \<Rightarrow> int" where
  "offset_of p = (case p of None \<Rightarrow> 0 | Some q \<Rightarrow> prop_offset q)"

text \<open>The block of a hit: twenty hundredths of a stop, the hand's socket, damage type five, a box of 120 by 80 by 80.\<close>

definition try_damage_frame ::
    "bool \<Rightarrow> int \<Rightarrow> damage_layout \<Rightarrow> address option \<Rightarrow> address \<Rightarrow> dbl \<Rightarrow> triple \<Rightarrow> triple \<Rightarrow> attempt" where
  "try_damage_frame floats names l cue attacker damage forward query =
     (case l_function l of
        None \<Rightarrow> NoFrame
      | Some f \<Rightarrow>
          let info = offset_of (l_hitbox l);
              fr = poke (info + offset_of (l_damage_type l)) (VByte 5)
                    (poke (info + offset_of (l_socket l)) (VName names ''handSlot_RSocket'')
                      (poke (info + offset_of (l_sound l)) (VPtr cue)
                        (poke (info + offset_of (l_hit_stop l)) (VDouble (rnd_double (1 / 5)))
                          (poke (info + offset_of (l_damage l)) (VDouble damage)
                            (poke (offset_of (l_attacker l)) (VPtr (Some attacker)) (zeroed (parms_size f)))))));
              extent = resolve_struct_triple (l_extent l) (''X'', ''Y'', ''Z'')
          in attempt_of (parms_size f)
               (Option.bind (write_layout_triple floats info extent (Fin 120, Fin 80, Fin 80) fr)
                 (\<lambda>fr. Option.bind (write_vector_param floats (l_forward l) forward fr) (write_vector_param floats (l_query l) query))))"

text \<open>The layout is kept with the class it was resolved on, and the cue once it was found.\<close>

record damage_cache =
  layout_class :: "address option"
  kept_layout :: damage_layout
  contact_cue :: "address option"

definition new_damage_cache :: damage_cache where
  "new_damage_cache = \<lparr>layout_class = None, kept_layout = no_damage_layout, contact_cue = None\<rparr>"

record damage_call =
  hit_class :: address
  hit_functions :: reflected
  hit_by :: "address option"
  hit_damage :: dbl
  hit_forward :: triple
  hit_query :: triple
  cue_found :: "address option"

definition call_try_damage :: "bool \<Rightarrow> int \<Rightarrow> damage_call option \<Rightarrow> damage_cache \<Rightarrow> attempt \<times> damage_cache" where
  "call_try_damage floats names hit c =
     (case hit of
        None \<Rightarrow> (NoFrame, c)
      | Some h \<Rightarrow>
          (case hit_by h of
             None \<Rightarrow> (NoFrame, c)
           | Some attacker \<Rightarrow>
               let c = (if Some (hit_class h) \<noteq> layout_class c
                        then c\<lparr>layout_class := Some (hit_class h), kept_layout := resolve_try_damage_layout (Some (hit_functions h))\<rparr> else c)
               in if \<not> l_ok (kept_layout c) then (NoFrame, c)
                  else let c = (if contact_cue c = None then c\<lparr>contact_cue := cue_found h\<rparr> else c)
                       in (try_damage_frame floats names (kept_layout c) (contact_cue c) attacker (hit_damage h) (hit_forward h) (hit_query h), c)))"

section \<open>The thrown sword's component\<close>

text \<open>A field of a structure inside the transform, by its size; a structure or field that is not there is skipped.\<close>

definition write_named_float :: "int \<Rightarrow> fproperty option \<Rightarrow> string \<Rightarrow> dbl \<Rightarrow> frame \<Rightarrow> frame" where
  "write_named_float t outer name v fr =
     (case outer of
        None \<Rightarrow> fr
      | Some st \<Rightarrow>
          (case Option.bind (inner_props st) (find_prop name) of
             None \<Rightarrow> fr
           | Some q \<Rightarrow> poke (t + prop_offset st + prop_offset q) (if prop_size q = 8 then VDouble v else VFloat (dbl_to_float v)) fr))"

definition poke_if :: "fproperty option \<Rightarrow> fvalue \<Rightarrow> frame \<Rightarrow> frame" where
  "poke_if p v fr = (case p of None \<Rightarrow> fr | Some q \<Rightarrow> poke (prop_offset q) v fr)"

text \<open>No rotation and a scale of one, in the transform.\<close>

definition identity_transform :: "fproperty \<Rightarrow> frame \<Rightarrow> frame" where
  "identity_transform transform fr =
     (case inner_props transform of
        None \<Rightarrow> fr
      | Some inner \<Rightarrow>
          let t = prop_offset transform; rotation = find_prop ''Rotation'' inner; scale = find_prop ''Scale3D'' inner
          in write_named_float t scale ''Z'' (Fin 1) (write_named_float t scale ''Y'' (Fin 1)
               (write_named_float t scale ''X'' (Fin 1) (write_named_float t rotation ''W'' (Fin 1) fr))))"

definition add_component_frame :: "address \<Rightarrow> ufunction \<Rightarrow> attempt" where
  "add_component_frame mesh_class f =
     (case (find_prop ''Class'' (parms f), find_prop ''RelativeTransform'' (parms f), find_prop ''ReturnValue'' (parms f)) of
        (Some class_param, Some transform, Some _) \<Rightarrow>
          if parms_size f < 1 then NoFrame
          else Called (identity_transform transform
                 (poke_if (find_prop ''bDeferredFinish'' (parms f)) (VByte 0) (poke_if (find_prop ''bManualAttachment'' (parms f)) (VByte 0)
                   (poke (prop_offset class_param) (VPtr (Some mesh_class)) (zeroed (parms_size f))))))
      | _ \<Rightarrow> NoFrame)"

definition ASSET_PROPERTIES :: "string list" where
  "ASSET_PROPERTIES = [''SkeletalMeshAsset'', ''SkeletalMesh'', ''StaticMesh'']"

definition SETTERS :: "(string \<times> string) list" where
  "SETTERS = [(''SetSkeletalMesh'', ''NewMesh''), (''SetSkeletalMeshAsset'', ''NewMesh''), (''SetSkinnedAssetAndUpdate'', ''InSkinnedAsset''),
     (''SetSkinnedAsset'', ''InSkinnedAsset''), (''SetStaticMesh'', ''NewMesh'')]"

definition mesh_asset :: "(string \<Rightarrow> address option) \<Rightarrow> address option" where
  "mesh_asset asset_of = Option.bind (List.find (\<lambda>p. asset_of p \<noteq> None) ASSET_PROPERTIES) asset_of"

text \<open>The setters are tried in order until one can be called.\<close>

definition applied_by :: "reflected \<Rightarrow> address option \<Rightarrow> (string \<times> string) option" where
  "applied_by fns asset =
     (if asset = None then None
      else List.find (\<lambda>(fn, param). made (call_object_param_ufunction (Some fns) fn param asset)) SETTERS)"

definition collision_off_frame :: "reflected \<Rightarrow> attempt" where
  "collision_off_frame fns =
     on_function (Some fns) ''SetCollisionEnabled'' (\<lambda>f.
       case find_prop ''NewType'' (parms f) of
         None \<Rightarrow> NoFrame
       | Some p \<Rightarrow> Called (poke (prop_offset p) (VByte 0) (zeroed (parms_size f))))"

record flyer_made =
  flyer_add :: attempt
  flyer_component :: "address option"
  flyer_setter :: "(string \<times> string) option"
  flyer_collision :: attempt

definition no_flyer :: "attempt \<Rightarrow> flyer_made" where
  "no_flyer a = \<lparr>flyer_add = a, flyer_component = None, flyer_setter = None, flyer_collision = NoFrame\<rparr>"

text \<open>\<open>hand\<close> is the hand mesh: its class and the assets its properties hold. \<open>built\<close> is what the engine made, with its functions.\<close>

definition create_ghost_weapon_flyer ::
    "bool \<Rightarrow> (address option \<times> (string \<Rightarrow> address option)) option \<Rightarrow> ufunction option \<Rightarrow> (address \<times> reflected) option \<Rightarrow> flyer_made" where
  "create_ghost_weapon_flyer has_ghost hand add_fn built =
     (case (hand, add_fn) of
        (Some (Some mesh_class, asset_of), Some f) \<Rightarrow>
          if \<not> has_ghost then no_flyer NoFrame
          else let a = add_component_frame mesh_class f
               in (case (made a, built) of
                     (True, Some (component, fns)) \<Rightarrow>
                       \<lparr>flyer_add = a, flyer_component = Some component, flyer_setter = applied_by fns (mesh_asset asset_of),
                        flyer_collision = collision_off_frame fns\<rparr>
                   | _ \<Rightarrow> no_flyer a)
      | _ \<Rightarrow> no_flyer NoFrame)"

end
