(* ===== verification/Frame_Props.thy ===== *)
theory Frame_Props
  imports Frame_Layouts
begin

text \<open>
  What the engine calls promise: a checked helper stays inside its block under any signature; a call that finds its parameter by
  name delivers its argument there and nothing else; the reflected lookups do not depend on the caches, and a hit's
  layout does not within a level.
\<close>

section \<open>Blocks\<close>

lemma poke_simps [simp]:
  "frame_size (poke off v fr) = frame_size fr"
  "inside (poke off v fr) \<longleftrightarrow> fits (frame_size fr) off v \<and> inside fr"
  "stored (poke off v fr) off' = (if off' = off then Some v else stored fr off')"
  by (auto simp: poke_def inside_def stored_def)

lemma zeroed_simps [simp]: "frame_size (zeroed n) = n" "inside (zeroed n)" "stored (zeroed n) off = None"
  by (simp_all add: zeroed_def inside_def stored_def)

lemma settle_simps [simp]:
  "made (settle found fr) = found" "writes_inside (settle found fr) = inside fr" "settle found fr = Called fr' \<longleftrightarrow> found \<and> fr' = fr"
  by (auto simp: settle_def)

lemma attempt_of_inside: "writes_inside (attempt_of n fr) \<longleftrightarrow> (case fr of None \<Rightarrow> True | Some fr \<Rightarrow> inside fr)"
  by (simp add: attempt_of_def split: option.split)

lemma on_function_cases:
  "on_function target name k = (case Option.bind target (\<lambda>fn. fn name) of None \<Rightarrow> NoFrame | Some f \<Rightarrow> k f)"
  by (simp add: on_function_def)

lemma on_function_inside: "(\<And>f. writes_inside (k f)) \<Longrightarrow> writes_inside (on_function target name k)"
  by (simp add: on_function_def split: option.split)

text \<open>Filling: where the picked parameters are, and only there.\<close>

abbreviation fill_step :: "(fproperty \<Rightarrow> fvalue option) \<Rightarrow> fproperty \<Rightarrow> frame \<Rightarrow> frame" where
  "fill_step pick p fr \<equiv> (case pick p of None \<Rightarrow> fr | Some v \<Rightarrow> poke (prop_offset p) v fr)"

lemma fill_size [simp]: "frame_size (fill pick f) = parms_size f"
proof -
  have "frame_size (fold (fill_step pick) ps fr) = frame_size fr" for ps fr
    by (induction ps arbitrary: fr) (auto split: option.split)
  then show ?thesis by (simp add: fill_def)
qed

lemma fill_inside: "inside (fill pick f) \<longleftrightarrow> (\<forall>p\<in>set (parms f). \<forall>v. pick p = Some v \<longrightarrow> fits (parms_size f) (prop_offset p) v)"
proof -
  have "inside (fold (fill_step pick) ps fr) \<longleftrightarrow>
      inside fr \<and> (\<forall>p\<in>set ps. \<forall>v. pick p = Some v \<longrightarrow> fits (frame_size fr) (prop_offset p) v)" for ps fr
    by (induction ps arbitrary: fr) (auto split: option.split)
  then show ?thesis by (simp add: fill_def)
qed

lemma fill_stored:
  assumes "distinct (map prop_offset (parms f))" and "p \<in> set (parms f)"
  shows "stored (fill pick f) (prop_offset p) = pick p"
proof -
  have other: "stored (fold (fill_step pick) ps fr) off = stored fr off" if "off \<notin> prop_offset ` set ps" for ps fr off
    using that by (induction ps arbitrary: fr) (auto split: option.split)
  have "stored (fold (fill_step pick) ps fr) (prop_offset p) = (case pick p of None \<Rightarrow> stored fr (prop_offset p) | Some v \<Rightarrow> Some v)"
    if "distinct (map prop_offset ps)" "p \<in> set ps" for ps fr
    using that
  proof (induction ps arbitrary: fr)
    case (Cons q ps)
    show ?case
    proof (cases "p = q")
      case True
      then show ?thesis using Cons.prems by (simp add: other split: option.split)
    next
      case False
      then have p: "p \<in> set ps" using Cons.prems by simp
      then have "prop_offset p \<in> prop_offset ` set ps" by (rule imageI)
      then have "prop_offset p \<noteq> prop_offset q" using Cons.prems by auto
      note p this
      then show ?thesis using Cons by (auto split: option.split)
    qed
  qed simp
  then show ?thesis using assms by (simp add: fill_def split: option.split)
qed

section \<open>Under any signature\<close>

text \<open>
  Property C27. The checked helpers cannot write outside their block. Whatever the running game reflects (any size, any
  offsets, negative ones too, any number of parameters), the light, visibility, leading-actor, physics and two-float calls
  keep every write inside the block they allocate; for the light call, as long as its parameter's offset leaves room below
  \<open>2 ^ 31\<close> for the four bytes, since its test adds in 32 bits.
\<close>

theorem checked_calls_stay_inside:
  assumes "\<And>f p. Option.bind target (\<lambda>fn. fn ''SetIntensity'') = Some f \<Longrightarrow> p \<in> set (parms f) \<Longrightarrow> prop_offset p + 4 < 2 ^ 31"
  shows "writes_inside (call_set_light_intensity target v) \<and>
   writes_inside (call_set_visibility target visible propagate) \<and>
   writes_inside (call_ufunction_with_leading_actor_arg target function actor) \<and>
   writes_inside (call_set_simulate_physics target simulate) \<and>
   writes_inside (call_two_float_event target name a b)"
proof (intro conjI)
  show "writes_inside (call_set_light_intensity target v)"
    using assms
    by (auto simp: call_set_light_intensity_def fits_def on_function_def ends_within_small split: list.split option.split)
  have visibility: "inside (fold (\<lambda>(p, v) fr. if 0 \<le> prop_offset p \<and> prop_offset p < n then poke (prop_offset p) v fr else fr) ps fr)"
    if "inside fr" "frame_size fr = n" "\<forall>(p, v)\<in>set ps. width v = 1" for ps :: "(fproperty \<times> fvalue) list" and fr n
    using that by (induction ps arbitrary: fr) (auto simp: fits_def)
  show "writes_inside (call_set_visibility target visible propagate)"
    by (auto simp: call_set_visibility_def flag_def intro!: on_function_inside visibility dest!: set_zip_rightD)
  show "writes_inside (call_ufunction_with_leading_actor_arg target function actor)"
    by (auto simp: call_ufunction_with_leading_actor_arg_def fits_def split: option.split)
  show "writes_inside (call_set_simulate_physics target simulate)"
    by (auto simp: call_set_simulate_physics_def flag_def fits_def intro!: on_function_inside)
  show "writes_inside (call_two_float_event target name a b)"
    by (auto simp: call_two_float_event_def fits_def intro!: on_function_inside)
qed

text \<open>With an offset at the very end of the 32 bits the test's sum comes out negative and the write goes far outside the block.\<close>

definition far_signature :: ufunction where
  "far_signature = \<lparr>parms_size = 4, parms = [Prop ''NewIntensity'' ''FloatProperty'' 2147483645 4 None]\<rparr>"

lemma far_offset_escapes: "\<not> writes_inside (call_set_light_intensity (Some (\<lambda>_. Some far_signature)) v)"
  by (simp add: call_set_light_intensity_def on_function_def far_signature_def ends_within_def wrap32_def fits_def)

definition light_signature :: ufunction where
  "light_signature = \<lparr>parms_size = 4, parms = [Prop ''NewIntensity'' ''FloatProperty'' 0 4 None]\<rparr>"

theorem checked_calls_stay_inside_witness:
  "call_set_light_intensity (Some (\<lambda>_. Some light_signature)) (Fin 0) = Called (poke 0 (VFloat (Fin 0)) (zeroed 4)) \<and>
   writes_inside (call_set_light_intensity (Some (\<lambda>_. Some light_signature)) (Fin 0))"
proof -
  have "prop_offset p + 4 < 2 ^ 31" if "Option.bind (Some (\<lambda>_. Some light_signature)) (\<lambda>fn. fn ''SetIntensity'') = Some f" "p \<in> set (parms f)" for f p
    using that by (auto simp: light_signature_def)
  from checked_calls_stay_inside [of "Some (\<lambda>_. Some light_signature)" "Fin 0", OF this] show ?thesis
    by (simp add: call_set_light_intensity_def on_function_def light_signature_def ends_within_def wrap32_def)
qed

text \<open>Two more need offsets that are not negative, which is all the engine gives.\<close>

lemma find_prop_in: "find_prop name ps = Some p \<Longrightarrow> p \<in> set ps \<and> prop_name p = name"
  by (auto simp: find_prop_def find_Some_iff)

lemma object_param_inside:
  assumes "\<And>f p. Option.bind target (\<lambda>fn. fn name) = Some f \<Longrightarrow> p \<in> set (parms f) \<Longrightarrow> 0 \<le> prop_offset p \<and> prop_offset p + 8 < 2 ^ 31"
  shows "writes_inside (call_object_param_ufunction target name param v)"
proof (cases "Option.bind target (\<lambda>fn. fn name)")
  case (Some f)
  have "0 \<le> prop_offset p \<and> prop_offset p + 8 < 2 ^ 31" if "find_prop param (parms f) = Some p" for p
    using assms [OF Some] find_prop_in [OF that] by blast
  then show ?thesis
    by (auto simp: call_object_param_ufunction_def on_function_def Some fits_def ends_within_small split: option.split)
qed (simp add: call_object_param_ufunction_def on_function_def)

lemma input_action_inside:
  assumes "\<And>f p. Option.bind target (\<lambda>fn. fn name) = Some f \<Longrightarrow> p \<in> set (parms f) \<Longrightarrow> 0 \<le> prop_offset p \<and> prop_offset p + 32 < 2 ^ 31"
  shows "writes_inside (call_input_action_event target name x y t)"
proof (cases "Option.bind target (\<lambda>fn. fn name)")
  case (Some f)
  have "0 \<le> prop_offset p \<and> prop_offset p + 32 < 2 ^ 31" if "find_prop ''ActionValue'' (parms f) = Some p" for p
    using assms [OF Some] find_prop_in [OF that] by blast
  then show ?thesis
    by (auto simp: call_input_action_event_def on_function_def Some fits_def INPUT_ACTION_VALUE_SIZE_def ends_within_small split: option.split)
qed (simp add: call_input_action_event_def on_function_def)

section \<open>Calls by name\<close>

text \<open>What the engine reflects: parameters inside the block, at offsets of their own.\<close>

definition laid_out :: "ufunction \<Rightarrow> bool" where
  "laid_out f \<longleftrightarrow> distinct (map prop_offset (parms f)) \<and>
     (\<forall>p\<in>set (parms f). 0 \<le> prop_offset p \<and> 0 < prop_size p \<and> prop_offset p + prop_size p \<le> parms_size f)"

datatype named_call =
  MontageStop dbl | PlayMontage address | WeaponEquip bool | DieFade bool | EquippedWeapon bool | BoolCall string string bool | AfterImage dbl

fun issue :: "named_call \<Rightarrow> reflected \<Rightarrow> attempt" where
  "issue (MontageStop t) fns = call_montage_stop (Some fns) t"
| "issue (PlayMontage m) fns = call_custom_play_montage (Some fns) (Some m)"
| "issue (WeaponEquip b) fns = call_update_weapon_equip (Some fns) b"
| "issue (DieFade b) fns = call_die_fade (Some fns) b"
| "issue (EquippedWeapon b) fns = call_change_equipped_weapon (Some fns) b"
| "issue (BoolCall fn param b) fns = call_bool_ufunction (Some fns) fn param b"
| "issue (AfterImage t) fns = call_spawn_after_image (Some fns) t"

text \<open>The function, the parameter and the value of a call.\<close>

fun meant :: "named_call \<Rightarrow> string \<times> string \<times> fvalue" where
  "meant (MontageStop t) = (''Montage_Stop'', ''InBlendOutTime'', VFloat t)"
| "meant (PlayMontage m) = (''CustomPlayMontage'', ''MontageToPlay'', VPtr (Some m))"
| "meant (WeaponEquip b) = (''updateWeaponEquip'', ''animEquippedWeapon'', VByte (of_bool b))"
| "meant (DieFade b) = (''dieFade'', ''DieNotRez'', VByte (of_bool b))"
| "meant (EquippedWeapon b) = (''changeEquippedWeapon'', ''weaponEquipped?'', VByte (of_bool b))"
| "meant (BoolCall fn param b) = (fn, param, VByte (of_bool b))"
| "meant (AfterImage t) = (''Spawn After Image'', ''Duration'', VFloat t)"

lemma issue_required:
  "issue c fns = (case meant c of (fn, param, v) \<Rightarrow> on_function (Some fns) fn (with_required (width v) param v))"
  by (cases c)
    (simp_all add: call_montage_stop_def call_custom_play_montage_def call_update_weapon_equip_def call_die_fade_def
      call_change_equipped_weapon_def call_bool_ufunction_def call_spawn_after_image_def flag_def)

text \<open>
  Property C28. A call by name delivers its argument, or is not made. On a function the engine has laid out, whose parameter of
  that name is as wide as the argument, the call is made exactly when there is such a parameter; its block then holds
  the argument there, zeroes at every other parameter, and nothing outside. Without the function or the parameter
  nothing is called.
\<close>

theorem named_call_delivers:
  assumes "meant c = (fn, param, v)"
    and "\<And>f. fns fn = Some f \<Longrightarrow> laid_out f"
    and "\<And>f p. fns fn = Some f \<Longrightarrow> p \<in> set (parms f) \<Longrightarrow> prop_name p = param \<Longrightarrow> width v \<le> prop_size p"
  shows "(made (issue c fns) \<longleftrightarrow> (\<exists>f. fns fn = Some f \<and> has_param param f)) \<and>
    (\<forall>fr. issue c fns = Called fr \<longrightarrow>
      (\<exists>f. fns fn = Some f \<and> frame_size fr = parms_size f \<and> inside fr \<and>
          (\<forall>p\<in>set (parms f). stored fr (prop_offset p) = (if prop_name p = param then Some v else None))))"
proof -
  have big: "width v \<le> parms_size f" if "fns fn = Some f" "has_param param f" for f
    using that(2) assms(2) [OF that(1)] assms(3) [OF that(1)] by (fastforce simp: has_param_def list_ex_iff laid_out_def)
  have made: "made (issue c fns) \<longleftrightarrow> (\<exists>f. fns fn = Some f \<and> has_param param f)"
    using big by (force simp: issue_required assms(1) on_function_def with_required_def split: option.split)
  have delivers: "\<exists>f. fns fn = Some f \<and> frame_size fr = parms_size f \<and> inside fr \<and>
      (\<forall>p\<in>set (parms f). stored fr (prop_offset p) = (if prop_name p = param then Some v else None))"
    if "issue c fns = Called fr" for fr
  proof -
  from that obtain f where f: "fns fn = Some f" and fr: "fr = fill (named param v) f"
    by (auto simp: issue_required assms(1) on_function_def with_required_def split: option.splits if_splits)
  have "inside fr"
    using assms(2,3) [OF f] by (fastforce simp: fr fill_inside named_def laid_out_def fits_def split: if_splits)
  then show ?thesis
    using f assms(2) [OF f] by (intro exI [of _ f]) (auto simp: fr fill_stored laid_out_def named_def)
  qed
  show ?thesis using made delivers by blast
qed

definition sample_signature :: ufunction where
  "sample_signature = \<lparr>parms_size = 16, parms = [Prop ''Reset'' ''BoolProperty'' 0 1 None, Prop ''DieNotRez'' ''BoolProperty'' 8 1 None]\<rparr>"

theorem named_call_delivers_witness:
  "issue (DieFade True) (\<lambda>n. if n = ''dieFade'' then Some sample_signature else None) = Called (poke 8 (VByte 1) (zeroed 16)) \<and>
   made (issue (DieFade True) (\<lambda>n. if n = ''dieFade'' then Some sample_signature else None))"
proof -
  have fill: "fill (named ''DieNotRez'' (VByte 1)) sample_signature = poke 8 (VByte 1) (zeroed 16)"
    by (simp add: fill_def named_def sample_signature_def)
  have laid: "laid_out sample_signature" by (simp add: laid_out_def sample_signature_def)
  have there: "has_param ''DieNotRez'' sample_signature" by (simp add: has_param_def sample_signature_def)
  have wide: "width (VByte 1) \<le> prop_size p" if "p \<in> set (parms sample_signature)" for p
    using that by (auto simp: sample_signature_def)
  have "made (issue (DieFade True) (\<lambda>n. if n = ''dieFade'' then Some sample_signature else None))"
    using named_call_delivers [of "DieFade True" "''dieFade''" "''DieNotRez''" "VByte 1" "\<lambda>n. if n = ''dieFade'' then Some sample_signature else None"]
      laid wide there by (simp del: issue.simps)
  then show ?thesis
    by (simp add: issue_required on_function_def with_required_def fill settle_def split: if_splits)
qed

section \<open>Effects\<close>

lemma located_write_inside:
  fixes vectors :: int
  assumes "\<forall>p\<in>set ps. \<forall>off v. w p = Some (off, v) \<longrightarrow> fits n off v"
  shows "inside fr \<Longrightarrow> frame_size fr = n \<Longrightarrow> inside (fold (\<lambda>p fr. case w p of None \<Rightarrow> fr | Some (off, v) \<Rightarrow> poke off v fr) ps fr)"
  using assms by (induction ps arbitrary: fr) (auto split: option.split)

text \<open>The sizes a signature must give the spawners' parameters: pointers eight, flags one, vectors and names their platform's.\<close>

definition effect_sizes :: "int \<Rightarrow> int \<Rightarrow> fproperty \<Rightarrow> bool" where
  "effect_sizes vectors names p \<longleftrightarrow>
     (prop_name p \<in> {''SystemTemplate'', ''WorldContextObject'', ''AttachToComponent''} \<longrightarrow> 8 \<le> prop_size p) \<and>
     (prop_name p \<in> {''Location'', ''Scale''} \<longrightarrow> vectors \<le> prop_size p) \<and> (prop_name p = ''AttachPointName'' \<longrightarrow> names \<le> prop_size p)"

lemma effects_stay_inside:
  assumes "laid_out f" and "\<forall>p\<in>set (parms f). effect_sizes vectors names p"
  shows "writes_inside (spawn_niagara_at_location vectors (Some f) cdo context asset loc yaw auto_destroy)"
    and "writes_inside (spawn_niagara_attached names (Some f) cdo asset component point)"
proof -
  have room: "0 \<le> prop_offset p \<and> 0 < prop_size p \<and> prop_offset p + prop_size p \<le> parms_size f \<and> effect_sizes vectors names p"
    if "p \<in> set (parms f)" for p using assms that by (simp add: laid_out_def)
  have "fits (parms_size f) off v" if "p \<in> set (parms f)" "located_write vectors w a loc yaw auto_destroy p = Some (off, v)" for p off v w a
    using room [OF that(1)] that(2)
    by (auto simp: located_write_def place_argument_def yaw_argument_def effect_sizes_def fits_def flag_def split: if_splits)
  then show "writes_inside (spawn_niagara_at_location vectors (Some f) cdo context asset loc yaw auto_destroy)"
    by (auto simp: spawn_niagara_at_location_def intro!: located_write_inside [where n = "parms_size f"] split: option.split)
  have "fits (parms_size f) (prop_offset p) v" if "p \<in> set (parms f)" "attached_argument names a c point p = Some v" for p v a c
    using room [OF that(1)] that(2) by (auto simp: attached_argument_def effect_sizes_def fits_def split: if_splits)
  then show "writes_inside (spawn_niagara_attached names (Some f) cdo asset component point)"
    by (auto simp: spawn_niagara_attached_def fill_inside split: option.split)
qed

section \<open>The caches\<close>

text \<open>
  What a level has loaded: which objects are themselves classes, the class of an object, what the chain of a class gives
  under a name, the properties a class declares. Only a teardown changes it.
\<close>

record loaded =
  is_struct :: "address \<Rightarrow> bool"
  class_at :: "address \<Rightarrow> address option"
  property_in :: "address \<Rightarrow> string \<Rightarrow> fproperty option"
  function_in :: "address \<Rightarrow> string \<Rightarrow> ufunction option"
  declared_by :: "address \<Rightarrow> fproperty list"

datatype lookup_event =
  FindProperty "address option" string | FindFunction "address option" string | ObjectProperties "address option" | TornDown

datatype lookup_answer = Property "fproperty option" | Function "ufunction option" | Properties "fproperty list"

definition look_up :: "loaded \<Rightarrow> lookup_event \<Rightarrow> lookup_caches \<Rightarrow> lookup_answer list \<times> lookup_caches" where
  "look_up l e c =
     (case e of
        FindProperty object name \<Rightarrow>
          (case mg_cached_property (property_in l) object (is_struct l) (class_at l) name (g_property_cache c) of
             (found, cache) \<Rightarrow> ([Property found], c\<lparr>g_property_cache := cache\<rparr>))
      | FindFunction object name \<Rightarrow>
          (case mg_cached_function (function_in l) object (class_at l) name (g_function_cache c) of
             (found, cache) \<Rightarrow> ([Function found], c\<lparr>g_function_cache := cache\<rparr>))
      | ObjectProperties cls \<Rightarrow>
          (case mg_object_properties (declared_by l) cls (g_object_property_cache c) of
             (found, cache) \<Rightarrow> ([Properties found], c\<lparr>g_object_property_cache := cache\<rparr>))
      | TornDown \<Rightarrow> ([], drop_lookups c))"

fun cached_run :: "(nat \<Rightarrow> loaded) \<Rightarrow> nat \<Rightarrow> lookup_event list \<Rightarrow> lookup_caches \<Rightarrow> lookup_answer list" where
  "cached_run levels n [] c = []"
| "cached_run levels n (e # es) c =
     (case look_up (levels n) e c of
        (answers, c) \<Rightarrow> answers @ cached_run levels (if e = TornDown then Suc n else n) es c)"

text \<open>The answers without caches: the walk of the class chain, in the level that is loaded.\<close>

fun direct_run :: "(nat \<Rightarrow> loaded) \<Rightarrow> nat \<Rightarrow> lookup_event list \<Rightarrow> lookup_answer list" where
  "direct_run levels n [] = []"
| "direct_run levels n (FindProperty object name # es) =
     Property (case object of None \<Rightarrow> None
       | Some a \<Rightarrow> if is_struct (levels n) a then property_in (levels n) a name
                   else (case class_at (levels n) a of None \<Rightarrow> None | Some cls \<Rightarrow> property_in (levels n) cls name)) # direct_run levels n es"
| "direct_run levels n (FindFunction object name # es) =
     Function (case object of None \<Rightarrow> None
       | Some a \<Rightarrow> (case class_at (levels n) a of None \<Rightarrow> None | Some cls \<Rightarrow> function_in (levels n) cls name)) # direct_run levels n es"
| "direct_run levels n (ObjectProperties cls # es) =
     Properties (case cls of None \<Rightarrow> [] | Some a \<Rightarrow> filter (\<lambda>p. prop_class p = ''ObjectProperty'') (declared_by (levels n) a)) #
       direct_run levels n es"
| "direct_run levels n (TornDown # es) = direct_run levels (Suc n) es"

text \<open>A cache of one function is true when every answer it keeps is the function's.\<close>

definition cache_true :: "(address \<Rightarrow> string \<Rightarrow> 'p option) \<Rightarrow> 'p lookups \<Rightarrow> bool" where
  "cache_true find_in cache \<longleftrightarrow> (\<forall>cls name found. cache (cls, name) = Some found \<longrightarrow> found = find_in cls name)"

definition caches_true :: "loaded \<Rightarrow> lookup_caches \<Rightarrow> bool" where
  "caches_true l c \<longleftrightarrow> cache_true (property_in l) (g_property_cache c) \<and> cache_true (function_in l) (g_function_cache c) \<and>
     (\<forall>cls found. g_object_property_cache c cls = Some found \<longrightarrow> found = filter (\<lambda>p. prop_class p = ''ObjectProperty'') (declared_by l cls))"

lemma cached_lookup_true:
  assumes "cache_true find_in cache"
  shows "fst (cached_lookup find_in owner name cache) = Option.bind owner (\<lambda>cls. find_in cls name) \<and>
    cache_true find_in (snd (cached_lookup find_in owner name cache))"
  using assms by (auto simp: cached_lookup_def cache_true_def split: option.split)

lemma look_up_true:
  assumes "caches_true l c" and "e \<noteq> TornDown"
  shows "caches_true l (snd (look_up l e c))"
  using assms cached_lookup_true [of "property_in l" "g_property_cache c"] cached_lookup_true [of "function_in l" "g_function_cache c"]
  by (cases e)
    (auto simp: look_up_def caches_true_def mg_cached_property_def mg_cached_function_def mg_object_properties_def Let_def
      split_beta split: option.splits)

lemma look_up_answer:
  assumes "caches_true (levels n) c" and "e \<noteq> TornDown"
  shows "direct_run levels n (e # es) = fst (look_up (levels n) e c) @ direct_run levels n es"
  using assms cached_lookup_true [of "property_in (levels n)" "g_property_cache c"]
    cached_lookup_true [of "function_in (levels n)" "g_function_cache c"]
  by (cases e)
    (auto simp: look_up_def caches_true_def mg_cached_property_def mg_cached_function_def mg_object_properties_def Let_def
      property_owner_def function_owner_def split_beta split: option.splits)

lemma cached_run_true: "caches_true (levels n) c \<Longrightarrow> cached_run levels n es c = direct_run levels n es"
proof (induction es arbitrary: n c)
  case (Cons e es)
  show ?case
  proof (cases "e = TornDown")
    case True
    have "caches_true (levels (Suc n)) (drop_lookups c)" by (simp add: caches_true_def cache_true_def drop_lookups_def)
    then show ?thesis by (simp add: True look_up_def Cons.IH)
  next
    case False
    then show ?thesis
      using look_up_true [OF Cons.prems False] look_up_answer [of levels n c e es] Cons.prems False by (simp add: Cons.IH split_beta)
  qed
qed simp

text \<open>
  Property C29. The caches of reflected lookups are invisible. Over any lookups (of a property or a function of an object,
  of the object properties of a class) and any level teardowns in any order, from empty caches, every answer, misses
  included, is the one the walk of the class chain gives in the level that is loaded: a class that a later level loads at
  a freed one's address is looked up afresh. Within a level nothing is loaded or unloaded.
\<close>

theorem caches_invisible: "cached_run levels 0 es no_lookups = direct_run levels 0 es"
  by (rule cached_run_true) (simp add: caches_true_def cache_true_def no_lookups_def)

section \<open>A hit\<close>

text \<open>
  The layout of a hit is not dropped at a teardown: within a level it is what a fresh resolution gives, but a class
  loaded at the address of the one it was resolved on gets the old one's.
\<close>

definition layout_fresh :: "(address \<Rightarrow> reflected) \<Rightarrow> damage_cache \<Rightarrow> bool" where
  "layout_fresh fns c \<longleftrightarrow> (\<forall>cls. layout_class c = Some cls \<longrightarrow> kept_layout c = resolve_try_damage_layout (Some (fns cls)))"

lemma hit_layout_fresh:
  assumes "layout_fresh fns c" and "hit_functions h = fns (hit_class h)" and "hit_by h \<noteq> None"
  shows "layout_fresh fns (snd (call_try_damage floats names (Some h) c))"
    and "kept_layout (snd (call_try_damage floats names (Some h) c)) = resolve_try_damage_layout (Some (hit_functions h))"
  using assms by (auto simp: call_try_damage_def layout_fresh_def Let_def split: option.split)

lemma stale_hit_layout:
  assumes "layout_class c = Some (hit_class h)" and "hit_by h \<noteq> None"
  shows "kept_layout (snd (call_try_damage floats names (Some h) c)) = kept_layout c"
  using assms by (auto simp: call_try_damage_def Let_def split: option.split)

lemma hit_needs_layout:
  assumes "layout_fresh fns c" and "hit_functions h = fns (hit_class h)"
    and "made (fst (call_try_damage floats names (Some h) c))"
  shows "layout_complete (resolve_try_damage_layout (Some (hit_functions h)))"
proof -
  have hitter: "hit_by h \<noteq> None" using assms(3) by (auto simp: call_try_damage_def split: option.splits)
  have "l_ok (kept_layout (snd (call_try_damage floats names (Some h) c)))"
    using assms(3) by (auto simp: call_try_damage_def Let_def split: option.splits if_splits)
  then have "l_ok (resolve_try_damage_layout (Some (hit_functions h)))" using hit_layout_fresh(2) [OF assms(1,2) hitter] by metis
  then show ?thesis
    by (auto simp: resolve_try_damage_layout_def Let_def no_damage_layout_def layout_params_def layout_complete_def split: option.splits)
qed

end
