(* ===== verification/Ghost_Parts.thy ===== *)
theory Ghost_Parts
  imports Frame_Props
begin

text \<open>
  What the mod does to the parts of a ghost, a clone of the player's pawn (\<^verbatim>\<open>Plugin.cpp\<close>): after the spawn it takes from the
  clone what it shares with the player, then every tick it holds the clone's meshes, outline and lights as a ghost's
  should be. The objects are read and written through their reflected properties; a property that does not resolve is
  \<open>None\<close>, a null reference \<open>Some None\<close>. What the engine does in a call is the argument \<open>eng\<close>, given the block it
  was called with (\<open>None\<close> when null).
\<close>

section \<open>Objects\<close>

record objects =
  r_obj :: "address \<Rightarrow> string \<Rightarrow> address option option"
  r_bool :: "address \<Rightarrow> string \<Rightarrow> bool option"
  r_num :: "address \<Rightarrow> string \<Rightarrow> dbl option"
  r_byte :: "address \<Rightarrow> string \<Rightarrow> (8 word) option"
  r_list :: "address \<Rightarrow> string \<Rightarrow> address option list option"
  r_fns :: "address \<Rightarrow> reflected"
  r_class :: "address \<Rightarrow> string option"
  r_name :: "address \<Rightarrow> string"
  r_full :: "address \<Rightarrow> string"
  r_outer :: "address \<Rightarrow> address option"
  r_calls :: "(address \<times> string \<times> frame option) list"

type_synonym engine = "address \<Rightarrow> string \<Rightarrow> frame option \<Rightarrow> objects \<Rightarrow> objects"

definition named_component :: "objects \<Rightarrow> address option \<Rightarrow> string \<Rightarrow> address option" where
  "named_component w owner name = Option.bind owner (\<lambda>a. case r_obj w a name of Some (Some c) \<Rightarrow> Some c | _ \<Rightarrow> None)"

definition set_obj :: "address \<Rightarrow> string \<Rightarrow> address option \<Rightarrow> objects \<Rightarrow> objects" where
  "set_obj a name v w = w\<lparr>r_obj := (\<lambda>b n. if b = a \<and> n = name \<and> r_obj w a name \<noteq> None then Some v else r_obj w b n)\<rparr>"

definition set_bool :: "address \<Rightarrow> string \<Rightarrow> bool \<Rightarrow> objects \<Rightarrow> objects" where
  "set_bool a name v w = w\<lparr>r_bool := (\<lambda>b n. if b = a \<and> n = name \<and> r_bool w a name \<noteq> None then Some v else r_bool w b n)\<rparr>"

definition set_num :: "address \<Rightarrow> string \<Rightarrow> dbl \<Rightarrow> objects \<Rightarrow> objects" where
  "set_num a name v w = w\<lparr>r_num := (\<lambda>b n. if b = a \<and> n = name \<and> r_num w a name \<noteq> None then Some v else r_num w b n)\<rparr>"

definition set_byte :: "address \<Rightarrow> string \<Rightarrow> 8 word \<Rightarrow> objects \<Rightarrow> objects" where
  "set_byte a name v w = w\<lparr>r_byte := (\<lambda>b n. if b = a \<and> n = name \<and> r_byte w a name \<noteq> None then Some v else r_byte w b n)\<rparr>"

text \<open>\<^verbatim>\<open>ProcessEvent\<close>: the call is logged, then the engine runs it.\<close>

definition invoke :: "engine \<Rightarrow> address \<Rightarrow> string \<Rightarrow> attempt \<Rightarrow> objects \<Rightarrow> objects" where
  "invoke eng a name att w =
     (case att of
        Called fr \<Rightarrow> eng a name (Some fr) (w\<lparr>r_calls := (a, name, Some fr) # r_calls w\<rparr>)
      | CalledBare \<Rightarrow> eng a name None (w\<lparr>r_calls := (a, name, None) # r_calls w\<rparr>)
      | _ \<Rightarrow> w)"

abbreviation fns_of :: "objects \<Rightarrow> address \<Rightarrow> reflected option" where
  "fns_of w a \<equiv> Some (r_fns w a)"

definition destroy_actor :: "engine \<Rightarrow> address \<Rightarrow> objects \<Rightarrow> objects" where
  "destroy_actor eng a w = invoke eng a ''K2_DestroyActor'' (call_destroy_actor (fns_of w a)) w"

definition set_visible :: "engine \<Rightarrow> address \<Rightarrow> bool \<Rightarrow> objects \<Rightarrow> objects" where
  "set_visible eng c v w = invoke eng c ''SetVisibility'' (call_set_visibility (fns_of w c) v True) w"

definition set_depth :: "engine \<Rightarrow> address \<Rightarrow> bool \<Rightarrow> objects \<Rightarrow> objects" where
  "set_depth eng c v w = invoke eng c ''SetRenderCustomDepth'' (custom_depth_frame (fns_of w c) v) w"

definition set_light :: "engine \<Rightarrow> address \<Rightarrow> dbl \<Rightarrow> objects \<Rightarrow> objects" where
  "set_light eng c v w = invoke eng c ''SetIntensity'' (call_set_light_intensity (fns_of w c) v) w"

section \<open>The components attached under a root\<close>

definition OUTLINE_SWEEP_MAX_COMPONENTS :: nat where "OUTLINE_SWEEP_MAX_COMPONENTS = 256"

text \<open>The list grows while it is walked, up to the bound: an attachment loop is cut there.\<close>

function attach_walk :: "nat \<Rightarrow> (address \<Rightarrow> address list) \<Rightarrow> nat \<Rightarrow> address list \<Rightarrow> address list" where
  "attach_walk cap kids i owned =
     (if i < length owned \<and> length owned < cap
      then attach_walk cap kids (i + 1) (owned @ take (cap - length owned) (kids (owned ! i)))
      else owned)"
  by pat_completeness auto
termination by (relation "measure (\<lambda>(cap, kids, i, owned). cap - i)") auto

declare attach_walk.simps [simp del]

definition attach_children :: "objects \<Rightarrow> address \<Rightarrow> address list" where
  "attach_children w node = (case r_list w node ''AttachChildren'' of None \<Rightarrow> [] | Some cs \<Rightarrow> List.map_filter id cs)"

text \<open>The lights' walk also enters the root of a child actor.\<close>

definition light_children :: "objects \<Rightarrow> address \<Rightarrow> address list" where
  "light_children w node =
     (case named_component w (named_component w (Some node) ''ChildActor'') ''RootComponent'' of None \<Rightarrow> [] | Some r \<Rightarrow> [r]) @
     attach_children w node"

definition walk_from :: "(address \<Rightarrow> address list) \<Rightarrow> address option \<Rightarrow> address list" where
  "walk_from kids start = (case start of None \<Rightarrow> [] | Some r \<Rightarrow> attach_walk OUTLINE_SWEEP_MAX_COMPONENTS kids 0 [r])"

definition owned_components :: "objects \<Rightarrow> address \<Rightarrow> address list" where
  "owned_components w gh = walk_from (attach_children w) (named_component w (Some gh) ''RootComponent'')"

definition ghost_lights :: "objects \<Rightarrow> address \<Rightarrow> address list" where
  "ghost_lights w gh = walk_from (light_children w) (named_component w (Some gh) ''RootComponent'')"

section \<open>After the spawn\<close>

definition tick_off :: "engine \<Rightarrow> address option \<Rightarrow> objects \<Rightarrow> objects" where
  "tick_off eng component w =
     (case component of
        None \<Rightarrow> w
      | Some c \<Rightarrow> invoke eng c ''SetComponentTickEnabled'' (call_bool_ufunction (fns_of w c) ''SetComponentTickEnabled'' ''bEnabled'' False) w)"

definition tick_off_named :: "engine \<Rightarrow> address option \<Rightarrow> string \<Rightarrow> objects \<Rightarrow> objects" where
  "tick_off_named eng owner name w = tick_off eng (named_component w owner name) w"

definition strip_boom :: "engine \<Rightarrow> address \<Rightarrow> objects \<Rightarrow> objects" where
  "strip_boom eng gh w =
     (case named_component w (Some gh) ''SpringArm1'' of
        None \<Rightarrow> w
      | Some boom \<Rightarrow> let w = tick_off eng (Some boom) w in invoke eng boom ''Deactivate'' (call_named_no_arg (fns_of w boom) ''Deactivate'') w)"

definition strip_controller :: "engine \<Rightarrow> address \<Rightarrow> objects \<Rightarrow> objects" where
  "strip_controller eng gh w =
     (case named_component w (Some gh) ''Controller'' of
        None \<Rightarrow> w
      | Some ctl \<Rightarrow>
          if (case r_class w ctl of None \<Rightarrow> False | Some n \<Rightarrow> contains n ''AIController'')
          then tick_off_named eng (Some ctl) ''ActionsComp''
                 (tick_off_named eng (Some ctl) ''PathFollowingComponent''
                   (invoke eng ctl ''SetActorTickEnabled''
                     (call_bool_ufunction (fns_of w ctl) ''SetActorTickEnabled'' ''bEnabled'' False) w))
          else w)"

definition strip_ghost_no_use_parts :: "engine \<Rightarrow> bool \<Rightarrow> bool \<Rightarrow> address option \<Rightarrow> objects \<Rightarrow> objects" where
  "strip_ghost_no_use_parts eng keeps charmove_off gh w =
     (case gh of
        None \<Rightarrow> w
      | Some g \<Rightarrow>
          if keeps then w
          else let w = strip_boom eng g w;
                   w = tick_off_named eng (Some g) ''DialogueCam'' w;
                   w = tick_off_named eng (Some g) ''CapsuleComponent'' w;
                   w = strip_controller eng g w
               in if charmove_off then tick_off_named eng (Some g) ''CharacterMovement'' w else w)"

definition is_ambient :: "objects \<Rightarrow> address \<Rightarrow> bool" where
  "is_ambient w node \<longleftrightarrow> r_class w node = Some ''NiagaraComponent'' \<and>
     (case named_component w (Some node) ''Asset'' of None \<Rightarrow> False | Some asset \<Rightarrow> contains (r_full w asset) ''NE_Particles_System'')"

definition strip_ambient_node :: "engine \<Rightarrow> address \<Rightarrow> nat \<times> objects \<Rightarrow> nat \<times> objects" where
  "strip_ambient_node eng node fw =
     (case fw of (found, w) \<Rightarrow>
        if \<not> is_ambient w node then (found, w)
        else let w = set_visible eng node False w
             in (found + 1, invoke eng node ''Deactivate'' (call_named_no_arg (fns_of w node) ''Deactivate'') w))"

definition strip_ghost_ambient_particles :: "engine \<Rightarrow> address option \<Rightarrow> objects \<Rightarrow> bool \<times> objects" where
  "strip_ghost_ambient_particles eng gh w =
     (case gh of
        None \<Rightarrow> (False, w)
      | Some g \<Rightarrow> (case fold (strip_ambient_node eng) (owned_components w g) (0, w) of (found, w) \<Rightarrow> (found > 0, w)))"

text \<open>Tried again for two seconds while nothing was found.\<close>

definition strip_ambient_late :: "engine \<Rightarrow> u64 \<Rightarrow> u64 \<Rightarrow> address \<Rightarrow> bool \<times> objects \<Rightarrow> bool \<times> objects" where
  "strip_ambient_late eng tk spawned_at g sw =
     (case sw of (stripped, w) \<Rightarrow>
        if \<not> stripped \<and> tk < spawned_at + 120 then strip_ghost_ambient_particles eng (Some g) w else (stripped, w))"

text \<open>The ghost's vertex light: zeroed, re-initialised with a block of 256 bytes, destroyed.\<close>

definition kill_spawned_light :: "engine \<Rightarrow> bool \<Rightarrow> address \<Rightarrow> objects \<Rightarrow> objects" where
  "kill_spawned_light eng keep_alive gh w =
     (case named_component w (named_component w (Some gh) ''PlayerLight'') ''ChildActor'' of
        None \<Rightarrow> w
      | Some kid \<Rightarrow>
          let w = set_num kid ''Radius'' (Fin 0) (set_num kid ''Intensity'' (Fin 0) w);
              w = invoke eng kid ''InitializePrameters'' (call_fix_lights (fns_of w kid) ''InitializePrameters'') w
          in if keep_alive then w else destroy_actor eng kid w)"

definition face_by_rotation :: "address \<Rightarrow> objects \<Rightarrow> objects" where
  "face_by_rotation gh w =
     (case named_component w (Some gh) ''CharacterMovement'' of None \<Rightarrow> w | Some m \<Rightarrow> set_bool m ''bOrientRotationToMovement'' False w)"

text \<open>The controller is handed back to the local pawn unless it still holds it.\<close>

definition hand_back :: "engine \<Rightarrow> address \<Rightarrow> address \<Rightarrow> objects \<Rightarrow> objects" where
  "hand_back eng ctl local_pawn w =
     (if r_obj w ctl ''Pawn'' = Some (Some local_pawn) then w
      else invoke eng ctl ''Possess''
             (call_ufunction_with_leading_actor_arg (fns_of w ctl) (r_fns w ctl ''Possess'') (Some local_pawn)) w)"

definition HITBOXES :: "string list" where "HITBOXES = [''Hit Component 1'', ''CollisionComponent'']"
definition DAMAGE_FIELDS :: "string list" where "DAMAGE_FIELDS = [''lightAttackDamage'', ''heavyAttackDamage'', ''projectileFullDamage'']"
definition SHARED_REFS :: "string list" where
  "SHARED_REFS = [''As MV Game Instance Ref'', ''UI_HudRef'', ''BP_HpHitable'', ''LastHitBy'']"

definition disable_hitbox :: "engine \<Rightarrow> address \<Rightarrow> string \<Rightarrow> objects \<Rightarrow> objects" where
  "disable_hitbox eng gh name w =
     (case named_component w (Some gh) name of
        None \<Rightarrow> w
      | Some hitbox \<Rightarrow> invoke eng hitbox ''SetCollisionEnabled'' (disable_component_collision (fns_of w hitbox)) w)"

definition remove_hud :: "engine \<Rightarrow> address \<Rightarrow> objects \<Rightarrow> objects" where
  "remove_hud eng gh w =
     (case named_component w (Some gh) ''UI_HudRef'' of
        None \<Rightarrow> w
      | Some hud \<Rightarrow> invoke eng hud ''RemoveFromParent'' (on_function (fns_of w hud) ''RemoveFromParent'' (\<lambda>_. CalledBare)) w)"

text \<open>A reference that is the ghost's own hitable is kept aside.\<close>

definition clear_ref :: "address \<Rightarrow> string \<Rightarrow> address option \<times> objects \<Rightarrow> address option \<times> objects" where
  "clear_ref gh name hw =
     (case hw of (hit_own, w) \<Rightarrow>
        (case r_obj w gh name of
           None \<Rightarrow> (hit_own, w)
         | Some ref \<Rightarrow>
             (case ref of Some h \<Rightarrow> if name = ''BP_HpHitable'' \<and> r_outer w h = Some gh then Some h else hit_own | None \<Rightarrow> hit_own,
              set_obj gh name None w)))"

record spawn_toggles =
  keep_light_alive :: bool
  keep_parts :: bool
  charmove_off :: bool
  skip_hud_decouple :: bool
  skip_ref_decouple :: bool
  keeps_custom_depth :: bool

definition decouple_ghost :: "engine \<Rightarrow> spawn_toggles \<Rightarrow> address \<Rightarrow> objects \<Rightarrow> address option \<times> objects" where
  "decouple_ghost eng t gh w =
     (let w = fold (disable_hitbox eng gh) HITBOXES w;
          w = (if skip_hud_decouple t then w else remove_hud eng gh w);
          w = fold (\<lambda>name. set_num gh name (Fin 0)) DAMAGE_FIELDS w;
          w = set_bool gh ''obtainedProjectile?'' False w
      in fold (clear_ref gh) (if skip_ref_decouple t then [] else SHARED_REFS) (None, w))"

definition BODY_MESHES :: "string list" where "BODY_MESHES = [''Mesh'', ''VisualMesh'', ''WeaponMesh'']"

definition render_off_screen :: "address \<Rightarrow> string \<Rightarrow> objects \<Rightarrow> objects" where
  "render_off_screen gh name w =
     (case named_component w (Some gh) name of None \<Rightarrow> w | Some mesh \<Rightarrow> set_byte mesh ''VisibilityBasedAnimTickOption'' 1 w)"

definition strip_spawned_depth :: "engine \<Rightarrow> address \<Rightarrow> string \<Rightarrow> objects \<Rightarrow> objects" where
  "strip_spawned_depth eng gh name w =
     (case named_component w (Some gh) name of None \<Rightarrow> w | Some mesh \<Rightarrow> set_depth eng mesh False w)"

text \<open>The whole of it: the ghost's own hitable, whether particles were found, and the objects.\<close>

definition prepare_ghost :: "engine \<Rightarrow> spawn_toggles \<Rightarrow> address \<Rightarrow> address \<Rightarrow> address \<Rightarrow> objects \<Rightarrow> address option \<times> bool \<times> objects" where
  "prepare_ghost eng t gh ctl local_pawn w =
     (let w = kill_spawned_light eng (keep_light_alive t) gh w;
          w = hand_back eng ctl local_pawn (face_by_rotation gh w);
          w = strip_ghost_no_use_parts eng (keep_parts t) (charmove_off t) (Some gh) w
      in case decouple_ghost eng t gh w of (hit_own, w) \<Rightarrow>
         (case strip_ghost_ambient_particles eng (Some gh) w of (stripped, w) \<Rightarrow>
            let w = fold (render_off_screen gh) BODY_MESHES w
            in (hit_own, stripped,
                if keeps_custom_depth t then w else fold (strip_spawned_depth eng gh) [''VisualMesh'', ''WeaponMesh''] w)))"

section \<open>Every tick\<close>

text \<open>The local player is kept in the ghost's list of those already hit: its attacks pass the player by.\<close>

definition prehit_player :: "address option \<Rightarrow> address \<Rightarrow> objects \<Rightarrow> objects" where
  "prehit_player lp gh w =
     (case (lp, r_list w gh ''hitActorsArray'') of
        (Some p, Some hit) \<Rightarrow>
          if Some p \<in> set hit then w
          else w\<lparr>r_list := (\<lambda>a n. if a = gh \<and> n = ''hitActorsArray'' then Some (hit @ [Some p]) else r_list w a n)\<rparr>
      | _ \<Rightarrow> w)"

record hold_flags =
  ghost_mesh_hidden :: bool
  ghost_weapon_hidden :: bool
  ghost_lightmesh_hidden :: bool
  ghost_vertexlight_killed :: bool
  ghost_keeps_custom_depth :: bool
  ghost_light_forced_on :: bool

definition mesh_wanted :: "hold_flags \<Rightarrow> bool \<Rightarrow> bool \<Rightarrow> string \<Rightarrow> bool" where
  "mesh_wanted f hand_hidden weapon_equipped name \<longleftrightarrow>
     \<not> ghost_mesh_hidden f \<and> \<not> (ghost_weapon_hidden f \<and> name = ''WeaponMesh'') \<and> \<not> (ghost_lightmesh_hidden f \<and> name = ''LightMesh'') \<and>
     \<not> (hand_hidden \<and> name = ''WeaponMesh'') \<and> \<not> (\<not> weapon_equipped \<and> name = ''WeaponMesh'')"

definition hold_mesh :: "engine \<Rightarrow> hold_flags \<Rightarrow> bool \<Rightarrow> bool \<Rightarrow> address \<Rightarrow> string \<Rightarrow> objects \<Rightarrow> objects" where
  "hold_mesh eng f hand_hidden weapon_equipped gh name w =
     (case named_component w (Some gh) name of
        None \<Rightarrow> w
      | Some mesh \<Rightarrow>
          let want = mesh_wanted f hand_hidden weapon_equipped name
          in if r_bool w mesh ''bVisible'' = Some (\<not> want) then set_visible eng mesh want w else w)"

definition hold_meshes :: "engine \<Rightarrow> hold_flags \<Rightarrow> bool \<Rightarrow> bool \<Rightarrow> address \<Rightarrow> objects \<Rightarrow> objects" where
  "hold_meshes eng f hand_hidden weapon_equipped gh w =
     fold (hold_mesh eng f hand_hidden weapon_equipped gh) [''VisualMesh'', ''WeaponMesh'', ''LightMesh''] w"

definition hold_vertex_light :: "engine \<Rightarrow> hold_flags \<Rightarrow> address \<Rightarrow> objects \<Rightarrow> objects" where
  "hold_vertex_light eng f gh w =
     (if \<not> ghost_vertexlight_killed f then w
      else case named_component w (named_component w (Some gh) ''PlayerLight'') ''ChildActor'' of
             None \<Rightarrow> w
           | Some kid \<Rightarrow> destroy_actor eng kid w)"

definition OUTLINE_SWEEP_INTERVAL_TICKS :: u64 where "OUTLINE_SWEEP_INTERVAL_TICKS = 5"

definition keep_depth :: "engine \<Rightarrow> address \<Rightarrow> string \<Rightarrow> objects \<Rightarrow> objects" where
  "keep_depth eng gh name w =
     (case named_component w (Some gh) name of
        None \<Rightarrow> w
      | Some mesh \<Rightarrow> if r_bool w mesh ''bRenderCustomDepth'' = Some False then set_depth eng mesh True w else w)"

definition depth_off :: "engine \<Rightarrow> address \<Rightarrow> objects \<Rightarrow> objects" where
  "depth_off eng c w = (if r_bool w c ''bRenderCustomDepth'' = Some True then set_depth eng c False w else w)"

text \<open>\<open>names\<close> are the object properties of the owner's class; only a component the owner is an outer of is touched.\<close>

definition depth_off_own :: "engine \<Rightarrow> (address \<Rightarrow> address \<Rightarrow> bool) \<Rightarrow> address \<Rightarrow> string \<Rightarrow> objects \<Rightarrow> objects" where
  "depth_off_own eng is_owned_by owner name w =
     (case named_component w (Some owner) name of
        None \<Rightarrow> w
      | Some c \<Rightarrow> if is_owned_by c owner then depth_off eng c w else w)"

definition hold_outline ::
    "engine \<Rightarrow> hold_flags \<Rightarrow> (address \<Rightarrow> address \<Rightarrow> bool) \<Rightarrow> (address \<Rightarrow> string list) \<Rightarrow> u64 \<Rightarrow> address \<Rightarrow> address option \<Rightarrow> objects \<Rightarrow> objects" where
  "hold_outline eng f is_owned_by names_of tk gh sword_actor w =
     (if ghost_keeps_custom_depth f then fold (keep_depth eng gh) [''VisualMesh'', ''WeaponMesh''] w
      else let w = fold (\<lambda>owner w. fold (depth_off_own eng is_owned_by owner) (names_of owner) w)
                     (gh # (case sword_actor of None \<Rightarrow> [] | Some a \<Rightarrow> [a])) w
           in if tk mod OUTLINE_SWEEP_INTERVAL_TICKS \<noteq> 0 then w
              else fold (depth_off eng) (owned_components w gh) w)"

definition LIGHT_SWEEP_INTERVAL_TICKS :: u64 where "LIGHT_SWEEP_INTERVAL_TICKS = 30"

definition held_target :: "hold_flags \<Rightarrow> dbl" where
  "held_target f = (if ghost_light_forced_on f then Fin 5000 else Fin 0)"

text \<open>Whether the light was ever turned down, how often the game has lit it since, and the objects.\<close>

record light_memory =
  light_zeroed :: bool
  light_relit_count :: u64

definition turn_light :: "engine \<Rightarrow> hold_flags \<Rightarrow> address \<Rightarrow> light_memory \<times> objects \<Rightarrow> light_memory \<times> objects" where
  "turn_light eng f light mw =
     (case mw of (m, w) \<Rightarrow>
        (if \<not> ghost_light_forced_on f \<and> light_zeroed m then m\<lparr>light_relit_count := light_relit_count m + 1\<rparr> else m,
         set_light eng light (held_target f) w))"

definition off_target :: "hold_flags \<Rightarrow> objects \<Rightarrow> address \<Rightarrow> bool" where
  "off_target f w light \<longleftrightarrow> (case r_num w light ''Intensity'' of None \<Rightarrow> False | Some v \<Rightarrow> dbl_ne v (held_target f))"

definition hold_light :: "engine \<Rightarrow> hold_flags \<Rightarrow> address \<Rightarrow> light_memory \<times> objects \<Rightarrow> light_memory \<times> objects" where
  "hold_light eng f light mw =
     (if \<not> off_target f (snd mw) light then mw
      else case turn_light eng f light mw of (m, w) \<Rightarrow> (m\<lparr>light_zeroed := True\<rparr>, w))"

definition hold_lights :: "engine \<Rightarrow> hold_flags \<Rightarrow> address \<Rightarrow> light_memory \<times> objects \<Rightarrow> light_memory \<times> objects" where
  "hold_lights eng f gh mw = fold (hold_light eng f) (ghost_lights (snd mw) gh) mw"

text \<open>
  Every thirty ticks every lit light of the world is looked at: it is the ghost's when its full name, or that of
  one of eight parents, contains the ghost's name.
\<close>

fun named_above :: "nat \<Rightarrow> objects \<Rightarrow> string \<Rightarrow> address \<Rightarrow> bool" where
  "named_above 0 w name node = False"
| "named_above (Suc hops) w name node =
     (case named_component w (Some node) ''AttachParent'' of
        None \<Rightarrow> False
      | Some up \<Rightarrow> contains (r_full w up) name \<or> named_above hops w name up)"

definition light_is_ours :: "objects \<Rightarrow> string \<Rightarrow> address \<Rightarrow> bool" where
  "light_is_ours w name light \<longleftrightarrow> contains (r_full w light) name \<or> named_above 8 w name light"

definition sweep_light :: "engine \<Rightarrow> hold_flags \<Rightarrow> string \<Rightarrow> address \<Rightarrow> light_memory \<times> objects \<Rightarrow> light_memory \<times> objects" where
  "sweep_light eng f name light mw =
     (if \<not> off_target f (snd mw) light \<or> \<not> light_is_ours (snd mw) name light then mw
      else case turn_light eng f light mw of (m, w) \<Rightarrow>
             (if ghost_light_forced_on f then m else m\<lparr>light_zeroed := True\<rparr>, w))"

text \<open>\<open>lit\<close> is this tick's list, gathered at the first ghost.\<close>

definition lit_lights :: "hold_flags \<Rightarrow> objects \<Rightarrow> address option list \<Rightarrow> address option list \<Rightarrow> address list" where
  "lit_lights f w points spots = filter (off_target f w) (List.map_filter id (points @ spots))"

definition sweep_lights :: "engine \<Rightarrow> hold_flags \<Rightarrow> u64 \<Rightarrow> address \<Rightarrow> address list \<Rightarrow> light_memory \<times> objects \<Rightarrow> light_memory \<times> objects" where
  "sweep_lights eng f tk gh lit mw =
     (if tk mod LIGHT_SWEEP_INTERVAL_TICKS \<noteq> 0 then mw else fold (sweep_light eng f (r_name (snd mw) gh)) lit mw)"

section \<open>Cameras\<close>

definition class_looks_like_player :: "string option \<Rightarrow> bool" where
  "class_looks_like_player class_full_name =
     (case class_full_name of None \<Rightarrow> False | Some n \<Rightarrow> contains (map c_tolower n) ''playergoat'')"

text \<open>Who a camera serves: its outer, or for a player rig the rig's owning actor, if it has one.\<close>

definition camera_serves :: "objects \<Rightarrow> (address \<Rightarrow> string option) \<Rightarrow> address \<Rightarrow> address option option" where
  "camera_serves w class_full rig =
     (if (case r_class w rig of None \<Rightarrow> False | Some n \<Rightarrow> contains n ''BP_PlayerCam_C'') then Some (named_component w (Some rig) ''OwningActor'')
      else if class_looks_like_player (class_full rig) then Some (Some rig)
      else None)"

definition neutralise_camera :: "(address \<Rightarrow> string option) \<Rightarrow> address option \<Rightarrow> address option \<Rightarrow> objects \<Rightarrow> objects" where
  "neutralise_camera class_full lp camera w =
     (case camera of
        None \<Rightarrow> w
      | Some c \<Rightarrow>
          (case (r_num w c ''PostProcessBlendWeight'', r_outer w c) of
             (Some v, Some rig) \<Rightarrow>
               (case camera_serves w class_full rig of
                  None \<Rightarrow> w
                | Some serves \<Rightarrow>
                    if \<not> dbl_ne v (Fin 0) \<or> serves = lp then w else set_num c ''PostProcessBlendWeight'' (Fin 0) w)
           | _ \<Rightarrow> w))"

definition CAMERA_RIG_SWEEP_TICKS :: u64 where "CAMERA_RIG_SWEEP_TICKS = 30"

definition neutralise_cameras :: "(address \<Rightarrow> string option) \<Rightarrow> address option \<Rightarrow> u64 \<Rightarrow> address option list \<Rightarrow> objects \<Rightarrow> objects" where
  "neutralise_cameras class_full lp tk cameras w =
     (if tk mod CAMERA_RIG_SWEEP_TICKS \<noteq> 0 then w else fold (neutralise_camera class_full lp) cameras w)"

section \<open>The repair of the lights\<close>

text \<open>A spawn asks for one; it is run at most every thirty ticks, and counts the spawns it serves.\<close>

definition FIX_LIGHTS_SPACING_TICKS :: u64 where "FIX_LIGHTS_SPACING_TICKS = 30"

record light_repair =
  fix_lights_due :: bool
  fix_lights_spawns_pending :: int
  fix_lights_last_tick :: u64

definition request_repair :: "light_repair \<Rightarrow> light_repair" where
  "request_repair r = r\<lparr>fix_lights_due := True, fix_lights_spawns_pending := fix_lights_spawns_pending r + 1\<rparr>"

definition serve_repair :: "bool \<Rightarrow> u64 \<Rightarrow> light_repair \<Rightarrow> bool \<times> light_repair" where
  "serve_repair fixlights_on tk r =
     (if fix_lights_due r \<and> FIX_LIGHTS_SPACING_TICKS \<le> tk - fix_lights_last_tick r
      then (fixlights_on, \<lparr>fix_lights_due = False, fix_lights_spawns_pending = 0, fix_lights_last_tick = tk\<rparr>)
      else (False, r))"

end
