(* ===== verification/Ghost_Part_Props.thy ===== *)
theory Ghost_Part_Props
  imports Ghost_Parts
begin

text \<open>
  What the work on a ghost's parts promises: the walk lists what is attached, up to its bound; the lights found are held; a
  decoupled clone shares nothing with the player; only the local player's camera blends.
\<close>

section \<open>The walk\<close>

definition attached :: "(address \<Rightarrow> address list) \<Rightarrow> (address \<times> address) set" where
  "attached kids = {(a, b). b \<in> set (kids a)}"

text \<open>What the walk keeps: only attached components, and of those already passed, all the children unless it is full.\<close>

definition walk_inv :: "nat \<Rightarrow> (address \<Rightarrow> address list) \<Rightarrow> address \<Rightarrow> nat \<Rightarrow> address list \<Rightarrow> bool" where
  "walk_inv cap kids r i owned \<longleftrightarrow> r \<in> set owned \<and> length owned \<le> cap \<and> set owned \<subseteq> (attached kids)\<^sup>* `` {r} \<and>
     (length owned < cap \<longrightarrow> (\<forall>j<i. j < length owned \<longrightarrow> set (kids (owned ! j)) \<subseteq> set owned))"

lemma walk_inv_step:
  assumes "walk_inv cap kids r i owned" and "i < length owned" and "length owned < cap"
  shows "walk_inv cap kids r (i + 1) (owned @ take (cap - length owned) (kids (owned ! i)))" (is "walk_inv _ _ _ _ ?new")
proof -
  let ?added = "take (cap - length owned) (kids (owned ! i))"
  have node: "(r, owned ! i) \<in> (attached kids)\<^sup>*"
    using assms(1,2) nth_mem [OF assms(2)] unfolding walk_inv_def by blast
  have "x \<in> (attached kids)\<^sup>* `` {r}" if "x \<in> set ?added" for x
  proof -
    have "(owned ! i, x) \<in> attached kids" using set_take_subset [of _ "kids (owned ! i)"] that by (auto simp: attached_def)
    with node show ?thesis by (auto intro: rtrancl_into_rtrancl)
  qed
  then have sub: "set ?new \<subseteq> (attached kids)\<^sup>* `` {r}" using assms(1) unfolding walk_inv_def by auto
  have closed: "set (kids (?new ! j)) \<subseteq> set ?new" if room: "length ?new < cap" and "j < i + 1" for j
  proof (cases "j = i")
    case True
    have "?added = kids (owned ! i)" using room assms(3) by simp
    then show ?thesis using assms(2) True by (simp add: nth_append)
  next
    case False
    then have "set (kids (owned ! j)) \<subseteq> set owned" using assms that unfolding walk_inv_def by auto
    then show ?thesis using assms(2) that False by (auto simp: nth_append)
  qed
  moreover have "r \<in> set ?new" and "length ?new \<le> cap" using assms unfolding walk_inv_def by auto
  ultimately show ?thesis using sub unfolding walk_inv_def by blast
qed

lemma attach_walk_inv: "walk_inv cap kids r i owned \<Longrightarrow> walk_inv cap kids r (length (attach_walk cap kids i owned)) (attach_walk cap kids i owned)"
proof (induction cap kids i owned rule: attach_walk.induct)
  case (1 cap kids i owned)
  show ?case
  proof (cases "i < length owned \<and> length owned < cap")
    case True
    then show ?thesis using 1(1) [OF True walk_inv_step] 1(2) by (simp add: attach_walk.simps [of cap kids i owned])
  next
    case False
    have "set (kids (owned ! j)) \<subseteq> set owned" if "length owned < cap" and "j < length owned" for j
    proof -
      have "j < i" using False that by simp
      then show ?thesis using 1(2) that unfolding walk_inv_def by blast
    qed
    moreover have "attach_walk cap kids i owned = owned" using False by (subst attach_walk.simps) auto
    ultimately show ?thesis using 1(2) by (simp add: walk_inv_def)
  qed
qed

lemma closed_reach:
  assumes "r \<in> S" and "\<And>x. x \<in> S \<Longrightarrow> set (kids x) \<subseteq> S"
  shows "(attached kids)\<^sup>* `` {r} \<subseteq> S"
proof -
  have "(r, x) \<in> (attached kids)\<^sup>* \<Longrightarrow> x \<in> S" for x
    by (induction rule: rtrancl_induct) (use assms in \<open>auto simp: attached_def\<close>)
  then show ?thesis by blast
qed

lemma attach_walk_lists:
  assumes "1 \<le> cap"
  shows "length (attach_walk cap kids 0 [r]) \<le> cap \<and> set (attach_walk cap kids 0 [r]) \<subseteq> (attached kids)\<^sup>* `` {r} \<and>
    (length (attach_walk cap kids 0 [r]) < cap \<longrightarrow> set (attach_walk cap kids 0 [r]) = (attached kids)\<^sup>* `` {r})"
proof -
  let ?l = "attach_walk cap kids 0 [r]"
  have inv: "walk_inv cap kids r (length ?l) ?l"
    by (rule attach_walk_inv) (use assms in \<open>auto simp: walk_inv_def\<close>)
  have "(attached kids)\<^sup>* `` {r} \<subseteq> set ?l" if "length ?l < cap"
    by (rule closed_reach) (use inv that in \<open>auto simp: walk_inv_def in_set_conv_nth\<close>)
  then show ?thesis using inv unfolding walk_inv_def by blast
qed

text \<open>
  Property C32. The walks find what is attached. The components a sweep visits are those attached, at any depth, under the
  ghost's root component, and for the lights also those of its child actors; when they are fewer than 256 they are all
  there. The walk ends after at most 256, loops in the attachments included.
\<close>

theorem walks_find_attached:
  assumes "named_component w (Some ghost_actor) ''RootComponent'' = Some r"
  shows "length (owned_components w ghost_actor) \<le> 256 \<and> set (owned_components w ghost_actor) \<subseteq> (attached (attach_children w))\<^sup>* `` {r} \<and>
    (length (owned_components w ghost_actor) < 256 \<longrightarrow> set (owned_components w ghost_actor) = (attached (attach_children w))\<^sup>* `` {r}) \<and>
    length (ghost_lights w ghost_actor) \<le> 256 \<and> set (ghost_lights w ghost_actor) \<subseteq> (attached (light_children w))\<^sup>* `` {r} \<and>
    (length (ghost_lights w ghost_actor) < 256 \<longrightarrow> set (ghost_lights w ghost_actor) = (attached (light_children w))\<^sup>* `` {r})"
  using attach_walk_lists [of 256 "attach_children w" r] attach_walk_lists [of 256 "light_children w" r]
  by (simp add: owned_components_def ghost_lights_def walk_from_def assms OUTLINE_SWEEP_MAX_COMPONENTS_def)

section \<open>Objects\<close>

lemma set_num_simps [simp]:
  "r_num (set_num a name v w) b n = (if b = a \<and> n = name \<and> r_num w a name \<noteq> None then Some v else r_num w b n)"
  "r_obj (set_num a name v w) = r_obj w" "r_bool (set_num a name v w) = r_bool w" "r_outer (set_num a name v w) = r_outer w"
  "r_class (set_num a name v w) = r_class w" "r_fns (set_num a name v w) = r_fns w" "r_calls (set_num a name v w) = r_calls w"
  by (simp_all add: set_num_def)

lemma set_obj_simps [simp]:
  "r_obj (set_obj a name v w) b n = (if b = a \<and> n = name \<and> r_obj w a name \<noteq> None then Some v else r_obj w b n)"
  "r_num (set_obj a name v w) = r_num w" "r_bool (set_obj a name v w) = r_bool w" "r_outer (set_obj a name v w) = r_outer w"
  "r_calls (set_obj a name v w) = r_calls w"
  by (simp_all add: set_obj_def)

lemma set_bool_simps [simp]:
  "r_bool (set_bool a name v w) b n = (if b = a \<and> n = name \<and> r_bool w a name \<noteq> None then Some v else r_bool w b n)"
  "r_num (set_bool a name v w) = r_num w" "r_obj (set_bool a name v w) = r_obj w" "r_calls (set_bool a name v w) = r_calls w"
  "r_outer (set_bool a name v w) = r_outer w"
  by (simp_all add: set_bool_def)

section \<open>The decoupled clone\<close>

lemma clear_ref_result:
  "r_obj (snd (clear_ref g name hw)) a n = (if a = g \<and> n = name \<and> r_obj (snd hw) g name \<noteq> None then Some None else r_obj (snd hw) a n)"
  "r_num (snd (clear_ref g name hw)) = r_num (snd hw)" "r_bool (snd (clear_ref g name hw)) = r_bool (snd hw)"
  by (cases hw; simp add: clear_ref_def split: option.split)+

lemma clear_refs_result:
  "r_obj (snd (fold (clear_ref g) names hw)) a n =
     (if a = g \<and> n \<in> set names \<and> r_obj (snd hw) g n \<noteq> None then Some None else r_obj (snd hw) a n)"
  "r_num (snd (fold (clear_ref g) names hw)) = r_num (snd hw)" "r_bool (snd (fold (clear_ref g) names hw)) = r_bool (snd hw)"
  by (induction names arbitrary: hw) (auto simp: clear_ref_result split: if_splits)

lemma zero_fields_result:
  "r_num (fold (\<lambda>name. set_num g name v) names w) a n =
     (if a = g \<and> n \<in> set names \<and> r_num w g n \<noteq> None then Some v else r_num w a n)"
  "r_bool (fold (\<lambda>name. set_num g name v) names w) = r_bool w" "r_obj (fold (\<lambda>name. set_num g name v) names w) = r_obj w"
  by (induction names arbitrary: w) auto

text \<open>The references the clone shared are null or were not there, its damage fields zero or not there.\<close>

lemma decoupled_clone:
  assumes "\<not> skip_ref_decouple t"
  shows "let w' = snd (decouple_ghost eng t g w) in
    (\<forall>name\<in>set SHARED_REFS. r_obj w' g name \<in> {None, Some None}) \<and>
    (\<forall>name\<in>set DAMAGE_FIELDS. r_num w' g name \<in> {None, Some (Fin 0)}) \<and>
    r_bool w' g ''obtainedProjectile?'' \<in> {None, Some False}"
  using assms by (simp add: Let_def decouple_ghost_def clear_refs_result zero_fields_result)

definition bare_objects :: objects where
  "bare_objects = \<lparr>r_obj = (\<lambda>a n. if n = ''LastHitBy'' then Some (Some 4) else None), r_bool = (\<lambda>a n. None),
     r_num = (\<lambda>a n. if n = ''lightAttackDamage'' then Some (Fin 12) else None), r_byte = (\<lambda>a n. None), r_list = (\<lambda>a n. None),
     r_fns = (\<lambda>a n. None), r_class = (\<lambda>a. None), r_name = (\<lambda>a. []), r_full = (\<lambda>a. []), r_outer = (\<lambda>a. None), r_calls = []\<rparr>"

text \<open>Its own hitable is only ever one it is the outer of.\<close>

lemma own_hitable_own:
  assumes "fst (decouple_ghost eng t g w) = Some h"
  shows "r_outer (snd (decouple_ghost eng t g w)) h = Some g"
proof -
  have "\<forall>h. fst (fold (clear_ref g) names hw) = Some h \<longrightarrow> r_outer (snd (fold (clear_ref g) names hw)) h = Some g"
    if "\<forall>h. fst hw = Some h \<longrightarrow> r_outer (snd hw) h = Some g" for names hw
    using that
  proof (induction names arbitrary: hw)
    case (Cons n names)
    have "\<forall>h. fst (clear_ref g n hw) = Some h \<longrightarrow> r_outer (snd (clear_ref g n hw)) h = Some g"
      using Cons.prems by (cases hw) (auto simp: clear_ref_def split: option.splits if_splits)
    then show ?case using Cons.IH by simp
  qed simp
  then show ?thesis using assms by (simp add: decouple_ghost_def Let_def)
qed

section \<open>The lights\<close>

text \<open>
  What the engine does in \<^verbatim>\<open>SetIntensity\<close>: it reads its argument where the function's own first parameter lies in the block,
  and the light's intensity becomes that.
\<close>

definition sets_intensity :: "engine \<Rightarrow> bool" where
  "sets_intensity eng \<longleftrightarrow>
     (\<forall>c w f p ps fr v. r_fns w c ''SetIntensity'' = Some f \<longrightarrow> parms f = p # ps \<longrightarrow> frame_size fr = parms_size f \<longrightarrow>
        stored fr (prop_offset p) = Some (VFloat v) \<longrightarrow> eng c ''SetIntensity'' (Some fr) w = set_num c ''Intensity'' v w)"

lemma light_call_cases:
  "\<not> made (call_set_light_intensity (fns_of w c) v) \<and> invoke eng c name (call_set_light_intensity (fns_of w c) v) w = w \<or>
   (\<exists>f p ps. r_fns w c ''SetIntensity'' = Some f \<and> parms f = p # ps \<and>
      call_set_light_intensity (fns_of w c) v = Called (poke (prop_offset p) (VFloat v) (zeroed (parms_size f))))"
  by (auto simp: call_set_light_intensity_def on_function_def invoke_def split: option.split list.split)

lemma set_light_result:
  assumes "sets_intensity eng"
  shows "r_num (set_light eng c v w) a n =
      (if made (call_set_light_intensity (fns_of w c) v) \<and> a = c \<and> n = ''Intensity'' \<and> r_num w c ''Intensity'' \<noteq> None then Some v else r_num w a n)"
    and "r_fns (set_light eng c v w) = r_fns w"
proof -
  have "set_light eng c v w =
      (if made (call_set_light_intensity (fns_of w c) v)
       then set_num c ''Intensity'' v (w\<lparr>r_calls := r_calls (set_light eng c v w)\<rparr>) else w)"
    using light_call_cases [of w c v eng "''SetIntensity''"]
  proof
    assume "\<exists>f p ps. r_fns w c ''SetIntensity'' = Some f \<and> parms f = p # ps \<and>
      call_set_light_intensity (fns_of w c) v = Called (poke (prop_offset p) (VFloat v) (zeroed (parms_size f)))"
    then obtain f p ps where f: "r_fns w c ''SetIntensity'' = Some f" "parms f = p # ps"
      and call: "call_set_light_intensity (fns_of w c) v = Called (poke (prop_offset p) (VFloat v) (zeroed (parms_size f)))" by blast
    let ?fr = "poke (prop_offset p) (VFloat v) (zeroed (parms_size f))"
    let ?w = "w\<lparr>r_calls := (c, ''SetIntensity'', Some ?fr) # r_calls w\<rparr>"
    have "eng c ''SetIntensity'' (Some ?fr) ?w = set_num c ''Intensity'' v ?w"
      using assms f unfolding sets_intensity_def by simp
    then show ?thesis by (simp add: set_light_def invoke_def call)
  qed (simp add: set_light_def)
  then have eq: "set_light eng c v w =
      (if made (call_set_light_intensity (fns_of w c) v)
       then set_num c ''Intensity'' v (w\<lparr>r_calls := r_calls (set_light eng c v w)\<rparr>) else w)" .
  show "r_num (set_light eng c v w) a n =
      (if made (call_set_light_intensity (fns_of w c) v) \<and> a = c \<and> n = ''Intensity'' \<and> r_num w c ''Intensity'' \<noteq> None then Some v else r_num w a n)"
    by (subst eq) simp
  show "r_fns (set_light eng c v w) = r_fns w" by (subst eq) simp
qed

lemma hold_light_result:
  assumes "sets_intensity eng"
  shows "r_fns (snd (hold_light eng f c mw)) = r_fns (snd mw)"
    and "r_num (snd (hold_light eng f c mw)) a n =
      (if off_target f (snd mw) c \<and> made (call_set_light_intensity (fns_of (snd mw) c) (held_target f)) \<and> a = c \<and> n = ''Intensity''
       then Some (held_target f) else r_num (snd mw) a n)"
  by (cases mw; auto simp: hold_light_def turn_light_def set_light_result [OF assms] off_target_def split: option.splits)+

lemma on_target [simp]: "\<not> dbl_ne (held_target f) (held_target f)"
  by (simp add: dbl_ne_def held_target_def)

lemma off_target_after:
  assumes "sets_intensity eng"
  shows "off_target f (snd (hold_light eng f c mw)) a \<longleftrightarrow>
    off_target f (snd mw) a \<and> \<not> (a = c \<and> made (call_set_light_intensity (fns_of (snd mw) a) (held_target f)))"
  by (auto simp: off_target_def hold_light_result(2) [OF assms] split: option.splits)

lemma hold_all_result:
  assumes "sets_intensity eng"
  shows "r_fns (snd (fold (hold_light eng f) cs mw)) = r_fns (snd mw) \<and>
    (off_target f (snd (fold (hold_light eng f) cs mw)) a \<longleftrightarrow>
      off_target f (snd mw) a \<and> \<not> (a \<in> set cs \<and> made (call_set_light_intensity (fns_of (snd mw) a) (held_target f)))) \<and>
    (a \<notin> set cs \<or> n \<noteq> ''Intensity'' \<longrightarrow> r_num (snd (fold (hold_light eng f) cs mw)) a n = r_num (snd mw) a n)"
proof (induction cs arbitrary: mw)
  case (Cons c cs)
  show ?case
    using Cons.IH [of "hold_light eng f c mw"] by (auto simp: hold_light_result [OF assms] off_target_after [OF assms])
qed simp

text \<open>
  Property C30. A ghost's lights are held. After the hold pass of a tick over a ghost with fewer than 256 components attached
  under its root, every one of them that has an intensity and a setter the code can call is at the held value (zero, or the
  toggle's), whatever the game had lit it to; the pass changes no number of any other object. The setter is one that
  reads its argument at its own parameter's place in the block. The world sweep, which also takes lights by name, is apart.
\<close>

theorem ghost_lights_held:
  assumes "sets_intensity eng" and "named_component w (Some g) ''RootComponent'' = Some r"
    and "length (ghost_lights w g) < 256"
  shows "let w' = snd (hold_lights eng f g (m, w)) in
    (\<forall>c. (r, c) \<in> (attached (light_children w))\<^sup>* \<longrightarrow> made (call_set_light_intensity (fns_of w c) (held_target f)) \<longrightarrow> \<not> off_target f w' c) \<and>
    (\<forall>c. (r, c) \<notin> (attached (light_children w))\<^sup>* \<longrightarrow> r_num w' c = r_num w c)"
proof -
  have found: "set (ghost_lights w g) = (attached (light_children w))\<^sup>* `` {r}"
    using attach_walk_lists [of 256 "light_children w" r] assms(3)
    by (simp add: ghost_lights_def walk_from_def assms(2) OUTLINE_SWEEP_MAX_COMPONENTS_def)
  show ?thesis
    using hold_all_result [OF assms(1), of f "ghost_lights w g" "(m, w)"]
    by (auto simp: hold_lights_def Let_def found Image_singleton_iff)
qed

text \<open>The world sweep matches names by substring: a pawn whose name goes on where the ghost's ends has its lights taken too.\<close>

lemma longer_name_taken:
  assumes "r_full w light = before @ r_name w other @ after" and "r_name w other = r_name w g @ rest"
  shows "light_is_ours w (r_name w g) light"
proof -
  have "str_find (r_full w light) (r_name w g) 0 \<noteq> None"
  proof
    assume none: "str_find (r_full w light) (r_name w g) 0 = None"
    then have "\<forall>k\<le>length (r_full w light). \<not> prefix (r_name w g) (drop k (r_full w light))"
      by (auto simp: str_find_def find_from_None)
    moreover have "length before \<le> length (r_full w light)" by (simp add: assms(1))
    ultimately have "\<not> prefix (r_name w g) (drop (length before) (r_full w light))" by blast
    then show False by (simp add: assms prefix_def)
  qed
  then show ?thesis by (simp add: light_is_ours_def contains_def)
qed

section \<open>The cameras\<close>

lemma neutralise_result:
  "r_obj (neutralise_camera cf lp c w) = r_obj w" "r_outer (neutralise_camera cf lp c w) = r_outer w" "r_class (neutralise_camera cf lp c w) = r_class w"
  "r_num (neutralise_camera cf lp c w) a n =
     (case (c, r_num w a n, r_outer w a) of
        (Some b, Some v, Some rig) \<Rightarrow>
          if b = a \<and> n = ''PostProcessBlendWeight'' \<and> camera_serves w cf rig \<noteq> None \<and> camera_serves w cf rig \<noteq> Some lp \<and> dbl_ne v (Fin 0)
          then Some (Fin 0) else Some v
      | (_, x, _) \<Rightarrow> x)"
  by (auto simp: neutralise_camera_def split: option.splits)

lemma serves_cong: "r_obj w' = r_obj w \<Longrightarrow> r_class w' = r_class w \<Longrightarrow> camera_serves w' cf rig = camera_serves w cf rig"
  by (simp add: camera_serves_def named_component_def)

definition blend_after :: "objects \<Rightarrow> (address \<Rightarrow> string option) \<Rightarrow> address option \<Rightarrow> address option list \<Rightarrow> address \<Rightarrow> dbl option" where
  "blend_after w cf lp cams c =
     (case (r_num w c ''PostProcessBlendWeight'', r_outer w c) of
        (Some v, Some rig) \<Rightarrow>
          if Some c \<in> set cams \<and> camera_serves w cf rig \<noteq> None \<and> camera_serves w cf rig \<noteq> Some lp \<and> dbl_ne v (Fin 0) then Some (Fin 0) else Some v
      | (x, _) \<Rightarrow> x)"

lemma neutralise_all_result:
  "r_num (fold (neutralise_camera cf lp) cams w) c ''PostProcessBlendWeight'' = blend_after w cf lp cams c"
proof (induction cams arbitrary: w)
  case (Cons x cams)
  have "camera_serves (neutralise_camera cf lp x w) cf rig = camera_serves w cf rig" for rig
    by (rule serves_cong) (simp_all add: neutralise_result)
  then show ?case
    by (cases "r_num w c ''PostProcessBlendWeight''"; cases "r_outer w c"; cases x)
      (auto simp: Cons.IH blend_after_def neutralise_result dbl_ne_def)
qed (simp add: blend_after_def split: option.split)

text \<open>
  Property C31. Only the local player's camera blends. After a due sweep a camera it lists whose rig is a player rig or a
  player's character, and does not serve the local pawn (an orphaned rig serves nobody), has no post-process weight;
  the cameras that serve the local pawn, and those of anything else, keep theirs.
\<close>

theorem only_players_camera_blends:
  assumes "tk mod CAMERA_RIG_SWEEP_TICKS = 0" and "r_outer w c = Some rig"
  shows "let w' = neutralise_cameras cf lp tk cams w; weight = (\<lambda>w. r_num w c ''PostProcessBlendWeight'') in
    (Some c \<in> set cams \<and> camera_serves w cf rig \<noteq> None \<and> camera_serves w cf rig \<noteq> Some lp \<longrightarrow> weight w' \<in> {None, Some (Fin 0)}) \<and>
    (camera_serves w cf rig = None \<or> camera_serves w cf rig = Some lp \<longrightarrow> weight w' = weight w)"
  using assms
  by (auto simp: Let_def neutralise_cameras_def neutralise_all_result blend_after_def dbl_ne_def split: option.splits)

section \<open>The hit list and the repair\<close>

lemma prehit_listed:
  assumes "r_list w g ''hitActorsArray'' = Some hit"
  shows "\<exists>hit'. r_list (prehit_player (Some p) g w) g ''hitActorsArray'' = Some hit' \<and> Some p \<in> set hit' \<and> set hit \<subseteq> set hit'"
    and "prehit_player (Some p) g (prehit_player (Some p) g w) = prehit_player (Some p) g w"
  using assms by (auto simp: prehit_player_def)

lemma repairs_spaced:
  assumes "serve_repair on t1 r = (ran1, r1)" and "fix_lights_last_tick r1 = t1" and "t2 - t1 < FIX_LIGHTS_SPACING_TICKS"
  shows "serve_repair on t2 (request_repair r1) = (False, request_repair r1)"
  using assms by (auto simp: serve_repair_def request_repair_def)

section \<open>Concrete inputs\<close>

text \<open>A ghost 7 with a lit root 1, and a camera 2 in a rig 3 that serves nobody.\<close>

definition lit_ghost :: objects where
  "lit_ghost = bare_objects\<lparr>r_obj := (\<lambda>a n. if a = 7 \<and> n = ''RootComponent'' then Some (Some 1) else if a = 3 \<and> n = ''OwningActor'' then Some None else None),
     r_num := (\<lambda>a n. if a = 1 \<and> n = ''Intensity'' then Some (Fin 40) else if a = 2 \<and> n = ''PostProcessBlendWeight'' then Some (Fin 1) else None),
     r_fns := (\<lambda>a n. if n = ''SetIntensity'' then Some \<lparr>parms_size = 4, parms = [Prop ''NewIntensity'' ''FloatProperty'' 0 4 None]\<rparr> else None),
     r_outer := (\<lambda>a. if a = 2 then Some 3 else None), r_class := (\<lambda>a. if a = 3 then Some ''BP_PlayerCam_C'' else None)\<rparr>"

definition plain_engine :: engine where
  "plain_engine c name fr w =
     (case (r_fns w c name, fr) of
        (Some f, Some fr) \<Rightarrow>
          (case parms f of
             [] \<Rightarrow> w
           | p # _ \<Rightarrow>
               (case stored fr (prop_offset p) of
                  Some (VFloat v) \<Rightarrow> if name = ''SetIntensity'' then set_num c ''Intensity'' v w else w
                | _ \<Rightarrow> w))
      | _ \<Rightarrow> w)"

definition shipped_flags :: hold_flags where
  "shipped_flags = \<lparr>ghost_mesh_hidden = False, ghost_weapon_hidden = False, ghost_lightmesh_hidden = True, ghost_vertexlight_killed = True,
     ghost_keeps_custom_depth = False, ghost_light_forced_on = False\<rparr>"

lemma lit_ghost_root: "named_component lit_ghost (Some 7) ''RootComponent'' = Some 1"
  by (simp add: named_component_def lit_ghost_def)

lemma lit_ghost_lights: "ghost_lights lit_ghost 7 = [1]"
proof -
  have "light_children lit_ghost 1 = []"
    by (simp add: light_children_def attach_children_def named_component_def lit_ghost_def bare_objects_def)
  then show ?thesis
    by (simp add: ghost_lights_def walk_from_def lit_ghost_root OUTLINE_SWEEP_MAX_COMPONENTS_def attach_walk.simps)
qed

theorem walks_find_attached_witness:
  "set (ghost_lights lit_ghost 7) = (attached (light_children lit_ghost))\<^sup>* `` {1} \<and> ghost_lights lit_ghost 7 = [1]"
  using walks_find_attached [OF lit_ghost_root] by (simp add: lit_ghost_lights)

theorem ghost_lights_held_witness:
  "r_num lit_ghost 1 ''Intensity'' = Some (Fin 40) \<and>
   \<not> off_target shipped_flags (snd (hold_lights plain_engine shipped_flags 7 (\<lparr>light_zeroed = False, light_relit_count = 0\<rparr>, lit_ghost))) 1"
proof -
  have eng: "sets_intensity plain_engine" by (simp add: sets_intensity_def plain_engine_def)
  have call: "made (call_set_light_intensity (fns_of lit_ghost 1) v)" for v
    by (simp add: call_set_light_intensity_def on_function_def lit_ghost_def ends_within_small)
  show ?thesis
    using ghost_lights_held [OF eng lit_ghost_root, of shipped_flags] call
    by (simp add: lit_ghost_lights Let_def) (simp add: lit_ghost_def)
qed

theorem only_players_camera_blends_witness:
  "r_num (neutralise_cameras (\<lambda>_. None) (Some 5) 60 [None, Some 2] lit_ghost) 2 ''PostProcessBlendWeight'' \<in> {None, Some (Fin 0)}"
proof -
  have "camera_serves lit_ghost (\<lambda>_. None) 3 = Some None"
    by (simp add: camera_serves_def named_component_def lit_ghost_def contains_def str_find_def find_from.simps)
  moreover have "r_outer lit_ghost 2 = Some 3" by (simp add: lit_ghost_def)
  ultimately show ?thesis
    using only_players_camera_blends [of 60 lit_ghost 2 3 "\<lambda>_. None" "Some 5" "[None, Some 2]"]
    by (simp add: CAMERA_RIG_SWEEP_TICKS_def Let_def)
qed

end
