(* ===== verification/Widgets.thy ===== *)
theory Widgets
  imports Frame_Layouts Input_Panel
begin

text \<open>
  The screen-space recording indicator and the input history's panels (\<^verbatim>\<open>Plugin.cpp\<close>: \<^verbatim>\<open>OwnedObjectHandle\<close>, the
  \<^verbatim>\<open>hud_*\<close> helpers, \<^verbatim>\<open>tick_hud_indicator\<close>, \<^verbatim>\<open>input_display_tick\<close>). What a tick reads of the engine is a \<open>hud_view\<close>;
  what it does is a list of actions, in order. The world-space indicator is compiled out (\<^verbatim>\<open>REC_INDICATOR_SCREEN_SPACE\<close>).
\<close>

section \<open>A handle to an object the mod built\<close>

record slot_item =
  slot_object :: "address option"
  slot_unreachable :: bool
  slot_valid :: bool

record object_array =
  item_at :: "int \<Rightarrow> slot_item option"
  internal_index :: "address \<Rightarrow> int"
  name_index :: "address \<Rightarrow> nat"

record owned_handle =
  own_ptr :: "address option"
  own_index :: int
  own_name :: nat

definition no_handle :: owned_handle where
  "no_handle = \<lparr>own_ptr = None, own_index = - 1, own_name = 0\<rparr>"

definition handle_set :: "object_array \<Rightarrow> address option \<Rightarrow> owned_handle" where
  "handle_set arr a =
     \<lparr>own_ptr = a, own_index = (case a of None \<Rightarrow> - 1 | Some x \<Rightarrow> internal_index arr x),
      own_name = (case a of None \<Rightarrow> 0 | Some x \<Rightarrow> name_index arr x)\<rparr>"

definition handle_clear :: "owned_handle \<Rightarrow> owned_handle" where
  "handle_clear own = own\<lparr>own_ptr := None, own_index := - 1\<rparr>"

definition handle_get :: "object_array \<Rightarrow> owned_handle \<Rightarrow> address option" where
  "handle_get arr own =
     (case own_ptr own of
        None \<Rightarrow> None
      | Some a \<Rightarrow>
          if own_index own < 0 then None
          else (case item_at arr (own_index own) of
                  None \<Rightarrow> None
                | Some it \<Rightarrow>
                    if slot_object it \<noteq> Some a \<or> slot_unreachable it \<or> \<not> slot_valid it then None
                    else if name_index arr a \<noteq> own_name own then None else Some a))"

section \<open>Filling a widget call\<close>

text \<open>A number into a field of the type the layout gives; the integer conversions are of the small constants the code passes.\<close>

definition field_value :: "string \<Rightarrow> dbl \<Rightarrow> fvalue option" where
  "field_value cls v =
     (if cls = ''FloatProperty'' then Some (VFloat (dbl_to_float v))
      else if cls = ''DoubleProperty'' then Some (VDouble v)
      else if cls = ''IntProperty'' then Some (VInt (dbl_trunc v))
      else if cls = ''ByteProperty'' \<or> cls = ''EnumProperty'' then Some (VByte (word_of_int (dbl_trunc v)))
      else if cls = ''BoolProperty'' then Some (flag (dbl_ne v (Fin 0)))
      else None)"

definition hud_write_field :: "fproperty list option \<Rightarrow> int \<Rightarrow> string \<Rightarrow> dbl \<Rightarrow> frame \<Rightarrow> frame option" where
  "hud_write_field layout base name v fr =
     Option.bind (Option.bind layout (find_prop name)) (\<lambda>f.
       map_option (\<lambda>x. poke (base + prop_offset f) x fr) (field_value (prop_class f) v))"

definition hud_nested :: "fproperty list option \<Rightarrow> int \<Rightarrow> string \<Rightarrow> (fproperty list \<times> int) option" where
  "hud_nested layout base name =
     Option.bind (Option.bind layout (List.find (\<lambda>f. prop_name f = name \<and> prop_class f = ''StructProperty''))) (\<lambda>f.
       map_option (\<lambda>sub. (sub, base + prop_offset f)) (inner_props f))"

definition write_fields :: "fproperty list option \<Rightarrow> int \<Rightarrow> (string \<times> dbl) list \<Rightarrow> frame \<Rightarrow> frame option" where
  "write_fields layout base nums fr =
     fold (\<lambda>(n, v) acc. Option.bind acc (hud_write_field layout base n v)) nums (Some fr)"

type_synonym filler = "ufunction \<Rightarrow> frame \<Rightarrow> frame option"

definition hud_param :: "ufunction \<Rightarrow> string \<Rightarrow> fproperty option" where
  "hud_param f name = find_prop name (parms f)"

definition struct_param :: "ufunction \<Rightarrow> string \<Rightarrow> fproperty option" where
  "struct_param f name = Option.bind (hud_param f name) (\<lambda>p. if prop_class p = ''StructProperty'' then Some p else None)"

definition hud_fill_struct :: "string \<Rightarrow> (string \<times> dbl) list \<Rightarrow> filler" where
  "hud_fill_struct name nums f fr =
     Option.bind (struct_param f name) (\<lambda>p. write_fields (inner_props p) (prop_offset p) nums fr)"

type_synonym rgba = "dbl \<times> dbl \<times> dbl \<times> dbl"

fun rgba_fields :: "rgba \<Rightarrow> (string \<times> dbl) list" where
  "rgba_fields (r, g, b, a) = [(''R'', r), (''G'', g), (''B'', b), (''A'', a)]"

definition hud_fill_color :: "string \<Rightarrow> rgba \<Rightarrow> filler" where
  "hud_fill_color name c = hud_fill_struct name (rgba_fields c)"

definition fill_one :: "string \<Rightarrow> fvalue \<Rightarrow> filler" where
  "fill_one name v f fr = map_option (\<lambda>p. poke (prop_offset p) v fr) (hud_param f name)"

definition hud_fill_bool :: "string \<Rightarrow> bool \<Rightarrow> filler" where
  "hud_fill_bool name b = fill_one name (flag b)"

definition hud_fill_int :: "string \<Rightarrow> int \<Rightarrow> filler" where
  "hud_fill_int name i = fill_one name (VInt i)"

definition hud_fill_object :: "string \<Rightarrow> address option \<Rightarrow> filler" where
  "hud_fill_object name a = fill_one name (VPtr a)"

definition also_fill :: "filler \<Rightarrow> filler \<Rightarrow> filler" where
  "also_fill k l f fr = Option.bind (k f fr) (l f)"

definition no_fill :: filler where
  "no_fill f fr = Some fr"

text \<open>A slate colour: the four numbers go into the structure's \<^verbatim>\<open>SpecifiedColor\<close>.\<close>

definition fill_slate_color :: "rgba \<Rightarrow> filler" where
  "fill_slate_color c f fr =
     Option.bind (struct_param f ''InColorAndOpacity'') (\<lambda>p.
       Option.bind (hud_nested (inner_props p) (prop_offset p) ''SpecifiedColor'') (\<lambda>(sub, base).
         write_fields (Some sub) base (rgba_fields c) fr))"

text \<open>The text goes to \<^verbatim>\<open>InText\<close>, or to the first structure when that has another name; \<^verbatim>\<open>c_str()\<close> ends at a zero.\<close>

definition c_wide :: "nat list \<Rightarrow> nat list" where
  "c_wide s = takeWhile (\<lambda>c. c \<noteq> 0) s"

definition fill_text :: "int \<Rightarrow> nat list \<Rightarrow> filler" where
  "fill_text text_size s f fr =
     (case (case hud_param f ''InText'' of
              Some p \<Rightarrow> Some p
            | None \<Rightarrow> List.find (\<lambda>q. prop_class q = ''StructProperty'') (parms f)) of
        None \<Rightarrow> None
      | Some p \<Rightarrow> if prop_size p < text_size then None else Some (poke (prop_offset p) (VText text_size (c_wide s)) fr))"

definition hud_call :: "reflected option \<Rightarrow> string \<Rightarrow> filler \<Rightarrow> attempt" where
  "hud_call target name k =
     on_function target name (\<lambda>f. let n = (if parms_size f > 0 then parms_size f else 0) in attempt_of n (k f (zeroed n)))"

section \<open>Colours\<close>

text \<open>\<^verbatim>\<open>std::pow\<close> is the platform's: an argument.\<close>

type_synonym power = "dbl \<Rightarrow> dbl \<Rightarrow> dbl"

text \<open>
  \<^verbatim>\<open>sscanf("%2x")\<close> of two characters: blanks do not count, a sign does, and a negative number wraps around in the
  unsigned result. A \<^verbatim>\<open>0x\<close> has no room for a digit.
\<close>

definition hex_byte :: "string \<Rightarrow> nat option" where
  "hex_byte two =
     (case dropWhile c_isspace (c_str two) of
        [] \<Rightarrow> None
      | c # t \<Rightarrow>
          if c = CHR ''-'' \<or> c = CHR ''+''
          then (case t of [] \<Rightarrow> None
                | d # _ \<Rightarrow> map_option (\<lambda>v. if c = CHR ''-'' then unat (- of_nat v :: u32) else v) (hex_val d))
          else (case hex_val c of
                  None \<Rightarrow> None
                | Some v \<Rightarrow>
                    (case t of
                       [] \<Rightarrow> Some v
                     | d # _ \<Rightarrow> (case hex_val d of
                                   Some w \<Rightarrow> Some (16 * v + w)
                                 | None \<Rightarrow> if c = CHR ''0'' \<and> (d = CHR ''x'' \<or> d = CHR ''X'') then None else Some v))))"

definition quot :: "dbl \<Rightarrow> rat \<Rightarrow> dbl" where
  "quot x d = (case x of Fin q \<Rightarrow> rnd_double (q / d) | _ \<Rightarrow> x)"

definition linear_of :: "power \<Rightarrow> nat \<Rightarrow> dbl" where
  "linear_of pow b =
     (let x = rnd_double (of_nat b / 255)
      in dbl_to_float (if dbl_le x (rnd_double (4045 / 100000))
           then (case rnd_double (1292 / 100) of Fin d \<Rightarrow> quot x d | z \<Rightarrow> z)
           else (case rnd_double (1055 / 1000) of
                   Fin d \<Rightarrow> pow (quot (dbl_add x (rnd_double (55 / 1000))) d) (rnd_double (24 / 10))
                 | z \<Rightarrow> z)))"

text \<open>The channels before the first bad pair are kept, the others stay at one.\<close>

definition hud_color :: "power \<Rightarrow> string \<Rightarrow> rgba" where
  "hud_color pow hex =
     (let h = (if hex \<noteq> [] \<and> hd hex = CHR ''#'' then tl hex else hex)
      in if length h \<noteq> 6 then (Fin 1, Fin 1, Fin 1, Fin 1)
         else case hex_byte (take 2 h) of
                None \<Rightarrow> (Fin 1, Fin 1, Fin 1, Fin 1)
              | Some r \<Rightarrow>
                  (case hex_byte (take 2 (drop 2 h)) of
                     None \<Rightarrow> (linear_of pow r, Fin 1, Fin 1, Fin 1)
                   | Some g \<Rightarrow>
                       (case hex_byte (take 2 (drop 4 h)) of
                          None \<Rightarrow> (linear_of pow r, linear_of pow g, Fin 1, Fin 1)
                        | Some b \<Rightarrow> (linear_of pow r, linear_of pow g, linear_of pow b, Fin 1))))"

section \<open>What a tick reads\<close>

record reply =
  reply_size :: int
  reply_real :: "int \<Rightarrow> dbl"
  reply_byte :: "int \<Rightarrow> 8 word"

record hud_view =
  v_fns :: "address \<Rightarrow> reflected"
  v_array :: object_array
  v_game_instance :: "address option"
  v_make :: "string \<Rightarrow> string \<Rightarrow> address \<Rightarrow> address option"
  v_has :: "address \<Rightarrow> string \<Rightarrow> bool"
  v_font :: "address \<Rightarrow> fproperty option"
  v_library :: "address option"
  v_reply :: "address \<Rightarrow> string \<Rightarrow> reply"
  v_text_size :: int
  v_pow :: power
  v_now_ms :: int
  v_registry_tick :: u64

definition hud_construct :: "hud_view \<Rightarrow> string \<Rightarrow> address option \<Rightarrow> string \<Rightarrow> address option" where
  "hud_construct v class_path outer name = Option.bind outer (v_make v class_path name)"

text \<open>The first live game instance found is kept for the process when the world gives none.\<close>

definition hud_game_instance :: "(address \<times> bool) list \<Rightarrow> address option \<Rightarrow> address option \<Rightarrow> address option \<times> address option" where
  "hud_game_instance all owning found =
     (case owning of
        Some gi \<Rightarrow> (Some gi, found)
      | None \<Rightarrow>
          let found = (if found = None then map_option fst (List.find (\<lambda>(a, is_default). \<not> is_default) all) else found)
          in (found, found))"

text \<open>A two-number result; a number that is missing counts as zero.\<close>

definition real_field :: "fproperty \<Rightarrow> bool" where
  "real_field f \<longleftrightarrow> prop_class f = ''DoubleProperty'' \<or> prop_class f = ''FloatProperty''"

definition hud_read_vec2 :: "ufunction option \<Rightarrow> reply \<Rightarrow> (dbl \<times> dbl) option" where
  "hud_read_vec2 function r =
     Option.bind (Option.bind function (\<lambda>f. struct_param f ''ReturnValue'')) (\<lambda>ret.
       Option.bind (inner_props ret) (\<lambda>layout.
         if reply_size r < prop_offset ret + prop_size ret then None
         else let axis = (\<lambda>name. map_option (\<lambda>f. reply_real r (prop_offset ret + prop_offset f))
                          (List.find (\<lambda>f. real_field f \<and> prop_name f = name) (rev layout)))
              in case (axis ''X'', case axis ''Y'' of None \<Rightarrow> Fin 0 | Some y \<Rightarrow> y) of
                   (None, _) \<Rightarrow> None
                 | (Some x, y) \<Rightarrow>
                     if \<not> isfinite x \<or> \<not> isfinite y \<or> dbl_le x (Fin 0) \<or> dbl_le y (Fin 0) then None else Some (x, y)))"

definition size_from :: "hud_view \<Rightarrow> address option \<Rightarrow> string \<Rightarrow> filler \<Rightarrow> (dbl \<times> dbl) option" where
  "size_from v target name k =
     (case target of
        None \<Rightarrow> None
      | Some a \<Rightarrow> if made (hud_call (Some (v_fns v a)) name k) then hud_read_vec2 (v_fns v a name) (v_reply v a name) else None)"

definition hud_viewport_size :: "hud_view \<Rightarrow> address option \<Rightarrow> (dbl \<times> dbl) option" where
  "hud_viewport_size v world_context =
     (case world_context of
        None \<Rightarrow> None
      | Some _ \<Rightarrow> size_from v (v_library v) ''GetViewportSize'' (hud_fill_object ''WorldContextObject'' world_context))"

definition hud_desired_size :: "hud_view \<Rightarrow> address option \<Rightarrow> (dbl \<times> dbl) option" where
  "hud_desired_size v widget = size_from v widget ''GetDesiredSize'' no_fill"

definition is_in_viewport :: "hud_view \<Rightarrow> address \<Rightarrow> bool" where
  "is_in_viewport v a \<longleftrightarrow>
     made (hud_call (Some (v_fns v a)) ''IsInViewport'' no_fill) \<and>
     (case Option.bind (v_fns v a ''IsInViewport'') (\<lambda>f. hud_param f ''ReturnValue'') of
        None \<Rightarrow> False | Some p \<Rightarrow> reply_byte (v_reply v a ''IsInViewport'') (prop_offset p) \<noteq> 0)"

end
