(* ===== verification/Indicator.thy ===== *)
theory Indicator
  imports Widgets
begin

text \<open>
  The recording indicator's tick and the input panels' (\<^verbatim>\<open>tick_hud_indicator\<close>, \<^verbatim>\<open>input_display_tick\<close>): the widgets are
  built, measured, placed, added to the viewport, written and removed. The state of each is its handles and what it was
  last laid out for.
\<close>

section \<open>Actions\<close>

datatype ui_action =
    UICall address string attempt
  | SetSlot address string address
  | SetFont address frame

definition ui_call :: "hud_view \<Rightarrow> address \<Rightarrow> string \<Rightarrow> filler \<Rightarrow> ui_action" where
  "ui_call v a name k = UICall a name (hud_call (Some (v_fns v a)) name k)"

definition hud_set_text :: "hud_view \<Rightarrow> address \<Rightarrow> nat list \<Rightarrow> ui_action" where
  "hud_set_text v a s = ui_call v a ''SetText'' (fill_text (v_text_size v) s)"

definition hud_remove :: "hud_view \<Rightarrow> owned_handle \<Rightarrow> ui_action list \<times> owned_handle" where
  "hud_remove v own =
     ((case handle_get (v_array v) own of None \<Rightarrow> [] | Some a \<Rightarrow> [ui_call v a ''RemoveFromParent'' no_fill]), handle_clear own)"

definition set_slot :: "hud_view \<Rightarrow> address \<Rightarrow> string \<Rightarrow> address \<Rightarrow> ui_action list" where
  "set_slot v a name c = (if v_has v a name then [SetSlot a name c] else [])"

text \<open>The font's \<^verbatim>\<open>Size\<close>, written in place when the text has a font structure.\<close>

definition set_font_size :: "hud_view \<Rightarrow> address \<Rightarrow> dbl \<Rightarrow> ui_action list" where
  "set_font_size v a px =
     (case v_font v a of
        None \<Rightarrow> []
      | Some p \<Rightarrow>
          if prop_class p \<noteq> ''StructProperty'' then []
          else (case hud_write_field (inner_props p) 0 ''Size'' px (zeroed (prop_size p)) of
                  None \<Rightarrow> [] | Some fr \<Rightarrow> [SetFont a fr]))"

section \<open>The recording indicator\<close>

record hud_tuning =
  hud_x :: dbl
  hud_y :: dbl
  hud_size :: dbl
  hud_gap :: dbl
  hud_text :: dbl
  hud_pad :: dbl
  hud_z :: int
  hud_tuning_gen :: u32
  rec_dot_color :: string
  rec_timer_color :: string
  rec_indicator_enabled :: bool

record hud =
  hud_dot :: owned_handle
  hud_clock :: owned_handle
  hud_text_block :: owned_handle
  hud_in_viewport :: bool
  hud_vw :: dbl
  hud_vh :: dbl
  hud_built_gen :: u32
  hud_last_second :: int
  hud_placed_glyphs :: nat
  hud_meas_w :: dbl
  hud_meas_h :: dbl
  recording_time_text :: "nat list"

definition new_hud :: hud where
  "new_hud = \<lparr>hud_dot = no_handle, hud_clock = no_handle, hud_text_block = no_handle, hud_in_viewport = False,
     hud_vw = Fin 0, hud_vh = Fin 0, hud_built_gen = 0, hud_last_second = - 1, hud_placed_glyphs = 0,
     hud_meas_w = Fin 0, hud_meas_h = Fin 0, recording_time_text = []\<rparr>"

definition hud_tear_down :: "hud_view \<Rightarrow> hud \<Rightarrow> ui_action list \<times> hud" where
  "hud_tear_down v h =
     (let (acts, dot) = hud_remove v (hud_dot h); (acts', clock) = hud_remove v (hud_clock h)
      in (acts @ acts',
          h\<lparr>hud_dot := dot, hud_clock := clock, hud_text_block := handle_clear (hud_text_block h),
            hud_in_viewport := False, hud_last_second := - 1\<rparr>))"

text \<open>A user widget, its tree and its border; the slots that exist are pointed at them.\<close>

record made_widget =
  mw_widget :: address
  mw_tree :: address
  mw_border :: address

definition make_widget :: "hud_view \<Rightarrow> address \<Rightarrow> string \<Rightarrow> ui_action list \<times> made_widget option" where
  "make_widget v gi name =
     (case hud_construct v ''/Script/UMG.UserWidget'' (Some gi) name of
        None \<Rightarrow> ([], None)
      | Some w \<Rightarrow>
          (case hud_construct v ''/Script/UMG.WidgetTree'' (Some w) (name @ ''_Tree'') of
             None \<Rightarrow> ([], None)
           | Some t \<Rightarrow>
               (case hud_construct v ''/Script/UMG.Border'' (Some t) (name @ ''_Border'') of
                  None \<Rightarrow> ([], None)
                | Some b \<Rightarrow> (set_slot v w ''WidgetTree'' t @ set_slot v t ''RootWidget'' b,
                             Some \<lparr>mw_widget = w, mw_tree = t, mw_border = b\<rparr>))))"

text \<open>The clock's text hangs under its tree, read back through the slot; the code does not check that the slot is there.\<close>

definition clock_text_block :: "hud_view \<Rightarrow> made_widget \<Rightarrow> address option" where
  "clock_text_block v c =
     hud_construct v ''/Script/UMG.TextBlock'' (if v_has v (mw_widget c) ''WidgetTree'' then Some (mw_tree c) else None)
       ''MeshGhostHudClock_Text''"

definition black :: rgba where "black = (Fin 0, Fin 0, Fin 0, Fin 1)"

definition same_sides :: "dbl \<Rightarrow> (string \<times> dbl) list" where
  "same_sides x = [(''Left'', x), (''Top'', x), (''Right'', x), (''Bottom'', x)]"

definition first_text :: "nat list \<Rightarrow> nat list" where
  "first_text s = (if s = [] then wide ''0:00'' else s)"

definition dress_clock :: "hud_view \<Rightarrow> hud_tuning \<Rightarrow> nat list \<Rightarrow> made_widget \<Rightarrow> made_widget \<Rightarrow> address \<Rightarrow> ui_action list" where
  "dress_clock v t s dot clock text =
     set_font_size v text (hud_text t) @
     [ui_call v (mw_border dot) ''SetBrushColor'' (hud_fill_color ''InBrushColor'' (hud_color (v_pow v) (rec_dot_color t))),
      ui_call v (mw_border clock) ''SetBrushColor'' (hud_fill_color ''InBrushColor'' (hud_color (v_pow v) (rec_timer_color t))),
      ui_call v (mw_border clock) ''SetPadding'' (hud_fill_struct ''InPadding'' (same_sides (hud_pad t))),
      ui_call v (mw_border clock) ''SetContent'' (hud_fill_object ''Content'' (Some text)),
      ui_call v text ''SetColorAndOpacity'' (fill_slate_color black),
      hud_set_text v text (first_text s)]"

definition hud_build :: "hud_view \<Rightarrow> hud_tuning \<Rightarrow> hud \<Rightarrow> bool \<times> ui_action list \<times> hud" where
  "hud_build v t h =
     (case v_game_instance v of
        None \<Rightarrow> (False, [], h)
      | Some gi \<Rightarrow>
          let (acts, dot) = make_widget v gi ''MeshGhostHudDot'';
              (acts', clock) = make_widget v gi ''MeshGhostHudClock''
          in case (dot, clock, Option.bind clock (clock_text_block v)) of
               (Some d, Some c, Some text) \<Rightarrow>
                 (True, acts @ acts' @ dress_clock v t (recording_time_text h) d c text,
                  h\<lparr>hud_dot := handle_set (v_array v) (Some (mw_widget d)), hud_clock := handle_set (v_array v) (Some (mw_widget c)),
                    hud_text_block := handle_set (v_array v) (Some text), hud_built_gen := hud_tuning_gen t,
                    hud_in_viewport := False, hud_vw := Fin 0, hud_vh := Fin 0, hud_meas_w := Fin 0, hud_meas_h := Fin 0\<rparr>)
             | _ \<Rightarrow> (False, acts @ acts', h))"

definition glyphs_of :: "nat list \<Rightarrow> nat" where
  "glyphs_of s = max 4 (length s)"

text \<open>The clock box's size: as the engine laid it out, or an estimate before it has.\<close>

definition clock_size :: "hud_tuning \<Rightarrow> hud \<Rightarrow> dbl \<times> dbl" where
  "clock_size t h =
     (let pad = dbl_mult (hud_pad t) (Fin 2) in
      if dbl_less (Fin 0) (hud_meas_w h) \<and> dbl_less (Fin 0) (hud_meas_h h) then (hud_meas_w h, hud_meas_h h)
      else (dbl_add (dbl_mult (dbl_mult (hud_text t) (rnd_double (6 / 10))) (Fin (of_nat (glyphs_of (recording_time_text h))))) pad,
            dbl_add (dbl_mult (hud_text t) (rnd_double (12 / 10))) pad))"

definition dot_square :: "hud_tuning \<Rightarrow> hud \<Rightarrow> dbl" where
  "dot_square t h = (if dbl_less (Fin 0) (hud_meas_h h) then hud_meas_h h else hud_size t)"

definition place_at :: "dbl \<Rightarrow> dbl \<Rightarrow> filler" where
  "place_at x y = also_fill (hud_fill_struct ''Position'' [(''X'', x), (''Y'', y)]) (hud_fill_bool ''bRemoveDPIScale'' True)"

definition hud_place :: "hud_view \<Rightarrow> hud_tuning \<Rightarrow> dbl \<Rightarrow> dbl \<Rightarrow> hud \<Rightarrow> ui_action list \<times> hud" where
  "hud_place v t vw vh h =
     (case (handle_get (v_array v) (hud_dot h), handle_get (v_array v) (hud_clock h)) of
        (Some dot, Some clock) \<Rightarrow>
          let square = dot_square t h;
              clock_x = dbl_sub (dbl_sub vw (hud_x t)) (fst (clock_size t h));
              dot_x = dbl_sub (dbl_sub clock_x (hud_gap t)) square
          in ([ui_call v clock ''SetPositionInViewport'' (place_at clock_x (hud_y t)),
               ui_call v dot ''SetPositionInViewport'' (place_at dot_x (hud_y t)),
               ui_call v dot ''SetDesiredSizeInViewport'' (hud_fill_struct ''Size'' [(''X'', square), (''Y'', square)])],
              h\<lparr>hud_vw := vw, hud_vh := vh, hud_placed_glyphs := glyphs_of (recording_time_text h)\<rparr>)
      | _ \<Rightarrow> ([], h))"

text \<open>Whether the viewport or the laid-out size changed, and the size noted.\<close>

definition measure_clock :: "hud_view \<Rightarrow> address option \<Rightarrow> address \<Rightarrow> hud \<Rightarrow> (dbl \<times> dbl) \<times> bool \<times> hud" where
  "measure_clock v ctl clock h =
     (let viewport = hud_viewport_size v ctl;
          (vw, vh) = (case viewport of None \<Rightarrow> (Fin 0, Fin 0) | Some s \<Rightarrow> s);
          moved = (viewport \<noteq> None \<and> (dbl_ne vw (hud_vw h) \<or> dbl_ne vh (hud_vh h)))
      in case (if hud_in_viewport h then hud_desired_size v (Some clock) else None) of
           Some (mw, mh) \<Rightarrow>
             if dbl_ne mw (hud_meas_w h) \<or> dbl_ne mh (hud_meas_h h)
             then ((vw, vh), True, h\<lparr>hud_meas_w := mw, hud_meas_h := mh\<rparr>) else ((vw, vh), moved, h)
         | None \<Rightarrow> ((vw, vh), moved, h))"

definition hud_layout :: "hud_view \<Rightarrow> hud_tuning \<Rightarrow> address option \<Rightarrow> address \<Rightarrow> address \<Rightarrow> hud \<Rightarrow> ui_action list \<times> hud" where
  "hud_layout v t ctl dot clock h =
     (if hud_in_viewport h \<and> v_registry_tick v mod 60 \<noteq> 0 then ([], h)
      else let ((vw, vh), moved, h) = measure_clock v ctl clock h;
               (acts, h) = (if moved \<and> dbl_less (Fin 0) vw then hud_place v t vw vh h else ([], h))
           in if \<not> is_in_viewport v dot \<and> dbl_less (Fin 0) (hud_vw h)
              then (acts @ [ui_call v dot ''AddToViewport'' (hud_fill_int ''ZOrder'' (hud_z t)),
                            ui_call v clock ''AddToViewport'' (hud_fill_int ''ZOrder'' (hud_z t))],
                    h\<lparr>hud_in_viewport := True, hud_last_second := - 1\<rparr>)
              else (acts, h))"

text \<open>Minutes and two digits of seconds; the code's buffer of sixteen holds them for dates below the year 1,900,000.\<close>

definition clock_text :: "int \<Rightarrow> nat list" where
  "clock_text s = print_int (s div 60) @ [58] @ (if s mod 60 < 10 then [48] else []) @ print_int (s mod 60)"

definition elapsed_seconds :: "int \<Rightarrow> int \<Rightarrow> int" where
  "elapsed_seconds since now = (if 0 < since \<and> since < now then (now - since) div 1000 else 0)"

definition hud_write_clock :: "hud_view \<Rightarrow> hud_tuning \<Rightarrow> int \<Rightarrow> address \<Rightarrow> hud \<Rightarrow> ui_action list \<times> hud" where
  "hud_write_clock v t since text h =
     (let s = elapsed_seconds since (v_now_ms v) in
      if s = hud_last_second h then ([], h)
      else let h = h\<lparr>hud_last_second := s, recording_time_text := clock_text s\<rparr>;
               (acts, h') = (if glyphs_of (recording_time_text h) \<noteq> hud_placed_glyphs h \<and> dbl_less (Fin 0) (hud_vw h)
                             then hud_place v t (hud_vw h) (hud_vh h) h else ([], h))
           in (hud_set_text v text (recording_time_text h) # acts, h'))"

definition hud_wanted :: "hud_tuning \<Rightarrow> game \<Rightarrow> bool" where
  "hud_wanted t s \<longleftrightarrow> recording_active s \<and> rec_indicator_enabled t"

definition hud_shown :: "hud_view \<Rightarrow> hud \<Rightarrow> bool" where
  "hud_shown v h \<longleftrightarrow> handle_get (v_array v) (hud_dot h) \<noteq> None \<or> handle_get (v_array v) (hud_clock h) \<noteq> None"

definition hud_whole :: "hud_view \<Rightarrow> hud \<Rightarrow> (address \<times> address \<times> address) option" where
  "hud_whole v h =
     (case (handle_get (v_array v) (hud_dot h), handle_get (v_array v) (hud_clock h), handle_get (v_array v) (hud_text_block h)) of
        (Some d, Some c, Some x) \<Rightarrow> Some (d, c, x) | _ \<Rightarrow> None)"

definition hud_update :: "hud_view \<Rightarrow> hud_tuning \<Rightarrow> game \<Rightarrow> address option \<Rightarrow> hud \<Rightarrow> ui_action list \<times> hud" where
  "hud_update v t s ctl h =
     (case hud_whole v h of
        None \<Rightarrow> ([], h)
      | Some (dot, clock, text) \<Rightarrow>
          let (acts, h) = hud_layout v t ctl dot clock h;
              (acts', h) = hud_write_clock v t (recording_started_unix_ms s) text h
          in (acts @ acts', h))"

definition tick_hud_indicator :: "hud_view \<Rightarrow> hud_tuning \<Rightarrow> game \<Rightarrow> address option \<Rightarrow> hud \<Rightarrow> ui_action list \<times> hud" where
  "tick_hud_indicator v t s ctl h =
     (if \<not> hud_wanted t s then if hud_shown v h then hud_tear_down v h else ([], h)
      else if ctl = None then ([], h)
      else let (acts, h) = (if hud_built_gen h \<noteq> hud_tuning_gen t \<and> hud_shown v h then hud_tear_down v h else ([], h))
           in if hud_whole v h = None
              then (case hud_build v t h of
                      (False, acts', h) \<Rightarrow> (acts @ acts', h)
                    | (True, acts', h) \<Rightarrow> let (acts'', h) = hud_update v t s ctl h in (acts @ acts' @ acts'', h))
              else let (acts', h) = hud_update v t s ctl h in (acts @ acts', h))"

section \<open>The input panels\<close>

record panel_widget =
  pw_name :: string
  pw_built_gen :: u32
  pw_panel :: owned_handle
  pw_text :: owned_handle
  pw_in_viewport :: bool
  pw_vw :: dbl
  pw_meas_w :: dbl
  pw_left :: bool
  pw_rows :: "history_row list"
  pw_last_text :: "nat list"

definition input_display_tear_down :: "hud_view \<Rightarrow> panel_widget \<Rightarrow> ui_action list \<times> panel_widget" where
  "input_display_tear_down v p =
     (let (acts, pan) = hud_remove v (pw_panel p)
      in (acts, p\<lparr>pw_panel := pan, pw_text := handle_clear (pw_text p), pw_in_viewport := False, pw_last_text := [], pw_meas_w := Fin 0\<rparr>))"

definition MARGIN_X :: dbl where "MARGIN_X = Fin 200"
definition MARGIN_Y :: dbl where "MARGIN_Y = Fin 300"
definition DISP_PAD :: dbl where "DISP_PAD = Fin 6"

definition white :: rgba where "white = (Fin 1, Fin 1, Fin 1, Fin 1)"

definition panel_shade :: "bool \<Rightarrow> rgba" where
  "panel_shade background = (Fin 0, Fin 0, Fin 0, if background then rnd_float (55 / 100) else Fin 0)"

definition input_display_build :: "hud_view \<Rightarrow> display_config \<Rightarrow> u32 \<Rightarrow> panel_widget \<Rightarrow> bool \<times> ui_action list \<times> panel_widget" where
  "input_display_build v d gen p =
     (let panel = Option.bind (v_game_instance v) (\<lambda>gi. hud_construct v ''/Script/UMG.UserWidget'' (Some gi) (pw_name p));
          tree = hud_construct v ''/Script/UMG.WidgetTree'' panel (pw_name p @ ''_Tree'');
          border = hud_construct v ''/Script/UMG.Border'' tree (pw_name p @ ''_Border'');
          text = hud_construct v ''/Script/UMG.TextBlock'' tree (pw_name p @ ''_Text'')
      in case (panel, tree, border, text) of
           (Some w, Some tr, Some b, Some x) \<Rightarrow>
             (True,
              set_slot v w ''WidgetTree'' tr @ set_slot v tr ''RootWidget'' b @ set_font_size v x (disp_size d) @
              [ui_call v b ''SetBrushColor'' (hud_fill_color ''InBrushColor'' (panel_shade (disp_background d))),
               ui_call v b ''SetPadding'' (hud_fill_struct ''InPadding'' (same_sides DISP_PAD)),
               ui_call v b ''SetContent'' (hud_fill_object ''Content'' (Some x)),
               ui_call v x ''SetColorAndOpacity'' (fill_slate_color white),
               hud_set_text v x []],
              p\<lparr>pw_panel := handle_set (v_array v) (Some w), pw_text := handle_set (v_array v) (Some x), pw_built_gen := gen,
                pw_in_viewport := False, pw_vw := Fin 0, pw_meas_w := Fin 0, pw_last_text := []\<rparr>)
         | _ \<Rightarrow> (False, [], p))"

definition input_display_place :: "hud_view \<Rightarrow> dbl \<Rightarrow> panel_widget \<Rightarrow> ui_action list \<times> panel_widget" where
  "input_display_place v vw p =
     (case handle_get (v_array v) (pw_panel p) of
        None \<Rightarrow> ([], p)
      | Some w \<Rightarrow>
          let width = (if dbl_less (Fin 0) (pw_meas_w p) then pw_meas_w p else Fin 260);
              x = (if pw_left p then MARGIN_X else dbl_sub (dbl_sub vw MARGIN_X) width)
          in ([ui_call v w ''SetPositionInViewport'' (place_at x MARGIN_Y)], p\<lparr>pw_vw := vw\<rparr>))"

text \<open>A panel on the left is not measured: its place does not depend on its width.\<close>

definition measure_panel :: "hud_view \<Rightarrow> address option \<Rightarrow> address \<Rightarrow> panel_widget \<Rightarrow> dbl \<times> bool \<times> panel_widget" where
  "measure_panel v ctl w p =
     (let viewport = hud_viewport_size v ctl;
          vw = (case viewport of None \<Rightarrow> Fin 0 | Some s \<Rightarrow> fst s);
          moved = (viewport \<noteq> None \<and> dbl_ne vw (pw_vw p))
      in case (if pw_in_viewport p \<and> \<not> pw_left p then hud_desired_size v (Some w) else None) of
           Some (mw, _) \<Rightarrow> if dbl_ne mw (pw_meas_w p) then (vw, True, p\<lparr>pw_meas_w := mw\<rparr>) else (vw, moved, p)
         | None \<Rightarrow> (vw, moved, p))"

definition layout_panel :: "hud_view \<Rightarrow> int \<Rightarrow> address option \<Rightarrow> address \<Rightarrow> panel_widget \<Rightarrow> ui_action list \<times> panel_widget" where
  "layout_panel v z ctl w p =
     (if pw_in_viewport p \<and> v_registry_tick v mod 60 \<noteq> 0 then ([], p)
      else let (vw, moved, p) = measure_panel v ctl w p;
               (acts, p) = (if moved \<and> dbl_less (Fin 0) vw then input_display_place v vw p else ([], p))
           in if \<not> is_in_viewport v w \<and> dbl_less (Fin 0) (pw_vw p)
              then (acts @ [ui_call v w ''AddToViewport'' (hud_fill_int ''ZOrder'' z)], p\<lparr>pw_in_viewport := True\<rparr>)
              else (acts, p))"

definition choose_side :: "bool \<Rightarrow> panel_widget \<Rightarrow> panel_widget" where
  "choose_side left p = (if left \<noteq> pw_left p then p\<lparr>pw_left := left, pw_vw := Fin 0\<rparr> else p)"

definition panel_live :: "hud_view \<Rightarrow> panel_widget \<Rightarrow> bool" where
  "panel_live v p \<longleftrightarrow> handle_get (v_array v) (pw_panel p) \<noteq> None"

definition build_panel :: "hud_view \<Rightarrow> display_config \<Rightarrow> u32 \<Rightarrow> panel_widget \<Rightarrow> bool \<times> ui_action list \<times> panel_widget" where
  "build_panel v d gen p =
     (let (acts, p) = (if pw_built_gen p \<noteq> gen \<and> panel_live v p then input_display_tear_down v p else ([], p))
      in if panel_live v p \<and> handle_get (v_array v) (pw_text p) \<noteq> None then (True, acts, p)
         else let (ok, acts', p) = input_display_build v d gen p in (ok, acts @ acts', p))"

definition input_display_tick_panel ::
    "hud_view \<Rightarrow> display_config \<Rightarrow> u32 \<Rightarrow> int \<Rightarrow> bool \<Rightarrow> bool \<Rightarrow> address option \<Rightarrow> panel_widget \<Rightarrow> ui_action list \<times> panel_widget" where
  "input_display_tick_panel v d gen z wanted left ctl p =
     (if \<not> wanted
      then if panel_live v p then (let (acts, p) = input_display_tear_down v p in (acts, p\<lparr>pw_rows := []\<rparr>)) else ([], p)
      else if ctl = None then ([], p)
      else let (ok, acts, p) = build_panel v d gen (choose_side left p)
           in case (ok, handle_get (v_array v) (pw_panel p)) of
                (True, Some w) \<Rightarrow> let (acts', p) = layout_panel v z ctl w p in (acts @ acts', p)
              | _ \<Rightarrow> (acts, p))"

definition input_display_tick ::
    "hud_view \<Rightarrow> display_config \<Rightarrow> u32 \<Rightarrow> int \<Rightarrow> address option \<Rightarrow> bool \<Rightarrow> panel_widget \<times> panel_widget \<Rightarrow>
     ui_action list \<times> (panel_widget \<times> panel_widget)" where
  "input_display_tick v d gen z ctl ghost_has_track panels =
     (case panels of (player, ghosts) \<Rightarrow>
        let (acts, player) = input_display_tick_panel v d gen z (disp_player d) (disp_player_left d) ctl player;
            (acts', ghosts) = input_display_tick_panel v d gen z (disp_ghost d \<and> ghost_has_track)
              (if disp_player d then disp_ghost_left d else disp_player_left d) ctl ghosts
        in (acts @ acts', (player, ghosts)))"

end
