(* ===== verification/Tuning.thy ===== *)
theory Tuning
  imports Indicator
begin

text \<open>
  The indicator's and the nametags' numbers (\<^verbatim>\<open>Plugin.cpp\<close>: \<^verbatim>\<open>poll_recording_indicator_config\<close>,
  \<^verbatim>\<open>poll_recording_indicator_tuning\<close>): a few keys of the configuration, and the lines \<^verbatim>\<open>key=value\<close> of
  \<^verbatim>\<open>rec_indicator.txt\<close>, every number clamped. The last property says that no text can push a number out of its range.
\<close>

record tuning =
  t_hud :: hud_tuning
  rec_forward :: dbl
  rec_right :: dbl
  rec_up :: dbl
  rec_time_right :: dbl
  rec_dot_size :: dbl
  rec_text_size :: dbl
  rec_glyph :: "nat list"
  rec_dot_scale_w :: dbl
  rec_dot_scale_h :: dbl
  rec_dot_up :: dbl
  rec_plate_up :: dbl
  rec_tuning_dirty :: bool
  plate_margin_chars :: dbl
  plate_scale_h :: dbl
  nametag_up :: dbl
  nametag_size :: dbl
  nametag_behind :: dbl
  nametag_tuning_gen :: u32
  tuning_text :: string
  inputs_enabled :: bool

definition default_hud_tuning :: hud_tuning where
  "default_hud_tuning = \<lparr>hud_x = Fin 26, hud_y = Fin 22, hud_size = Fin 44, hud_gap = Fin 10, hud_text = Fin 30, hud_pad = Fin 4,
     hud_z = 0, hud_tuning_gen = 1, rec_dot_color = ''#EE4B2B'', rec_timer_color = ''#FFFFFF'', rec_indicator_enabled = True\<rparr>"

definition default_tuning :: tuning where
  "default_tuning = \<lparr>t_hud = default_hud_tuning, rec_forward = Fin 140, rec_right = Fin 112, rec_up = Fin 72,
     rec_time_right = rnd_double (135 / 10), rec_dot_size = Fin 9, rec_text_size = Fin 9, rec_glyph = wide ''H'',
     rec_dot_scale_w = rnd_double (85 / 100), rec_dot_scale_h = rnd_double (78 / 100), rec_dot_up = rnd_double (4 / 10),
     rec_plate_up = rnd_double (7 / 10), rec_tuning_dirty = False, plate_margin_chars = rnd_double (35 / 100),
     plate_scale_h = rnd_double (78 / 100), nametag_up = Fin 110, nametag_size = Fin 0, nametag_behind = Fin 4,
     nametag_tuning_gen = 1, tuning_text = [], inputs_enabled = False\<rparr>"

section \<open>The configuration\<close>

abbreviation up_hud :: "(hud_tuning \<Rightarrow> hud_tuning) \<Rightarrow> tuning \<Rightarrow> tuning" where
  "up_hud g t \<equiv> t\<lparr>t_hud := g (t_hud t)\<rparr>"

definition poll_indicator_enabled :: "(string \<Rightarrow> string option) \<Rightarrow> tuning \<Rightarrow> tuning" where
  "poll_indicator_enabled texts t =
     (let enabled = config_bool_value (texts ''indicator'') ''indicator'' True
      in if enabled \<noteq> rec_indicator_enabled (t_hud t)
         then (up_hud (rec_indicator_enabled_update (\<lambda>_. enabled)) t)\<lparr>rec_tuning_dirty := True\<rparr> else t)"

definition poll_inputs_enabled :: "(string \<Rightarrow> string option) \<Rightarrow> tuning \<Rightarrow> tuning" where
  "poll_inputs_enabled texts t = t\<lparr>inputs_enabled := config_bool_value (texts ''inputs'') ''inputs'' False\<rparr>"

definition new_color :: "(string \<Rightarrow> string option) \<Rightarrow> string \<Rightarrow> string \<Rightarrow> string option" where
  "new_color texts key old =
     (case config_string_value (texts key) key of None \<Rightarrow> None | Some c \<Rightarrow> if c = old then None else Some c)"

definition poll_indicator_colors :: "(string \<Rightarrow> string option) \<Rightarrow> tuning \<Rightarrow> tuning" where
  "poll_indicator_colors texts t =
     (let t = (case new_color texts ''indicator_color'' (rec_dot_color (t_hud t)) of
                 None \<Rightarrow> t
               | Some c \<Rightarrow> (up_hud (\<lambda>g. g\<lparr>rec_dot_color := c, hud_tuning_gen := hud_tuning_gen g + 1\<rparr>) t)\<lparr>rec_tuning_dirty := True\<rparr>)
      in case new_color texts ''indicator_timer_color'' (rec_timer_color (t_hud t)) of
           None \<Rightarrow> t
         | Some c \<Rightarrow> (up_hud (\<lambda>g. g\<lparr>rec_timer_color := c, hud_tuning_gen := hud_tuning_gen g + 1\<rparr>) t)\<lparr>rec_tuning_dirty := True\<rparr>)"

text \<open>The history display's own keys are \<open>poll_display_config\<close>.\<close>

definition poll_recording_indicator_config ::
    "(string \<Rightarrow> string option) \<Rightarrow> tuning \<times> display_config \<Rightarrow> tuning \<times> display_config \<times> bool" where
  "poll_recording_indicator_config texts td =
     (case td of (t, d) \<Rightarrow>
        let t = poll_indicator_enabled texts t; (d, rebuild) = poll_display_config texts d;
            t = poll_indicator_colors texts (poll_inputs_enabled texts t)
        in (t, d, rebuild))"

section \<open>Lines and numbers\<close>

definition line_feed :: char where "line_feed = CHR 0x0A"

function text_lines :: "string \<Rightarrow> string list" where
  "text_lines s =
     (if s = [] then []
      else takeWhile (\<lambda>c. c \<noteq> line_feed) s # text_lines (drop 1 (dropWhile (\<lambda>c. c \<noteq> line_feed) s)))"
  by pat_completeness auto
termination
proof (relation "measure length")
  fix s :: string
  assume "s \<noteq> []"
  moreover have "length (dropWhile (\<lambda>c. c \<noteq> line_feed) s) \<le> length s" by (rule length_dropWhile_le)
  ultimately show "(drop 1 (dropWhile (\<lambda>c. c \<noteq> line_feed) s), s) \<in> measure length" by (cases s) auto
qed simp

declare text_lines.simps [simp del]

definition blank :: "char \<Rightarrow> bool" where
  "blank c \<longleftrightarrow> c = CHR '' '' \<or> c = CHR 0x09 \<or> c = CHR 0x0D"

definition trim_blanks :: "string \<Rightarrow> string" where
  "trim_blanks s = rev (dropWhile blank (rev (dropWhile blank s)))"

definition key_value :: "string \<Rightarrow> (string \<times> string) option" where
  "key_value line =
     (let line = takeWhile (\<lambda>c. c \<noteq> CHR ''#'') line; (key, rest) = (takeWhile (\<lambda>c. c \<noteq> CHR ''='') line, dropWhile (\<lambda>c. c \<noteq> CHR ''='') line)
      in if rest = [] \<or> trim_blanks (tl rest) = [] then None else Some (trim_blanks key, trim_blanks (tl rest)))"

definition c_strtod :: "string \<Rightarrow> dbl" where
  "c_strtod s = (case scan_double False (c_str s) of None \<Rightarrow> Fin 0 | Some (x, _) \<Rightarrow> x)"

text \<open>
  \<^verbatim>\<open>strtoul\<close> in base 16 on a 32-bit \<^verbatim>\<open>unsigned long\<close>, and what it stops at; with no digit it stops at the start.
\<close>

definition strtoul16 :: "string \<Rightarrow> nat \<times> string" where
  "strtoul16 s =
     (let s = c_str s; t = dropWhile c_isspace s;
          neg = (t \<noteq> [] \<and> hd t = CHR ''-''); t = (if t \<noteq> [] \<and> (hd t = CHR ''-'' \<or> hd t = CHR ''+'') then tl t else t);
          t = (if length t \<ge> 3 \<and> t ! 0 = CHR ''0'' \<and> (t ! 1 = CHR ''x'' \<or> t ! 1 = CHR ''X'') \<and> hex_digit (t ! 2) then drop 2 t else t);
          ds = takeWhile hex_digit t; n = digits_value 16 (map (the \<circ> hex_val) ds)
      in if ds = [] then (0, s)
         else (if 2 ^ 32 \<le> n then 2 ^ 32 - 1 else if neg then unat (- of_nat n :: u32) else n, drop (length ds) t))"

definition glyph_of :: "string \<Rightarrow> nat" where
  "glyph_of s =
     (let (code, rest) = strtoul16 s
      in if rest = [] \<and> 0 < code \<and> code \<le> 0xFFFF \<and> 1 < length s then code else of_char (hd s))"

section \<open>The file\<close>

definition clamped :: "dbl \<Rightarrow> rat \<Rightarrow> rat \<Rightarrow> dbl" where
  "clamped x lo hi = dbl_clamp x (rnd_double lo) (rnd_double hi)"

definition bump_hud :: "(hud_tuning \<Rightarrow> hud_tuning) \<Rightarrow> tuning \<Rightarrow> tuning option" where
  "bump_hud g t = Some (up_hud (\<lambda>h. (g h)\<lparr>hud_tuning_gen := hud_tuning_gen h + 1\<rparr>) t)"

definition tune_hud :: "string \<Rightarrow> dbl \<Rightarrow> tuning \<Rightarrow> tuning option" where
  "tune_hud key x t =
     (if key = ''hud_x'' then bump_hud (hud_x_update (\<lambda>_. x)) t
      else if key = ''hud_y'' then bump_hud (hud_y_update (\<lambda>_. x)) t
      else if key = ''hud_size'' then bump_hud (hud_size_update (\<lambda>_. clamped x 1 500)) t
      else if key = ''hud_gap'' then bump_hud (hud_gap_update (\<lambda>_. x)) t
      else if key = ''hud_text'' then bump_hud (hud_text_update (\<lambda>_. clamped x 1 200)) t
      else if key = ''hud_pad'' then bump_hud (hud_pad_update (\<lambda>_. clamped x 0 100)) t
      else if key = ''hud_z'' then bump_hud (hud_z_update (\<lambda>_. dbl_trunc (clamped x 0 100000))) t
      else None)"

definition tune_rec :: "string \<Rightarrow> dbl \<Rightarrow> tuning \<Rightarrow> tuning option" where
  "tune_rec key x t =
     (if key = ''forward'' then Some (t\<lparr>rec_forward := clamped x 10 2000\<rparr>)
      else if key = ''right'' then Some (t\<lparr>rec_right := x\<rparr>)
      else if key = ''up'' then Some (t\<lparr>rec_up := x\<rparr>)
      else if key = ''gap'' then Some (t\<lparr>rec_time_right := x\<rparr>)
      else if key = ''dot'' then Some (t\<lparr>rec_dot_size := clamped x (1 / 10) 500\<rparr>)
      else if key = ''text'' then Some (t\<lparr>rec_text_size := clamped x (1 / 10) 500\<rparr>)
      else if key = ''plate_margin'' then Some (t\<lparr>plate_margin_chars := clamped x 0 4\<rparr>)
      else if key = ''plate_h'' then Some (t\<lparr>plate_scale_h := clamped x (3 / 10) 3\<rparr>)
      else if key = ''dot_w'' then Some (t\<lparr>rec_dot_scale_w := clamped x (5 / 100) 10\<rparr>)
      else if key = ''dot_h'' then Some (t\<lparr>rec_dot_scale_h := clamped x (5 / 100) 10\<rparr>)
      else if key = ''dot_up'' then Some (t\<lparr>rec_dot_up := x\<rparr>)
      else if key = ''plate_up'' then Some (t\<lparr>rec_plate_up := x\<rparr>)
      else None)"

definition tune_name :: "string \<Rightarrow> dbl \<Rightarrow> tuning \<Rightarrow> tuning option" where
  "tune_name key x t =
     (if key = ''name_up'' then Some (t\<lparr>nametag_up := clamped x (- 500) 500\<rparr>)
      else if key = ''name_size'' then Some (t\<lparr>nametag_size := clamped x 0 500\<rparr>)
      else if key = ''name_behind'' then Some (t\<lparr>nametag_behind := clamped x 0 100\<rparr>)
      else None)"

definition tune_number :: "string \<Rightarrow> dbl \<Rightarrow> tuning \<Rightarrow> tuning option" where
  "tune_number key number t =
     (let x = clamped number (- 10000) 10000
      in case tune_rec key x t of
           Some t' \<Rightarrow> Some t'
         | None \<Rightarrow> (case tune_hud key x t of Some t' \<Rightarrow> Some t' | None \<Rightarrow> tune_name key x t))"

definition tune_color :: "string \<Rightarrow> tuning \<Rightarrow> tuning option" where
  "tune_color s t =
     (let hex = (if hd s \<noteq> CHR ''#'' then CHR ''#'' # s else s)
      in if length hex = 7 then Some (up_hud (rec_dot_color_update (\<lambda>_. hex)) t) else None)"

text \<open>A line that sets something also marks the numbers as changed.\<close>

definition tune_line :: "string \<Rightarrow> tuning \<Rightarrow> tuning" where
  "tune_line line t =
     (case key_value line of
        None \<Rightarrow> t
      | Some (key, s) \<Rightarrow>
          (case (if key = ''color'' then tune_color s t
                 else if key = ''glyph'' then Some (t\<lparr>rec_glyph := [glyph_of s]\<rparr>)
                 else if \<not> isfinite (c_strtod s) then None
                 else tune_number key (c_strtod s) t) of
             None \<Rightarrow> t | Some t' \<Rightarrow> t'\<lparr>rec_tuning_dirty := True\<rparr>))"

text \<open>The file is read when its text changed; \<open>None\<close> is no file. The nametags' generation moves when something is marked.\<close>

definition read_tuning_file :: "string option \<Rightarrow> tuning \<Rightarrow> tuning" where
  "read_tuning_file file t =
     (case file of
        None \<Rightarrow> t
      | Some s \<Rightarrow>
          if s = tuning_text t then t
          else let t = fold tune_line (text_lines s) (t\<lparr>tuning_text := s\<rparr>)
               in if rec_tuning_dirty t then t\<lparr>nametag_tuning_gen := nametag_tuning_gen t + 1\<rparr> else t)"

definition poll_recording_indicator_tuning ::
    "(string \<Rightarrow> string option) \<Rightarrow> string option \<Rightarrow> tuning \<times> display_config \<times> ghost_ranges \<Rightarrow> bool \<times> tuning \<times> display_config \<times> ghost_ranges" where
  "poll_recording_indicator_tuning texts file st =
     (case st of (t, d, g) \<Rightarrow>
        let (t, d, rebuild) = poll_recording_indicator_config texts (t, d);
            g = poll_ghost_range_config texts g
        in (rebuild, read_tuning_file file t, d, g))"

end
