(* ===== verification/Nametags.thy ===== *)
theory Nametags
  imports Tuning
begin

text \<open>
  The names above the ghosts (\<^verbatim>\<open>Plugin.cpp\<close>: \<^verbatim>\<open>create_text_render_on\<close>, \<^verbatim>\<open>set_text_render_string\<close>,
  \<^verbatim>\<open>create_plate_material\<close>, \<^verbatim>\<open>set_plate_color\<close>, \<^verbatim>\<open>Plugin::update_ghost_nametag\<close>): a text component, and behind it the
  same text again as the colour plate. What an update reads is a \<open>tag_view\<close>, what it does a list of actions. The
  platform's text conversion and its trigonometry are arguments.
\<close>

section \<open>What an update reads\<close>

record trig =
  tg_atan2 :: "dbl \<Rightarrow> dbl \<Rightarrow> dbl"
  tg_sin :: "dbl \<Rightarrow> dbl"
  tg_cos :: "dbl \<Rightarrow> dbl"
  tg_sqrt :: "dbl \<Rightarrow> dbl"

record tag_view =
  tv_fns :: "address \<Rightarrow> reflected"
  tv_has_text :: "address \<Rightarrow> bool"
  tv_has_align :: "address \<Rightarrow> string \<Rightarrow> bool"
  tv_world_size :: "address \<Rightarrow> dbl option"
  tv_scale :: "address \<Rightarrow> triple option"
  tv_text_class :: "address option"
  tv_add_fn :: "ufunction option"
  tv_text_made :: "int \<Rightarrow> address option"
  tv_plate_made :: "int \<Rightarrow> address option"
  tv_master :: "address option"
  tv_mid_made :: "address \<Rightarrow> int \<Rightarrow> address option"
  tv_scale_fn :: "ufunction option"
  tv_place_fn :: "ufunction option"
  tv_floats :: bool
  tv_text_size :: int
  tv_name_size :: int
  tv_wide :: "string \<Rightarrow> nat list"
  tv_powf :: power
  tv_trig :: trig
  tv_ghost_loc :: triple
  tv_camera :: "triple option"
  tv_pawn_loc :: "triple option"
  tv_outfit_top :: "dbl option"

datatype tag_action =
    TagCall address string attempt
  | TagText address "nat list"
  | TagByte address string
  | TagScale address triple

definition tag_call :: "tag_view \<Rightarrow> address \<Rightarrow> string \<Rightarrow> attempt \<Rightarrow> tag_action list" where
  "tag_call v c name att = (if made att then [TagCall c name att] else [])"

text \<open>\<^verbatim>\<open>utf8_to_wide\<close> of nothing is nothing; the rest is the platform's.\<close>

definition utf8_to_wide :: "tag_view \<Rightarrow> string \<Rightarrow> nat list" where
  "utf8_to_wide v s = (if s = [] then [] else tv_wide v s)"

section \<open>Text components\<close>

text \<open>The block of \<^verbatim>\<open>AddComponentByClass\<close> is the one the thrown sword's component is made with; the alignment is centred.\<close>

definition create_text_render_on ::
    "tag_view \<Rightarrow> address option \<Rightarrow> (int \<Rightarrow> address option) \<Rightarrow> tag_action list \<times> address option" where
  "create_text_render_on v owner reply =
     (case (owner, tv_text_class v, tv_add_fn v) of
        (Some g, Some cls, Some f) \<Rightarrow>
          let a = add_component_frame cls f;
              c = (if made a then Option.bind (find_prop ''ReturnValue'' (parms f)) (\<lambda>p. reply (prop_offset p)) else None)
          in (tag_call v g ''AddComponentByClass'' a @
              (case c of None \<Rightarrow> [] | Some x \<Rightarrow> if tv_has_align v x ''HorizontalAlignment'' then [TagByte x ''HorizontalAlignment''] else []), c)
      | _ \<Rightarrow> ([], None))"

definition text_frame :: "int \<Rightarrow> nat list \<Rightarrow> ufunction \<Rightarrow> attempt" where
  "text_frame text_size s f =
     (case find_prop ''Value'' (parms f) of
        None \<Rightarrow> NoFrame
      | Some p \<Rightarrow>
          if parms_size f < prop_offset p + prop_size p then NoFrame
          else Called (poke (prop_offset p) (VText text_size (c_wide s)) (zeroed (parms_size f))))"

text \<open>Without a usable \<^verbatim>\<open>SetText\<close> the property is written and the render state marked.\<close>

definition set_text_render_string :: "tag_view \<Rightarrow> address \<Rightarrow> nat list \<Rightarrow> tag_action list" where
  "set_text_render_string v c s =
     (let a = on_function (Some (tv_fns v c)) ''SetText'' (text_frame (tv_text_size v) s)
      in if made a then [TagCall c ''SetText'' a]
         else if tv_has_text v c
         then TagText c (c_wide s) # tag_call v c ''MarkRenderStateDirty'' (on_function (Some (tv_fns v c)) ''MarkRenderStateDirty'' (\<lambda>_. CalledBare))
         else [])"

definition rebuild_text :: "tag_view \<Rightarrow> address \<Rightarrow> tag_action list" where
  "rebuild_text v c = tag_call v c ''SetWorldSize'' (force_text_rebuild (Some (tv_fns v c)) (tv_world_size v c))"

definition center_tag :: "tag_view \<Rightarrow> address \<Rightarrow> tag_action list" where
  "center_tag v c =
     (if centers_by_property (Some (tv_fns v c))
      then [TagByte c n. n \<leftarrow> [''HorizontalAlignment'', ''VerticalAlignment''], tv_has_align v c n] @ rebuild_text v c
      else concat (map (\<lambda>(n, a). tag_call v c n a)
             (zip [''SetHorizontalAlignment'', ''SetVerticalAlignment''] (center_text_component (Some (tv_fns v c))))))"

definition refresh_frame :: "8 word \<Rightarrow> ufunction \<Rightarrow> attempt" where
  "refresh_frame b f =
     (case find_prop ''bNewVisibility'' (parms f) of
        None \<Rightarrow> NoFrame
      | Some p \<Rightarrow> if parms_size f < prop_offset p + 1 then NoFrame else Called (poke (prop_offset p) (VByte b) (zeroed (parms_size f))))"

definition force_render_refresh :: "tag_view \<Rightarrow> address \<Rightarrow> tag_action list" where
  "force_render_refresh v c =
     concat (map (\<lambda>b. tag_call v c ''SetVisibility'' (on_function (Some (tv_fns v c)) ''SetVisibility'' (refresh_frame b))) [0, 1])"

section \<open>The plate\<close>

definition mid_frame :: "address \<Rightarrow> ufunction \<Rightarrow> (frame \<times> int) option" where
  "mid_frame master f =
     (case (find_prop ''SourceMaterial'' (parms f), find_prop ''ReturnValue'' (parms f)) of
        (Some source, Some ret) \<Rightarrow>
          if parms_size f < 1 then None
          else Some (poke (prop_offset source) (VPtr (Some master))
                 (poke_if (find_prop ''ElementIndex'' (parms f)) (VInt 0) (zeroed (parms_size f))), prop_offset ret)
      | _ \<Rightarrow> None)"

definition material_frame :: "address \<Rightarrow> ufunction \<Rightarrow> attempt" where
  "material_frame mid f =
     (case find_prop ''Material'' (parms f) of
        None \<Rightarrow> NoFrame
      | Some p \<Rightarrow>
          if parms_size f < prop_offset p + 8 then NoFrame
          else Called (poke (prop_offset p) (VPtr (Some mid)) (zeroed (parms_size f))))"

definition create_plate_material :: "tag_view \<Rightarrow> address \<Rightarrow> tag_action list \<times> address option" where
  "create_plate_material v c =
     (case (tv_master v, tv_fns v c ''CreateDynamicMaterialInstance'', tv_fns v c ''SetTextMaterial'') of
        (Some master, Some create_fn, Some set_fn) \<Rightarrow>
          (case mid_frame master create_fn of
             None \<Rightarrow> ([], None)
           | Some (fr, ret) \<Rightarrow>
               let call = [TagCall c ''CreateDynamicMaterialInstance'' (Called fr)]
               in (case tv_mid_made v c ret of
                     None \<Rightarrow> (call, None)
                   | Some mid \<Rightarrow>
                       let a = material_frame mid set_fn
                       in (call @ tag_call v c ''SetTextMaterial'' a, if made a then Some mid else None)))
      | _ \<Rightarrow> ([], None))"

text \<open>A colour is a hash and six hexadecimal digits; the channels go through the sRGB curve in \<^verbatim>\<open>float\<close>.\<close>

definition hex_pair :: "string \<Rightarrow> nat \<Rightarrow> nat option" where
  "hex_pair hex i =
     (case (hex_val (hex ! (1 + i * 2)), hex_val (hex ! (2 + i * 2))) of (Some hi, Some lo) \<Rightarrow> Some (hi * 16 + lo) | _ \<Rightarrow> None)"

definition plate_bytes :: "string \<Rightarrow> (nat \<times> nat \<times> nat) option" where
  "plate_bytes hex =
     (if length hex \<noteq> 7 \<or> hd hex \<noteq> CHR ''#'' then None
      else case (hex_pair hex 0, hex_pair hex 1, hex_pair hex 2) of (Some r, Some g, Some b) \<Rightarrow> Some (r, g, b) | _ \<Rightarrow> None)"

fun float_quot :: "dbl \<Rightarrow> dbl \<Rightarrow> dbl" where
  "float_quot (Fin x) (Fin d) = rnd_float (x / d)"
| "float_quot x _ = x"

fun float_add :: "dbl \<Rightarrow> dbl \<Rightarrow> dbl" where
  "float_add (Fin x) (Fin y) = rnd_float (x + y)"
| "float_add x _ = x"

definition plate_channel :: "power \<Rightarrow> nat \<Rightarrow> dbl" where
  "plate_channel powf b =
     (let x = rnd_float (of_nat b / 255)
      in if dbl_le x (rnd_float (4045 / 100000)) then float_quot x (rnd_float (1292 / 100))
         else powf (float_quot (float_add x (rnd_float (55 / 1000))) (rnd_float (1055 / 1000))) (rnd_float (24 / 10)))"

text \<open>The four floats of the colour structure, each checked for its size.\<close>

definition float_fields :: "fproperty list \<Rightarrow> int \<Rightarrow> (string \<times> dbl) list \<Rightarrow> frame \<Rightarrow> frame option" where
  "float_fields layout base nums fr =
     fold (\<lambda>(n, x) acc. Option.bind acc (\<lambda>fr.
         case find_prop n layout of
           None \<Rightarrow> None
         | Some q \<Rightarrow> if prop_size q \<noteq> 4 then None else Some (poke (base + prop_offset q) (VFloat x) fr))) nums (Some fr)"

definition paint_frame :: "int \<Rightarrow> rgba \<Rightarrow> ufunction \<Rightarrow> attempt" where
  "paint_frame name_size c f =
     (case (find_prop ''ParameterName'' (parms f), find_prop ''Value'' (parms f)) of
        (Some n, Some p) \<Rightarrow>
          (case inner_props p of
             None \<Rightarrow> NoFrame
           | Some layout \<Rightarrow>
               if parms_size f < prop_offset p + prop_size p \<or> prop_size n > name_size then NoFrame
               else attempt_of (parms_size f) (float_fields layout (prop_offset p) (rgba_fields c)
                      (poke (prop_offset n) (VName (prop_size n) ''Color'') (zeroed (parms_size f)))))
      | _ \<Rightarrow> NoFrame)"

definition set_plate_color :: "tag_view \<Rightarrow> address \<Rightarrow> string \<Rightarrow> tag_action list \<times> bool" where
  "set_plate_color v mid hex =
     (case plate_bytes hex of
        None \<Rightarrow> ([], False)
      | Some (r, g, b) \<Rightarrow>
          let ch = plate_channel (tv_powf v);
              a = on_function (Some (tv_fns v mid)) ''SetVectorParameterValue'' (paint_frame (tv_name_size v) (ch r, ch g, ch b, Fin 1))
          in (tag_call v mid ''SetVectorParameterValue'' a, made a))"

section \<open>Where the tag stands\<close>

text \<open>The outfit's declared top: two places of the asset's bounds, by the layout the bounds reflect.\<close>

definition bounds_offsets :: "fproperty \<Rightarrow> (int \<times> int) option" where
  "bounds_offsets bounds =
     Option.bind (inner_props bounds) (\<lambda>bs.
       case (find_prop ''Origin'' bs, find_prop ''BoxExtent'' bs) of
         (Some origin, Some extent) \<Rightarrow>
           map_option (\<lambda>z. (prop_offset origin + prop_offset z, prop_offset extent + prop_offset z))
             (Option.bind (inner_props origin) (find_prop ''Z''))
       | _ \<Rightarrow> None)"

definition outfit_mesh_top_above_actor :: "dbl option \<Rightarrow> fproperty option \<Rightarrow> (int \<Rightarrow> dbl) \<Rightarrow> dbl option" where
  "outfit_mesh_top_above_actor mesh_z bounds asset_at =
     (case (mesh_z, bounds) of
        (Some rel, Some b) \<Rightarrow>
          (case bounds_offsets b of
             None \<Rightarrow> None
           | Some (oz, ez) \<Rightarrow>
               if oz < 0 \<or> ez < 0 then None
               else Some (dbl_add (dbl_add rel (asset_at (prop_offset b + oz))) (asset_at (prop_offset b + ez))))
      | _ \<Rightarrow> None)"

definition tag_height :: "dbl \<Rightarrow> dbl option \<Rightarrow> dbl \<Rightarrow> dbl" where
  "tag_height up outfit_top gz =
     (case outfit_top of
        None \<Rightarrow> dbl_add gz up
      | Some peak \<Rightarrow>
          if dbl_le (Fin 40) peak \<and> dbl_le peak (Fin 400) then dbl_add gz (dbl_add peak (Fin 34)) else dbl_add gz up)"

definition RAD_TO_DEG :: dbl where
  "RAD_TO_DEG = (case rnd_double (314159265358979323846 / 100000000000000000000) of Fin p \<Rightarrow> rnd_double (180 / p) | x \<Rightarrow> x)"

definition over_degrees :: "dbl \<Rightarrow> dbl" where
  "over_degrees x = (case RAD_TO_DEG of Fin d \<Rightarrow> quot x d | _ \<Rightarrow> x)"

text \<open>Location, and the yaw and pitch that face the viewer: the camera, else the player's pawn.\<close>

definition tag_pose :: "tag_view \<Rightarrow> tuning \<Rightarrow> triple \<times> dbl \<times> dbl" where
  "tag_pose v t =
     (case tv_ghost_loc v of
        (gx, gy, gz) \<Rightarrow>
          let tz = tag_height (nametag_up t) (tv_outfit_top v) gz;
              (px, py, pz) = (case tv_camera v of
                                Some p \<Rightarrow> p
                              | None \<Rightarrow> (case tv_pawn_loc v of Some p \<Rightarrow> p | None \<Rightarrow> (gx, dbl_add gy (Fin 1), tz)));
              dx = dbl_sub px gx; dy = dbl_sub py gy;
              yaw = dbl_mult (tg_atan2 (tv_trig v) dy dx) RAD_TO_DEG;
              flat = tg_sqrt (tv_trig v) (dbl_add (dbl_mult dx dx) (dbl_mult dy dy));
              pitch = dbl_mult (tg_atan2 (tv_trig v) (dbl_sub pz tz) flat) RAD_TO_DEG
          in ((gx, gy, tz), yaw, pitch))"

definition plate_place :: "tag_view \<Rightarrow> tuning \<Rightarrow> triple" where
  "plate_place v t =
     (case tag_pose v t of
        ((gx, gy, tz), yaw, pitch) \<Rightarrow>
          let y = over_degrees yaw; p = over_degrees pitch; flat = dbl_mult (tg_cos (tv_trig v) p) (nametag_behind t)
          in (dbl_sub gx (dbl_mult (tg_cos (tv_trig v) y) flat), dbl_sub gy (dbl_mult (tg_sin (tv_trig v) y) flat),
              dbl_sub tz (dbl_mult (tg_sin (tv_trig v) p) (nametag_behind t))))"

definition place_component :: "tag_view \<Rightarrow> address \<Rightarrow> triple \<Rightarrow> triple \<Rightarrow> tag_action list" where
  "place_component v c loc rot =
     tag_call v c ''K2_SetWorldLocationAndRotation'' (set_text_render_transform (tv_floats v) True (tv_place_fn v) loc rot)"

section \<open>The update\<close>

text \<open>The plate's two pointers and the generation; the rest of a tag is in the ghost's latches.\<close>

record tag_parts =
  nametag_plate :: "address option"
  nametag_plate_mid :: "address option"
  tag_tuning_gen :: u32

type_synonym tag_state = "ghost_latches \<times> tag_parts"

definition on_plate :: "tag_parts \<Rightarrow> (address \<Rightarrow> tag_action list) \<Rightarrow> tag_action list" where
  "on_plate p k = (case nametag_plate p of None \<Rightarrow> [] | Some q \<Rightarrow> k q)"

definition scale_plate :: "tag_view \<Rightarrow> tuning \<Rightarrow> nat \<Rightarrow> address \<Rightarrow> tag_action list" where
  "scale_plate v t chars q =
     (let scale = (Fin 1, plate_width_scale_for (plate_margin_chars t) chars, plate_scale_h t);
          (a, held) = set_component_relative_scale (tv_floats v) True (tv_scale_fn v) scale (tv_scale v q)
      in if made a then [TagCall q ''SetRelativeScale3D'' a]
         else (case held of None \<Rightarrow> [] | Some s \<Rightarrow> TagScale q s # rebuild_text v q))"

definition apply_nametag_tuning :: "tag_view \<Rightarrow> tuning \<Rightarrow> nat \<Rightarrow> address \<Rightarrow> tag_parts \<Rightarrow> tag_action list \<times> tag_parts" where
  "apply_nametag_tuning v t chars c p =
     ((if dbl_less (Fin 0) (nametag_size t)
       then tag_call v c ''SetWorldSize'' (call_float_setter (Some (tv_fns v c)) ''SetWorldSize'' (dbl_to_float (nametag_size t))) else []) @
      on_plate p (\<lambda>q.
        (case tv_world_size v c of
           None \<Rightarrow> []
         | Some base \<Rightarrow> tag_call v q ''SetWorldSize'' (call_float_setter (Some (tv_fns v q)) ''SetWorldSize'' base)) @
        scale_plate v t chars q),
      p\<lparr>tag_tuning_gen := nametag_tuning_gen t\<rparr>)"

definition blank_tag :: "tag_view \<Rightarrow> tag_state \<Rightarrow> tag_action list \<times> tag_state" where
  "blank_tag v st =
     (case st of (l, p) \<Rightarrow>
        case nametag_component l of
          None \<Rightarrow> ([], st)
        | Some c \<Rightarrow>
            if nametag_applied_name l = [] then ([], st)
            else (set_text_render_string v c [] @ on_plate p (\<lambda>q. set_text_render_string v q []), (l\<lparr>nametag_applied_name := []\<rparr>, p)))"

text \<open>The plate is kept only when it has a material; its text is blank until it is coloured.\<close>

definition create_plate :: "tag_view \<Rightarrow> tuning \<Rightarrow> address option \<Rightarrow> string \<Rightarrow> address \<Rightarrow> tag_parts \<Rightarrow> tag_action list \<times> tag_parts" where
  "create_plate v t gh name c p =
     (let (acts, plate) = create_text_render_on v gh (tv_plate_made v)
      in case plate of
           None \<Rightarrow> (acts, p\<lparr>nametag_plate := None\<rparr>)
         | Some q \<Rightarrow>
             let (tune_acts, p) = apply_nametag_tuning v t (length (utf8_to_wide v name)) c (p\<lparr>nametag_plate := Some q\<rparr>);
                 (mid_acts, mid) = create_plate_material v q
             in (acts @ set_text_render_string v q [] @ center_tag v c @ center_tag v q @ tune_acts @ mid_acts,
                 p\<lparr>nametag_plate_mid := mid, nametag_plate := (if mid = None then None else Some q)\<rparr>))"

definition create_tag :: "tag_view \<Rightarrow> tuning \<Rightarrow> address option \<Rightarrow> string \<Rightarrow> tag_state \<Rightarrow> tag_action list \<times> tag_state" where
  "create_tag v t gh name st =
     (case st of (l, p) \<Rightarrow>
        if nametag_component l \<noteq> None then ([], st)
        else let (acts, c) = create_text_render_on v gh (tv_text_made v)
             in case c of
                  None \<Rightarrow> (acts, (l\<lparr>nametag_create_failed := True\<rparr>, p))
                | Some x \<Rightarrow> let (acts', p) = create_plate v t gh name x p in (acts @ acts', (l\<lparr>nametag_component := Some x\<rparr>, p)))"

definition color_tag :: "tag_view \<Rightarrow> string \<Rightarrow> string \<Rightarrow> tag_state \<Rightarrow> tag_action list \<times> tag_state" where
  "color_tag v name color st =
     (case st of (l, p) \<Rightarrow>
        case nametag_plate_mid p of
          None \<Rightarrow> ([], st)
        | Some mid \<Rightarrow>
            if nametag_plate_applied_color l = color then ([], st)
            else let (acts, has) = set_plate_color v mid color
                 in (acts @ on_plate p (\<lambda>q. set_text_render_string v q (if has then utf8_to_wide v name else [])),
                     (l\<lparr>nametag_plate_has_color := has, nametag_plate_applied_color := color\<rparr>, p)))"

definition name_tag :: "tag_view \<Rightarrow> string \<Rightarrow> address \<Rightarrow> tag_state \<Rightarrow> tag_action list \<times> tag_state" where
  "name_tag v name c st =
     (case st of (l, p) \<Rightarrow>
        if nametag_applied_name l = name then ([], st)
        else (set_text_render_string v c (utf8_to_wide v name) @
              (if nametag_plate_has_color l then on_plate p (\<lambda>q. set_text_render_string v q (utf8_to_wide v name)) else []),
              (l\<lparr>nametag_applied_name := name\<rparr>, p)))"

definition place_tag :: "tag_view \<Rightarrow> tuning \<Rightarrow> address \<Rightarrow> tag_parts \<Rightarrow> tag_action list" where
  "place_tag v t c p =
     (case tag_pose v t of
        (loc, yaw, pitch) \<Rightarrow>
          place_component v c loc (pitch, yaw, Fin 0) @ on_plate p (\<lambda>q. place_component v q (plate_place v t) (pitch, yaw, Fin 0)))"

definition retune_tag :: "tag_view \<Rightarrow> tuning \<Rightarrow> string \<Rightarrow> address \<Rightarrow> tag_parts \<Rightarrow> tag_action list \<times> tag_parts" where
  "retune_tag v t name c p =
     (if tag_tuning_gen p = nametag_tuning_gen t then ([], p)
      else let (acts, p) = apply_nametag_tuning v t (length (utf8_to_wide v name)) c p
           in (acts @ rebuild_text v c @ on_plate p (rebuild_text v), p))"

definition refresh_tag :: "tag_view \<Rightarrow> bool \<Rightarrow> address \<Rightarrow> tag_parts \<Rightarrow> tag_action list" where
  "refresh_tag v first_application c p =
     (if first_application then force_render_refresh v c @ on_plate p (force_render_refresh v) else [])"

definition wanted_tag :: "(string \<rightharpoonup> nametag) \<Rightarrow> string \<Rightarrow> string \<times> string" where
  "wanted_tag tags player_id = (case tags player_id of None \<Rightarrow> ([], []) | Some g \<Rightarrow> (tag_name g, tag_color g))"

definition draw_tag :: "tag_view \<Rightarrow> tuning \<Rightarrow> string \<Rightarrow> string \<Rightarrow> address \<Rightarrow> tag_state \<Rightarrow> tag_action list \<times> tag_state" where
  "draw_tag v t name color c st =
     (let (color_acts, st) = color_tag v name color st;
          first_application = (nametag_applied_name (fst st) \<noteq> name);
          (name_acts, (l, p)) = name_tag v name c st;
          (tune_acts, p') = retune_tag v t name c p
      in (color_acts @ name_acts @ place_tag v t c p @ tune_acts @ refresh_tag v first_application c p', (l, p')))"

definition update_ghost_nametag ::
    "tag_view \<Rightarrow> tuning \<Rightarrow> (string \<rightharpoonup> nametag) \<Rightarrow> string \<Rightarrow> address option \<Rightarrow> tag_state \<Rightarrow> tag_action list \<times> tag_state" where
  "update_ghost_nametag v t tags player_id gh st =
     (if gh = None \<or> nametag_create_failed (fst st) then ([], st)
      else let (name, color) = wanted_tag tags player_id
           in if name = [] then blank_tag v st
              else let (acts, st) = create_tag v t gh name st
                   in case nametag_component (fst st) of
                        None \<Rightarrow> (acts, st)
                      | Some c \<Rightarrow> let (acts', st) = draw_tag v t name color c st in (acts @ acts', st))"

section \<open>The camera\<close>

definition camera_location_fields :: "ufunction \<Rightarrow> (int \<times> int) list option" where
  "camera_location_fields f =
     (case find_prop ''ReturnValue'' (parms f) of
        None \<Rightarrow> None
      | Some p \<Rightarrow>
          if parms_size f < prop_offset p + prop_size p then None
          else Option.bind (inner_props p) (\<lambda>inner.
            those (map (\<lambda>name. map_option (\<lambda>q. (prop_offset p + prop_offset q, prop_size q)) (find_prop name inner)) [''X'', ''Y'', ''Z''])))"

definition camera_world_location :: "address option \<Rightarrow> (address \<Rightarrow> address option) \<Rightarrow> (address \<Rightarrow> reflected) \<Rightarrow> (int \<Rightarrow> dbl) \<Rightarrow> (int \<Rightarrow> dbl) \<Rightarrow> dbl list option" where
  "camera_world_location ctl manager_of fns double_at float_at =
     Option.bind (Option.bind (Option.bind ctl manager_of) (\<lambda>m. Option.bind (fns m ''GetCameraLocation'') camera_location_fields))
       (\<lambda>ps. Some (map (\<lambda>(off, size). if size = 8 then double_at off else float_at off) ps))"

end
