(* ===== verification/Indicator_Props.thy ===== *)
theory Indicator_Props
  imports Indicator
begin

text \<open>
  What the recording indicator promises: the clock on screen is the time since the recording started, whatever the
  collector took in between, and widgets are on screen only while they are wanted.
\<close>

section \<open>Handles\<close>

lemma handle_get_ptr: "handle_get arr own = Some a \<Longrightarrow> own_ptr own = Some a"
  by (auto simp: handle_get_def split: option.splits if_splits)

lemma handle_get_clear [simp]: "handle_get arr (handle_clear own) = None"
  by (simp add: handle_get_def handle_clear_def)

lemma own_ptr_simps [simp]: "own_ptr (handle_clear own) = None" "own_ptr (handle_set arr a) = a"
  by (simp_all add: handle_clear_def handle_set_def)

lemma handle_get_set:
  "handle_get arr (handle_set arr (Some a)) = Some a \<longleftrightarrow>
     0 \<le> internal_index arr a \<and>
     (\<exists>it. item_at arr (internal_index arr a) = Some it \<and> slot_object it = Some a \<and> \<not> slot_unreachable it \<and> slot_valid it)"
  by (auto simp: handle_get_def handle_set_def split: option.splits)

section \<open>Texts on screen\<close>

text \<open>The text a block carries, and what a list of actions leaves on every text widget.\<close>

fun text_of :: "attempt \<Rightarrow> nat list option" where
  "text_of (Called fr) = (case frame_writes fr of (_, VText _ s) # _ \<Rightarrow> Some s | _ \<Rightarrow> None)"
| "text_of _ = None"

fun ui_effect :: "ui_action \<Rightarrow> (address \<Rightarrow> nat list) \<Rightarrow> address \<Rightarrow> nat list" where
  "ui_effect (UICall a name att) scr =
     (if name = ''SetText'' then (case text_of att of None \<Rightarrow> scr | Some s \<Rightarrow> scr(a := s)) else scr)"
| "ui_effect _ scr = scr"

definition ui_effects :: "ui_action list \<Rightarrow> (address \<Rightarrow> nat list) \<Rightarrow> address \<Rightarrow> nat list" where
  "ui_effects acts scr = fold ui_effect acts scr"

lemma ui_effects_simps [simp]:
  "ui_effects [] scr = scr" "ui_effects (x # xs) scr = ui_effects xs (ui_effect x scr)"
  "ui_effects (xs @ ys) scr = ui_effects ys (ui_effects xs scr)"
  by (simp_all add: ui_effects_def)

lemma ui_call_effect [simp]: "name \<noteq> ''SetText'' \<Longrightarrow> ui_effect (ui_call v a name k) scr = scr"
  by (simp add: ui_call_def)

definition takes_text :: "hud_view \<Rightarrow> bool" where
  "takes_text v \<longleftrightarrow> (\<forall>a. made (hud_call (Some (v_fns v a)) ''SetText'' (fill_text (v_text_size v) [])))"

lemma set_text_effect:
  assumes "takes_text v"
  shows "ui_effect (hud_set_text v a s) scr = scr(a := c_wide s)"
proof -
  have "made (hud_call (Some (v_fns v a)) ''SetText'' (fill_text (v_text_size v) []))" using assms by (simp add: takes_text_def)
  then show ?thesis
    by (auto simp: hud_set_text_def ui_call_def hud_call_def on_function_def attempt_of_def fill_text_def poke_def zeroed_def Let_def
        split: option.splits if_splits)
qed

section \<open>The clock's text\<close>

lemma digits10_nonzero: "c \<in> set (digits10 n) \<Longrightarrow> 48 \<le> c"
  by (induction n rule: digits10.induct) (subst (asm) digits10.simps, auto split: if_splits)

lemma clock_text_nonzero: "0 \<notin> set (clock_text s)"
  by (auto simp: clock_text_def print_int_def dest: digits10_nonzero)

lemma c_wide_nonzero: "0 \<notin> set s \<Longrightarrow> c_wide s = s"
  unfolding c_wide_def by (rule takeWhile_eq_all_conv [THEN iffD2]) metis

lemma clock_text_not_empty [simp]: "clock_text s \<noteq> []"
  by (simp add: clock_text_def)

lemma first_text_clock [simp]: "first_text (clock_text s) = clock_text s"
  by (simp add: first_text_def)

lemma c_wide_clock [simp]: "c_wide (clock_text s) = clock_text s"
  by (simp add: c_wide_nonzero clock_text_nonzero)

lemma first_text_nonzero: "s = [] \<or> s = clock_text e \<Longrightarrow> c_wide (first_text s) = first_text s"
  by (rule c_wide_nonzero) (auto simp: first_text_def wide_def clock_text_nonzero)

lemma elapsed_nonneg: "0 \<le> elapsed_seconds since now"
  by (simp add: elapsed_seconds_def pos_imp_zdiv_nonneg_iff)

section \<open>The invariant\<close>

definition is_clock :: "nat list \<Rightarrow> bool" where
  "is_clock s \<longleftrightarrow> s = [] \<or> (\<exists>e. s = clock_text e)"

lemma is_clock_simps [simp]: "is_clock []" "is_clock (clock_text e)"
  by (auto simp: is_clock_def)

definition hud_inv :: "(address \<Rightarrow> nat list) \<Rightarrow> hud \<Rightarrow> bool" where
  "hud_inv scr h \<longleftrightarrow>
     (hud_last_second h \<noteq> - 1 \<longrightarrow> recording_time_text h = clock_text (hud_last_second h)) \<and>
     is_clock (recording_time_text h) \<and>
     (\<forall>a. own_ptr (hud_text_block h) = Some a \<longrightarrow> scr a = first_text (recording_time_text h))"

lemma new_hud_inv: "hud_inv scr new_hud"
  by (simp add: hud_inv_def new_hud_def no_handle_def)

lemma hud_remove_effect [simp]: "ui_effects (fst (hud_remove v own)) scr = scr"
  by (simp add: hud_remove_def split: option.split)

lemma tear_down_inv: "hud_inv scr h \<Longrightarrow> hud_tear_down v h = (acts, h') \<Longrightarrow> hud_inv (ui_effects acts scr) h'"
  by (auto simp: hud_tear_down_def hud_inv_def split: prod.splits)
     
lemma slot_effects [simp]: "ui_effects (set_slot v a name c) scr = scr" "ui_effects (set_font_size v a px) scr = scr"
  by (simp_all add: set_slot_def set_font_size_def split: option.split)

lemma make_widget_effects: "ui_effects (fst (make_widget v gi name)) scr = scr"
  by (simp add: make_widget_def split: option.split)

lemma place_effects: "ui_effects (fst (hud_place v t vw vh h)) scr = scr"
  by (simp add: hud_place_def Let_def split: option.split)

definition same_clock :: "hud \<Rightarrow> hud \<Rightarrow> bool" where
  "same_clock h' h \<longleftrightarrow> hud_dot h' = hud_dot h \<and> hud_clock h' = hud_clock h \<and> hud_text_block h' = hud_text_block h \<and>
     recording_time_text h' = recording_time_text h \<and> hud_last_second h' = hud_last_second h"

lemma place_same: "same_clock (snd (hud_place v t vw vh h)) h"
  by (simp add: hud_place_def same_clock_def Let_def split: option.split)

lemma measure_same: "same_clock (snd (snd (measure_clock v ctl clock h))) h"
  by (simp add: measure_clock_def same_clock_def Let_def split: option.split prod.split)

lemma layout_same: "same_clock (snd (hud_layout v t ctl dot clock h)) (h\<lparr>hud_last_second := hud_last_second (snd (hud_layout v t ctl dot clock h))\<rparr>)"
proof -
  have "same_clock (snd (snd (measure_clock v ctl clock h))) h" by (rule measure_same)
  moreover have "same_clock (snd (hud_place v t vw vh h')) h'" for vw vh h' by (rule place_same)
  ultimately show ?thesis
    by (auto simp: hud_layout_def same_clock_def Let_def split: prod.splits) (metis snd_conv)+
qed

lemma layout_second: "hud_last_second (snd (hud_layout v t ctl dot clock h)) \<in> {hud_last_second h, - 1}"
proof -
  have "hud_last_second (snd (snd (measure_clock v ctl clock h))) = hud_last_second h" using measure_same by (simp add: same_clock_def)
  moreover have "hud_last_second (snd (hud_place v t vw vh h')) = hud_last_second h'" for vw vh h'
    using place_same by (simp add: same_clock_def)
  ultimately show ?thesis by (auto simp: hud_layout_def Let_def split: prod.splits) (metis snd_conv)+
qed

lemma layout_effects: "ui_effects (fst (hud_layout v t ctl dot clock h)) scr = scr"
proof -
  have "ui_effects (fst (hud_place v t vw vh h')) scr = scr" for vw vh h' by (rule place_effects)
  then show ?thesis by (auto simp: hud_layout_def Let_def split: prod.splits) (metis fst_conv)+
qed

lemma layout_inv: "hud_inv scr h \<Longrightarrow> hud_inv scr (snd (hud_layout v t ctl dot clock h))"
  using layout_same [of v t ctl dot clock h] layout_second [of v t ctl dot clock h] by (auto simp: same_clock_def hud_inv_def)

lemma write_clock:
  assumes takes: "takes_text v" and inv: "hud_inv scr h" and tb: "own_ptr (hud_text_block h) = Some x"
    and w: "hud_write_clock v t since x h = (acts, h')"
  shows "hud_inv (ui_effects acts scr) h' \<and> hud_text_block h' = hud_text_block h \<and> hud_dot h' = hud_dot h \<and> hud_clock h' = hud_clock h \<and>
    ui_effects acts scr x = clock_text (elapsed_seconds since (v_now_ms v))"
proof (cases "elapsed_seconds since (v_now_ms v) = hud_last_second h")
  case True
  then have "acts = []" "h' = h" using w by (simp_all add: hud_write_clock_def Let_def)
  moreover have "hud_last_second h \<noteq> - 1" using True elapsed_nonneg [of since "v_now_ms v"] by simp
  ultimately show ?thesis using True inv tb by (simp add: hud_inv_def)
next
  case False
  let ?s = "elapsed_seconds since (v_now_ms v)"
  let ?h = "h\<lparr>hud_last_second := ?s, recording_time_text := clock_text ?s\<rparr>"
  obtain more where acts: "acts = hud_set_text v x (clock_text ?s) # more" and quiet: "\<And>scr. ui_effects more scr = scr"
    and same: "same_clock h' ?h"
  proof (cases "glyphs_of (clock_text ?s) \<noteq> hud_placed_glyphs h \<and> dbl_less (Fin 0) (hud_vw h)")
    case True
    then have "acts = hud_set_text v x (clock_text ?s) # fst (hud_place v t (hud_vw h) (hud_vh h) ?h)"
        "h' = snd (hud_place v t (hud_vw h) (hud_vh h) ?h)"
      using w False by (simp_all add: hud_write_clock_def Let_def split: prod.splits)
    then show ?thesis by (intro that [of "fst (hud_place v t (hud_vw h) (hud_vh h) ?h)"]) (auto intro: place_effects place_same)
  next
    case place: False
    then have "acts = [hud_set_text v x (clock_text ?s)]" "h' = ?h"
      using w False by (simp_all add: hud_write_clock_def Let_def split: prod.splits if_splits)
    then show ?thesis using that by (simp add: same_clock_def)
  qed
  have "ui_effects acts scr = scr(x := clock_text ?s)"
    by (simp add: acts quiet set_text_effect [OF takes] c_wide_nonzero clock_text_nonzero)
  moreover have "hud_text_block h' = hud_text_block h" "hud_dot h' = hud_dot h" "hud_clock h' = hud_clock h"
      "recording_time_text h' = clock_text ?s" "hud_last_second h' = ?s"
    using same by (simp_all add: same_clock_def)
  ultimately show ?thesis by (simp add: hud_inv_def tb)
qed

lemma update_shows:
  assumes takes: "takes_text v" and inv: "hud_inv scr h" and u: "hud_update v t s ctl h = (acts, h')"
  shows "hud_inv (ui_effects acts scr) h' \<and> hud_whole v h' = hud_whole v h \<and>
    (\<forall>d c x. hud_whole v h = Some (d, c, x) \<longrightarrow> ui_effects acts scr x = clock_text (elapsed_seconds (recording_started_unix_ms s) (v_now_ms v)))"
proof (cases "hud_whole v h")
  case None
  then show ?thesis using u inv by (simp add: hud_update_def)
next
  case (Some w)
  obtain d c x where w: "w = (d, c, x)" by (cases w)
  let ?l = "hud_layout v t ctl d c h"
  obtain acts' where acts: "acts = fst ?l @ acts'" and wr: "hud_write_clock v t (recording_started_unix_ms s) x (snd ?l) = (acts', h')"
    using u by (auto simp: hud_update_def Some w split: prod.splits)
  have same: "hud_text_block (snd ?l) = hud_text_block h" "hud_dot (snd ?l) = hud_dot h" "hud_clock (snd ?l) = hud_clock h"
    using layout_same by (simp_all add: same_clock_def)
  have "handle_get (v_array v) (hud_text_block h) = Some x"
    using Some by (simp add: hud_whole_def w split: option.splits)
  then have "own_ptr (hud_text_block (snd ?l)) = Some x" using same by (simp add: handle_get_ptr)
  note written = write_clock [OF takes layout_inv [OF inv] this wr]
  then have "hud_whole v h' = hud_whole v h" by (simp add: hud_whole_def same)
  then show ?thesis using written by (simp add: acts layout_effects Some w)
qed

lemma dress_effects:
  assumes "takes_text v" and "is_clock s"
  shows "ui_effects (dress_clock v t s d c x) scr = scr(x := first_text s)"
  using assms first_text_nonzero by (auto simp: dress_clock_def set_text_effect is_clock_def)

lemma make_widget_quiet: "make_widget v gi name = (acts, w) \<Longrightarrow> ui_effects acts scr = scr"
  using make_widget_effects [of v gi name scr] by simp

lemma build_inv:
  assumes takes: "takes_text v" and inv: "hud_inv scr h" and b: "hud_build v t h = (built, acts, h')"
  shows "hud_inv (ui_effects acts scr) h' \<and> (built \<or> h' = h)"
proof (cases "v_game_instance v")
  case None
  then show ?thesis using b inv by (auto simp: hud_build_def)
next
  case (Some gi)
  obtain acts1 w1 where w1: "make_widget v gi ''MeshGhostHudDot'' = (acts1, w1)" by (metis surj_pair)
  obtain acts2 w2 where w2: "make_widget v gi ''MeshGhostHudClock'' = (acts2, w2)" by (metis surj_pair)
  note quiet = make_widget_quiet [OF w1] make_widget_quiet [OF w2]
  show ?thesis
  proof (cases "w1 = None \<or> w2 = None \<or> Option.bind w2 (clock_text_block v) = None")
    case True
    then have "h' = h" "acts = acts1 @ acts2" using b by (auto simp: hud_build_def Some w1 w2 split: option.splits)
    then show ?thesis using inv by (simp add: quiet)
  next
    case False
    then obtain d c x where ws: "w1 = Some d" "w2 = Some c" "clock_text_block v c = Some x" by auto
    have "is_clock (recording_time_text h)" using inv by (simp add: hud_inv_def)
    moreover have "built" "acts = acts1 @ acts2 @ dress_clock v t (recording_time_text h) d c x"
        "own_ptr (hud_text_block h') = Some x" "recording_time_text h' = recording_time_text h" "hud_last_second h' = hud_last_second h"
      using b w1 w2 by (auto simp: hud_build_def Some ws)
    ultimately show ?thesis using inv by (simp add: hud_inv_def quiet dress_effects [OF takes])
  qed
qed

lemma tick_shows:
  assumes takes: "takes_text v" and inv: "hud_inv scr h" and tk: "tick_hud_indicator v t s ctl h = (acts, h')"
  shows "hud_inv (ui_effects acts scr) h' \<and>
    (\<forall>d c x. hud_wanted t s \<longrightarrow> ctl \<noteq> None \<longrightarrow> hud_whole v h' = Some (d, c, x) \<longrightarrow>
       ui_effects acts scr x = clock_text (elapsed_seconds (recording_started_unix_ms s) (v_now_ms v)))"
proof (cases "hud_wanted t s \<and> ctl \<noteq> None")
  case False
  then show ?thesis
    using tk inv tear_down_inv [OF inv, of v acts h'] by (auto simp: tick_hud_indicator_def split: if_splits)
next
  case wanted: True
  obtain acts0 h0 where h0: "(if hud_built_gen h \<noteq> hud_tuning_gen t \<and> hud_shown v h then hud_tear_down v h else ([], h)) = (acts0, h0)"
    by (metis surj_pair)
  have inv0: "hud_inv (ui_effects acts0 scr) h0"
    using h0 inv tear_down_inv [OF inv, of v acts0 h0] by (auto split: if_splits)
  show ?thesis
  proof (cases "hud_whole v h0")
    case (Some w)
    then obtain acts1 where "hud_update v t s ctl h0 = (acts1, h')" "acts = acts0 @ acts1"
      using tk wanted h0 by (auto simp: tick_hud_indicator_def split: prod.splits)
    then show ?thesis using update_shows [OF takes inv0] by simp
  next
    case None
    obtain built acts1 h1 where b: "hud_build v t h0 = (built, acts1, h1)" by (metis surj_pair)
    note inv1 = build_inv [OF takes inv0 b]
    show ?thesis
    proof (cases built)
      case True
      obtain acts2 where "hud_update v t s ctl h1 = (acts2, h')" "acts = acts0 @ acts1 @ acts2"
        using tk wanted h0 None b True by (auto simp: tick_hud_indicator_def split: prod.splits)
      then show ?thesis using update_shows [OF takes conjunct1 [OF inv1]] by simp
    next
      case False
      then have "acts = acts0 @ acts1" "h' = h1" "h1 = h0"
        using tk wanted h0 None b inv1 by (auto simp: tick_hud_indicator_def split: prod.splits)
      then show ?thesis using None inv1 by simp
    qed
  qed
qed

section \<open>The clock\<close>

type_synonym hud_frame = "hud_view \<times> hud_tuning \<times> game \<times> address option"

fun hud_step :: "hud_frame \<Rightarrow> (address \<Rightarrow> nat list) \<times> hud \<Rightarrow> (address \<Rightarrow> nat list) \<times> hud" where
  "hud_step (v, t, s, ctl) (scr, h) = (let (acts, h') = tick_hud_indicator v t s ctl h in (ui_effects acts scr, h'))"

definition hud_run :: "hud_frame list \<Rightarrow> (address \<Rightarrow> nat list) \<Rightarrow> (address \<Rightarrow> nat list) \<times> hud" where
  "hud_run turns scr = fold hud_step turns (scr, new_hud)"

lemma hud_run_inv:
  assumes "\<forall>fr\<in>set turns. takes_text (fst fr)"
  shows "case hud_run turns scr of (scr', h) \<Rightarrow> hud_inv scr' h"
proof -
  have "case fold hud_step turns (scr, h) of (scr', h') \<Rightarrow> hud_inv scr' h'" if "hud_inv scr h" for scr h
    using assms that
  proof (induction turns arbitrary: scr h)
    case (Cons fr turns)
    obtain v t s ctl where fr: "fr = (v, t, s, ctl)" by (cases fr)
    obtain acts h1 where tk: "tick_hud_indicator v t s ctl h = (acts, h1)" by (metis surj_pair)
    have "hud_inv (ui_effects acts scr) h1" using tick_shows [OF _ _ tk] Cons.prems by (simp add: fr)
    then show ?case using Cons.IH Cons.prems by (simp add: fr tk)
  qed simp
  then show ?thesis by (simp add: hud_run_def new_hud_inv)
qed

text \<open>
  Property C33. The recording clock is right on every frame it is drawn. After any history of frames (rebuilt after a
  level change, torn down and shown again, retuned, with any reading of the viewport), a frame that wants the indicator
  and leaves its three widgets alive leaves the clock's text at the whole seconds since the recording started, as minutes
  and two digits; \<^verbatim>\<open>SetText\<close> is taken to be reflected on a text block, as it is in the engine.
\<close>

theorem clock_shows_elapsed:
  assumes "\<forall>fr\<in>set turns. takes_text (fst fr)" and "takes_text v"
    and "hud_run turns scr = (scr', h)" and "tick_hud_indicator v t s ctl h = (acts, h')"
    and "hud_wanted t s" and "ctl \<noteq> None" and "hud_whole v h' = Some (d, c, x)"
  shows "ui_effects acts scr' x = clock_text (elapsed_seconds (recording_started_unix_ms s) (v_now_ms v))"
proof -
  have "hud_inv scr' h" using hud_run_inv [OF assms(1)] assms(3) by (metis case_prod_conv)
  then show ?thesis using tick_shows [OF assms(2) _ assms(4)] assms(5-) by blast
qed

section \<open>Only while wanted\<close>

text \<open>
  The widgets on the viewport: a call puts one there or takes it off, and what the collector took is no longer there when
  the next frame begins.
\<close>

fun put_on :: "ui_action \<Rightarrow> address set \<Rightarrow> address set" where
  "put_on (UICall a name att) on =
     (if made att \<and> name = ''AddToViewport'' then insert a on
      else if made att \<and> name = ''RemoveFromParent'' then on - {a} else on)"
| "put_on _ on = on"

definition put_all :: "ui_action list \<Rightarrow> address set \<Rightarrow> address set" where
  "put_all acts on = fold put_on acts on"

lemma put_all_simps [simp]:
  "put_all [] on = on" "put_all (x # xs) on = put_all xs (put_on x on)" "put_all (xs @ ys) on = put_all ys (put_all xs on)"
  by (simp_all add: put_all_def)

definition is_live :: "hud_view \<Rightarrow> address \<Rightarrow> bool" where
  "is_live v a \<longleftrightarrow> handle_get (v_array v) (handle_set (v_array v) (Some a)) = Some a"

fun screen_step :: "hud_frame \<Rightarrow> address set \<times> hud \<Rightarrow> address set \<times> hud" where
  "screen_step (v, t, s, ctl) (on, h) = (let (acts, h') = tick_hud_indicator v t s ctl h in (put_all acts (Set.filter (is_live v) on), h'))"

text \<open>The frames of a history that all find the three widgets alive, or neither box.\<close>

fun whole_frames :: "hud_frame list \<Rightarrow> address set \<times> hud \<Rightarrow> bool" where
  "whole_frames [] st = True"
| "whole_frames (fr # frs) st \<longleftrightarrow> (hud_shown (fst fr) (snd st) \<longrightarrow> hud_whole (fst fr) (snd st) \<noteq> None) \<and> whole_frames frs (screen_step fr st)"

text \<open>An object keeps its index and its name, and a widget has \<^verbatim>\<open>RemoveFromParent\<close>.\<close>

definition steady :: "(address \<Rightarrow> int) \<Rightarrow> (address \<Rightarrow> nat) \<Rightarrow> hud_view \<Rightarrow> bool" where
  "steady ix nx v \<longleftrightarrow> internal_index (v_array v) = ix \<and> name_index (v_array v) = nx \<and> (\<forall>a. v_fns v a ''RemoveFromParent'' \<noteq> None)"

definition holds :: "(address \<Rightarrow> int) \<Rightarrow> (address \<Rightarrow> nat) \<Rightarrow> owned_handle \<Rightarrow> bool" where
  "holds ix nx own \<longleftrightarrow> (\<forall>a. own_ptr own = Some a \<longrightarrow> own_index own = ix a \<and> own_name own = nx a)"

definition on_hud :: "(address \<Rightarrow> int) \<Rightarrow> (address \<Rightarrow> nat) \<Rightarrow> address set \<Rightarrow> hud \<Rightarrow> bool" where
  "on_hud ix nx on h \<longleftrightarrow> holds ix nx (hud_dot h) \<and> holds ix nx (hud_clock h) \<and>
     (\<forall>a\<in>on. own_ptr (hud_dot h) = Some a \<or> own_ptr (hud_clock h) = Some a)"

lemma holds_simps: "holds ix nx (handle_clear own)" "steady ix nx v \<Longrightarrow> holds ix nx (handle_set (v_array v) a)"
  by (auto simp: holds_def steady_def handle_set_def)

lemma holds_get: "steady ix nx v \<Longrightarrow> holds ix nx own \<Longrightarrow> own_ptr own = Some a \<Longrightarrow> is_live v a \<longleftrightarrow> handle_get (v_array v) own = Some a"
  by (simp add: steady_def holds_def is_live_def handle_get_def handle_set_def)

lemma put_remove:
  assumes "steady ix nx v" and "holds ix nx own" and "(\<forall>a\<in>on. is_live v a)"
  shows "put_all (fst (hud_remove v own)) on = on - {a. own_ptr own = Some a}"
proof (cases "handle_get (v_array v) own")
  case None
  then have "a \<notin> on" if "own_ptr own = Some a" for a using holds_get [OF assms(1,2) that] assms(3) by auto
  then show ?thesis using None by (auto simp: hud_remove_def)
next
  case (Some a)
  obtain f where "v_fns v a ''RemoveFromParent'' = Some f" using assms(1) by (auto simp: steady_def)
  then show ?thesis
    using Some handle_get_ptr [OF Some] by (auto simp: hud_remove_def ui_call_def hud_call_def on_function_def attempt_of_def no_fill_def Let_def)
qed

lemma put_tear_down:
  assumes "steady ix nx v" and "on_hud ix nx on h" and "(\<forall>a\<in>on. is_live v a)" and "hud_tear_down v h = (acts, h')"
  shows "put_all acts on = {} \<and> on_hud ix nx {} h' \<and> hud_whole v h' = None"
proof -
  have "acts = fst (hud_remove v (hud_dot h)) @ fst (hud_remove v (hud_clock h))"
    using assms(4) by (auto simp: hud_tear_down_def split: prod.splits)
  moreover have "put_all (fst (hud_remove v (hud_dot h))) on = on - {a. own_ptr (hud_dot h) = Some a}"
    using assms(2) by (intro put_remove [OF assms(1) _ assms(3)]) (simp add: on_hud_def)
  moreover have "put_all (fst (hud_remove v (hud_clock h))) (on - {a. own_ptr (hud_dot h) = Some a}) =
      on - {a. own_ptr (hud_dot h) = Some a} - {a. own_ptr (hud_clock h) = Some a}"
    using assms(2,3) by (intro put_remove [OF assms(1)]) (auto simp: on_hud_def)
  ultimately have "put_all acts on = {}" using assms(2) by (auto simp: on_hud_def)
  then show ?thesis
    using assms(4) by (auto simp: hud_tear_down_def hud_remove_def on_hud_def holds_simps hud_whole_def)
qed

text \<open>Nothing held is alive, so nothing is left on the viewport.\<close>

lemma put_not_shown: "steady ix nx v \<Longrightarrow> on_hud ix nx on h \<Longrightarrow> (\<forall>a\<in>on. is_live v a) \<Longrightarrow> \<not> hud_shown v h \<Longrightarrow> on = {}"
  using holds_get [of ix nx v] by (fastforce simp: on_hud_def hud_shown_def)

lemma put_call: "name \<notin> {''AddToViewport'', ''RemoveFromParent''} \<Longrightarrow> put_on (ui_call v a name k) on = on"
  by (simp add: ui_call_def)

lemma put_set_text [simp]: "put_on (hud_set_text v a s) on = on"
  by (simp add: hud_set_text_def put_call)

lemma put_slot [simp]: "put_all (set_slot v a name c) on = on" "put_all (set_font_size v a px) on = on"
  by (simp_all add: set_slot_def set_font_size_def split: option.split)

lemma put_make_widget: "put_all (fst (make_widget v gi name)) on = on"
  by (simp add: make_widget_def split: option.split)

lemma put_place: "put_all (fst (hud_place v t vw vh h)) on = on"
  by (simp add: hud_place_def Let_def put_call split: option.split)

lemma put_dress: "put_all (dress_clock v t s d c x) on = on"
  by (simp add: dress_clock_def put_call)

lemma put_layout: "put_all (fst (hud_layout v t ctl dot clock h)) on \<subseteq> insert dot (insert clock on)"
proof -
  have "put_all (fst (hud_place v t vw vh h')) on = on" for vw vh h' by (rule put_place)
  then have p: "hud_place v t vw vh h' = (acts, h'') \<Longrightarrow> put_all acts on = on" for vw vh h' acts h'' by (metis fst_conv)
  have q: "put_on (ui_call v a name k) S \<subseteq> insert a S" for a name k S by (auto simp: ui_call_def)
  have two: "put_on (ui_call v clock name k) (put_on (ui_call v dot name' k') on) \<subseteq> insert dot (insert clock on)" for name k name' k'
    using q [of clock name k "put_on (ui_call v dot name' k') on"] q [of dot name' k' on] by blast
  show ?thesis
    by (cases "measure_clock v ctl clock h") (auto simp: hud_layout_def Let_def two [THEN subsetD] p put_place split: prod.splits if_splits dest: two [THEN subsetD])
qed

lemma put_write_clock: "put_all (fst (hud_write_clock v t since x h)) on = on \<and>
    hud_dot (snd (hud_write_clock v t since x h)) = hud_dot h \<and> hud_clock (snd (hud_write_clock v t since x h)) = hud_clock h"
proof -
  have p: "put_all acts on = on \<and> hud_dot h2 = hud_dot h1 \<and> hud_clock h2 = hud_clock h1"
    if "hud_place v t vw vh h1 = (acts, h2)" for vw vh h1 acts h2
    using put_place [of v t vw vh h1 on] place_same [of v t vw vh h1] that by (simp add: same_clock_def)
  show ?thesis by (auto simp: hud_write_clock_def Let_def dest!: p split: prod.split)
qed

lemma put_update:
  assumes "on_hud ix nx on h" and "hud_update v t s ctl h = (acts, h')"
  shows "on_hud ix nx (put_all acts on) h'"
proof (cases "hud_whole v h")
  case None
  then show ?thesis using assms by (simp add: hud_update_def)
next
  case (Some w)
  obtain d c x where w: "w = (d, c, x)" by (cases w)
  let ?l = "hud_layout v t ctl d c h"
  let ?w = "hud_write_clock v t (recording_started_unix_ms s) x (snd ?l)"
  have e: "acts = fst ?l @ fst ?w" "h' = snd ?w" using assms(2) by (auto simp: hud_update_def Some w split: prod.splits)
  have "hud_dot (snd ?l) = hud_dot h" "hud_clock (snd ?l) = hud_clock h" using layout_same by (simp_all add: same_clock_def)
  moreover have "own_ptr (hud_dot h) = Some d" "own_ptr (hud_clock h) = Some c"
    using Some handle_get_ptr by (auto simp: hud_whole_def w split: option.splits)
  ultimately show ?thesis
    using assms(1) put_layout [of v t ctl d c h on] put_write_clock [of v t "recording_started_unix_ms s" x "snd ?l" "put_all (fst ?l) on"]
    by (auto simp: e on_hud_def)
qed

lemma put_build:
  assumes "steady ix nx v" and "on_hud ix nx {} h" and "hud_build v t h = (built, acts, h')"
  shows "put_all acts {} = {} \<and> on_hud ix nx {} h'"
proof (cases "v_game_instance v")
  case None
  then show ?thesis using assms(2,3) by (simp add: hud_build_def)
next
  case (Some gi)
  obtain acts1 w1 where w1: "make_widget v gi ''MeshGhostHudDot'' = (acts1, w1)" by (metis surj_pair)
  obtain acts2 w2 where w2: "make_widget v gi ''MeshGhostHudClock'' = (acts2, w2)" by (metis surj_pair)
  have quiet: "put_all acts1 {} = {}" "put_all acts2 {} = {}"
    using put_make_widget [of v gi "''MeshGhostHudDot''" "{}"] put_make_widget [of v gi "''MeshGhostHudClock''" "{}"] by (simp_all add: w1 w2)
  show ?thesis
    using assms(2,3) quiet
    by (cases w1; cases w2; cases "Option.bind w2 (clock_text_block v)")
       (auto simp: hud_build_def Some w1 w2 put_dress on_hud_def holds_simps(2) [OF assms(1)])
qed

lemma put_tick:
  assumes "steady ix nx v" and "on_hud ix nx on h" and "(\<forall>a\<in>on. is_live v a)" and "hud_shown v h \<longrightarrow> hud_whole v h \<noteq> None"
    and tk: "tick_hud_indicator v t s ctl h = (acts, h')"
  shows "on_hud ix nx (put_all acts on) h' \<and> (\<not> hud_wanted t s \<longrightarrow> put_all acts on = {})"
proof (cases "hud_wanted t s")
  case False
  then show ?thesis
    using tk put_tear_down [OF assms(1-3), of acts h'] put_not_shown [OF assms(1-3)] assms(2)
    by (auto simp: tick_hud_indicator_def split: if_splits)
next
  case wanted: True
  obtain acts0 h0 where h0: "(if hud_built_gen h \<noteq> hud_tuning_gen t \<and> hud_shown v h then hud_tear_down v h else ([], h)) = (acts0, h0)"
    by (metis surj_pair)
  have on0: "on_hud ix nx (put_all acts0 on) h0" and gone: "hud_whole v h0 = None \<Longrightarrow> put_all acts0 on = {}"
    using h0 put_tear_down [OF assms(1-3), of acts0 h0] put_not_shown [OF assms(1-3)] assms(2,4) by (auto split: if_splits)
  have "on_hud ix nx (put_all acts on) h'" if c: "ctl \<noteq> None" and n: "hud_whole v h0 = None"
  proof -
    obtain built acts1 h1 where b: "hud_build v t h0 = (built, acts1, h1)" by (metis surj_pair)
    have on1: "put_all acts1 {} = {}" "on_hud ix nx {} h1" using put_build [OF assms(1) _ b] on0 gone [OF n] by simp_all
    obtain acts2 h2 where u: "hud_update v t s ctl h1 = (acts2, h2)" by (metis surj_pair)
    show ?thesis
      using tk wanted c n h0 b u on1 gone [OF n] put_update [OF on1(2) u] by (cases built) (auto simp: tick_hud_indicator_def)
  qed
  moreover have "on_hud ix nx (put_all acts on) h'" if c: "ctl \<noteq> None" and n: "hud_whole v h0 \<noteq> None"
  proof -
    obtain acts1 h1 where u: "hud_update v t s ctl h0 = (acts1, h1)" by (metis surj_pair)
    show ?thesis using tk wanted c n h0 u put_update [OF on0 u] by (auto simp: tick_hud_indicator_def)
  qed
  moreover have "on_hud ix nx (put_all acts on) h'" if "ctl = None"
    using tk wanted that assms(2) by (simp add: tick_hud_indicator_def)
  ultimately show ?thesis using wanted by blast
qed

lemma screen_run_on:
  assumes "\<forall>fr\<in>set turns. steady ix nx (fst fr)"
  shows "on_hud ix nx (fst st) (snd st) \<Longrightarrow> whole_frames turns st \<Longrightarrow>
    on_hud ix nx (fst (fold screen_step turns st)) (snd (fold screen_step turns st))"
  using assms
proof (induction turns arbitrary: st)
  case (Cons fr turns)
  obtain v t s ctl where fr: "fr = (v, t, s, ctl)" by (cases fr)
  obtain on h where st: "st = (on, h)" by (cases st)
  obtain acts h1 where tk: "tick_hud_indicator v t s ctl h = (acts, h1)" by (metis surj_pair)
  have "on_hud ix nx (Set.filter (is_live v) on) h" using Cons.prems(1) by (simp add: st on_hud_def)
  then have "on_hud ix nx (put_all acts (Set.filter (is_live v) on)) h1" using put_tick [OF _ _ _ _ tk] Cons.prems by (simp add: fr st)
  then show ?case using Cons.IH [of "screen_step fr st"] Cons.prems by (simp add: fr st tk)
qed simp

text \<open>
  Property C34. The indicator does not stay on screen when it is not wanted. After any history of frames (built, placed,
  retuned, lost to the collector and built again), a frame that is not recording, or whose indicator is switched off,
  leaves no live widget of the indicator on the viewport. In the history the dot, the clock and the clock's text live and
  die together, as parts of one game instance's widgets do; an object keeps its index and its name for its life.
\<close>

theorem unwanted_widgets_removed:
  assumes "\<forall>fr\<in>set turns. steady ix nx (fst fr)" and "steady ix nx v"
    and "whole_frames (turns @ [(v, t, s, ctl)]) ({}, new_hud)" and "\<not> hud_wanted t s"
  shows "fst (fold screen_step (turns @ [(v, t, s, ctl)]) ({}, new_hud)) = {}"
proof -
  have w: "whole_frames turns st \<and> (hud_shown v (snd (fold screen_step turns st)) \<longrightarrow> hud_whole v (snd (fold screen_step turns st)) \<noteq> None)"
    if "whole_frames (turns @ [(v, t, s, ctl)]) st" for st
    using that by (induction turns arbitrary: st) simp_all
  obtain on h where run: "fold screen_step turns ({}, new_hud) = (on, h)" by (metis surj_pair)
  obtain acts h' where tk: "tick_hud_indicator v t s ctl h = (acts, h')" by (metis surj_pair)
  have "on_hud ix nx {} new_hud" by (simp add: on_hud_def holds_def new_hud_def no_handle_def)
  then have "on_hud ix nx (Set.filter (is_live v) on) h"
    using screen_run_on [OF assms(1), of "({}, new_hud)"] w [OF assms(3)] by (auto simp: run on_hud_def)
  then have "put_all acts (Set.filter (is_live v) on) = {}"
    using put_tick [OF assms(2) _ _ _ tk] w [OF assms(3)] assms(4) by (simp add: run)
  then show ?thesis by (simp add: run tk)
qed

section \<open>Examples\<close>

text \<open>An engine that makes every object, reflects a text call, and does not know its viewport.\<close>

definition sample_hud_view :: "int \<Rightarrow> hud_view" where
  "sample_hud_view now =
     \<lparr>v_fns = (\<lambda>_ _. Some \<lparr>parms_size = 64, parms = [Prop ''InText'' ''StructProperty'' 0 24 None]\<rparr>),
      v_array = \<lparr>item_at = (\<lambda>i. Some \<lparr>slot_object = Some (nat i), slot_unreachable = False, slot_valid = True\<rparr>),
                 internal_index = int, name_index = id\<rparr>,
      v_game_instance = Some 1, v_make = (\<lambda>cls name _. Some (length cls + length name)), v_has = (\<lambda>_ _. True), v_font = (\<lambda>_. None),
      v_library = None, v_reply = (\<lambda>_ _. \<lparr>reply_size = 0, reply_real = (\<lambda>_. Fin 0), reply_byte = (\<lambda>_. 0)\<rparr>), v_text_size = 24,
      v_pow = (\<lambda>x _. x), v_now_ms = now, v_registry_tick = 1\<rparr>"

definition sample_hud_tuning :: hud_tuning where
  "sample_hud_tuning = \<lparr>hud_x = Fin 26, hud_y = Fin 22, hud_size = Fin 44, hud_gap = Fin 10, hud_text = Fin 30, hud_pad = Fin 4,
     hud_z = 0, hud_tuning_gen = 1, rec_dot_color = [], rec_timer_color = [], rec_indicator_enabled = True\<rparr>"

definition sample_recording :: "bool \<Rightarrow> game" where
  "sample_recording active = (new_game \<lparr>auto_possess_player = 0, light_child_class = None, capsule_overlaps = False\<rparr>)
     \<lparr>recording_active := active, recording_started_unix_ms := 1000\<rparr>"

definition sample_turns :: "hud_frame list" where
  "sample_turns = [(sample_hud_view 3000, sample_hud_tuning, sample_recording True, Some 7)]"

lemma sample_takes_text: "takes_text (sample_hud_view now)"
  by (simp add: takes_text_def sample_hud_view_def hud_call_def on_function_def attempt_of_def fill_text_def hud_param_def find_prop_def)

lemma sample_tick:
  "map_option (\<lambda>(d, c, x). x) (hud_whole (sample_hud_view 66000) (snd (tick_hud_indicator (sample_hud_view 66000) sample_hud_tuning
     (sample_recording True) (Some 7) (snd (hud_run sample_turns (\<lambda>_. [])))))) = Some 43"
  by code_simp

theorem clock_shows_elapsed_witness:
  "\<exists>scr' h acts h'. hud_run sample_turns (\<lambda>_. []) = (scr', h) \<and>
     tick_hud_indicator (sample_hud_view 66000) sample_hud_tuning (sample_recording True) (Some 7) h = (acts, h') \<and>
     ui_effects acts scr' 43 = wide ''1:05''"
proof -
  obtain scr' h where run: "hud_run sample_turns (\<lambda>_. []) = (scr', h)" by (metis surj_pair)
  obtain acts h' where tk:
    "tick_hud_indicator (sample_hud_view 66000) sample_hud_tuning (sample_recording True) (Some 7) h = (acts, h')" by (metis surj_pair)
  obtain d c where "hud_whole (sample_hud_view 66000) h' = Some (d, c, 43)" using sample_tick by (auto simp: run tk)
  moreover have "\<forall>fr\<in>set sample_turns. takes_text (fst fr)" by (simp add: sample_turns_def sample_takes_text)
  moreover have "hud_wanted sample_hud_tuning (sample_recording True)"
    by (simp add: hud_wanted_def sample_hud_tuning_def sample_recording_def)
  ultimately have "ui_effects acts scr' 43 =
      clock_text (elapsed_seconds (recording_started_unix_ms (sample_recording True)) (v_now_ms (sample_hud_view 66000)))"
    using clock_shows_elapsed [OF _ sample_takes_text run tk] by blast
  moreover have "clock_text (elapsed_seconds (recording_started_unix_ms (sample_recording True)) (v_now_ms (sample_hud_view 66000))) = wide ''1:05''"
    by code_simp
  ultimately show ?thesis using run tk by auto
qed

text \<open>A viewport of 1000 by 1000: the first frame puts both boxes on screen, the second does not want them.\<close>

definition placed_hud_view :: hud_view where
  "placed_hud_view = (sample_hud_view 3000)\<lparr>v_library := Some 5,
     v_fns := (\<lambda>_ name. Some \<lparr>parms_size = 64, parms =
       [Prop ''InText'' ''StructProperty'' 0 24 None, Prop ''WorldContextObject'' ''ObjectProperty'' 32 8 None,
        Prop ''ZOrder'' ''IntProperty'' 40 4 None,
        Prop ''ReturnValue'' ''StructProperty'' 48 16
          (Some [Prop ''X'' ''DoubleProperty'' 0 8 None, Prop ''Y'' ''DoubleProperty'' 8 8 None])]\<rparr>),
     v_reply := (\<lambda>_ _. \<lparr>reply_size = 64, reply_real = (\<lambda>_. Fin 1000), reply_byte = (\<lambda>_. 0)\<rparr>)\<rparr>"

definition shown_turns :: "hud_frame list" where
  "shown_turns = [(placed_hud_view, sample_hud_tuning, sample_recording True, Some 7)]"

lemma layout_puts:
  assumes "\<not> hud_in_viewport h" and "hud_viewport_size v ctl = Some (vw, vh)" and "dbl_ne vw (hud_vw h)" and "dbl_less (Fin 0) vw"
    and "\<not> is_in_viewport v dot" and "hud_whole v h = Some (dot, clock, x)"
    and "\<forall>a. made (hud_call (Some (v_fns v a)) ''AddToViewport'' (hud_fill_int ''ZOrder'' (hud_z t)))"
  shows "put_all (fst (hud_layout v t ctl dot clock h)) on = insert clock (insert dot on)"
proof -
  have m: "measure_clock v ctl clock h = ((vw, vh), True, h)" using assms(1-3) by (simp add: measure_clock_def)
  obtain acts h' where p: "hud_place v t vw vh h = (acts, h')" by (metis surj_pair)
  have "put_all acts on = on" using put_place [of v t vw vh h on] by (simp add: p)
  moreover have "hud_vw h' = vw"
    using p assms(6) by (auto simp: hud_place_def hud_whole_def Let_def split: option.splits)
  ultimately show ?thesis using assms(1,4,5,7) by (simp add: hud_layout_def m p ui_call_def)
qed

lemma placed_calls:
  "hud_viewport_size placed_hud_view (Some 7) = Some (Fin 1000, Fin 1000)"
  "\<not> is_in_viewport placed_hud_view a"
  "made (hud_call (Some (v_fns placed_hud_view a)) ''AddToViewport'' (hud_fill_int ''ZOrder'' 0))"
  "takes_text placed_hud_view"
  by (simp_all add: placed_hud_view_def sample_hud_view_def hud_viewport_size_def size_from_def hud_call_def on_function_def
      attempt_of_def hud_fill_int_def hud_fill_object_def fill_one_def hud_param_def find_prop_def hud_read_vec2_def struct_param_def
      real_field_def is_in_viewport_def takes_text_def fill_text_def no_fill_def)

lemma placed_build:
  "case hud_build placed_hud_view sample_hud_tuning new_hud of (built, acts, h) \<Rightarrow>
     built \<and> hud_whole placed_hud_view h = Some (37, 39, 43) \<and> \<not> hud_in_viewport h \<and> hud_vw h = Fin 0"
  by code_simp

lemma shown_turns_on:
  "fst (fold screen_step shown_turns ({}, new_hud)) = {37, 39} \<and>
   whole_frames (shown_turns @ [(placed_hud_view, sample_hud_tuning, sample_recording False, Some 7)]) ({}, new_hud)"
proof -
  let ?v = placed_hud_view and ?t = sample_hud_tuning and ?s = "sample_recording True"
  obtain acts h1 where b: "hud_build ?v ?t new_hud = (True, acts, h1)" and w: "hud_whole ?v h1 = Some (37, 39, 43)"
    and fresh: "\<not> hud_in_viewport h1" "hud_vw h1 = Fin 0"
    using placed_build by (auto split: prod.splits)
  obtain acts2 h2 where u: "hud_update ?v ?t ?s (Some 7) h1 = (acts2, h2)" by (metis surj_pair)
  have st: "steady int id ?v" by (simp add: steady_def placed_hud_view_def sample_hud_view_def)
  have i: "on_hud int id {} new_hud" by (simp add: on_hud_def holds_def new_hud_def no_handle_def)
  have n: "hud_whole ?v new_hud = None" "\<not> hud_shown ?v new_hud"
    by (simp_all add: hud_whole_def hud_shown_def new_hud_def no_handle_def handle_get_def)
  have tk: "tick_hud_indicator ?v ?t ?s (Some 7) new_hud = (acts @ acts2, h2)"
    using n by (simp add: tick_hud_indicator_def hud_wanted_def sample_recording_def sample_hud_tuning_def b [unfolded sample_hud_tuning_def] u [unfolded sample_hud_tuning_def sample_recording_def])
  have "put_all acts {} = {}" using put_build [OF st i b] by simp
  moreover have "put_all acts2 {} = {37, 39}"
  proof -
    have "put_all (fst (hud_layout ?v ?t (Some 7) 37 39 h1)) {} = insert 39 (insert 37 {})"
      using fresh placed_calls by (intro layout_puts [OF _ placed_calls(1) _ _ _ w]) (simp_all add: sample_hud_tuning_def dbl_ne_def)
    moreover have "put_all acts on = on" if "hud_write_clock ?v ?t since x h = (acts, h')" for since x h acts h' on
      using put_write_clock [of ?v ?t since x h on] that by simp
    ultimately show ?thesis using u w by (auto simp: hud_update_def split: prod.splits)
  qed
  moreover have "hud_whole ?v h2 = Some (37, 39, 43)"
    using update_shows [OF placed_calls(4) conjunct1 [OF build_inv [OF placed_calls(4) new_hud_inv b]] u] w by simp
  ultimately show ?thesis using n by (simp add: shown_turns_def tk)
qed

theorem unwanted_widgets_removed_witness:
  "fst (fold screen_step shown_turns ({}, new_hud)) \<noteq> {} \<and>
   fst (fold screen_step (shown_turns @ [(placed_hud_view, sample_hud_tuning, sample_recording False, Some 7)]) ({}, new_hud)) = {}"
  using unwanted_widgets_removed [of shown_turns int id placed_hud_view sample_hud_tuning "sample_recording False" "Some 7"] shown_turns_on
  by (simp add: hud_wanted_def sample_recording_def steady_def shown_turns_def placed_hud_view_def sample_hud_view_def)

end
