(* ===== verification/Tuning_Props.thy ===== *)
theory Tuning_Props
  imports Tuning
begin

definition in_range :: "rat \<Rightarrow> rat \<Rightarrow> dbl \<Rightarrow> bool" where
  "in_range lo hi x \<longleftrightarrow> isfinite x \<and> dbl_le (rnd_double lo) x \<and> dbl_le x (rnd_double hi)"

definition hud_tuning_ok :: "hud_tuning \<Rightarrow> bool" where
  "hud_tuning_ok g \<longleftrightarrow>
     in_range (- 10000) 10000 (hud_x g) \<and> in_range (- 10000) 10000 (hud_y g) \<and> in_range (- 10000) 10000 (hud_gap g) \<and>
     in_range 1 500 (hud_size g) \<and> in_range 1 200 (hud_text g) \<and> in_range 0 100 (hud_pad g) \<and> 0 \<le> hud_z g \<and> hud_z g \<le> 100000"

definition tuning_ok :: "tuning \<Rightarrow> bool" where
  "tuning_ok t \<longleftrightarrow> hud_tuning_ok (t_hud t) \<and>
     in_range 10 2000 (rec_forward t) \<and> in_range (- 10000) 10000 (rec_right t) \<and> in_range (- 10000) 10000 (rec_up t) \<and>
     in_range (- 10000) 10000 (rec_time_right t) \<and> in_range (1 / 10) 500 (rec_dot_size t) \<and> in_range (1 / 10) 500 (rec_text_size t) \<and>
     length (rec_glyph t) = 1 \<and> in_range (5 / 100) 10 (rec_dot_scale_w t) \<and> in_range (5 / 100) 10 (rec_dot_scale_h t) \<and>
     in_range (- 10000) 10000 (rec_dot_up t) \<and> in_range (- 10000) 10000 (rec_plate_up t) \<and>
     in_range 0 4 (plate_margin_chars t) \<and> in_range (3 / 10) 3 (plate_scale_h t) \<and>
     in_range (- 500) 500 (nametag_up t) \<and> in_range 0 500 (nametag_size t) \<and> in_range 0 100 (nametag_behind t)"

lemma rnd_small:
  assumes "- 10000 \<le> q" and "q \<le> 100000"
  shows "\<exists>r. rnd_double q = Fin r \<and> - 10000 \<le> r \<and> r \<le> 100000"
proof -
  have "rnd_double (- 10000) = Fin (- 10000)" "rnd_double 100000 = Fin 100000"
    using rnd_double_int [of "- 10000"] rnd_double_int [of 100000] by simp_all
  then obtain r where "rnd_double q = Fin r" "- 10000 \<le> r" "r \<le> 100000" using double.rnd_between assms by metis
  then show ?thesis by blast
qed

lemma in_range_clamped:
  assumes "isfinite x" and "lo \<le> hi" and "- 10000 \<le> lo" and "hi \<le> 100000"
  shows "in_range lo hi (clamped x lo hi)"
proof -
  obtain l h where lh: "rnd_double lo = Fin l" "rnd_double hi = Fin h" using rnd_small [of lo] rnd_small [of hi] assms by auto
  moreover have "l \<le> h" using double.rnd_mono [OF assms(2)] lh by simp
  moreover obtain q where "x = Fin q" using assms(1) isfinite_iff by blast
  ultimately show ?thesis by (auto simp: in_range_def clamped_def dbl_clamp_def)
qed

lemma in_range_rnd: "lo \<le> q \<Longrightarrow> q \<le> hi \<Longrightarrow> - 10000 \<le> lo \<Longrightarrow> hi \<le> 100000 \<Longrightarrow> in_range lo hi (rnd_double q)"
  using rnd_small [of q] double.rnd_mono [of lo q] double.rnd_mono [of q hi] by (auto simp: in_range_def)

lemma in_range_int: "lo \<le> of_int n \<Longrightarrow> of_int n \<le> hi \<Longrightarrow> - 10000 \<le> lo \<Longrightarrow> hi \<le> 100000 \<Longrightarrow> in_range lo hi (Fin (of_int n))"
  using in_range_rnd [of lo "of_int n" hi] rnd_double_int [of n] by simp

text \<open>A clamped number is finite, whatever it is clamped again to.\<close>

lemma in_range_finite: "in_range lo hi x \<Longrightarrow> isfinite x"
  by (simp add: in_range_def)

lemma trunc_in_range:
  assumes "in_range 0 100000 x"
  shows "0 \<le> dbl_trunc x \<and> dbl_trunc x \<le> 100000"
proof -
  obtain q where q: "x = Fin q" "0 \<le> q" "q \<le> 100000"
    using assms rnd_double_int [of 100000] by (auto simp: in_range_def isfinite_iff)
  then show ?thesis by (simp add: trunc_rat_def)
qed

section \<open>Every step keeps the ranges\<close>

lemma default_tuning_ok: "tuning_ok default_tuning"
  using in_range_int [of "- 10000" 26 10000] in_range_int [of "- 10000" 22 10000] in_range_int [of 1 44 500]
    in_range_int [of "- 10000" 10 10000] in_range_int [of 1 30 200] in_range_int [of 0 4 100] in_range_int [of 10 140 2000]
    in_range_int [of "- 10000" 112 10000] in_range_int [of "- 10000" 72 10000] in_range_int [of "1 / 10" 9 500]
    in_range_int [of "- 500" 110 500] in_range_int [of 0 0 500]
  by (simp add: tuning_ok_def hud_tuning_ok_def default_tuning_def default_hud_tuning_def in_range_rnd wide_def)

lemma tune_rec_ok: "tune_rec key x t = Some t' \<Longrightarrow> tuning_ok t \<Longrightarrow> in_range (- 10000) 10000 x \<Longrightarrow> tuning_ok t'"
  by (auto simp: tune_rec_def tuning_ok_def in_range_finite intro!: in_range_clamped split: if_splits)

lemma tune_name_ok: "tune_name key x t = Some t' \<Longrightarrow> tuning_ok t \<Longrightarrow> in_range (- 10000) 10000 x \<Longrightarrow> tuning_ok t'"
  by (auto simp: tune_name_def tuning_ok_def in_range_finite intro!: in_range_clamped split: if_splits)

lemma tune_hud_ok:
  assumes "tune_hud key x t = Some t'" and "tuning_ok t" and x: "in_range (- 10000) 10000 x"
  shows "tuning_ok t'"
proof -
  have "in_range lo hi (clamped x lo hi)" if "lo \<le> hi" "- 10000 \<le> lo" "hi \<le> 100000" for lo hi
    using that in_range_finite [OF x] by (intro in_range_clamped)
  moreover have "0 \<le> dbl_trunc (clamped x 0 100000) \<and> dbl_trunc (clamped x 0 100000) \<le> 100000"
    by (intro trunc_in_range in_range_clamped in_range_finite [OF x]) simp_all
  ultimately show ?thesis
    using assms by (auto simp: tune_hud_def bump_hud_def tuning_ok_def hud_tuning_ok_def split: if_splits)
qed

lemma tune_number_ok:
  assumes "tune_number key x t = Some t'" and "tuning_ok t" and "isfinite x"
  shows "tuning_ok t'"
proof -
  have "in_range (- 10000) 10000 (clamped x (- 10000) 10000)" using assms(3) by (intro in_range_clamped) simp_all
  then show ?thesis
    using assms by (auto simp: tune_number_def Let_def intro: tune_rec_ok tune_hud_ok tune_name_ok split: option.splits)
qed

lemma mark_dirty_ok [simp]: "tuning_ok (t\<lparr>rec_tuning_dirty := b\<rparr>) = tuning_ok t"
  by (simp add: tuning_ok_def)

lemma tune_line_ok:
  assumes "tuning_ok t" shows "tuning_ok (tune_line line t)"
proof -
  have "tuning_ok t'" if "tune_color s t = Some t'" for s t'
    using that assms by (auto simp: tune_color_def tuning_ok_def hud_tuning_ok_def Let_def split: if_splits)
  moreover have "tuning_ok (t\<lparr>rec_glyph := [c]\<rparr>)" for c using assms by (simp add: tuning_ok_def)
  ultimately show ?thesis
    using assms by (auto simp: tune_line_def intro: tune_number_ok split: option.splits if_splits)
qed

lemma read_tuning_file_ok:
  assumes "tuning_ok t" shows "tuning_ok (read_tuning_file file t)"
proof -
  have "tuning_ok (fold tune_line ls u)" if "tuning_ok u" for ls u
    using that by (induction ls arbitrary: u) (auto simp: tune_line_ok)
  moreover have "tuning_ok (t\<lparr>tuning_text := s\<rparr>)" for s using assms by (simp add: tuning_ok_def)
  moreover have "tuning_ok (u\<lparr>nametag_tuning_gen := n\<rparr>) = tuning_ok u" for u n by (simp add: tuning_ok_def)
  ultimately show ?thesis using assms by (simp add: read_tuning_file_def Let_def split: option.split)
qed

lemma poll_config_ok: "tuning_ok t \<Longrightarrow> tuning_ok (fst (poll_recording_indicator_config texts (t, d)))"
  by (simp add: poll_recording_indicator_config_def poll_indicator_enabled_def poll_indicator_colors_def poll_inputs_enabled_def
      tuning_ok_def hud_tuning_ok_def Let_def split: prod.split option.split)

lemma poll_tuning_fst:
  "fst (snd (poll_recording_indicator_tuning texts file (t, d, g))) =
     read_tuning_file file (fst (poll_recording_indicator_config texts (t, d)))"
  by (simp add: poll_recording_indicator_tuning_def split: prod.split)

text \<open>
  Property C35. No text pushes a tunable out of its range. After any polls of any configuration texts and any
  \<^verbatim>\<open>rec_indicator.txt\<close>, from the shipped values on, every number of the indicator and of the nametags is finite and
  inside the range its reader states, the stacking order is between 0 and 100000 and the glyph is one character.
\<close>

theorem tunables_stay_in_range:
  "tuning_ok (fst (fold (\<lambda>(texts, file) st. snd (poll_recording_indicator_tuning texts file st)) polls (default_tuning, d, g)))"
proof -
  have "tuning_ok (fst (fold (\<lambda>(texts, file) st. snd (poll_recording_indicator_tuning texts file st)) polls (t, d, g)))"
    if "tuning_ok t" for t d g
    using that
  proof (induction polls arbitrary: t d g)
    case (Cons p polls)
    obtain texts fl where p: "p = (texts, fl)" by (cases p)
    obtain t' d' g' where st: "snd (poll_recording_indicator_tuning texts fl (t, d, g)) = (t', d', g')" by (rule prod_cases3)
    then have "tuning_ok t'" using poll_tuning_fst [of texts fl t d g] Cons.prems by (simp add: read_tuning_file_ok poll_config_ok)
    then show ?case using Cons.IH by (simp add: p st)
  qed simp
  then show ?thesis by (simp add: default_tuning_ok)
qed

section \<open>What a poll does not undo\<close>

text \<open>
  Removing \<^verbatim>\<open>rec_indicator.txt\<close>, or a key of it, leaves the numbers it had set; and once something was set, every later
  change of the text moves the nametags' generation, for the mark is taken back only by the world-space indicator.
\<close>

lemma missing_file_keeps_numbers: "read_tuning_file None t = t"
  by (simp add: read_tuning_file_def)

lemma dirty_fold: "rec_tuning_dirty t \<Longrightarrow> rec_tuning_dirty (fold tune_line ls t)"
proof (induction ls arbitrary: t)
  case (Cons l ls)
  then show ?case by (auto simp: tune_line_def split: option.split)
qed simp

lemma nothing_set_still_moves_generation:
  "rec_tuning_dirty t \<Longrightarrow> s \<noteq> tuning_text t \<Longrightarrow>
     nametag_tuning_gen (read_tuning_file (Some s) t) = nametag_tuning_gen (fold tune_line (text_lines s) (t\<lparr>tuning_text := s\<rparr>)) + 1"
  by (simp add: read_tuning_file_def Let_def dirty_fold)

end
