(* ===== verification/Nametag_Props.thy ===== *)
theory Nametag_Props
  imports Nametags Indicator_Props Tuning_Props
begin

text \<open>
  What the nametags promise: whatever the order in which names and colours arrived, and with every call made only on a
  change, the components show what was wanted last.
\<close>

section \<open>Texts on the components\<close>

fun tag_effect :: "tag_action \<Rightarrow> (address \<Rightarrow> nat list) \<Rightarrow> address \<Rightarrow> nat list" where
  "tag_effect (TagCall a name att) scr =
     (if name = ''SetText'' then (case text_of att of None \<Rightarrow> scr | Some s \<Rightarrow> scr(a := s)) else scr)"
| "tag_effect (TagText a s) scr = scr(a := s)"
| "tag_effect _ scr = scr"

definition tag_effects :: "tag_action list \<Rightarrow> (address \<Rightarrow> nat list) \<Rightarrow> address \<Rightarrow> nat list" where
  "tag_effects acts scr = fold tag_effect acts scr"

lemma tag_effects_simps [simp]:
  "tag_effects [] scr = scr" "tag_effects (x # xs) scr = tag_effects xs (tag_effect x scr)"
  "tag_effects (xs @ ys) scr = tag_effects ys (tag_effects xs scr)"
  by (simp_all add: tag_effects_def)

lemma tag_call_effect [simp]: "name \<noteq> ''SetText'' \<Longrightarrow> tag_effects (tag_call v a name att) scr = scr"
  by (simp add: tag_call_def)

lemma on_plate_quiet [simp]: "(\<And>q scr. tag_effects (k q) scr = scr) \<Longrightarrow> tag_effects (on_plate p k) scr = scr"
  by (simp add: on_plate_def split: option.split)

definition name_text :: "(string \<Rightarrow> nat list) \<Rightarrow> string \<Rightarrow> nat list" where
  "name_text w s = c_wide (if s = [] then [] else w s)"

text \<open>
  What the engine is taken to give: a text component's string can be set one way or the other, a material instance takes a
  vector parameter, a new component is a new object; \<open>w\<close> is the platform's conversion of names.
\<close>

definition tag_view_ok :: "(string \<Rightarrow> nat list) \<Rightarrow> tag_view \<Rightarrow> bool" where
  "tag_view_ok w v \<longleftrightarrow> tv_wide v = w \<and>
     (\<forall>c. made (on_function (Some (tv_fns v c)) ''SetText'' (text_frame (tv_text_size v) [])) \<or> tv_has_text v c) \<and>
     (\<forall>m c. made (on_function (Some (tv_fns v m)) ''SetVectorParameterValue'' (paint_frame (tv_name_size v) c))) \<and>
     (\<forall>i j a. tv_text_made v i = Some a \<longrightarrow> tv_plate_made v j \<noteq> Some a)"

lemma c_wide_Nil [simp]: "c_wide [] = []"
  by (simp add: c_wide_def)

lemma wide_name: "tag_view_ok w v \<Longrightarrow> c_wide (utf8_to_wide v s) = name_text w s"
  by (simp add: tag_view_ok_def utf8_to_wide_def name_text_def)

lemma name_text_Nil [simp]: "name_text w [] = []"
  by (simp add: name_text_def)

lemma set_string_effect:
  assumes "tag_view_ok w v"
  shows "tag_effects (set_text_render_string v c s) scr = scr(c := c_wide s)"
proof -
  have *: "made (on_function (Some (tv_fns v c)) ''SetText'' (text_frame (tv_text_size v) [])) \<or> tv_has_text v c"
    using assms by (simp add: tag_view_ok_def)
  show ?thesis
  proof (cases "made (on_function (Some (tv_fns v c)) ''SetText'' (text_frame (tv_text_size v) []))")
    case True
    then show ?thesis
      by (auto simp: set_text_render_string_def on_function_def text_frame_def poke_def zeroed_def Let_def
          split: option.splits if_splits)
  next
    case False
    then have "\<not> made (on_function (Some (tv_fns v c)) ''SetText'' (text_frame (tv_text_size v) s))"
      by (auto simp: on_function_def text_frame_def split: option.splits if_splits)
    then show ?thesis using * False by (simp add: set_text_render_string_def)
  qed
qed

lemma quiet_parts [simp]:
  "tag_effects (rebuild_text v c) scr = scr" "tag_effects (force_render_refresh v c) scr = scr"
  "tag_effects (place_component v c loc rot) scr = scr" "tag_effects (fst (set_plate_color v c hex)) scr = scr"
  by (simp_all add: rebuild_text_def force_render_refresh_def place_component_def set_plate_color_def Let_def
      split: option.split prod.split)

lemma quiet_center [simp]: "tag_effects (center_tag v c) scr = scr"
  by (simp add: center_tag_def center_text_component_def)

lemma quiet_scale [simp]: "tag_effects (scale_plate v t n q) scr = scr"
  by (simp add: scale_plate_def Let_def split: prod.split option.split)

lemma quiet_tuning [simp]: "tag_effects (fst (apply_nametag_tuning v t n c p)) scr = scr"
  by (auto simp: apply_nametag_tuning_def on_plate_def split: option.split)

lemma tuning_parts [simp]:
  "nametag_plate (snd (apply_nametag_tuning v t n c p)) = nametag_plate p"
  "nametag_plate_mid (snd (apply_nametag_tuning v t n c p)) = nametag_plate_mid p"
  by (simp_all add: apply_nametag_tuning_def)

lemma tuning_pair:
  "apply_nametag_tuning v t n c p = (acts, p') \<Longrightarrow> tag_effects acts scr = scr"
  "apply_nametag_tuning v t n c p = (acts, p') \<Longrightarrow> nametag_plate p' = nametag_plate p"
  "apply_nametag_tuning v t n c p = (acts, p') \<Longrightarrow> nametag_plate_mid p' = nametag_plate_mid p"
  by (metis fst_conv quiet_tuning, metis snd_conv tuning_parts(1), metis snd_conv tuning_parts(2))

lemma quiet_material [simp]: "tag_effects (fst (create_plate_material v c)) scr = scr"
  by (auto simp: create_plate_material_def Let_def split: option.splits prod.splits)

lemma quiet_create [simp]: "tag_effects (fst (create_text_render_on v g reply)) scr = scr"
  by (auto simp: create_text_render_on_def Let_def split: option.split)

lemma created: "snd (create_text_render_on v g reply) = Some x \<Longrightarrow> \<exists>i. reply i = Some x"
  by (auto simp: create_text_render_on_def Let_def bind_eq_Some_conv split: option.splits if_splits)

lemma quiet_draw [simp]:
  "tag_effects (place_tag v t c p) scr = scr" "tag_effects (refresh_tag v b c p) scr = scr"
  by (simp_all add: place_tag_def refresh_tag_def split: prod.split)

lemma quiet_retune [simp]:
  "tag_effects (fst (retune_tag v t name c p)) scr = scr"
  "nametag_plate (snd (retune_tag v t name c p)) = nametag_plate p"
  "nametag_plate_mid (snd (retune_tag v t name c p)) = nametag_plate_mid p"
  by (auto simp: retune_tag_def tuning_pair split: prod.split)

section \<open>The invariant\<close>

text \<open>Between the creation and the first name only the first half holds.\<close>

definition tag_pre :: "(string \<Rightarrow> nat list) \<Rightarrow> (address \<Rightarrow> nat list) \<Rightarrow> tag_state \<Rightarrow> bool" where
  "tag_pre w scr st \<longleftrightarrow>
     (case st of (l, p) \<Rightarrow>
        nametag_plate_has_color l = (plate_bytes (nametag_plate_applied_color l) \<noteq> None) \<and>
        (case nametag_component l of
           None \<Rightarrow> nametag_plate p = None \<and> nametag_plate_mid p = None \<and> nametag_applied_name l = []
         | Some c \<Rightarrow>
             \<not> nametag_create_failed l \<and>
             (nametag_applied_name l \<noteq> [] \<longrightarrow> scr c = name_text w (nametag_applied_name l)) \<and>
             (case nametag_plate p of
                None \<Rightarrow> nametag_plate_mid p = None
              | Some q \<Rightarrow> q \<noteq> c \<and> nametag_plate_mid p \<noteq> None \<and>
                  (if nametag_plate_has_color l
                   then nametag_applied_name l \<noteq> [] \<longrightarrow> scr q = name_text w (nametag_applied_name l) else scr q = []))))"

definition tag_inv :: "(string \<Rightarrow> nat list) \<Rightarrow> (address \<Rightarrow> nat list) \<Rightarrow> tag_state \<Rightarrow> bool" where
  "tag_inv w scr st \<longleftrightarrow> tag_pre w scr st \<and>
     (nametag_applied_name (fst st) = [] \<longrightarrow>
        (\<forall>c. nametag_component (fst st) = Some c \<longrightarrow> scr c = [] \<and> (\<forall>q. nametag_plate (snd st) = Some q \<longrightarrow> scr q = [])))"

definition no_parts :: tag_parts where
  "no_parts = \<lparr>nametag_plate = None, nametag_plate_mid = None, tag_tuning_gen = 0\<rparr>"

lemma fresh_tag_inv: "tag_inv w scr (clear_latches l, no_parts)"
  by (simp add: tag_inv_def tag_pre_def clear_latches_def no_parts_def plate_bytes_def)

section \<open>The steps\<close>

lemma create_pair: "create_text_render_on v g reply = (acts, c) \<Longrightarrow> tag_effects acts scr = scr"
  by (metis fst_conv quiet_create)

lemma material_pair: "create_plate_material v c = (acts, m) \<Longrightarrow> tag_effects acts scr = scr"
  by (metis fst_conv quiet_material)

lemma create_plate_shows:
  assumes ok: "tag_view_ok w v" and cr: "create_plate v t gh name c p = (acts, p')"
    and p: "nametag_plate p = None" "nametag_plate_mid p = None"
  shows "(nametag_plate p' = None \<and> nametag_plate_mid p' = None) \<or>
    (\<exists>q. nametag_plate p' = Some q \<and> nametag_plate_mid p' \<noteq> None \<and> tag_effects acts scr q = [] \<and> (\<exists>i. tv_plate_made v i = Some q))"
proof -
  obtain acts1 plate where c1: "create_text_render_on v gh (tv_plate_made v) = (acts1, plate)" by (metis surj_pair)
  show ?thesis
  proof (cases plate)
    case None
    then show ?thesis using cr p by (auto simp: create_plate_def c1)
  next
    case (Some q)
    obtain acts2 p2 where t2: "apply_nametag_tuning v t (length (utf8_to_wide v name)) c (p\<lparr>nametag_plate := Some q\<rparr>) = (acts2, p2)"
      by (metis surj_pair)
    obtain acts3 mid where m3: "create_plate_material v q = (acts3, mid)" by (metis surj_pair)
    have "tag_effects acts scr = scr(q := [])" "nametag_plate_mid p' = mid" "nametag_plate p' = (if mid = None then None else Some q)"
      using cr by (auto simp: create_plate_def c1 t2 m3 Some set_string_effect [OF ok] create_pair [OF c1] tuning_pair [OF t2] material_pair [OF m3])
    moreover have "\<exists>i. tv_plate_made v i = Some q" using created [of v gh "tv_plate_made v" q] by (simp add: c1 Some)
    ultimately show ?thesis by (cases mid) auto
  qed
qed

lemma create_tag_pre:
  assumes ok: "tag_view_ok w v" and pre: "tag_pre w scr st" and cr: "create_tag v t gh name st = (acts, st')"
    and live: "\<not> nametag_create_failed (fst st)"
  shows "tag_pre w (tag_effects acts scr) st' \<and> (nametag_component (fst st') \<noteq> None \<longrightarrow> \<not> nametag_create_failed (fst st')) \<and>
    (nametag_component (fst st') = None \<longrightarrow> nametag_component (fst st) = None)"
proof -
  obtain l p where st: "st = (l, p)" by (cases st)
  show ?thesis
  proof (cases "nametag_component l")
    case (Some c)
    then show ?thesis using cr pre live by (auto simp: create_tag_def st)
  next
    case None
    then have p: "nametag_plate p = None" "nametag_plate_mid p = None" and l: "nametag_applied_name l = []"
        "nametag_plate_has_color l = (plate_bytes (nametag_plate_applied_color l) \<noteq> None)"
      using pre by (simp_all add: tag_pre_def st)
    obtain acts1 c where c1: "create_text_render_on v gh (tv_text_made v) = (acts1, c)" by (metis surj_pair)
    show ?thesis
    proof (cases c)
      case None': None
      then show ?thesis using cr None p l by (auto simp: create_tag_def st c1 tag_pre_def)
    next
      case (Some x)
      obtain acts2 p2 where c2: "create_plate v t gh name x p = (acts2, p2)" by (metis surj_pair)
      have st': "acts = acts1 @ acts2" "st' = (l\<lparr>nametag_component := Some x\<rparr>, p2)"
        using cr None by (auto simp: create_tag_def st c1 c2 Some)
      have "\<exists>i. tv_text_made v i = Some x" using created [of v gh "tv_text_made v" x] by (simp add: c1 Some)
      then have "\<And>q i. tv_plate_made v i = Some q \<Longrightarrow> q \<noteq> x" using ok by (auto simp: tag_view_ok_def)
      then show ?thesis
        using create_plate_shows [OF ok c2 p, of "tag_effects acts1 scr"] l live by (auto simp: st' tag_pre_def st)
    qed
  qed
qed

lemma color_made: "tag_view_ok w v \<Longrightarrow> snd (set_plate_color v m hex) = (plate_bytes hex \<noteq> None)"
  by (auto simp: tag_view_ok_def set_plate_color_def Let_def split: option.split)

lemma color_tag_pre:
  assumes ok: "tag_view_ok w v" and pre: "tag_pre w scr (l, p)" and c: "nametag_component l = Some c"
    and col: "color_tag v name color (l, p) = (acts, st')" and name: "name \<noteq> []"
  shows "snd st' = p \<and> nametag_component (fst st') = Some c \<and> nametag_create_failed (fst st') = nametag_create_failed l \<and>
    nametag_applied_name (fst st') = nametag_applied_name l \<and> (nametag_plate p \<noteq> None \<longrightarrow> nametag_plate_applied_color (fst st') = color) \<and>
    nametag_plate_has_color (fst st') = (plate_bytes (nametag_plate_applied_color (fst st')) \<noteq> None) \<and>
    tag_effects acts scr c = scr c \<and>
    (\<forall>q. nametag_plate p = Some q \<longrightarrow>
       (nametag_applied_name l = name \<longrightarrow> tag_effects acts scr q = (if nametag_plate_has_color (fst st') then name_text w name else [])) \<and>
       (\<not> nametag_plate_has_color (fst st') \<longrightarrow> tag_effects acts scr q = []))"
proof (cases "nametag_plate_mid p = None \<or> nametag_plate_applied_color l = color")
  case True
  then have "acts = []" "st' = (l, p)" using col by (auto simp: color_tag_def split: option.splits)
  then show ?thesis using pre c True name by (auto simp: tag_pre_def split: option.splits if_splits)
next
  case False
  then obtain m q where m: "nametag_plate_mid p = Some m" "nametag_plate p = Some q" using pre c by (auto simp: tag_pre_def split: option.splits)
  obtain acts1 has where s: "set_plate_color v m color = (acts1, has)" by (metis surj_pair)
  have "\<And>scr. tag_effects acts1 scr = scr" using quiet_parts(4) [of v m color] by (simp add: s)
  moreover have "has = (plate_bytes color \<noteq> None)" using color_made [OF ok, of m color] by (simp add: s)
  moreover have "q \<noteq> c" using pre c m by (simp add: tag_pre_def)
  ultimately show ?thesis
    using col False c by (auto simp: color_tag_def m s on_plate_def set_string_effect [OF ok] wide_name [OF ok])
qed

lemma draw_tag_shows:
  assumes ok: "tag_view_ok w v" and pre: "tag_pre w scr (l, p)" and c: "nametag_component l = Some c"
    and dr: "draw_tag v t name color c (l, p) = (acts, st')" and name: "name \<noteq> []"
  shows "tag_inv w (tag_effects acts scr) st' \<and> nametag_component (fst st') = Some c \<and> tag_effects acts scr c = name_text w name \<and>
    (\<forall>q. nametag_plate (snd st') = Some q \<longrightarrow> tag_effects acts scr q = (if plate_bytes color \<noteq> None then name_text w name else []))"
proof -
  obtain acts1 st1 where c1: "color_tag v name color (l, p) = (acts1, st1)" by (metis surj_pair)
  obtain l1 where l1: "st1 = (l1, p)" using color_tag_pre [OF ok pre c c1 name] by (cases st1) simp
  note col = color_tag_pre [OF ok pre c c1 name, unfolded l1, simplified]
  obtain acts2 l2 where n2: "name_tag v name c (l1, p) = (acts2, (l2, p))"
    by (cases "nametag_applied_name l1 = name") (simp_all add: name_tag_def)
  obtain acts3 p3 where r3: "retune_tag v t name c p = (acts3, p3)" by (metis surj_pair)
  have p3: "nametag_plate p3 = nametag_plate p" "nametag_plate_mid p3 = nametag_plate_mid p" "\<And>scr. tag_effects acts3 scr = scr"
    using quiet_retune [of v t name c p] by (simp_all add: r3)
  have st': "st' = (l2, p3)" and eff: "tag_effects acts scr = tag_effects acts2 (tag_effects acts1 scr)"
    using dr by (auto simp: draw_tag_def c1 l1 n2 r3 p3)
  have l2: "l2 = l1\<lparr>nametag_applied_name := name\<rparr>" using n2 by (auto simp: name_tag_def split: if_splits)
  have mid: "nametag_plate p = None \<longleftrightarrow> nametag_plate_mid p = None" "\<And>q. nametag_plate p = Some q \<Longrightarrow> q \<noteq> c"
      "\<not> nametag_create_failed l" "nametag_applied_name l = name \<Longrightarrow> scr c = name_text w name"
    using pre c name by (auto simp: tag_pre_def split: option.splits)
  have comp: "tag_effects acts scr c = name_text w name"
    using n2 col mid by (auto simp: eff name_tag_def on_plate_def set_string_effect [OF ok] wide_name [OF ok] split: if_splits option.splits)
  have plate: "tag_effects acts scr q = (if nametag_plate_has_color l1 then name_text w name else [])" if q: "nametag_plate p = Some q" for q
    using n2 col mid(2) [OF q] q
    by (auto simp: eff name_tag_def on_plate_def set_string_effect [OF ok] wide_name [OF ok] split: if_splits)
  show ?thesis
    using col comp plate mid name by (auto simp: st' l2 p3 tag_inv_def tag_pre_def split: option.split)
qed

lemma blank_tag_inv:
  assumes ok: "tag_view_ok w v" and inv: "tag_inv w scr st" and b: "blank_tag v st = (acts, st')"
  shows "tag_inv w (tag_effects acts scr) st' \<and> nametag_applied_name (fst st') = []"
proof -
  obtain l p where st: "st = (l, p)" by (cases st)
  show ?thesis
  proof (cases "nametag_component l = None \<or> nametag_applied_name l = []")
    case True
    then have "acts = []" "st' = st" using b by (auto simp: blank_tag_def st split: option.splits)
    then show ?thesis using inv True by (auto simp: tag_inv_def tag_pre_def st)
  next
    case False
    then obtain c where c: "nametag_component l = Some c" by auto
    have "acts = set_text_render_string v c [] @ on_plate p (\<lambda>q. set_text_render_string v q [])" "st' = (l\<lparr>nametag_applied_name := []\<rparr>, p)"
      using b False by (simp_all add: blank_tag_def st c)
    then show ?thesis
      using inv by (auto simp: tag_inv_def tag_pre_def st c on_plate_def set_string_effect [OF ok] split: option.splits)
  qed
qed

section \<open>The latest name and colour\<close>

definition tag_shows :: "(string \<Rightarrow> nat list) \<Rightarrow> string \<times> string \<Rightarrow> (address \<Rightarrow> nat list) \<Rightarrow> tag_state \<Rightarrow> bool" where
  "tag_shows w want scr st \<longleftrightarrow>
     (\<forall>c. nametag_component (fst st) = Some c \<longrightarrow> scr c = name_text w (fst want) \<and>
       (\<forall>q. nametag_plate (snd st) = Some q \<longrightarrow> scr q = (if plate_bytes (snd want) \<noteq> None then name_text w (fst want) else [])))"

lemma update_shows_wanted:
  assumes ok: "tag_view_ok w v" and inv: "tag_inv w scr st"
    and up: "update_ghost_nametag v t tags player_id gh st = (acts, st')"
  shows "tag_inv w (tag_effects acts scr) st' \<and> (gh \<noteq> None \<longrightarrow> tag_shows w (wanted_tag tags player_id) (tag_effects acts scr) st')"
proof (cases "gh = None \<or> nametag_create_failed (fst st)")
  case True
  then have "acts = []" "st' = st" using up by (auto simp: update_ghost_nametag_def)
  then show ?thesis using inv True by (auto simp: tag_inv_def tag_pre_def tag_shows_def split: prod.splits option.splits)
next
  case live: False
  obtain name color where want: "wanted_tag tags player_id = (name, color)" by (metis surj_pair)
  show ?thesis
  proof (cases "name = []")
    case True
    then have "blank_tag v st = (acts, st')" using up live by (simp add: update_ghost_nametag_def want)
    then have "tag_inv w (tag_effects acts scr) st'" "nametag_applied_name (fst st') = []" using blank_tag_inv [OF ok inv] by simp_all
    then show ?thesis by (auto simp: tag_shows_def want True tag_inv_def)
  next
    case False
    obtain acts1 st1 where c1: "create_tag v t gh name st = (acts1, st1)" by (metis surj_pair)
    have pre: "tag_pre w scr st" using inv by (simp add: tag_inv_def)
    note made = create_tag_pre [OF ok pre c1]
    show ?thesis
    proof (cases "nametag_component (fst st1)")
      case None
      then have "acts = acts1" "st' = st1" using up live False by (simp_all add: update_ghost_nametag_def want c1)
      then show ?thesis using made live None by (simp add: tag_inv_def tag_shows_def)
    next
      case (Some c)
      obtain l p where st1: "st1 = (l, p)" by (cases st1)
      obtain acts2 st2 where d2: "draw_tag v t name color c (l, p) = (acts2, st2)" by (metis surj_pair)
      have "acts = acts1 @ acts2" "st' = st2" using up live False Some by (simp_all add: update_ghost_nametag_def want c1 st1 d2)
      then show ?thesis
        using draw_tag_shows [OF ok _ _ d2 False, of "tag_effects acts1 scr"] made live Some
        by (auto simp: st1 tag_shows_def want)
    qed
  qed
qed

type_synonym tag_turn = "tag_view \<times> tuning \<times> (string \<rightharpoonup> nametag) \<times> address option"

fun tag_step :: "string \<Rightarrow> tag_turn \<Rightarrow> (address \<Rightarrow> nat list) \<times> tag_state \<Rightarrow> (address \<Rightarrow> nat list) \<times> tag_state" where
  "tag_step player_id (v, t, tags, gh) (scr, st) =
     (let (acts, st') = update_ghost_nametag v t tags player_id gh st in (tag_effects acts scr, st'))"

definition tag_run :: "string \<Rightarrow> tag_turn list \<Rightarrow> (address \<Rightarrow> nat list) \<Rightarrow> ghost_latches \<Rightarrow> (address \<Rightarrow> nat list) \<times> tag_state" where
  "tag_run player_id turns scr l = fold (tag_step player_id) turns (scr, (clear_latches l, no_parts))"

lemma tag_run_inv:
  assumes "\<forall>turn\<in>set turns. tag_view_ok w (fst turn)"
  shows "case tag_run player_id turns scr l of (scr', st) \<Rightarrow> tag_inv w scr' st"
proof -
  have "case fold (tag_step player_id) turns (scr, st) of (scr', st') \<Rightarrow> tag_inv w scr' st'" if "tag_inv w scr st" for scr st
    using assms that
  proof (induction turns arbitrary: scr st)
    case (Cons turn turns)
    obtain v t tags gh where turn: "turn = (v, t, tags, gh)" by (cases turn)
    obtain acts st1 where up: "update_ghost_nametag v t tags player_id gh st = (acts, st1)" by (metis surj_pair)
    have "tag_inv w (tag_effects acts scr) st1" using update_shows_wanted [OF _ _ up] Cons.prems by (simp add: turn)
    then show ?case using Cons.IH Cons.prems by (simp add: turn up)
  qed simp
  then show ?thesis by (simp add: tag_run_def fresh_tag_inv)
qed

text \<open>
  Property C36. A nametag shows what was wanted last. The update makes a call only when the name or the colour changed, yet
  after any history of names and colours (taken away and given back, invalid, changed together or apart) a ghost's text
  component holds the current name, and its plate the same name when the current colour is a colour and nothing
  otherwise, exactly what drawing that name and colour afresh would show.
\<close>

theorem tag_shows_latest:
  assumes "\<forall>turn\<in>set turns. tag_view_ok w (fst turn)" and "tag_view_ok w v"
    and "tag_run player_id turns scr l = (scr', st)"
    and "update_ghost_nametag v t tags player_id (Some g) st = (acts, st')"
  shows "tag_shows w (wanted_tag tags player_id) (tag_effects acts scr') st'"
proof -
  have "tag_inv w scr' st" using tag_run_inv [OF assms(1), of player_id scr l] assms(3) by simp
  then show ?thesis using update_shows_wanted [OF assms(2) _ assms(4)] by simp
qed

section \<open>A renamed player's plate\<close>

text \<open>
  The plate is stretched for the number of characters of the name it was made for: a later rename writes the texts and
  does not touch the scale, until a tuning read moves the generation.
\<close>

lemma rename_keeps_scale:
  assumes "tag_tuning_gen p = nametag_tuning_gen t" and "TagCall q ''SetRelativeScale3D'' a \<in> set (fst (draw_tag v t name color c (l, p)))"
  shows "False"
proof -
  have calls: "TagCall q ''SetRelativeScale3D'' a \<in> set (tag_call v x n att) \<Longrightarrow> n = ''SetRelativeScale3D''" for x n att
    by (auto simp: tag_call_def split: if_splits)
  have "TagCall q ''SetRelativeScale3D'' a \<notin> set (set_text_render_string v x s)" for x s
    using calls by (auto simp: set_text_render_string_def Let_def)
  moreover have "TagCall q ''SetRelativeScale3D'' a \<notin> set (fst (set_plate_color v x s))" for x s
    using calls by (auto simp: set_plate_color_def Let_def split: option.splits prod.splits)
  moreover have "TagCall q ''SetRelativeScale3D'' a \<notin> set (place_component v x loc rot)" for x loc rot
    using calls by (auto simp: place_component_def)
  moreover have "TagCall q ''SetRelativeScale3D'' a \<notin> set (force_render_refresh v x)" for x
    using calls by (auto simp: force_render_refresh_def)
  ultimately show False
    using assms
    by (auto simp: draw_tag_def color_tag_def name_tag_def retune_tag_def place_tag_def refresh_tag_def on_plate_def
        split: prod.splits option.splits if_splits) (metis fst_conv)+
qed

section \<open>The two colour readers\<close>

lemma hex_val_char:
  assumes "hex_val c = Some v"
  shows "\<not> c_isspace c \<and> c \<noteq> chr_nul \<and> c \<noteq> CHR ''-'' \<and> c \<noteq> CHR ''+''"
  using assms by (auto simp: hex_val_def c_isspace_def byte_of_def split: if_splits)

lemma hex_byte_pair:
  assumes "hex_val c = Some v" and "hex_val d = Some u"
  shows "hex_byte [c, d] = Some (16 * v + u)"
  using assms hex_val_char [OF assms(1)] hex_val_char [OF assms(2)] by (simp add: hex_byte_def c_str_def)

text \<open>
  The indicator's colour reader and the plate's agree on every colour the plate accepts: the same three bytes. On what the
  plate refuses they part; the indicator takes a sign for a digit and wraps it around.
\<close>

lemma colour_readers_agree:
  assumes "plate_bytes hex = Some (r, g, b)"
  shows "hud_color pow hex = (linear_of pow r, linear_of pow g, linear_of pow b, Fin 1)"
proof -
  have "length hex = 7" "hd hex = CHR ''#''" using assms by (simp_all add: plate_bytes_def split: if_splits)
  then obtain c1 c2 c3 c4 c5 c6 where hex: "hex = [CHR ''#'', c1, c2, c3, c4, c5, c6]"
    by (auto simp: length_Suc_conv eval_nat_numeral)
  obtain a1 a2 a3 a4 a5 a6 where v: "hex_val c1 = Some a1" "hex_val c2 = Some a2" "hex_val c3 = Some a3"
      "hex_val c4 = Some a4" "hex_val c5 = Some a5" "hex_val c6 = Some a6"
    and rgb: "r = 16 * a1 + a2" "g = 16 * a3 + a4" "b = 16 * a5 + a6"
    using assms by (auto simp: plate_bytes_def hex hex_pair_def split: option.splits)
  show ?thesis
    using hex_byte_pair [OF v(1,2)] hex_byte_pair [OF v(3,4)] hex_byte_pair [OF v(5,6)] by (simp add: hud_color_def hex rgb)
qed

lemma sign_taken_for_digit: "hex_byte ''-5'' = Some 4294967291" "plate_bytes ''#-5-5-5'' = None"
  by (simp_all add: hex_byte_def c_str_def c_isspace_def hex_val_def byte_of_def plate_bytes_def hex_pair_def)

section \<open>An example\<close>

definition sample_parms :: ufunction where
  "sample_parms = \<lparr>parms_size = 128, parms =
     [Prop ''ParameterName'' ''NameProperty'' 0 8 None,
      Prop ''Value'' ''StructProperty'' 16 24 (Some [Prop ''R'' ''FloatProperty'' 0 4 None, Prop ''G'' ''FloatProperty'' 4 4 None,
        Prop ''B'' ''FloatProperty'' 8 4 None, Prop ''A'' ''FloatProperty'' 12 4 None]),
      Prop ''SourceMaterial'' ''ObjectProperty'' 64 8 None, Prop ''Material'' ''ObjectProperty'' 72 8 None,
      Prop ''Class'' ''ClassProperty'' 80 8 None, Prop ''RelativeTransform'' ''StructProperty'' 88 24 None,
      Prop ''ReturnValue'' ''ObjectProperty'' 112 8 None]\<rparr>"

definition sample_tag_view :: tag_view where
  "sample_tag_view = \<lparr>tv_fns = (\<lambda>_ _. Some sample_parms), tv_has_text = (\<lambda>_. False), tv_has_align = (\<lambda>_ _. False),
     tv_world_size = (\<lambda>_. None), tv_scale = (\<lambda>_. None), tv_text_class = Some 1, tv_add_fn = Some sample_parms,
     tv_text_made = (\<lambda>_. Some 2), tv_plate_made = (\<lambda>_. Some 3), tv_master = Some 9, tv_mid_made = (\<lambda>_ _. Some 4),
     tv_scale_fn = None, tv_place_fn = None, tv_floats = False, tv_text_size = 24, tv_name_size = 8, tv_wide = wide,
     tv_powf = (\<lambda>x _. x), tv_trig = \<lparr>tg_atan2 = (\<lambda>x _. x), tg_sin = id, tg_cos = id, tg_sqrt = id\<rparr>,
     tv_ghost_loc = (Fin 0, Fin 0, Fin 0), tv_camera = Some (Fin 0, Fin 0, Fin 0), tv_pawn_loc = None, tv_outfit_top = None\<rparr>"

lemma sample_tag_view_ok: "tag_view_ok wide sample_tag_view"
  by (auto simp: tag_view_ok_def sample_tag_view_def sample_parms_def on_function_def text_frame_def paint_frame_def attempt_of_def
      find_prop_def float_fields_def split: prod.split)

definition sample_tuning :: tuning where
  "sample_tuning = \<lparr>t_hud = sample_hud_tuning, rec_forward = Fin 140, rec_right = Fin 112, rec_up = Fin 72,
     rec_time_right = Fin 13, rec_dot_size = Fin 9, rec_text_size = Fin 9, rec_glyph = [72], rec_dot_scale_w = Fin 1, rec_dot_scale_h = Fin 1,
     rec_dot_up = Fin 0, rec_plate_up = Fin 1, rec_tuning_dirty = False, plate_margin_chars = Fin 0, plate_scale_h = Fin 1,
     nametag_up = Fin 110, nametag_size = Fin 0, nametag_behind = Fin 4, nametag_tuning_gen = 1, tuning_text = [], inputs_enabled = False\<rparr>"

definition sample_tags :: "string \<Rightarrow> string \<Rightarrow> string \<rightharpoonup> nametag" where
  "sample_tags name color = [''a'' \<mapsto> \<lparr>tag_name = name, tag_color = color\<rparr>]"

definition sample_tag_turns :: "tag_turn list" where
  "sample_tag_turns = [(sample_tag_view, sample_tuning, sample_tags ''bo'' ''red'', Some 5)]"

lemma draw_tag_parts:
  "nametag_component (fst (snd (draw_tag v t name color c (l, p)))) = nametag_component l"
  "nametag_plate (snd (snd (draw_tag v t name color c (l, p)))) = nametag_plate p"
  using tuning_pair by (auto simp: draw_tag_def color_tag_def name_tag_def retune_tag_def split: prod.splits option.splits if_splits)

lemma update_parts:
  assumes "wanted_tag tags player_id = (name, color)" and "name \<noteq> []" and "\<not> nametag_create_failed (fst st)"
    and "create_tag v t (Some g) name st = (acts1, (l, p))" and "nametag_component l = Some c"
  shows "nametag_component (fst (snd (update_ghost_nametag v t tags player_id (Some g) st))) = Some c"
    and "nametag_plate (snd (snd (update_ghost_nametag v t tags player_id (Some g) st))) = nametag_plate p"
proof -
  obtain acts2 l2 p2 where d: "draw_tag v t name color c (l, p) = (acts2, (l2, p2))" by (metis surj_pair)
  then have "nametag_component l2 = Some c" "nametag_plate p2 = nametag_plate p"
    using draw_tag_parts [of v t name color c l p] assms(5) by simp_all
  then show "nametag_component (fst (snd (update_ghost_nametag v t tags player_id (Some g) st))) = Some c"
    and "nametag_plate (snd (snd (update_ghost_nametag v t tags player_id (Some g) st))) = nametag_plate p"
    using assms d by (simp_all add: update_ghost_nametag_def)
qed

lemma create_tag_existing: "nametag_component (fst st) = Some c \<Longrightarrow> create_tag v t gh name st = ([], st)"
  by (cases st) (simp add: create_tag_def)

lemma sample_created:
  "(case create_tag sample_tag_view sample_tuning (Some 5) ''bo'' (clear_latches new_latches, no_parts) of
      (acts, (l, p)) \<Rightarrow> nametag_component l = Some 2 \<and> nametag_plate p = Some 3)"
proof -
  have comp: "snd (create_text_render_on sample_tag_view (Some 5) (\<lambda>_. Some x)) = Some x" for x
    by (simp add: create_text_render_on_def sample_tag_view_def add_component_frame_def sample_parms_def find_prop_def)
  have "create_plate_material sample_tag_view 3 = (fst (create_plate_material sample_tag_view 3), Some 4)"
    by (simp add: create_plate_material_def sample_tag_view_def mid_frame_def material_frame_def sample_parms_def find_prop_def)
  moreover have "tv_text_made sample_tag_view = (\<lambda>_. Some 2)" "tv_plate_made sample_tag_view = (\<lambda>_. Some 3)"
    by (simp_all add: sample_tag_view_def)
  ultimately show ?thesis
    using comp [of 2] comp [of 3]
    by (auto simp: create_tag_def create_plate_def clear_latches_def split: prod.splits)
qed

lemma sample_tag_parts:
  "(case update_ghost_nametag sample_tag_view sample_tuning (sample_tags ''al'' ''#000000'') ''a'' (Some 5)
      (snd (tag_run ''a'' sample_tag_turns (\<lambda>_. []) new_latches)) of
      (acts, (l, p)) \<Rightarrow> nametag_component l = Some 2 \<and> nametag_plate p = Some 3)"
proof -
  let ?st0 = "(clear_latches new_latches, no_parts)"
  let ?st1 = "snd (update_ghost_nametag sample_tag_view sample_tuning (sample_tags ''bo'' ''red'') ''a'' (Some 5) ?st0)"
  have st1: "snd (tag_run ''a'' sample_tag_turns (\<lambda>_. []) new_latches) = ?st1"
    by (simp add: tag_run_def sample_tag_turns_def split: prod.split)
  obtain acts l p where "create_tag sample_tag_view sample_tuning (Some 5) ''bo'' ?st0 = (acts, (l, p))"
      and made: "nametag_component l = Some 2" "nametag_plate p = Some 3"
    using sample_created by (auto split: prod.splits)
  then have one: "nametag_component (fst ?st1) = Some 2" "nametag_plate (snd ?st1) = Some 3"
    using update_parts [of "sample_tags ''bo'' ''red''" "''a''" "''bo''" "''red''" ?st0 sample_tag_view sample_tuning 5 acts l p 2]
    by (simp_all add: wanted_tag_def sample_tags_def clear_latches_def)
  have "tag_inv wide (fst (tag_run ''a'' sample_tag_turns (\<lambda>_. []) new_latches)) ?st1"
    using tag_run_inv [of sample_tag_turns wide "''a''" "\<lambda>_. []" new_latches] st1
    by (auto simp: sample_tag_turns_def sample_tag_view_ok split: prod.splits)
  then have "\<not> nametag_create_failed (fst ?st1)" using one by (auto simp: tag_inv_def tag_pre_def split: prod.splits)
  moreover have "create_tag sample_tag_view sample_tuning (Some 5) ''al'' ?st1 = ([], ?st1)"
    by (rule create_tag_existing [OF one(1)])
  ultimately show ?thesis
    using update_parts [of "sample_tags ''al'' ''#000000''" "''a''" "''al''" "''#000000''" ?st1 sample_tag_view sample_tuning 5 "[]" "fst ?st1" "snd ?st1" 2] one
    by (auto simp: st1 wanted_tag_def sample_tags_def split: prod.split)
qed

theorem tag_shows_latest_witness:
  "\<exists>scr' st acts st'. tag_run ''a'' sample_tag_turns (\<lambda>_. []) new_latches = (scr', st) \<and>
     update_ghost_nametag sample_tag_view sample_tuning (sample_tags ''al'' ''#000000'') ''a'' (Some 5) st = (acts, st') \<and>
     tag_effects acts scr' 2 = wide ''al'' \<and> tag_effects acts scr' 3 = wide ''al''"
proof -
  obtain scr' st where run: "tag_run ''a'' sample_tag_turns (\<lambda>_. []) new_latches = (scr', st)" by (metis surj_pair)
  obtain acts l p where up:
    "update_ghost_nametag sample_tag_view sample_tuning (sample_tags ''al'' ''#000000'') ''a'' (Some 5) st = (acts, (l, p))"
    by (metis surj_pair)
  have "\<forall>turn\<in>set sample_tag_turns. tag_view_ok wide (fst turn)" by (simp add: sample_tag_turns_def sample_tag_view_ok)
  from tag_shows_latest [OF this sample_tag_view_ok run up]
  have "tag_shows wide (''al'', ''#000000'') (tag_effects acts scr') (l, p)" by (simp add: wanted_tag_def sample_tags_def)
  moreover have "nametag_component l = Some 2" "nametag_plate p = Some 3" using sample_tag_parts by (simp_all add: run up)
  moreover have "plate_bytes ''#000000'' = Some (0, 0, 0)" "name_text wide ''al'' = wide ''al''" by code_simp+
  ultimately show ?thesis using run up by (auto simp: tag_shows_def)
qed

end
