(* ===== verification/Input_Keys.thy ===== *)
theory Input_Keys
  imports Input_Capture Frames
begin

unbundle bit_operations_syntax

text \<open>
  What \<^verbatim>\<open>Plugin::input_track_sample\<close> asks the engine before it records a frame: the layouts of its three reflected
  calls, the action assets, the table of bound keys, and from them the button mask, the stick and the look axes.
  Signatures, the applied mappings and what a call writes into its block are the running game's, so arguments.
  The lines it logs are left out. A null pointer that the code goes through is the value \<open>None\<close> of a step.
\<close>

section \<open>The stick's call\<close>

definition PARMS_CAP :: int where "PARMS_CAP = 128"
definition RESOLVE_INTERVAL :: u64 where "RESOLVE_INTERVAL = 300"

record bound_layout =
  actor_offset :: int
  action_offset :: int
  return_offset :: int
  return_size :: int
  bound_parms :: int
  layout_resolved :: bool
  layout_refused :: bool

definition new_bound :: bound_layout where
  "new_bound = \<lparr>actor_offset = -1, action_offset = -1, return_offset = -1, return_size = 0, bound_parms = 0,
     layout_resolved = False, layout_refused = False\<rparr>"

definition bound_param :: "fproperty \<Rightarrow> bound_layout \<Rightarrow> bound_layout" where
  "bound_param p l =
     (if prop_name p = ''Actor'' then l\<lparr>actor_offset := prop_offset p\<rparr>
      else if prop_name p = ''Action'' then l\<lparr>action_offset := prop_offset p\<rparr>
      else if prop_name p = ''ReturnValue'' then l\<lparr>return_offset := prop_offset p, return_size := prop_size p\<rparr>
      else l)"

definition plausible :: "bound_layout \<Rightarrow> bool" where
  "plausible l \<longleftrightarrow>
     actor_offset l \<ge> 0 \<and> action_offset l \<ge> 0 \<and> return_offset l \<ge> 0 \<and>
     return_size l = INPUT_ACTION_VALUE_SIZE \<and> bound_parms l > 0 \<and> bound_parms l \<le> PARMS_CAP \<and>
     return_offset l + return_size l \<le> bound_parms l"

text \<open>
  The function and the library object are looked up once in the process. A missing one is refused, and the
  function is then read all the same.
\<close>

record input_library =
  bound_function :: "ufunction option"
  library_there :: bool

definition resolve_bound :: "input_library \<Rightarrow> bound_layout \<Rightarrow> bound_layout option" where
  "resolve_bound lib l =
     (if layout_resolved l \<or> layout_refused l then Some l
      else
        let l = (if bound_function lib = None \<or> \<not> library_there lib then l\<lparr>layout_refused := True\<rparr> else l)
        in case bound_function lib of
             None \<Rightarrow> None
           | Some f \<Rightarrow>
               let l = fold bound_param (parms f) (l\<lparr>bound_parms := parms_size f\<rparr>)
               in Some (if plausible l then l\<lparr>layout_resolved := True\<rparr> else l\<lparr>layout_refused := True\<rparr>))"

definition or_zero :: "dbl \<Rightarrow> dbl" where
  "or_zero d = (if isfinite d then d else Fin 0)"

text \<open>The outer \<open>None\<close> is the null library object; the inner one is false.\<close>

definition read_value ::
  "input_library \<Rightarrow> (frame \<Rightarrow> int \<Rightarrow> dbl) \<Rightarrow> bound_layout \<Rightarrow> address \<Rightarrow> address option \<Rightarrow> triple option option" where
  "read_value lib reply l pawn action =
     (if action = None \<or> \<not> layout_resolved l then Some None
      else if \<not> library_there lib then None
      else
        let block = poke (action_offset l) (VPtr action) (poke (actor_offset l) (VPtr (Some pawn)) (zeroed PARMS_CAP));
            out = (\<lambda>i. or_zero (reply block (return_offset l + 8 * i)))
        in Some (Some (out 0, out 1, out 2)))"

section \<open>The buttons' call\<close>

record key_layout =
  key_fn_owner :: "address option"
  key_fn :: "ufunction option"
  key_param_offset :: int
  key_param_size :: int
  keyname_offset :: int
  keyname_size :: int
  key_ret_offset :: int
  key_parms_size :: int
  key_layout_refused :: bool

definition new_key_layout :: key_layout where
  "new_key_layout = \<lparr>key_fn_owner = None, key_fn = None, key_param_offset = -1, key_param_size = 0, keyname_offset = -1,
     keyname_size = 0, key_ret_offset = -1, key_parms_size = 0, key_layout_refused = False\<rparr>"

definition struct_prop :: "string \<Rightarrow> fproperty \<Rightarrow> bool" where
  "struct_prop name p \<longleftrightarrow> prop_name p = name \<and> prop_class p = ''StructProperty''"

definition struct_fields :: "fproperty \<Rightarrow> fproperty list" where
  "struct_fields p = (case inner_props p of None \<Rightarrow> [] | Some fs \<Rightarrow> fs)"

definition keyname_field :: "fproperty \<Rightarrow> key_layout \<Rightarrow> key_layout" where
  "keyname_field f l =
     (if prop_name f = ''KeyName'' then l\<lparr>keyname_offset := prop_offset f, keyname_size := prop_size f\<rparr> else l)"

definition key_param :: "fproperty \<Rightarrow> key_layout \<Rightarrow> key_layout" where
  "key_param p l =
     (if struct_prop ''Key'' p
      then fold keyname_field (struct_fields p) (l\<lparr>key_param_offset := prop_offset p, key_param_size := prop_size p\<rparr>)
      else if prop_name p = ''ReturnValue'' then l\<lparr>key_ret_offset := prop_offset p\<rparr>
      else l)"

definition key_layout_ok :: "key_layout \<Rightarrow> bool" where
  "key_layout_ok l \<longleftrightarrow>
     key_fn l \<noteq> None \<and> key_param_offset l \<ge> 0 \<and> keyname_offset l \<ge> 0 \<and> key_ret_offset l \<ge> 0 \<and>
     keyname_size l > 0 \<and> keyname_size l \<le> 16 \<and> key_param_size l \<ge> keyname_offset l + keyname_size l \<and>
     key_parms_size l > 0 \<and> key_parms_size l \<le> PARMS_CAP \<and> key_ret_offset l < key_parms_size l"

text \<open>Resolved again for another controller; the sizes found before are kept where the new function gives none.\<close>

definition resolve_key :: "address \<Rightarrow> reflected \<Rightarrow> key_layout \<Rightarrow> key_layout" where
  "resolve_key controller fns l =
     (if key_layout_refused l \<or> (key_fn l \<noteq> None \<and> key_fn_owner l = Some controller) then l
      else
        let l = l\<lparr>key_fn := fns ''IsInputKeyDown'', key_fn_owner := Some controller,
                  key_param_offset := -1, keyname_offset := -1, key_ret_offset := -1\<rparr>;
            l = (case key_fn l of
                   None \<Rightarrow> l
                 | Some f \<Rightarrow> fold key_param (parms f) (l\<lparr>key_parms_size := parms_size f\<rparr>))
        in if key_layout_ok l then l else l\<lparr>key_layout_refused := True\<rparr>)"

section \<open>The look's call\<close>

record vec_layout =
  vec_fn_owner :: "address option"
  vec_fn :: "ufunction option"
  vec_key_offset :: int
  vec_ret_offset :: int
  vec_parms_size :: int
  vec_layout_refused :: bool

definition new_vec_layout :: vec_layout where
  "new_vec_layout = \<lparr>vec_fn_owner = None, vec_fn = None, vec_key_offset = -1, vec_ret_offset = -1, vec_parms_size = 0,
     vec_layout_refused = False\<rparr>"

text \<open>The sizes are locals of the block: the last matching parameter's, zero without one.\<close>

definition size_of :: "fproperty option \<Rightarrow> int" where
  "size_of q = (case q of None \<Rightarrow> 0 | Some p \<Rightarrow> prop_size p)"

definition offset_in :: "fproperty option \<Rightarrow> int" where
  "offset_in q = (case q of None \<Rightarrow> -1 | Some p \<Rightarrow> prop_offset p)"

definition last_struct :: "string \<Rightarrow> fproperty list \<Rightarrow> fproperty option" where
  "last_struct name ps = List.find (struct_prop name) (rev ps)"

definition resolve_vec :: "address \<Rightarrow> reflected \<Rightarrow> key_layout \<Rightarrow> vec_layout \<Rightarrow> vec_layout" where
  "resolve_vec controller fns k l =
     (if vec_layout_refused l \<or> key_layout_refused k \<or> (vec_fn l \<noteq> None \<and> vec_fn_owner l = Some controller) then l
      else
        let fn = fns ''GetInputVectorKeyState'';
            ps = (case fn of None \<Rightarrow> [] | Some f \<Rightarrow> parms f);
            key = last_struct ''Key'' ps; ret = last_struct ''ReturnValue'' ps;
            l = l\<lparr>vec_fn := fn, vec_fn_owner := Some controller,
                  vec_key_offset := offset_in key, vec_ret_offset := offset_in ret,
                  vec_parms_size := (case fn of None \<Rightarrow> vec_parms_size l | Some f \<Rightarrow> parms_size f)\<rparr>;
            ok = (fn \<noteq> None \<and> vec_key_offset l \<ge> 0 \<and> vec_ret_offset l \<ge> 0 \<and> size_of key = key_param_size k \<and>
                  size_of ret = 24 \<and> vec_parms_size l > 0 \<and> vec_parms_size l \<le> PARMS_CAP \<and>
                  vec_ret_offset l + size_of ret \<le> vec_parms_size l)
        in if ok then l else l\<lparr>vec_layout_refused := True\<rparr>)"

section \<open>The action assets\<close>

definition action_path :: "string \<Rightarrow> string" where
  "action_path name = ''/Game/ThirdPerson/Input/Actions/'' @ name @ ''.'' @ name"

definition BUTTONS :: "string list" where
  "BUTTONS = map action_path [''IA_Jump'', ''IA_Attack'', ''IA_Crouch'', ''IA_WallRide'', ''IA_Throw'', ''IA_Guard'',
     ''IA_Interact'', ''IA_LockOn'', ''IA_Power'', ''IA_QuickMap'', ''IA_PerspectiveToggle'']"

definition MOVE :: string where "MOVE = action_path ''IA_Move''"
definition LOOK :: string where "LOOK = action_path ''IA_Look''"

record action_slots =
  button_assets :: "address option list"
  move_asset :: "address option"
  look_asset :: "address option"

definition new_slots :: action_slots where
  "new_slots = \<lparr>button_assets = replicate (length BUTTONS) None, move_asset = None, look_asset = None\<rparr>"

definition resolve_slot :: "u64 \<Rightarrow> (string \<Rightarrow> address option) \<Rightarrow> string \<Rightarrow> address option \<Rightarrow> address option" where
  "resolve_slot frame load path asset =
     (if asset \<noteq> None \<or> frame mod RESOLVE_INTERVAL \<noteq> 1 then asset else load path)"

definition resolve_slots :: "u64 \<Rightarrow> (string \<Rightarrow> address option) \<Rightarrow> action_slots \<Rightarrow> action_slots" where
  "resolve_slots frame load s =
     \<lparr>button_assets = map2 (resolve_slot frame load) BUTTONS (button_assets s),
      move_asset = resolve_slot frame load MOVE (move_asset s),
      look_asset = resolve_slot frame load LOOK (look_asset s)\<rparr>"

section \<open>The key table\<close>

record key_entry =
  entry_name :: "8 word list"
  entry_bits :: u32

record key_table =
  table_keys :: "key_entry list"
  table_look :: "key_entry list"
  table_seen :: nat

definition no_keys :: key_table where
  "no_keys = \<lparr>table_keys = [], table_look = [], table_seen = 0\<rparr>"

text \<open>An element of the mapping array, read by offset; the array's inner type gives the offsets.\<close>

record mapping =
  ptr_at :: "int \<Rightarrow> address option"
  bytes_at :: "int \<Rightarrow> nat \<Rightarrow> 8 word list"

record applied_mappings =
  applied_class :: string
  applied_inner :: "fproperty option"
  applied_elems :: "mapping option list"

record mapping_layout =
  map_action_off :: int
  map_key_off :: int
  map_kn_off :: int
  map_kn_size :: int

definition map_keyname :: "fproperty \<Rightarrow> mapping_layout \<Rightarrow> mapping_layout" where
  "map_keyname g l = (if prop_name g = ''KeyName'' then l\<lparr>map_kn_off := prop_offset g, map_kn_size := prop_size g\<rparr> else l)"

definition map_field :: "fproperty \<Rightarrow> mapping_layout \<Rightarrow> mapping_layout" where
  "map_field f l =
     (if prop_name f = ''Action'' then l\<lparr>map_action_off := prop_offset f\<rparr>
      else if struct_prop ''Key'' f then fold map_keyname (struct_fields f) (l\<lparr>map_key_off := prop_offset f\<rparr>)
      else l)"

definition mapping_fields :: "fproperty list \<Rightarrow> mapping_layout" where
  "mapping_fields fs = fold map_field fs \<lparr>map_action_off = -1, map_key_off = -1, map_kn_off = -1, map_kn_size = 0\<rparr>"

definition mapping_ok :: "mapping_layout \<Rightarrow> bool" where
  "mapping_ok l \<longleftrightarrow>
     \<not> (map_action_off l < 0 \<or> map_key_off l < 0 \<or> map_kn_off l < 0 \<or> map_kn_size l \<le> 0 \<or> map_kn_size l > 16)"

text \<open>The first entry of the same name takes the bits; a new name is appended while there is room.\<close>

fun merge_bits :: "8 word list \<Rightarrow> u32 \<Rightarrow> key_entry list \<Rightarrow> key_entry list option" where
  "merge_bits name bs [] = None"
| "merge_bits name bs (k # ks) =
     (if entry_name k = name then Some (k\<lparr>entry_bits := entry_bits k OR bs\<rparr> # ks)
      else map_option (Cons k) (merge_bits name bs ks))"

definition add_key :: "nat \<Rightarrow> 8 word list \<Rightarrow> u32 \<Rightarrow> key_entry list \<Rightarrow> key_entry list" where
  "add_key cap name bs ks =
     (case merge_bits name bs ks of
        Some ks' \<Rightarrow> ks'
      | None \<Rightarrow> if length ks < cap then ks @ [\<lparr>entry_name = name, entry_bits = bs\<rparr>] else ks)"

definition button_bits :: "address option list \<Rightarrow> address \<Rightarrow> u32" where
  "button_bits assets action =
     fold (\<lambda>b bs. if assets ! b = Some action then bs OR push_bit b 1 else bs) [0..<length assets] 0"

definition mapping_name :: "mapping_layout \<Rightarrow> mapping \<Rightarrow> 8 word list" where
  "mapping_name l e = bytes_at e (map_key_off l + map_kn_off l) (nat (map_kn_size l))"

definition harvest_elem :: "action_slots \<Rightarrow> mapping_layout \<Rightarrow> mapping option \<Rightarrow> key_table \<Rightarrow> key_table" where
  "harvest_elem s l elem t =
     (case elem of
        None \<Rightarrow> t
      | Some e \<Rightarrow>
          let t = t\<lparr>table_seen := table_seen t + 1\<rparr> in
          case ptr_at e (map_action_off l) of
            None \<Rightarrow> t
          | Some action \<Rightarrow>
              if look_asset s = Some action then t\<lparr>table_look := add_key 8 (mapping_name l e) 0 (table_look t)\<rparr>
              else
                let bs = button_bits (button_assets s) action in
                if bs = 0 then t else t\<lparr>table_keys := add_key 64 (mapping_name l e) bs (table_keys t)\<rparr>)"

definition mapping_struct :: "applied_mappings \<Rightarrow> fproperty list option" where
  "mapping_struct a =
     (if applied_class a \<noteq> ''ArrayProperty'' then None
      else case applied_inner a of
        None \<Rightarrow> None
      | Some p \<Rightarrow> if prop_class p \<noteq> ''StructProperty'' then None else inner_props p)"

definition harvest :: "action_slots \<Rightarrow> applied_mappings \<Rightarrow> key_table" where
  "harvest s a =
     (case mapping_struct a of
        None \<Rightarrow> no_keys
      | Some fs \<Rightarrow>
          let l = mapping_fields fs; n = length (applied_elems a) in
          if \<not> mapping_ok l \<or> n = 0 \<or> n > 512 then no_keys
          else fold (harvest_elem s l) (applied_elems a) no_keys)"

text \<open>The table is built again on its own cadence; what the controller's \<^verbatim>\<open>PlayerInput\<close> has applied may not resolve.\<close>

record key_state =
  bound :: bound_layout
  slots :: action_slots
  key_call :: key_layout
  vec_call :: vec_layout
  key_table :: key_table
  keys_built_frame :: u64

definition new_key_state :: key_state where
  "new_key_state = \<lparr>bound = new_bound, slots = new_slots, key_call = new_key_layout, vec_call = new_vec_layout,
     key_table = no_keys, keys_built_frame = 0\<rparr>"

definition build_due :: "u64 \<Rightarrow> u64 \<Rightarrow> bool" where
  "build_due frame built \<longleftrightarrow> built = 0 \<or> frame - built \<ge> RESOLVE_INTERVAL"

definition build_keys :: "u64 \<Rightarrow> applied_mappings option \<Rightarrow> key_state \<Rightarrow> key_state" where
  "build_keys frame applied ks =
     (if \<not> build_due frame (keys_built_frame ks) then ks
      else ks\<lparr>keys_built_frame := frame,
              key_table := (case applied of None \<Rightarrow> no_keys | Some a \<Rightarrow> harvest (slots ks) a)\<rparr>)"

section \<open>The reads\<close>

definition key_block :: "int \<Rightarrow> key_entry \<Rightarrow> frame" where
  "key_block at_offset k = poke at_offset (VBytes (entry_name k)) (zeroed PARMS_CAP)"

definition read_mask :: "(frame \<Rightarrow> int \<Rightarrow> 8 word) \<Rightarrow> key_layout \<Rightarrow> key_entry list \<Rightarrow> u32" where
  "read_mask reply l ks =
     (if key_fn l = None \<or> key_layout_refused l then 0
      else fold (\<lambda>k m. if reply (key_block (key_param_offset l + keyname_offset l) k) (key_ret_offset l) \<noteq> 0
                       then m OR entry_bits k else m) ks 0)"

definition read_looks :: "(frame \<Rightarrow> int \<Rightarrow> dbl) \<Rightarrow> key_layout \<Rightarrow> vec_layout \<Rightarrow> key_entry list \<Rightarrow> (dbl \<times> dbl) list option" where
  "read_looks reply k v ks =
     (if vec_fn v = None \<or> vec_layout_refused v \<or> key_layout_refused k then None
      else Some (map (\<lambda>e. let block = key_block (vec_key_offset v + keyname_offset k) e
                          in (reply block (vec_ret_offset v), reply block (vec_ret_offset v + 8))) ks))"

record engine_frame =
  eng_controller :: address
  eng_pawn :: address
  eng_find :: "string \<Rightarrow> address option"
  eng_functions :: reflected
  eng_applied :: "applied_mappings option"
  eng_value :: "frame \<Rightarrow> int \<Rightarrow> dbl"
  eng_down :: "frame \<Rightarrow> int \<Rightarrow> 8 word"
  eng_vector :: "frame \<Rightarrow> int \<Rightarrow> dbl"
  eng_camera :: "(dbl \<times> dbl) option"

text \<open>The reads of one frame, in the code's order; \<open>None\<close> is a null pointer gone through.\<close>

definition prepare_keys :: "input_library \<Rightarrow> engine_frame \<Rightarrow> u64 \<Rightarrow> key_state \<Rightarrow> key_state option" where
  "prepare_keys lib e frame ks =
     map_option (\<lambda>b.
       let ks = ks\<lparr>bound := b, slots := resolve_slots frame (eng_find e) (slots ks),
                   key_call := resolve_key (eng_controller e) (eng_functions e) (key_call ks)\<rparr>;
           ks = build_keys frame (eng_applied e) ks
       in ks\<lparr>vec_call := resolve_vec (eng_controller e) (eng_functions e) (key_call ks) (vec_call ks)\<rparr>)
     (resolve_bound lib (bound ks))"

definition read_keys :: "input_library \<Rightarrow> engine_frame \<Rightarrow> u64 \<Rightarrow> key_state \<Rightarrow> ((u32 \<times> axis_reads) \<times> key_state) option" where
  "read_keys lib e frame ks =
     Option.bind (prepare_keys lib e frame ks) (\<lambda>ks.
       map_option (\<lambda>v.
         ((read_mask (eng_down e) (key_call ks) (table_keys (key_table ks)),
           \<lparr>stick = map_option (\<lambda>(x, y, _). (x, y)) v, cam_rot = eng_camera e,
            looks = read_looks (eng_vector e) (key_call ks) (vec_call ks) (table_look (key_table ks))\<rparr>), ks))
       (read_value lib (eng_value e) (bound ks) (eng_pawn e) (move_asset (slots ks))))"

text \<open>The whole frame of the track, reads and all: nothing is read when nobody wants it.\<close>

record wanted =
  want_display :: bool
  want_track :: bool
  want_actors :: bool
  want_ms :: int
  want_jump :: bool

definition reads_of :: "wanted \<Rightarrow> u32 \<Rightarrow> axis_reads \<Rightarrow> frame_reads" where
  "reads_of w m rd = \<lparr>display_wants = want_display w, track_wants = want_track w, have_actors = want_actors w,
     key_mask = m, axis_reads = rd, frame_ms = want_ms w, jump_held = want_jump w\<rparr>"

definition sample_input ::
  "input_library \<Rightarrow> wanted \<Rightarrow> engine_frame \<Rightarrow> capture \<times> key_state \<Rightarrow> (capture \<times> key_state) option" where
  "sample_input lib w e = (\<lambda>(c, ks).
     if (\<not> want_track w \<and> \<not> want_display w) \<or> \<not> want_actors w
     then Some (input_track_sample (reads_of w 0 \<lparr>stick = None, cam_rot = None, looks = None\<rparr>) c, ks)
     else map_option (\<lambda>((m, rd), ks). (input_track_sample (reads_of w m rd) c, ks))
            (read_keys lib e (input_frame c + 1) ks))"

end
