(* ===== verification/Input_Key_Props.thy ===== *)
theory Input_Key_Props
  imports Input_Keys
begin

unbundle bit_operations_syntax

text \<open>
  The button mask is what the applied mappings and the held keys say, the key table follows a change of either within
  two of its cadences, and what a missing library costs.
\<close>

section \<open>The key table\<close>

definition key_gives :: "key_entry list \<Rightarrow> 8 word list \<Rightarrow> nat \<Rightarrow> bool" where
  "key_gives ks n b \<longleftrightarrow> (\<exists>k\<in>set ks. entry_name k = n \<and> bit (entry_bits k) b)"

lemma gives_simps:
  "\<not> key_gives [] n b"
  "key_gives (k # ks) n b \<longleftrightarrow> (entry_name k = n \<and> bit (entry_bits k) b) \<or> key_gives ks n b"
  "key_gives (ks @ js) n b \<longleftrightarrow> key_gives ks n b \<or> key_gives js n b"
  by (auto simp: key_gives_def)

lemma merge_bits_Some:
  "merge_bits name bs ks = Some ks' \<Longrightarrow>
     map entry_name ks' = map entry_name ks \<and> (\<forall>n b. key_gives ks' n b \<longleftrightarrow> key_gives ks n b \<or> (n = name \<and> bit bs b))"
  by (induction ks arbitrary: ks') (auto simp: gives_simps bit_or_iff split: if_splits)

lemma merge_bits_None: "merge_bits name bs ks = None \<longleftrightarrow> name \<notin> set (map entry_name ks)"
  by (induction ks) auto

lemma add_key_spec:
  assumes "distinct (map entry_name ks)" and "name \<in> set (map entry_name ks) \<or> length ks < cap"
  shows "distinct (map entry_name (add_key cap name bs ks)) \<and>
    set (map entry_name (add_key cap name bs ks)) = insert name (set (map entry_name ks)) \<and>
    (\<forall>n b. key_gives (add_key cap name bs ks) n b \<longleftrightarrow> key_gives ks n b \<or> (n = name \<and> bit bs b))"
proof (cases "merge_bits name bs ks")
  case None
  then have "name \<notin> set (map entry_name ks)" by (simp add: merge_bits_None)
  then show ?thesis using assms None by (auto simp: add_key_def gives_simps)
next
  case (Some ks')
  note m = merge_bits_Some [OF Some]
  have "name \<in> set (map entry_name ks)" using Some merge_bits_None [of name bs ks] by auto
  then show ?thesis using assms(1) Some m by (simp add: add_key_def insert_absorb del: list.set_map)
qed

lemma add_key_length: "length ks \<le> cap \<Longrightarrow> length (add_key cap name bs ks) \<le> cap"
  by (auto simp: add_key_def dest!: merge_bits_Some dest: map_eq_imp_length_eq split: option.splits)

lemma bit_button_fold:
  "bit (fold (\<lambda>b bs. if assets ! b = Some a then bs OR push_bit b 1 else bs) [0..<n] (0::u32)) k \<longleftrightarrow>
     k < n \<and> k < 32 \<and> assets ! k = Some a"
  by (induction n) (auto simp: bit_or_iff bit_exp_iff less_Suc_eq)

lemma bit_button_bits: "bit (button_bits assets a) k \<longleftrightarrow> k < length assets \<and> k < 32 \<and> assets ! k = Some a"
  unfolding button_bits_def by (rule bit_button_fold)

text \<open>The name and bits an element brings to the table, if any.\<close>

definition brings :: "action_slots \<Rightarrow> mapping_layout \<Rightarrow> mapping option \<Rightarrow> (8 word list \<times> u32) option" where
  "brings s l elem =
     Option.bind elem (\<lambda>e. Option.bind (ptr_at e (map_action_off l)) (\<lambda>a.
       if look_asset s = Some a \<or> button_bits (button_assets s) a = 0 then None
       else Some (mapping_name l e, button_bits (button_assets s) a)))"

definition bound_names :: "action_slots \<Rightarrow> mapping_layout \<Rightarrow> mapping option list \<Rightarrow> 8 word list set" where
  "bound_names s l es = fst ` set (List.map_filter (brings s l) es)"

lemma harvest_elem_keys:
  "table_keys (harvest_elem s l elem t) =
     (case brings s l elem of None \<Rightarrow> table_keys t | Some (n, bs) \<Rightarrow> add_key 64 n bs (table_keys t))"
  by (auto simp: harvest_elem_def brings_def Let_def split: option.splits)

lemma bound_names_Cons:
  "bound_names s l (e # es) = (case brings s l e of None \<Rightarrow> {} | Some (n, _) \<Rightarrow> {n}) \<union> bound_names s l es"
  by (auto simp: bound_names_def List.map_filter_simps split: option.splits)

lemma bound_names_finite: "finite (bound_names s l es)"
  by (simp add: bound_names_def)

lemma harvest_fold:
  assumes "distinct (map entry_name (table_keys t))"
    and "card (set (map entry_name (table_keys t)) \<union> bound_names s l es) \<le> 64"
  shows "key_gives (table_keys (fold (harvest_elem s l) es t)) n b \<longleftrightarrow>
    key_gives (table_keys t) n b \<or> (\<exists>e\<in>set es. \<exists>bs. brings s l e = Some (n, bs) \<and> bit bs b)"
  using assms
proof (induction es arbitrary: t)
  case (Cons e es)
  show ?case
  proof (cases "brings s l e")
    case None
    then show ?thesis using Cons.IH [of "harvest_elem s l e t"] Cons.prems
      by (auto simp: harvest_elem_keys bound_names_Cons)
  next
    case (Some p)
    obtain m bs where p: "p = (m, bs)" by (cases p)
    let ?t = "harvest_elem s l e t" and ?N = "set (map entry_name (table_keys t))"
    have k: "table_keys ?t = add_key 64 m bs (table_keys t)" using Some p by (simp add: harvest_elem_keys)
    have u: "?N \<union> bound_names s l (e # es) = insert m ?N \<union> bound_names s l es"
      using Some p by (auto simp: bound_names_Cons)
    have "card (insert m ?N) \<le> 64"
      using Cons.prems(2) bound_names_finite [of s l es] unfolding u
      by (intro le_trans [OF card_mono [of "insert m ?N \<union> bound_names s l es" "insert m ?N"]]) auto
    then have "m \<in> ?N \<or> length (table_keys t) < 64"
      using distinct_card [OF Cons.prems(1)] by (cases "m \<in> ?N") auto
    note a = add_key_spec [OF Cons.prems(1) this, of bs, folded k]
    then have "key_gives (table_keys (fold (harvest_elem s l) es ?t)) n b \<longleftrightarrow>
      key_gives (table_keys ?t) n b \<or> (\<exists>e\<in>set es. \<exists>bs. brings s l e = Some (n, bs) \<and> bit bs b)"
      using Cons.prems(2) by (intro Cons.IH) (simp_all only: u)
    then show ?thesis using a Some p by auto
  qed
qed simp

lemma harvest_elem_bounded:
  "length (table_keys t) \<le> 64 \<and> length (table_look t) \<le> 8 \<Longrightarrow>
     length (table_keys (harvest_elem s l e t)) \<le> 64 \<and> length (table_look (harvest_elem s l e t)) \<le> 8"
  by (auto simp: harvest_elem_def Let_def add_key_length split: option.splits)

lemma harvest_fold_bounded:
  "length (table_keys t) \<le> 64 \<and> length (table_look t) \<le> 8 \<Longrightarrow>
     length (table_keys (fold (harvest_elem s l) es t)) \<le> 64 \<and> length (table_look (fold (harvest_elem s l) es t)) \<le> 8"
proof (induction es arbitrary: t)
  case (Cons e es)
  then show ?case using Cons.IH [OF harvest_elem_bounded [OF Cons.prems]] by simp
qed simp

lemma harvest_bounded: "length (table_keys (harvest s a)) \<le> 64 \<and> length (table_look (harvest s a)) \<le> 8"
  using harvest_fold_bounded [of no_keys] by (simp add: harvest_def no_keys_def Let_def split: option.splits)

section \<open>The mask\<close>

text \<open>An accepted layout whose parameter lies in its block: the name is written inside the bytes on the stack.\<close>

lemma key_block_inside:
  assumes "key_layout_ok l" and "key_param_offset l + key_param_size l \<le> key_parms_size l"
    and "int (length (entry_name k)) \<le> keyname_size l"
  shows "inside (key_block (key_param_offset l + keyname_offset l) k)"
  using assms by (simp add: key_layout_ok_def inside_def key_block_def poke_def zeroed_def fits_def)

lemma bit_read_mask:
  "bit (fold (\<lambda>k m. if P k then m OR entry_bits k else m) ks m0) b \<longleftrightarrow>
     bit m0 b \<or> (\<exists>k\<in>set ks. P k \<and> bit (entry_bits k) b)"
  by (induction ks arbitrary: m0) (auto simp: bit_or_iff)

text \<open>
  Where a function takes a key and gives its answer: the \<^verbatim>\<open>KeyName\<close> inside its \<^verbatim>\<open>Key\<close> parameter, and its \<^verbatim>\<open>ReturnValue\<close>.
\<close>

definition key_at :: "ufunction \<Rightarrow> int \<Rightarrow> int \<Rightarrow> bool" where
  "key_at f off ret \<longleftrightarrow>
     (\<exists>p k q. p \<in> set (parms f) \<and> struct_prop ''Key'' p \<and> k \<in> set (struct_fields p) \<and> prop_name k = ''KeyName'' \<and>
        off = prop_offset p + prop_offset k \<and> q \<in> set (parms f) \<and> prop_name q = ''ReturnValue'' \<and> ret = prop_offset q)"

text \<open>
  What \<^verbatim>\<open>IsInputKeyDown\<close> promises: called with the name written in its place into a zeroed block, its return byte
  is not zero exactly for a held key. Nothing is promised of a block with anything written elsewhere, or of a byte read
  elsewhere.
\<close>

definition answers_keys :: "ufunction \<Rightarrow> (frame \<Rightarrow> int \<Rightarrow> 8 word) \<Rightarrow> (8 word list \<Rightarrow> bool) \<Rightarrow> bool" where
  "answers_keys f reply held \<longleftrightarrow>
     (\<forall>block name off ret. key_at f off ret \<longrightarrow> frame_writes block = [(off, VBytes name)] \<longrightarrow> (reply block ret \<noteq> 0 \<longleftrightarrow> held name))"

text \<open>The layout kept is the function's own.\<close>

definition placed :: "key_layout \<Rightarrow> bool" where
  "placed l \<longleftrightarrow> key_layout_refused l \<or>
     (\<forall>f. key_fn l = Some f \<longrightarrow> key_at f (key_param_offset l + keyname_offset l) (key_ret_offset l))"

lemma keyname_fold:
  "key_param_offset (fold keyname_field fs l) = key_param_offset l" "key_ret_offset (fold keyname_field fs l) = key_ret_offset l"
  "key_fn (fold keyname_field fs l) = key_fn l"
  by (induction fs arbitrary: l) (auto simp: keyname_field_def)

lemma keyname_fold_offset:
  "keyname_offset (fold keyname_field fs l) = keyname_offset l \<or>
     (\<exists>k\<in>set fs. prop_name k = ''KeyName'' \<and> keyname_offset (fold keyname_field fs l) = prop_offset k)"
proof (induction fs arbitrary: l)
  case (Cons k fs)
  have "keyname_offset (keyname_field k l) = (if prop_name k = ''KeyName'' then prop_offset k else keyname_offset l)"
    by (simp add: keyname_field_def)
  then show ?case using Cons.IH [of "keyname_field k l"] by (auto split: if_splits)
qed simp

lemma key_param_simps:
  "\<not> struct_prop ''Key'' p \<Longrightarrow> key_param_offset (key_param p l) = key_param_offset l \<and> keyname_offset (key_param p l) = keyname_offset l"
  "key_ret_offset (key_param p l) = (if \<not> struct_prop ''Key'' p \<and> prop_name p = ''ReturnValue'' then prop_offset p else key_ret_offset l)"
  "key_fn (key_param p l) = key_fn l"
  by (simp_all add: key_param_def keyname_fold)

lemma key_param_fold_other:
  "\<forall>p\<in>set ps. \<not> struct_prop ''Key'' p \<Longrightarrow>
   key_param_offset (fold key_param ps l) = key_param_offset l \<and> keyname_offset (fold key_param ps l) = keyname_offset l"
  by (induction ps arbitrary: l) (simp_all add: key_param_simps(1))

lemma key_param_fold_fn: "key_fn (fold key_param ps l) = key_fn l"
  by (induction ps arbitrary: l) (simp_all add: key_param_simps(3))

lemma key_param_fold_ret:
  "key_ret_offset (fold key_param ps l) = key_ret_offset l \<or>
   (\<exists>q\<in>set ps. prop_name q = ''ReturnValue'' \<and> key_ret_offset (fold key_param ps l) = prop_offset q)"
proof (induction ps arbitrary: l)
  case (Cons p ps)
  then show ?case using Cons.IH [of "key_param p l"] by (auto simp: key_param_simps(2) split: if_splits)
qed simp

lemma key_param_fold_key:
  "distinct (map prop_name ps) \<Longrightarrow>
   (key_param_offset (fold key_param ps l) = key_param_offset l \<and> keyname_offset (fold key_param ps l) = keyname_offset l) \<or>
   (\<exists>p\<in>set ps. struct_prop ''Key'' p \<and> key_param_offset (fold key_param ps l) = prop_offset p \<and>
      (keyname_offset (fold key_param ps l) = keyname_offset l \<or>
       (\<exists>k\<in>set (struct_fields p). prop_name k = ''KeyName'' \<and> keyname_offset (fold key_param ps l) = prop_offset k)))"
proof (induction ps arbitrary: l)
  case (Cons p ps)
  show ?case
  proof (cases "struct_prop ''Key'' p")
    case True
    then have "\<forall>q\<in>set ps. \<not> struct_prop ''Key'' q" using Cons.prems by (force simp: struct_prop_def)
    note rest = key_param_fold_other [OF this, of "key_param p l"]
    let ?l = "l\<lparr>key_param_offset := prop_offset p, key_param_size := prop_size p\<rparr>"
    have "key_param_offset (key_param p l) = prop_offset p" "key_param p l = fold keyname_field (struct_fields p) ?l"
      using True by (simp_all add: key_param_def keyname_fold)
    then show ?thesis using True rest keyname_fold_offset [of "struct_fields p" ?l] by auto
  next
    case False
    then show ?thesis using Cons.IH [of "key_param p l"] Cons.prems key_param_simps(1) [OF False, of l] by auto
  qed
qed simp

lemma resolve_key_placed:
  assumes "placed l" and d: "\<And>f. fns ''IsInputKeyDown'' = Some f \<Longrightarrow> distinct (map prop_name (parms f))"
  shows "placed (resolve_key c fns l)"
proof (cases "key_layout_refused l \<or> (key_fn l \<noteq> None \<and> key_fn_owner l = Some c)")
  case True
  then show ?thesis using assms(1) by (simp add: resolve_key_def)
next
  case False
  let ?start = "l\<lparr>key_fn := fns ''IsInputKeyDown'', key_fn_owner := Some c, key_param_offset := -1, keyname_offset := -1, key_ret_offset := -1\<rparr>"
  show ?thesis
  proof (cases "fns ''IsInputKeyDown''")
    case None
    then show ?thesis using False by (auto simp: resolve_key_def placed_def Let_def)
  next
    case (Some f)
    let ?l = "fold key_param (parms f) (?start\<lparr>key_parms_size := parms_size f\<rparr>)"
    have r: "resolve_key c fns l = (if key_layout_ok ?l then ?l else ?l\<lparr>key_layout_refused := True\<rparr>)"
      using False Some by (auto simp: resolve_key_def Let_def)
    have "key_at f (key_param_offset ?l + keyname_offset ?l) (key_ret_offset ?l)" if ok: "key_layout_ok ?l"
    proof -
      have pos: "key_param_offset ?l \<ge> 0" "keyname_offset ?l \<ge> 0" "key_ret_offset ?l \<ge> 0"
        using ok by (simp_all only: key_layout_ok_def)
      from key_param_fold_key [OF d [OF Some], of "?start\<lparr>key_parms_size := parms_size f\<rparr>"] pos
      obtain p k where p: "p \<in> set (parms f)" "struct_prop ''Key'' p" "key_param_offset ?l = prop_offset p"
        and k: "k \<in> set (struct_fields p)" "prop_name k = ''KeyName''" "keyname_offset ?l = prop_offset k" by auto
      from key_param_fold_ret [of "parms f" "?start\<lparr>key_parms_size := parms_size f\<rparr>"] pos(3)
      obtain q where "q \<in> set (parms f)" "prop_name q = ''ReturnValue''" "key_ret_offset ?l = prop_offset q" by auto
      with p k show ?thesis unfolding key_at_def by metis
    qed
    then show ?thesis using Some by (simp add: r placed_def key_param_fold_fn)
  qed
qed

text \<open>The reference: a mapping of the button's action, not the look's, whose key is held.\<close>

definition button_held :: "action_slots \<Rightarrow> applied_mappings option \<Rightarrow> (8 word list \<Rightarrow> bool) \<Rightarrow> nat \<Rightarrow> bool" where
  "button_held s applied held b \<longleftrightarrow>
     b < length (button_assets s) \<and>
     (\<exists>a fs e. applied = Some a \<and> mapping_struct a = Some fs \<and> Some e \<in> set (applied_elems a) \<and>
        ptr_at e (map_action_off (mapping_fields fs)) \<noteq> None \<and>
        ptr_at e (map_action_off (mapping_fields fs)) \<noteq> look_asset s \<and>
        button_assets s ! b = ptr_at e (map_action_off (mapping_fields fs)) \<and>
        held (mapping_name (mapping_fields fs) e))"

text \<open>An array the table can hold: laid out as a key mapping, at most 512 elements, at most 64 keys of the buttons.\<close>

definition harvestable :: "action_slots \<Rightarrow> applied_mappings option \<Rightarrow> bool" where
  "harvestable s applied \<longleftrightarrow>
     (case applied of None \<Rightarrow> True | Some a \<Rightarrow>
        (case mapping_struct a of None \<Rightarrow> True | Some fs \<Rightarrow>
           mapping_ok (mapping_fields fs) \<and> length (applied_elems a) \<le> 512 \<and>
           card (bound_names s (mapping_fields fs) (applied_elems a)) \<le> 64))"

definition table_of :: "action_slots \<Rightarrow> applied_mappings option \<Rightarrow> key_table" where
  "table_of s applied = (case applied of None \<Rightarrow> no_keys | Some a \<Rightarrow> harvest s a)"

lemma gives_table_of:
  assumes "harvestable s (Some a)" and "mapping_struct a = Some fs"
  shows "key_gives (table_keys (table_of s (Some a))) n b \<longleftrightarrow>
    (\<exists>e\<in>set (applied_elems a). \<exists>bs. brings s (mapping_fields fs) e = Some (n, bs) \<and> bit bs b)"
proof (cases "applied_elems a = []")
  case True
  then show ?thesis using assms by (simp add: table_of_def harvest_def no_keys_def gives_simps Let_def)
next
  case False
  then have "table_of s (Some a) = fold (harvest_elem s (mapping_fields fs)) (applied_elems a) no_keys"
    using assms by (simp add: table_of_def harvest_def harvestable_def Let_def)
  then show ?thesis
    using harvest_fold [of no_keys s "mapping_fields fs" "applied_elems a" n b] assms
    by (simp add: harvestable_def no_keys_def gives_simps)
qed

lemma brings_Some:
  "brings s l elem = Some (n, bs) \<longleftrightarrow>
     (\<exists>e a. elem = Some e \<and> ptr_at e (map_action_off l) = Some a \<and> look_asset s \<noteq> Some a \<and> n = mapping_name l e \<and>
        bs = button_bits (button_assets s) a \<and> bs \<noteq> 0)"
  by (auto simp: brings_def Option.bind_eq_Some_conv split: if_splits)

lemma gives_button_held:
  assumes "harvestable s applied" and "length (button_assets s) \<le> 32"
  shows "(\<exists>n. held n \<and> key_gives (table_keys (table_of s applied)) n b) \<longleftrightarrow> button_held s applied held b"
proof (cases "\<exists>a fs. applied = Some a \<and> mapping_struct a = Some fs")
  case False
  then show ?thesis
    by (auto simp: table_of_def harvest_def no_keys_def gives_simps button_held_def split: option.splits)
next
  case True
  then obtain a fs where a: "applied = Some a" "mapping_struct a = Some fs" by blast
  have nz: "bs \<noteq> 0" if "bit bs b" for bs :: u32 using that by auto
  have c: "key_gives (table_keys (table_of s applied)) n b \<longleftrightarrow>
    (\<exists>e x. Some e \<in> set (applied_elems a) \<and> ptr_at e (map_action_off (mapping_fields fs)) = Some x \<and>
       look_asset s \<noteq> Some x \<and> n = mapping_name (mapping_fields fs) e \<and> bit (button_bits (button_assets s) x) b)" for n
    using gives_table_of [of s a fs n b] assms(1) a nz by (auto simp: brings_Some) blast+
  show ?thesis
    unfolding c using assms(2) a by (auto simp: bit_button_bits button_held_def) metis
qed

lemma read_mask_held:
  assumes "answers_keys f reply held" and "key_fn l = Some f" and "\<not> key_layout_refused l" and "placed l"
    and "harvestable s applied" and "length (button_assets s) \<le> 32"
  shows "bit (read_mask reply l (table_keys (table_of s applied))) b \<longleftrightarrow> button_held s applied held b"
proof -
  have "key_at f (key_param_offset l + keyname_offset l) (key_ret_offset l)" using assms(2-4) by (simp add: placed_def)
  then have "reply (key_block (key_param_offset l + keyname_offset l) k) (key_ret_offset l) \<noteq> 0 \<longleftrightarrow> held (entry_name k)" for k
    using assms(1) by (simp add: answers_keys_def key_block_def poke_def zeroed_def)
  then have "bit (read_mask reply l (table_keys (table_of s applied))) b \<longleftrightarrow>
    (\<exists>n. held n \<and> key_gives (table_keys (table_of s applied)) n b)"
    using assms(2,3) by (auto simp: read_mask_def bit_read_mask key_gives_def)
  then show ?thesis using gives_button_held [OF assms(5,6)] by simp
qed

section \<open>Frames\<close>

text \<open>Consecutive frames that read, from the frame after \<open>n\<close>; \<open>None\<close> once a null pointer is gone through.\<close>

fun run_keys :: "input_library \<Rightarrow> nat \<Rightarrow> engine_frame list \<Rightarrow> key_state \<Rightarrow> key_state option" where
  "run_keys lib n [] ks = Some ks"
| "run_keys lib n (e # es) ks =
     Option.bind (read_keys lib e (of_nat (n + 1)) ks) (\<lambda>(_, ks). run_keys lib (n + 1) es ks)"

lemma resolve_bound_total:
  assumes "bound_function lib \<noteq> None"
  shows "resolve_bound lib l \<noteq> None"
  using assms by (auto simp: resolve_bound_def Let_def)

lemma read_value_total: "library_there lib \<Longrightarrow> read_value lib reply l pawn action \<noteq> None"
  by (simp add: read_value_def Let_def)

text \<open>What the engine's assets are once loaded, and slots that hold nothing else.\<close>

definition loaded_slots :: "(string \<Rightarrow> address option) \<Rightarrow> action_slots" where
  "loaded_slots load = \<lparr>button_assets = map load BUTTONS, move_asset = load MOVE, look_asset = load LOOK\<rparr>"

definition honest :: "(string \<Rightarrow> address option) \<Rightarrow> action_slots \<Rightarrow> bool" where
  "honest load s \<longleftrightarrow>
     list_all2 (\<lambda>p a. a = None \<or> a = load p) BUTTONS (button_assets s) \<and>
     (move_asset s = None \<or> move_asset s = load MOVE) \<and> (look_asset s = None \<or> look_asset s = load LOOK)"

lemma resolve_slot_honest:
  "a = None \<or> a = load p \<Longrightarrow> resolve_slot f load p a = None \<or> resolve_slot f load p a = load p"
  "a = None \<or> a = load p \<Longrightarrow> f mod 300 = 1 \<Longrightarrow> resolve_slot f load p a = load p"
  "resolve_slot f load p (load p) = load p"
  by (auto simp: resolve_slot_def RESOLVE_INTERVAL_def)

lemma resolve_slots_honest: "honest load s \<Longrightarrow> honest load (resolve_slots f load s)"
  by (auto simp: honest_def resolve_slots_def list_all2_conv_all_nth intro!: resolve_slot_honest(1))

text \<open>
  An earlier frame: an asset asked for then was not loaded yet or the same, and the function reflected has parameters of
  distinct names.
\<close>

definition loads_alike :: "engine_frame \<Rightarrow> engine_frame \<Rightarrow> bool" where
  "loads_alike e e0 \<longleftrightarrow> (\<forall>p. eng_find e0 p = None \<or> eng_find e0 p = eng_find e p) \<and>
     (\<forall>f. eng_functions e0 ''IsInputKeyDown'' = Some f \<longrightarrow> distinct (map prop_name (parms f)))"

lemma resolve_slots_alike: "loads_alike e e0 \<Longrightarrow> honest (eng_find e) s \<Longrightarrow> honest (eng_find e) (resolve_slots f (eng_find e0) s)"
proof -
  assume a: "loads_alike e e0" and h: "honest (eng_find e) s"
  have "resolve_slot f (eng_find e0) p x = None \<or> resolve_slot f (eng_find e0) p x = eng_find e p" if "x = None \<or> x = eng_find e p" for p x
    using that a by (auto simp: resolve_slot_def loads_alike_def)
  with h show ?thesis by (auto simp: honest_def resolve_slots_def list_all2_conv_all_nth)
qed

lemma resolve_slots_due:
  assumes "honest load s" and "f mod 300 = 1"
  shows "resolve_slots f load s = loaded_slots load"
  using assms
  by (auto simp: honest_def resolve_slots_def loaded_slots_def list_all2_conv_all_nth resolve_slot_honest(2)
      intro!: nth_equalityI)

lemma resolve_slots_loaded: "resolve_slots f load (loaded_slots load) = loaded_slots load"
  by (auto simp: resolve_slots_def loaded_slots_def resolve_slot_honest(3) intro!: nth_equalityI)

definition settled :: "engine_frame \<Rightarrow> engine_frame \<Rightarrow> bool" where
  "settled e0 e \<longleftrightarrow> eng_find e = eng_find e0 \<and> eng_applied e = eng_applied e0 \<and>
     eng_controller e = eng_controller e0 \<and> eng_functions e = eng_functions e0"

text \<open>The layout of the buttons' call that the controller gives, from what is known so far.\<close>

definition key_call_of :: "engine_frame \<Rightarrow> key_state \<Rightarrow> key_layout" where
  "key_call_of e ks = resolve_key (eng_controller e) (eng_functions e) (key_call ks)"

definition table_loaded :: "engine_frame \<Rightarrow> key_table" where
  "table_loaded e = table_of (loaded_slots (eng_find e)) (eng_applied e)"

text \<open>Where a run stands at frame \<open>n\<close>, when the assets are asked for at frame \<open>r\<close>.\<close>

definition keys_at :: "engine_frame \<Rightarrow> key_layout \<Rightarrow> nat \<Rightarrow> nat \<Rightarrow> nat \<Rightarrow> key_state \<Rightarrow> bool" where
  "keys_at e K n0 r n ks \<longleftrightarrow>
     key_call_of e ks = K \<and> honest (eng_find e) (slots ks) \<and> unat (keys_built_frame ks) \<le> n \<and>
     (n0 < n \<longrightarrow> n < unat (keys_built_frame ks) + 300) \<and>
     (r \<le> n \<longrightarrow> slots ks = loaded_slots (eng_find e)) \<and>
     (r \<le> unat (keys_built_frame ks) \<longrightarrow> key_table ks = table_loaded e)"

lemma prepare_keys_frame:
  assumes "prepare_keys lib e frame ks = Some ks'"
  shows "slots ks' = resolve_slots frame (eng_find e) (slots ks)"
    "keys_built_frame ks' = (if build_due frame (keys_built_frame ks) then frame else keys_built_frame ks)"
    "key_table ks' = (if build_due frame (keys_built_frame ks) then table_of (slots ks') (eng_applied e) else key_table ks)"
    "key_call ks' = resolve_key (eng_controller e) (eng_functions e) (key_call ks)"
  using assms by (cases "eng_applied e"; auto simp: prepare_keys_def build_keys_def table_of_def Let_def)+

lemma build_due_nat:
  assumes "n + 1 < 2 ^ 64" and "unat built \<le> n"
  shows "build_due (of_nat (n + 1)) built \<longleftrightarrow> built = 0 \<or> n + 1 \<ge> unat built + 300"
proof -
  have u: "unat (of_nat (n + 1) :: u64) = n + 1" using assms(1) by (simp add: unat_of_nat take_bit_nat_def del: of_nat_add of_nat_Suc)
  have "built \<le> of_nat (n + 1)" using assms u by (simp only: word_le_nat_alt)
  then have d: "unat (of_nat (n + 1) - built) = n + 1 - unat built" using u by (simp only: unat_sub)
  have k: "unat (300 :: u64) = 300" by simp
  have "300 \<le> n + 1 - unat built \<longleftrightarrow> unat built + 300 \<le> n + 1" using assms(2) by linarith
  then show ?thesis by (simp only: build_due_def RESOLVE_INTERVAL_def word_le_nat_alt d k)
qed

lemma resolve_key_found: "\<not> key_layout_refused (resolve_key c fns l) \<Longrightarrow> key_fn (resolve_key c fns l) \<noteq> None"
  by (auto simp: resolve_key_def key_layout_ok_def Let_def split: if_splits option.splits)

lemma key_param_owner: "key_fn_owner (fold key_param ps l) = key_fn_owner l"
proof (induction ps arbitrary: l)
  case (Cons p ps)
  have "key_fn_owner (fold keyname_field fs l) = key_fn_owner l" for fs l
    by (induction fs arbitrary: l) (simp_all add: keyname_field_def)
  then have "key_fn_owner (key_param p l) = key_fn_owner l" by (simp add: key_param_def)
  then show ?case using Cons.IH by simp
qed simp

lemma resolve_key_idem:
  assumes "\<not> key_layout_refused (resolve_key c fns l)"
  shows "resolve_key c fns (resolve_key c fns l) = resolve_key c fns l"
proof -
  have "key_fn_owner (resolve_key c fns l) = Some c"
    using assms by (auto simp: resolve_key_def key_param_owner Let_def split: if_splits option.splits)
  then show ?thesis
    using assms resolve_key_found [OF assms] by (simp add: resolve_key_def [of c fns "resolve_key c fns l"])
qed

lemma keys_at_step:
  assumes "keys_at e K n0 r n ks" and "prepare_keys lib e' (of_nat (n + 1)) ks = Some ks'" and "settled e e'"
    and "n + 1 < 2 ^ 64" and "n0 \<le> n" and "n0 < r" and "r mod 300 = 1"
    and "\<not> key_layout_refused K"
  shows "keys_at e K n0 r (n + 1) ks'"
proof -
  let ?f = "of_nat (n + 1) :: u64" and ?b = "unat (keys_built_frame ks)"
  have u: "unat ?f = n + 1" using assms(4) by (simp add: unat_of_nat take_bit_nat_def del: of_nat_add of_nat_Suc)
  note p = prepare_keys_frame [OF assms(2)]
  have s: "eng_find e' = eng_find e" "eng_applied e' = eng_applied e" "eng_controller e' = eng_controller e"
    "eng_functions e' = eng_functions e" using assms(3) by (simp_all add: settled_def)
  have "key_call_of e ks = K" using assms(1) by (simp add: keys_at_def)
  then have c: "key_call_of e ks' = K"
    using assms(8) resolve_key_idem [of "eng_controller e" "eng_functions e" "key_call ks"] s
    by (simp add: key_call_of_def p(4))
  have h: "honest (eng_find e) (slots ks)" and b: "?b \<le> n" using assms(1) by (simp_all add: keys_at_def)
  have due: "build_due ?f (keys_built_frame ks) \<longleftrightarrow> ?b = 0 \<or> n + 1 \<ge> ?b + 300"
    using build_due_nat [OF assms(4) b] by (simp only: unat_eq_zero)
  have m: "?f mod 300 = 1" if "r = n + 1"
    using that u assms(7) by (intro word_unat_eq_iff [THEN iffD2]) (simp only: unat_mod unat_numeral unat_1 u, simp)
  have loaded: "slots ks' = loaded_slots (eng_find e)" if "r \<le> n + 1"
  proof (cases "r \<le> n")
    case True
    then have "slots ks = loaded_slots (eng_find e)" using assms(1) by (simp add: keys_at_def)
    then show ?thesis by (simp only: p(1) s resolve_slots_loaded)
  next
    case False
    then have "r = n + 1" using that by simp
    then show ?thesis using m h by (simp only: p(1) s resolve_slots_due)
  qed
  have "honest (eng_find e) (slots ks')" using h resolve_slots_honest by (simp only: p(1) s)
  then show ?thesis
    using c loaded assms(1,5) b u due p(2,3) s unfolding keys_at_def table_loaded_def
    by (cases "build_due ?f (keys_built_frame ks)") auto
qed

lemma read_keys_total:
  assumes "bound_function lib \<noteq> None" and "library_there lib"
  shows "\<exists>m rd ks'. read_keys lib e f ks = Some ((m, rd), ks') \<and> prepare_keys lib e f ks = Some ks' \<and>
    m = read_mask (eng_down e) (key_call ks') (table_keys (key_table ks'))"
proof -
  obtain ks' where k: "prepare_keys lib e f ks = Some ks'"
    using resolve_bound_total [OF assms(1), of "bound ks"] by (auto simp: prepare_keys_def)
  then show ?thesis
    using read_value_total [OF assms(2), of "eng_value e" "bound ks'" "eng_pawn e" "move_asset (slots ks')"]
    by (auto simp: read_keys_def)
qed

lemma run_keys_at:
  assumes "bound_function lib \<noteq> None" and "library_there lib" and "n0 < r" and "r mod 300 = 1" and "\<not> key_layout_refused K"
  shows "keys_at e K n0 r n ks \<Longrightarrow> n0 \<le> n \<Longrightarrow> \<forall>e'\<in>set es. settled e e' \<Longrightarrow> n + length es < 2 ^ 64 \<Longrightarrow>
    \<exists>ks'. run_keys lib n es ks = Some ks' \<and> keys_at e K n0 r (n + length es) ks'"
proof (induction es arbitrary: n ks)
  case (Cons e' es)
  obtain m rd ks' where k: "read_keys lib e' (of_nat (n + 1)) ks = Some ((m, rd), ks')"
    "prepare_keys lib e' (of_nat (n + 1)) ks = Some ks'"
    using read_keys_total [OF assms(1,2)] by blast
  have "keys_at e K n0 r (n + 1) ks'"
    using keys_at_step [OF Cons.prems(1) k(2)] Cons.prems assms(3,4,5) by simp
  from Cons.IH [OF this] k(1) Cons.prems show ?case by simp
qed simp

lemma asked_within: "\<exists>r. n < r \<and> r \<le> n + 300 \<and> r mod 300 = (1::nat)"
proof -
  obtain q k where n: "n = k + 300 * q" and k: "k < 300"
    using mod_mult_div_eq [of n 300] mod_less_divisor [of 300 n] by (metis zero_less_numeral)
  have m: "(1 + 300 * j) mod 300 = (1::nat)" for j :: nat by (simp only: mod_mult_self2) simp
  show ?thesis
  proof (cases "k = 0")
    case True
    then show ?thesis using n m [of q] by (intro exI [of _ "1 + 300 * q"]) simp
  next
    case False
    then show ?thesis using n k m [of "q + 1"] by (intro exI [of _ "1 + 300 * (q + 1)"]) (simp del: mod_mult_self2)
  qed
qed

text \<open>What any frames before leave.\<close>

lemma frames_before:
  assumes "\<forall>e0\<in>set es. loads_alike e e0"
  shows "run_keys lib n es ks = Some ks' \<Longrightarrow> honest (eng_find e) (slots ks) \<Longrightarrow> unat (keys_built_frame ks) \<le> n \<Longrightarrow>
    placed (key_call ks) \<Longrightarrow> n + length es < 2 ^ 64 \<Longrightarrow>
    honest (eng_find e) (slots ks') \<and> unat (keys_built_frame ks') \<le> n + length es \<and> placed (key_call ks')"
  using assms
proof (induction es arbitrary: n ks)
  case (Cons e0 es)
  obtain out ks1 where r: "read_keys lib e0 (of_nat (n + 1)) ks = Some (out, ks1)" "run_keys lib (n + 1) es ks1 = Some ks'"
    using Cons.prems(1) by (auto simp: Option.bind_eq_Some_conv)
  then have p: "prepare_keys lib e0 (of_nat (n + 1)) ks = Some ks1"
    by (auto simp: read_keys_def Option.bind_eq_Some_conv)
  note f = prepare_keys_frame [OF p]
  have u: "unat (of_nat (n + 1) :: u64) = n + 1"
    using Cons.prems(5) by (simp add: unat_of_nat take_bit_nat_def del: of_nat_add of_nat_Suc)
  have a: "loads_alike e e0" using Cons.prems(6) by simp
  have "honest (eng_find e) (slots ks1)" using resolve_slots_alike [OF a Cons.prems(2)] by (simp only: f(1))
  moreover have "unat (keys_built_frame ks1) \<le> n + 1" using Cons.prems(3) u by (simp only: f(2) split: if_split) simp
  moreover have "placed (key_call ks1)"
    using resolve_key_placed [OF Cons.prems(4), of "eng_functions e0" "eng_controller e0"] a by (simp add: f(4) loads_alike_def)
  ultimately show ?case using Cons.IH [OF r(2)] Cons.prems(5,6) by simp
qed simp

text \<open>
  Property C14. Buttons follow the bindings. Given the input library's function and object, after any frames in which an
  asset asked for was not loaded yet or the one there now, and that left the controller's call accepted: once the assets,
  the applied mappings and the controller stay as they are for 600 sampled frames, no read goes through a null pointer and
  the mask of the next frame has exactly the bits of the buttons that some applied mapping binds to a key that is held.
  The call is promised to answer, in its own return value, only when the name is written in the place of its own
  parameter; the mappings have the expected layout, at most 512 elements, and bind at most 64 keys to the buttons.
\<close>

theorem mask_follows_bindings:
  assumes "bound_function lib \<noteq> None" and "library_there lib"
    and "run_keys lib 0 before new_key_state = Some ks" and "\<forall>e0\<in>set before. loads_alike e e0" and "loads_alike e e"
    and "\<not> key_layout_refused (key_call_of e ks)" and "key_fn (key_call_of e ks) = Some f"
    and "600 \<le> length es" and "length before + length es + 1 < 2 ^ 64" and "\<forall>e'\<in>set es. settled e e'"
    and "answers_keys f (eng_down e) held" and "harvestable (loaded_slots (eng_find e)) (eng_applied e)"
  shows "\<exists>ks1 m rd ks2. run_keys lib (length before) es ks = Some ks1 \<and>
    read_keys lib e (of_nat (length before + length es + 1)) ks1 = Some ((m, rd), ks2) \<and>
    (\<forall>b. bit m b \<longleftrightarrow> button_held (loaded_slots (eng_find e)) (eng_applied e) held b)"
proof -
  let ?n = "length before"
  have start: "honest (eng_find e) (slots new_key_state)" "unat (keys_built_frame new_key_state) \<le> 0" "placed (key_call new_key_state)"
    by (simp_all add: honest_def new_key_state_def new_slots_def list_all2_conv_all_nth placed_def new_key_layout_def)
  from frames_before [OF assms(4,3) start] assms(9)
  have ks: "honest (eng_find e) (slots ks)" "unat (keys_built_frame ks) \<le> ?n" "placed (key_call ks)" by simp_all
  obtain r where r: "?n < r" "r \<le> ?n + 300" "r mod 300 = 1" using asked_within by blast
  let ?N = "?n + length es" and ?K = "key_call_of e ks"
  have "keys_at e ?K ?n r ?n ks" using ks r by (simp add: keys_at_def)
  then obtain ks1 where k1: "run_keys lib ?n es ks = Some ks1" "keys_at e ?K ?n r ?N ks1"
    using run_keys_at [OF assms(1,2) r(1,3) assms(6), of e ?n ks es] assms(9,10) by auto
  obtain m rd ks2 where k2: "read_keys lib e (of_nat (?N + 1)) ks1 = Some ((m, rd), ks2)"
    "prepare_keys lib e (of_nat (?N + 1)) ks1 = Some ks2"
    "m = read_mask (eng_down e) (key_call ks2) (table_keys (key_table ks2))"
    using read_keys_total [OF assms(1,2)] by blast
  have "keys_at e ?K ?n r (?N + 1) ks2"
    using keys_at_step [OF k1(2) k2(2) _ assms(9) _ r(1,3) assms(6)] by (simp add: settled_def)
  then have t: "key_table ks2 = table_loaded e"
    using r assms(8) by (auto simp: keys_at_def)
  have c: "key_call ks2 = ?K"
    using k1(2) by (simp add: prepare_keys_frame(4) [OF k2(2)] keys_at_def key_call_of_def)
  have "placed ?K"
    unfolding key_call_of_def using assms(5) by (intro resolve_key_placed [OF ks(3)]) (simp add: loads_alike_def)
  note mask = read_mask_held [OF assms(11,7,6) this assms(12)]
  have "\<forall>b. bit m b \<longleftrightarrow> button_held (loaded_slots (eng_find e)) (eng_applied e) held b"
    using mask by (simp add: k2(3) t c table_loaded_def loaded_slots_def BUTTONS_def)
  then show ?thesis using k1(1) k2(1) by blast
qed

text \<open>A controller with the expected call, and a space bar bound to the jump: two keys held, one bit.\<close>

definition w_key :: "int \<Rightarrow> fproperty" where
  "w_key off = Prop ''Key'' ''StructProperty'' off 24 (Some [Prop ''KeyName'' ''NameProperty'' 8 8 None])"

definition w_held :: "8 word list \<Rightarrow> bool" where
  "w_held n \<longleftrightarrow> n = replicate 8 5 \<or> n = replicate 8 7"

definition w_engine :: engine_frame where
  "w_engine = \<lparr>eng_controller = 1, eng_pawn = 2,
     eng_find = (\<lambda>p. if p = action_path ''IA_Jump'' then Some 10 else if p = action_path ''IA_Attack'' then Some 11 else None),
     eng_functions = [''IsInputKeyDown'' \<mapsto>
       \<lparr>parms_size = 32, parms = [w_key 0, Prop ''ReturnValue'' ''BoolProperty'' 24 1 None]\<rparr>],
     eng_applied = Some \<lparr>applied_class = ''ArrayProperty'',
       applied_inner = Some (Prop ''Mappings'' ''StructProperty'' 0 40
         (Some [Prop ''Action'' ''ObjectProperty'' 0 8 None, w_key 8])),
       applied_elems = [None, Some \<lparr>ptr_at = (\<lambda>_. Some 10), bytes_at = (\<lambda>_ n. replicate n 5)\<rparr>,
         Some \<lparr>ptr_at = (\<lambda>_. Some 11), bytes_at = (\<lambda>_ n. replicate n 6)\<rparr>]\<rparr>,
     eng_value = (\<lambda>_ _. Fin 0),
     eng_down = (\<lambda>block ret. case frame_writes block of [(off, VBytes n)] \<Rightarrow> if off = 8 \<and> ret = 24 then of_bool (w_held n) else 1 | _ \<Rightarrow> 1),
     eng_vector = (\<lambda>_ _. Fin 0), eng_camera = None\<rparr>"

lemma w_engine_struct:
  "\<exists>a fs. eng_applied w_engine = Some a \<and> mapping_struct a = Some fs \<and> mapping_ok (mapping_fields fs) \<and>
     length (applied_elems a) \<le> 512"
  by (simp add: w_engine_def w_key_def mapping_struct_def mapping_fields_def map_field_def struct_prop_def
      struct_fields_def map_keyname_def mapping_ok_def)

lemma bound_names_card: "card (bound_names s l es) \<le> length es"
proof -
  have "length (List.map_filter g xs) \<le> length xs" for g :: "'x \<Rightarrow> 'y option" and xs
    by (induction xs) (auto simp: List.map_filter_simps split: option.splits)
  then show ?thesis
    unfolding bound_names_def by (meson card_image_le card_length le_trans List.finite_set)
qed

lemma w_engine_harvestable: "harvestable (loaded_slots (eng_find w_engine)) (eng_applied w_engine)"
proof -
  have "card (bound_names s l (applied_elems (the (eng_applied w_engine)))) \<le> 64" for s l
    using bound_names_card [of s l "applied_elems (the (eng_applied w_engine))"] by (simp add: w_engine_def)
  then show ?thesis using w_engine_struct by (auto simp: harvestable_def split: option.splits)
qed

lemma w_engine_button:
  "button_held (loaded_slots (eng_find w_engine)) (eng_applied w_engine) w_held b \<longleftrightarrow> b = 0"
  by (simp add: w_engine_def button_held_def loaded_slots_def BUTTONS_def action_path_def LOOK_def w_key_def
      mapping_struct_def mapping_fields_def map_field_def struct_prop_def struct_fields_def map_keyname_def
      mapping_name_def w_held_def less_Suc_eq numeral_eq_Suc nth_Cons'
      conj_disj_distribR conj_disj_distribL ex_disj_distrib)

lemma mask_follows_bindings_witness:
  "\<exists>ks1 m rd ks2. run_keys \<lparr>bound_function = Some \<lparr>parms_size = 48, parms = []\<rparr>, library_there = True\<rparr> 0
      (replicate 600 w_engine) new_key_state = Some ks1 \<and>
    read_keys \<lparr>bound_function = Some \<lparr>parms_size = 48, parms = []\<rparr>, library_there = True\<rparr> w_engine 601 ks1 =
      Some ((m, rd), ks2) \<and> (\<forall>b. bit m b \<longleftrightarrow> b = 0)"
proof -
  let ?f = "\<lparr>parms_size = 32, parms = [w_key 0, Prop ''ReturnValue'' ''BoolProperty'' 24 1 None]\<rparr>"
  have k: "\<not> key_layout_refused (key_call_of w_engine new_key_state)" "key_fn (key_call_of w_engine new_key_state) = Some ?f"
    by (simp_all add: key_call_of_def w_engine_def new_key_state_def new_key_layout_def resolve_key_def w_key_def
        key_param_def struct_prop_def struct_fields_def keyname_field_def key_layout_ok_def PARMS_CAP_def)
  have l: "loads_alike w_engine w_engine" by (simp add: loads_alike_def w_engine_def w_key_def)
  have "off = 8 \<and> ret = 24" if "key_at ?f off ret" for off ret
    using that by (auto simp: key_at_def w_key_def struct_prop_def struct_fields_def)
  then have a: "answers_keys ?f (eng_down w_engine) w_held"
    by (auto simp: answers_keys_def w_engine_def)
  show ?thesis
    using mask_follows_bindings [OF _ _ _ _ l k _ _ _ a w_engine_harvestable, where before = "[]" and es = "replicate 600 w_engine"
        and lib = "\<lparr>bound_function = Some \<lparr>parms_size = 48, parms = []\<rparr>, library_there = True\<rparr>"]
    by (simp add: w_engine_button settled_def)
qed

section \<open>A missing library\<close>

text \<open>
  The refusal announces that buttons still record. A missing function is read the moment it is refused, and a
  missing library object is called once the stick's asset is there.
\<close>

lemma missing_function_read:
  assumes "bound_function lib = None" and "\<not> layout_resolved (bound ks)" and "\<not> layout_refused (bound ks)"
  shows "read_keys lib e f ks = None"
  using assms by (simp add: read_keys_def prepare_keys_def resolve_bound_def)

lemma missing_library_called:
  assumes "\<not> library_there lib" and "bound_function lib = Some fn" and "\<not> layout_resolved (bound ks)" "\<not> layout_refused (bound ks)"
    and "plausible (fold bound_param (parms fn) ((bound ks)\<lparr>layout_refused := True, bound_parms := parms_size fn\<rparr>))"
    and "resolve_slot f (eng_find e) MOVE (move_asset (slots ks)) \<noteq> None"
  shows "read_keys lib e f ks = None"
proof -
  obtain ks' where k: "prepare_keys lib e f ks = Some ks'" and b: "layout_resolved (bound ks')"
    using assms by (simp add: prepare_keys_def resolve_bound_def build_keys_def Let_def)
  have "move_asset (slots ks') \<noteq> None"
    using prepare_keys_frame(1) [OF k] assms(6) by (simp add: resolve_slots_def)
  then show ?thesis using assms(1) k b by (simp add: read_keys_def read_value_def)
qed

end
