(* ===== verification/Spec2Isabelle.thy ===== *)
theory Spec2Isabelle
  imports Bridge_Machine Launcher_Props Session_Props Ghost_Props Line_Props Input_Panel
    Json_Spaced Local_Props Local_Counts Local_Trail Flyer_Props Peer_Assets
    Guards Outlines Ghost_Part_Props Nametag_Props Input_Key_Props
begin

text \<open>
  Verification library of MeshGhost's Pseudoregalia adapter: the C++ mod under
  \<^verbatim>\<open>src/adapters/pseudoregalia/MeshGhostPseudo/Mod/src/\<close> that connects the game to the MeshGhost core
  over a loopback socket, shows the other players of a room as ghosts, and reports the local player.

  The program. A network thread (\<^verbatim>\<open>Plugin::on_update\<close>) drives two objects: \<^verbatim>\<open>BridgeClient\<close> finds a core
  among eight ports, says hello, and reads and writes lines of JSON; \<^verbatim>\<open>CoreLauncher\<close> starts a core
  process when no port serves one. The lines received are queued, and the game thread
  (\<^verbatim>\<open>Plugin::game_thread_tick\<close>) drains the queue through \<^verbatim>\<open>handle_bridge_line\<close> into one \<^verbatim>\<open>RemoteGhost\<close>
  per player, then steps every ghost's pawn. \<^verbatim>\<open>PeerJson.hpp\<close> is the reader both use on what a peer sent.

  The theories.
  \<^item> \<^verbatim>\<open>Prelude\<close>: bytes, byte strings, the list lemmas shared by all. \<^verbatim>\<open>Doubles\<close>: what the code uses of
    \<^verbatim>\<open>double\<close> and \<^verbatim>\<open>float\<close>, number scanning included; the locale \<^verbatim>\<open>rounding\<close>, interpreted for both formats.
  \<^item> \<^verbatim>\<open>Json_Strings\<close>, \<^verbatim>\<open>Json_Scan\<close>, \<^verbatim>\<open>Json_Text\<close>, \<^verbatim>\<open>Json_Spaced\<close>, \<^verbatim>\<open>Json_Values\<close>, \<^verbatim>\<open>Json_Top\<close>: \<^verbatim>\<open>PeerJson.hpp\<close>. Escaping and
    decoding, the scoped member readers, numbers and arrays, and the top-level reader, against a grammar
    of well-formed texts (white space included in \<^verbatim>\<open>Json_Spaced\<close>). The locale \<^verbatim>\<open>depth_scanner\<close> holds what the depth-counting loops share; it is
    interpreted on each of them.
  \<^item> \<^verbatim>\<open>Bridge\<close>, \<^verbatim>\<open>Bridge_Framing\<close>, \<^verbatim>\<open>Bridge_Machine\<close>: \<^verbatim>\<open>BridgeClient.cpp\<close>. The object and its methods; the
    framing of lines against a structural reference; the states reachable under any calls and answers,
    the port sweep against a reference search, the cool-downs.
  \<^item> \<^verbatim>\<open>Launcher\<close>, \<^verbatim>\<open>Launcher_Props\<close>: \<^verbatim>\<open>CoreLauncher.cpp\<close>. Paths, configuration, and the one-core-per-game
    state machine.
  \<^item> \<^verbatim>\<open>Remote\<close>, \<^verbatim>\<open>Bridge_Lines\<close>, \<^verbatim>\<open>Line_Props\<close>: \<^verbatim>\<open>Plugin::handle_bridge_line\<close> with its six messages, spawning,
    releasing and parking, and what the lines of peers keep: every stored value in its range, no player
    touched but the one named, at most one spawn a tick, a bounded table of names.
  \<^item> \<^verbatim>\<open>Ghost_Tiers\<close>, \<^verbatim>\<open>Ghost_Tick\<close>, \<^verbatim>\<open>Ghost_Props\<close>: the remotes loop of \<^verbatim>\<open>game_thread_tick\<close>. The distance tiers
    and their knobs; the mirrors that write a peer's state onto its pawn, in the code's order; what they
    promise over whole runs (crouch calls pair up, only chasers damage, a new peer replays nothing).
  \<^item> \<^verbatim>\<open>Input_Capture\<close>, \<^verbatim>\<open>Input_Panel\<close>: the input track. What a frame records, the bounded queue and its
    accounting; a replay's edges and the history panel against run-length coding.
  \<^item> \<^verbatim>\<open>Input_Keys\<close>, \<^verbatim>\<open>Input_Key_Props\<close>: what the track asks the engine before it records: the layouts of its
    three calls, the action assets, the table of bound keys and the reads; the mask follows the bindings.
  \<^item> \<^verbatim>\<open>Session\<close>, \<^verbatim>\<open>Session_Props\<close>: the two threads together, the queue between them, the pause and death
    reports and the level callbacks; every reachable session is well formed.
  \<^item> \<^verbatim>\<open>Registry\<close>: the lists of live objects kept by events (\<^verbatim>\<open>ObjectRegistry\<close>), against the whole-world search
    they stand for; the locale \<^verbatim>\<open>identity_cache\<close>, the contract of the caches kept over such a list.
  \<^item> \<^verbatim>\<open>Local_State\<close>, \<^verbatim>\<open>Local_Line\<close>, \<^verbatim>\<open>Number_Text\<close>, \<^verbatim>\<open>Respelled\<close>, \<^verbatim>\<open>Local_Props\<close>, \<^verbatim>\<open>Local_Counts\<close>, \<^verbatim>\<open>Local_Trail\<close>: the local player. The
    reads of a tick, the counters and caches they feed, the text of the \<^verbatim>\<open>local_state\<close> line, and what the core
    makes of it (the same values, written again) read back by the receiver of \<^verbatim>\<open>Bridge_Lines\<close>. The locale \<^verbatim>\<open>edge_counter\<close> is interpreted on the four event
    counters, \<^verbatim>\<open>identity_cache\<close> on the scans for the recall glow and the effects.
  \<^item> \<^verbatim>\<open>Ghost_Effects\<close>, \<^verbatim>\<open>Effect_Props\<close>, \<^verbatim>\<open>Flyer_Props\<close>: what is shown on a ghost besides its pose. The thrown sword, its
    dust and glow, the shot, the recall glow, the effects of the table, and their release; the effect list
    as a codec between the two ends, the bursts against the rises of the peer's counts.
  \<^item> \<^verbatim>\<open>Peer_Assets\<close>: the lookup of assets that peers name (\<^verbatim>\<open>resolve_peer_named_asset\<close>).
  \<^item> \<^verbatim>\<open>Guards\<close>, \<^verbatim>\<open>Outlines\<close>: what the callbacks before engine functions do to their arguments (camera, fade, damage,
    listener, material place), and the afterimages' outline with its callback and its sweep.
  \<^item> \<^verbatim>\<open>Frames\<close>, \<^verbatim>\<open>Frame_Calls\<close>, \<^verbatim>\<open>Frame_Layouts\<close>, \<^verbatim>\<open>Frame_Props\<close>: the engine calls, as the blocks of parameters the \<^verbatim>\<open>call_*\<close>
    helpers build from a reflected signature; the caches of lookups; what stays inside the block, and what is delivered.
  \<^item> \<^verbatim>\<open>Ghost_Parts\<close>, \<^verbatim>\<open>Ghost_Part_Props\<close>: the objects of a clone read and written through reflected properties. What is taken
    from it after the spawn (\<^verbatim>\<open>ensure_ghost_spawned\<close>), what is held every tick (outline, lights, meshes), the walk over
    attached components, the cameras that may blend.
  \<^item> \<^verbatim>\<open>Widgets\<close>, \<^verbatim>\<open>Indicator\<close>, \<^verbatim>\<open>Indicator_Props\<close>: the widgets on the screen. Handles that survive the collector, the
    \<^verbatim>\<open>hud_*\<close> calls, the recording indicator's tick and the input panels'; the clock is right on every frame it is drawn,
    and none of its widgets stays on screen unwanted.
  \<^item> \<^verbatim>\<open>Tuning\<close>, \<^verbatim>\<open>Tuning_Props\<close>: the numbers of both, read from the configuration and from \<^verbatim>\<open>rec_indicator.txt\<close>; no text
    pushes one out of its range.
  \<^item> \<^verbatim>\<open>Nametags\<close>, \<^verbatim>\<open>Nametag_Props\<close>: the names above the ghosts and the colour plates behind them
    (\<^verbatim>\<open>update_ghost_nametag\<close>), against drawing the wanted name and colour afresh.

  Correspondence. A C++ struct is a record with the code's field names (a Plugin's fields are split by
  the component that owns them and put together in \<^verbatim>\<open>session\<close>); a method is a definition of the same name;
  byte strings are \<open>string\<close>, machine integers words, clock readings \<open>int\<close> nanoseconds or \<open>u64\<close>
  milliseconds. What Windows, Winsock and the engine answer during a step is an argument of it, and what
  is asked of them is a list of calls in the result. A reflected property that the game build lacks is
  \<open>None\<close>.

  Bounds and fuel. No definition takes fuel. Index loops carry a measure (the distance to the end of
  the text) and return on every input; \<^verbatim>\<open>module_path\<close>, which doubles a buffer until a path fits, is a
  partial function and is proved to return for every path. Queues are bounded as in the code:
  16 KiB of unparsed bytes, 256 waiting input edges, 2048 waiting lines before a collapse, 1024
  remembered names.

  Not modelled. Blocks behind a constant that ships as false (traces, the blink mirror, the reconstructed trail
  triggers, the world-space indicator); the taking over of an actor already placed in the level; the drive rig, probes
  and dumps, which nothing shipped switches on; registering the callbacks with UE4SS (a library that is not under
  \<^verbatim>\<open>src/\<close>; what they do to their arguments is modelled); the engine itself, which answers through arguments;
  \<^verbatim>\<open>dllmain.cpp\<close>; the fuzz test; log output. The two threads' steps are atomic: each holds \<^verbatim>\<open>state_mutex\<close>
  around what it shares, and preemption between the critical sections of one step is not modelled. The Go
  core and relay and the Lua and C# adapters are other programs, reached here only through their lines.
\<close>

end
